(* ===== verification/Prelude.thy ===== *)
theory Prelude
  imports Main "HOL-Library.Word" "HOL-Library.Char_ord" "HOL-Library.List_Lexorder"
begin

text \<open>
  Shared vocabulary of the development: the Go types and standard-library functions the panel
  uses (byte strings, trimming, ASCII case mapping, splitting and joining, 64-bit integers),
  generic lemmas on lists that several components need, and the collections of facts the
  component proofs are driven by.

  A Go string is its sequence of bytes, so \<open>string\<close> (a list of 8-bit characters) is the model
  of both \<open>string\<close> and \<open>[]byte\<close>. Case mapping and trimming follow Go on ASCII text; bytes from
  128 up are left as they are.
\<close>

named_theorems pres "operations that preserve an invariant of the store"
named_theorems frame "what an operation leaves unchanged"
named_theorems db_simps "evaluation of the statements of the store"

type_synonym bytes = "char list"
type_synonym u32 = "32 word"
type_synonym u64 = "64 word"

subsection \<open>Integers\<close>

text \<open>Go's \<open>int64\<close> arithmetic, on \<open>int\<close> with the wrap-around written out.\<close>

definition wrap64 :: "int \<Rightarrow> int" where
  "wrap64 x = (x + 2 ^ 63) mod 2 ^ 64 - 2 ^ 63"

lemma wrap64_id [simp]: "- (2 ^ 63) \<le> x \<Longrightarrow> x < 2 ^ 63 \<Longrightarrow> wrap64 x = x"
  by (simp add: wrap64_def)

lemma wrap64_range: "- (2 ^ 63) \<le> wrap64 x" "wrap64 x < 2 ^ 63"
proof -
  have "0 \<le> (x + 2 ^ 63) mod 2 ^ 64" and "(x + 2 ^ 63) mod 2 ^ 64 < (2 ^ 64 :: int)"
    by simp_all
  then show "- (2 ^ 63) \<le> wrap64 x" "wrap64 x < 2 ^ 63"
    by (simp_all add: wrap64_def)
qed

text \<open>The conversion \<open>uint64(v)\<close> of an \<open>int64\<close>, and the reading of a counter as \<open>int\<close>.\<close>

definition u64_of :: "int \<Rightarrow> u64" where
  "u64_of v = word_of_int v"

lemma uint_u64_of [simp]: "0 \<le> v \<Longrightarrow> v < 2 ^ 64 \<Longrightarrow> uint (u64_of v) = v"
  by (simp add: u64_of_def uint_word_of_int)

lemma uint_diff_u64: "(b :: u64) \<le> a \<Longrightarrow> uint (a - b) = uint a - uint b"
  by (simp add: word_le_def uint_sub_if')

lemma uint_u64_less: "uint (a :: u64) < 2 ^ 64"
  using uint_lt2p [of a] by simp

subsection \<open>Strings\<close>

definition is_space :: "char \<Rightarrow> bool" where
  "is_space c \<longleftrightarrow> (let n = of_char c :: nat in n = 32 \<or> (9 \<le> n \<and> n \<le> 13))"

definition trim_left :: "string \<Rightarrow> string" where
  "trim_left s = dropWhile is_space s"

definition trim_space :: "string \<Rightarrow> string" where
  "trim_space s = rev (trim_left (rev (trim_left s)))"

definition lower_char :: "char \<Rightarrow> char" where
  "lower_char c = (let n = of_char c :: nat in
     if 65 \<le> n \<and> n \<le> 90 then char_of (n + 32) else c)"

definition upper_char :: "char \<Rightarrow> char" where
  "upper_char c = (let n = of_char c :: nat in
     if 97 \<le> n \<and> n \<le> 122 then char_of (n - 32) else c)"

definition to_lower :: "string \<Rightarrow> string" where
  "to_lower s = map lower_char s"

definition to_upper :: "string \<Rightarrow> string" where
  "to_upper s = map upper_char s"

definition has_prefix :: "string \<Rightarrow> string \<Rightarrow> bool" where
  "has_prefix s p \<longleftrightarrow> take (length p) s = p"

definition trim_prefix :: "string \<Rightarrow> string \<Rightarrow> string" where
  "trim_prefix s p = (if has_prefix s p then drop (length p) s else s)"

text \<open>\<open>strings.Split\<close> on a one-byte separator and \<open>strings.Join\<close>.\<close>

fun split_on :: "char \<Rightarrow> string \<Rightarrow> string list" where
  "split_on sep [] = [[]]"
| "split_on sep (c # cs) =
     (if c = sep then [] # split_on sep cs
      else (case split_on sep cs of [] \<Rightarrow> [[c]] | w # ws \<Rightarrow> (c # w) # ws))"

fun join_with :: "string \<Rightarrow> string list \<Rightarrow> string" where
  "join_with sep [] = []"
| "join_with sep [w] = w"
| "join_with sep (w # v # ws) = w @ sep @ join_with sep (v # ws)"

text \<open>\<open>strconv.FormatInt(n, 10)\<close>\<close>

fun nat_digits :: "nat \<Rightarrow> string" where
  "nat_digits n = (if n < 10 then [char_of (48 + n)] else nat_digits (n div 10) @ [char_of (48 + n mod 10)])"

declare nat_digits.simps [simp del]

definition itoa :: "int \<Rightarrow> string" where
  "itoa i = (if i < 0 then ''-'' @ nat_digits (nat (- i)) else nat_digits (nat i))"

lemma split_on_nonempty [simp]: "split_on sep s \<noteq> []"
  by (induction s) (auto split: list.splits)

lemma split_on_no_sep: "sep \<notin> set w \<Longrightarrow> split_on sep w = [w]"
  by (induction w) auto

lemma split_on_append_sep:
  "sep \<notin> set w \<Longrightarrow> split_on sep (w @ sep # s) = w # split_on sep s"
  by (induction w) auto

text \<open>Splitting what was joined gives the words back, if no word holds the separator.\<close>

lemma split_join:
  "ws \<noteq> [] \<Longrightarrow> \<forall>w \<in> set ws. sep \<notin> set w \<Longrightarrow> split_on sep (join_with [sep] ws) = ws"
  by (induction "[sep]" ws rule: join_with.induct) (auto simp: split_on_no_sep split_on_append_sep)

lemma set_trim_left: "set (trim_left s) \<subseteq> set s"
  by (auto simp: trim_left_def dest: set_dropWhileD)

lemma set_trim_space: "set (trim_space s) \<subseteq> set s"
  using set_trim_left [of "rev (trim_left s)"] set_trim_left [of s] by (auto simp: trim_space_def)

lemma trim_nil [simp]: "trim_left [] = []" "trim_space [] = []"
  by (simp_all add: trim_space_def trim_left_def)

lemma trim_left_idem [simp]: "trim_left (trim_left s) = trim_left s"
  by (induction s) (auto simp: trim_left_def)

lemma trim_left_fixed: "trim_left s = s \<longleftrightarrow> s = [] \<or> \<not> is_space (hd s)"
  by (auto simp: trim_left_def dropWhile_eq_self_iff)

lemma hd_rev_trim_left:
  assumes "s \<noteq> []" "\<not> is_space (hd s)"
  shows "rev (trim_left (rev s)) \<noteq> [] \<and> hd (rev (trim_left (rev s))) = hd s"
proof -
  let ?t = "trim_left (rev s)"
  have "hd s \<in> set (rev s)" using assms(1) by simp
  then have ne: "?t \<noteq> []"
    using assms(2) by (auto simp: trim_left_def dropWhile_eq_Nil_conv)
  have "rev s = takeWhile is_space (rev s) @ ?t"
    by (simp add: trim_left_def)
  then have "last (rev s) = last ?t"
    using ne by (metis last_append)
  then show ?thesis using ne assms(1) by (simp add: hd_rev last_rev)
qed

lemma trim_space_idem [simp]: "trim_space (trim_space s) = trim_space s"
proof (cases "trim_left s = []")
  case True
  then show ?thesis by (simp add: trim_space_def trim_left_def del: dropWhile_eq_Nil_conv)
next
  case False
  let ?u = "trim_left s"
  have nsp: "\<not> is_space (hd ?u)" using trim_left_fixed [of ?u] False by simp
  have "trim_left (rev (trim_left (rev ?u))) = rev (trim_left (rev ?u))"
    using hd_rev_trim_left [OF False nsp] nsp by (subst trim_left_fixed) simp
  then show ?thesis by (simp add: trim_space_def)
qed

lemma to_upper_char_idem [simp]: "upper_char (upper_char c) = upper_char c"
  by (auto simp: upper_char_def Let_def)

lemma to_lower_char_idem [simp]: "lower_char (lower_char c) = lower_char c"
  by (auto simp: lower_char_def Let_def)

lemma to_lower_idem [simp]: "to_lower (to_lower s) = to_lower s"
  by (simp add: to_lower_def)

lemma to_upper_idem [simp]: "to_upper (to_upper s) = to_upper s"
  by (simp add: to_upper_def)

subsection \<open>Lists\<close>

lemma filter_map_if_not: "filter P (map (\<lambda>r. if Q r then f r else r) rs) =
    map (\<lambda>r. if Q r then f r else r) (filter (\<lambda>r. P (if Q r then f r else r)) rs)"
  by (simp add: filter_map comp_def)

lemma length_filter_zero: "length (filter P xs) = 0 \<longleftrightarrow> (\<forall>x \<in> set xs. \<not> P x)"
  by (auto simp: filter_empty_conv)

lemma distinct_map_update_key:
  "(\<And>r. key (f r) = key r) \<Longrightarrow>
   map key (map (\<lambda>r. if Q r then f r else r) rs) = map key rs"
  by auto

lemma find_None_filter: "find P xs = None \<longleftrightarrow> filter P xs = []"
  by (auto simp: find_None_iff filter_empty_conv)

lemma distinct_key_unique:
  "distinct (map key xs) \<Longrightarrow> x \<in> set xs \<Longrightarrow> y \<in> set xs \<Longrightarrow> key x = key y \<Longrightarrow> x = y"
  by (auto simp: distinct_map dest: inj_onD)

lemma find_key:
  "distinct (map key xs) \<Longrightarrow> x \<in> set xs \<Longrightarrow> find (\<lambda>y. key y = key x) xs = Some x"
  by (induction xs) (force split: if_splits)+

lemma filter_key:
  "distinct (map key xs) \<Longrightarrow>
   filter (\<lambda>x. key x = k) xs = (case find (\<lambda>x. key x = k) xs of None \<Rightarrow> [] | Some x \<Rightarrow> [x])"
proof (induction xs)
  case (Cons a xs)
  show ?case
  proof (cases "key a = k")
    case True
    then have "k \<notin> key ` set xs" using Cons.prems by simp
    then have "filter (\<lambda>x. key x = k) xs = []" by (auto simp: filter_empty_conv)
    then show ?thesis using True by simp
  qed (use Cons in auto)
qed simp

lemma find_append_cases:
  "find P (xs @ ys) = (case find P xs of None \<Rightarrow> find P ys | Some x \<Rightarrow> Some x)"
  by (induction xs) auto

lemma find_filter_other:
  "(\<And>x. P x \<Longrightarrow> Q x) \<Longrightarrow> find P (filter Q xs) = find P xs"
  by (induction xs) auto

lemma find_filter_keep: "find P xs = Some r \<Longrightarrow> Q r \<Longrightarrow> find P (filter Q xs) = Some r"
  by (induction xs) (auto split: if_splits)

end
