(* ===== verification/Rows.thy ===== *)
theory Rows
  imports Prelude
begin

text \<open>
  The row types of every table of the panel's database, one record per GORM model of
  \<^verbatim>\<open>internal/storage/dbmodel/models.go\<close>, column by column in the order of the source. A
  nullable column (a Go pointer) is an \<open>option\<close>; \<open>int64\<close> columns, which hold ids, flags and
  timestamps, are \<open>int\<close>; byte counters are \<^typ>\<open>u64\<close>. A column that holds the JSON text of a map
  (\<^verbatim>\<open>touched_fields\<close>) is the list of its entries, empty when the column is.
\<close>

record admin_row =
  adm_id :: int
  adm_username :: string
  adm_password_hash :: string
  adm_must_change_password :: int
  adm_role :: string
  adm_panel_access :: int
  adm_last_login_at :: int
  adm_avatar_mime :: string
  adm_avatar_png :: "bytes option"
  adm_avatar_blob :: string
  adm_avatar_version :: int
  adm_vk_links :: string
  adm_suspended_at :: int
  adm_suspended_reason :: string
  adm_suspended_by_root :: int
  adm_panel_requested_at :: int
  adm_account_subject :: "string option"
  adm_account_name :: string
  adm_access_token :: string
  adm_refresh_token :: string
  adm_token_expires :: int
  adm_created_at :: int
  adm_updated_at :: int

record blob_row =
  bl_hash :: string
  bl_mime :: string
  bl_data :: bytes
  bl_size :: int
  bl_created_at :: int

record session_row =
  se_id :: string
  se_admin_id :: int
  se_expires_at :: int
  se_created_at :: int

record client_row =
  cl_id :: string
  cl_owner :: int
  cl_name :: string
  cl_token_hash :: string
  cl_token_plain :: bytes
  cl_hwid :: string
  cl_device_name :: string
  cl_device_model :: string
  cl_os_version :: string
  cl_app_version :: string
  cl_created_at :: int
  cl_last_seen_at :: int
  cl_online :: int
  cl_last_peer_ip :: string
  cl_log_runtime :: int
  cl_log_proxy :: int
  cl_log_xray :: int
  cl_sync_mode :: string
  cl_periodic_minutes :: int
  cl_root_access :: int
  cl_vk_oauth :: int
  cl_remote_control :: int
  cl_disabled :: int
  cl_traffic_limit :: u64

record client_traffic_row =
  ct_client_id :: string
  ct_used_bytes :: u64
  ct_last_rx :: u64
  ct_last_tx :: u64
  ct_reset_period_days :: int
  ct_next_reset_unix :: int

record client_config_row =
  cc_client_id :: string
  cc_config_proto :: bytes
  cc_revision :: string
  cc_updated_at :: int
  cc_config_version :: int
  cc_touched_fields :: "(string \<times> int) list"

record client_blob_row =
  cb_client_id :: string
  cb_proto :: bytes
  cb_updated_at :: int

record client_log_row =
  lg_client_id :: string
  lg_stream :: int
  lg_seq :: int
  lg_ts :: int
  lg_text :: string

record pending_row =
  pc_id :: int
  pc_client_id :: string
  pc_command_type :: int
  pc_subscription_id :: string
  pc_queued_at :: int
  pc_expires_at :: int

record audit_row =
  au_id :: int
  au_ts :: int
  au_actor :: "int option"
  au_actor_username :: string
  au_action :: string
  au_target_type :: string
  au_target_id :: string
  au_message :: string
  au_ip :: string

record setting_row =
  ps_key :: string
  ps_value :: string

record invite_row =
  iv_token :: string
  iv_created_at :: int
  iv_expires_at :: int
  iv_used_at :: int
  iv_used_by :: "int option"
  iv_created_by :: "int option"
  iv_max_uses :: int
  iv_use_count :: int

record redemption_row =
  rd_token :: string
  rd_admin_id :: int
  rd_created_at :: int

record node_row =
  nd_id :: string
  nd_kind :: string
  nd_name :: string
  nd_grpc_endpoint :: string
  nd_grpc_token :: string
  nd_ca_pin :: bytes
  nd_status :: string
  nd_owner :: int
  nd_last_seen_at :: int
  nd_xray_state :: string
  nd_xray_version :: string
  nd_relay_version :: string
  nd_wg_backend :: string
  nd_xui_node_id :: string
  nd_xui_inbound_tag :: string
  nd_created_at :: int

record wg_peer_row =
  wp_client_id :: string
  wp_node_id :: string
  wp_public_key :: string
  wp_private_key :: string
  wp_allowed_ips :: string
  wp_server_public_key :: string
  wp_endpoint :: string
  wp_created_at :: int

record sample_row =
  ts_id :: int
  ts_node_id :: string
  ts_ts :: int
  ts_rx_bytes :: u64
  ts_tx_bytes :: u64
  ts_active_streams :: u32
  ts_active_sessions :: u32
  ts_peer_count :: u32

record flow_row =
  fl_id :: int
  fl_node_id :: string
  fl_session_id :: string
  fl_stream_id :: u32
  fl_client_ip :: string
  fl_remote :: string
  fl_protocol :: string
  fl_version :: u32
  fl_rx_bytes :: u64
  fl_tx_bytes :: u64
  fl_rx_rate :: u64
  fl_tx_rate :: u64
  fl_started_unix :: int
  fl_sampled_unix :: int

record connection_row =
  cn_id :: int
  cn_node_id :: string
  cn_session_id :: string
  cn_stream_id :: u32
  cn_started_unix :: int
  cn_client_ip :: string
  cn_remote :: string
  cn_protocol :: string
  cn_rx_bytes :: u64
  cn_tx_bytes :: u64
  cn_first_seen :: int
  cn_last_seen :: int

record peer_traffic_row =
  pt_node_id :: string
  pt_public_key :: string
  pt_rx_bytes :: u64
  pt_tx_bytes :: u64
  pt_sampled_unix :: int

record rollup_row =
  ru_admin_id :: int
  ru_own_bytes :: u64
  ru_subtree_bytes :: u64
  ru_own_clients :: int
  ru_subtree_clients :: int
  ru_subtree_admins :: int
  ru_updated_at :: int

record node_total_row =
  nt_node_id :: string
  nt_rx_total :: u64
  nt_tx_total :: u64
  nt_last_rx :: u64
  nt_last_tx :: u64

record app_session_row =
  as_id :: string
  as_admin_id :: int
  as_token_hash :: string
  as_device_name :: string
  as_created_at :: int
  as_last_seen_at :: int
  as_expires_at :: int

record totp_row =
  tp_admin_id :: int
  tp_secret :: string
  tp_confirmed_at :: int
  tp_created_at :: int

record totp_backup_row =
  tb_admin_id :: int
  tb_code_hash :: string
  tb_used_at :: int

record package_row =
  pm_package :: string
  pm_label :: string
  pm_icon_png :: bytes
  pm_updated_at :: int

record master_row =
  ma_admin_id :: int
  ma_config_proto :: bytes
  ma_sync_mode :: string
  ma_periodic_minutes :: int
  ma_scope_flags :: string
  ma_updated_at :: int

text \<open>
  The identities the schema declares: primary keys and unique indexes that span columns.
\<close>

definition log_key :: "client_log_row \<Rightarrow> string \<times> int \<times> int" where
  "log_key r = (lg_client_id r, lg_stream r, lg_seq r)"

definition wg_key :: "wg_peer_row \<Rightarrow> string \<times> string" where
  "wg_key r = (wp_client_id r, wp_node_id r)"

definition pt_key :: "peer_traffic_row \<Rightarrow> string \<times> string" where
  "pt_key r = (pt_node_id r, pt_public_key r)"

definition cn_key :: "connection_row \<Rightarrow> string \<times> string \<times> u32 \<times> int" where
  "cn_key r = (cn_node_id r, cn_session_id r, cn_stream_id r, cn_started_unix r)"

definition rd_key :: "redemption_row \<Rightarrow> string \<times> int" where
  "rd_key r = (rd_token r, rd_admin_id r)"

definition tb_key :: "totp_backup_row \<Rightarrow> int \<times> string" where
  "tb_key r = (tb_admin_id r, tb_code_hash r)"

end
