(* ===== verification/Store.thy ===== *)
theory Store
  imports Rows
begin

text \<open>
  The database the panel keeps its state in, and the statements the storage layer sends to it.

  \<^verbatim>\<open>internal/storage\<close> keeps everything in SQL tables behind a \<^verbatim>\<open>*gorm.DB\<close>. The model is the
  state of those tables, a record with one list of rows per table (in insertion order) and the
  next id of every auto-increment column, and each SQL statement of the source is the update of
  the tables that it denotes. The engine itself is not under \<^verbatim>\<open>src/\<close>: whether a statement fails
  is a parameter, the list \<open>faults\<close>, whose head says whether the next statement is refused. An
  empty list is an engine that works. \<open>clock\<close> is the time \<^verbatim>\<open>time.Now\<close> reads, in milliseconds.

  Per dialect: SQLite declares foreign keys with \<^verbatim>\<open>ON DELETE\<close> actions in \<^verbatim>\<open>schema.sql\<close>, the
  other two are created from the models and have none; MariaDB counts as affected only the rows
  an \<^verbatim>\<open>UPDATE\<close> changes; PostgreSQL refuses an upsert that names one key twice.
\<close>

datatype driver = DriverSQLite | DriverPostgres | DriverMySQL

datatype error =
    ErrDb
  | ErrConstraint
  | ErrRecordNotFound
  | ErrNotFound
  | ErrCannotSuspendOwner
  | ErrAccountTaken
  | ErrAuditAction

record store =
  driver :: driver
  clock :: int
  faults :: "bool list"
  admins :: "admin_row list"
  admins_seq :: int
  blobs :: "blob_row list"
  sessions :: "session_row list"
  clients :: "client_row list"
  ctraffic :: "client_traffic_row list"
  cconfigs :: "client_config_row list"
  creported :: "client_blob_row list"
  cruntime :: "client_blob_row list"
  capps :: "client_blob_row list"
  clogs :: "client_log_row list"
  pending :: "pending_row list"
  pending_seq :: int
  audits :: "audit_row list"
  audits_seq :: int
  settings :: "setting_row list"
  invites :: "invite_row list"
  redemptions :: "redemption_row list"
  nodes :: "node_row list"
  wgpeers :: "wg_peer_row list"
  samples :: "sample_row list"
  samples_seq :: int
  flows :: "flow_row list"
  flows_seq :: int
  connections :: "connection_row list"
  connections_seq :: int
  ptraffic :: "peer_traffic_row list"
  rollups :: "rollup_row list"
  ntotals :: "node_total_row list"
  appsessions :: "app_session_row list"
  totps :: "totp_row list"
  totpbackups :: "totp_backup_row list"
  packages :: "package_row list"
  masters :: "master_row list"

definition empty_store :: "driver \<Rightarrow> int \<Rightarrow> store" where
  "empty_store d now = \<lparr>driver = d, clock = now, faults = [], admins = [], admins_seq = 1,
     blobs = [], sessions = [], clients = [], ctraffic = [], cconfigs = [], creported = [],
     cruntime = [], capps = [], clogs = [], pending = [], pending_seq = 1, audits = [],
     audits_seq = 1, settings = [], invites = [], redemptions = [], nodes = [], wgpeers = [],
     samples = [], samples_seq = 1, flows = [], flows_seq = 1, connections = [],
     connections_seq = 1, ptraffic = [], rollups = [], ntotals = [], appsessions = [],
     totps = [], totpbackups = [], packages = [], masters = []\<rparr>"

text \<open>\<^verbatim>\<open>time.Now().Unix()\<close>; \<open>clock\<close> itself is \<^verbatim>\<open>time.Now().UnixMilli()\<close>.\<close>

definition now_unix :: "store \<Rightarrow> int" where
  "now_unix s = clock s div 1000"

subsection \<open>Operations that may fail\<close>

type_synonym 'a db = "store \<Rightarrow> (error + 'a) \<times> store"

definition ret :: "'a \<Rightarrow> 'a db" where
  "ret x s = (Inr x, s)"

definition fail :: "error \<Rightarrow> 'a db" where
  "fail e s = (Inl e, s)"

text \<open>\<open>bindE m k\<close> is Go's \<^verbatim>\<open>x, err := m; if err != nil { return err }; k(x)\<close>.\<close>

definition bindE :: "'a db \<Rightarrow> ('a \<Rightarrow> 'b db) \<Rightarrow> 'b db" where
  "bindE m k s = (case m s of (Inl e, s') \<Rightarrow> (Inl e, s') | (Inr x, s') \<Rightarrow> k x s')"

text \<open>\<open>attempt m\<close> hands the error to the caller as a value, as \<^verbatim>\<open>x, err := m\<close> does.\<close>

definition attempt :: "'a db \<Rightarrow> (error + 'a) db" where
  "attempt m s = (case m s of (r, s') \<Rightarrow> (Inr r, s'))"

text \<open>Reading something that is not a statement (the clock, the driver).\<close>

definition asks :: "(store \<Rightarrow> 'a) \<Rightarrow> 'a db" where
  "asks f s = (Inr (f s), s)"

text \<open>\<^verbatim>\<open>for _, x := range xs { if err := f(x); err != nil { return err } }\<close>\<close>

fun forE :: "'a list \<Rightarrow> ('a \<Rightarrow> unit db) \<Rightarrow> unit db" where
  "forE [] f = ret ()"
| "forE (x # xs) f = bindE (f x) (\<lambda>_. forE xs f)"

subsection \<open>Statements\<close>

definition stmt :: "'a db \<Rightarrow> 'a db" where
  "stmt f s = (case faults s of
     [] \<Rightarrow> f s
   | b # bs \<Rightarrow> if b then (Inl ErrDb, s\<lparr>faults := bs\<rparr>) else f (s\<lparr>faults := bs\<rparr>))"

text \<open>\<^verbatim>\<open>SELECT\<close>; \<open>query_first\<close> is \<^verbatim>\<open>.First(&row)\<close> / \<^verbatim>\<open>.Take(&row)\<close>.\<close>

definition select :: "(store \<Rightarrow> 'a) \<Rightarrow> 'a db" where
  "select f = stmt (asks f)"

definition query_first :: "(store \<Rightarrow> 'a option) \<Rightarrow> 'a db" where
  "query_first f = stmt (\<lambda>s. (case f s of None \<Rightarrow> Inl ErrRecordNotFound | Some r \<Rightarrow> Inr r, s))"

text \<open>
  The pattern around \<^verbatim>\<open>First\<close>: \<^verbatim>\<open>if errors.Is(err, gorm.ErrRecordNotFound) { return ErrNotFound }\<close>.
\<close>

definition find_row :: "(store \<Rightarrow> 'a option) \<Rightarrow> 'a db" where
  "find_row f s = (case query_first f s of
     (Inl ErrRecordNotFound, s') \<Rightarrow> (Inl ErrNotFound, s') | r \<Rightarrow> r)"

definition exec :: "(store \<Rightarrow> store) \<Rightarrow> unit db" where
  "exec f = stmt (\<lambda>s. (Inr (), f s))"

definition affected :: "driver \<Rightarrow> ('r \<Rightarrow> bool) \<Rightarrow> ('r \<Rightarrow> 'r) \<Rightarrow> 'r list \<Rightarrow> nat" where
  "affected d P f rs =
     length (filter (\<lambda>r. P r \<and> (d = DriverMySQL \<longrightarrow> f r \<noteq> r)) rs)"

definition update_where :: "('r \<Rightarrow> bool) \<Rightarrow> ('r \<Rightarrow> 'r) \<Rightarrow> 'r list \<Rightarrow> 'r list" where
  "update_where P f rs = map (\<lambda>r. if P r then f r else r) rs"

text \<open>\<^verbatim>\<open>UPDATE ... WHERE P\<close>, with \<^verbatim>\<open>RowsAffected\<close> as its result.\<close>

definition update_rows ::
  "(store \<Rightarrow> 'r list) \<Rightarrow> (('r list \<Rightarrow> 'r list) \<Rightarrow> store \<Rightarrow> store) \<Rightarrow>
   ('r \<Rightarrow> bool) \<Rightarrow> ('r \<Rightarrow> 'r) \<Rightarrow> nat db" where
  "update_rows get put P f =
     stmt (\<lambda>s. (Inr (affected (driver s) P f (get s)), put (update_where P f) s))"

text \<open>\<^verbatim>\<open>DELETE ... WHERE P\<close> on a table no foreign key points at.\<close>

definition delete_rows ::
  "(store \<Rightarrow> 'r list) \<Rightarrow> (('r list \<Rightarrow> 'r list) \<Rightarrow> store \<Rightarrow> store) \<Rightarrow>
   ('r \<Rightarrow> bool) \<Rightarrow> nat db" where
  "delete_rows get put P =
     stmt (\<lambda>s. (Inr (length (filter P (get s))), put (filter (\<lambda>r. \<not> P r)) s))"

text \<open>\<^verbatim>\<open>INSERT\<close>: refused when a key or a foreign key would be broken.\<close>

definition insert_row ::
  "(('r list \<Rightarrow> 'r list) \<Rightarrow> store \<Rightarrow> store) \<Rightarrow> (store \<Rightarrow> bool) \<Rightarrow> 'r \<Rightarrow> unit db" where
  "insert_row put ok r =
     stmt (\<lambda>s. if ok s then (Inr (), put (\<lambda>rs. rs @ [r]) s) else (Inl ErrConstraint, s))"

text \<open>\<^verbatim>\<open>INSERT ... ON CONFLICT (key) DO UPDATE SET upd\<close>, for a batch of rows.\<close>

definition upsert_one ::
  "('r \<Rightarrow> 'k) \<Rightarrow> ('r \<Rightarrow> 'r \<Rightarrow> 'r) \<Rightarrow> 'r \<Rightarrow> 'r list \<Rightarrow> 'r list" where
  "upsert_one key upd r rs =
     (if key r \<in> set (map key rs) then update_where (\<lambda>r'. key r' = key r) (upd r) rs
      else rs @ [r])"

definition upsert_rows ::
  "(('r list \<Rightarrow> 'r list) \<Rightarrow> store \<Rightarrow> store) \<Rightarrow> ('r \<Rightarrow> 'k) \<Rightarrow>
   ('r \<Rightarrow> 'r \<Rightarrow> 'r) \<Rightarrow> (store \<Rightarrow> 'r \<Rightarrow> bool) \<Rightarrow> 'r list \<Rightarrow> unit db" where
  "upsert_rows put key upd ok rows =
     stmt (\<lambda>s. if list_all (ok s) rows \<and> (driver s = DriverPostgres \<longrightarrow> distinct (map key rows))
               then (Inr (), put (fold (upsert_one key upd) rows) s)
               else (Inl ErrConstraint, s))"

text \<open>
  \<^verbatim>\<open>gdb.Transaction\<close>: \<^verbatim>\<open>BEGIN\<close> and \<^verbatim>\<open>COMMIT\<close> are statements that may fail; an error of the body or
  of the commit rolls every change back.
\<close>

definition transaction :: "'a db \<Rightarrow> 'a db" where
  "transaction m s = (case stmt (ret ()) s of
     (Inl e, s1) \<Rightarrow> (Inl e, s1)
   | (Inr _, s1) \<Rightarrow>
       (case m s1 of
          (Inl e, s2) \<Rightarrow> (Inl e, s1\<lparr>faults := faults s2\<rparr>)
        | (Inr x, s2) \<Rightarrow>
            (case stmt (ret ()) s2 of
               (Inl e, s3) \<Rightarrow> (Inl e, s1\<lparr>faults := faults s3\<rparr>)
             | (Inr _, s3) \<Rightarrow> (Inr x, s3))))"

subsection \<open>Foreign keys\<close>

definition fk_admin :: "int \<Rightarrow> store \<Rightarrow> bool" where
  "fk_admin i s \<longleftrightarrow> driver s = DriverSQLite \<longrightarrow> i \<in> adm_id ` set (admins s)"

definition fk_client :: "string \<Rightarrow> store \<Rightarrow> bool" where
  "fk_client c s \<longleftrightarrow> driver s = DriverSQLite \<longrightarrow> c \<in> cl_id ` set (clients s)"

definition fk_node :: "string \<Rightarrow> store \<Rightarrow> bool" where
  "fk_node n s \<longleftrightarrow> driver s = DriverSQLite \<longrightarrow> n \<in> nd_id ` set (nodes s)"

text \<open>\<^verbatim>\<open>ON DELETE CASCADE\<close> of the tables that reference \<^verbatim>\<open>clients(id)\<close>.\<close>

definition drop_client_rows :: "(string \<Rightarrow> bool) \<Rightarrow> store \<Rightarrow> store" where
  "drop_client_rows D s = s\<lparr>
     ctraffic := filter (\<lambda>r. \<not> D (ct_client_id r)) (ctraffic s),
     cconfigs := filter (\<lambda>r. \<not> D (cc_client_id r)) (cconfigs s),
     creported := filter (\<lambda>r. \<not> D (cb_client_id r)) (creported s),
     cruntime := filter (\<lambda>r. \<not> D (cb_client_id r)) (cruntime s),
     capps := filter (\<lambda>r. \<not> D (cb_client_id r)) (capps s),
     clogs := filter (\<lambda>r. \<not> D (lg_client_id r)) (clogs s),
     pending := filter (\<lambda>r. \<not> D (pc_client_id r)) (pending s),
     wgpeers := filter (\<lambda>r. \<not> D (wp_client_id r)) (wgpeers s)\<rparr>"

definition cascade_clients :: "(string \<Rightarrow> bool) \<Rightarrow> store \<Rightarrow> store" where
  "cascade_clients D s = (if driver s = DriverSQLite then drop_client_rows D s else s)"

text \<open>
  \<^verbatim>\<open>DELETE FROM clients WHERE P\<close>, and the actions of the tables that reference \<^verbatim>\<open>admins(id)\<close> and
  \<^verbatim>\<open>server_nodes(id)\<close>.
\<close>

definition remove_clients :: "(client_row \<Rightarrow> bool) \<Rightarrow> store \<Rightarrow> store" where
  "remove_clients P s =
     cascade_clients (\<lambda>c. c \<in> cl_id ` set (filter P (clients s)))
       (s\<lparr>clients := filter (\<lambda>r. \<not> P r) (clients s)\<rparr>)"

definition null_if :: "('a \<Rightarrow> bool) \<Rightarrow> 'a option \<Rightarrow> 'a option" where
  "null_if D x = (case x of None \<Rightarrow> None | Some a \<Rightarrow> if D a then None else Some a)"

definition cascade_admins :: "(int \<Rightarrow> bool) \<Rightarrow> store \<Rightarrow> store" where
  "cascade_admins D s = (if driver s \<noteq> DriverSQLite then s else
     (remove_clients (\<lambda>r. D (cl_owner r)) s)\<lparr>
       sessions := filter (\<lambda>r. \<not> D (se_admin_id r)) (sessions s),
       appsessions := filter (\<lambda>r. \<not> D (as_admin_id r)) (appsessions s),
       totps := filter (\<lambda>r. \<not> D (tp_admin_id r)) (totps s),
       totpbackups := filter (\<lambda>r. \<not> D (tb_admin_id r)) (totpbackups s),
       redemptions := filter (\<lambda>r. \<not> D (rd_admin_id r)) (redemptions s),
       rollups := filter (\<lambda>r. \<not> D (ru_admin_id r)) (rollups s),
       masters := filter (\<lambda>r. \<not> D (ma_admin_id r)) (masters s),
       audits := map (\<lambda>r. r\<lparr>au_actor := null_if D (au_actor r)\<rparr>) (audits s),
       invites := map (\<lambda>r. r\<lparr>iv_used_by := null_if D (iv_used_by r),
                               iv_created_by := null_if D (iv_created_by r)\<rparr>) (invites s)\<rparr>)"

definition remove_admins :: "(admin_row \<Rightarrow> bool) \<Rightarrow> store \<Rightarrow> store" where
  "remove_admins P s =
     (cascade_admins (\<lambda>i. i \<in> adm_id ` set (filter P (admins s))) s)
       \<lparr>admins := filter (\<lambda>r. \<not> P r) (admins s)\<rparr>"

definition remove_nodes :: "(node_row \<Rightarrow> bool) \<Rightarrow> store \<Rightarrow> store" where
  "remove_nodes P s =
     (let D = (\<lambda>n. n \<in> nd_id ` set (filter P (nodes s)));
          s' = s\<lparr>nodes := filter (\<lambda>r. \<not> P r) (nodes s)\<rparr>
      in if driver s = DriverSQLite
         then s'\<lparr>wgpeers := filter (\<lambda>r. \<not> D (wp_node_id r)) (wgpeers s)\<rparr> else s')"

text \<open>The three \<^verbatim>\<open>DELETE\<close> statements on tables that others reference, with \<^verbatim>\<open>RowsAffected\<close>.\<close>

definition delete_clients :: "(client_row \<Rightarrow> bool) \<Rightarrow> nat db" where
  "delete_clients P = stmt (\<lambda>s. (Inr (length (filter P (clients s))), remove_clients P s))"

definition delete_admins :: "(admin_row \<Rightarrow> bool) \<Rightarrow> nat db" where
  "delete_admins P = stmt (\<lambda>s. (Inr (length (filter P (admins s))), remove_admins P s))"

definition delete_nodes :: "(node_row \<Rightarrow> bool) \<Rightarrow> nat db" where
  "delete_nodes P = stmt (\<lambda>s. (Inr (length (filter P (nodes s))), remove_nodes P s))"

end
