(* ===== verification/StoreLaws.thy ===== *)
theory StoreLaws
  imports Store
begin

text \<open>
  Laws of the statements of \<^verbatim>\<open>Store\<close>: evaluation when the engine does not fail, preservation of
  an invariant through every combinator whatever fails, atomicity of a transaction, the
  well-formedness invariant of the database (declared keys and, on SQLite, foreign keys), and
  the interface of a keyed table that every upsert of the storage layer satisfies.
\<close>

subsection \<open>Evaluation\<close>

lemma stmt_ok [db_simps]: "faults s = [] \<Longrightarrow> stmt f s = f s"
  by (simp add: stmt_def)

lemma ret_app [db_simps, simp]: "ret x s = (Inr x, s)"
  by (simp add: ret_def)

lemma fail_app [db_simps, simp]: "fail e s = (Inl e, s)"
  by (simp add: fail_def)

lemma asks_app [db_simps, simp]: "asks f s = (Inr (f s), s)"
  by (simp add: asks_def)

lemma bindE_Inr: "m s = (Inr x, s') \<Longrightarrow> bindE m k s = k x s'"
  by (simp add: bindE_def)

lemma bindE_Inl: "m s = (Inl e, s') \<Longrightarrow> bindE m k s = (Inl e, s')"
  by (simp add: bindE_def)

lemma bindE_assoc: "bindE (bindE m f) g = bindE m (\<lambda>x. bindE (f x) g)"
  by (auto simp: bindE_def split: prod.splits sum.splits)

lemma bindE_ret [simp]: "bindE (ret x) k = k x" "bindE m ret = m"
  by (auto simp: bindE_def ret_def fun_eq_iff split: prod.splits sum.splits)

lemma select_ok [db_simps]: "faults s = [] \<Longrightarrow> select f s = (Inr (f s), s)"
  by (simp add: select_def stmt_ok)

lemma query_first_ok [db_simps]:
  "faults s = [] \<Longrightarrow>
     query_first f s = (case f s of None \<Rightarrow> Inl ErrRecordNotFound | Some r \<Rightarrow> Inr r, s)"
  by (simp add: query_first_def stmt_ok)

lemma find_row_ok [db_simps]:
  "faults s = [] \<Longrightarrow>
     find_row f s = (case f s of None \<Rightarrow> Inl ErrNotFound | Some r \<Rightarrow> Inr r, s)"
  by (simp add: find_row_def query_first_ok split: option.splits)

lemma exec_ok [db_simps]: "faults s = [] \<Longrightarrow> exec f s = (Inr (), f s)"
  by (simp add: exec_def stmt_ok)

lemma update_rows_ok [db_simps]:
  "faults s = [] \<Longrightarrow> update_rows get put P f s =
     (Inr (affected (driver s) P f (get s)), put (update_where P f) s)"
  by (simp add: update_rows_def stmt_ok)

lemma delete_rows_ok [db_simps]:
  "faults s = [] \<Longrightarrow> delete_rows get put P s =
     (Inr (length (filter P (get s))), put (filter (\<lambda>r. \<not> P r)) s)"
  by (simp add: delete_rows_def stmt_ok)

lemma insert_row_ok [db_simps]:
  "faults s = [] \<Longrightarrow> insert_row put ok r s =
     (if ok s then (Inr (), put (\<lambda>rs. rs @ [r]) s) else (Inl ErrConstraint, s))"
  by (simp add: insert_row_def stmt_ok)

lemma delete_clients_ok [db_simps]:
  "faults s = [] \<Longrightarrow>
     delete_clients P s = (Inr (length (filter P (clients s))), remove_clients P s)"
  by (simp add: delete_clients_def stmt_ok)

lemma delete_admins_ok [db_simps]:
  "faults s = [] \<Longrightarrow>
     delete_admins P s = (Inr (length (filter P (admins s))), remove_admins P s)"
  by (simp add: delete_admins_def stmt_ok)

lemma delete_nodes_ok [db_simps]:
  "faults s = [] \<Longrightarrow>
     delete_nodes P s = (Inr (length (filter P (nodes s))), remove_nodes P s)"
  by (simp add: delete_nodes_def stmt_ok)

lemma upsert_rows_ok [db_simps]:
  "faults s = [] \<Longrightarrow> upsert_rows put key upd ok rows s =
     (if list_all (ok s) rows \<and> (driver s = DriverPostgres \<longrightarrow> distinct (map key rows))
      then (Inr (), put (fold (upsert_one key upd) rows) s) else (Inl ErrConstraint, s))"
  by (simp add: upsert_rows_def stmt_ok)

lemma attempt_app [db_simps]: "attempt m s = (Inr (fst (m s)), snd (m s))"
  by (simp add: attempt_def split: prod.splits)

lemma bindE_attempt [db_simps]: "bindE (attempt m) k s = k (fst (m s)) (snd (m s))"
  by (simp add: bindE_def attempt_app)

lemma transaction_ok [db_simps]:
  assumes "faults s = []" "m s = (r, s')" "faults s' = []"
  shows "transaction m s = (case r of Inl e \<Rightarrow> (Inl e, s) | Inr x \<Rightarrow> (Inr x, s'))"
proof -
  have "s\<lparr>faults := []\<rparr> = s" using assms(1) by (cases s) simp
  then show ?thesis using assms by (simp add: transaction_def stmt_ok split: sum.splits)
qed

lemma transaction_InrI:
  "faults s = [] \<Longrightarrow> m s = (Inr x, s') \<Longrightarrow> faults s' = [] \<Longrightarrow> transaction m s = (Inr x, s')"
  by (simp add: transaction_ok)

lemma transaction_InlI:
  "faults s = [] \<Longrightarrow> m s = (Inl e, s') \<Longrightarrow> faults s' = [] \<Longrightarrow> transaction m s = (Inl e, s)"
  by (simp add: transaction_ok)

text \<open>The data of the database: everything but the failures still to come.\<close>

definition data :: "store \<Rightarrow> store" where
  "data s = s\<lparr>faults := []\<rparr>"

lemma data_faults [simp]: "data (s\<lparr>faults := fs\<rparr>) = data s"
  by (simp add: data_def)

lemma data_id: "faults s = [] \<Longrightarrow> data s = s"
  by (cases s) (simp add: data_def)

text \<open>A transaction that reports an error has changed nothing, whatever its body did first.\<close>

lemma stmt_ret_data [simp]: "data (snd (stmt (ret x) s)) = data s"
  by (simp add: stmt_def split: list.splits)

lemma transaction_error_data: "fst (transaction m s) = Inl e \<Longrightarrow> data (snd (transaction m s)) = data s"
proof -
  assume err: "fst (transaction m s) = Inl e"
  obtain r1 s1 where 1: "stmt (ret ()) s = (r1, s1)" by fastforce
  have "data s1 = data s" using stmt_ret_data [of "()" s] 1 by simp
  then show ?thesis using err 1
    by (auto simp: transaction_def split: prod.splits sum.splits)
qed

text \<open>
  Updates that do not look at the failures to come commute with \<^term>\<open>data\<close>; with them the outcome
  of a loop of statements is known whatever the engine refuses.
\<close>

definition blind :: "(store \<Rightarrow> store) \<Rightarrow> bool" where
  "blind f \<longleftrightarrow> (\<forall>s fs. f (s\<lparr>faults := fs\<rparr>) = (f s)\<lparr>faults := fs\<rparr>)"

lemma blind_data: "blind f \<Longrightarrow> data (f s) = f (data s)"
  by (simp add: blind_def data_def)

lemma exec_data:
  "blind f \<Longrightarrow> exec f s = (r, s') \<Longrightarrow>
     data s' = (case r of Inl _ \<Rightarrow> data s | Inr _ \<Rightarrow> f (data s))"
  by (auto simp: exec_def stmt_def blind_data split: list.splits if_splits)

lemma forE_exec_data:
  "(\<And>x. blind (g x)) \<Longrightarrow> forE xs (\<lambda>x. exec (g x)) s = (Inr (), s') \<Longrightarrow>
     data s' = fold g xs (data s)"
proof (induction xs arbitrary: s)
  case (Cons x xs)
  obtain r s1 where e: "exec (g x) s = (r, s1)" by fastforce
  then show ?case using Cons.prems Cons.IH [of s1] exec_data [OF Cons.prems(1) e]
    by (cases r) (simp_all add: bindE_def)
qed (simp add: ret_def)

lemma transaction_InlD: "transaction m s = (Inl e, s') \<Longrightarrow> data s' = data s"
  using transaction_error_data [of m s e] by simp

lemma delete_rows_data:
  "blind (put (filter (\<lambda>r. \<not> P r))) \<Longrightarrow> delete_rows get put P s = (r, s') \<Longrightarrow>
     data s' = (case r of Inl _ \<Rightarrow> data s | Inr _ \<Rightarrow> put (filter (\<lambda>r. \<not> P r)) (data s))"
  by (auto simp: delete_rows_def stmt_def blind_data split: list.splits if_splits)

text \<open>What a transaction reports as done, its body did.\<close>

lemma transaction_InrD:
  assumes "transaction m s = (Inr x, s')"
  obtains s1 s2 where "data s1 = data s" "m s1 = (Inr x, s2)" "data s' = data s2"
proof -
  obtain r1 s1 where 1: "stmt (ret ()) s = (r1, s1)" by fastforce
  moreover have "data s1 = data s" using stmt_ret_data [of "()" s] 1 by simp
  moreover obtain r2 s2 where 2: "m s1 = (r2, s2)" by fastforce
  moreover obtain r3 s3 where 3: "stmt (ret ()) s2 = (r3, s3)" by fastforce
  moreover have "data s3 = data s2" using stmt_ret_data [of "()" s2] 3 by simp
  ultimately show ?thesis using assms
    by (intro that [of s1 s2]) (auto simp: transaction_def split: sum.splits)
qed

subsection \<open>Preservation of an invariant\<close>

definition preserves :: "(store \<Rightarrow> bool) \<Rightarrow> 'a db \<Rightarrow> bool" where
  "preserves I m \<longleftrightarrow> (\<forall>s. I s \<longrightarrow> I (snd (m s)))"

definition fault_free :: "(store \<Rightarrow> bool) \<Rightarrow> bool" where
  "fault_free I \<longleftrightarrow> (\<forall>s fs. I (s\<lparr>faults := fs\<rparr>) = I s)"

lemma preservesI: "(\<And>s. I s \<Longrightarrow> I (snd (m s))) \<Longrightarrow> preserves I m"
  by (simp add: preserves_def)

lemma preservesD: "preserves I m \<Longrightarrow> I s \<Longrightarrow> I (snd (m s))"
  by (simp add: preserves_def)

lemma pres_ret [pres, simp]: "preserves I (ret x)"
  by (simp add: preserves_def)

lemma pres_Pair [pres, simp]: "preserves I (Pair r)"
  by (simp add: preserves_def)

lemma pres_fail [pres, simp]: "preserves I (fail e)"
  by (simp add: preserves_def)

lemma pres_asks [pres, simp]: "preserves I (asks f)"
  by (simp add: preserves_def)

lemma pres_bindE [pres]:
  "preserves I m \<Longrightarrow> (\<And>x. preserves I (k x)) \<Longrightarrow> preserves I (bindE m k)"
  by (force simp: preserves_def bindE_def split: prod.splits sum.splits)

lemma pres_attempt [pres]: "preserves I m \<Longrightarrow> preserves I (attempt m)"
  by (simp add: preserves_def attempt_app)

lemma pres_forE [pres]: "(\<And>x. preserves I (f x)) \<Longrightarrow> preserves I (forE xs f)"
  by (induction xs) (auto intro: pres)

lemma pres_if [pres]: "preserves I a \<Longrightarrow> preserves I b \<Longrightarrow> preserves I (if c then a else b)"
  by simp

lemma pres_option [pres]:
  "preserves I a \<Longrightarrow> (\<And>x. preserves I (b x)) \<Longrightarrow>
     preserves I (case q of None \<Rightarrow> a | Some x \<Rightarrow> b x)"
  by (cases q) auto

lemma pres_sum [pres]:
  "(\<And>x. preserves I (a x)) \<Longrightarrow> (\<And>x. preserves I (b x)) \<Longrightarrow>
     preserves I (case q of Inl x \<Rightarrow> a x | Inr x \<Rightarrow> b x)"
  by (cases q) auto

lemma pres_prod [pres]:
  "(\<And>x y. preserves I (a x y)) \<Longrightarrow> preserves I (case p of (x, y) \<Rightarrow> a x y)"
  by (cases p) auto

lemma pres_let [pres]: "preserves I (f x) \<Longrightarrow> preserves I (Let x f)"
  by simp

lemma pres_stmt:
  "fault_free I \<Longrightarrow> (\<And>s. I s \<Longrightarrow> I (snd (f s))) \<Longrightarrow> preserves I (stmt f)"
  by (auto simp: preserves_def fault_free_def stmt_def split: list.splits)

lemma pres_select [pres]: "fault_free I \<Longrightarrow> preserves I (select f)"
  by (simp add: select_def pres_stmt)

lemma pres_query_first [pres]: "fault_free I \<Longrightarrow> preserves I (query_first f)"
  by (simp add: query_first_def pres_stmt)

lemma find_row_snd [simp]: "snd (find_row f s) = snd (query_first f s)"
  by (auto simp: find_row_def split: prod.splits sum.splits error.splits)

lemma pres_find_row [pres]: "fault_free I \<Longrightarrow> preserves I (find_row f)"
  using pres_query_first [of I f] by (simp add: preserves_def)

lemma pres_exec: "fault_free I \<Longrightarrow> (\<And>s. I s \<Longrightarrow> I (f s)) \<Longrightarrow> preserves I (exec f)"
  by (simp add: exec_def pres_stmt)

lemma pres_update_rows:
  "fault_free I \<Longrightarrow> (\<And>s. I s \<Longrightarrow> I (put (update_where P f) s)) \<Longrightarrow>
     preserves I (update_rows get put P f)"
  by (simp add: update_rows_def pres_stmt)

lemma pres_delete_rows:
  "fault_free I \<Longrightarrow> (\<And>s. I s \<Longrightarrow> I (put (filter (\<lambda>r. \<not> P r)) s)) \<Longrightarrow>
     preserves I (delete_rows get put P)"
  by (simp add: delete_rows_def pres_stmt)

lemma pres_insert_row:
  "fault_free I \<Longrightarrow> (\<And>s. I s \<Longrightarrow> ok s \<Longrightarrow> I (put (\<lambda>rs. rs @ [r]) s)) \<Longrightarrow>
     preserves I (insert_row put ok r)"
  by (auto simp: insert_row_def intro!: pres_stmt)

lemma pres_upsert_rows:
  "fault_free I \<Longrightarrow>
     (\<And>s. I s \<Longrightarrow> list_all (ok s) rows \<Longrightarrow> I (put (fold (upsert_one key upd) rows) s)) \<Longrightarrow>
     preserves I (upsert_rows put key upd ok rows)"
  by (auto simp: upsert_rows_def intro!: pres_stmt)

lemma pres_transaction [pres]:
  assumes ff: "fault_free I" and m: "preserves I m"
  shows "preserves I (transaction m)"
proof (rule preservesI)
  fix s assume "I s"
  have b: "preserves I (stmt (ret ()))" using ff by (simp add: pres_stmt)
  obtain r1 s1 where 1: "stmt (ret ()) s = (r1, s1)" by fastforce
  with b \<open>I s\<close> have i1: "I s1" by (metis preservesD snd_conv)
  obtain r2 s2 where 2: "m s1 = (r2, s2)" by fastforce
  with m i1 have i2: "I s2" by (metis preservesD snd_conv)
  obtain r3 s3 where 3: "stmt (ret ()) s2 = (r3, s3)" by fastforce
  with b i2 have i3: "I s3" by (metis preservesD snd_conv)
  show "I (snd (transaction m s))"
    using ff i1 i3 1 2 3
    by (simp add: transaction_def fault_free_def split: sum.splits)
qed

text \<open>A reading operation keeps all data; this is preservation of \<open>\<lambda>s. data s = d\<close> for every \<open>d\<close>.\<close>

definition reads :: "'a db \<Rightarrow> bool" where
  "reads m \<longleftrightarrow> (\<forall>s. data (snd (m s)) = data s)"

lemma reads_iff: "reads m \<longleftrightarrow> (\<forall>d. preserves (\<lambda>s. data s = d) m)"
  by (auto simp: reads_def preserves_def)

lemma fault_free_data [simp]: "fault_free (\<lambda>s. data s = d)"
  by (simp add: fault_free_def)

lemma reads_preserves: "reads m \<Longrightarrow> (\<And>s. I s = I (data s)) \<Longrightarrow> preserves I m"
  by (metis reads_def preserves_def)

subsection \<open>Pre- and postconditions\<close>

text \<open>
  \<open>ensures P m Q E\<close>: from a store with \<open>P\<close>, whatever fails, a result \<open>x\<close> of \<open>m\<close> comes with \<open>Q x\<close> of the
  final store and an error \<open>e\<close> with \<open>E e\<close>.
\<close>

definition ensures ::
  "(store \<Rightarrow> bool) \<Rightarrow> 'a db \<Rightarrow> ('a \<Rightarrow> store \<Rightarrow> bool) \<Rightarrow> (error \<Rightarrow> store \<Rightarrow> bool) \<Rightarrow> bool" where
  "ensures P m Q E \<longleftrightarrow> (\<forall>s. P s \<longrightarrow>
     (case m s of (Inl e, s') \<Rightarrow> E e s' | (Inr x, s') \<Rightarrow> Q x s'))"

named_theorems hoare "rules for ensures"

lemma ensuresD:
  "ensures P m Q E \<Longrightarrow> P s \<Longrightarrow> m s = (r, s') \<Longrightarrow>
     (case r of Inl e \<Rightarrow> E e s' | Inr x \<Rightarrow> Q x s')"
  by (auto simp: ensures_def split: sum.splits)

lemma ensures_ret [hoare]: "(\<And>s. P s \<Longrightarrow> Q x s) \<Longrightarrow> ensures P (ret x) Q E"
  by (simp add: ensures_def)

lemma ensures_fail [hoare]: "(\<And>s. P s \<Longrightarrow> E e s) \<Longrightarrow> ensures P (fail e) Q E"
  by (simp add: ensures_def)

lemma ensures_asks [hoare]: "(\<And>s. P s \<Longrightarrow> Q (f s) s) \<Longrightarrow> ensures P (asks f) Q E"
  by (simp add: ensures_def)

lemma ensures_bindE:
  assumes m: "ensures P m R E" and k: "\<And>x. ensures (R x) (k x) Q E"
  shows "ensures P (bindE m k) Q E"
  unfolding ensures_def
proof (intro allI impI)
  fix s assume "P s"
  obtain r s1 where e: "m s = (r, s1)" by (cases "m s")
  show "case bindE m k s of (Inl e, s') \<Rightarrow> E e s' | (Inr x, s') \<Rightarrow> Q x s'"
    using ensuresD [OF m \<open>P s\<close> e] k e by (cases r) (simp_all add: bindE_def ensures_def)
qed

lemma ensures_attempt:
  assumes "ensures P m (\<lambda>x. Q (Inr x)) (\<lambda>e. Q (Inl e))"
  shows "ensures P (attempt m) Q E"
  unfolding ensures_def
proof (intro allI impI)
  fix s assume "P s"
  obtain r s1 where e: "m s = (r, s1)" by (cases "m s")
  show "case attempt m s of (Inl e, s') \<Rightarrow> E e s' | (Inr x, s') \<Rightarrow> Q x s'"
    using ensuresD [OF assms \<open>P s\<close> e] e by (cases r) (simp_all add: attempt_def)
qed

lemma ensures_if [hoare]:
  "(b \<Longrightarrow> ensures P m Q E) \<Longrightarrow> (\<not> b \<Longrightarrow> ensures P n Q E) \<Longrightarrow> ensures P (if b then m else n) Q E"
  by simp

lemma ensures_sum [hoare]:
  "(\<And>e. r = Inl e \<Longrightarrow> ensures P (f e) Q E) \<Longrightarrow> (\<And>x. r = Inr x \<Longrightarrow> ensures P (g x) Q E) \<Longrightarrow>
     ensures P (case r of Inl e \<Rightarrow> f e | Inr x \<Rightarrow> g x) Q E"
  by (cases r) simp_all

lemma ensures_weaken:
  assumes m: "ensures P' m Q' E'" and "\<And>s. P s \<Longrightarrow> P' s" "\<And>x s. Q' x s \<Longrightarrow> Q x s"
    and "\<And>e s. E' e s \<Longrightarrow> E e s"
  shows "ensures P m Q E"
  unfolding ensures_def
proof (intro allI impI)
  fix s assume "P s"
  obtain r s1 where e: "m s = (r, s1)" by (cases "m s")
  show "case m s of (Inl e, s') \<Rightarrow> E e s' | (Inr x, s') \<Rightarrow> Q x s'"
    using ensuresD [OF m _ e] assms(2-4) \<open>P s\<close> e by (cases r) simp_all
qed

lemma ensures_stmt:
  "fault_free P \<Longrightarrow> (\<And>s. P s \<Longrightarrow> E ErrDb s) \<Longrightarrow>
     (\<And>s. P s \<Longrightarrow> (case f s of (Inl e, s') \<Rightarrow> E e s' | (Inr x, s') \<Rightarrow> Q x s')) \<Longrightarrow>
     ensures P (stmt f) Q E"
  by (auto simp: ensures_def fault_free_def stmt_def split: list.splits)

lemma ensures_select:
  "fault_free P \<Longrightarrow> (\<And>s. P s \<Longrightarrow> E ErrDb s) \<Longrightarrow> (\<And>s. P s \<Longrightarrow> Q (f s) s) \<Longrightarrow> ensures P (select f) Q E"
  by (simp add: select_def ensures_stmt)

lemma ensures_query_first:
  "fault_free P \<Longrightarrow> (\<And>s. P s \<Longrightarrow> E ErrDb s) \<Longrightarrow>
     (\<And>s. P s \<Longrightarrow> f s = None \<Longrightarrow> E ErrRecordNotFound s) \<Longrightarrow>
     (\<And>s r. P s \<Longrightarrow> f s = Some r \<Longrightarrow> Q r s) \<Longrightarrow> ensures P (query_first f) Q E"
  by (auto simp: query_first_def intro!: ensures_stmt split: option.splits)

lemma ensures_find_row:
  assumes "ensures P (query_first f) Q (\<lambda>e. if e = ErrRecordNotFound then E ErrNotFound else E e)"
  shows "ensures P (find_row f) Q E"
  unfolding ensures_def
proof (intro allI impI)
  fix s assume "P s"
  obtain r s1 where e: "query_first f s = (r, s1)" by (cases "query_first f s")
  then show "case find_row f s of (Inl e, s') \<Rightarrow> E e s' | (Inr x, s') \<Rightarrow> Q x s'"
    using ensuresD [OF assms \<open>P s\<close> e]
    by (cases r) (auto simp: find_row_def split: error.split if_splits)
qed

lemma ensures_update_rows:
  "fault_free P \<Longrightarrow> (\<And>s. P s \<Longrightarrow> E ErrDb s) \<Longrightarrow>
     (\<And>s. P s \<Longrightarrow> Q (affected (driver s) U f (get s)) (put (update_where U f) s)) \<Longrightarrow>
     ensures P (update_rows get put U f) Q E"
  by (auto simp: update_rows_def intro!: ensures_stmt)

lemma ensures_delete_rows:
  "fault_free P \<Longrightarrow> (\<And>s. P s \<Longrightarrow> E ErrDb s) \<Longrightarrow>
     (\<And>s. P s \<Longrightarrow> Q (length (filter D (get s))) (put (filter (\<lambda>r. \<not> D r)) s)) \<Longrightarrow>
     ensures P (delete_rows get put D) Q E"
  by (auto simp: delete_rows_def intro!: ensures_stmt)

lemma ensures_insert_row:
  "fault_free P \<Longrightarrow> (\<And>s. P s \<Longrightarrow> E ErrDb s) \<Longrightarrow> (\<And>s. P s \<Longrightarrow> \<not> ok s \<Longrightarrow> E ErrConstraint s) \<Longrightarrow>
     (\<And>s. P s \<Longrightarrow> ok s \<Longrightarrow> Q () (put (\<lambda>rs. rs @ [r]) s)) \<Longrightarrow>
     ensures P (insert_row put ok r) Q E"
  unfolding insert_row_def by (rule ensures_stmt) simp_all

lemma preserves_ensures: "ensures I m (\<lambda>_. I) (\<lambda>_. I) \<longleftrightarrow> preserves I m"
proof -
  have "(case p of (Inl e, s') \<Rightarrow> I s' | (Inr x, s') \<Rightarrow> I s') = I (snd p)" for p :: "(error + 'a) \<times> store"
    by (cases p) (simp split: sum.split)
  then show ?thesis by (simp add: ensures_def preserves_def)
qed

end
