(* ===== verification/StoreInv.thy ===== *)
theory StoreInv
  imports StoreLaws
begin

text \<open>
  The well-formedness invariant of the database, \<open>wf_store\<close>: the keys the schema declares are
  unique and, on SQLite, every foreign key points at a row. With it the interface of a keyed
  table, the locale \<open>keyed_table\<close>, whose laws the upserts of the storage layer satisfy, and the
  preservation facts of the removal cascades.
\<close>

subsection \<open>Keys and references of a table\<close>

definition uniq :: "('r \<Rightarrow> 'k) \<Rightarrow> 'r list \<Rightarrow> bool" where
  "uniq g rs \<longleftrightarrow> distinct (map g rs)"

definition refers :: "('r \<Rightarrow> 'k) \<Rightarrow> 'r list \<Rightarrow> 'k set \<Rightarrow> bool" where
  "refers g rs A \<longleftrightarrow> (\<forall>r \<in> set rs. g r \<in> A)"

definition orefers :: "('r \<Rightarrow> 'k option) \<Rightarrow> 'r list \<Rightarrow> 'k set \<Rightarrow> bool" where
  "orefers g rs A \<longleftrightarrow> (\<forall>r \<in> set rs. \<forall>k. g r = Some k \<longrightarrow> k \<in> A)"

lemma uniq_simps [simp]:
  "uniq g []" "uniq g (rs @ [r]) \<longleftrightarrow> uniq g rs \<and> g r \<notin> g ` set rs"
  "uniq g rs \<Longrightarrow> uniq g (filter P rs)"
  by (auto simp: uniq_def distinct_map_filter)

lemma uniq_update [simp]:
  "(\<And>r. P r \<Longrightarrow> g (f r) = g r) \<Longrightarrow> uniq g (update_where P f rs) = uniq g rs"
proof -
  assume "\<And>r. P r \<Longrightarrow> g (f r) = g r"
  then have "map g (update_where P f rs) = map g rs" by (auto simp: update_where_def)
  then show ?thesis by (simp add: uniq_def)
qed

lemma refers_simps [simp]:
  "refers g [] A" "refers g (rs @ [r]) A \<longleftrightarrow> refers g rs A \<and> g r \<in> A"
  "refers g rs A \<Longrightarrow> refers g (filter P rs) A"
  "refers g rs A \<Longrightarrow> refers g rs (insert x A)"
  by (auto simp: refers_def)

lemma ball_update_where:
  "(\<forall>x \<in> set (update_where P f rs). Q x) \<longleftrightarrow> (\<forall>x \<in> set rs. Q (if P x then f x else x))"
  by (induction rs) (auto simp: update_where_def)

lemma refers_update [simp]:
  "(\<And>r. P r \<Longrightarrow> g (f r) = g r) \<Longrightarrow> refers g (update_where P f rs) A = refers g rs A"
  by (simp add: refers_def ball_update_where)

lemma refers_removed:
  "refers g rs A \<Longrightarrow> refers g (filter (\<lambda>r. g r \<notin> B) rs) (A - B)"
  by (auto simp: refers_def)

lemma refers_mono: "refers g rs A \<Longrightarrow> A \<subseteq> B \<Longrightarrow> refers g rs B"
  by (auto simp: refers_def)

lemma orefers_simps [simp]:
  "orefers g [] A" "orefers g (rs @ [r]) A \<longleftrightarrow> orefers g rs A \<and> (\<forall>k. g r = Some k \<longrightarrow> k \<in> A)"
  "orefers g rs A \<Longrightarrow> orefers g (filter P rs) A"
  "orefers g rs A \<Longrightarrow> orefers g rs (insert x A)"
  by (auto simp: orefers_def)

lemma orefers_update [simp]:
  "(\<And>r. P r \<Longrightarrow> g (f r) = g r) \<Longrightarrow> orefers g (update_where P f rs) A = orefers g rs A"
  by (simp add: orefers_def ball_update_where)

lemma image_filter_diff:
  "uniq g rs \<Longrightarrow> g ` set (filter (\<lambda>r. \<not> P r) rs) = g ` set rs - g ` set (filter P rs)"
  by (force simp: uniq_def distinct_map inj_on_def)

subsection \<open>The invariant\<close>

definition admin_ids :: "store \<Rightarrow> int set" where
  "admin_ids s = adm_id ` set (admins s)"

definition client_ids :: "store \<Rightarrow> string set" where
  "client_ids s = cl_id ` set (clients s)"

definition node_ids :: "store \<Rightarrow> string set" where
  "node_ids s = nd_id ` set (nodes s)"

definition keys_ok :: "store \<Rightarrow> bool" where
  "keys_ok s \<longleftrightarrow>
     uniq adm_id (admins s) \<and> refers adm_id (admins s) {..< admins_seq s} \<and>
     uniq adm_username (admins s) \<and>
     uniq bl_hash (blobs s) \<and> uniq se_id (sessions s) \<and>
     uniq cl_id (clients s) \<and> uniq ct_client_id (ctraffic s) \<and>
     uniq cc_client_id (cconfigs s) \<and> uniq cb_client_id (creported s) \<and>
     uniq cb_client_id (cruntime s) \<and> uniq cb_client_id (capps s) \<and>
     uniq log_key (clogs s) \<and>
     uniq pc_id (pending s) \<and> refers pc_id (pending s) {..< pending_seq s} \<and>
     uniq ps_key (settings s) \<and> uniq iv_token (invites s) \<and>
     uniq rd_key (redemptions s) \<and> uniq nd_id (nodes s) \<and>
     uniq wg_key (wgpeers s) \<and> uniq cn_key (connections s) \<and>
     uniq pt_key (ptraffic s) \<and> uniq ru_admin_id (rollups s) \<and>
     uniq nt_node_id (ntotals s) \<and> uniq as_id (appsessions s) \<and>
     uniq as_token_hash (appsessions s) \<and> uniq tp_admin_id (totps s) \<and>
     uniq tb_key (totpbackups s) \<and> uniq pm_package (packages s) \<and>
     uniq ma_admin_id (masters s)"

definition refs_ok :: "store \<Rightarrow> bool" where
  "refs_ok s \<longleftrightarrow> (driver s = DriverSQLite \<longrightarrow>
     refers se_admin_id (sessions s) (admin_ids s) \<and>
     refers as_admin_id (appsessions s) (admin_ids s) \<and>
     refers tp_admin_id (totps s) (admin_ids s) \<and>
     refers tb_admin_id (totpbackups s) (admin_ids s) \<and>
     refers rd_admin_id (redemptions s) (admin_ids s) \<and>
     refers ru_admin_id (rollups s) (admin_ids s) \<and>
     refers ma_admin_id (masters s) (admin_ids s) \<and>
     refers cl_owner (clients s) (admin_ids s) \<and>
     orefers au_actor (audits s) (admin_ids s) \<and>
     orefers iv_used_by (invites s) (admin_ids s) \<and>
     orefers iv_created_by (invites s) (admin_ids s) \<and>
     refers ct_client_id (ctraffic s) (client_ids s) \<and>
     refers cc_client_id (cconfigs s) (client_ids s) \<and>
     refers cb_client_id (creported s) (client_ids s) \<and>
     refers cb_client_id (cruntime s) (client_ids s) \<and>
     refers cb_client_id (capps s) (client_ids s) \<and>
     refers lg_client_id (clogs s) (client_ids s) \<and>
     refers pc_client_id (pending s) (client_ids s) \<and>
     refers wp_client_id (wgpeers s) (client_ids s) \<and>
     refers wp_node_id (wgpeers s) (node_ids s))"

definition wf_store :: "store \<Rightarrow> bool" where
  "wf_store s \<longleftrightarrow> keys_ok s \<and> refs_ok s"

lemmas wf_defs = wf_store_def keys_ok_def refs_ok_def admin_ids_def client_ids_def node_ids_def

lemma wf_empty_store: "wf_store (empty_store d now)"
  by (simp add: wf_defs empty_store_def)

lemma fault_free_wf [simp]: "fault_free wf_store"
  by (simp add: fault_free_def wf_defs)

lemma wf_data: "wf_store s = wf_store (data s)"
  by (simp add: data_def wf_defs)

lemma reads_wf: "reads m \<Longrightarrow> preserves wf_store m"
  by (erule reads_preserves) (rule wf_data)

subsection \<open>Tables as lists of rows\<close>

lemma map_update_where [simp]:
  "(\<And>r. P r \<Longrightarrow> key (f r) = key r) \<Longrightarrow> map key (update_where P f rs) = map key rs"
  by (auto simp: update_where_def)

lemma image_update_where [simp]:
  "(\<And>r. P r \<Longrightarrow> key (f r) = key r) \<Longrightarrow> key ` set (update_where P f rs) = key ` set rs"
  by (metis map_update_where list.set_map)

lemma set_update_where: "set (update_where P f rs) = (\<lambda>r. if P r then f r else r) ` set rs"
  by (simp add: update_where_def)

lemma length_update_where [simp]: "length (update_where P f rs) = length rs"
  by (simp add: update_where_def)

lemma update_where_none: "\<forall>r \<in> set rs. \<not> P r \<Longrightarrow> update_where P f rs = rs"
  by (simp add: update_where_def map_idI)

lemma update_where_compose:
  "update_where P f (update_where Q g rs) =
     map (\<lambda>r. let r' = (if Q r then g r else r) in if P r' then f r' else r') rs"
  by (simp add: update_where_def comp_def Let_def)

lemma find_update_where:
  "(\<And>r. key (f r) = key r) \<Longrightarrow>
   find (\<lambda>r. key r = k) (update_where P f rs) =
     map_option (\<lambda>r. if P r then f r else r) (find (\<lambda>r. key r = k) rs)"
  by (induction rs) (auto simp: update_where_def)

subsection \<open>One table at a time\<close>

text \<open>
  Replacing a table keeps the invariant if its own key and references do; \<open>wf_put\<close> has one rule
  per table, \<open>wf_get\<close> what the invariant says of each.
\<close>

lemma wf_put_sessions:
  "wf_store s \<Longrightarrow> uniq se_id (f (sessions s)) \<Longrightarrow>
     (driver s = DriverSQLite \<Longrightarrow> refers se_admin_id (f (sessions s)) (admin_ids s)) \<Longrightarrow>
     wf_store (sessions_update f s)"
  by (simp add: wf_defs)

lemma wf_put_blobs:
  "wf_store s \<Longrightarrow> uniq bl_hash (f (blobs s)) \<Longrightarrow>
     wf_store (blobs_update f s)"
  by (simp add: wf_defs)

lemma wf_put_ctraffic:
  "wf_store s \<Longrightarrow> uniq ct_client_id (f (ctraffic s)) \<Longrightarrow>
     (driver s = DriverSQLite \<Longrightarrow> refers ct_client_id (f (ctraffic s)) (client_ids s)) \<Longrightarrow>
     wf_store (ctraffic_update f s)"
  by (simp add: wf_defs)

lemma wf_put_cconfigs:
  "wf_store s \<Longrightarrow> uniq cc_client_id (f (cconfigs s)) \<Longrightarrow>
     (driver s = DriverSQLite \<Longrightarrow> refers cc_client_id (f (cconfigs s)) (client_ids s)) \<Longrightarrow>
     wf_store (cconfigs_update f s)"
  by (simp add: wf_defs)

lemma wf_put_creported:
  "wf_store s \<Longrightarrow> uniq cb_client_id (f (creported s)) \<Longrightarrow>
     (driver s = DriverSQLite \<Longrightarrow> refers cb_client_id (f (creported s)) (client_ids s)) \<Longrightarrow>
     wf_store (creported_update f s)"
  by (simp add: wf_defs)

lemma wf_put_cruntime:
  "wf_store s \<Longrightarrow> uniq cb_client_id (f (cruntime s)) \<Longrightarrow>
     (driver s = DriverSQLite \<Longrightarrow> refers cb_client_id (f (cruntime s)) (client_ids s)) \<Longrightarrow>
     wf_store (cruntime_update f s)"
  by (simp add: wf_defs)

lemma wf_put_capps:
  "wf_store s \<Longrightarrow> uniq cb_client_id (f (capps s)) \<Longrightarrow>
     (driver s = DriverSQLite \<Longrightarrow> refers cb_client_id (f (capps s)) (client_ids s)) \<Longrightarrow>
     wf_store (capps_update f s)"
  by (simp add: wf_defs)

lemma wf_put_clogs:
  "wf_store s \<Longrightarrow> uniq log_key (f (clogs s)) \<Longrightarrow>
     (driver s = DriverSQLite \<Longrightarrow> refers lg_client_id (f (clogs s)) (client_ids s)) \<Longrightarrow>
     wf_store (clogs_update f s)"
  by (simp add: wf_defs)

lemma wf_put_settings:
  "wf_store s \<Longrightarrow> uniq ps_key (f (settings s)) \<Longrightarrow>
     wf_store (settings_update f s)"
  by (simp add: wf_defs)

lemma wf_put_redemptions:
  "wf_store s \<Longrightarrow> uniq rd_key (f (redemptions s)) \<Longrightarrow>
     (driver s = DriverSQLite \<Longrightarrow> refers rd_admin_id (f (redemptions s)) (admin_ids s)) \<Longrightarrow>
     wf_store (redemptions_update f s)"
  by (simp add: wf_defs)

lemma wf_put_wgpeers:
  "wf_store s \<Longrightarrow> uniq wg_key (f (wgpeers s)) \<Longrightarrow>
     (driver s = DriverSQLite \<Longrightarrow> refers wp_client_id (f (wgpeers s)) (client_ids s)) \<Longrightarrow>
     (driver s = DriverSQLite \<Longrightarrow> refers wp_node_id (f (wgpeers s)) (node_ids s)) \<Longrightarrow>
     wf_store (wgpeers_update f s)"
  by (simp add: wf_defs)

lemma wf_put_connections:
  "wf_store s \<Longrightarrow> uniq cn_key (f (connections s)) \<Longrightarrow>
     wf_store (connections_update f s)"
  by (simp add: wf_defs)

lemma wf_put_ptraffic:
  "wf_store s \<Longrightarrow> uniq pt_key (f (ptraffic s)) \<Longrightarrow>
     wf_store (ptraffic_update f s)"
  by (simp add: wf_defs)

lemma wf_put_rollups:
  "wf_store s \<Longrightarrow> uniq ru_admin_id (f (rollups s)) \<Longrightarrow>
     (driver s = DriverSQLite \<Longrightarrow> refers ru_admin_id (f (rollups s)) (admin_ids s)) \<Longrightarrow>
     wf_store (rollups_update f s)"
  by (simp add: wf_defs)

lemma wf_put_ntotals:
  "wf_store s \<Longrightarrow> uniq nt_node_id (f (ntotals s)) \<Longrightarrow>
     wf_store (ntotals_update f s)"
  by (simp add: wf_defs)

lemma wf_put_totps:
  "wf_store s \<Longrightarrow> uniq tp_admin_id (f (totps s)) \<Longrightarrow>
     (driver s = DriverSQLite \<Longrightarrow> refers tp_admin_id (f (totps s)) (admin_ids s)) \<Longrightarrow>
     wf_store (totps_update f s)"
  by (simp add: wf_defs)

lemma wf_put_totpbackups:
  "wf_store s \<Longrightarrow> uniq tb_key (f (totpbackups s)) \<Longrightarrow>
     (driver s = DriverSQLite \<Longrightarrow> refers tb_admin_id (f (totpbackups s)) (admin_ids s)) \<Longrightarrow>
     wf_store (totpbackups_update f s)"
  by (simp add: wf_defs)

lemma wf_put_packages:
  "wf_store s \<Longrightarrow> uniq pm_package (f (packages s)) \<Longrightarrow>
     wf_store (packages_update f s)"
  by (simp add: wf_defs)

lemma wf_put_masters:
  "wf_store s \<Longrightarrow> uniq ma_admin_id (f (masters s)) \<Longrightarrow>
     (driver s = DriverSQLite \<Longrightarrow> refers ma_admin_id (f (masters s)) (admin_ids s)) \<Longrightarrow>
     wf_store (masters_update f s)"
  by (simp add: wf_defs)

lemmas wf_put = wf_put_sessions wf_put_blobs wf_put_ctraffic wf_put_cconfigs wf_put_creported wf_put_cruntime wf_put_capps wf_put_clogs wf_put_settings wf_put_redemptions wf_put_wgpeers wf_put_connections
  wf_put_ptraffic wf_put_rollups wf_put_ntotals wf_put_totps wf_put_totpbackups wf_put_packages wf_put_masters

lemma wf_get:
  assumes "wf_store s"
  shows "uniq se_id (sessions s)"
    and "driver s = DriverSQLite \<Longrightarrow> refers se_admin_id (sessions s) (admin_ids s)"
    and "uniq bl_hash (blobs s)"
    and "uniq ct_client_id (ctraffic s)"
    and "driver s = DriverSQLite \<Longrightarrow> refers ct_client_id (ctraffic s) (client_ids s)"
    and "uniq cc_client_id (cconfigs s)"
    and "driver s = DriverSQLite \<Longrightarrow> refers cc_client_id (cconfigs s) (client_ids s)"
    and "uniq cb_client_id (creported s)"
    and "driver s = DriverSQLite \<Longrightarrow> refers cb_client_id (creported s) (client_ids s)"
    and "uniq cb_client_id (cruntime s)"
    and "driver s = DriverSQLite \<Longrightarrow> refers cb_client_id (cruntime s) (client_ids s)"
    and "uniq cb_client_id (capps s)"
    and "driver s = DriverSQLite \<Longrightarrow> refers cb_client_id (capps s) (client_ids s)"
    and "uniq log_key (clogs s)"
    and "driver s = DriverSQLite \<Longrightarrow> refers lg_client_id (clogs s) (client_ids s)"
    and "uniq ps_key (settings s)"
    and "uniq rd_key (redemptions s)"
    and "driver s = DriverSQLite \<Longrightarrow> refers rd_admin_id (redemptions s) (admin_ids s)"
    and "uniq wg_key (wgpeers s)"
    and "driver s = DriverSQLite \<Longrightarrow> refers wp_client_id (wgpeers s) (client_ids s)"
    and "driver s = DriverSQLite \<Longrightarrow> refers wp_node_id (wgpeers s) (node_ids s)"
    and "uniq cn_key (connections s)"
    and "uniq pt_key (ptraffic s)"
    and "uniq ru_admin_id (rollups s)"
    and "driver s = DriverSQLite \<Longrightarrow> refers ru_admin_id (rollups s) (admin_ids s)"
    and "uniq nt_node_id (ntotals s)"
    and "uniq tp_admin_id (totps s)"
    and "driver s = DriverSQLite \<Longrightarrow> refers tp_admin_id (totps s) (admin_ids s)"
    and "uniq tb_key (totpbackups s)"
    and "driver s = DriverSQLite \<Longrightarrow> refers tb_admin_id (totpbackups s) (admin_ids s)"
    and "uniq pm_package (packages s)"
    and "uniq ma_admin_id (masters s)"
    and "driver s = DriverSQLite \<Longrightarrow> refers ma_admin_id (masters s) (admin_ids s)"
    and "uniq cl_id (clients s)"
    and "uniq adm_id (admins s)"
    and "uniq adm_username (admins s)"
    and "uniq nd_id (nodes s)"
    and "uniq iv_token (invites s)"
    and "uniq pc_id (pending s)"
  using assms by (simp_all add: wf_defs)

lemma fk_client_ids: "fk_client c s \<longleftrightarrow> (driver s = DriverSQLite \<longrightarrow> c \<in> client_ids s)"
  by (simp add: fk_client_def client_ids_def)

lemma fk_admin_ids: "fk_admin i s \<longleftrightarrow> (driver s = DriverSQLite \<longrightarrow> i \<in> admin_ids s)"
  by (simp add: fk_admin_def admin_ids_def)

lemma fk_node_ids: "fk_node n s \<longleftrightarrow> (driver s = DriverSQLite \<longrightarrow> n \<in> node_ids s)"
  by (simp add: fk_node_def node_ids_def)

lemmas fk_ids = fk_client_ids fk_admin_ids fk_node_ids

subsection \<open>The keyed-table interface\<close>

text \<open>
  What a table with a unique key promises to the code that upserts into it: \<open>key\<close> identifies a
  row and \<open>upd\<close>, the columns an upsert overwrites, never touches the key.
\<close>

locale keyed_table =
  fixes key :: "'r \<Rightarrow> 'k" and upd :: "'r \<Rightarrow> 'r \<Rightarrow> 'r"
  assumes key_upd: "key r' = key r \<Longrightarrow> key (upd r r') = key r'"
begin

lemma keys_upsert_one:
  "key ` set (upsert_one key upd r rs) = insert (key r) (key ` set rs)"
proof (cases "key r \<in> set (map key rs)")
  case True
  then have "key ` set (upsert_one key upd r rs) = key ` set rs"
    by (simp add: upsert_one_def key_upd)
  then show ?thesis using True by auto
qed (simp add: upsert_one_def)

lemma uniq_upsert_one:
  "uniq key rs \<Longrightarrow> uniq key (upsert_one key upd r rs)"
  by (auto simp: upsert_one_def key_upd)

lemma keys_upsert:
  "key ` set (fold (upsert_one key upd) rows rs) = key ` set rows \<union> key ` set rs"
  by (induction rows arbitrary: rs) (auto simp: keys_upsert_one)

lemma uniq_upsert:
  "uniq key rs \<Longrightarrow> uniq key (fold (upsert_one key upd) rows rs)"
  by (induction rows arbitrary: rs) (auto simp: uniq_upsert_one)

text \<open>Looking a key up after an upsert: the row itself, or the old row overwritten.\<close>

lemma find_upsert_one:
  "find (\<lambda>r'. key r' = k) (upsert_one key upd r rs) =
     (if k = key r
      then (case find (\<lambda>r'. key r' = k) rs of None \<Rightarrow> Some r | Some r' \<Rightarrow> Some (upd r r'))
      else find (\<lambda>r'. key r' = k) rs)"
proof (cases "key r \<in> set (map key rs)")
  case True
  have "find (\<lambda>r'. key r' = k) (update_where (\<lambda>r'. key r' = key r) (upd r) rs) =
      map_option (\<lambda>r'. if key r' = key r then upd r r' else r') (find (\<lambda>r'. key r' = k) rs)"
    by (induction rs) (auto simp: update_where_def key_upd)
  moreover have "key r' = k" if "find (\<lambda>r'. key r' = k) rs = Some r'" for r'
    using that by (auto simp: find_Some_iff)
  moreover have "find (\<lambda>r'. key r' = key r) rs \<noteq> None"
    using True by (auto simp: find_None_iff)
  ultimately show ?thesis
    using True by (cases "find (\<lambda>r'. key r' = k) rs") (auto simp: upsert_one_def)
next
  case False
  then have "find (\<lambda>r'. key r' = key r) rs = None"
    by (force simp: find_None_iff image_iff)
  moreover have "find P (rs @ [r]) = (case find P rs of None \<Rightarrow> if P r then Some r else None
      | Some r' \<Rightarrow> Some r')" for P
    by (induction rs) auto
  ultimately show ?thesis using False
    by (auto simp: upsert_one_def split: option.splits)
qed

text \<open>Other keys are untouched by a batch that does not name them.\<close>

lemma find_upsert_other:
  "k \<notin> key ` set rows \<Longrightarrow>
     find (\<lambda>r'. key r' = k) (fold (upsert_one key upd) rows rs) = find (\<lambda>r'. key r' = k) rs"
  by (induction rows arbitrary: rs) (auto simp: find_upsert_one)

lemma refers_upsert:
  assumes g: "\<And>r r'. key r' = key r \<Longrightarrow> g (upd r r') = g r'"
    and "refers g rs A" "list_all (\<lambda>r. g r \<in> A) rows"
  shows "refers g (fold (upsert_one key upd) rows rs) A"
  using assms(2,3)
proof (induction rows arbitrary: rs)
  case (Cons r rows)
  have "refers g (update_where (\<lambda>r'. key r' = key r) (upd r) rs) A"
    using Cons.prems(1) by (subst refers_update) (auto intro: g)
  moreover have "refers g (rs @ [r]) A"
    using Cons.prems by simp
  ultimately have "refers g (upsert_one key upd r rs) A"
    unfolding upsert_one_def by (rule if_split [THEN iffD2, OF conjI, OF impI impI])
  moreover have "list_all (\<lambda>r. g r \<in> A) rows" using Cons.prems(2) by simp
  ultimately show ?case using Cons.IH by simp
qed simp

lemma refers_upsert_one:
  assumes "\<And>r r'. key r' = key r \<Longrightarrow> g (upd r r') = g r'" "refers g rs A" "g r \<in> A"
  shows "refers g (upsert_one key upd r rs) A"
  using refers_upsert [of g rs A "[r]"] assms by simp

text \<open>A column that the upsert never overwrites keeps its value.\<close>

lemma find_upsert_keeps:
  assumes g: "\<And>r r'. g (upd r r') = g r'" and "find (\<lambda>r'. key r' = k) rs = Some old"
  shows "\<exists>r. find (\<lambda>r'. key r' = k) (fold (upsert_one key upd) rows rs) = Some r \<and> g r = g old"
  using assms(2)
proof (induction rows arbitrary: rs old)
  case (Cons r rows)
  let ?new = "if k = key r then upd r old else old"
  have "find (\<lambda>r'. key r' = k) (upsert_one key upd r rs) = Some ?new"
    using Cons.prems by (cases "k = key r") (simp_all add: find_upsert_one)
  then obtain r' where "find (\<lambda>r'. key r' = k) (fold (upsert_one key upd) (r # rows) rs) = Some r'"
    "g r' = g ?new" using Cons.IH by fastforce
  then show ?case using g by auto
qed simp

lemmas upsert_intros = uniq_upsert uniq_upsert_one refers_upsert refers_upsert_one

end

subsection \<open>Removal cascades\<close>

lemma wf_drop_client_rows: "wf_store s \<Longrightarrow> wf_store (drop_client_rows D s)"
  by (simp add: wf_defs drop_client_rows_def)

lemma remove_clients_other [frame]:
  "driver (remove_clients P s) = driver s" "admins (remove_clients P s) = admins s"
  by (simp_all add: remove_clients_def cascade_clients_def drop_client_rows_def)

lemma wf_remove_clients:
  assumes "wf_store s"
  shows "wf_store (remove_clients P s)"
proof -
  have d: "uniq cl_id (clients s)" using assms by (simp add: wf_defs)
  show ?thesis
    using assms image_filter_diff [OF d, of P]
    by (simp add: wf_defs remove_clients_def cascade_clients_def drop_client_rows_def
        refers_removed)
qed

text \<open>Deleting accounts: \<open>cascade_admins\<close> on what is left when the rows in \<open>D\<close> are gone.\<close>

lemma orefers_null:
  "(\<And>r. g (f r) = null_if D (g r)) \<Longrightarrow> orefers g rs A \<Longrightarrow> orefers g (map f rs) (A - Collect D)"
  by (auto simp: orefers_def null_if_def split: option.splits if_splits)

lemma uniq_map: "(\<And>r. g (f r) = g r) \<Longrightarrow> uniq g (map f rs) = uniq g rs"
  by (simp add: uniq_def comp_def)

lemma wf_remove_admins:
  assumes wf: "wf_store s"
  shows "wf_store (remove_admins P s)"
proof -
  have d: "uniq adm_id (admins s)" using wf by (simp add: wf_defs)
  define B where "B = adm_id ` set (filter P (admins s))"
  define s1 where "s1 = remove_clients (\<lambda>r. cl_owner r \<in> B) s"
  have "wf_store s1" unfolding s1_def using wf by (rule wf_remove_clients)
  moreover have "clients s1 = filter (\<lambda>r. cl_owner r \<notin> B) (clients s)"
    "driver s1 = driver s" "admins s1 = admins s" "admins_seq s1 = admins_seq s"
    by (simp_all add: s1_def remove_clients_def cascade_clients_def drop_client_rows_def)
  ultimately show ?thesis
    using wf image_filter_diff [OF d, of P, folded B_def]
    unfolding remove_admins_def cascade_admins_def B_def [symmetric] s1_def [symmetric]
    by (cases "driver s = DriverSQLite")
       (simp_all add: wf_defs refers_removed uniq_map
         orefers_null [where D = "\<lambda>i. i \<in> B", simplified])
qed

lemma wf_remove_nodes:
  assumes "wf_store s"
  shows "wf_store (remove_nodes P s)"
proof -
  have d: "uniq nd_id (nodes s)" using assms by (simp add: wf_defs)
  show ?thesis
    using assms image_filter_diff [OF d, of P]
    by (simp add: wf_defs remove_nodes_def Let_def refers_removed)
qed

lemma pres_delete_clients [pres]: "preserves wf_store (delete_clients P)"
  by (simp add: delete_clients_def pres_stmt wf_remove_clients)

lemma pres_delete_admins [pres]: "preserves wf_store (delete_admins P)"
  by (simp add: delete_admins_def pres_stmt wf_remove_admins)

lemma pres_delete_nodes [pres]: "preserves wf_store (delete_nodes P)"
  by (simp add: delete_nodes_def pres_stmt wf_remove_nodes)

end
