(* ===== verification/Clients.thy ===== *)
theory Clients
  imports StoreInv
begin

text \<open>
  Devices: \<^verbatim>\<open>internal/storage/clients.go\<close>. The row type is \<^typ>\<open>client_row\<close>; \<open>client\<close> is the
  app-facing struct. Times are kept as the milliseconds the columns hold. The operations a tenant
  calls on one of its devices share one shape, an \<^verbatim>\<open>UPDATE\<close> gated by owner whose empty result is
  \<^verbatim>\<open>ErrNotFound\<close>; the locale \<open>owner_gated\<close> is that contract, and every such operation of the
  storage layer is an interpretation of it.
\<close>

definition bool_to_int :: "bool \<Rightarrow> int" where
  "bool_to_int b = (if b then 1 else 0)"

record client =
  ID :: string
  OwnerAdminID :: int
  Name :: string
  TokenHash :: string
  HWID :: string
  DeviceName :: string
  DeviceModel :: string
  OSVersion :: string
  AppVersion :: string
  LastPeerIP :: string
  CreatedAt :: int
  LastSeenAt :: int
  Online :: bool
  LogRuntimeEnabled :: bool
  LogProxyEnabled :: bool
  LogXRayEnabled :: bool
  SyncMode :: string
  PeriodicIntervalMinutes :: int
  HasRootAccess :: bool
  VkOAuthAuthorized :: bool
  RemoteControl :: bool

definition toStorageClient :: "client_row \<Rightarrow> client" where
  "toStorageClient m = \<lparr>
     ID = cl_id m, OwnerAdminID = cl_owner m, Name = cl_name m, TokenHash = cl_token_hash m,
     HWID = cl_hwid m, DeviceName = cl_device_name m, DeviceModel = cl_device_model m,
     OSVersion = cl_os_version m, AppVersion = cl_app_version m, LastPeerIP = cl_last_peer_ip m,
     CreatedAt = cl_created_at m, LastSeenAt = cl_last_seen_at m, Online = (cl_online m \<noteq> 0),
     LogRuntimeEnabled = (cl_log_runtime m \<noteq> 0), LogProxyEnabled = (cl_log_proxy m \<noteq> 0),
     LogXRayEnabled = (cl_log_xray m \<noteq> 0),
     SyncMode = (if cl_sync_mode m = [] then ''always'' else cl_sync_mode m),
     PeriodicIntervalMinutes =
       (if cl_periodic_minutes m \<le> 0 then 30 else cl_periodic_minutes m),
     HasRootAccess = (cl_root_access m \<noteq> 0), VkOAuthAuthorized = (cl_vk_oauth m \<noteq> 0),
     RemoteControl = (cl_remote_control m \<noteq> 0)\<rparr>"

subsection \<open>Reading\<close>

definition client_by_id :: "string \<Rightarrow> store \<Rightarrow> client_row option" where
  "client_by_id i s = find (\<lambda>r. cl_id r = i) (clients s)"

definition FindClientByID :: "string \<Rightarrow> client db" where
  "FindClientByID i = bindE (find_row (client_by_id i)) (\<lambda>m. ret (toStorageClient m))"

text \<open>The condition \<^verbatim>\<open>id = ? AND owner_admin_id = ?\<close>.\<close>

definition owned :: "string \<Rightarrow> int \<Rightarrow> client_row \<Rightarrow> bool" where
  "owned i owner r \<longleftrightarrow> cl_id r = i \<and> cl_owner r = owner"

definition GetClientToken :: "string \<Rightarrow> int \<Rightarrow> bytes db" where
  "GetClientToken i owner =
     bindE (find_row (\<lambda>s. find (owned i owner) (clients s)))
       (\<lambda>m. if cl_token_plain m = [] then fail ErrNotFound else ret (cl_token_plain m))"

text \<open>
  \<^verbatim>\<open>ORDER BY created_at DESC\<close>, ties in table order. \<^verbatim>\<open>Offset\<close> has an effect only when it is positive.
\<close>

definition newest_first :: "client_row list \<Rightarrow> client_row list" where
  "newest_first rs = sort_key (\<lambda>r. - cl_created_at r) rs"

definition pageClients ::
  "(client_row \<Rightarrow> bool) \<Rightarrow> int \<Rightarrow> int \<Rightarrow> (client list \<times> int) db" where
  "pageClients Q limit offset =
     bindE (select (\<lambda>s. int (length (filter Q (clients s))))) (\<lambda>total.
     bindE (select (\<lambda>s. newest_first (filter Q (clients s)))) (\<lambda>ms.
     ret (map toStorageClient
            (if limit > 0 then take (nat limit) (drop (nat offset) ms) else ms), total)))"

definition PageClientsByOwner :: "int \<Rightarrow> int \<Rightarrow> int \<Rightarrow> (client list \<times> int) db" where
  "PageClientsByOwner owner = pageClients (\<lambda>r. cl_owner r = owner)"

definition PageAllClients :: "int \<Rightarrow> int \<Rightarrow> (client list \<times> int) db" where
  "PageAllClients = pageClients (\<lambda>_. True)"

definition ListClientsByOwner :: "int \<Rightarrow> client list db" where
  "ListClientsByOwner owner = bindE (PageClientsByOwner owner 0 0) (\<lambda>(cs, _). ret cs)"

definition ListAllClients :: "client list db" where
  "ListAllClients = bindE (PageAllClients 0 0) (\<lambda>(cs, _). ret cs)"

record client_counts =
  Total :: int
  OnlineCount :: int

definition countClients :: "(client_row \<Rightarrow> bool) \<Rightarrow> client_counts db" where
  "countClients Q = select (\<lambda>s. let rs = filter Q (clients s) in
     \<lparr>Total = int (length rs), OnlineCount = sum_list (map cl_online rs)\<rparr>)"

definition CountClients :: "client_counts db" where
  "CountClients = countClients (\<lambda>_. True)"

definition CountClientsByOwner :: "int \<Rightarrow> client_counts db" where
  "CountClientsByOwner owner = countClients (\<lambda>r. cl_owner r = owner)"

subsection \<open>Writing\<close>

text \<open>
  A new row takes the column defaults of the schema wherever the struct holds Go's zero value.
\<close>

definition new_client_row ::
  "string \<Rightarrow> int \<Rightarrow> string \<Rightarrow> string \<Rightarrow> bytes \<Rightarrow> int \<Rightarrow> client_row" where
  "new_client_row i owner name tokenHash tokenPlain now = \<lparr>
     cl_id = i, cl_owner = owner, cl_name = name, cl_token_hash = tokenHash,
     cl_token_plain = tokenPlain, cl_hwid = [], cl_device_name = [], cl_device_model = [],
     cl_os_version = [], cl_app_version = [], cl_created_at = now, cl_last_seen_at = 0,
     cl_online = 0, cl_last_peer_ip = [], cl_log_runtime = 1, cl_log_proxy = 1, cl_log_xray = 0,
     cl_sync_mode = ''always'', cl_periodic_minutes = 30, cl_root_access = 0, cl_vk_oauth = 0,
     cl_remote_control = 1, cl_disabled = 0, cl_traffic_limit = 0\<rparr>"

definition CreateClient ::
  "string \<Rightarrow> int \<Rightarrow> string \<Rightarrow> string \<Rightarrow> bytes \<Rightarrow> client db" where
  "CreateClient i owner name tokenHash tokenPlain =
     bindE (asks clock) (\<lambda>now.
     bindE (insert_row clients_update
              (\<lambda>s. i \<notin> cl_id ` set (clients s) \<and> fk_admin owner s)
              (new_client_row i owner name tokenHash tokenPlain now)) (\<lambda>_.
     FindClientByID i))"

text \<open>
  The tail that every owner-gated update repeats: \<^verbatim>\<open>if res.RowsAffected == 0 { return ErrNotFound }\<close>.
\<close>

definition require_affected :: "nat \<Rightarrow> unit db" where
  "require_affected n = (if n = 0 then fail ErrNotFound else ret ())"

definition UpdateClientToken :: "string \<Rightarrow> int \<Rightarrow> string \<Rightarrow> bytes \<Rightarrow> unit db" where
  "UpdateClientToken i owner tokenHash tokenPlain =
     bindE (update_rows clients clients_update (owned i owner)
        (\<lambda>r. r\<lparr>cl_token_hash := tokenHash, cl_token_plain := tokenPlain, cl_hwid := []\<rparr>))
       require_affected"

definition UpdateClientLogControl ::
  "string \<Rightarrow> int \<Rightarrow> bool \<Rightarrow> bool \<Rightarrow> bool \<Rightarrow> unit db" where
  "UpdateClientLogControl i owner runtime proxy xray =
     bindE (update_rows clients clients_update (owned i owner)
        (\<lambda>r. r\<lparr>cl_log_runtime := bool_to_int runtime, cl_log_proxy := bool_to_int proxy,
               cl_log_xray := bool_to_int xray\<rparr>))
       require_affected"

definition UpdateClientSync :: "string \<Rightarrow> int \<Rightarrow> string \<Rightarrow> int \<Rightarrow> unit db" where
  "UpdateClientSync i owner mode intervalMinutes =
     (let mode' = (if mode = [] then ''always'' else mode);
          interval' = (if intervalMinutes \<le> 0 then 30 else intervalMinutes)
      in bindE (update_rows clients clients_update (owned i owner)
           (\<lambda>r. r\<lparr>cl_sync_mode := mode', cl_periodic_minutes := interval'\<rparr>))
          require_affected)"

record device_info =
  di_hwid :: string
  di_device_name :: string
  di_device_model :: string
  di_os_version :: string
  di_app_version :: string
  di_peer_ip :: string

definition presence_update ::
  "bool \<Rightarrow> device_info option \<Rightarrow> int \<Rightarrow> client_row \<Rightarrow> client_row" where
  "presence_update online devInfo now r =
     (let r1 = r\<lparr>cl_online := bool_to_int online, cl_last_seen_at := now\<rparr> in
      case devInfo of
        None \<Rightarrow> r1
      | Some d \<Rightarrow>
          (let r2 = r1\<lparr>cl_hwid := di_hwid d, cl_device_name := di_device_name d,
                       cl_device_model := di_device_model d, cl_os_version := di_os_version d,
                       cl_app_version := di_app_version d\<rparr>
           in if di_peer_ip d \<noteq> [] then r2\<lparr>cl_last_peer_ip := di_peer_ip d\<rparr> else r2))"

definition UpdateClientPresence :: "string \<Rightarrow> bool \<Rightarrow> device_info option \<Rightarrow> unit db" where
  "UpdateClientPresence i online devInfo =
     bindE (asks clock) (\<lambda>now.
     bindE (update_rows clients clients_update (\<lambda>r. cl_id r = i)
              (presence_update online devInfo now)) (\<lambda>_. ret ()))"

definition MarkAllClientsOffline :: "unit db" where
  "MarkAllClientsOffline =
     bindE (update_rows clients clients_update (\<lambda>r. cl_online r \<noteq> 0)
              (\<lambda>r. r\<lparr>cl_online := 0\<rparr>)) (\<lambda>_. ret ())"

definition UpdateClientRootAccess :: "string \<Rightarrow> bool \<Rightarrow> unit db" where
  "UpdateClientRootAccess i hasRoot =
     bindE (update_rows clients clients_update (\<lambda>r. cl_id r = i)
              (\<lambda>r. r\<lparr>cl_root_access := bool_to_int hasRoot\<rparr>)) (\<lambda>_. ret ())"

definition UpdateClientVkOAuthAuthorized :: "string \<Rightarrow> bool \<Rightarrow> unit db" where
  "UpdateClientVkOAuthAuthorized i authorized =
     bindE (update_rows clients clients_update (\<lambda>r. cl_id r = i)
              (\<lambda>r. r\<lparr>cl_vk_oauth := bool_to_int authorized\<rparr>)) (\<lambda>_. ret ())"

definition SetClientRemoteControl :: "string \<Rightarrow> int \<Rightarrow> bool \<Rightarrow> unit db" where
  "SetClientRemoteControl i owner remoteControl =
     bindE (update_rows clients clients_update (owned i owner)
              (\<lambda>r. r\<lparr>cl_remote_control := bool_to_int remoteControl\<rparr>)) (\<lambda>_. ret ())"

definition UpgradeClientTokenHash :: "string \<Rightarrow> string \<Rightarrow> unit db" where
  "UpgradeClientTokenHash i tokenHash =
     bindE (update_rows clients clients_update (\<lambda>r. cl_id r = i)
              (\<lambda>r. r\<lparr>cl_token_hash := tokenHash\<rparr>)) (\<lambda>_. ret ())"

subsection \<open>Deleting\<close>

datatype client_table =
    ClientConfigs | ClientInstalledApps | ClientLogs | ClientReportedConfigs
  | ClientRuntime | ClientTraffic | ClientWGPeers | PendingCommands

definition clientOwnedTables :: "client_table list" where
  "clientOwnedTables = [ClientConfigs, ClientInstalledApps, ClientLogs, ClientReportedConfigs,
     ClientRuntime, ClientTraffic, ClientWGPeers, PendingCommands]"

text \<open>\<^verbatim>\<open>DELETE FROM <table> WHERE\<close> the predicate \<open>D\<close> holds of \<^verbatim>\<open>client_id\<close>.\<close>

fun delete_owned :: "client_table \<Rightarrow> (string \<Rightarrow> bool) \<Rightarrow> store \<Rightarrow> store" where
  "delete_owned ClientConfigs D s = s\<lparr>cconfigs := filter (\<lambda>r. \<not> D (cc_client_id r)) (cconfigs s)\<rparr>"
| "delete_owned ClientInstalledApps D s = s\<lparr>capps := filter (\<lambda>r. \<not> D (cb_client_id r)) (capps s)\<rparr>"
| "delete_owned ClientLogs D s = s\<lparr>clogs := filter (\<lambda>r. \<not> D (lg_client_id r)) (clogs s)\<rparr>"
| "delete_owned ClientReportedConfigs D s =
     s\<lparr>creported := filter (\<lambda>r. \<not> D (cb_client_id r)) (creported s)\<rparr>"
| "delete_owned ClientRuntime D s = s\<lparr>cruntime := filter (\<lambda>r. \<not> D (cb_client_id r)) (cruntime s)\<rparr>"
| "delete_owned ClientTraffic D s = s\<lparr>ctraffic := filter (\<lambda>r. \<not> D (ct_client_id r)) (ctraffic s)\<rparr>"
| "delete_owned ClientWGPeers D s = s\<lparr>wgpeers := filter (\<lambda>r. \<not> D (wp_client_id r)) (wgpeers s)\<rparr>"
| "delete_owned PendingCommands D s = s\<lparr>pending := filter (\<lambda>r. \<not> D (pc_client_id r)) (pending s)\<rparr>"

definition DeleteClient :: "string \<Rightarrow> int \<Rightarrow> unit db" where
  "DeleteClient i owner = transaction (
     bindE (delete_clients (owned i owner)) (\<lambda>n.
     if n = 0 then fail ErrNotFound
     else forE clientOwnedTables (\<lambda>tbl. exec (delete_owned tbl (\<lambda>c. c = i)))))"

definition PurgeOrphanClientRows :: "unit db" where
  "PurgeOrphanClientRows =
     forE clientOwnedTables (\<lambda>tbl. exec (\<lambda>s. delete_owned tbl (\<lambda>c. c \<notin> cl_id ` set (clients s)) s))"

subsection \<open>What the operations preserve\<close>

lemma pres_update_clients [pres]:
  assumes "\<And>r. P r \<Longrightarrow> cl_id (f r) = cl_id r" "\<And>r. P r \<Longrightarrow> cl_owner (f r) = cl_owner r"
  shows "preserves wf_store (update_rows clients clients_update P f)"
  by (rule pres_update_rows) (simp_all add: wf_defs assms)

lemma pres_require_affected [pres]: "preserves I (require_affected n)"
  by (simp add: require_affected_def)

lemma presence_update_keys [simp]:
  "cl_id (presence_update b d now r) = cl_id r"
  "cl_owner (presence_update b d now r) = cl_owner r"
  by (simp_all add: presence_update_def Let_def split: option.splits)

lemma pres_client_updates [pres]:
  "preserves wf_store (UpdateClientToken i owner h p)"
  "preserves wf_store (UpdateClientLogControl i owner b1 b2 b3)"
  "preserves wf_store (UpdateClientSync i owner m n)"
  "preserves wf_store (UpdateClientPresence i b d)"
  "preserves wf_store MarkAllClientsOffline"
  "preserves wf_store (UpdateClientRootAccess i b)"
  "preserves wf_store (UpdateClientVkOAuthAuthorized i b)"
  "preserves wf_store (SetClientRemoteControl i owner b)"
  "preserves wf_store (UpgradeClientTokenHash i h)"
  by (auto simp: UpdateClientToken_def UpdateClientLogControl_def UpdateClientSync_def Let_def
      UpdateClientPresence_def MarkAllClientsOffline_def UpdateClientRootAccess_def
      UpdateClientVkOAuthAuthorized_def SetClientRemoteControl_def UpgradeClientTokenHash_def
      intro!: pres)

lemma pres_FindClientByID [pres]: "preserves wf_store (FindClientByID i)"
  by (auto simp: FindClientByID_def intro!: pres)

lemma pres_CreateClient [pres]: "preserves wf_store (CreateClient i owner name h p)"
  unfolding CreateClient_def
  by (intro pres pres_insert_row) (auto simp: wf_defs fk_admin_def new_client_row_def)

lemma wf_delete_owned: "wf_store s \<Longrightarrow> wf_store (delete_owned tbl D s)"
  by (cases tbl; simp add: wf_defs)

lemma pres_delete_owned [pres]: "preserves wf_store (exec (\<lambda>s. delete_owned tbl (D s) s))"
  by (rule pres_exec) (simp_all add: wf_delete_owned)

lemma pres_DeleteClient [pres]: "preserves wf_store (DeleteClient i owner)"
  unfolding DeleteClient_def
  by (intro pres pres_delete_owned [where D = "\<lambda>_ c. c = i"] fault_free_wf)

lemma pres_PurgeOrphanClientRows [pres]: "preserves wf_store PurgeOrphanClientRows"
  unfolding PurgeOrphanClientRows_def
  by (intro pres pres_delete_owned [where D = "\<lambda>s c. c \<notin> cl_id ` set (clients s)"])

subsection \<open>The contract of an owner-gated update\<close>

lemma client_by_id_SomeD:
  "client_by_id i s = Some r \<Longrightarrow> r \<in> set (clients s) \<and> cl_id r = i"
  by (auto simp: client_by_id_def find_Some_iff)

lemma client_by_id_update:
  "(\<And>r. cl_id (f r) = cl_id r) \<Longrightarrow>
   client_by_id i (clients_update (update_where P f) s) =
     map_option (\<lambda>r. if P r then f r else r) (client_by_id i s)"
  by (simp add: client_by_id_def find_update_where)

lemma client_by_id_data: "client_by_id i (data s) = client_by_id i s"
  by (simp add: client_by_id_def data_def)

lemma client_by_id_present:
  "wf_store s \<Longrightarrow> r \<in> set (clients s) \<Longrightarrow> client_by_id (cl_id r) s = Some r"
  by (simp add: client_by_id_def find_key wf_defs uniq_def)

lemma client_by_id_fk: "client_by_id i s = Some r \<Longrightarrow> fk_client i s"
  by (auto simp: fk_client_def dest!: client_by_id_SomeD)

text \<open>
  A tenant's operation on one of its devices: \<open>f\<close> changes columns other than the identity and the
  owner, and the operation runs it on the row with this id and this owner only.
\<close>

locale owner_gated =
  fixes opn :: "string \<Rightarrow> int \<Rightarrow> unit db" and f :: "client_row \<Rightarrow> client_row"
  assumes opn_eq: "opn i owner =
      bindE (update_rows clients clients_update (owned i owner) f) require_affected"
    and id_f: "cl_id (f r) = cl_id r"
    and owner_f: "cl_owner (f r) = cl_owner r"
begin

lemma run: "faults s = [] \<Longrightarrow> opn i owner s =
    (if affected (driver s) (owned i owner) f (clients s) = 0 then Inl ErrNotFound else Inr (),
     clients_update (update_where (owned i owner) f) s)"
  by (simp add: opn_eq bindE_def update_rows_ok require_affected_def)

lemma data_run: "data (snd (opn i owner s)) \<in>
    {data s, clients_update (update_where (owned i owner) f) (data s)}"
  by (auto simp: opn_eq bindE_def update_rows_def stmt_def require_affected_def data_def
      split: list.splits)

text \<open>Nothing happens to the rows of another tenant, or to another device of the same one.\<close>

lemma foreign_row:
  "client_by_id j s = Some r \<Longrightarrow> \<not> owned i owner r \<Longrightarrow>
     client_by_id j (snd (opn i owner s)) = Some r"
proof -
  assume r: "client_by_id j s = Some r" "\<not> owned i owner r"
  have "client_by_id j (data (snd (opn i owner s))) = Some r"
    using data_run [of i owner s] r client_by_id_data [of j s]
    by (auto simp: client_by_id_update id_f)
  then show ?thesis by (simp add: client_by_id_data)
qed

lemma refused:
  assumes "\<forall>r. client_by_id i s = Some r \<longrightarrow> cl_owner r \<noteq> owner" "wf_store s" "faults s = []"
  shows "opn i owner s = (Inl ErrNotFound, s)"
proof -
  have "\<not> owned i owner r" if "r \<in> set (clients s)" for r
    using that assms(1) client_by_id_present [OF assms(2) that] by (auto simp: owned_def)
  then have no: "\<forall>r \<in> set (clients s). \<not> owned i owner r" by blast
  then have "affected (driver s) (owned i owner) f (clients s) = 0"
    by (simp add: affected_def filter_empty_conv)
  then show ?thesis using assms(3) no by (simp add: run update_where_none)
qed

lemma applied:
  assumes "client_by_id i s = Some r" "cl_owner r = owner" "faults s = []"
    "driver s = DriverMySQL \<longrightarrow> f r \<noteq> r"
  shows "fst (opn i owner s) = Inr ()"
    and "client_by_id i (snd (opn i owner s)) = Some (f r)"
proof -
  have "r \<in> set (clients s)" "owned i owner r"
    using client_by_id_SomeD [OF assms(1)] assms(2) by (auto simp: owned_def)
  then show "fst (opn i owner s) = Inr ()"
    and "client_by_id i (snd (opn i owner s)) = Some (f r)"
    using assms by (auto simp: run affected_def filter_empty_conv client_by_id_update id_f)
qed

text \<open>MariaDB counts changed rows only, so repeating a setting is reported as a missing client.\<close>

lemma unchanged_mysql:
  assumes "\<forall>r \<in> set (clients s). owned i owner r \<longrightarrow> f r = r" "faults s = []"
    "driver s = DriverMySQL"
  shows "opn i owner s = (Inl ErrNotFound, s)"
proof -
  have "update_where (owned i owner) f (clients s) = clients s"
    using assms(1) by (auto simp: update_where_def intro: map_idI)
  then show ?thesis using assms by (simp add: run affected_def)
qed

end

interpretation token: owner_gated
  "\<lambda>i owner. UpdateClientToken i owner h p"
  "\<lambda>r. r\<lparr>cl_token_hash := h, cl_token_plain := p, cl_hwid := []\<rparr>" for h p
  by unfold_locales (simp_all add: UpdateClientToken_def)

interpretation log_control: owner_gated
  "\<lambda>i owner. UpdateClientLogControl i owner b1 b2 b3"
  "\<lambda>r. r\<lparr>cl_log_runtime := bool_to_int b1, cl_log_proxy := bool_to_int b2,
         cl_log_xray := bool_to_int b3\<rparr>" for b1 b2 b3
  by unfold_locales (simp_all add: UpdateClientLogControl_def)

interpretation sync: owner_gated
  "\<lambda>i owner. UpdateClientSync i owner mode minutes"
  "\<lambda>r. r\<lparr>cl_sync_mode := if mode = [] then ''always'' else mode,
         cl_periodic_minutes := if minutes \<le> 0 then 30 else minutes\<rparr>" for mode minutes
  by unfold_locales (simp_all add: UpdateClientSync_def Let_def)

subsection \<open>Deleting a device\<close>

lemma blind_delete_owned: "blind (delete_owned tbl D)"
  by (cases tbl; simp add: blind_def)

lemma fold_delete_owned:
  "fold (\<lambda>tbl. delete_owned tbl D) clientOwnedTables s = drop_client_rows D s"
  by (simp add: clientOwnedTables_def drop_client_rows_def)

lemma drop_client_rows_idem [simp]:
  "drop_client_rows D (drop_client_rows D s) = drop_client_rows D s"
  by (simp add: drop_client_rows_def)

lemma blind_remove_clients: "data (remove_clients P s) = remove_clients P (data s)"
  by (simp add: data_def remove_clients_def cascade_clients_def drop_client_rows_def)

text \<open>The store without the device and everything keyed to it.\<close>

definition without_client :: "string \<Rightarrow> int \<Rightarrow> store \<Rightarrow> store" where
  "without_client i owner s = drop_client_rows (\<lambda>c. c = i)
     (s\<lparr>clients := filter (\<lambda>r. \<not> owned i owner r) (clients s)\<rparr>)"

lemma drop_after_remove:
  assumes "\<exists>r \<in> set (clients s). owned i owner r"
  shows "drop_client_rows (\<lambda>c. c = i) (remove_clients (owned i owner) s) = without_client i owner s"
proof -
  have "cl_id ` set (filter (owned i owner) (clients s)) = {i}"
    using assms by (auto simp: owned_def)
  then have "(\<lambda>c. c \<in> cl_id ` set (filter (owned i owner) (clients s))) = (\<lambda>c. c = i)"
    by simp
  then show ?thesis
    unfolding remove_clients_def cascade_clients_def without_client_def by simp
qed

lemma delete_clients_data:
  "delete_clients P s = (r, t) \<Longrightarrow>
     (case r of Inl _ \<Rightarrow> data t = data s
      | Inr n \<Rightarrow> n = length (filter P (clients s)) \<and> data t = remove_clients P (data s))"
  by (cases "faults s")
     (auto simp: delete_clients_def stmt_def blind_remove_clients split: if_splits)

lemma clients_data [simp]: "clients (data s) = clients s"
  by (simp add: data_def)

lemma DeleteClient_Inl: "DeleteClient i owner s = (Inl e, s') \<Longrightarrow> data s' = data s"
  unfolding DeleteClient_def by (rule transaction_InlD)

lemma DeleteClient_Inr:
  assumes "DeleteClient i owner s = (Inr u, s')"
  shows "(\<exists>r \<in> set (clients s). owned i owner r) \<and> data s' = without_client i owner (data s)"
proof -
  obtain s1 s2 where d: "data s1 = data s" "data s' = data s2"
    and m: "bindE (delete_clients (owned i owner)) (\<lambda>n. if n = 0 then fail ErrNotFound
      else forE clientOwnedTables (\<lambda>tbl. exec (delete_owned tbl (\<lambda>c. c = i)))) s1 = (Inr u, s2)"
    using assms unfolding DeleteClient_def by (elim transaction_InrD)
  obtain r t where t: "delete_clients (owned i owner) s1 = (r, t)" by fastforce
  have n: "\<exists>r \<in> set (clients s1). owned i owner r" and t': "data t = remove_clients (owned i owner) (data s)"
    and f: "forE clientOwnedTables (\<lambda>tbl. exec (delete_owned tbl (\<lambda>c. c = i))) t = (Inr (), s2)"
    using m delete_clients_data [OF t] t d(1)
    by (auto simp: bindE_def filter_empty_conv split: sum.splits if_splits)
  have "clients s1 = clients s" by (metis clients_data d(1))
  moreover have "data s2 = drop_client_rows (\<lambda>c. c = i) (remove_clients (owned i owner) (data s))"
    using forE_exec_data [OF blind_delete_owned f] by (simp add: fold_delete_owned t')
  ultimately show ?thesis
    using n d(2) drop_after_remove [of "data s" i owner] by simp
qed

subsection \<open>Properties\<close>

text \<open>C7: Deleting a device is all or nothing. Whatever statement the database refuses, on whatever
  dialect: an error leaves the data exactly as it was, and success means that the device belonged
  to the caller and that its row and every row of the eight tables keyed by it are gone, and
  nothing else.\<close>

theorem delete_client_atomic:
  "case DeleteClient i owner s of
     (Inl _, s') \<Rightarrow> data s' = data s
   | (Inr _, s') \<Rightarrow> (\<exists>r \<in> set (clients s). owned i owner r) \<and>
                    data s' = without_client i owner (data s)"
proof (cases "DeleteClient i owner s")
  case (Pair r s')
  then show ?thesis
    using DeleteClient_Inl [of i owner s _ s'] DeleteClient_Inr [of i owner s _ s']
    by (cases r) auto
qed

end
