(* ===== verification/ClientState.thy ===== *)
theory ClientState
  imports Clients
begin

text \<open>
  What the panel knows of a device's state: \<^verbatim>\<open>internal/storage/state.go\<close>. The stored configuration
  with its version counter and per-field edit marks, the configuration, runtime and application
  list the device reports, and the metadata of application packages.
\<close>

record client_config =
  ClientID :: string
  ConfigProto :: bytes
  Revision :: string
  UpdatedAt :: int
  ConfigVersion :: u64
  TouchedFields :: "(string \<times> int) list"

definition config_of :: "string \<Rightarrow> store \<Rightarrow> client_config_row option" where
  "config_of c s = find (\<lambda>r. cc_client_id r = c) (cconfigs s)"

text \<open>
  \<^verbatim>\<open>INSERT ... ON CONFLICT DO UPDATE\<close>: the version starts at 1 and every later write adds one; the
  edit marks are left alone.
\<close>

definition config_upd :: "client_config_row \<Rightarrow> client_config_row \<Rightarrow> client_config_row" where
  "config_upd new old = old\<lparr>cc_config_proto := cc_config_proto new, cc_revision := cc_revision new,
     cc_updated_at := cc_updated_at new, cc_config_version := cc_config_version old + 1\<rparr>"

definition UpsertClientConfig :: "string \<Rightarrow> bytes \<Rightarrow> string \<Rightarrow> u64 db" where
  "UpsertClientConfig clientID configProto revision =
     bindE (asks clock) (\<lambda>now.
     bindE (upsert_rows cconfigs_update cc_client_id config_upd (\<lambda>s r. fk_client (cc_client_id r) s)
              [\<lparr>cc_client_id = clientID, cc_config_proto = configProto, cc_revision = revision,
                cc_updated_at = now, cc_config_version = 1, cc_touched_fields = []\<rparr>]) (\<lambda>_.
     select (\<lambda>s. case config_of clientID s of None \<Rightarrow> 0 | Some m \<Rightarrow> u64_of (cc_config_version m))))"

definition toClientConfig :: "client_config_row \<Rightarrow> client_config" where
  "toClientConfig m = \<lparr>ClientID = cc_client_id m, ConfigProto = cc_config_proto m,
     Revision = cc_revision m, UpdatedAt = cc_updated_at m,
     ConfigVersion = u64_of (cc_config_version m), TouchedFields = cc_touched_fields m\<rparr>"

definition GetClientConfig :: "string \<Rightarrow> client_config db" where
  "GetClientConfig clientID = bindE (find_row (config_of clientID)) (\<lambda>m. ret (toClientConfig m))"

text \<open>\<^verbatim>\<open>json.Marshal\<close> of a map sorts its keys, so equal maps are equal columns.\<close>

definition UpsertClientConfigPatched ::
  "string \<Rightarrow> bytes \<Rightarrow> string \<Rightarrow> (string \<times> int) list \<Rightarrow> u64 db" where
  "UpsertClientConfigPatched clientID configProto revision touched =
     bindE (UpsertClientConfig clientID configProto revision) (\<lambda>version.
     bindE (update_rows cconfigs cconfigs_update (\<lambda>r. cc_client_id r = clientID)
              (\<lambda>r. r\<lparr>cc_touched_fields := sort_key fst touched\<rparr>)) (\<lambda>_.
     ret version))"

definition ListClientConfigs :: "client_config list db" where
  "ListClientConfigs = bindE (select cconfigs) (\<lambda>rows.
     ret (map (\<lambda>m. (toClientConfig m)\<lparr>TouchedFields := []\<rparr>) rows))"

subsection \<open>Reported state\<close>

text \<open>\<^verbatim>\<open>AssignmentColumns\<close> of the payload and the time, on conflict of \<^verbatim>\<open>client_id\<close>.\<close>

definition blob_upd :: "client_blob_row \<Rightarrow> client_blob_row \<Rightarrow> client_blob_row" where
  "blob_upd new old = old\<lparr>cb_proto := cb_proto new, cb_updated_at := cb_updated_at new\<rparr>"

definition upsert_blob ::
  "((client_blob_row list \<Rightarrow> client_blob_row list) \<Rightarrow> store \<Rightarrow> store) \<Rightarrow> string \<Rightarrow> bytes \<Rightarrow> unit db" where
  "upsert_blob put clientID proto =
     bindE (asks clock) (\<lambda>now.
     upsert_rows put cb_client_id blob_upd (\<lambda>s r. fk_client (cb_client_id r) s)
       [\<lparr>cb_client_id = clientID, cb_proto = proto, cb_updated_at = now\<rparr>])"

definition get_blob :: "(store \<Rightarrow> client_blob_row list) \<Rightarrow> string \<Rightarrow> (bytes \<times> int) db" where
  "get_blob get clientID =
     bindE (find_row (\<lambda>s. find (\<lambda>r. cb_client_id r = clientID) (get s)))
       (\<lambda>m. ret (cb_proto m, cb_updated_at m))"

definition UpsertClientReportedConfig :: "string \<Rightarrow> bytes \<Rightarrow> unit db" where
  "UpsertClientReportedConfig = upsert_blob creported_update"

definition UpsertClientRuntime :: "string \<Rightarrow> bytes \<Rightarrow> unit db" where
  "UpsertClientRuntime = upsert_blob cruntime_update"

definition UpsertClientInstalledApps :: "string \<Rightarrow> bytes \<Rightarrow> unit db" where
  "UpsertClientInstalledApps = upsert_blob capps_update"

definition GetClientReportedConfig :: "string \<Rightarrow> (bytes \<times> int) db" where
  "GetClientReportedConfig = get_blob creported"

definition GetClientRuntime :: "string \<Rightarrow> (bytes \<times> int) db" where
  "GetClientRuntime = get_blob cruntime"

definition GetClientInstalledApps :: "string \<Rightarrow> (bytes \<times> int) db" where
  "GetClientInstalledApps = get_blob capps"

subsection \<open>Package metadata\<close>

record package_metadata =
  Package :: string
  Label :: string
  IconPNG :: bytes

definition GetPackageMetadataMap :: "string list \<Rightarrow> package_row list db" where
  "GetPackageMetadataMap pkgs =
     (if pkgs = [] then ret []
      else select (\<lambda>s. filter (\<lambda>r. pm_package r \<in> set pkgs) (packages s)))"

definition merged_row :: "package_row list \<Rightarrow> int \<Rightarrow> package_metadata \<Rightarrow> package_row" where
  "merged_row existing now item =
     (let (label, icon) =
        (case find (\<lambda>r. pm_package r = Package item) existing of
           None \<Rightarrow> (Label item, IconPNG item)
         | Some prev \<Rightarrow>
             (if Label item = [] then pm_label prev else Label item,
              if IconPNG item = [] then pm_icon_png prev else IconPNG item))
      in \<lparr>pm_package = Package item, pm_label = label, pm_icon_png = icon, pm_updated_at = now\<rparr>)"

definition package_upd :: "package_row \<Rightarrow> package_row \<Rightarrow> package_row" where
  "package_upd new old = old\<lparr>pm_label := pm_label new, pm_icon_png := pm_icon_png new,
     pm_updated_at := pm_updated_at new\<rparr>"

text \<open>\<^verbatim>\<open>CreateInBatches(rows, 100)\<close>: one statement per hundred rows, no transaction around them.\<close>

function batches :: "nat \<Rightarrow> 'a list \<Rightarrow> 'a list list" where
  "batches n xs = (if xs = [] then [] else take (max 1 n) xs # batches n (drop (max 1 n) xs))"
  by pat_completeness auto
termination by (relation "measure (length \<circ> snd)") auto

declare batches.simps [simp del]

lemma concat_batches [simp]: "concat (batches n xs) = xs"
  by (induction n xs rule: batches.induct) (subst batches.simps, simp)

definition UpsertPackageMetadata :: "package_metadata list \<Rightarrow> unit db" where
  "UpsertPackageMetadata items =
     (if items = [] then ret () else
      let named = filter (\<lambda>item. Package item \<noteq> []) items in
      bindE (GetPackageMetadataMap (map Package named)) (\<lambda>existing.
      bindE (asks clock) (\<lambda>now.
      forE (batches 100 (map (merged_row existing now) named)) (\<lambda>rows.
        upsert_rows packages_update pm_package package_upd (\<lambda>_ _. True) rows))))"

subsection \<open>The tables as keyed tables\<close>

interpretation config_table: keyed_table cc_client_id config_upd
  by unfold_locales (simp add: config_upd_def)

interpretation blob_table: keyed_table cb_client_id blob_upd
  by unfold_locales (simp add: blob_upd_def)

interpretation package_table: keyed_table pm_package package_upd
  by unfold_locales (simp add: package_upd_def)

lemma pres_upsert_configs:
  "preserves wf_store (upsert_rows cconfigs_update cc_client_id config_upd
     (\<lambda>s r. fk_client (cc_client_id r) s) rows)"
  by (rule pres_upsert_rows [OF fault_free_wf], rule wf_put)
     (auto intro!: config_table.upsert_intros
       simp: wf_get config_upd_def fk_ids list_all_iff)

lemma pres_UpsertClientConfig [pres]: "preserves wf_store (UpsertClientConfig c p r)"
  by (auto simp: UpsertClientConfig_def intro!: pres pres_upsert_configs)

lemma pres_UpsertClientConfigPatched [pres]:
  "preserves wf_store (UpsertClientConfigPatched c p r t)"
  unfolding UpsertClientConfigPatched_def
  by (intro pres pres_update_rows) (simp_all add: wf_defs)

lemma pres_upsert_blobs:
  "preserves wf_store (upsert_rows creported_update cb_client_id blob_upd
     (\<lambda>s r. fk_client (cb_client_id r) s) rows)"
  "preserves wf_store (upsert_rows cruntime_update cb_client_id blob_upd
     (\<lambda>s r. fk_client (cb_client_id r) s) rows)"
  "preserves wf_store (upsert_rows capps_update cb_client_id blob_upd
     (\<lambda>s r. fk_client (cb_client_id r) s) rows)"
  by (rule pres_upsert_rows [OF fault_free_wf], rule wf_put;
      auto intro!: blob_table.upsert_intros
        simp: wf_get blob_upd_def fk_ids list_all_iff)+

lemma pres_reported [pres]:
  "preserves wf_store (UpsertClientReportedConfig c p)"
  "preserves wf_store (UpsertClientRuntime c p)"
  "preserves wf_store (UpsertClientInstalledApps c p)"
  unfolding UpsertClientReportedConfig_def UpsertClientRuntime_def UpsertClientInstalledApps_def
    upsert_blob_def
  by (intro pres pres_upsert_blobs)+

lemma pres_UpsertPackageMetadata [pres]: "preserves wf_store (UpsertPackageMetadata items)"
  unfolding UpsertPackageMetadata_def GetPackageMetadataMap_def Let_def
  by (intro pres pres_upsert_rows) (simp_all add: wf_defs package_table.uniq_upsert)

subsection \<open>Reading back what was stored\<close>

lemma config_of_client: "config_of c s = Some m \<Longrightarrow> cc_client_id m = c"
  by (auto simp: config_of_def find_Some_iff)

lemma UpsertClientConfig_ok:
  assumes "faults s = []" "fk_client c s"
  shows "\<exists>s'. UpsertClientConfig c p r s =
      (Inr (case config_of c s of None \<Rightarrow> 1 | Some m \<Rightarrow> u64_of (cc_config_version m + 1)), s') \<and>
    faults s' = [] \<and> config_of c s' = Some (case config_of c s of
      None \<Rightarrow> \<lparr>cc_client_id = c, cc_config_proto = p, cc_revision = r, cc_updated_at = clock s,
              cc_config_version = 1, cc_touched_fields = []\<rparr>
    | Some m \<Rightarrow> m\<lparr>cc_config_proto := p, cc_revision := r, cc_updated_at := clock s,
                  cc_config_version := cc_config_version m + 1\<rparr>)"
  using assms
  by (auto simp: UpsertClientConfig_def bindE_def db_simps config_of_def
      config_table.find_upsert_one config_upd_def u64_of_def split: option.splits)

text \<open>Saving a configuration. Without a refusal of the database the call returns the next
  version (1 for a first save), and what is read back is exactly the bytes, revision and that
  version, with the edit marks of earlier saves kept: the version the device is told is the one
  the panel will compare against.\<close>

theorem config_version_roundtrip:
  assumes "faults s = []" "fk_client c s"
  shows "\<exists>v s'. UpsertClientConfig c p r s = (Inr v, s') \<and>
    v = (case config_of c s of None \<Rightarrow> 1 | Some m \<Rightarrow> u64_of (cc_config_version m) + 1) \<and>
    fst (GetClientConfig c s') = Inr \<lparr>ClientID = c, ConfigProto = p, Revision = r,
      UpdatedAt = clock s, ConfigVersion = v,
      TouchedFields = (case config_of c s of None \<Rightarrow> [] | Some m \<Rightarrow> cc_touched_fields m)\<rparr>"
proof -
  let ?v = "case config_of c s of None \<Rightarrow> 1 | Some m \<Rightarrow> u64_of (cc_config_version m + 1)"
  have v: "?v = (case config_of c s of None \<Rightarrow> 1 | Some m \<Rightarrow> u64_of (cc_config_version m) + 1)"
    by (simp add: u64_of_def split: option.split)
  obtain s' where s': "UpsertClientConfig c p r s = (Inr ?v, s')" "faults s' = []"
    "config_of c s' = Some (case config_of c s of
      None \<Rightarrow> \<lparr>cc_client_id = c, cc_config_proto = p, cc_revision = r, cc_updated_at = clock s,
              cc_config_version = 1, cc_touched_fields = []\<rparr>
    | Some m \<Rightarrow> m\<lparr>cc_config_proto := p, cc_revision := r, cc_updated_at := clock s,
                  cc_config_version := cc_config_version m + 1\<rparr>)"
    using UpsertClientConfig_ok [OF assms, of p r] by blast
  then have "fst (GetClientConfig c s') = Inr \<lparr>ClientID = c, ConfigProto = p, Revision = r,
      UpdatedAt = clock s, ConfigVersion = ?v,
      TouchedFields = (case config_of c s of None \<Rightarrow> [] | Some m \<Rightarrow> cc_touched_fields m)\<rparr>"
    by (cases "config_of c s")
       (simp_all add: GetClientConfig_def bindE_def find_row_ok toClientConfig_def u64_of_def
         config_of_client)
  then show ?thesis using s'(1) v by blast
qed

theorem config_version_roundtrip_witness:
  "\<exists>v s'. UpsertClientConfig ''c1'' ''cfg'' ''r1'' (empty_store DriverPostgres 7) = (Inr v, s') \<and> v = 1"
  using config_version_roundtrip [of "empty_store DriverPostgres 7" "''c1''" "''cfg''" "''r1''"]
  by (auto simp: empty_store_def fk_client_def config_of_def)

end
