(* ===== verification/Nodes.thy ===== *)
theory Nodes
  imports ClientState
begin

text \<open>
  Servers and the WireGuard peers devices hold on them: \<^verbatim>\<open>internal/storage/servernodes.go\<close> and
  \<^verbatim>\<open>internal/storage/clientwgpeers.go\<close>. The structs \<^verbatim>\<open>dbmodel.ServerNode\<close> and
  \<^verbatim>\<open>dbmodel.ClientWGPeer\<close> are the rows \<^typ>\<open>node_row\<close> and \<^typ>\<open>wg_peer_row\<close> themselves.
\<close>

subsection \<open>Panel mode\<close>

definition PanelModeControlPanel :: string where "PanelModeControlPanel = ''control_panel''"
definition PanelModeWGAWG :: string where "PanelModeWGAWG = ''wg_awg''"
definition PanelModeXUIAPI :: string where "PanelModeXUIAPI = ''xui_api''"
definition panelModeSettingKey :: string where "panelModeSettingKey = ''panel_mode''"

definition setting_row_of :: "string \<Rightarrow> store \<Rightarrow> setting_row option" where
  "setting_row_of k s = find (\<lambda>r. ps_key r = k) (settings s)"

text \<open>
  \<^verbatim>\<open>First\<close> leaves the struct at its zero value when it fails, so \<^verbatim>\<open>row.Value\<close> is empty then.
\<close>

definition GetPanelMode :: "string db" where
  "GetPanelMode =
     bindE (attempt (query_first (setting_row_of panelModeSettingKey))) (\<lambda>r.
     let value = (case r of Inl _ \<Rightarrow> [] | Inr row \<Rightarrow> ps_value row) in
     if r = Inl ErrRecordNotFound \<or> value = [] then ret PanelModeControlPanel
     else (case r of Inl e \<Rightarrow> fail e | Inr _ \<Rightarrow> ret value))"

definition setting_upd :: "setting_row \<Rightarrow> setting_row \<Rightarrow> setting_row" where
  "setting_upd new old = old\<lparr>ps_value := ps_value new\<rparr>"

definition SetPanelMode :: "string \<Rightarrow> unit db" where
  "SetPanelMode mode = upsert_rows settings_update ps_key setting_upd (\<lambda>_ _. True)
     [\<lparr>ps_key = panelModeSettingKey, ps_value = mode\<rparr>]"

subsection \<open>Nodes\<close>

definition WGBackendOwn :: string where "WGBackendOwn = ''own''"
definition WGBackendXUI :: string where "WGBackendXUI = ''xui''"
definition ServerNodeVKTurnProxy :: string where "ServerNodeVKTurnProxy = ''vk_turn_proxy''"
definition ServerNodeXUI :: string where "ServerNodeXUI = ''xui''"

definition node_by_id :: "string \<Rightarrow> store \<Rightarrow> node_row option" where
  "node_by_id i s = find (\<lambda>r. nd_id r = i) (nodes s)"

definition CreateServerNode :: "node_row \<Rightarrow> node_row db" where
  "CreateServerNode n =
     bindE (asks now_unix) (\<lambda>now.
     let n1 = (if nd_created_at n = 0 then n\<lparr>nd_created_at := now\<rparr> else n);
         n2 = (if nd_status n1 = [] then n1\<lparr>nd_status := ''unknown''\<rparr> else n1)
     in bindE (insert_row nodes_update (\<lambda>s. nd_id n2 \<notin> nd_id ` set (nodes s)) n2) (\<lambda>_. ret n2))"

text \<open>\<^verbatim>\<open>Order("created_at asc")\<close>, ties in table order; an empty kind matches every kind.\<close>

definition list_nodes :: "(node_row \<Rightarrow> bool) \<Rightarrow> string \<Rightarrow> node_row list db" where
  "list_nodes Q kind = select (\<lambda>s. sort_key nd_created_at
     (filter (\<lambda>n. Q n \<and> (kind \<noteq> [] \<longrightarrow> nd_kind n = kind)) (nodes s)))"

definition ListServerNodes :: "string \<Rightarrow> node_row list db" where
  "ListServerNodes = list_nodes (\<lambda>_. True)"

definition ListServerNodesByOwner :: "string \<Rightarrow> int \<Rightarrow> node_row list db" where
  "ListServerNodesByOwner kind owner = list_nodes (\<lambda>n. nd_owner n = owner) kind"

definition ListServerNodesByOwners :: "string \<Rightarrow> int list \<Rightarrow> node_row list db" where
  "ListServerNodesByOwners kind owners =
     (if owners = [] then ret [] else list_nodes (\<lambda>n. nd_owner n \<in> set owners) kind)"

definition GetServerNode :: "string \<Rightarrow> node_row db" where
  "GetServerNode i = find_row (node_by_id i)"

definition update_node :: "string \<Rightarrow> (node_row \<Rightarrow> node_row) \<Rightarrow> nat db" where
  "update_node i f = update_rows nodes nodes_update (\<lambda>r. nd_id r = i) f"

definition UpdateServerNode :: "node_row \<Rightarrow> unit db" where
  "UpdateServerNode n =
     bindE (update_node (nd_id n) (\<lambda>r. r\<lparr>nd_name := nd_name n, nd_grpc_endpoint := nd_grpc_endpoint n,
        nd_grpc_token := nd_grpc_token n, nd_wg_backend := nd_wg_backend n,
        nd_xui_node_id := nd_xui_node_id n, nd_xui_inbound_tag := nd_xui_inbound_tag n\<rparr>))
       require_affected"

definition DeleteServerNode :: "string \<Rightarrow> unit db" where
  "DeleteServerNode i = bindE (delete_nodes (\<lambda>r. nd_id r = i)) require_affected"

definition UpdateServerNodeStatus :: "string \<Rightarrow> string \<Rightarrow> int \<Rightarrow> unit db" where
  "UpdateServerNodeStatus i status lastSeen =
     bindE (update_node i (\<lambda>r. r\<lparr>nd_status := status, nd_last_seen_at := lastSeen\<rparr>))
       require_affected"

definition UpdateServerNodeRelayVersion :: "string \<Rightarrow> string \<Rightarrow> unit db" where
  "UpdateServerNodeRelayVersion i version =
     (if version = [] then ret ()
      else bindE (update_node i (\<lambda>r. r\<lparr>nd_relay_version := version\<rparr>)) (\<lambda>_. ret ()))"

definition UpdateXuiNodeStatus :: "string \<Rightarrow> string \<Rightarrow> string \<Rightarrow> string \<Rightarrow> int \<Rightarrow> unit db" where
  "UpdateXuiNodeStatus i status xrayState xrayVersion lastSeen =
     bindE (update_node i (\<lambda>r. r\<lparr>nd_status := status, nd_last_seen_at := lastSeen,
              nd_xray_state := xrayState, nd_xray_version := xrayVersion\<rparr>))
       require_affected"

subsection \<open>Peers\<close>

definition peer_upd :: "wg_peer_row \<Rightarrow> wg_peer_row \<Rightarrow> wg_peer_row" where
  "peer_upd new old = old\<lparr>wp_public_key := wp_public_key new, wp_private_key := wp_private_key new,
     wp_allowed_ips := wp_allowed_ips new, wp_server_public_key := wp_server_public_key new,
     wp_endpoint := wp_endpoint new\<rparr>"

definition UpsertClientWGPeer :: "wg_peer_row \<Rightarrow> unit db" where
  "UpsertClientWGPeer peer =
     bindE (asks now_unix) (\<lambda>now.
     upsert_rows wgpeers_update wg_key peer_upd
       (\<lambda>s r. fk_client (wp_client_id r) s \<and> fk_node (wp_node_id r) s)
       [if wp_created_at peer = 0 then peer\<lparr>wp_created_at := now\<rparr> else peer])"

definition peer_of :: "string \<Rightarrow> string \<Rightarrow> store \<Rightarrow> wg_peer_row option" where
  "peer_of c n s = find (\<lambda>r. wg_key r = (c, n)) (wgpeers s)"

definition GetClientWGPeer :: "string \<Rightarrow> string \<Rightarrow> wg_peer_row db" where
  "GetClientWGPeer clientID nodeID = find_row (peer_of clientID nodeID)"

definition ListClientWGPeers :: "string \<Rightarrow> wg_peer_row list db" where
  "ListClientWGPeers clientID =
     select (\<lambda>s. sort_key wp_created_at (filter (\<lambda>p. wp_client_id p = clientID) (wgpeers s)))"

record wg_peer_view =
  pv_client_id :: string
  pv_client_name :: string
  pv_owner_admin_id :: int
  pv_node_id :: string
  pv_node_name :: string
  pv_public_key :: string
  pv_allowed_ips :: string
  pv_server_public_key :: string
  pv_endpoint :: string
  pv_created_at :: int

definition ListClientWGPeersForOwner :: "int \<Rightarrow> bool \<Rightarrow> wg_peer_view list db" where
  "ListClientWGPeersForOwner ownerAdminID allowed = select (\<lambda>s.
     [\<lparr>pv_client_id = wp_client_id p, pv_client_name = cl_name c, pv_owner_admin_id = cl_owner c,
       pv_node_id = wp_node_id p,
       pv_node_name = (case node_by_id (wp_node_id p) s of None \<Rightarrow> [] | Some n \<Rightarrow> nd_name n),
       pv_public_key = wp_public_key p, pv_allowed_ips = wp_allowed_ips p,
       pv_server_public_key = wp_server_public_key p, pv_endpoint = wp_endpoint p,
       pv_created_at = wp_created_at p\<rparr>.
      p \<leftarrow> sort_key (\<lambda>p. - wp_created_at p) (wgpeers s),
      c \<leftarrow> filter (\<lambda>c. cl_id c = wp_client_id p) (clients s),
      allowed \<or> cl_owner c = ownerAdminID])"

definition ProvisionedClientIDs :: "string list db" where
  "ProvisionedClientIDs = select (\<lambda>s. remdups (map wp_client_id (wgpeers s)))"

record xui_backed_peer =
  xb_client_id :: string
  xb_vk_turn_node_id :: string
  xb_public_key :: string
  xb_remote_control :: bool

definition XUIBackedPeersForNode :: "string \<Rightarrow> xui_backed_peer list db" where
  "XUIBackedPeersForNode xuiNodeID = select (\<lambda>s.
     [\<lparr>xb_client_id = wp_client_id p, xb_vk_turn_node_id = wp_node_id p,
       xb_public_key = wp_public_key p, xb_remote_control = (cl_remote_control c \<noteq> 0)\<rparr>.
      p \<leftarrow> wgpeers s,
      n \<leftarrow> filter (\<lambda>n. nd_id n = wp_node_id p) (nodes s),
      c \<leftarrow> filter (\<lambda>c. cl_id c = wp_client_id p) (clients s),
      nd_wg_backend n = WGBackendXUI \<and> nd_xui_node_id n = xuiNodeID])"

text \<open>The error of the count is dropped by the source: a failing query counts nothing.\<close>

definition CountClientWGPeersForNode :: "string \<Rightarrow> int db" where
  "CountClientWGPeersForNode nodeID =
     bindE (attempt (select (\<lambda>s. int (length (filter (\<lambda>p. wp_node_id p = nodeID) (wgpeers s))))))
       (\<lambda>r. ret (case r of Inl _ \<Rightarrow> 0 | Inr n \<Rightarrow> n))"

definition DeleteClientWGPeer :: "string \<Rightarrow> string \<Rightarrow> unit db" where
  "DeleteClientWGPeer clientID nodeID =
     bindE (delete_rows wgpeers wgpeers_update (\<lambda>r. wg_key r = (clientID, nodeID)))
       require_affected"

subsection \<open>Invariant\<close>

interpretation setting_table: keyed_table ps_key setting_upd
  by unfold_locales (simp add: setting_upd_def)

interpretation peer_table: keyed_table wg_key peer_upd
  by unfold_locales (simp add: peer_upd_def wg_key_def)

lemma peer_upd_keys [simp]:
  "wp_client_id (peer_upd new old) = wp_client_id old"
  "wp_node_id (peer_upd new old) = wp_node_id old"
  by (simp_all add: peer_upd_def)

lemma pres_update_node [pres]:
  assumes "\<And>r. nd_id (f r) = nd_id r"
  shows "preserves wf_store (update_node i f)"
  unfolding update_node_def by (rule pres_update_rows) (simp_all add: wf_defs assms)

lemma pres_SetPanelMode [pres]: "preserves wf_store (SetPanelMode m)"
  unfolding SetPanelMode_def
  by (rule pres_upsert_rows [OF fault_free_wf], rule wf_put)
     (auto intro!: setting_table.upsert_intros simp: wf_get)

lemma pres_CreateServerNode [pres]: "preserves wf_store (CreateServerNode n)"
  unfolding CreateServerNode_def Let_def
  by (intro pres pres_insert_row) (auto simp: wf_defs)

lemma pres_node_ops [pres]:
  "preserves wf_store (UpdateServerNode n)" "preserves wf_store (DeleteServerNode i)"
  "preserves wf_store (UpdateServerNodeStatus i st l)"
  "preserves wf_store (UpdateServerNodeRelayVersion i v)"
  "preserves wf_store (UpdateXuiNodeStatus i st x v l)"
  unfolding UpdateServerNode_def DeleteServerNode_def UpdateServerNodeStatus_def
    UpdateServerNodeRelayVersion_def UpdateXuiNodeStatus_def
  by (intro pres; simp)+

lemma pres_UpsertClientWGPeer [pres]: "preserves wf_store (UpsertClientWGPeer p)"
  unfolding UpsertClientWGPeer_def
  by (intro pres, rule pres_upsert_rows [OF fault_free_wf], rule wf_put)
     (auto intro!: peer_table.upsert_intros simp: wf_get fk_ids)

lemma pres_DeleteClientWGPeer [pres]: "preserves wf_store (DeleteClientWGPeer c n)"
  unfolding DeleteClientWGPeer_def
  by (intro pres pres_delete_rows) (auto intro!: wf_put simp: wf_get)

end
