(* ===== verification/Sample.thy ===== *)
theory Sample
  imports Nodes
begin

text \<open>
  A small populated database on which properties are applied at concrete inputs: two tenants with
  a device each, one node with a peer for each device, and a reading of both peers.
\<close>

definition sample_admin :: "int \<Rightarrow> string \<Rightarrow> string \<Rightarrow> admin_row" where
  "sample_admin i name role = \<lparr>adm_id = i, adm_username = name, adm_password_hash = ''h'',
     adm_must_change_password = 0, adm_role = role, adm_panel_access = 1, adm_last_login_at = 0,
     adm_avatar_mime = [], adm_avatar_png = None, adm_avatar_blob = [], adm_avatar_version = 0,
     adm_vk_links = [], adm_suspended_at = 0, adm_suspended_reason = [], adm_suspended_by_root = 0,
     adm_panel_requested_at = 0, adm_account_subject = None, adm_account_name = [],
     adm_access_token = [], adm_refresh_token = [], adm_token_expires = 0, adm_created_at = 1,
     adm_updated_at = 1\<rparr>"

definition sample_node :: node_row where
  "sample_node = \<lparr>nd_id = ''n1'', nd_kind = ServerNodeVKTurnProxy, nd_name = ''relay'',
     nd_grpc_endpoint = ''e'', nd_grpc_token = [], nd_ca_pin = [], nd_status = ''online'',
     nd_owner = 0, nd_last_seen_at = 0, nd_xray_state = [], nd_xray_version = [],
     nd_relay_version = [], nd_wg_backend = WGBackendOwn, nd_xui_node_id = [],
     nd_xui_inbound_tag = [], nd_created_at = 1\<rparr>"

definition sample_peer :: "string \<Rightarrow> string \<Rightarrow> wg_peer_row" where
  "sample_peer c k = \<lparr>wp_client_id = c, wp_node_id = ''n1'', wp_public_key = k,
     wp_private_key = [], wp_allowed_ips = ''10.0.0.2/32'', wp_server_public_key = ''s'',
     wp_endpoint = ''e'', wp_created_at = 1\<rparr>"

definition sample_store :: "driver \<Rightarrow> store" where
  "sample_store d = (empty_store d 5000000)\<lparr>
     admins := [sample_admin 1 ''root'' ''owner'', sample_admin 2 ''ann'' ''admin''],
     admins_seq := 3,
     clients := [new_client_row ''c1'' 1 ''phone'' ''h1'' ''t1'' 100,
                 new_client_row ''c2'' 2 ''tablet'' ''h2'' ''t2'' 200],
     nodes := [sample_node],
     wgpeers := [sample_peer ''c1'' ''k1'', sample_peer ''c2'' ''k2''],
     ptraffic := [\<lparr>pt_node_id = ''n1'', pt_public_key = ''k1'', pt_rx_bytes = 100,
                   pt_tx_bytes = 50, pt_sampled_unix = 1\<rparr>,
                  \<lparr>pt_node_id = ''n1'', pt_public_key = ''k2'', pt_rx_bytes = 7,
                   pt_tx_bytes = 9, pt_sampled_unix = 1\<rparr>]\<rparr>"

lemmas sample_defs = sample_store_def sample_admin_def sample_node_def sample_peer_def
  empty_store_def new_client_row_def

lemma sample_faults [simp]: "faults (sample_store d) = []"
  by (simp add: sample_defs)

lemma sample_driver [simp]: "driver (sample_store d) = d"
  by (simp add: sample_defs)

lemma sample_wf [simp]: "wf_store (sample_store d)"
  by (simp add: wf_defs uniq_def refers_def orefers_def sample_defs wg_key_def pt_key_def)

end
