(* ===== verification/Counters.thy ===== *)
theory Counters
  imports Prelude
begin

text \<open>
  Cumulative counters that restart. A relay reports how many bytes it has carried since it
  started; the panel keeps a durable total by adding, at each reading, the growth since the last
  one, and nothing when the reading is smaller. The locale \<open>accumulator\<close> is the contract of such a
  total, \<open>counter_accumulator\<close> that of one fed by a single counter; the accumulators of
  \<^verbatim>\<open>internal/storage\<close> are interpretations.
\<close>

definition gain :: "u64 \<Rightarrow> u64 \<Rightarrow> u64" where
  "gain old cur = (if cur \<ge> old then cur - old else 0)"

lemma gain_refl [simp]: "gain c c = 0"
  by (simp add: gain_def)

lemma uint_gain: "uint (gain a b) = (if a \<le> b then uint b - uint a else 0)"
  by (simp add: gain_def uint_diff_u64)

fun growth :: "('c \<Rightarrow> 'c \<Rightarrow> u64) \<Rightarrow> 'c \<Rightarrow> 'c list \<Rightarrow> u64" where
  "growth g b [] = 0"
| "growth g b (c # cs) = g b c + growth g c cs"

locale accumulator =
  fixes step :: "'c \<Rightarrow> 'r \<Rightarrow> 'r" and total :: "'r \<Rightarrow> u64" and base :: "'r \<Rightarrow> 'c"
    and grow :: "'c \<Rightarrow> 'c \<Rightarrow> u64"
  assumes base_step: "base (step c r) = c"
    and total_step: "total (step c r) = total r + grow (base r) c"
    and grow_refl: "grow c c = 0"
begin

lemma total_run: "total (fold step cs r) = total r + growth grow (base r) cs"
  by (induction cs arbitrary: r) (simp_all add: base_step total_step add.assoc)

lemma base_run: "cs \<noteq> [] \<Longrightarrow> base (fold step cs r) = last cs"
  by (induction cs arbitrary: r rule: rev_induct) (simp_all add: base_step)

text \<open>A reading counts once: taking it again adds nothing.\<close>

lemma total_repeat: "total (step c (step c r)) = total (step c r)"
  by (simp add: total_step base_step grow_refl)

end

locale counter_accumulator = accumulator step total base grow
  for step :: "'c \<Rightarrow> 'r \<Rightarrow> 'r" and total base grow +
  fixes reading :: "'c \<Rightarrow> u64"
  assumes grow_gain: "grow a b = gain (reading a) (reading b)"
begin

text \<open>While the counter does not restart, the total grows by exactly what the counter grew.\<close>

lemma growth_sorted:
  "sorted (map reading (b # cs)) \<Longrightarrow>
     growth grow b cs = reading (last (b # cs)) - reading b"
  by (induction cs arbitrary: b) (auto simp: grow_gain gain_def)

lemma total_sorted:
  "sorted (map reading (base r # cs)) \<Longrightarrow>
     total (fold step cs r) = total r + (reading (last (base r # cs)) - reading (base r))"
  by (simp only: total_run growth_sorted)

text \<open>
  The total never goes down, as long as it does not pass \<open>2 ^ 64\<close>; a reading adds at most itself.
\<close>

lemma total_mono:
  "uint (total r) + uint (reading c) < 2 ^ 64 \<Longrightarrow> total r \<le> total (step c r)"
proof -
  assume b: "uint (total r) + uint (reading c) < 2 ^ 64"
  have "uint (gain (reading (base r)) (reading c)) \<le> uint (reading c)"
    using uint_ge_0 [of "reading (base r)"] by (simp add: uint_gain)
  then have "uint (total r) + uint (gain (reading (base r)) (reading c)) < 2 ^ 64" using b by simp
  then have "uint (total (step c r)) = uint (total r) + uint (gain (reading (base r)) (reading c))"
    by (simp add: total_step grow_gain uint_add_lem [THEN iffD1])
  then show ?thesis by (simp add: word_le_def)
qed

end

end
