(* ===== verification/ClientTraffic.thy ===== *)
theory ClientTraffic
  imports Sample Counters
begin

text \<open>
  A device's traffic cap: \<^verbatim>\<open>internal/storage/clienttraffic.go\<close>. Usage is accumulated from counters
  that restart, so each poll adds the growth since the last reading and nothing when the reading is
  smaller. \<^verbatim>\<open>SUM\<close> over byte columns is scanned into an \<^verbatim>\<open>int64\<close>: the statement fails when the sum
  does not fit. \<^verbatim>\<open>Save\<close> of a row is the upsert of all its columns. Here too, over all the operations a
  tenant has: what they cannot do to the devices of others.
\<close>

definition secondsPerDay :: int where "secondsPerDay = 86400"

record client_control =
  Disabled :: bool
  LimitBytes :: u64
  UsedBytes :: u64
  ResetPeriodDays :: int
  NextResetUnix :: int

definition Blocked :: "client_control \<Rightarrow> bool" where
  "Blocked c \<longleftrightarrow> Disabled c \<or> (LimitBytes c > 0 \<and> UsedBytes c \<ge> LimitBytes c)"

definition SetClientDisabled :: "string \<Rightarrow> int \<Rightarrow> bool \<Rightarrow> unit db" where
  "SetClientDisabled clientID owner disabled =
     bindE (update_rows clients clients_update (owned clientID owner)
              (\<lambda>r. r\<lparr>cl_disabled := if disabled then 1 else 0\<rparr>))
       require_affected"

subsection \<open>Readings\<close>

text \<open>\<^verbatim>\<open>client_wg_peers JOIN peer_traffic ON node_id, public_key\<close>.\<close>

definition joined_traffic :: "store \<Rightarrow> (string \<times> peer_traffic_row) list" where
  "joined_traffic s = [(wp_client_id p, t). p \<leftarrow> wgpeers s,
     t \<leftarrow> filter (\<lambda>t. pt_key t = (wp_node_id p, wp_public_key p)) (ptraffic s)]"

definition sum_rx :: "string \<Rightarrow> store \<Rightarrow> int" where
  "sum_rx c s = sum_list [uint (pt_rx_bytes t). (d, t) \<leftarrow> joined_traffic s, d = c]"

definition sum_tx :: "string \<Rightarrow> store \<Rightarrow> int" where
  "sum_tx c s = sum_list [uint (pt_tx_bytes t). (d, t) \<leftarrow> joined_traffic s, d = c]"

definition sums_fit :: "string \<Rightarrow> store \<Rightarrow> bool" where
  "sums_fit c s \<longleftrightarrow> sum_rx c s < 2 ^ 63 \<and> sum_tx c s < 2 ^ 63"

definition sumClientPeerTraffic :: "string \<Rightarrow> (u64 \<times> u64) db" where
  "sumClientPeerTraffic c = stmt (\<lambda>s.
     (if sums_fit c s then Inr (u64_of (sum_rx c s), u64_of (sum_tx c s)) else Inl ErrDb, s))"

definition traffic_of :: "string \<Rightarrow> store \<Rightarrow> client_traffic_row option" where
  "traffic_of c s = find (\<lambda>r. ct_client_id r = c) (ctraffic s)"

text \<open>\<^verbatim>\<open>Create\<close> and \<^verbatim>\<open>Save\<close> of a \<^verbatim>\<open>client_traffic\<close> row.\<close>

definition create_traffic :: "client_traffic_row \<Rightarrow> unit db" where
  "create_traffic r = insert_row ctraffic_update
     (\<lambda>s. ct_client_id r \<notin> ct_client_id ` set (ctraffic s) \<and> fk_client (ct_client_id r) s) r"

definition traffic_upd :: "client_traffic_row \<Rightarrow> client_traffic_row \<Rightarrow> client_traffic_row" where
  "traffic_upd new old = new"

definition save_traffic :: "client_traffic_row \<Rightarrow> unit db" where
  "save_traffic r = upsert_rows ctraffic_update ct_client_id traffic_upd
     (\<lambda>s r. fk_client (ct_client_id r) s) [r]"

definition next_reset :: "int \<Rightarrow> int \<Rightarrow> int" where
  "next_reset nowUnix days = wrap64 (nowUnix + days * secondsPerDay)"

subsection \<open>Setting and resetting\<close>

text \<open>The body of the transaction once the cap is stored: start tracking, or re-arm the reset.\<close>

definition rearm :: "int \<Rightarrow> int \<Rightarrow> client_traffic_row \<Rightarrow> client_traffic_row" where
  "rearm days nowUnix row = row\<lparr>
     ct_next_reset_unix :=
       (if days = 0 then 0
        else if ct_reset_period_days row \<noteq> days \<or> ct_next_reset_unix row = 0
        then next_reset nowUnix days
        else ct_next_reset_unix row),
     ct_reset_period_days := days\<rparr>"

definition track_limit :: "string \<Rightarrow> int \<Rightarrow> int \<Rightarrow> unit db" where
  "track_limit clientID days nowUnix =
     bindE (attempt (query_first (traffic_of clientID))) (\<lambda>r.
     case r of
       Inl ErrRecordNotFound \<Rightarrow>
         bindE (sumClientPeerTraffic clientID) (\<lambda>(rx, txb).
         create_traffic \<lparr>ct_client_id = clientID, ct_used_bytes = 0, ct_last_rx = rx,
           ct_last_tx = txb, ct_reset_period_days = days,
           ct_next_reset_unix = (if days > 0 then next_reset nowUnix days else 0)\<rparr>)
     | Inl e \<Rightarrow> fail e
     | Inr row \<Rightarrow> save_traffic (rearm days nowUnix row))"

definition SetClientTrafficLimit :: "string \<Rightarrow> int \<Rightarrow> u64 \<Rightarrow> int \<Rightarrow> int \<Rightarrow> unit db" where
  "SetClientTrafficLimit clientID owner limitBytes resetDays nowUnix =
     (let days = (if resetDays < 0 then 0 else resetDays) in
      transaction (
        bindE (update_rows clients clients_update (owned clientID owner)
                 (\<lambda>r. r\<lparr>cl_traffic_limit := limitBytes\<rparr>)) (\<lambda>n.
        if n = 0 then fail ErrNotFound else track_limit clientID days nowUnix)))"

definition zero_traffic :: "string \<Rightarrow> client_traffic_row" where
  "zero_traffic c = \<lparr>ct_client_id = c, ct_used_bytes = 0, ct_last_rx = 0, ct_last_tx = 0,
     ct_reset_period_days = 0, ct_next_reset_unix = 0\<rparr>"

definition ResetClientTraffic :: "string \<Rightarrow> int \<Rightarrow> int \<Rightarrow> unit db" where
  "ResetClientTraffic clientID owner nowUnix =
     bindE (select (\<lambda>s. length (filter (owned clientID owner) (clients s)))) (\<lambda>count.
     if count = 0 then fail ErrNotFound
     else bindE (sumClientPeerTraffic clientID) (\<lambda>(rx, tx).
     transaction (
       bindE (attempt (query_first (traffic_of clientID))) (\<lambda>r.
       let reset = (\<lambda>row. let row1 = row\<lparr>ct_client_id := clientID, ct_used_bytes := 0,
                                          ct_last_rx := rx, ct_last_tx := tx\<rparr>
                    in if ct_reset_period_days row1 > 0
                       then row1\<lparr>ct_next_reset_unix := next_reset nowUnix (ct_reset_period_days row1)\<rparr>
                       else row1)
       in case r of
            Inl ErrRecordNotFound \<Rightarrow> create_traffic (reset (zero_traffic []))
          | Inl e \<Rightarrow> fail e
          | Inr row \<Rightarrow> save_traffic (reset row)))))"

subsection \<open>Accumulating\<close>

text \<open>One device's accumulator after a poll that reads \<open>rx\<close> and \<open>txb\<close>.\<close>

definition accumulate_row :: "u64 \<times> u64 \<Rightarrow> client_traffic_row \<Rightarrow> client_traffic_row" where
  "accumulate_row reading row = (case reading of (rx, txb) \<Rightarrow>
     let used1 = (if rx \<ge> ct_last_rx row then ct_used_bytes row + (rx - ct_last_rx row)
                  else ct_used_bytes row);
         used2 = (if txb \<ge> ct_last_tx row then used1 + (txb - ct_last_tx row) else used1)
     in row\<lparr>ct_used_bytes := used2, ct_last_rx := rx, ct_last_tx := txb\<rparr>)"

definition accumulate_one :: "string \<times> u64 \<times> u64 \<Rightarrow> unit db" where
  "accumulate_one cr = (case cr of (c, rx, txb) \<Rightarrow>
     bindE (attempt (query_first (traffic_of c))) (\<lambda>r.
     case r of
       Inl ErrRecordNotFound \<Rightarrow>
         create_traffic ((zero_traffic c)\<lparr>ct_last_rx := rx, ct_last_tx := txb\<rparr>)
     | Inl e \<Rightarrow> fail e
     | Inr row \<Rightarrow> save_traffic (accumulate_row (rx, txb) row)))"

definition peer_sums :: "store \<Rightarrow> (string \<times> u64 \<times> u64) list" where
  "peer_sums s = map (\<lambda>c. (c, u64_of (sum_rx c s), u64_of (sum_tx c s)))
     (remdups (map fst (joined_traffic s)))"

definition AccumulateClientTraffic :: "unit db" where
  "AccumulateClientTraffic =
     bindE (stmt (\<lambda>s. (if \<forall>c \<in> set (map fst (joined_traffic s)). sums_fit c s
                       then Inr (peer_sums s) else Inl ErrDb, s))) (\<lambda>rows.
     if rows = [] then ret () else transaction (forE rows accumulate_one))"

text \<open>The ids already reset are returned with the error that stopped the loop.\<close>

fun reset_due :: "int \<Rightarrow> client_traffic_row list \<Rightarrow> string list \<Rightarrow> (string list \<times> error option) db" where
  "reset_due nowUnix [] acc = ret (acc, None)"
| "reset_due nowUnix (row # due) acc =
     bindE (attempt (sumClientPeerTraffic (ct_client_id row))) (\<lambda>r.
     case r of
       Inl e \<Rightarrow> ret (acc, Some e)
     | Inr (rx, tx) \<Rightarrow>
         bindE (attempt (save_traffic (row\<lparr>ct_used_bytes := 0, ct_last_rx := rx, ct_last_tx := tx,
             ct_next_reset_unix := next_reset nowUnix (ct_reset_period_days row)\<rparr>))) (\<lambda>r2.
         case r2 of
           Inl e \<Rightarrow> ret (acc, Some e)
         | Inr _ \<Rightarrow> reset_due nowUnix due (acc @ [ct_client_id row])))"

definition reset_is_due :: "int \<Rightarrow> client_traffic_row \<Rightarrow> bool" where
  "reset_is_due nowUnix r \<longleftrightarrow>
     ct_reset_period_days r > 0 \<and> ct_next_reset_unix r > 0 \<and> ct_next_reset_unix r \<le> nowUnix"

definition RunDueTrafficResets :: "int \<Rightarrow> (string list \<times> error option) db" where
  "RunDueTrafficResets nowUnix =
     bindE (attempt (select (\<lambda>s. filter (reset_is_due nowUnix) (ctraffic s)))) (\<lambda>r.
     case r of Inl e \<Rightarrow> ret ([], Some e) | Inr due \<Rightarrow> reset_due nowUnix due [])"

subsection \<open>The state the gate reads\<close>

definition control_of :: "store \<Rightarrow> client_row \<Rightarrow> client_control" where
  "control_of s c = (case traffic_of (cl_id c) s of
     None \<Rightarrow> \<lparr>Disabled = (cl_disabled c \<noteq> 0), LimitBytes = cl_traffic_limit c, UsedBytes = 0,
             ResetPeriodDays = 0, NextResetUnix = 0\<rparr>
   | Some t \<Rightarrow> \<lparr>Disabled = (cl_disabled c \<noteq> 0), LimitBytes = cl_traffic_limit c,
              UsedBytes = ct_used_bytes t, ResetPeriodDays = ct_reset_period_days t,
              NextResetUnix = ct_next_reset_unix t\<rparr>)"

definition ClientControlMap :: "int \<Rightarrow> (string \<times> client_control) list db" where
  "ClientControlMap owner = select (\<lambda>s.
     map (\<lambda>c. (cl_id c, control_of s c)) (filter (\<lambda>c. cl_owner c = owner) (clients s)))"

definition GetClientControl :: "string \<Rightarrow> client_control db" where
  "GetClientControl clientID =
     bindE (select (\<lambda>s. map (control_of s) (filter (\<lambda>c. cl_id c = clientID) (clients s)))) (\<lambda>rows.
     case rows of [] \<Rightarrow> fail ErrNotFound | r # _ \<Rightarrow> ret r)"

definition used_of :: "string \<Rightarrow> store \<Rightarrow> u64" where
  "used_of c s = (case traffic_of c s of None \<Rightarrow> 0 | Some t \<Rightarrow> ct_used_bytes t)"

definition BlockedProvisionedClientIDs :: "string list db" where
  "BlockedProvisionedClientIDs = select (\<lambda>s. remdups
     [cl_id c. c \<leftarrow> clients s, p \<leftarrow> filter (\<lambda>p. wp_client_id p = cl_id c) (wgpeers s),
        cl_disabled c \<noteq> 0 \<or>
        (cl_traffic_limit c > 0 \<and> used_of (cl_id c) s \<ge> cl_traffic_limit c)])"

record node_client_usage =
  nu_public_key :: string
  nu_client_id :: string
  nu_limit_bytes :: u64
  nu_used_bytes :: u64
  nu_disabled :: bool

definition NodeClientUsageForLimits :: "string \<Rightarrow> node_client_usage list db" where
  "NodeClientUsageForLimits nodeID = select (\<lambda>s.
     [\<lparr>nu_public_key = wp_public_key p, nu_client_id = cl_id c,
       nu_limit_bytes = cl_traffic_limit c, nu_used_bytes = used_of (cl_id c) s,
       nu_disabled = (cl_disabled c \<noteq> 0)\<rparr>.
      p \<leftarrow> wgpeers s, c \<leftarrow> filter (\<lambda>c. cl_id c = wp_client_id p) (clients s),
      wp_node_id p = nodeID \<and> (cl_traffic_limit c > 0 \<or> cl_disabled c \<noteq> 0)])"

subsection \<open>Invariant\<close>

interpretation traffic_table: keyed_table ct_client_id traffic_upd
  by unfold_locales (simp add: traffic_upd_def)

interpretation client_usage: accumulator accumulate_row ct_used_bytes
  "\<lambda>r. (ct_last_rx r, ct_last_tx r)"
  "\<lambda>(a, b) (c, d). gain a c + gain b d"
  by unfold_locales (auto simp: accumulate_row_def gain_def Let_def split: prod.splits)

interpretation disabled: owner_gated
  "\<lambda>i owner. SetClientDisabled i owner b"
  "\<lambda>r. r\<lparr>cl_disabled := if b then 1 else 0\<rparr>" for b
  by unfold_locales (simp_all add: SetClientDisabled_def)

lemma pres_create_traffic [pres]: "preserves wf_store (create_traffic r)"
  unfolding create_traffic_def
  by (rule pres_insert_row [OF fault_free_wf], rule wf_put) (auto simp: wf_get fk_ids)

lemma pres_save_traffic [pres]: "preserves wf_store (save_traffic r)"
  unfolding save_traffic_def
  by (rule pres_upsert_rows [OF fault_free_wf], rule wf_put)
     (auto intro!: traffic_table.upsert_intros simp: wf_get fk_ids traffic_upd_def)

lemma pres_sumClientPeerTraffic [pres]: "preserves wf_store (sumClientPeerTraffic c)"
  by (simp add: sumClientPeerTraffic_def pres_stmt)

lemma pres_record_case [pres]:
  "preserves I a \<Longrightarrow> (\<And>e. preserves I (f e)) \<Longrightarrow> (\<And>x. preserves I (g x)) \<Longrightarrow>
     preserves I (case r of Inl ErrRecordNotFound \<Rightarrow> a | Inl e \<Rightarrow> f e | Inr x \<Rightarrow> g x)"
  by (simp split: sum.split error.split)

lemma pres_SetClientTrafficLimit [pres]:
  "preserves wf_store (SetClientTrafficLimit c owner l d n)"
  unfolding SetClientTrafficLimit_def track_limit_def Let_def by (intro pres fault_free_wf; simp)

lemma pres_ResetClientTraffic [pres]: "preserves wf_store (ResetClientTraffic c owner n)"
  unfolding ResetClientTraffic_def Let_def by (intro pres fault_free_wf; simp)

lemma pres_accumulate_one [pres]: "preserves wf_store (accumulate_one r)"
  unfolding accumulate_one_def by (intro pres fault_free_wf)

lemma pres_AccumulateClientTraffic [pres]: "preserves wf_store AccumulateClientTraffic"
  unfolding AccumulateClientTraffic_def by (intro pres pres_stmt fault_free_wf) simp

lemma pres_reset_due [pres]: "preserves wf_store (reset_due n due acc)"
  by (induction n due acc rule: reset_due.induct) (auto intro!: pres)

lemma pres_RunDueTrafficResets [pres]: "preserves wf_store (RunDueTrafficResets n)"
  unfolding RunDueTrafficResets_def by (intro pres fault_free_wf)

lemma pres_SetClientDisabled [pres]: "preserves wf_store (SetClientDisabled i owner b)"
  unfolding SetClientDisabled_def by (intro pres; simp)

subsection \<open>One poll\<close>

text \<open>What a poll leaves for a device: its first reading is a baseline, a later one adds growth.\<close>

definition polled_row ::
  "string \<Rightarrow> u64 \<times> u64 \<Rightarrow> client_traffic_row option \<Rightarrow> client_traffic_row" where
  "polled_row c rd row = (case row of
     None \<Rightarrow> (zero_traffic c)\<lparr>ct_last_rx := fst rd, ct_last_tx := snd rd\<rparr>
   | Some r \<Rightarrow> accumulate_row rd r)"

lemma traffic_of_client: "traffic_of c s = Some r \<Longrightarrow> ct_client_id r = c"
  by (auto simp: traffic_of_def find_Some_iff)

lemma polled_row_client:
  "(\<And>r. q = Some r \<Longrightarrow> ct_client_id r = c) \<Longrightarrow> ct_client_id (polled_row c rd q) = c"
  by (cases q; cases rd) (simp_all add: polled_row_def zero_traffic_def accumulate_row_def Let_def)

lemma traffic_of_put:
  "traffic_of d (s\<lparr>ctraffic := upsert_one ct_client_id traffic_upd r (ctraffic s)\<rparr>) =
     (if d = ct_client_id r then Some r else traffic_of d s)"
  by (simp add: traffic_of_def traffic_table.find_upsert_one traffic_upd_def split: option.split)

lemma accumulate_one_ok:
  assumes "faults s = []" "fk_client c s"
  shows "accumulate_one (c, rd) s = (Inr (), s\<lparr>ctraffic :=
    upsert_one ct_client_id traffic_upd (polled_row c rd (traffic_of c s)) (ctraffic s)\<rparr>)"
proof (cases "traffic_of c s")
  case None
  then have "c \<notin> ct_client_id ` set (ctraffic s)"
    by (auto simp: traffic_of_def find_None_iff)
  then show ?thesis using assms None
    by (simp add: accumulate_one_def bindE_attempt query_first_ok create_traffic_def insert_row_ok
        polled_row_def upsert_one_def zero_traffic_def split: prod.split)
next
  case (Some r)
  have "ct_client_id (accumulate_row rd r) = c"
    using polled_row_client [of "Some r" c rd] traffic_of_client [OF Some]
    by (simp add: polled_row_def)
  then show ?thesis using assms Some
    by (cases rd) (simp add: accumulate_one_def bindE_attempt query_first_ok save_traffic_def
        upsert_rows_ok polled_row_def)
qed

lemma accumulate_loop:
  assumes "faults s = []" "\<forall>c \<in> fst ` set rows. fk_client c s" "distinct (map fst rows)"
  shows "\<exists>ct. forE rows accumulate_one s = (Inr (), s\<lparr>ctraffic := ct\<rparr>) \<and>
    (\<forall>d. traffic_of d (s\<lparr>ctraffic := ct\<rparr>) = (case map_of rows d of
       None \<Rightarrow> traffic_of d s | Some rd \<Rightarrow> Some (polled_row d rd (traffic_of d s))))"
  using assms
proof (induction rows arbitrary: s)
  case Nil
  show ?case by (rule exI [of _ "ctraffic s"]) simp
next
  case (Cons cr rows)
  obtain c rd where cr: "cr = (c, rd)" by (cases cr)
  let ?r = "polled_row c rd (traffic_of c s)"
  let ?s1 = "s\<lparr>ctraffic := upsert_one ct_client_id traffic_upd ?r (ctraffic s)\<rparr>"
  have key: "ct_client_id ?r = c"
    using traffic_of_client by (intro polled_row_client) auto
  have one: "accumulate_one cr s = (Inr (), ?s1)"
    using accumulate_one_ok [of s c rd] Cons.prems cr by simp
  have fk: "\<forall>c \<in> fst ` set rows. fk_client c ?s1"
    using Cons.prems(2) by (simp add: fk_client_def)
  obtain ct where ct: "forE rows accumulate_one ?s1 = (Inr (), ?s1\<lparr>ctraffic := ct\<rparr>)"
    "\<forall>d. traffic_of d (?s1\<lparr>ctraffic := ct\<rparr>) = (case map_of rows d of
       None \<Rightarrow> traffic_of d ?s1 | Some rd \<Rightarrow> Some (polled_row d rd (traffic_of d ?s1)))"
    using Cons.IH [of ?s1] Cons.prems fk by auto
  have "map_of rows c = None" using Cons.prems(3) cr by (simp add: map_of_eq_None_iff)
  then show ?case using ct one cr key
    by (intro exI [of _ ct]) (auto simp: bindE_def traffic_of_put split: option.splits)
qed

definition read_clients :: "store \<Rightarrow> string set" where
  "read_clients s = fst ` set (joined_traffic s)"

definition reading_of :: "string \<Rightarrow> store \<Rightarrow> u64 \<times> u64" where
  "reading_of c s = (u64_of (sum_rx c s), u64_of (sum_tx c s))"

lemma read_clients_fk: "wf_store s \<Longrightarrow> c \<in> read_clients s \<Longrightarrow> fk_client c s"
  by (auto simp: read_clients_def joined_traffic_def fk_client_def wf_defs refers_def)

lemma map_of_peer_sums:
  "map_of (peer_sums s) c = (if c \<in> read_clients s then Some (reading_of c s) else None)"
proof -
  have "map_of (map (\<lambda>c. (c, f c)) xs) c = (if c \<in> set xs then Some (f c) else None)"
    for f :: "string \<Rightarrow> u64 \<times> u64" and xs by (induction xs) auto
  from this [of "\<lambda>c. reading_of c s"] show ?thesis
    by (simp add: peer_sums_def reading_of_def read_clients_def)
qed

lemma peer_sums_clients: "fst ` set (peer_sums s) = read_clients s"
  by (force simp: peer_sums_def read_clients_def)

lemma distinct_peer_sums: "distinct (map fst (peer_sums s))"
  by (simp add: peer_sums_def comp_def)

lemma AccumulateClientTraffic_ok:
  assumes "faults s = []" "wf_store s" "\<forall>c \<in> read_clients s. sums_fit c s"
  shows "\<exists>ct. AccumulateClientTraffic s = (Inr (), s\<lparr>ctraffic := ct\<rparr>) \<and>
    (\<forall>d. traffic_of d (s\<lparr>ctraffic := ct\<rparr>) =
       (if d \<in> read_clients s then Some (polled_row d (reading_of d s) (traffic_of d s))
        else traffic_of d s))"
proof (cases "peer_sums s = []")
  case True
  then have "read_clients s = {}" using peer_sums_clients [of s] by simp
  moreover have "AccumulateClientTraffic s = (Inr (), s)"
    using assms True by (simp add: AccumulateClientTraffic_def bindE_def stmt_ok read_clients_def)
  ultimately show ?thesis by (intro exI [of _ "ctraffic s"]) simp
next
  case False
  obtain ct where ct: "forE (peer_sums s) accumulate_one s = (Inr (), s\<lparr>ctraffic := ct\<rparr>)"
    "\<forall>d. traffic_of d (s\<lparr>ctraffic := ct\<rparr>) = (case map_of (peer_sums s) d of
       None \<Rightarrow> traffic_of d s | Some rd \<Rightarrow> Some (polled_row d rd (traffic_of d s)))"
    using accumulate_loop [of s "peer_sums s"] assms read_clients_fk
    by (auto simp: peer_sums_clients distinct_peer_sums)
  have "transaction (forE (peer_sums s) accumulate_one) s = (Inr (), s\<lparr>ctraffic := ct\<rparr>)"
    using transaction_ok [of s "forE (peer_sums s) accumulate_one"] ct(1) assms(1) by simp
  then have "AccumulateClientTraffic s = (Inr (), s\<lparr>ctraffic := ct\<rparr>)"
    using assms False
    by (simp add: AccumulateClientTraffic_def bindE_def stmt_ok read_clients_def)
  then show ?thesis using ct(2) by (intro exI [of _ ct]) (simp add: map_of_peer_sums)
qed

lemma filter_client_id:
  "wf_store s \<Longrightarrow> filter (\<lambda>c. cl_id c = i) (clients s) =
     (case client_by_id i s of None \<Rightarrow> [] | Some r \<Rightarrow> [r])"
  by (simp add: client_by_id_def filter_key wf_defs uniq_def)

lemma GetClientControl_ok:
  assumes "faults s = []" "wf_store s"
  shows "GetClientControl i s =
    (case client_by_id i s of None \<Rightarrow> Inl ErrNotFound | Some r \<Rightarrow> Inr (control_of s r), s)"
  using assms
  by (simp add: GetClientControl_def bindE_def select_ok filter_client_id split: option.split)

subsection \<open>Properties\<close>

text \<open>C11: One poll of the traffic accumulator. When the database works and the summed counters fit
  64-bit integers, every device with a reading gets exactly the growth of its summed counters
  since its last reading added to its usage (nothing where a counter restarted, and a first
  reading is only the baseline), the reading becomes the baseline, and no other device and no
  other table changes.\<close>

theorem accumulate_client_traffic:
  assumes "faults s = []" "wf_store s" "\<forall>c \<in> read_clients s. sums_fit c s"
  shows "\<exists>ct. AccumulateClientTraffic s = (Inr (), s\<lparr>ctraffic := ct\<rparr>) \<and>
    (\<forall>d. traffic_of d (s\<lparr>ctraffic := ct\<rparr>) =
       (if d \<notin> read_clients s then traffic_of d s
        else let rx = u64_of (sum_rx d s); tx = u64_of (sum_tx d s) in
          case traffic_of d s of
            None \<Rightarrow> Some \<lparr>ct_client_id = d, ct_used_bytes = 0, ct_last_rx = rx, ct_last_tx = tx,
                         ct_reset_period_days = 0, ct_next_reset_unix = 0\<rparr>
          | Some r \<Rightarrow> Some (r\<lparr>ct_used_bytes := ct_used_bytes r + gain (ct_last_rx r) rx
                                                + gain (ct_last_tx r) tx,
                             ct_last_rx := rx, ct_last_tx := tx\<rparr>)))"
proof -
  have "polled_row d (reading_of d s) q =
      (let rx = u64_of (sum_rx d s); tx = u64_of (sum_tx d s) in
       case q of
         None \<Rightarrow> \<lparr>ct_client_id = d, ct_used_bytes = 0, ct_last_rx = rx, ct_last_tx = tx,
                 ct_reset_period_days = 0, ct_next_reset_unix = 0\<rparr>
       | Some r \<Rightarrow> r\<lparr>ct_used_bytes := ct_used_bytes r + gain (ct_last_rx r) rx
                                        + gain (ct_last_tx r) tx,
                    ct_last_rx := rx, ct_last_tx := tx\<rparr>)" for d q
    by (cases q) (simp_all add: polled_row_def reading_of_def zero_traffic_def accumulate_row_def
        gain_def Let_def)
  note row = this
  obtain ct where ct: "AccumulateClientTraffic s = (Inr (), s\<lparr>ctraffic := ct\<rparr>)"
    "\<forall>d. traffic_of d (s\<lparr>ctraffic := ct\<rparr>) =
       (if d \<in> read_clients s then Some (polled_row d (reading_of d s) (traffic_of d s))
        else traffic_of d s)"
    using AccumulateClientTraffic_ok [OF assms] by blast
  show ?thesis
  proof (intro exI conjI allI)
    show "AccumulateClientTraffic s = (Inr (), s\<lparr>ctraffic := ct\<rparr>)" by (rule ct(1))
    fix d show "traffic_of d (s\<lparr>ctraffic := ct\<rparr>) = (if d \<notin> read_clients s then traffic_of d s
        else let rx = u64_of (sum_rx d s); tx = u64_of (sum_tx d s) in
          case traffic_of d s of
            None \<Rightarrow> Some \<lparr>ct_client_id = d, ct_used_bytes = 0, ct_last_rx = rx, ct_last_tx = tx,
                         ct_reset_period_days = 0, ct_next_reset_unix = 0\<rparr>
          | Some r \<Rightarrow> Some (r\<lparr>ct_used_bytes := ct_used_bytes r + gain (ct_last_rx r) rx
                                                + gain (ct_last_tx r) tx,
                             ct_last_rx := rx, ct_last_tx := tx\<rparr>))"
      using ct(2) row [of d "traffic_of d s"]
      by (cases "traffic_of d s") (simp_all add: Let_def)
  qed
qed

text \<open>No double counting. A second poll with no new reading from any relay in between leaves
  the usage of every device as the first one left it.\<close>

theorem accumulate_idempotent:
  assumes "faults s = []" "wf_store s" "\<forall>c \<in> read_clients s. sums_fit c s"
  shows "used_of d (snd (AccumulateClientTraffic (snd (AccumulateClientTraffic s)))) =
         used_of d (snd (AccumulateClientTraffic s))"
proof -
  obtain ct where ct: "AccumulateClientTraffic s = (Inr (), s\<lparr>ctraffic := ct\<rparr>)"
    "\<forall>d. traffic_of d (s\<lparr>ctraffic := ct\<rparr>) =
       (if d \<in> read_clients s then Some (polled_row d (reading_of d s) (traffic_of d s))
        else traffic_of d s)"
    using AccumulateClientTraffic_ok [OF assms] by blast
  let ?s1 = "s\<lparr>ctraffic := ct\<rparr>"
  have same: "read_clients ?s1 = read_clients s" "reading_of c ?s1 = reading_of c s"
      "sums_fit c ?s1 = sums_fit c s" for c
    by (simp_all add: read_clients_def reading_of_def sums_fit_def sum_rx_def sum_tx_def
        joined_traffic_def)
  have "wf_store ?s1" using preservesD [OF pres_AccumulateClientTraffic assms(2)] ct(1) by simp
  then obtain ct2 where ct2: "AccumulateClientTraffic ?s1 = (Inr (), ?s1\<lparr>ctraffic := ct2\<rparr>)"
    "\<forall>d. traffic_of d (?s1\<lparr>ctraffic := ct2\<rparr>) =
       (if d \<in> read_clients ?s1 then Some (polled_row d (reading_of d ?s1) (traffic_of d ?s1))
        else traffic_of d ?s1)"
    using AccumulateClientTraffic_ok [of ?s1] assms same by auto
  have "ct_used_bytes (polled_row d rd (Some (polled_row d rd q))) = ct_used_bytes (polled_row d rd q)"
    for rd q
    by (cases q) (simp_all add: polled_row_def client_usage.total_repeat,
        simp add: accumulate_row_def Let_def split: prod.split)
  then show ?thesis
    using ct ct2 same by (simp add: used_of_def split: option.split)
qed

lemma sample_sums:
  "read_clients (sample_store d) = {''c1'', ''c2''}"
  "sum_rx ''c1'' (sample_store d) = 100" "sum_tx ''c1'' (sample_store d) = 50"
  "sum_rx ''c2'' (sample_store d) = 7" "sum_tx ''c2'' (sample_store d) = 9"
  by (simp_all add: read_clients_def joined_traffic_def sum_rx_def sum_tx_def sample_defs pt_key_def)

lemma sample_fit: "\<forall>c \<in> read_clients (sample_store d). sums_fit c (sample_store d)"
  by (simp add: sample_sums sums_fit_def)

theorem accumulate_client_traffic_witness:
  "\<exists>ct. AccumulateClientTraffic (sample_store DriverSQLite) =
     (Inr (), (sample_store DriverSQLite)\<lparr>ctraffic := ct\<rparr>)"
  using accumulate_client_traffic [OF sample_faults sample_wf sample_fit, of DriverSQLite] by blast

theorem accumulate_idempotent_witness:
  "used_of ''c1'' (snd (AccumulateClientTraffic (snd (AccumulateClientTraffic
     (sample_store DriverPostgres))))) =
   used_of ''c1'' (snd (AccumulateClientTraffic (sample_store DriverPostgres)))"
  by (rule accumulate_idempotent [OF sample_faults sample_wf sample_fit])

text \<open>What a tenant may ask of a device of theirs: every operation of the store whose statement
  carries \<^verbatim>\<open>id = ? AND owner_admin_id = ?\<close>.\<close>

datatype tenant_op =
    AskRotate string string | AskLogs bool bool bool | AskSync string int | AskRemote bool
  | AskCutoff bool | AskLimit u64 int int | AskReset int | AskRemove

fun tenant :: "tenant_op \<Rightarrow> string \<Rightarrow> int \<Rightarrow> unit db" where
  "tenant (AskRotate h p) i owner = UpdateClientToken i owner h p"
| "tenant (AskLogs b1 b2 b3) i owner = UpdateClientLogControl i owner b1 b2 b3"
| "tenant (AskSync mode minutes) i owner = UpdateClientSync i owner mode minutes"
| "tenant (AskRemote b) i owner = SetClientRemoteControl i owner b"
| "tenant (AskCutoff b) i owner = SetClientDisabled i owner b"
| "tenant (AskLimit l days now) i owner = SetClientTrafficLimit i owner l days now"
| "tenant (AskReset now) i owner = ResetClientTraffic i owner now"
| "tenant AskRemove i owner = DeleteClient i owner"

definition tenants :: "(tenant_op \<times> string \<times> int) list \<Rightarrow> store \<Rightarrow> store" where
  "tenants reqs s = fold (\<lambda>(t, i, owner) s. snd (tenant t i owner s)) reqs s"

text \<open>Everything the store keeps of the device \<open>j\<close>: its row and its rows of the eight tables
  keyed by the device.\<close>

type_synonym device_data =
  "client_row list \<times> client_traffic_row list \<times> client_config_row list \<times> client_blob_row list \<times>
   client_blob_row list \<times> client_blob_row list \<times> client_log_row list \<times> wg_peer_row list \<times> pending_row list"

definition device_rows :: "string \<Rightarrow> store \<Rightarrow> device_data" where
  "device_rows j s =
    (filter (\<lambda>r. cl_id r = j) (clients s), filter (\<lambda>r. ct_client_id r = j) (ctraffic s),
     filter (\<lambda>r. cc_client_id r = j) (cconfigs s), filter (\<lambda>r. cb_client_id r = j) (creported s),
     filter (\<lambda>r. cb_client_id r = j) (cruntime s), filter (\<lambda>r. cb_client_id r = j) (capps s),
     filter (\<lambda>r. lg_client_id r = j) (clogs s), filter (\<lambda>r. wp_client_id r = j) (wgpeers s),
     filter (\<lambda>r. pc_client_id r = j) (pending s))"

lemma device_rows_data: "device_rows j (data s) = device_rows j s"
  by (simp add: device_rows_def data_def)

lemma device_rows_faults [simp]: "device_rows j (s\<lparr>faults := fs\<rparr>) = device_rows j s"
  by (simp add: device_rows_def)

text \<open>The store keeps \<open>D\<close> of the device \<open>j\<close>, and no row of it is what \<open>owner\<close> calls \<open>i\<close>.\<close>

definition spared :: "string \<Rightarrow> string \<Rightarrow> int \<Rightarrow> device_data \<Rightarrow> store \<Rightarrow> bool" where
  "spared j i owner D s \<longleftrightarrow>
     device_rows j s = D \<and> (\<forall>r \<in> set (clients s). cl_id r = j \<longrightarrow> \<not> owned i owner r)"

lemma spared_fault_free [intro, simp]: "fault_free (spared j i owner D)"
  by (simp add: fault_free_def spared_def)

lemma filter_update_where:
  "(\<And>r. P r \<Longrightarrow> K (f r) = K r) \<Longrightarrow> (\<forall>r \<in> set rs. K r \<longrightarrow> \<not> P r) \<Longrightarrow>
     filter K (update_where P f rs) = filter K rs"
  by (induction rs) (auto simp: update_where_def)

lemma spared_update:
  assumes "\<And>r. cl_id (f r) = cl_id r" "\<And>r. cl_owner (f r) = cl_owner r" "spared j i owner D s"
  shows "spared j i owner D (clients_update (update_where (owned i owner) f) s)"
  using assms by (auto simp: spared_def device_rows_def set_update_where owned_def intro!: filter_update_where split: if_splits)

lemma pres_gated:
  assumes "\<And>r. cl_id (f r) = cl_id r" "\<And>r. cl_owner (f r) = cl_owner r"
  shows "preserves (spared j i owner D) (update_rows clients clients_update (owned i owner) f)"
  using assms by (intro pres_update_rows spared_update) simp_all

lemma spared_put_traffic:
  assumes "ct_client_id r \<noteq> j" "spared j i owner D s"
  shows "spared j i owner D (ctraffic_update (upsert_one ct_client_id traffic_upd r) s)"
    and "spared j i owner D (ctraffic_update (\<lambda>rs. rs @ [r]) s)"
proof -
  have "filter (\<lambda>r. ct_client_id r = j) (upsert_one ct_client_id traffic_upd r rs) =
      filter (\<lambda>r. ct_client_id r = j) rs" for rs
    using assms(1) by (auto simp: upsert_one_def traffic_upd_def intro!: filter_update_where)
  then show "spared j i owner D (ctraffic_update (upsert_one ct_client_id traffic_upd r) s)"
    and "spared j i owner D (ctraffic_update (\<lambda>rs. rs @ [r]) s)"
    using assms by (simp_all add: spared_def device_rows_def)
qed

lemma pres_create_spared: "ct_client_id r \<noteq> j \<Longrightarrow> preserves (spared j i owner D) (create_traffic r)"
  unfolding create_traffic_def by (rule pres_insert_row) (simp_all add: spared_put_traffic)

lemma pres_save_spared: "ct_client_id r \<noteq> j \<Longrightarrow> preserves (spared j i owner D) (save_traffic r)"
  unfolding save_traffic_def by (rule pres_upsert_rows) (simp_all add: spared_put_traffic)

lemma pres_sums_spared [pres]: "preserves (spared j i owner D) (sumClientPeerTraffic c)"
  unfolding sumClientPeerTraffic_def by (rule pres_stmt) simp_all

text \<open>A step that keeps \<open>I\<close> under what an earlier one has established.\<close>

lemma ensures_knowing: "(\<Phi> \<Longrightarrow> preserves I m) \<Longrightarrow> ensures (\<lambda>s. I s \<and> \<Phi>) m (\<lambda>_. I) (\<lambda>_. I)"
  using preserves_ensures [of I m] by (cases \<Phi>) (simp_all add: ensures_def)

lemma own_traffic_row:
  "ensures (spared j i owner D) (attempt (query_first (traffic_of c)))
     (\<lambda>r s. spared j i owner D s \<and> (\<forall>row. r = Inr row \<longrightarrow> ct_client_id row = c)) (\<lambda>_. spared j i owner D)"
  by (intro ensures_attempt ensures_query_first) (simp_all add: traffic_of_client)

lemma pres_record_knowing:
  "preserves I a \<Longrightarrow> (\<And>e. preserves I (f e)) \<Longrightarrow> (\<And>x. r = Inr x \<Longrightarrow> preserves I (g x)) \<Longrightarrow>
     preserves I (case r of Inl ErrRecordNotFound \<Rightarrow> a | Inl e \<Rightarrow> f e | Inr x \<Rightarrow> g x)"
  by (cases r) (simp_all split: error.split)

text \<open>The row the limit re-arms is the device's own.\<close>

lemma pres_track_spared:
  assumes "c \<noteq> j"
  shows "preserves (spared j i owner D) (track_limit c days now)"
  unfolding preserves_ensures [symmetric] track_limit_def
proof (rule ensures_bindE [OF own_traffic_row], rule ensures_knowing, rule pres_record_knowing)
  fix r :: "error + client_traffic_row" and row
  assume row: "\<forall>row. r = Inr row \<longrightarrow> ct_client_id row = c" "r = Inr row"
  then show "preserves (spared j i owner D) (save_traffic (rearm days now row))"
    using assms by (intro pres_save_spared) (simp add: rearm_def)
qed (intro pres pres_create_spared; simp add: assms)+

text \<open>An operation counts what it matches: on the device \<open>j\<close> itself nothing, so the guard ends it there.\<close>

lemma owned_other:
  "spared j i owner D s \<Longrightarrow> filter (owned i owner) (clients s) \<noteq> [] \<Longrightarrow> i \<noteq> j"
  by (auto simp: spared_def filter_empty_conv owned_def)

lemma affected_some: "affected d P f rs \<noteq> 0 \<Longrightarrow> filter P rs \<noteq> []"
  by (auto simp: affected_def filter_empty_conv)

lemma limit_counts:
  "ensures (spared j i owner D) (update_rows clients clients_update (owned i owner) (\<lambda>r. r\<lparr>cl_traffic_limit := l\<rparr>))
      (\<lambda>n s. spared j i owner D s \<and> (n \<noteq> 0 \<longrightarrow> i \<noteq> j)) (\<lambda>_. spared j i owner D)"
proof (rule ensures_update_rows)
  fix s assume s: "spared j i owner D s"
  have "i \<noteq> j" if "affected (driver s) (owned i owner) (\<lambda>r. r\<lparr>cl_traffic_limit := l\<rparr>) (clients s) \<noteq> 0"
    using affected_some [OF that] by (rule owned_other [OF s])
  then show "spared j i owner D (clients_update (update_where (owned i owner) (\<lambda>r. r\<lparr>cl_traffic_limit := l\<rparr>)) s) \<and>
      (affected (driver s) (owned i owner) (\<lambda>r. r\<lparr>cl_traffic_limit := l\<rparr>) (clients s) \<noteq> 0 \<longrightarrow> i \<noteq> j)"
    using s by (simp add: spared_update)
qed simp_all

lemma limit_leaves: "preserves (spared j i owner D) (SetClientTrafficLimit i owner l days now)"
  unfolding SetClientTrafficLimit_def Let_def
proof (rule pres_transaction [OF spared_fault_free])
  show "preserves (spared j i owner D) (bindE (update_rows clients clients_update (owned i owner) (\<lambda>r. r\<lparr>cl_traffic_limit := l\<rparr>))
      (\<lambda>n. if n = 0 then fail ErrNotFound else track_limit i (if days < 0 then 0 else days) now))"
    unfolding preserves_ensures [symmetric]
    by (rule ensures_bindE [OF limit_counts], rule ensures_knowing) (simp add: pres_track_spared)
qed

lemma reset_leaves: "preserves (spared j i owner D) (ResetClientTraffic i owner now)"
proof (cases "i = j")
  case True
  show ?thesis
  proof (rule preservesI)
    fix s assume s: "spared j i owner D s"
    then have no: "filter (owned i owner) (clients (s\<lparr>faults := fs\<rparr>)) = []" for fs
      using owned_other [OF s] True by auto
    show "spared j i owner D (snd (ResetClientTraffic i owner now s))"
      using s no by (auto simp: ResetClientTraffic_def bindE_def select_def stmt_def spared_def split: list.split)
  qed
next
  case False
  then show ?thesis
    unfolding ResetClientTraffic_def Let_def
    by (intro pres pres_record_case pres_create_spared pres_save_spared; simp)
qed

lemma delete_leaves: "preserves (spared j i owner D) (DeleteClient i owner)"
proof (rule preservesI)
  fix s assume s: "spared j i owner D s"
  obtain q s' where e: "DeleteClient i owner s = (q, s')" by fastforce
  have data: "spared j i owner D (data t) = spared j i owner D t" for t by (simp add: spared_def device_rows_data)
  have "spared j i owner D (without_client i owner (data s))" if "\<exists>r \<in> set (clients s). owned i owner r"
  proof -
    have "i \<noteq> j" using s that owned_other [OF s] by (auto simp: filter_empty_conv)
    then show ?thesis using s unfolding data [of s, symmetric]
      by (auto simp: spared_def without_client_def drop_client_rows_def device_rows_def owned_def intro!: filter_cong)
  qed
  then have "spared j i owner D (data s')"
    using DeleteClient_Inl [of i owner s _ s'] DeleteClient_Inr [of i owner s _ s'] e s data
    by (cases q) auto
  then show "spared j i owner D (snd (DeleteClient i owner s))" by (simp add: e data)
qed

lemma tenant_leaves: "preserves (spared j i owner D) (tenant t i owner)"
proof (cases t)
  case (AskLimit l days now)
  then show ?thesis by (simp add: limit_leaves)
next
  case (AskReset now)
  then show ?thesis by (simp add: reset_leaves)
next
  case AskRemove
  then show ?thesis by (simp add: delete_leaves)
qed (auto simp: UpdateClientToken_def UpdateClientLogControl_def UpdateClientSync_def Let_def
    SetClientRemoteControl_def SetClientDisabled_def require_affected_def intro!: pres pres_gated)

lemma request_leaves:
  assumes "\<forall>q \<in> set (fst (device_rows j s)). \<not> owned i owner q"
  shows "device_rows j (snd (tenant t i owner s)) = device_rows j s"
  using preservesD [OF tenant_leaves, of j i owner "device_rows j s" s t] assms
  by (simp add: spared_def device_rows_def)

lemma requests_leave:
  "(\<forall>(t, i, owner) \<in> set reqs. \<forall>q \<in> set (fst (device_rows j s)). \<not> owned i owner q) \<Longrightarrow>
     device_rows j (tenants reqs s) = device_rows j s"
proof (induction reqs arbitrary: s)
  case (Cons req reqs)
  obtain t i owner where req: "req = (t, i, owner)" by (cases req)
  have "device_rows j (snd (tenant t i owner s)) = device_rows j s"
    using Cons.prems req by (intro request_leaves) simp
  then show ?case using Cons.IH [of "snd (tenant t i owner s)"] Cons.prems req by (simp add: tenants_def)
qed (simp add: tenants_def)

lemma device_row_unique:
  assumes "wf_store s" "client_by_id j s = Some r"
  shows "fst (device_rows j s) = [r]"
proof -
  have r: "r \<in> set (clients s)" "cl_id r = j" using client_by_id_SomeD [OF assms(2)] by simp_all
  have "distinct (map cl_id (clients s))" using assms(1) by (simp add: wf_defs uniq_def)
  then have "filter (\<lambda>q. cl_id q = j) cs = [r]" if "r \<in> set cs" "distinct (map cl_id cs)" for cs
    using that r(2) by (induction cs) (auto simp: filter_empty_conv image_iff)
  then show ?thesis using assms(1) r(1) by (simp add: device_rows_def wf_defs uniq_def)
qed

lemma client_by_id_row: "client_by_id j s = (case fst (device_rows j s) of [] \<Rightarrow> None | r # _ \<Rightarrow> Some r)"
proof -
  have "find (\<lambda>r. cl_id r = j) cs = (case filter (\<lambda>r. cl_id r = j) cs of [] \<Rightarrow> None | r # _ \<Rightarrow> Some r)" for cs
    by (induction cs) simp_all
  then show ?thesis by (simp add: client_by_id_def device_rows_def)
qed

text \<open>C10: Tenancy. Whatever the tenants ask for, in any order and whatever statements fail: as long as
  no request names the device \<open>j\<close> together with its owner, everything the store keeps of it (its
  row and its rows of the eight tables keyed by the device: usage, configuration, reports, logs,
  peers, pending commands) stays as it is. Rotating a token, the log switches, the sync mode, the
  remote control, the cutoff, the limit, the reset of the usage and the deletion are covered.\<close>

theorem client_tenancy:
  assumes "wf_store s" "client_by_id j s = Some r"
    and "\<forall>(t, i, owner) \<in> set reqs. \<not> (cl_id r = i \<and> cl_owner r = owner)"
  shows "device_rows j (tenants reqs s) = device_rows j s \<and> client_by_id j (tenants reqs s) = Some r"
proof -
  have "device_rows j (tenants reqs s) = device_rows j s"
    using assms(3) by (intro requests_leave) (auto simp: device_row_unique [OF assms(1,2)] owned_def)
  then show ?thesis using assms(2) by (simp add: client_by_id_row)
qed

definition meddling :: "(tenant_op \<times> string \<times> int) list" where
  "meddling = [(AskRotate ''h'' ''t'', ''c2'', 1), (AskRemote True, ''c2'', 1), (AskCutoff True, ''c2'', 1),
     (AskLimit 5 30 1000, ''c2'', 1), (AskReset 1000, ''c2'', 1), (AskRemove, ''c2'', 1), (AskRemove, ''c1'', 1)]"

theorem client_tenancy_witness:
  "device_rows ''c2'' (tenants meddling (sample_store DriverPostgres)) = device_rows ''c2'' (sample_store DriverPostgres) \<and>
   client_by_id ''c2'' (tenants meddling (sample_store DriverPostgres)) =
     Some (new_client_row ''c2'' 2 ''tablet'' ''h2'' ''t2'' 200)"
proof (rule client_tenancy [OF sample_wf])
  show "client_by_id ''c2'' (sample_store DriverPostgres) = Some (new_client_row ''c2'' 2 ''tablet'' ''h2'' ''t2'' 200)"
    by (simp add: client_by_id_def sample_defs)
qed (simp add: meddling_def new_client_row_def)

lemma blocked_ids_ok:
  assumes "faults s = []" "wf_store s"
  shows "\<exists>ids. BlockedProvisionedClientIDs s = (Inr ids, s) \<and> distinct ids \<and>
    (\<forall>c. c \<in> set ids \<longleftrightarrow> c \<in> wp_client_id ` set (wgpeers s) \<and>
       (\<exists>r. client_by_id c s = Some r \<and> Blocked (control_of s r)))"
proof -
  define ids where "ids = remdups
     [cl_id c. c \<leftarrow> clients s, p \<leftarrow> filter (\<lambda>p. wp_client_id p = cl_id c) (wgpeers s),
        cl_disabled c \<noteq> 0 \<or>
        (cl_traffic_limit c > 0 \<and> used_of (cl_id c) s \<ge> cl_traffic_limit c)]"
  have gate: "Blocked (control_of s r) \<longleftrightarrow> cl_disabled r \<noteq> 0 \<or>
      (cl_traffic_limit r > 0 \<and> used_of (cl_id r) s \<ge> cl_traffic_limit r)" for r
    by (simp add: Blocked_def control_of_def used_of_def split: option.split)
  have "c \<in> set ids \<longleftrightarrow> c \<in> wp_client_id ` set (wgpeers s) \<and>
        (\<exists>r. client_by_id c s = Some r \<and> Blocked (control_of s r))" for c
  proof -
    have "c \<in> set ids \<longleftrightarrow> (\<exists>r \<in> set (clients s). \<exists>p \<in> set (wgpeers s).
          wp_client_id p = cl_id r \<and> c = cl_id r \<and> Blocked (control_of s r))"
      unfolding ids_def gate by (simp add: Bex_def) blast
    also have "\<dots> \<longleftrightarrow> c \<in> wp_client_id ` set (wgpeers s) \<and>
        (\<exists>r \<in> set (clients s). cl_id r = c \<and> Blocked (control_of s r))"
      by (force simp: image_iff)
    also have "(\<exists>r \<in> set (clients s). cl_id r = c \<and> Blocked (control_of s r)) \<longleftrightarrow>
        (\<exists>r. client_by_id c s = Some r \<and> Blocked (control_of s r))"
      using client_by_id_present [OF assms(2)] client_by_id_SomeD by blast
    finally show ?thesis .
  qed
  then show ?thesis
    by (intro exI [of _ ids]) (simp add: BlockedProvisionedClientIDs_def select_ok assms ids_def)
qed

text \<open>One predicate cuts a device off. The ids the collector deprovisions, selected in SQL, are
  exactly the devices that hold a peer and whose control state, as the provisioning gate reads
  it, is blocked: disabled, or with a cap that the usage has reached.\<close>

theorem blocked_ids_are_gated:
  assumes "faults s = []" "wf_store s"
  shows "\<exists>ids. BlockedProvisionedClientIDs s = (Inr ids, s) \<and> distinct ids \<and>
    (\<forall>c. c \<in> set ids \<longleftrightarrow> c \<in> wp_client_id ` set (wgpeers s) \<and>
       (\<exists>ctl. GetClientControl c s = (Inr ctl, s) \<and> Blocked ctl))"
proof -
  have "(\<exists>ctl. GetClientControl c s = (Inr ctl, s) \<and> Blocked ctl) \<longleftrightarrow>
      (\<exists>r. client_by_id c s = Some r \<and> Blocked (control_of s r))" for c
    by (simp add: GetClientControl_ok [OF assms] split: option.split)
  then show ?thesis using blocked_ids_ok [OF assms] by simp
qed

theorem blocked_ids_are_gated_witness:
  "\<exists>ids. BlockedProvisionedClientIDs (sample_store DriverSQLite) =
     (Inr ids, sample_store DriverSQLite) \<and> distinct ids"
  using blocked_ids_are_gated [OF sample_faults sample_wf, of DriverSQLite] by blast

lemma limit_update:
  "client_by_id d (clients_update (update_where (owned c owner) (\<lambda>r. r\<lparr>cl_traffic_limit := l\<rparr>)) s) =
     map_option (\<lambda>r. if owned c owner r then r\<lparr>cl_traffic_limit := l\<rparr> else r) (client_by_id d s)"
  by (rule client_by_id_update) simp

lemma limit_affected:
  assumes "client_by_id c s = Some r" "cl_owner r = owner"
    "driver s = DriverMySQL \<longrightarrow> cl_traffic_limit r \<noteq> l"
  shows "affected (driver s) (owned c owner) (\<lambda>r. r\<lparr>cl_traffic_limit := l\<rparr>) (clients s) \<noteq> 0"
proof -
  have "r \<in> set (clients s)" "owned c owner r"
    using client_by_id_SomeD [OF assms(1)] assms(2) by (auto simp: owned_def)
  moreover have "driver s = DriverMySQL \<longrightarrow> r\<lparr>cl_traffic_limit := l\<rparr> \<noteq> r"
    using assms(3) by (metis client_row.select_convs(24) client_row.update_convs(24) client_row.surjective)
  ultimately show ?thesis by (auto simp: affected_def filter_empty_conv)
qed

definition limited_row :: "string \<Rightarrow> int \<Rightarrow> int \<Rightarrow> store \<Rightarrow> client_traffic_row" where
  "limited_row c days now s = (case traffic_of c s of
     None \<Rightarrow> \<lparr>ct_client_id = c, ct_used_bytes = 0, ct_last_rx = u64_of (sum_rx c s),
             ct_last_tx = u64_of (sum_tx c s), ct_reset_period_days = days,
             ct_next_reset_unix = (if days > 0 then next_reset now days else 0)\<rparr>
   | Some t \<Rightarrow> rearm days now t)"

lemma limited_row_client [simp]: "ct_client_id (limited_row c days now s) = c"
  by (cases "traffic_of c s") (simp_all add: limited_row_def rearm_def traffic_of_client)

lemma traffic_of_None: "traffic_of c s = None \<Longrightarrow> c \<notin> ct_client_id ` set (ctraffic s)"
  by (auto simp: traffic_of_def find_None_iff)

lemma track_limit_ok:
  assumes "faults s = []" "fk_client c s" "sums_fit c s"
  shows "track_limit c days now s = (Inr (), s\<lparr>ctraffic :=
    upsert_one ct_client_id traffic_upd (limited_row c days now s) (ctraffic s)\<rparr>)"
proof (cases "traffic_of c s")
  case None
  then show ?thesis using assms traffic_of_None [OF None]
    by (simp add: track_limit_def bindE_def attempt_app query_first_ok sumClientPeerTraffic_def
        stmt_ok create_traffic_def insert_row_ok limited_row_def upsert_one_def)
next
  case (Some t)
  then show ?thesis using assms traffic_of_client [OF Some]
    by (simp add: track_limit_def bindE_def attempt_app query_first_ok save_traffic_def
        upsert_rows_ok limited_row_def rearm_def)
qed

text \<open>Setting a traffic cap. For a device of the caller the cap is stored, the usage already
  accumulated is kept, and a device tracked for the first time starts at zero from the current
  reading, so the cap never counts traffic from before it; the next automatic reset is armed only
  if the period changed or none was armed, and cleared when the period is zero or negative.\<close>

theorem set_traffic_limit:
  assumes "faults s = []" "client_by_id c s = Some r" "cl_owner r = owner"
    and "sums_fit c s" "driver s = DriverMySQL \<longrightarrow> cl_traffic_limit r \<noteq> l"
  shows "\<exists>s'. SetClientTrafficLimit c owner l days now s = (Inr (), s') \<and>
    client_by_id c s' = Some (r\<lparr>cl_traffic_limit := l\<rparr>) \<and>
    traffic_of c s' = Some (let d = max 0 days; arm = wrap64 (now + d * 86400) in
      case traffic_of c s of
        None \<Rightarrow> \<lparr>ct_client_id = c, ct_used_bytes = 0, ct_last_rx = u64_of (sum_rx c s),
          ct_last_tx = u64_of (sum_tx c s), ct_reset_period_days = d,
          ct_next_reset_unix = (if d = 0 then 0 else arm)\<rparr>
      | Some t \<Rightarrow> t\<lparr>ct_reset_period_days := d, ct_next_reset_unix :=
          (if d = 0 then 0
           else if d = ct_reset_period_days t \<and> ct_next_reset_unix t \<noteq> 0
           then ct_next_reset_unix t else arm)\<rparr>)"
proof -
  let ?d = "max 0 days"
  let ?s1 = "clients_update (update_where (owned c owner) (\<lambda>r. r\<lparr>cl_traffic_limit := l\<rparr>)) s"
  let ?t = "limited_row c ?d now ?s1"
  let ?s2 = "?s1\<lparr>ctraffic := upsert_one ct_client_id traffic_upd ?t (ctraffic ?s1)\<rparr>"
  have c1: "client_by_id c ?s1 = Some (r\<lparr>cl_traffic_limit := l\<rparr>)"
    using assms client_by_id_SomeD [OF assms(2)] by (simp add: limit_update owned_def)
  have same: "sum_rx c ?s1 = sum_rx c s" "sum_tx c ?s1 = sum_tx c s" "sums_fit c ?s1"
      "traffic_of c ?s1 = traffic_of c s" "faults ?s1 = []"
    using assms by (simp_all add: sums_fit_def sum_rx_def sum_tx_def joined_traffic_def traffic_of_def)
  have "(if days < 0 then 0 else days) = ?d" by simp
  then have run: "SetClientTrafficLimit c owner l days now s = (Inr (), ?s2)"
    using limit_affected [OF assms(2,3,5)]
      track_limit_ok [OF same(5) client_by_id_fk [OF c1] same(3), of ?d now]
    unfolding SetClientTrafficLimit_def Let_def
    by (intro transaction_InrI [OF assms(1)]) (simp_all add: bindE_def update_rows_ok assms(1))
  have c2: "client_by_id c ?s2 = client_by_id c ?s1" by (simp add: client_by_id_def)
  have t2: "traffic_of c ?s2 = Some ?t" using traffic_of_put [where d = c and s = ?s1 and r = ?t] by simp
  have row: "?t = (let d = max 0 days; arm = wrap64 (now + d * 86400) in
      case traffic_of c s of
        None \<Rightarrow> \<lparr>ct_client_id = c, ct_used_bytes = 0, ct_last_rx = u64_of (sum_rx c s),
          ct_last_tx = u64_of (sum_tx c s), ct_reset_period_days = d,
          ct_next_reset_unix = (if d = 0 then 0 else arm)\<rparr>
      | Some t \<Rightarrow> t\<lparr>ct_reset_period_days := d, ct_next_reset_unix :=
          (if d = 0 then 0
           else if d = ct_reset_period_days t \<and> ct_next_reset_unix t \<noteq> 0
           then ct_next_reset_unix t else arm)\<rparr>)"
    by (simp add: limited_row_def same rearm_def next_reset_def secondsPerDay_def Let_def
        split: option.split)
  show ?thesis
    by (rule exI [of _ ?s2], intro conjI, rule run, simp only: c2 c1,
        rule trans [OF t2 arg_cong [where f = Some, OF row]])
qed

theorem set_traffic_limit_witness:
  "\<exists>s'. SetClientTrafficLimit ''c1'' 1 1000 30 5000 (sample_store DriverMySQL) = (Inr (), s') \<and>
     traffic_of ''c1'' s' = Some \<lparr>ct_client_id = ''c1'', ct_used_bytes = 0, ct_last_rx = 100,
       ct_last_tx = 50, ct_reset_period_days = 30, ct_next_reset_unix = 5000 + 30 * 86400\<rparr>"
proof -
  let ?s = "sample_store DriverMySQL" and ?r = "new_client_row ''c1'' 1 ''phone'' ''h1'' ''t1'' 100"
  have "client_by_id ''c1'' ?s = Some ?r" by (simp add: client_by_id_def sample_defs)
  moreover have "cl_owner ?r = 1" "cl_traffic_limit ?r \<noteq> 1000" by (simp_all add: new_client_row_def)
  moreover have "sums_fit ''c1'' ?s" "traffic_of ''c1'' ?s = None"
    by (simp_all add: sums_fit_def sample_sums) (simp add: traffic_of_def sample_defs)
  ultimately show ?thesis
    using set_traffic_limit [OF sample_faults, of "''c1''" DriverMySQL ?r 1 1000 30 5000]
    by (auto simp: sample_sums u64_of_def)
qed

text \<open>The same call on MariaDB, where an \<^verbatim>\<open>UPDATE\<close> counts only the rows it changes: with an
  unchanged cap, changing only the reset period is refused with \<^verbatim>\<open>ErrNotFound\<close> for a device that
  exists and belongs to the caller, although the code has a branch for exactly that change.\<close>

theorem period_change_refused_on_mariadb:
  assumes "faults s = []" "wf_store s" "driver s = DriverMySQL"
    and "client_by_id c s = Some r" "cl_owner r = owner" "cl_traffic_limit r = l"
  shows "SetClientTrafficLimit c owner l days now s = (Inl ErrNotFound, s)"
proof -
  have "q\<lparr>cl_traffic_limit := l\<rparr> = q" if "q \<in> set (clients s)" "owned c owner q" for q
  proof -
    have "client_by_id c s = Some q"
      using client_by_id_present [OF assms(2) that(1)] that(2) by (simp add: owned_def)
    then show ?thesis using assms(4,6) by simp
  qed
  then have keep: "\<forall>q \<in> set (clients s). owned c owner q \<longrightarrow> q\<lparr>cl_traffic_limit := l\<rparr> = q"
    by blast
  then have "update_where (owned c owner) (\<lambda>r. r\<lparr>cl_traffic_limit := l\<rparr>) (clients s) = clients s"
    unfolding update_where_def by (intro map_idI) simp
  then have u: "clients_update (update_where (owned c owner) (\<lambda>r. r\<lparr>cl_traffic_limit := l\<rparr>)) s = s"
    by (cases s) simp
  have a: "affected (driver s) (owned c owner) (\<lambda>r. r\<lparr>cl_traffic_limit := l\<rparr>) (clients s) = 0"
    unfolding affected_def assms(3) length_0_conv filter_empty_conv using keep by blast
  have "bindE (update_rows clients clients_update (owned c owner)
      (\<lambda>r. r\<lparr>cl_traffic_limit := l\<rparr>)) k s = k 0 s" for k :: "nat \<Rightarrow> unit db"
    by (simp only: bindE_def update_rows_ok [OF assms(1)] u a prod.case sum.case)
  then show ?thesis
    unfolding SetClientTrafficLimit_def Let_def
    by (intro transaction_InlI [OF assms(1) _ assms(1)]) (simp only: if_True fail_app refl)
qed

theorem period_change_refused_on_mariadb_witness:
  "SetClientTrafficLimit ''c1'' 1 0 30 5000 (sample_store DriverMySQL) =
     (Inl ErrNotFound, sample_store DriverMySQL)"
  by (rule period_change_refused_on_mariadb [OF sample_faults sample_wf, where
        r = "new_client_row ''c1'' 1 ''phone'' ''h1'' ''t1'' 100"])
     (simp_all add: client_by_id_def sample_defs)

end
