(* ===== verification/Traffic.thy ===== *)
theory Traffic
  imports ClientTraffic
begin

text \<open>
  What the collector stores of the nodes' traffic: \<^verbatim>\<open>internal/storage/traffic.go\<close>. Samples, the live
  flow snapshot, the connection log, per-peer counters and the durable per-node totals. Ids of
  auto-increment tables are taken from the sequence in row order.
\<close>

subsection \<open>Samples\<close>

text \<open>\<^verbatim>\<open>Create\<close> on an auto-increment table: the row takes the next id of the sequence.\<close>

definition InsertTrafficSample :: "sample_row \<Rightarrow> unit db" where
  "InsertTrafficSample sample =
     bindE (asks now_unix) (\<lambda>now.
     exec (\<lambda>s. s\<lparr>samples := samples s @ [sample\<lparr>ts_id := samples_seq s,
                   ts_ts := if ts_ts sample = 0 then now else ts_ts sample\<rparr>],
                 samples_seq := samples_seq s + 1\<rparr>))"

definition ListTrafficSamples :: "string \<Rightarrow> int \<Rightarrow> sample_row list db" where
  "ListTrafficSamples nodeID sinceUnix = select (\<lambda>s.
     sort_key ts_ts (filter (\<lambda>r. ts_node_id r = nodeID \<and> ts_ts r \<ge> sinceUnix) (samples s)))"

definition ListTrafficSince :: "int \<Rightarrow> sample_row list db" where
  "ListTrafficSince sinceUnix = select (\<lambda>s.
     sort_key ts_node_id (sort_key ts_ts (filter (\<lambda>r. ts_ts r \<ge> sinceUnix) (samples s))))"

text \<open>\<^verbatim>\<open>Order("ts desc").First\<close> adds the primary key, ascending, as the last order.\<close>

definition LatestTrafficSample :: "string \<Rightarrow> sample_row db" where
  "LatestTrafficSample nodeID = find_row (\<lambda>s.
     case sort_key (\<lambda>r. - ts_ts r)
            (sort_key ts_id (filter (\<lambda>r. ts_node_id r = nodeID) (samples s))) of
       [] \<Rightarrow> None | r # _ \<Rightarrow> Some r)"

definition PruneTrafficBefore :: "int \<Rightarrow> unit db" where
  "PruneTrafficBefore cutoff =
     bindE (delete_rows samples samples_update (\<lambda>r. ts_ts r < cutoff)) (\<lambda>_. ret ())"

subsection \<open>Live flows\<close>

definition insert_flows :: "flow_row list \<Rightarrow> unit db" where
  "insert_flows rows = exec (\<lambda>s. s\<lparr>
     flows := flows s @ map (\<lambda>(i, r). r\<lparr>fl_id := i\<rparr>)
                            (zip [flows_seq s .. flows_seq s + int (length rows) - 1] rows),
     flows_seq := flows_seq s + int (length rows)\<rparr>)"

definition ReplaceFlows :: "string \<Rightarrow> flow_row list \<Rightarrow> unit db" where
  "ReplaceFlows nodeID rows = transaction (
     bindE (delete_rows flows flows_update (\<lambda>r. fl_node_id r = nodeID)) (\<lambda>_.
     if rows = [] then ret () else forE (batches 100 rows) insert_flows))"

definition flow_rate :: "flow_row \<Rightarrow> int" where
  "flow_rate r = uint (fl_rx_rate r) + uint (fl_tx_rate r)"

definition ListFlows :: "flow_row list db" where
  "ListFlows = select (\<lambda>s. sort_key (\<lambda>r. - flow_rate r) (flows s))"

definition ListFlowsForNodes :: "string list \<Rightarrow> flow_row list db" where
  "ListFlowsForNodes nodeIDs =
     (if nodeIDs = [] then ret []
      else select (\<lambda>s. sort_key (\<lambda>r. - flow_rate r)
             (filter (\<lambda>r. fl_node_id r \<in> set nodeIDs) (flows s))))"

subsection \<open>Connection log\<close>

definition conn_upd :: "connection_row \<Rightarrow> connection_row \<Rightarrow> connection_row" where
  "conn_upd new old = old\<lparr>cn_client_ip := cn_client_ip new, cn_remote := cn_remote new,
     cn_protocol := cn_protocol new, cn_rx_bytes := cn_rx_bytes new,
     cn_tx_bytes := cn_tx_bytes new, cn_last_seen := cn_last_seen new\<rparr>"

definition stamp_connection :: "int \<Rightarrow> connection_row \<Rightarrow> connection_row" where
  "stamp_connection now r = r\<lparr>
     cn_first_seen := if cn_first_seen r = 0 then now else cn_first_seen r,
     cn_last_seen := if cn_last_seen r = 0 then now else cn_last_seen r\<rparr>"

text \<open>Ids: the statement takes one id of the sequence per row, conflicting or not.\<close>

definition RecordConnections :: "connection_row list \<Rightarrow> unit db" where
  "RecordConnections rows =
     (if rows = [] then ret ()
      else bindE (asks now_unix) (\<lambda>now.
      bindE (asks connections_seq) (\<lambda>sq.
      let stamped = map (\<lambda>(i, r). (stamp_connection now r)\<lparr>cn_id := i\<rparr>)
                        (zip [sq .. sq + int (length rows) - 1] rows) in
      upsert_rows (\<lambda>f s. s\<lparr>connections := f (connections s),
                           connections_seq := connections_seq s + int (length rows)\<rparr>)
        cn_key conn_upd (\<lambda>_ _. True) stamped)))"

definition recent_connections :: "(connection_row \<Rightarrow> bool) \<Rightarrow> int \<Rightarrow> int \<Rightarrow> connection_row list db" where
  "recent_connections Q limit offset = select (\<lambda>s. take (nat limit) (drop (nat offset)
     (sort_key (\<lambda>r. - cn_last_seen r) (filter Q (connections s)))))"

definition ListConnectionLog :: "int \<Rightarrow> connection_row list db" where
  "ListConnectionLog limit = recent_connections (\<lambda>_. True) (if limit \<le> 0 then 100 else limit) 0"

definition ListConnectionLogForNodes :: "string list \<Rightarrow> int \<Rightarrow> int \<Rightarrow> connection_row list db" where
  "ListConnectionLogForNodes nodeIDs limit offset =
     (if nodeIDs = [] then ret []
      else recent_connections (\<lambda>r. cn_node_id r \<in> set nodeIDs)
             (if limit \<le> 0 then 100 else limit) (if offset < 0 then 0 else offset))"

definition CountConnectionLogForNodes :: "string list \<Rightarrow> int db" where
  "CountConnectionLogForNodes nodeIDs =
     (if nodeIDs = [] then ret 0
      else select (\<lambda>s. int (length (filter (\<lambda>r. cn_node_id r \<in> set nodeIDs) (connections s)))))"

definition PruneConnectionsBefore :: "int \<Rightarrow> unit db" where
  "PruneConnectionsBefore cutoff =
     bindE (delete_rows connections connections_update (\<lambda>r. cn_last_seen r < cutoff)) (\<lambda>_. ret ())"

record aggregated_flow =
  af_node_id :: string
  af_client_ip :: string
  af_remote :: string
  af_protocol :: string
  af_rx_bytes :: u64
  af_tx_bytes :: u64

definition path_of :: "connection_row \<Rightarrow> string \<times> string \<times> string \<times> string" where
  "path_of r = (cn_node_id r, cn_client_ip r, cn_remote r, cn_protocol r)"

definition path_sum :: "(connection_row \<Rightarrow> u64) \<Rightarrow> connection_row list \<Rightarrow>
    string \<times> string \<times> string \<times> string \<Rightarrow> int" where
  "path_sum f rs k = sum_list (map (\<lambda>r. uint (f r)) (filter (\<lambda>r. path_of r = k) rs))"

text \<open>\<^verbatim>\<open>GROUP BY\<close> path, one group per distinct path, in order of first occurrence.\<close>

definition AggregateConnectionsSince :: "string list \<Rightarrow> int \<Rightarrow> aggregated_flow list db" where
  "AggregateConnectionsSince nodeIDs sinceUnix =
     (if nodeIDs = [] then ret []
      else stmt (\<lambda>s.
        let rs = filter (\<lambda>r. cn_node_id r \<in> set nodeIDs \<and> cn_last_seen r \<ge> sinceUnix) (connections s);
            ks = remdups (map path_of rs)
        in (if \<forall>k \<in> set ks. path_sum cn_rx_bytes rs k < 2 ^ 63 \<and> path_sum cn_tx_bytes rs k < 2 ^ 63
            then Inr (map (\<lambda>k. case k of (n, ip, rem, pr) \<Rightarrow>
               \<lparr>af_node_id = n, af_client_ip = ip, af_remote = rem, af_protocol = pr,
                af_rx_bytes = u64_of (path_sum cn_rx_bytes rs k),
                af_tx_bytes = u64_of (path_sum cn_tx_bytes rs k)\<rparr>) ks)
            else Inl ErrDb, s)))"

subsection \<open>Counters\<close>

definition peer_traffic_upd :: "peer_traffic_row \<Rightarrow> peer_traffic_row \<Rightarrow> peer_traffic_row" where
  "peer_traffic_upd new old = old\<lparr>pt_rx_bytes := pt_rx_bytes new, pt_tx_bytes := pt_tx_bytes new,
     pt_sampled_unix := pt_sampled_unix new\<rparr>"

definition UpsertPeerTraffic :: "peer_traffic_row list \<Rightarrow> unit db" where
  "UpsertPeerTraffic rows =
     (if rows = [] then ret ()
      else upsert_rows ptraffic_update pt_key peer_traffic_upd (\<lambda>_ _. True) rows)"

definition node_total_of :: "string \<Rightarrow> store \<Rightarrow> node_total_row option" where
  "node_total_of n s = find (\<lambda>r. nt_node_id r = n) (ntotals s)"

definition node_step :: "u64 \<times> u64 \<Rightarrow> node_total_row \<Rightarrow> node_total_row" where
  "node_step reading row = (case reading of (rx, tx) \<Rightarrow>
     let row1 = (if rx \<ge> nt_last_rx row
                 then row\<lparr>nt_rx_total := nt_rx_total row + (rx - nt_last_rx row)\<rparr> else row);
         row2 = (if tx \<ge> nt_last_tx row1
                 then row1\<lparr>nt_tx_total := nt_tx_total row1 + (tx - nt_last_tx row1)\<rparr> else row1)
     in row2\<lparr>nt_last_rx := rx, nt_last_tx := tx\<rparr>)"

definition node_total_upd :: "node_total_row \<Rightarrow> node_total_row \<Rightarrow> node_total_row" where
  "node_total_upd new old = new"

definition AccumulateNodeTraffic :: "string \<Rightarrow> u64 \<Rightarrow> u64 \<Rightarrow> unit db" where
  "AccumulateNodeTraffic nodeID rxCumulative txCumulative = transaction (
     bindE (attempt (query_first (node_total_of nodeID))) (\<lambda>r.
     case r of
       Inl ErrRecordNotFound \<Rightarrow>
         insert_row ntotals_update (\<lambda>s. nodeID \<notin> nt_node_id ` set (ntotals s))
           \<lparr>nt_node_id = nodeID, nt_rx_total = 0, nt_tx_total = 0,
            nt_last_rx = rxCumulative, nt_last_tx = txCumulative\<rparr>
     | Inl e \<Rightarrow> fail e
     | Inr row \<Rightarrow> upsert_rows ntotals_update nt_node_id node_total_upd (\<lambda>_ _. True)
                   [node_step (rxCumulative, txCumulative) row]))"

definition totals_sum :: "(node_total_row \<Rightarrow> u64) \<Rightarrow> string list \<Rightarrow> store \<Rightarrow> int" where
  "totals_sum f nodeIDs s =
     sum_list (map (\<lambda>r. uint (f r)) (filter (\<lambda>r. nt_node_id r \<in> set nodeIDs) (ntotals s)))"

definition SumNodeTrafficTotals :: "string list \<Rightarrow> (u64 \<times> u64) db" where
  "SumNodeTrafficTotals nodeIDs =
     (if nodeIDs = [] then ret (0, 0)
      else stmt (\<lambda>s.
        (if totals_sum nt_rx_total nodeIDs s < 2 ^ 63 \<and> totals_sum nt_tx_total nodeIDs s < 2 ^ 63
         then Inr (u64_of (totals_sum nt_rx_total nodeIDs s), u64_of (totals_sum nt_tx_total nodeIDs s))
         else Inl ErrDb, s)))"

definition ListNodeTrafficTotals :: "node_total_row list db" where
  "ListNodeTrafficTotals = select ntotals"

definition ClientTrafficMap :: "(string \<times> u64 \<times> u64) list db" where
  "ClientTrafficMap = stmt (\<lambda>s. (if \<forall>c \<in> set (map fst (joined_traffic s)). sums_fit c s
     then Inr (peer_sums s) else Inl ErrDb, s))"

text \<open>
  The map from tunnel address to device name, as the list of assignments the loop makes: a later
  one wins.
\<close>

definition ClientNamesByPeerIP :: "string list \<Rightarrow> (string \<times> string) list db" where
  "ClientNamesByPeerIP nodeIDs =
     (if nodeIDs = [] then ret []
      else bindE (select (\<lambda>s. [(wp_allowed_ips p, cl_name c).
          p \<leftarrow> filter (\<lambda>p. wp_node_id p \<in> set nodeIDs) (wgpeers s),
          c \<leftarrow> filter (\<lambda>c. cl_id c = wp_client_id p) (clients s)])) (\<lambda>rows.
        ret (filter (\<lambda>(ip, _). ip \<noteq> [])
               (map (\<lambda>(ips, name). (takeWhile (\<lambda>ch. ch \<noteq> CHR ''/'') ips, name)) rows))))"

subsection \<open>Invariant\<close>

interpretation conn_table: keyed_table cn_key conn_upd
  by unfold_locales (simp add: conn_upd_def cn_key_def)

interpretation peer_traffic_table: keyed_table pt_key peer_traffic_upd
  by unfold_locales (simp add: peer_traffic_upd_def pt_key_def)

interpretation node_total_table: keyed_table nt_node_id node_total_upd
  by unfold_locales (simp add: node_total_upd_def)

lemma pres_InsertTrafficSample [pres]: "preserves wf_store (InsertTrafficSample r)"
  unfolding InsertTrafficSample_def by (intro pres pres_exec) (simp_all add: wf_defs)

lemma pres_insert_flows [pres]: "preserves wf_store (insert_flows rows)"
  unfolding insert_flows_def by (intro pres_exec) (simp_all add: wf_defs)

lemma pres_traffic_deletes [pres]:
  "preserves wf_store (PruneTrafficBefore c)" "preserves wf_store (PruneConnectionsBefore c)"
  unfolding PruneTrafficBefore_def PruneConnectionsBefore_def
  by (intro pres pres_delete_rows; simp add: wf_defs)+

lemma pres_ReplaceFlows [pres]: "preserves wf_store (ReplaceFlows n rows)"
  unfolding ReplaceFlows_def by (intro pres pres_delete_rows fault_free_wf) (simp add: wf_defs)

lemma pres_RecordConnections [pres]: "preserves wf_store (RecordConnections rows)"
  unfolding RecordConnections_def Let_def
  by (intro pres pres_upsert_rows) (simp_all add: wf_defs conn_table.uniq_upsert)

lemma pres_UpsertPeerTraffic [pres]: "preserves wf_store (UpsertPeerTraffic rows)"
  unfolding UpsertPeerTraffic_def
  by (intro pres pres_upsert_rows) (auto intro!: wf_put peer_traffic_table.upsert_intros simp: wf_get)

lemma node_step_id [simp]: "nt_node_id (node_step rd row) = nt_node_id row"
  by (cases rd) (simp add: node_step_def Let_def)

lemma pres_AccumulateNodeTraffic [pres]: "preserves wf_store (AccumulateNodeTraffic n rx tx)"
  unfolding AccumulateNodeTraffic_def
  by (intro pres pres_insert_row pres_upsert_rows fault_free_wf)
     (auto intro!: wf_put node_total_table.upsert_intros simp: wf_get)

subsection \<open>Node totals\<close>

interpretation node_rx: counter_accumulator node_step nt_rx_total
  "\<lambda>r. (nt_last_rx r, nt_last_tx r)" "\<lambda>a b. gain (fst a) (fst b)" fst
  by unfold_locales (auto simp: node_step_def gain_def Let_def split: prod.splits)

interpretation node_tx: counter_accumulator node_step nt_tx_total
  "\<lambda>r. (nt_last_rx r, nt_last_tx r)" "\<lambda>a b. gain (snd a) (snd b)" snd
  by unfold_locales (auto simp: node_step_def gain_def Let_def split: prod.splits)

lemma node_total_id: "node_total_of n s = Some r \<Longrightarrow> nt_node_id r = n"
  by (auto simp: node_total_of_def find_Some_iff)

lemma AccumulateNodeTraffic_tracked:
  assumes "faults s = []" "node_total_of n s = Some row"
  shows "\<exists>nt. AccumulateNodeTraffic n rx tx s = (Inr (), s\<lparr>ntotals := nt\<rparr>) \<and>
    node_total_of n (s\<lparr>ntotals := nt\<rparr>) = Some (node_step (rx, tx) row)"
proof -
  let ?nt = "upsert_one nt_node_id node_total_upd (node_step (rx, tx) row) (ntotals s)"
  have "AccumulateNodeTraffic n rx tx s = (Inr (), s\<lparr>ntotals := ?nt\<rparr>)"
    unfolding AccumulateNodeTraffic_def
    by (rule transaction_InrI)
       (simp_all add: assms bindE_def attempt_app query_first_ok upsert_rows_ok)
  moreover have "node_total_of n (s\<lparr>ntotals := ?nt\<rparr>) = Some (node_step (rx, tx) row)"
    using assms(2) node_total_id [OF assms(2)]
    by (simp add: node_total_of_def node_total_table.find_upsert_one node_total_upd_def)
  ultimately show ?thesis by blast
qed

lemma AccumulateNodeTraffic_run:
  assumes "faults s = []" "node_total_of n s = Some row"
  shows "\<exists>s'. forE rds (\<lambda>(rx, tx). AccumulateNodeTraffic n rx tx) s = (Inr (), s') \<and>
    node_total_of n s' = Some (fold node_step rds row)"
  using assms
proof (induction rds arbitrary: s row)
  case (Cons rd rds)
  obtain nt where "AccumulateNodeTraffic n (fst rd) (snd rd) s = (Inr (), s\<lparr>ntotals := nt\<rparr>)"
    "node_total_of n (s\<lparr>ntotals := nt\<rparr>) = Some (node_step rd row)"
    using AccumulateNodeTraffic_tracked [OF Cons.prems, of "fst rd" "snd rd"] by auto
  then show ?case
    using Cons.IH [of "s\<lparr>ntotals := nt\<rparr>" "node_step rd row"] Cons.prems(1)
    by (simp add: bindE_def case_prod_beta)
qed simp

subsection \<open>Properties\<close>

text \<open>A node's durable totals over any run of polls. Every poll succeeds when the database
  works; the total grows by the sum of the growths between consecutive readings, a restart (a
  smaller reading) adding nothing; so, as long as the relay does not restart, by exactly what its
  counter moved from the first baseline to the last reading.\<close>

theorem node_totals_run:
  assumes "faults s = []" "node_total_of n s = Some row"
  shows "\<exists>s' row'. forE rds (\<lambda>(rx, tx). AccumulateNodeTraffic n rx tx) s = (Inr (), s') \<and>
    node_total_of n s' = Some row' \<and>
    nt_rx_total row' = nt_rx_total row + growth gain (nt_last_rx row) (map fst rds) \<and>
    nt_tx_total row' = nt_tx_total row + growth gain (nt_last_tx row) (map snd rds) \<and>
    (sorted (nt_last_rx row # map fst rds) \<longrightarrow>
       nt_rx_total row' = nt_rx_total row + (last (nt_last_rx row # map fst rds) - nt_last_rx row))"
proof -
  obtain s' where s': "forE rds (\<lambda>(rx, tx). AccumulateNodeTraffic n rx tx) s = (Inr (), s')"
    "node_total_of n s' = Some (fold node_step rds row)"
    using AccumulateNodeTraffic_run [OF assms] by blast
  have "growth (\<lambda>a b. gain (f a) (f b)) b rds = growth gain (f b) (map f rds)"
    for f :: "u64 \<times> u64 \<Rightarrow> u64" and b by (induction rds arbitrary: b) auto
  moreover have "last (nt_last_rx row # map fst rds) = fst (last ((nt_last_rx row, nt_last_tx row) # rds))"
    by (simp add: last_map)
  ultimately show ?thesis
    using s' node_rx.total_run [of rds row] node_tx.total_run [of rds row] node_rx.total_sorted [of row rds]
    by (intro exI [of _ s'] exI [of _ "fold node_step rds row"]) auto
qed

theorem node_totals_run_witness:
  "\<exists>s' row'. forE [(150, 80), (10, 5), (30, 5)] (\<lambda>(rx, tx). AccumulateNodeTraffic ''n1'' rx tx)
       ((empty_store DriverSQLite 0)\<lparr>ntotals := [\<lparr>nt_node_id = ''n1'', nt_rx_total = 7,
          nt_tx_total = 0, nt_last_rx = 100, nt_last_tx = 70\<rparr>]\<rparr>) = (Inr (), s') \<and>
     node_total_of ''n1'' s' = Some row' \<and> nt_rx_total row' = 77 \<and> nt_tx_total row' = 10"
  using node_totals_run [of "(empty_store DriverSQLite 0)\<lparr>ntotals := [\<lparr>nt_node_id = ''n1'',
      nt_rx_total = 7, nt_tx_total = 0, nt_last_rx = 100, nt_last_tx = 70\<rparr>]\<rparr>" "''n1''"
      "\<lparr>nt_node_id = ''n1'', nt_rx_total = 7, nt_tx_total = 0, nt_last_rx = 100, nt_last_tx = 70\<rparr>"
      "[(150, 80), (10, 5), (30, 5)]"]
  by (auto simp: empty_store_def node_total_of_def gain_def)

lemma fold_flows:
  "map (fl_id_update (\<lambda>_. 0)) (flows (fold (\<lambda>rows s. s\<lparr>
     flows := flows s @ map (\<lambda>(i, r). r\<lparr>fl_id := i\<rparr>)
                            (zip [flows_seq s .. flows_seq s + int (length rows) - 1] rows),
     flows_seq := flows_seq s + int (length rows)\<rparr>) bs s)) =
   map (fl_id_update (\<lambda>_. 0)) (flows s @ concat bs)"
proof (induction bs arbitrary: s)
  case (Cons b bs)
  have "map (fl_id_update (\<lambda>_. 0) \<circ> (\<lambda>(i, r). r\<lparr>fl_id := i\<rparr>)) (zip xs b) =
      map (fl_id_update (\<lambda>_. 0)) b" if "length xs = length b" for xs :: "int list"
    using that by (induction xs b rule: list_induct2) simp_all
  then show ?case by (simp add: Cons.IH)
qed simp

text \<open>The live-flow snapshot of a node is never half-written. An error, wherever it happens,
  leaves all data as it was; otherwise the flows of the node are exactly the polled ones, in
  order, and those of other nodes are untouched (up to the generated ids).\<close>

theorem replace_flows_atomic:
  "case ReplaceFlows n rows s of
     (Inl _, s') \<Rightarrow> data s' = data s
   | (Inr _, s') \<Rightarrow> map (fl_id_update (\<lambda>_. 0)) (flows s') =
       map (fl_id_update (\<lambda>_. 0)) (filter (\<lambda>r. fl_node_id r \<noteq> n) (flows s) @ rows)"
proof (cases "ReplaceFlows n rows s")
  case (Pair r s')
  show ?thesis
  proof (cases r)
    case (Inl e)
    then show ?thesis using Pair transaction_InlD unfolding ReplaceFlows_def by fastforce
  next
    case (Inr u)
    then have "ReplaceFlows n rows s = (Inr u, s')" using Pair by simp
    then obtain s1 s2 where d: "data s1 = data s" "data s' = data s2" and
      m: "bindE (delete_rows flows flows_update (\<lambda>r. fl_node_id r = n)) (\<lambda>_.
            if rows = [] then ret () else forE (batches 100 rows) insert_flows) s1 = (Inr u, s2)"
      unfolding ReplaceFlows_def by (elim transaction_InrD)
    obtain q t where q: "delete_rows flows flows_update (\<lambda>r. fl_node_id r = n) s1 = (q, t)"
      by fastforce
    have bl: "blind (flows_update (filter (\<lambda>r. \<not> fl_node_id r = n)))" by (simp add: blind_def)
    obtain x where qx: "q = Inr x" using m q by (cases q) (simp_all add: bindE_def)
    have t: "data t = flows_update (filter (\<lambda>r. fl_node_id r \<noteq> n)) (data s)"
      using delete_rows_data [OF bl q] by (simp add: qx d(1))
    have f: "(if rows = [] then ret () else forE (batches 100 rows) insert_flows) t = (Inr (), s2)"
      using m by (simp add: bindE_def q qx)
    have flows_data: "flows (data x) = flows x" for x by (simp add: data_def)
    have "map (fl_id_update (\<lambda>_. 0)) (flows (data s2)) =
        map (fl_id_update (\<lambda>_. 0)) (filter (\<lambda>r. fl_node_id r \<noteq> n) (flows (data s)) @ rows)"
    proof (cases "rows = []")
      case True
      then show ?thesis using f t by simp
    next
      case False
      then have "data s2 = fold (\<lambda>rows s. s\<lparr>
          flows := flows s @ map (\<lambda>(i, r). r\<lparr>fl_id := i\<rparr>)
                     (zip [flows_seq s .. flows_seq s + int (length rows) - 1] rows),
          flows_seq := flows_seq s + int (length rows)\<rparr>) (batches 100 rows) (data t)"
        using f by (intro forE_exec_data) (simp_all add: blind_def insert_flows_def [abs_def])
      then show ?thesis by (simp only: fold_flows t) simp
    qed
    then show ?thesis using Pair Inr d(2) by (simp add: flows_data) (metis flows_data)
  qed
qed

text \<open>The connection log never loses the first sighting. Whatever batch of flows is recorded,
  and whether or not the database accepts it, a connection already in the log stays in it with
  the same first-seen time and id.\<close>

theorem record_connections_keeps_first_seen:
  assumes "find (\<lambda>r. cn_key r = k) (connections s) = Some old"
  shows "\<exists>r. find (\<lambda>r. cn_key r = k) (connections (snd (RecordConnections rows s))) = Some r \<and>
    cn_first_seen r = cn_first_seen old \<and> cn_id r = cn_id old"
proof -
  have "\<exists>r. find (\<lambda>r. cn_key r = k) (fold (upsert_one cn_key conn_upd) rs (connections s)) = Some r \<and>
      (cn_first_seen r, cn_id r) = (cn_first_seen old, cn_id old)" for rs
    by (rule conn_table.find_upsert_keeps [OF _ assms]) (simp add: conn_upd_def)
  then show ?thesis
    using assms
    by (auto simp: RecordConnections_def bindE_def upsert_rows_def stmt_def Let_def split: list.splits)
qed

theorem record_connections_keeps_first_seen_witness:
  "\<exists>r. find (\<lambda>r. cn_key r = (''n1'', ''s'', 1, 5)) (connections (snd (RecordConnections
      [\<lparr>cn_id = 0, cn_node_id = ''n1'', cn_session_id = ''s'', cn_stream_id = 1, cn_started_unix = 5,
        cn_client_ip = ''ip'', cn_remote = ''r'', cn_protocol = ''p'', cn_rx_bytes = 9, cn_tx_bytes = 9,
        cn_first_seen = 0, cn_last_seen = 0\<rparr>]
      ((empty_store DriverSQLite 9000)\<lparr>connections := [\<lparr>cn_id = 1, cn_node_id = ''n1'',
        cn_session_id = ''s'', cn_stream_id = 1, cn_started_unix = 5, cn_client_ip = ''ip'',
        cn_remote = ''r'', cn_protocol = ''p'', cn_rx_bytes = 1, cn_tx_bytes = 1, cn_first_seen = 6,
        cn_last_seen = 6\<rparr>]\<rparr>)))) = Some r \<and> cn_first_seen r = 6"
proof -
  let ?old = "\<lparr>cn_id = 1, cn_node_id = ''n1'', cn_session_id = ''s'', cn_stream_id = 1,
    cn_started_unix = 5, cn_client_ip = ''ip'', cn_remote = ''r'', cn_protocol = ''p'',
    cn_rx_bytes = 1, cn_tx_bytes = 1, cn_first_seen = 6, cn_last_seen = 6\<rparr>"
  have "find (\<lambda>r. cn_key r = (''n1'', ''s'', 1, 5))
      (connections ((empty_store DriverSQLite 9000)\<lparr>connections := [?old]\<rparr>)) = Some ?old"
    by (simp add: cn_key_def)
  from record_connections_keeps_first_seen [OF this] show ?thesis by fastforce
qed

end
