(* ===== verification/Admins.thy ===== *)
theory Admins
  imports Traffic
begin

text \<open>
  Accounts: \<^verbatim>\<open>internal/storage/admins.go\<close>, \<^verbatim>\<open>account.go\<close>, \<^verbatim>\<open>sessions.go\<close>, \<^verbatim>\<open>blobs.go\<close> and
  \<^verbatim>\<open>adminvklinks.go\<close>. Content hashing (SHA-512/256 in hex) is the argument \<open>hash\<close> and the picture
  generator of \<^verbatim>\<open>internal/avatarpic\<close> the argument \<open>generate\<close> of the operations that use them.
  A zero \<^verbatim>\<open>time.Time\<close> is \<^term>\<open>None\<close>.
\<close>

definition RoleOwner :: string where "RoleOwner = ''owner''"
definition RoleAdmin :: string where "RoleAdmin = ''admin''"
definition RoleUser :: string where "RoleUser = ''user''"

definition RoleForPanel :: "bool \<Rightarrow> string" where
  "RoleForPanel panelAccess = (if panelAccess then RoleAdmin else RoleUser)"

record admin =
  a_id :: int
  a_username :: string
  a_password_hash :: string
  a_must_change_password :: bool
  a_role :: string
  a_panel_access :: bool
  a_panel_requested_at :: "int option"
  a_last_login_at :: int
  a_avatar_version :: int
  a_created_at :: int
  a_updated_at :: int

definition toStorageAdmin :: "admin_row \<Rightarrow> admin" where
  "toStorageAdmin m = \<lparr>
     a_id = adm_id m, a_username = adm_username m, a_password_hash = adm_password_hash m,
     a_must_change_password = (adm_must_change_password m \<noteq> 0),
     a_role = (if adm_role m = [] then RoleForPanel (adm_panel_access m \<noteq> 0) else adm_role m),
     a_panel_access = (adm_panel_access m \<noteq> 0),
     a_panel_requested_at =
       (if adm_panel_requested_at m > 0 then Some (adm_panel_requested_at m) else None),
     a_last_login_at = adm_last_login_at m, a_avatar_version = adm_avatar_version m,
     a_created_at = adm_created_at m, a_updated_at = adm_updated_at m\<rparr>"

definition admin_by_id :: "int \<Rightarrow> store \<Rightarrow> admin_row option" where
  "admin_by_id i s = find (\<lambda>r. adm_id r = i) (admins s)"

definition update_admin :: "int \<Rightarrow> (admin_row \<Rightarrow> admin_row) \<Rightarrow> nat db" where
  "update_admin i f = update_rows admins admins_update (\<lambda>r. adm_id r = i) f"

text \<open>An \<^verbatim>\<open>UPDATE\<close> of one account that sets \<^verbatim>\<open>updated_at\<close> and reports only the error.\<close>

definition touch_admin :: "int \<Rightarrow> (admin_row \<Rightarrow> admin_row) \<Rightarrow> unit db" where
  "touch_admin i f = bindE (asks clock) (\<lambda>now.
     bindE (update_admin i (\<lambda>r. (f r)\<lparr>adm_updated_at := now\<rparr>)) (\<lambda>_. ret ()))"

subsection \<open>Blobs\<close>

definition blob_of :: "string \<Rightarrow> store \<Rightarrow> blob_row option" where
  "blob_of h s = find (\<lambda>b. bl_hash b = h) (blobs s)"

definition PutBlob :: "(bytes \<Rightarrow> string) \<Rightarrow> string \<Rightarrow> bytes \<Rightarrow> string db" where
  "PutBlob hash mime d =
     (if d = [] then fail ErrNotFound
      else let h = hash d in
      bindE (attempt (query_first (blob_of h))) (\<lambda>r.
      case r of
        Inr _ \<Rightarrow> ret h
      | Inl _ \<Rightarrow>
          bindE (asks clock) (\<lambda>now.
          bindE (attempt (insert_row blobs_update (\<lambda>s. h \<notin> bl_hash ` set (blobs s))
                   \<lparr>bl_hash = h, bl_mime = mime, bl_data = d, bl_size = int (length d),
                    bl_created_at = now\<rparr>)) (\<lambda>r2.
          case r2 of
            Inr _ \<Rightarrow> ret h
          | Inl e \<Rightarrow>
              bindE (attempt (query_first (blob_of h))) (\<lambda>r3.
              case r3 of Inr _ \<Rightarrow> ret h | Inl _ \<Rightarrow> fail e)))))"

definition GetBlob :: "string \<Rightarrow> (string \<times> bytes) db" where
  "GetBlob h =
     (if h = [] then fail ErrNotFound
      else bindE (attempt (query_first (blob_of h))) (\<lambda>r.
      case r of Inl _ \<Rightarrow> fail ErrNotFound | Inr b \<Rightarrow> ret (bl_mime b, bl_data b)))"

text \<open>The result of \<^verbatim>\<open>dropBlobIfOrphan\<close> is nothing: every error ends it.\<close>

definition dropBlobIfOrphan :: "string \<Rightarrow> unit db" where
  "dropBlobIfOrphan h =
     (if h = [] then ret ()
      else bindE (attempt (select (\<lambda>s. length (filter (\<lambda>r. adm_avatar_blob r = h) (admins s))))) (\<lambda>r.
      case r of
        Inl _ \<Rightarrow> ret ()
      | Inr refs \<Rightarrow>
          if refs > 0 then ret ()
          else bindE (attempt (delete_rows blobs blobs_update (\<lambda>b. bl_hash b = h))) (\<lambda>_. ret ())))"

subsection \<open>Avatars\<close>

definition avatarBlobOf :: "int \<Rightarrow> string db" where
  "avatarBlobOf i = bindE (attempt (query_first (admin_by_id i))) (\<lambda>r.
     ret (case r of Inl _ \<Rightarrow> [] | Inr m \<Rightarrow> adm_avatar_blob m))"

definition SetAdminAvatar :: "(bytes \<Rightarrow> string) \<Rightarrow> int \<Rightarrow> string \<Rightarrow> bytes \<Rightarrow> int db" where
  "SetAdminAvatar hash i mime d =
     bindE (PutBlob hash mime d) (\<lambda>h.
     bindE (avatarBlobOf i) (\<lambda>previous.
     bindE (touch_admin i (\<lambda>r. r\<lparr>adm_avatar_mime := mime, adm_avatar_blob := h,
              adm_avatar_png := None, adm_avatar_version := adm_avatar_version r + 1\<rparr>)) (\<lambda>_.
     bindE (if previous \<noteq> h then dropBlobIfOrphan previous else ret ()) (\<lambda>_.
     bindE (query_first (admin_by_id i)) (\<lambda>m.
     ret (adm_avatar_version m))))))"

definition GetAdminAvatar :: "int \<Rightarrow> (string \<times> bytes \<times> int) db" where
  "GetAdminAvatar i =
     bindE (query_first (admin_by_id i)) (\<lambda>m.
     let old = (adm_avatar_mime m, (case adm_avatar_png m of None \<Rightarrow> [] | Some p \<Rightarrow> p),
                adm_avatar_version m) in
     if adm_avatar_blob m = [] then ret old
     else bindE (attempt (GetBlob (adm_avatar_blob m))) (\<lambda>r.
       ret (case r of
              Inl _ \<Rightarrow> old
            | Inr (mime, d) \<Rightarrow>
                (if mime = [] then adm_avatar_mime m else mime, d, adm_avatar_version m))))"

definition ClearAdminAvatar :: "int \<Rightarrow> unit db" where
  "ClearAdminAvatar i =
     bindE (avatarBlobOf i) (\<lambda>previous.
     bindE (touch_admin i (\<lambda>r. r\<lparr>adm_avatar_mime := [], adm_avatar_png := None,
              adm_avatar_blob := [], adm_avatar_version := adm_avatar_version r + 1\<rparr>)) (\<lambda>_.
     dropBlobIfOrphan previous))"

text \<open>\<^verbatim>\<open>HasAvatar\<close> of \<^verbatim>\<open>account.go\<close> looks at the column that held pictures before \<^verbatim>\<open>blobs\<close>.\<close>

definition HasAvatar :: "int \<Rightarrow> bool db" where
  "HasAvatar i = bindE (query_first (admin_by_id i)) (\<lambda>m.
     ret (case adm_avatar_png m of None \<Rightarrow> False | Some p \<Rightarrow> p \<noteq> []))"

subsection \<open>Accounts\<close>

definition new_admin_row ::
  "string \<Rightarrow> string \<Rightarrow> bool \<Rightarrow> string \<Rightarrow> bool \<Rightarrow> int \<Rightarrow> admin_row" where
  "new_admin_row username passwordHash mustChange role panelAccess now = \<lparr>
     adm_id = 0, adm_username = username, adm_password_hash = passwordHash,
     adm_must_change_password = bool_to_int mustChange, adm_role = role,
     adm_panel_access = bool_to_int panelAccess, adm_last_login_at = 0, adm_avatar_mime = [],
     adm_avatar_png = None, adm_avatar_blob = [], adm_avatar_version = 0, adm_vk_links = [],
     adm_suspended_at = 0, adm_suspended_reason = [], adm_suspended_by_root = 0,
     adm_panel_requested_at = 0, adm_account_subject = None, adm_account_name = [],
     adm_access_token = [], adm_refresh_token = [], adm_token_expires = 0,
     adm_created_at = now, adm_updated_at = now\<rparr>"

text \<open>\<^verbatim>\<open>Create(&row)\<close>: the username is unique, the id the next of the sequence.\<close>

definition insert_admin :: "admin_row \<Rightarrow> admin_row db" where
  "insert_admin row = stmt (\<lambda>s.
     if adm_username row \<in> adm_username ` set (admins s) then (Inl ErrConstraint, s)
     else let row' = row\<lparr>adm_id := admins_seq s\<rparr> in
       (Inr row', s\<lparr>admins := admins s @ [row'], admins_seq := admins_seq s + 1\<rparr>))"

definition CreateAccount ::
  "(bytes \<Rightarrow> string) \<Rightarrow> (string \<Rightarrow> bytes option) \<Rightarrow>
   string \<Rightarrow> string \<Rightarrow> bool \<Rightarrow> string \<Rightarrow> bool \<Rightarrow> admin db" where
  "CreateAccount hash generate username passwordHash mustChange role panelAccess =
     (let role' = (if role = [] then RoleForPanel panelAccess else role) in
      bindE (asks clock) (\<lambda>now.
      bindE (insert_admin (new_admin_row username passwordHash mustChange role' panelAccess now)) (\<lambda>row.
      case generate username of
        None \<Rightarrow> ret (toStorageAdmin row)
      | Some picture \<Rightarrow>
          if picture = [] then ret (toStorageAdmin row)
          else bindE (attempt (SetAdminAvatar hash (adm_id row) ''image/png'' picture)) (\<lambda>r.
            ret (toStorageAdmin (case r of
                   Inl _ \<Rightarrow> row
                 | Inr _ \<Rightarrow> row\<lparr>adm_avatar_version := adm_avatar_version row + 1\<rparr>))))))"

definition CreateAdmin ::
  "(bytes \<Rightarrow> string) \<Rightarrow> (string \<Rightarrow> bytes option) \<Rightarrow> string \<Rightarrow> string \<Rightarrow> bool \<Rightarrow> string \<Rightarrow> admin db" where
  "CreateAdmin hash generate username passwordHash mustChange role =
     CreateAccount hash generate username passwordHash mustChange role True"

definition FindAdminByUsername :: "string \<Rightarrow> admin db" where
  "FindAdminByUsername username =
     bindE (find_row (\<lambda>s. find (\<lambda>r. adm_username r = username) (admins s)))
       (\<lambda>m. ret (toStorageAdmin m))"

definition FindAdminByID :: "int \<Rightarrow> admin db" where
  "FindAdminByID i = bindE (find_row (admin_by_id i)) (\<lambda>m. ret (toStorageAdmin m))"

definition ListAdmins :: "admin list db" where
  "ListAdmins = bindE (select (\<lambda>s. sort_key adm_created_at (admins s)))
     (\<lambda>ms. ret (map toStorageAdmin ms))"

definition UsernamesByIDs :: "int list \<Rightarrow> (int \<times> string) list db" where
  "UsernamesByIDs ids =
     (if ids = [] then ret []
      else select (\<lambda>s. map (\<lambda>m. (adm_id m, adm_username m))
                         (filter (\<lambda>m. adm_id m \<in> set ids) (admins s))))"

definition RequestPanelAccess :: "int \<Rightarrow> unit db" where
  "RequestPanelAccess i = bindE (asks clock) (\<lambda>now.
     bindE (update_rows admins admins_update (\<lambda>r. adm_id r = i \<and> adm_panel_requested_at r = 0)
              (\<lambda>r. r\<lparr>adm_panel_requested_at := now, adm_updated_at := now\<rparr>)) (\<lambda>_. ret ()))"

definition ClearPanelRequest :: "int \<Rightarrow> unit db" where
  "ClearPanelRequest i = touch_admin i (\<lambda>r. r\<lparr>adm_panel_requested_at := 0\<rparr>)"

definition UpdateAdminPassword :: "int \<Rightarrow> string \<Rightarrow> bool \<Rightarrow> unit db" where
  "UpdateAdminPassword i passwordHash requireChange = touch_admin i
     (\<lambda>r. r\<lparr>adm_password_hash := passwordHash, adm_must_change_password := bool_to_int requireChange\<rparr>)"

definition UpdateAdminRole :: "int \<Rightarrow> string \<Rightarrow> unit db" where
  "UpdateAdminRole i role = touch_admin i (\<lambda>r. r\<lparr>adm_role := role\<rparr>)"

definition MarkAdminLogin :: "int \<Rightarrow> unit db" where
  "MarkAdminLogin i = bindE (asks clock) (\<lambda>now.
     bindE (update_admin i (\<lambda>r. r\<lparr>adm_last_login_at := now\<rparr>)) (\<lambda>_. ret ()))"

definition SetPanelAccess :: "int \<Rightarrow> bool \<Rightarrow> unit db" where
  "SetPanelAccess i allowed = bindE (asks clock) (\<lambda>now.
     bindE (update_rows admins admins_update (\<lambda>r. adm_id r = i \<and> adm_role r \<noteq> RoleOwner)
              (\<lambda>r. r\<lparr>adm_panel_access := bool_to_int allowed, adm_role := RoleForPanel allowed,
                     adm_updated_at := now\<rparr>)) (\<lambda>_. ret ()))"

definition DeleteAdmin :: "int \<Rightarrow> unit db" where
  "DeleteAdmin i = bindE (delete_admins (\<lambda>r. adm_id r = i)) require_affected"

definition CountAdmins :: "int db" where
  "CountAdmins = select (\<lambda>s. int (length (admins s)))"

definition FirstAdminID :: "int db" where
  "FirstAdminID =
     bindE (select (\<lambda>s. if admins s = [] then 0 else Min (adm_id ` set (admins s)))) (\<lambda>i.
     if i = 0 then fail ErrNotFound else ret i)"

definition EnsureAtLeastOneOwner :: "unit db" where
  "EnsureAtLeastOneOwner =
     bindE (select (\<lambda>s. length (filter (\<lambda>r. adm_role r = RoleOwner) (admins s)))) (\<lambda>count.
     if count > 0 then ret ()
     else bindE (attempt FirstAdminID) (\<lambda>r.
     case r of
       Inl ErrNotFound \<Rightarrow> ret ()
     | Inl e \<Rightarrow> fail e
     | Inr i \<Rightarrow> UpdateAdminRole i RoleOwner))"

subsection \<open>The account at the identity provider\<close>

definition FindAdminByAccount :: "string \<Rightarrow> admin db" where
  "FindAdminByAccount subject =
     (let subject' = trim_space subject in
      if subject' = [] then fail ErrNotFound
      else bindE (find_row (\<lambda>s. find (\<lambda>r. adm_account_subject r = Some subject') (admins s)))
             (\<lambda>m. ret (toStorageAdmin m)))"

definition LinkAccount :: "int \<Rightarrow> string \<Rightarrow> string \<Rightarrow> unit db" where
  "LinkAccount adminID subject name =
     (let subject' = trim_space subject in
      if subject' = [] then fail ErrNotFound
      else bindE (attempt (FindAdminByAccount subject')) (\<lambda>r.
      case r of
        Inr existing \<Rightarrow> if a_id existing \<noteq> adminID then fail ErrAccountTaken else ret ()
      | Inl ErrNotFound \<Rightarrow>
          bindE (asks clock) (\<lambda>now.
          bindE (update_admin adminID (\<lambda>r. r\<lparr>adm_account_subject := Some subject',
                   adm_account_name := trim_space name, adm_updated_at := now\<rparr>))
            require_affected)
      | Inl e \<Rightarrow> fail e))"

definition UnlinkAccount :: "int \<Rightarrow> unit db" where
  "UnlinkAccount adminID = touch_admin adminID
     (\<lambda>r. r\<lparr>adm_account_subject := None, adm_account_name := []\<rparr>)"

definition AccountNameFor :: "int \<Rightarrow> string db" where
  "AccountNameFor adminID = bindE (query_first (admin_by_id adminID)) (\<lambda>m.
     ret (case adm_account_subject m of
            None \<Rightarrow> []
          | Some subject \<Rightarrow> if adm_account_name m \<noteq> [] then adm_account_name m else subject))"

definition HasAccount :: "int \<Rightarrow> bool db" where
  "HasAccount adminID = bindE (query_first (admin_by_id adminID)) (\<lambda>m.
     ret (case adm_account_subject m of None \<Rightarrow> False | Some subject \<Rightarrow> trim_space subject \<noteq> []))"

record account_tokens =
  at_access :: string
  at_refresh :: string
  at_expires_at :: int

definition SaveAccountTokens :: "int \<Rightarrow> account_tokens \<Rightarrow> unit db" where
  "SaveAccountTokens adminID tokens = touch_admin adminID (\<lambda>r.
     let r1 = r\<lparr>adm_access_token := at_access tokens, adm_token_expires := at_expires_at tokens\<rparr>
     in if trim_space (at_refresh tokens) \<noteq> [] then r1\<lparr>adm_refresh_token := at_refresh tokens\<rparr> else r1)"

definition AccountTokensOf :: "int \<Rightarrow> account_tokens db" where
  "AccountTokensOf adminID = bindE (query_first (admin_by_id adminID)) (\<lambda>m.
     ret \<lparr>at_access = adm_access_token m, at_refresh = adm_refresh_token m,
          at_expires_at = adm_token_expires m\<rparr>)"

definition AccountSubjectOf :: "int \<Rightarrow> string db" where
  "AccountSubjectOf adminID = bindE (query_first (admin_by_id adminID)) (\<lambda>m.
     ret (case adm_account_subject m of None \<Rightarrow> [] | Some subject \<Rightarrow> subject))"

subsection \<open>Sessions\<close>

record admin_session =
  s_id :: string
  s_admin_id :: int
  s_expires_at :: int
  s_created_at :: int

text \<open>The time to live is in milliseconds, the resolution the column keeps.\<close>

definition CreateSession :: "string \<Rightarrow> int \<Rightarrow> int \<Rightarrow> admin_session db" where
  "CreateSession i adminID ttl =
     bindE (asks clock) (\<lambda>now.
     bindE (insert_row sessions_update
              (\<lambda>s. i \<notin> se_id ` set (sessions s) \<and> fk_admin adminID s)
              \<lparr>se_id = i, se_admin_id = adminID, se_expires_at = now + ttl, se_created_at = now\<rparr>) (\<lambda>_.
     ret \<lparr>s_id = i, s_admin_id = adminID, s_expires_at = now + ttl, s_created_at = now\<rparr>))"

definition session_of :: "string \<Rightarrow> store \<Rightarrow> session_row option" where
  "session_of i s = find (\<lambda>r. se_id r = i) (sessions s)"

definition LookupSession :: "string \<Rightarrow> admin_session db" where
  "LookupSession i =
     bindE (find_row (session_of i)) (\<lambda>m.
     bindE (asks clock) (\<lambda>now.
     if now > se_expires_at m then fail ErrNotFound
     else ret \<lparr>s_id = se_id m, s_admin_id = se_admin_id m, s_expires_at = se_expires_at m,
               s_created_at = se_created_at m\<rparr>))"

definition DeleteSession :: "string \<Rightarrow> unit db" where
  "DeleteSession i = bindE (delete_rows sessions sessions_update (\<lambda>r. se_id r = i)) (\<lambda>_. ret ())"

definition PurgeExpiredSessions :: "unit db" where
  "PurgeExpiredSessions = bindE (asks clock) (\<lambda>now.
     bindE (delete_rows sessions sessions_update (\<lambda>r. se_expires_at r < now)) (\<lambda>_. ret ()))"

subsection \<open>VK links\<close>

fun dedup_links :: "string list \<Rightarrow> string list \<Rightarrow> string list" where
  "dedup_links seen [] = []"
| "dedup_links seen (l # ls) =
     (let l' = trim_space l in
      if l' = [] \<or> l' \<in> set seen then dedup_links seen ls
      else l' # dedup_links (l' # seen) ls)"

definition dedupVKLinks :: "string list \<Rightarrow> string list" where
  "dedupVKLinks links = dedup_links [] links"

definition splitVKLinks :: "string \<Rightarrow> string list" where
  "splitVKLinks joined =
     (if trim_space joined = [] then [] else dedupVKLinks (split_on (CHR 0x0A) joined))"

definition GetAdminVKLinks :: "int \<Rightarrow> string list db" where
  "GetAdminVKLinks adminID =
     bindE (query_first (admin_by_id adminID)) (\<lambda>m. ret (splitVKLinks (adm_vk_links m)))"

definition SetAdminVKLinks :: "int \<Rightarrow> string list \<Rightarrow> unit db" where
  "SetAdminVKLinks adminID links =
     bindE (update_admin adminID
              (\<lambda>r. r\<lparr>adm_vk_links := join_with [CHR 0x0A] (dedupVKLinks links)\<rparr>)) (\<lambda>_. ret ())"

subsection \<open>Invariant\<close>

lemma pres_update_admins:
  assumes "\<And>r. P r \<Longrightarrow> adm_id (f r) = adm_id r" "\<And>r. P r \<Longrightarrow> adm_username (f r) = adm_username r"
  shows "preserves wf_store (update_rows admins admins_update P f)"
  by (rule pres_update_rows) (simp_all add: wf_defs assms)

lemma pres_update_admin [pres]:
  "(\<And>r. adm_id (f r) = adm_id r) \<Longrightarrow> (\<And>r. adm_username (f r) = adm_username r) \<Longrightarrow>
     preserves wf_store (update_admin i f)"
  unfolding update_admin_def by (rule pres_update_admins)

lemma pres_touch_admin [pres]:
  "(\<And>r. adm_id (f r) = adm_id r) \<Longrightarrow> (\<And>r. adm_username (f r) = adm_username r) \<Longrightarrow>
     preserves wf_store (touch_admin i f)"
  unfolding touch_admin_def by (intro pres) simp_all

lemma pres_insert_admin [pres]: "preserves wf_store (insert_admin row)"
  unfolding insert_admin_def
  by (rule pres_stmt)
     (auto simp: Let_def wf_defs refers_def orefers_def intro: less_trans)

lemma pres_PutBlob [pres]: "preserves wf_store (PutBlob hash mime d)"
  unfolding PutBlob_def Let_def
  by (intro pres pres_insert_row fault_free_wf) (auto intro!: wf_put simp: wf_get)

lemma pres_dropBlobIfOrphan [pres]: "preserves wf_store (dropBlobIfOrphan h)"
  unfolding dropBlobIfOrphan_def
  by (intro pres pres_delete_rows fault_free_wf) (auto intro!: wf_put simp: wf_get)

lemma pres_avatars [pres]:
  "preserves wf_store (avatarBlobOf i)"
  "preserves wf_store (SetAdminAvatar hash i mime d)"
  "preserves wf_store (ClearAdminAvatar i)"
  unfolding avatarBlobOf_def SetAdminAvatar_def ClearAdminAvatar_def
  by (intro pres fault_free_wf; simp)+

lemma pres_CreateAccount [pres]: "preserves wf_store (CreateAccount hash gen u p m r a)"
  unfolding CreateAccount_def Let_def by (intro pres)

lemma pres_admin_updates [pres]:
  "preserves wf_store (RequestPanelAccess i)" "preserves wf_store (ClearPanelRequest i)"
  "preserves wf_store (UpdateAdminPassword i p b)" "preserves wf_store (UpdateAdminRole i r)"
  "preserves wf_store (MarkAdminLogin i)" "preserves wf_store (SetPanelAccess i b)"
  "preserves wf_store (DeleteAdmin i)" "preserves wf_store (UnlinkAccount i)"
  "preserves wf_store (SaveAccountTokens i tk)" "preserves wf_store (SetAdminVKLinks i ls)"
  unfolding RequestPanelAccess_def ClearPanelRequest_def UpdateAdminPassword_def
    UpdateAdminRole_def MarkAdminLogin_def SetPanelAccess_def DeleteAdmin_def UnlinkAccount_def
    SaveAccountTokens_def SetAdminVKLinks_def Let_def
  by (intro pres pres_update_admins; simp)+

lemma pres_EnsureAtLeastOneOwner [pres]: "preserves wf_store EnsureAtLeastOneOwner"
  unfolding EnsureAtLeastOneOwner_def FirstAdminID_def
  by (intro pres fault_free_wf; simp split: error.split)

lemma pres_LinkAccount [pres]: "preserves wf_store (LinkAccount i sub name)"
  unfolding LinkAccount_def FindAdminByAccount_def Let_def
  by (intro pres fault_free_wf; simp split: error.split; intro impI conjI pres; simp)

lemma pres_CreateSession [pres]: "preserves wf_store (CreateSession i a ttl)"
  unfolding CreateSession_def
  by (intro pres pres_insert_row fault_free_wf) (auto intro!: wf_put simp: wf_get fk_ids)

lemma pres_session_deletes [pres]:
  "preserves wf_store (DeleteSession i)" "preserves wf_store PurgeExpiredSessions"
  unfolding DeleteSession_def PurgeExpiredSessions_def
  by (intro pres pres_delete_rows; auto intro!: wf_put simp: wf_get)+

subsection \<open>Avatars resolve\<close>

definition blob_present :: "string \<Rightarrow> store \<Rightarrow> bool" where
  "blob_present h s \<longleftrightarrow> h \<in> bl_hash ` set (blobs s)"

text \<open>Every picture an account refers to is stored.\<close>

definition avatars_ok :: "store \<Rightarrow> bool" where
  "avatars_ok s \<longleftrightarrow>
     (\<forall>r \<in> set (admins s). adm_avatar_blob r \<noteq> [] \<longrightarrow> blob_present (adm_avatar_blob r) s)"

lemma fault_free_avatars [simp]:
  "fault_free avatars_ok" "fault_free (blob_present h)"
  "fault_free (\<lambda>s. avatars_ok s \<and> blob_present h s)"
  by (simp_all add: fault_free_def avatars_ok_def blob_present_def)

lemma blob_of_present: "blob_of h s = Some b \<Longrightarrow> blob_present h s"
  by (auto simp: blob_of_def blob_present_def find_Some_iff)

lemma avatars_ok_insert_blob:
  "avatars_ok s \<Longrightarrow> avatars_ok (blobs_update (\<lambda>rs. rs @ [b]) s)"
  by (auto simp: avatars_ok_def blob_present_def)

lemma PutBlob_present:
  "ensures avatars_ok (PutBlob hash mime d) (\<lambda>h s. avatars_ok s \<and> blob_present h s) (\<lambda>_. avatars_ok)"
  unfolding PutBlob_def Let_def
  by (intro hoare ensures_bindE [where R = "\<lambda>r s. avatars_ok s \<and>
        (\<forall>b. r = Inr b \<longrightarrow> blob_present (hash d) s)"] ensures_attempt
      ensures_bindE [where R = "\<lambda>(now :: int). avatars_ok"]
      ensures_query_first ensures_insert_row)
     (auto simp: blob_of_present avatars_ok_insert_blob, simp add: blob_present_def)

text \<open>Dropping an orphan takes no picture from an account, and never another one than asked for.\<close>

lemma dropBlobIfOrphan_avatars: "preserves avatars_ok (dropBlobIfOrphan h)"
proof -
  have 1: "ensures avatars_ok (attempt (select (\<lambda>s. length (filter (\<lambda>r. adm_avatar_blob r = h) (admins s)))))
      (\<lambda>r s. avatars_ok s \<and> (r = Inr 0 \<longrightarrow> (\<forall>a \<in> set (admins s). adm_avatar_blob a \<noteq> h))) E" for E
    by (intro ensures_attempt ensures_select) (auto simp: filter_empty_conv)
  have "ensures avatars_ok (dropBlobIfOrphan h) (\<lambda>_. avatars_ok) (\<lambda>_. avatars_ok)"
    unfolding dropBlobIfOrphan_def
    by (intro hoare ensures_bindE [OF 1] ensures_attempt
        ensures_bindE [where R = "\<lambda>(r :: error + nat). avatars_ok"] ensures_delete_rows)
       (auto simp: fault_free_def avatars_ok_def blob_present_def image_iff)
  then show ?thesis by (simp only: preserves_ensures)
qed

lemma ensures_touch_avatar:
  assumes "\<And>r. adm_avatar_blob (f r) = h" "h = [] \<or> h = g"
  shows "ensures (\<lambda>s. avatars_ok s \<and> (h \<noteq> [] \<longrightarrow> blob_present g s)) (touch_admin i f)
     (\<lambda>_. avatars_ok) (\<lambda>_. avatars_ok)"
  unfolding touch_admin_def update_admin_def
  by (intro ensures_bindE [where R = "\<lambda>(now :: int) s. avatars_ok s \<and> (h \<noteq> [] \<longrightarrow> blob_present g s)"]
      ensures_bindE [where R = "\<lambda>(n :: nat). avatars_ok"] hoare ensures_update_rows)
     (use assms in \<open>auto simp: fault_free_def avatars_ok_def blob_present_def set_update_where\<close>)

lemma avatars_SetAdminAvatar: "preserves avatars_ok (SetAdminAvatar hash i mime d)"
proof -
  have p: "ensures (\<lambda>s. avatars_ok s \<and> blob_present h s) (avatarBlobOf i)
      (\<lambda>_ s. avatars_ok s \<and> blob_present h s) (\<lambda>_. avatars_ok)" for h
    unfolding avatarBlobOf_def
    by (intro ensures_bindE [where R = "\<lambda>(r :: error + admin_row) s. avatars_ok s \<and> blob_present h s"]
        ensures_attempt ensures_query_first hoare) simp_all
  have d: "ensures avatars_ok (dropBlobIfOrphan h) (\<lambda>_. avatars_ok) (\<lambda>_. avatars_ok)" for h
    using dropBlobIfOrphan_avatars by (simp only: preserves_ensures)
  have "ensures avatars_ok (SetAdminAvatar hash i mime d) (\<lambda>_. avatars_ok) (\<lambda>_. avatars_ok)"
    unfolding SetAdminAvatar_def
    apply (rule ensures_bindE [OF PutBlob_present], rule ensures_bindE [OF p])
    subgoal for h previous
      by (rule ensures_bindE [OF ensures_weaken [OF ensures_touch_avatar [where h = h and g = h]]];
          (intro ensures_bindE [where R = "\<lambda>(u :: unit). avatars_ok"] hoare d
             ensures_bindE [where R = "\<lambda>(m :: admin_row). avatars_ok"] ensures_query_first)?;
          simp add: d)
    done
  then show ?thesis by (simp only: preserves_ensures)
qed

lemma avatars_ClearAdminAvatar: "preserves avatars_ok (ClearAdminAvatar i)"
proof -
  have d: "ensures avatars_ok (dropBlobIfOrphan h) (\<lambda>_. avatars_ok) (\<lambda>_. avatars_ok)" for h
    using dropBlobIfOrphan_avatars by (simp only: preserves_ensures)
  have "ensures avatars_ok (ClearAdminAvatar i) (\<lambda>_. avatars_ok) (\<lambda>_. avatars_ok)"
    unfolding ClearAdminAvatar_def avatarBlobOf_def
    by (intro ensures_bindE [where R = "\<lambda>(h :: string). avatars_ok"]
        ensures_bindE [where R = "\<lambda>(r :: error + admin_row). avatars_ok"]
        ensures_bindE [where R = "\<lambda>(u :: unit). avatars_ok"] ensures_attempt ensures_query_first hoare d
        ensures_weaken [OF ensures_touch_avatar [where h = "[]" and g = "[]"]]) simp_all
  then show ?thesis by (simp only: preserves_ensures)
qed

lemma avatars_CreateAccount: "preserves avatars_ok (CreateAccount hash gen u p m r a)"
proof -
  have i: "preserves avatars_ok (insert_admin (new_admin_row u p m r a n))" for n r
    unfolding insert_admin_def
    by (rule pres_stmt) (auto simp: Let_def avatars_ok_def blob_present_def new_admin_row_def)
  show ?thesis
    unfolding CreateAccount_def Let_def by (intro pres i avatars_SetAdminAvatar)
qed

lemma avatars_DeleteAdmin: "preserves avatars_ok (DeleteAdmin i)"
proof -
  have "preserves avatars_ok (delete_admins P)" for P
    unfolding delete_admins_def
    by (rule pres_stmt)
       (auto simp: avatars_ok_def blob_present_def remove_admins_def cascade_admins_def
          remove_clients_def cascade_clients_def drop_client_rows_def)
  then show ?thesis unfolding DeleteAdmin_def by (intro pres)
qed

subsection \<open>Links\<close>

lemma set_dedup_links:
  "set (dedup_links seen ls) = {w. \<exists>l \<in> set ls. w = trim_space l \<and> w \<noteq> []} - set seen"
  by (induction seen ls rule: dedup_links.induct) (auto simp: Let_def)

lemma distinct_dedup_links: "distinct (dedup_links seen ls)"
  by (induction seen ls rule: dedup_links.induct) (auto simp: Let_def set_dedup_links)

lemma dedup_links_fixed:
  "distinct ws \<Longrightarrow> \<forall>w \<in> set ws. trim_space w = w \<and> w \<noteq> [] \<Longrightarrow> set ws \<inter> set seen = {} \<Longrightarrow>
     dedup_links seen ws = ws"
  by (induction ws arbitrary: seen) auto

lemma dedup_idem: "dedupVKLinks (dedupVKLinks ls) = dedupVKLinks ls"
  unfolding dedupVKLinks_def
  by (rule dedup_links_fixed) (auto simp: distinct_dedup_links set_dedup_links)

lemma split_join_links:
  assumes "\<forall>l \<in> set ls. CHR 0x0A \<notin> set l"
  shows "splitVKLinks (join_with [CHR 0x0A] (dedupVKLinks ls)) = dedupVKLinks ls"
proof (cases "dedupVKLinks ls = []")
  case True
  then show ?thesis by (simp add: splitVKLinks_def trim_space_def trim_left_def)
next
  case False
  let ?ws = "dedupVKLinks ls"
  have clean: "\<forall>w \<in> set ?ws. CHR 0x0A \<notin> set w \<and> trim_space w = w \<and> w \<noteq> []"
    using assms set_trim_space by (fastforce simp: dedupVKLinks_def set_dedup_links)
  obtain w ws where ws: "?ws = w # ws" using False by (cases ?ws) auto
  have "trim_space (join_with [CHR 0x0A] ?ws) \<noteq> []"
  proof -
    have "w \<noteq> [] \<and> trim_left w \<noteq> []"
      using clean ws by (auto simp: trim_space_def)
    then have "\<exists>c \<in> set w. \<not> is_space c" by (auto simp: trim_left_def dropWhile_eq_Nil_conv)
    moreover have "set w \<subseteq> set (join_with [CHR 0x0A] ?ws)" using ws by (cases ws) auto
    ultimately obtain c where "c \<in> set (join_with [CHR 0x0A] ?ws)" "\<not> is_space c" by blast
    then have "trim_left (join_with [CHR 0x0A] ?ws) \<noteq> []"
      by (auto simp: trim_left_def dropWhile_eq_Nil_conv)
    moreover have "trim_left (rev (trim_left x)) \<noteq> []" if "trim_left x \<noteq> []" for x
    proof -
      have "\<not> is_space (hd (trim_left x))" using that trim_left_fixed [of "trim_left x"] by simp
      moreover have "hd (trim_left x) \<in> set (rev (trim_left x))" using that by simp
      ultimately show ?thesis unfolding trim_left_def [of "rev _"] by (metis dropWhile_eq_Nil_conv)
    qed
    ultimately show ?thesis by (simp add: trim_space_def)
  qed
  then show ?thesis
    using split_join [OF False] clean by (simp add: splitVKLinks_def dedup_idem)
qed

subsection \<open>Properties\<close>

text \<open>Pictures are never taken from somebody else. Setting or clearing an avatar, creating an
  account and deleting one keep every picture any account refers to stored, although the bytes are
  shared between accounts and dropped with the last reference, whatever statements fail.\<close>

theorem avatars_stay_stored:
  "preserves avatars_ok (SetAdminAvatar hash i mime d) \<and>
   preserves avatars_ok (ClearAdminAvatar i) \<and>
   preserves avatars_ok (CreateAccount hash generate username pw mustChange role panel) \<and>
   preserves avatars_ok (DeleteAdmin i)"
  by (intro conjI avatars_SetAdminAvatar avatars_ClearAdminAvatar avatars_CreateAccount
      avatars_DeleteAdmin)

text \<open>The pool of VK links is stored as one text and read back unchanged. Links without a line
  break come back trimmed, without blanks and repetitions, in the order first seen, and saving
  what was read changes nothing.\<close>

theorem vk_links_roundtrip:
  assumes "faults s = []" "admin_by_id i s = Some m" "\<forall>l \<in> set links. CHR 0x0A \<notin> set l"
  shows "\<exists>s'. SetAdminVKLinks i links s = (Inr (), s') \<and>
    GetAdminVKLinks i s' = (Inr (dedupVKLinks links), s') \<and>
    distinct (dedupVKLinks links) \<and>
    set (dedupVKLinks links) = {w. \<exists>l \<in> set links. w = trim_space l \<and> w \<noteq> []} \<and>
    dedupVKLinks (dedupVKLinks links) = dedupVKLinks links"
proof -
  let ?f = "\<lambda>r. r\<lparr>adm_vk_links := join_with [CHR 0x0A] (dedupVKLinks links)\<rparr>"
  let ?s' = "admins_update (update_where (\<lambda>r. adm_id r = i) ?f) s"
  have m: "adm_id m = i" using assms(2) by (auto simp: admin_by_id_def find_Some_iff)
  have "SetAdminVKLinks i links s = (Inr (), ?s')"
    by (simp add: SetAdminVKLinks_def update_admin_def bindE_def update_rows_ok assms(1))
  moreover have "admin_by_id i ?s' = Some (?f m)"
    using assms(2) m by (simp add: admin_by_id_def find_update_where)
  moreover have "faults ?s' = []" by (simp add: assms(1))
  ultimately show ?thesis
    using split_join_links [OF assms(3)] distinct_dedup_links [of "[]" links]
      set_dedup_links [of "[]" links]
    by (intro exI [of _ ?s'])
       (simp add: GetAdminVKLinks_def bindE_def query_first_ok dedup_idem flip: dedupVKLinks_def)
qed

theorem vk_links_roundtrip_witness:
  "\<exists>s'. SetAdminVKLinks 2 ['' a'', ''b'', ''a ''] (sample_store DriverSQLite) = (Inr (), s') \<and>
     GetAdminVKLinks 2 s' = (Inr [''a'', ''b''], s')"
proof -
  have "dedupVKLinks ['' a'', ''b'', ''a ''] = [''a'', ''b'']" by code_simp
  moreover have "admin_by_id 2 (sample_store DriverSQLite) = Some (sample_admin 2 ''ann'' ''admin'')"
    by (simp add: admin_by_id_def sample_defs)
  ultimately show ?thesis
    using vk_links_roundtrip [OF sample_faults, of 2 DriverSQLite _ "['' a'', ''b'', ''a '']"]
    by auto
qed

text \<open>One account at the provider, one admin: no two accounts share a subject.\<close>

definition subjects_unique :: "store \<Rightarrow> bool" where
  "subjects_unique s \<longleftrightarrow> (\<forall>a \<in> set (admins s). \<forall>b \<in> set (admins s).
     adm_account_subject a \<noteq> None \<longrightarrow> adm_account_subject a = adm_account_subject b \<longrightarrow>
     adm_id a = adm_id b)"

lemma fault_free_subjects [simp]:
  "fault_free subjects_unique"
  "fault_free (\<lambda>s. subjects_unique s \<and>
     (\<forall>r \<in> set (admins s). adm_account_subject r \<noteq> Some x))"
  by (simp_all add: fault_free_def subjects_unique_def)

lemma admins_of_update: "admins (admins_update g s) = g (admins s)"
  by simp

lemma subjects_update:
  assumes "subjects_unique s" "\<forall>r \<in> set (admins s). adm_account_subject r \<noteq> Some x"
    and "\<And>r. adm_account_subject (f r) = Some x" "\<And>r. adm_id (f r) = adm_id r"
  shows "subjects_unique (admins_update (update_where (\<lambda>r. adm_id r = i) f) s)"
  unfolding subjects_unique_def admins_of_update ball_update_where
proof (intro ballI, goal_cases)
  case (1 a b)
  then have "adm_account_subject a \<noteq> None \<longrightarrow> adm_account_subject a = adm_account_subject b \<longrightarrow>
      adm_id a = adm_id b" "adm_account_subject a \<noteq> Some x" "adm_account_subject b \<noteq> Some x"
    using assms(1,2) unfolding subjects_unique_def by blast+
  then show ?case by (auto simp: assms(3,4))
qed

lemma subjects_LinkAccount: "preserves subjects_unique (LinkAccount i subject name)"
proof -
  have find: "ensures subjects_unique (attempt (FindAdminByAccount x))
      (\<lambda>r s. subjects_unique s \<and> (r = Inl ErrNotFound \<longrightarrow>
         trim_space x \<noteq> [] \<longrightarrow> (\<forall>a \<in> set (admins s). adm_account_subject a \<noteq> Some (trim_space x)))) E" for x E
    unfolding FindAdminByAccount_def Let_def
    by (intro ensures_attempt hoare ensures_bindE [where R = "\<lambda>(m :: admin_row). subjects_unique"]
        ensures_find_row ensures_query_first)
       (auto simp: find_None_iff)
  have upd: "ensures (\<lambda>s. subjects_unique s \<and> (\<forall>r \<in> set (admins s). adm_account_subject r \<noteq> Some x))
      (bindE (asks clock) (\<lambda>now. bindE (update_admin i (\<lambda>r. r\<lparr>adm_account_subject := Some x,
          adm_account_name := n, adm_updated_at := now\<rparr>)) require_affected))
      (\<lambda>_. subjects_unique) (\<lambda>_. subjects_unique)" for x n
    unfolding update_admin_def require_affected_def
    by (intro ensures_bindE [where R = "\<lambda>(now :: int) s. subjects_unique s \<and>
          (\<forall>r \<in> set (admins s). adm_account_subject r \<noteq> Some x)"]
        ensures_bindE [where R = "\<lambda>(n :: nat). subjects_unique"] hoare ensures_update_rows)
       (auto intro: subjects_update)
  have "ensures subjects_unique (LinkAccount i subject name) (\<lambda>_. subjects_unique) (\<lambda>_. subjects_unique)"
    unfolding LinkAccount_def Let_def
    apply (intro hoare ensures_bindE [OF find])
    subgoal by simp
    subgoal for r e
      by (cases e) (auto intro!: hoare intro: ensures_weaken [OF upd])
    subgoal by simp
    subgoal by simp
    done
  then show ?thesis by (simp only: preserves_ensures)
qed

lemma subjects_mono:
  assumes "subjects_unique s"
    and "\<And>a. a \<in> set as \<Longrightarrow> adm_account_subject a \<noteq> None \<Longrightarrow>
      \<exists>r \<in> set (admins s). adm_account_subject r = adm_account_subject a \<and> adm_id r = adm_id a"
  shows "subjects_unique (s\<lparr>admins := as\<rparr>)"
  unfolding subjects_unique_def
proof (intro ballI impI)
  fix a b assume ab: "a \<in> set (admins (s\<lparr>admins := as\<rparr>))" "b \<in> set (admins (s\<lparr>admins := as\<rparr>))"
    and n: "adm_account_subject a \<noteq> None" and eq: "adm_account_subject a = adm_account_subject b"
  obtain ra where ra: "ra \<in> set (admins s)" "adm_account_subject ra = adm_account_subject a"
    "adm_id ra = adm_id a" using assms(2) [of a] ab n by auto
  obtain rb where rb: "rb \<in> set (admins s)" "adm_account_subject rb = adm_account_subject b"
    "adm_id rb = adm_id b" using assms(2) [of b] ab n eq by auto
  show "adm_id a = adm_id b"
    using assms(1) ra rb n eq unfolding subjects_unique_def by metis
qed

lemma subjects_UnlinkAccount: "preserves subjects_unique (UnlinkAccount i)"
proof -
  have "preserves subjects_unique (update_admin i (\<lambda>r. r\<lparr>adm_account_subject := None,
      adm_account_name := [], adm_updated_at := now\<rparr>))" for now
    unfolding update_admin_def
  proof (rule pres_update_rows)
    fix s assume ok: "subjects_unique s"
    have "subjects_unique (s\<lparr>admins := update_where (\<lambda>r. adm_id r = i) (\<lambda>r. r\<lparr>adm_account_subject := None,
        adm_account_name := [], adm_updated_at := now\<rparr>) (admins s)\<rparr>)"
      by (rule subjects_mono [OF ok]) (auto simp: set_update_where)
    then show "subjects_unique (admins_update (update_where (\<lambda>r. adm_id r = i)
        (\<lambda>r. r\<lparr>adm_account_subject := None, adm_account_name := [], adm_updated_at := now\<rparr>)) s)"
      by (cases s) simp
  qed simp
  then show ?thesis unfolding UnlinkAccount_def touch_admin_def by (intro pres) simp
qed

lemma subjects_DeleteAdmin: "preserves subjects_unique (DeleteAdmin i)"
proof -
  have "preserves subjects_unique (delete_admins P)" for P
    unfolding delete_admins_def
    by (rule pres_stmt) (auto simp: subjects_unique_def remove_admins_def)
  then show ?thesis unfolding DeleteAdmin_def by (intro pres)
qed

text \<open>One account at the provider, one admin. Linking, unlinking and deleting keep the
  subjects of the accounts distinct, whatever statements fail; linking a subject that is already
  somebody else's is refused and changes nothing.\<close>

theorem one_subject_one_admin:
  "preserves subjects_unique (LinkAccount i subject name) \<and>
   preserves subjects_unique (UnlinkAccount i) \<and> preserves subjects_unique (DeleteAdmin i) \<and>
   (\<forall>s r. faults s = [] \<and> subjects_unique s \<and> r \<in> set (admins s) \<and>
      adm_account_subject r = Some (trim_space subject) \<and> trim_space subject \<noteq> [] \<and> adm_id r \<noteq> i \<longrightarrow>
      LinkAccount i subject name s = (Inl ErrAccountTaken, s))"
proof (intro conjI allI impI subjects_LinkAccount subjects_UnlinkAccount subjects_DeleteAdmin)
  fix s r assume a: "faults s = [] \<and> subjects_unique s \<and> r \<in> set (admins s) \<and>
      adm_account_subject r = Some (trim_space subject) \<and> trim_space subject \<noteq> [] \<and> adm_id r \<noteq> i"
  obtain q where q: "find (\<lambda>r. adm_account_subject r = Some (trim_space subject)) (admins s) = Some q"
    using a by (cases "find (\<lambda>r. adm_account_subject r = Some (trim_space subject)) (admins s)")
      (auto simp: find_None_iff)
  then have "q \<in> set (admins s)" "adm_account_subject q = Some (trim_space subject)"
    by (auto simp: find_Some_iff)
  then have "adm_id q \<noteq> i" using a unfolding subjects_unique_def by (metis option.distinct(1))
  then show "LinkAccount i subject name s = (Inl ErrAccountTaken, s)"
    using a q by (simp add: LinkAccount_def FindAdminByAccount_def Let_def bindE_def attempt_app
        find_row_ok toStorageAdmin_def)
qed

theorem one_subject_one_admin_witness:
  "LinkAccount 1 '' sub '' ''name'' ((sample_store DriverSQLite)\<lparr>admins :=
     [sample_admin 1 ''root'' ''owner'', (sample_admin 2 ''ann'' ''admin'')\<lparr>adm_account_subject := Some ''sub''\<rparr>]\<rparr>)
   = (Inl ErrAccountTaken, (sample_store DriverSQLite)\<lparr>admins :=
     [sample_admin 1 ''root'' ''owner'', (sample_admin 2 ''ann'' ''admin'')\<lparr>adm_account_subject := Some ''sub''\<rparr>]\<rparr>)"
proof -
  have "trim_space '' sub '' = ''sub''" by code_simp
  then show ?thesis
    by (intro one_subject_one_admin [THEN conjunct2, THEN conjunct2, THEN conjunct2, rule_format,
          where r = "(sample_admin 2 ''ann'' ''admin'')\<lparr>adm_account_subject := Some ''sub''\<rparr>"])
       (simp add: subjects_unique_def sample_defs)
qed

text \<open>A session opens the panel exactly until it expires. Looking a session up succeeds if and
  only if it is stored and its expiry is not past, and then it reports what was stored.\<close>

theorem session_lookup:
  assumes "faults s = []"
  shows "LookupSession i s = (case session_of i s of
     None \<Rightarrow> (Inl ErrNotFound, s)
   | Some m \<Rightarrow> (if clock s \<le> se_expires_at m
        then Inr \<lparr>s_id = se_id m, s_admin_id = se_admin_id m, s_expires_at = se_expires_at m,
                  s_created_at = se_created_at m\<rparr>
        else Inl ErrNotFound, s))"
  using assms by (simp add: LookupSession_def bindE_def find_row_ok split: option.split)

theorem session_lookup_witness:
  "LookupSession ''x'' ((sample_store DriverSQLite)\<lparr>sessions := [\<lparr>se_id = ''x'', se_admin_id = 1,
     se_expires_at = 5000000, se_created_at = 1\<rparr>]\<rparr>) =
   (Inr \<lparr>s_id = ''x'', s_admin_id = 1, s_expires_at = 5000000, s_created_at = 1\<rparr>,
    (sample_store DriverSQLite)\<lparr>sessions := [\<lparr>se_id = ''x'', se_admin_id = 1,
     se_expires_at = 5000000, se_created_at = 1\<rparr>]\<rparr>)"
  using session_lookup [of "(sample_store DriverSQLite)\<lparr>sessions := [\<lparr>se_id = ''x'', se_admin_id = 1,
     se_expires_at = 5000000, se_created_at = 1\<rparr>]\<rparr>" "''x''"]
  by (simp add: session_of_def sample_defs)

lemma admin_by_id_update:
  "(\<And>r. adm_id (f r) = adm_id r) \<Longrightarrow>
   admin_by_id i (admins_update (update_where P f) s) =
     map_option (\<lambda>r. if P r then f r else r) (admin_by_id i s)"
  by (simp add: admin_by_id_def find_update_where)

lemma touch_admin_ok:
  "faults s = [] \<Longrightarrow> touch_admin i f s = (Inr (), admins_update (update_where (\<lambda>r. adm_id r = i)
     (\<lambda>r. (f r)\<lparr>adm_updated_at := clock s\<rparr>)) s)"
  by (simp add: touch_admin_def bindE_def update_admin_def update_rows_ok)

lemma PutBlob_ok:
  assumes "faults s = []" "d \<noteq> []"
    and fresh: "\<forall>b \<in> set (blobs s). bl_hash b = hash d \<longrightarrow> bl_data b = d"
  shows "\<exists>s' b. PutBlob hash mime d s = (Inr (hash d), s') \<and> faults s' = [] \<and>
    admins s' = admins s \<and> blob_of (hash d) s' = Some b \<and> bl_data b = d"
proof (cases "blob_of (hash d) s")
  case None
  then have n: "hash d \<notin> bl_hash ` set (blobs s)" by (auto simp: blob_of_def find_None_iff)
  let ?b = "\<lparr>bl_hash = hash d, bl_mime = mime, bl_data = d, bl_size = int (length d),
    bl_created_at = clock s\<rparr>"
  let ?s' = "blobs_update (\<lambda>rs. rs @ [?b]) s"
  have "find (\<lambda>b. bl_hash b = hash d) (blobs s @ [?b]) = Some ?b"
    using None by (simp add: find_append_cases blob_of_def)
  then show ?thesis using None n assms
    by (intro exI [of _ ?s'] exI [of _ ?b])
       (simp add: PutBlob_def Let_def bindE_def attempt_app query_first_ok insert_row_ok blob_of_def)
next
  case (Some b)
  then have "b \<in> set (blobs s)" "bl_hash b = hash d" by (auto simp: blob_of_def find_Some_iff)
  then show ?thesis using Some assms
    by (intro exI [of _ s] exI [of _ b])
       (simp add: PutBlob_def Let_def bindE_def attempt_app query_first_ok)
qed

lemma dropBlob_ok:
  assumes "faults s = []"
  shows "\<exists>s'. dropBlobIfOrphan p s = (Inr (), s') \<and> faults s' = [] \<and> admins s' = admins s \<and>
    (\<forall>h. h \<noteq> p \<longrightarrow> blob_of h s' = blob_of h s)"
proof -
  have "blob_of h (blobs_update (filter (\<lambda>b. bl_hash b \<noteq> p)) s) = blob_of h s" if "h \<noteq> p" for h
    using that by (simp add: blob_of_def find_filter_other)
  then show ?thesis using assms
    by (simp add: dropBlobIfOrphan_def bindE_def attempt_app select_ok delete_rows_ok)
qed

lemma avatarBlobOf_ok:
  "faults s = [] \<Longrightarrow> avatarBlobOf i s =
     (Inr (case admin_by_id i s of None \<Rightarrow> [] | Some m \<Rightarrow> adm_avatar_blob m), s)"
  by (simp add: avatarBlobOf_def bindE_def attempt_app query_first_ok split: option.split)

text \<open>An uploaded avatar is served back. Without failures, and unless other bytes with the same
  hash are already stored, setting an avatar returns the next version, and reading it gives those
  bytes under that version; \<^verbatim>\<open>HasAvatar\<close>, however, which is meant to say whether a picture was
  chosen, then answers no, because it still reads the column the upload has just emptied.\<close>

theorem avatar_roundtrip:
  assumes "faults s = []" "d \<noteq> []" "hash d \<noteq> []" "admin_by_id i s = Some m"
    and "\<forall>b \<in> set (blobs s). bl_hash b = hash d \<longrightarrow> bl_data b = d"
  shows "\<exists>s' mime'. SetAdminAvatar hash i mime d s = (Inr (adm_avatar_version m + 1), s') \<and>
    GetAdminAvatar i s' = (Inr (mime', d, adm_avatar_version m + 1), s') \<and>
    HasAvatar i s' = (Inr False, s')"
proof -
  obtain s1 b where s1: "PutBlob hash mime d s = (Inr (hash d), s1)" "faults s1 = []"
    "admins s1 = admins s" "blob_of (hash d) s1 = Some b" "bl_data b = d"
    using PutBlob_ok [where hash = hash, OF assms(1,2,5)] by blast
  have m1: "admin_by_id i s1 = Some m" using s1(3) assms(4) by (simp add: admin_by_id_def)
  have mi: "adm_id m = i" using assms(4) by (auto simp: admin_by_id_def find_Some_iff)
  let ?f = "\<lambda>r. r\<lparr>adm_avatar_mime := mime, adm_avatar_blob := hash d, adm_avatar_png := None,
      adm_avatar_version := adm_avatar_version r + 1\<rparr>"
  let ?s2 = "admins_update (update_where (\<lambda>r. adm_id r = i) (\<lambda>r. (?f r)\<lparr>adm_updated_at := clock s1\<rparr>)) s1"
  let ?m2 = "(?f m)\<lparr>adm_updated_at := clock s1\<rparr>"
  have m2: "admin_by_id i ?s2 = Some ?m2"
    using m1 mi by (simp add: admin_by_id_update)
  have b2: "blob_of (hash d) ?s2 = Some b" "faults ?s2 = []" using s1 by (simp_all add: blob_of_def)
  obtain s3 where s3: "(if adm_avatar_blob m \<noteq> hash d then dropBlobIfOrphan (adm_avatar_blob m) else ret ()) ?s2
      = (Inr (), s3)" "faults s3 = []" "admins s3 = admins ?s2" "blob_of (hash d) s3 = Some b"
    using dropBlob_ok [OF b2(2), of "adm_avatar_blob m"] b2
    by (cases "adm_avatar_blob m = hash d") auto
  have m3: "admin_by_id i s3 = Some ?m2" using m2 s3(3) by (simp add: admin_by_id_def)
  have "SetAdminAvatar hash i mime d s = (Inr (adm_avatar_version m + 1), s3)"
    using s1 m1 s3 m3
    by (simp add: SetAdminAvatar_def bindE_def avatarBlobOf_ok query_first_ok touch_admin_ok
        split del: if_split)
  moreover have "\<exists>mime'. GetAdminAvatar i s3 = (Inr (mime', d, adm_avatar_version m + 1), s3)"
    using m3 s3 s1(5) assms(3)
    by (simp add: GetAdminAvatar_def bindE_def query_first_ok Let_def attempt_app GetBlob_def)
  moreover have "HasAvatar i s3 = (Inr False, s3)"
    using m3 s3(2) by (simp add: HasAvatar_def bindE_def query_first_ok)
  ultimately show ?thesis by blast
qed

theorem avatar_roundtrip_witness:
  "\<exists>s' mime'. SetAdminAvatar id 1 ''image/png'' ''pic'' (sample_store DriverSQLite) = (Inr 1, s') \<and>
     GetAdminAvatar 1 s' = (Inr (mime', ''pic'', 1), s') \<and> HasAvatar 1 s' = (Inr False, s')"
proof -
  have "admin_by_id 1 (sample_store DriverSQLite) = Some (sample_admin 1 ''root'' ''owner'')"
    "blobs (sample_store DriverSQLite) = []" "adm_avatar_version (sample_admin 1 ''root'' ''owner'') = 0"
    by (simp_all add: admin_by_id_def sample_defs)
  then show ?thesis
    using avatar_roundtrip [OF sample_faults, of "''pic''" id 1 DriverSQLite
        "sample_admin 1 ''root'' ''owner''" "''image/png''"] by simp
qed

text \<open>There is always an owner after a start-up. When the database works and any account
  exists (ids start at 1), \<^verbatim>\<open>EnsureAtLeastOneOwner\<close> succeeds and leaves an account with the owner
  role; an installation that has one is not changed at all.\<close>

theorem ensure_owner:
  assumes "faults s = []" "admins s \<noteq> []" "\<forall>r \<in> set (admins s). adm_id r > 0"
  shows "\<exists>s'. EnsureAtLeastOneOwner s = (Inr (), s') \<and>
    (\<exists>r \<in> set (admins s'). adm_role r = RoleOwner) \<and>
    ((\<exists>r \<in> set (admins s). adm_role r = RoleOwner) \<longrightarrow> s' = s)"
proof (cases "\<exists>r \<in> set (admins s). adm_role r = RoleOwner")
  case True
  then have "length (filter (\<lambda>r. adm_role r = RoleOwner) (admins s)) > 0"
    by (auto simp: filter_empty_conv)
  then have "EnsureAtLeastOneOwner s = (Inr (), s)"
    using assms(1) by (simp add: EnsureAtLeastOneOwner_def bindE_def select_ok)
  then show ?thesis using True by blast
next
  case False
  let ?i = "Min (adm_id ` set (admins s))"
  let ?s' = "admins_update (update_where (\<lambda>r. adm_id r = ?i)
      (\<lambda>r. (r\<lparr>adm_role := RoleOwner\<rparr>)\<lparr>adm_updated_at := clock s\<rparr>)) s"
  have mem: "?i \<in> adm_id ` set (admins s)" using assms(2) by (intro Min_in) auto
  have "?i \<noteq> 0" using mem assms(3) by (metis imageE less_irrefl)
  then have "EnsureAtLeastOneOwner s = (Inr (), ?s')"
    using False assms by (simp add: EnsureAtLeastOneOwner_def FirstAdminID_def bindE_def select_ok
        attempt_app filter_empty_conv UpdateAdminRole_def touch_admin_ok)
  moreover have "\<exists>r \<in> set (admins ?s'). adm_role r = RoleOwner"
  proof -
    obtain r where "r \<in> set (admins s)" "adm_id r = ?i" using mem by auto
    then show ?thesis unfolding admins_of_update set_update_where by (intro bexI [OF _ imageI]) auto
  qed
  ultimately show ?thesis using False by blast
qed

theorem ensure_owner_witness:
  "\<exists>s'. EnsureAtLeastOneOwner ((sample_store DriverPostgres)\<lparr>admins := [sample_admin 4 ''ann'' ''admin'']\<rparr>) =
     (Inr (), s') \<and> (\<exists>r \<in> set (admins s'). adm_role r = RoleOwner)"
  using ensure_owner [of "(sample_store DriverPostgres)\<lparr>admins := [sample_admin 4 ''ann'' ''admin'']\<rparr>"]
  by (auto simp: sample_defs)

end
