(* ===== verification/Walks.thy ===== *)
theory Walks
  imports Prelude
begin

text \<open>
  The walks of the invite tree (\<^verbatim>\<open>internal/storage/invites_tree.go\<close>, \<^verbatim>\<open>admintraffic.go\<close>): breadth
  first down from an account, and up from one along the inviters. The map from a child to its
  inviter is a list of pairs with distinct keys; Go iterates over a map in no particular order,
  so what is proved of a walk does not depend on the order of the list.
\<close>

type_synonym edges = "(int \<times> int) list"

definition maxInviteDepth :: nat where "maxInviteDepth = 64"

text \<open>\<^verbatim>\<open>children[by]\<close> after \<^verbatim>\<open>for child, by := range parent\<close>.\<close>

definition children_of :: "edges \<Rightarrow> int \<Rightarrow> int list" where
  "children_of parent by = map fst (filter (\<lambda>(child, b). b = by) parent)"

text \<open>The inner loop: append the children that have not been seen.\<close>

fun add_children :: "int list \<Rightarrow> int list \<Rightarrow> int list \<Rightarrow> int list \<times> int list" where
  "add_children [] seen out = (seen, out)"
| "add_children (c # cs) seen out =
     (if c \<in> set seen then add_children cs seen out
      else add_children cs (c # seen) (out @ [c]))"

lemma add_children_spec:
  "add_children cs seen out = (seen', out') \<Longrightarrow>
     (\<exists>new. out' = out @ new \<and> set seen' = set seen \<union> set new \<and> distinct new \<and>
        set new \<inter> set seen = {} \<and> set new = set cs - set seen)"
proof (induction cs seen out rule: add_children.induct)
  case (2 c cs seen out)
  show ?case
  proof (cases "c \<in> set seen")
    case True
    then show ?thesis using 2 by auto
  next
    case False
    then have "add_children cs (c # seen) (out @ [c]) = (seen', out')" using 2(3) by simp
    from 2(2) [OF False this] obtain new where n: "out' = (out @ [c]) @ new"
      "set seen' = set (c # seen) \<union> set new" "distinct new" "set new \<inter> set (c # seen) = {}"
      "set new = set cs - set (c # seen)" by blast
    show ?thesis by (rule exI [of _ "c # new"]) (use n False in auto)
  qed
qed auto

text \<open>
  The queue of the walk: \<open>limit\<close> is the bound on the index where the source has one.
\<close>

function walk_down ::
  "edges \<Rightarrow> nat option \<Rightarrow> nat \<Rightarrow> int list \<Rightarrow> int list \<Rightarrow> int list" where
  "walk_down parent limit i seen out =
     (if i < length out \<and> (case limit of None \<Rightarrow> True | Some b \<Rightarrow> i < b)
      then (let r = add_children (children_of parent (out ! i)) seen out
            in walk_down parent limit (Suc i) (fst r) (snd r))
      else out)"
  by pat_completeness auto
termination
proof (relation "measure (\<lambda>(parent, limit, i, seen, out).
    card (fst ` set parent - set seen) + (length out - i))", goal_cases)
  case (2 parent limit i seen out r)
  obtain seen' out' where r: "r = (seen', out')" by (cases r)
  obtain new where n: "out' = out @ new" "set seen' = set seen \<union> set new" "distinct new"
      "set new \<inter> set seen = {}" "set new = set (children_of parent (out ! i)) - set seen"
    using add_children_spec [of "children_of parent (out ! i)" seen out seen' out'] 2(2) r by auto
  let ?K = "fst ` set parent"
  have sub: "set new \<subseteq> ?K - set seen" using n(4,5) by (auto simp: children_of_def)
  have "?K - set seen' = (?K - set seen) - set new" using n(2) by auto
  then have "card (?K - set seen') + length new = card (?K - set seen)"
    using sub n(3) card_mono [of "?K - set seen" "set new"]
    by (simp add: card_Diff_subset distinct_card)
  then show ?case using 2(1) n(1) r by auto
qed simp

declare walk_down.simps [simp del]

subsection \<open>What the walk finds\<close>

definition invited :: "edges \<Rightarrow> (int \<times> int) set" where
  "invited parent = {(by, child). (child, by) \<in> set parent}"

lemma children_of_invited: "set (children_of parent by) = {c. (by, c) \<in> invited parent}"
  by (force simp: children_of_def invited_def)

definition walk_inv :: "edges \<Rightarrow> int \<Rightarrow> nat \<Rightarrow> int list \<Rightarrow> int list \<Rightarrow> bool" where
  "walk_inv parent root i seen out \<longleftrightarrow>
     set seen = set out \<and> distinct out \<and> root \<in> set out \<and>
     set out \<subseteq> (invited parent)\<^sup>* `` {root} \<and>
     (\<forall>j < i. j < length out \<longrightarrow> invited parent `` {out ! j} \<subseteq> set out) \<and>
     set out \<subseteq> insert root (fst ` set parent)"

lemma walk_inv_step:
  assumes inv: "walk_inv parent root i seen out" and i: "i < length out"
    and add: "add_children (children_of parent (out ! i)) seen out = (seen', out')"
  shows "walk_inv parent root (Suc i) seen' out'"
proof -
  obtain new where n: "out' = out @ new" "set seen' = set seen \<union> set new" "distinct new"
      "set new \<inter> set seen = {}" "set new = {c. (out ! i, c) \<in> invited parent} - set seen"
    using add_children_spec [OF add] by (auto simp: children_of_invited)
  have reach: "set new \<subseteq> (invited parent)\<^sup>* `` {root}"
  proof
    fix c assume "c \<in> set new"
    then have "(out ! i, c) \<in> invited parent" using n(5) by auto
    moreover have "(root, out ! i) \<in> (invited parent)\<^sup>*"
      using inv i by (auto simp: walk_inv_def)
    ultimately show "c \<in> (invited parent)\<^sup>* `` {root}" by (auto intro: rtrancl_into_rtrancl)
  qed
  have keys: "set new \<subseteq> fst ` set parent" using n(5) by (force simp: invited_def)
  have "invited parent `` {out' ! j} \<subseteq> set out'" if "j < Suc i" for j
  proof (cases "j = i")
    case True
    then show ?thesis using n i inv by (auto simp: nth_append walk_inv_def)
  next
    case False
    then have "j < i" using that by simp
    then show ?thesis using inv i n(1) by (auto simp: nth_append walk_inv_def)
  qed
  then show ?thesis
    using inv n reach keys unfolding walk_inv_def by auto
qed

lemma walk_down_inv:
  assumes "walk_inv parent root i seen out"
  shows "\<exists>j seen'. walk_inv parent root j seen' (walk_down parent limit i seen out) \<and>
    (j \<ge> length (walk_down parent limit i seen out) \<or> (\<exists>b. limit = Some b \<and> j \<ge> b))"
  using assms
proof (induction parent limit i seen out rule: walk_down.induct)
  case (1 parent limit i seen out)
  show ?case
  proof (cases "i < length out \<and> (case limit of None \<Rightarrow> True | Some b \<Rightarrow> i < b)")
    case True
    obtain seen' out' where a: "add_children (children_of parent (out ! i)) seen out = (seen', out')"
      by fastforce
    have "walk_down parent limit i seen out = walk_down parent limit (Suc i) seen' out'"
      by (subst walk_down.simps) (simp add: True a)
    moreover have "walk_inv parent root (Suc i) (fst (seen', out')) (snd (seen', out'))"
      using walk_inv_step [OF "1.prems" _ a] True by simp
    ultimately show ?thesis
      using "1.IH" [OF True a [symmetric]] by simp
  next
    case False
    then have "walk_down parent limit i seen out = out" by (subst walk_down.simps) auto
    then show ?thesis using False 1(2)
      by (intro exI [of _ i] exI [of _ seen]) (auto split: option.splits)
  qed
qed

lemma closed_reachable:
  assumes "root \<in> A" "\<And>x. x \<in> A \<Longrightarrow> r `` {x} \<subseteq> A"
  shows "r\<^sup>* `` {root} \<subseteq> A"
proof
  fix y assume "y \<in> r\<^sup>* `` {root}"
  then have "(root, y) \<in> r\<^sup>*" by simp
  then show "y \<in> A" using assms by (induction rule: rtrancl_induct) auto
qed

text \<open>
  Without a bound, or with any bound at least one more than the number of edges, the walk finds
  exactly the accounts below the root, each once.
\<close>

lemma walk_down_reachable:
  assumes "limit = None \<or> (\<exists>b. limit = Some b \<and> b \<ge> Suc (length parent))"
  shows "set (walk_down parent limit 0 [root] [root]) = (invited parent)\<^sup>* `` {root} \<and>
    distinct (walk_down parent limit 0 [root] [root])"
proof -
  let ?w = "walk_down parent limit 0 [root] [root]"
  have "walk_inv parent root 0 [root] [root]" by (simp add: walk_inv_def)
  then obtain j seen' where w: "walk_inv parent root j seen' ?w"
    and j: "j \<ge> length ?w \<or> (\<exists>b. limit = Some b \<and> j \<ge> b)"
    using walk_down_inv by blast
  have "length ?w = card (set ?w)" using w by (simp add: walk_inv_def distinct_card)
  also have "\<dots> \<le> card (insert root (fst ` set parent))"
    using w by (intro card_mono) (auto simp: walk_inv_def)
  also have "\<dots> \<le> Suc (length parent)"
    using card_length [of "map fst parent"] by (simp add: card_insert_if)
  finally have "j \<ge> length ?w" using j assms by auto
  then have "invited parent `` {x} \<subseteq> set ?w" if "x \<in> set ?w" for x
  proof -
    obtain k where k: "k < length ?w" "x = ?w ! k" using \<open>x \<in> set ?w\<close> by (auto simp: in_set_conv_nth)
    moreover have "k < j" using k(1) \<open>length ?w \<le> j\<close> by simp
    ultimately show ?thesis using w unfolding walk_inv_def by blast
  qed
  then have "(invited parent)\<^sup>* `` {root} \<subseteq> set ?w"
    using w by (intro closed_reachable) (auto simp: walk_inv_def)
  then show ?thesis using w by (auto simp: walk_inv_def)
qed

subsection \<open>Walking up\<close>

text \<open>
  \<^verbatim>\<open>walkUp\<close>: depth, and whether anybody at or above is cut, at most \<open>maxInviteDepth\<close> steps.
\<close>

fun walk_up :: "edges \<Rightarrow> (int \<Rightarrow> bool) \<Rightarrow> nat \<Rightarrow> int \<Rightarrow> int list \<Rightarrow> nat \<Rightarrow> bool \<Rightarrow> nat \<times> bool" where
  "walk_up parent cutAt 0 at seen depth isCut = (depth, isCut)"
| "walk_up parent cutAt (Suc n) at seen depth isCut =
     (case map_of parent at of
        None \<Rightarrow> (depth, isCut)
      | Some up \<Rightarrow>
          if up \<in> set seen then (depth, isCut)
          else walk_up parent cutAt n up (up # seen) (Suc depth) (isCut \<or> cutAt up))"

definition walkUp :: "int \<Rightarrow> edges \<Rightarrow> (int \<Rightarrow> bool) \<Rightarrow> nat \<times> bool" where
  "walkUp i parent cutAt = walk_up parent cutAt maxInviteDepth i [i] 0 (cutAt i)"

text \<open>The chain of inviters of one account, for \<^verbatim>\<open>InviteAncestry\<close>.\<close>

fun ancestry :: "edges \<Rightarrow> nat \<Rightarrow> int \<Rightarrow> int list \<Rightarrow> int list" where
  "ancestry parent 0 at seen = []"
| "ancestry parent (Suc n) at seen =
     (case map_of parent at of
        None \<Rightarrow> []
      | Some up \<Rightarrow> if up \<in> set seen then [] else up # ancestry parent n up (up # seen))"

end
