(* ===== verification/Invites.thy ===== *)
theory Invites
  imports Admins Walks
begin

text \<open>
  The audit log, platform settings, invite codes and the invite tree:
  \<^verbatim>\<open>internal/storage/audit.go\<close>, \<^verbatim>\<open>invites_tree.go\<close> and \<^verbatim>\<open>admintraffic.go\<close>. A zero \<^verbatim>\<open>time.Time\<close>
  argument is \<^term>\<open>None\<close>; \<^verbatim>\<open>UPPER\<close> of the engine is upper-casing of ASCII letters.
\<close>

subsection \<open>Audit log\<close>

record audit_entry =
  ae_id :: int
  ae_ts :: "int option"
  ae_actor_admin_id :: int
  ae_actor_username :: string
  ae_action :: string
  ae_target_type :: string
  ae_target_id :: string
  ae_message :: string
  ae_ip :: string

record audit_filter =
  af_actor :: int
  af_action :: string
  af_since :: "int option"
  af_until :: "int option"
  af_limit :: int
  af_offset :: int

definition AppendAudit :: "audit_entry \<Rightarrow> unit db" where
  "AppendAudit entry =
     (if ae_action entry = [] then fail ErrAuditAction
      else bindE (asks clock) (\<lambda>now.
      let actor = (if ae_actor_admin_id entry > 0 then Some (ae_actor_admin_id entry) else None) in
      stmt (\<lambda>s.
        if (case actor of None \<Rightarrow> True | Some a \<Rightarrow> fk_admin a s)
        then (Inr (), s\<lparr>audits := audits s @ [\<lparr>au_id = audits_seq s,
                 au_ts = (case ae_ts entry of None \<Rightarrow> now | Some t \<Rightarrow> t), au_actor = actor,
                 au_actor_username = ae_actor_username entry, au_action = ae_action entry,
                 au_target_type = ae_target_type entry, au_target_id = ae_target_id entry,
                 au_message = ae_message entry, au_ip = ae_ip entry\<rparr>],
               audits_seq := audits_seq s + 1\<rparr>)
        else (Inl ErrConstraint, s))))"

definition derefInt64 :: "int option \<Rightarrow> int" where
  "derefInt64 p = (case p of None \<Rightarrow> 0 | Some x \<Rightarrow> x)"

definition auditQuery :: "audit_filter \<Rightarrow> audit_row \<Rightarrow> bool" where
  "auditQuery f r \<longleftrightarrow>
     (af_actor f > 0 \<longrightarrow> au_actor r = Some (af_actor f)) \<and>
     (af_action f \<noteq> [] \<longrightarrow> au_action r = af_action f) \<and>
     (case af_since f of None \<Rightarrow> True | Some t \<Rightarrow> au_ts r \<ge> t) \<and>
     (case af_until f of None \<Rightarrow> True | Some t \<Rightarrow> au_ts r \<le> t)"

definition CountAudit :: "audit_filter \<Rightarrow> int db" where
  "CountAudit f = select (\<lambda>s. int (length (filter (auditQuery f) (audits s))))"

definition ListAudit :: "audit_filter \<Rightarrow> audit_entry list db" where
  "ListAudit f =
     (let limit = (if af_limit f \<le> 0 \<or> af_limit f > 500 then 100 else af_limit f) in
      bindE (select (\<lambda>s. take (nat limit) (drop (nat (af_offset f))
               (sort_key (\<lambda>r. - au_ts r) (filter (auditQuery f) (audits s)))))) (\<lambda>rows.
      ret (map (\<lambda>r. \<lparr>ae_id = au_id r, ae_ts = Some (au_ts r), ae_actor_admin_id = derefInt64 (au_actor r),
        ae_actor_username = au_actor_username r, ae_action = au_action r,
        ae_target_type = au_target_type r, ae_target_id = au_target_id r, ae_message = au_message r,
        ae_ip = au_ip r\<rparr>) rows)))"

definition PruneAuditOlderThan :: "int \<Rightarrow> unit db" where
  "PruneAuditOlderThan cutoff =
     bindE (delete_rows audits audits_update (\<lambda>r. au_ts r < cutoff)) (\<lambda>_. ret ())"

subsection \<open>Platform settings\<close>

definition GetPlatformSetting :: "string \<Rightarrow> string \<Rightarrow> string db" where
  "GetPlatformSetting key fallback =
     bindE (attempt (query_first (setting_row_of key))) (\<lambda>r.
     case r of
       Inl ErrRecordNotFound \<Rightarrow> ret fallback
     | Inl e \<Rightarrow> fail e
     | Inr row \<Rightarrow> ret (ps_value row))"

definition SetPlatformSetting :: "string \<Rightarrow> string \<Rightarrow> unit db" where
  "SetPlatformSetting key value = upsert_rows settings_update ps_key setting_upd (\<lambda>_ _. True)
     [\<lparr>ps_key = key, ps_value = value\<rparr>]"

subsection \<open>Invite codes\<close>

record invite_token =
  it_token :: string
  it_created_at :: int
  it_expires_at :: int
  it_used_at :: int
  it_used_by_admin_id :: int
  it_created_by_admin_id :: int
  it_max_uses :: int
  it_use_count :: int

definition toInviteToken :: "invite_row \<Rightarrow> invite_token" where
  "toInviteToken r = \<lparr>it_token = iv_token r, it_created_at = iv_created_at r,
     it_expires_at = iv_expires_at r, it_used_at = iv_used_at r,
     it_used_by_admin_id = derefInt64 (iv_used_by r),
     it_created_by_admin_id = derefInt64 (iv_created_by r),
     it_max_uses = iv_max_uses r, it_use_count = iv_use_count r\<rparr>"

definition CreateInviteWithUses :: "string \<Rightarrow> int option \<Rightarrow> int \<Rightarrow> int \<Rightarrow> invite_token db" where
  "CreateInviteWithUses token expiresAt createdBy maxUses =
     (let m = (if maxUses < 0 then 1 else maxUses);
          e = (case expiresAt of None \<Rightarrow> 0 | Some t \<Rightarrow> t) in
      bindE (asks clock) (\<lambda>now.
      bindE (insert_row invites_update
               (\<lambda>s. token \<notin> iv_token ` set (invites s) \<and> fk_admin createdBy s)
               \<lparr>iv_token = token, iv_created_at = now, iv_expires_at = e, iv_used_at = 0,
                iv_used_by = None, iv_created_by = Some createdBy, iv_max_uses = m,
                iv_use_count = 0\<rparr>) (\<lambda>_.
      ret \<lparr>it_token = token, it_created_at = now, it_expires_at = e, it_used_at = 0,
           it_used_by_admin_id = 0, it_created_by_admin_id = createdBy, it_max_uses = m,
           it_use_count = 0\<rparr>)))"

definition CreateInvite :: "string \<Rightarrow> int option \<Rightarrow> int \<Rightarrow> invite_token db" where
  "CreateInvite token expiresAt createdBy = CreateInviteWithUses token expiresAt createdBy 1"

definition ListInvitesByAdmin :: "int \<Rightarrow> invite_token list db" where
  "ListInvitesByAdmin adminID = bindE (select (\<lambda>s. take 200 (sort_key (\<lambda>r. - iv_created_at r)
     (filter (\<lambda>r. iv_created_by r = Some adminID) (invites s))))) (\<lambda>rows. ret (map toInviteToken rows))"

definition ListInvites :: "bool \<Rightarrow> invite_token list db" where
  "ListInvites includeUsed = bindE (select (\<lambda>s. take 200 (sort_key (\<lambda>r. - iv_created_at r)
     (filter (\<lambda>r. includeUsed \<or> iv_used_at r = 0) (invites s))))) (\<lambda>rows. ret (map toInviteToken rows))"

definition DeleteInvite :: "string \<Rightarrow> unit db" where
  "DeleteInvite token =
     bindE (delete_rows invites invites_update (\<lambda>r. iv_token r = token)) (\<lambda>_. ret ())"

text \<open>The condition and the assignment of the one statement that spends a use.\<close>

definition redeemable :: "string \<Rightarrow> int \<Rightarrow> invite_row \<Rightarrow> bool" where
  "redeemable token now r \<longleftrightarrow> to_upper (iv_token r) = to_upper token \<and>
     (iv_max_uses r = 0 \<or> iv_use_count r < iv_max_uses r) \<and>
     (iv_expires_at r = 0 \<or> iv_expires_at r > now)"

definition spend_use :: "int \<Rightarrow> int \<Rightarrow> invite_row \<Rightarrow> invite_row" where
  "spend_use now adminID r = r\<lparr>iv_use_count := iv_use_count r + 1,
     iv_used_at := (if iv_used_at r = 0 then now else iv_used_at r),
     iv_used_by := (case iv_used_by r of None \<Rightarrow> Some adminID | Some a \<Rightarrow> Some a)\<rparr>"

text \<open>The \<^verbatim>\<open>UPDATE\<close>; \<^verbatim>\<open>used_by_admin_id\<close> references \<^verbatim>\<open>admins\<close> on SQLite.\<close>

definition spend_invite :: "string \<Rightarrow> int \<Rightarrow> int \<Rightarrow> nat db" where
  "spend_invite token now adminID = stmt (\<lambda>s.
     if (\<exists>r \<in> set (invites s). redeemable token now r \<and> iv_used_by r = None) \<and> \<not> fk_admin adminID s
     then (Inl ErrConstraint, s)
     else (Inr (affected (driver s) (redeemable token now) (spend_use now adminID) (invites s)),
           invites_update (update_where (redeemable token now) (spend_use now adminID)) s))"

definition RedeemInvite :: "string \<Rightarrow> int \<Rightarrow> unit db" where
  "RedeemInvite token adminID =
     (let token' = trim_space token in
      if token' = [] then fail ErrNotFound
      else bindE (asks clock) (\<lambda>now.
      bindE (spend_invite token' now adminID) (\<lambda>n.
      if n = 0 then fail ErrNotFound
      else insert_row redemptions_update
             (\<lambda>s. (token', adminID) \<notin> rd_key ` set (redemptions s) \<and> fk_admin adminID s)
             \<lparr>rd_token = token', rd_admin_id = adminID, rd_created_at = now\<rparr>)))"

definition RedeemedInvite :: "int \<Rightarrow> bool db" where
  "RedeemedInvite adminID =
     bindE (select (\<lambda>s. length (filter (\<lambda>r. rd_admin_id r = adminID) (redemptions s)))) (\<lambda>count.
     if count > 0 then ret True
     else bindE (select (\<lambda>s. length (filter (\<lambda>r. iv_used_by r = Some adminID) (invites s)))) (\<lambda>count.
          ret (count > 0)))"

text \<open>\<^verbatim>\<open>First\<close> takes the smallest matching code; every error is \<^verbatim>\<open>ErrNotFound\<close>.\<close>

definition FindInvite :: "string \<Rightarrow> invite_token db" where
  "FindInvite token =
     (let token' = trim_space token in
      if token' = [] then fail ErrNotFound
      else bindE (attempt (query_first (\<lambda>s.
             case sort_key iv_token (filter (\<lambda>r. to_upper (iv_token r) = to_upper token') (invites s)) of
               [] \<Rightarrow> None | r # _ \<Rightarrow> Some r))) (\<lambda>r.
           case r of Inl _ \<Rightarrow> fail ErrNotFound | Inr row \<Rightarrow> ret (toInviteToken row)))"

subsection \<open>The invite tree\<close>

text \<open>The rows of the two queries: pairs of the invited account and its inviter.\<close>

definition redemption_edges :: "store \<Rightarrow> edges" where
  "redemption_edges s = [(rd_admin_id r, derefInt64 (iv_created_by t)).
     r \<leftarrow> redemptions s, t \<leftarrow> filter (\<lambda>t. iv_token t = rd_token r \<and> iv_created_by t \<noteq> None) (invites s)]"

definition legacy_edges :: "store \<Rightarrow> edges" where
  "legacy_edges s = map (\<lambda>t. (derefInt64 (iv_used_by t), derefInt64 (iv_created_by t)))
     (filter (\<lambda>t. iv_used_by t \<noteq> None \<and> iv_created_by t \<noteq> None) (invites s))"

text \<open>The loop that fills the map: no zero ids, no self-invitation, the first inviter wins.\<close>

fun first_inviter :: "edges \<Rightarrow> edges \<Rightarrow> edges" where
  "first_inviter acc [] = acc"
| "first_inviter acc ((child, by) # rows) =
     (if child = 0 \<or> by = 0 \<or> child = by \<or> child \<in> fst ` set acc then first_inviter acc rows
      else first_inviter (acc @ [(child, by)]) rows)"

definition inviteEdges :: "edges db" where
  "inviteEdges =
     bindE (select redemption_edges) (\<lambda>rows.
     bindE (select legacy_edges) (\<lambda>legacy.
     ret (first_inviter [] (rows @ legacy))))"

record suspension =
  su_suspended :: bool
  su_reason :: string

definition suspendedSet :: "(int \<times> suspension) list db" where
  "suspendedSet = select (\<lambda>s. map (\<lambda>r. (adm_id r,
     \<lparr>su_suspended = (adm_suspended_at r > 0), su_reason = adm_suspended_reason r\<rparr>)) (admins s))"

definition is_suspended_in :: "(int \<times> suspension) list \<Rightarrow> int \<Rightarrow> bool" where
  "is_suspended_in m i = (case map_of m i of None \<Rightarrow> False | Some x \<Rightarrow> su_suspended x)"

record tree_member =
  tm_admin_id :: int
  tm_username :: string
  tm_role :: string
  tm_depth :: nat
  tm_invited_by :: int
  tm_suspended :: bool
  tm_cut :: bool
  tm_reason :: string
  tm_created_at :: int
  tm_avatar_version :: int

definition InviteTree :: "tree_member list db" where
  "InviteTree =
     bindE ListAdmins (\<lambda>adm.
     bindE inviteEdges (\<lambda>parent.
     bindE suspendedSet (\<lambda>suspended.
     ret (map (\<lambda>a. let (depth, isCut) = walkUp (a_id a) parent (is_suspended_in suspended) in
       \<lparr>tm_admin_id = a_id a, tm_username = a_username a, tm_role = a_role a, tm_depth = depth,
        tm_invited_by = (case map_of parent (a_id a) of None \<Rightarrow> 0 | Some p \<Rightarrow> p),
        tm_suspended = is_suspended_in suspended (a_id a), tm_cut = isCut,
        tm_reason = (case map_of suspended (a_id a) of None \<Rightarrow> [] | Some x \<Rightarrow> su_reason x),
        tm_created_at = a_created_at a, tm_avatar_version = a_avatar_version a\<rparr>) adm))))"

definition InviteSubtree :: "int \<Rightarrow> int list db" where
  "InviteSubtree root = bindE inviteEdges (\<lambda>parent.
     ret (walk_down parent (Some (maxInviteDepth * length parent + 1)) 0 [root] [root]))"

definition suspend_row :: "int \<Rightarrow> string \<Rightarrow> int \<Rightarrow> admin_row \<Rightarrow> admin_row" where
  "suspend_row now reason root r = r\<lparr>adm_suspended_at := now, adm_suspended_reason := reason,
     adm_suspended_by_root := root, adm_updated_at := now\<rparr>"

text \<open>The number of rows is returned with the error of the second statement.\<close>

definition SuspendSubtree :: "int \<Rightarrow> string \<Rightarrow> (nat \<times> error option) db" where
  "SuspendSubtree root reason =
     bindE (FindAdminByID root) (\<lambda>r.
     if a_role r = RoleOwner then fail ErrCannotSuspendOwner
     else bindE (InviteSubtree root) (\<lambda>ids.
     bindE (asks clock) (\<lambda>now.
     bindE (update_rows admins admins_update
              (\<lambda>a. adm_id a \<in> set ids \<and> adm_suspended_at a = 0 \<and> adm_role a \<noteq> RoleOwner)
              (suspend_row now reason root)) (\<lambda>n.
     bindE (attempt (delete_rows sessions sessions_update (\<lambda>x. se_admin_id x \<in> set ids))) (\<lambda>d.
     ret (n, case d of Inl e \<Rightarrow> Some e | Inr _ \<Rightarrow> None))))))"

definition restore_row :: "int \<Rightarrow> admin_row \<Rightarrow> admin_row" where
  "restore_row now r = r\<lparr>adm_suspended_at := 0, adm_suspended_reason := [],
     adm_suspended_by_root := 0, adm_updated_at := now\<rparr>"

definition RestoreSubtree :: "int \<Rightarrow> nat db" where
  "RestoreSubtree root = bindE (asks clock) (\<lambda>now.
     update_rows admins admins_update (\<lambda>a. adm_suspended_by_root a = root) (restore_row now))"

definition IsSuspended :: "int \<Rightarrow> (bool \<times> string) db" where
  "IsSuspended adminID = bindE (query_first (admin_by_id adminID)) (\<lambda>m.
     ret (adm_suspended_at m > 0, adm_suspended_reason m))"

definition InviteAncestry :: "(int \<times> int list) list db" where
  "InviteAncestry = bindE inviteEdges (\<lambda>edges.
     ret (filter (\<lambda>(_, chain). chain \<noteq> [])
       (map (\<lambda>(child, _). (child, ancestry edges (Suc (length edges)) child [child])) edges)))"

subsection \<open>Traffic of the tree\<close>

record own_row =
  or_bytes :: int
  or_clients :: int

definition owned_sum :: "int \<Rightarrow> store \<Rightarrow> int" where
  "owned_sum a s = sum_list (map (\<lambda>c. uint (used_of (cl_id c) s)) (filter (\<lambda>c. cl_owner c = a) (clients s)))"

definition own_rows :: "store \<Rightarrow> (int \<times> own_row) list" where
  "own_rows s = map (\<lambda>a. (a, \<lparr>or_bytes = owned_sum a s,
     or_clients = int (length (filter (\<lambda>c. cl_owner c = a) (clients s)))\<rparr>))
     (remdups (map cl_owner (clients s)))"

definition own_of :: "(int \<times> own_row) list \<Rightarrow> int \<Rightarrow> own_row" where
  "own_of own a = (case map_of own a of None \<Rightarrow> \<lparr>or_bytes = 0, or_clients = 0\<rparr> | Some r \<Rightarrow> r)"

text \<open>Every account in the final queue is visited once.\<close>

definition subtreeTotals :: "int \<Rightarrow> edges \<Rightarrow> (int \<times> own_row) list \<Rightarrow> u64 \<times> int \<times> int" where
  "subtreeTotals root parent own =
     (let queue = walk_down parent None 0 [root] [root] in
      (sum_list (map (\<lambda>a. u64_of (or_bytes (own_of own a))) queue),
       sum_list (map (\<lambda>a. or_clients (own_of own a)) queue),
       int (length queue)))"

definition rollup_upd :: "rollup_row \<Rightarrow> rollup_row \<Rightarrow> rollup_row" where
  "rollup_upd new old = new\<lparr>ru_admin_id := ru_admin_id old\<rparr>"

definition rollup_entry :: "edges \<Rightarrow> (int \<times> own_row) list \<Rightarrow> int \<Rightarrow> admin \<Rightarrow> rollup_row" where
  "rollup_entry parent own now a = (case subtreeTotals (a_id a) parent own of (bytes, cs, members) \<Rightarrow>
     \<lparr>ru_admin_id = a_id a, ru_own_bytes = u64_of (or_bytes (own_of own (a_id a))),
      ru_subtree_bytes = bytes, ru_own_clients = or_clients (own_of own (a_id a)),
      ru_subtree_clients = cs, ru_subtree_admins = members - 1, ru_updated_at = now\<rparr>)"

definition RollupAdminTraffic :: "unit db" where
  "RollupAdminTraffic =
     bindE (stmt (\<lambda>s. (if \<forall>c \<in> set (clients s). owned_sum (cl_owner c) s < 2 ^ 63
                       then Inr (own_rows s) else Inl ErrDb, s))) (\<lambda>own.
     bindE inviteEdges (\<lambda>parent.
     bindE ListAdmins (\<lambda>adm.
     bindE (asks clock) (\<lambda>now.
     let rows = map (rollup_entry parent own now) adm
     in if rows = [] then ret ()
        else upsert_rows rollups_update ru_admin_id rollup_upd (\<lambda>s r. fk_admin (ru_admin_id r) s) rows))))"

definition AdminTrafficMap :: "(int \<times> rollup_row) list db" where
  "AdminTrafficMap = select (\<lambda>s. map (\<lambda>r. (ru_admin_id r, r)) (rollups s))"

subsection \<open>Invariant\<close>

lemma pres_AppendAudit [pres]: "preserves wf_store (AppendAudit e)"
  unfolding AppendAudit_def Let_def
  by (intro pres pres_stmt fault_free_wf)
     (auto simp: wf_defs refers_def orefers_def fk_ids admin_ids_def split: option.splits intro: less_trans)

lemma pres_PruneAudit [pres]: "preserves wf_store (PruneAuditOlderThan c)"
  unfolding PruneAuditOlderThan_def
  by (intro pres pres_delete_rows fault_free_wf) (auto simp: wf_defs orefers_def)

lemma pres_DeleteInvite [pres]: "preserves wf_store (DeleteInvite tok)"
  unfolding DeleteInvite_def
  by (intro pres pres_delete_rows fault_free_wf) (auto simp: wf_defs orefers_def)

lemma pres_SetPlatformSetting [pres]: "preserves wf_store (SetPlatformSetting k v)"
  unfolding SetPlatformSetting_def
  by (intro pres pres_upsert_rows fault_free_wf)
     (auto intro!: wf_put setting_table.upsert_intros simp: wf_get)

lemma pres_CreateInvite [pres]: "preserves wf_store (CreateInviteWithUses tok e a m)"
  unfolding CreateInviteWithUses_def Let_def
  by (intro pres pres_insert_row fault_free_wf)
     (auto simp: wf_defs refers_def orefers_def fk_ids admin_ids_def)

lemma wf_put_invites:
  "wf_store s \<Longrightarrow> uniq iv_token (f (invites s)) \<Longrightarrow>
     (driver s = DriverSQLite \<Longrightarrow> orefers iv_used_by (f (invites s)) (admin_ids s) \<and>
        orefers iv_created_by (f (invites s)) (admin_ids s)) \<Longrightarrow> wf_store (invites_update f s)"
  by (simp add: wf_defs)

lemma spend_use_keys [simp]:
  "iv_token (spend_use now a r) = iv_token r" "iv_created_by (spend_use now a r) = iv_created_by r"
  "iv_max_uses (spend_use now a r) = iv_max_uses r"
  by (simp_all add: spend_use_def)

lemma pres_spend_invite [pres]: "preserves wf_store (spend_invite tok now a)"
proof -
  have *: "wf_store (invites_update (update_where (redeemable tok now) (spend_use now a)) s)"
    if wf: "wf_store s" and ok: "\<forall>r \<in> set (invites s). redeemable tok now r \<longrightarrow> iv_used_by r = None \<longrightarrow> fk_admin a s" for s
  proof (rule wf_put_invites [OF wf])
    assume d: "driver s = DriverSQLite"
    have o: "orefers iv_used_by (invites s) (admin_ids s)" "orefers iv_created_by (invites s) (admin_ids s)"
      using wf d by (simp_all add: wf_defs)
    have "orefers iv_used_by (update_where (redeemable tok now) (spend_use now a) (invites s)) (admin_ids s)"
      using o(1) ok d
      by (auto simp: orefers_def ball_update_where spend_use_def fk_ids split: option.splits)
    then show "orefers iv_used_by (update_where (redeemable tok now) (spend_use now a) (invites s)) (admin_ids s)
      \<and> orefers iv_created_by (update_where (redeemable tok now) (spend_use now a) (invites s)) (admin_ids s)"
      using o(2) by simp
  qed (use wf in \<open>simp add: wf_get\<close>)
  show ?thesis
    unfolding spend_invite_def by (rule pres_stmt) (use * in \<open>fastforce split: if_splits\<close>)+
qed

lemma rd_key_new [simp]: "rd_key \<lparr>rd_token = t, rd_admin_id = a, rd_created_at = c\<rparr> = (t, a)"
  by (simp add: rd_key_def)

lemma pres_RedeemInvite [pres]: "preserves wf_store (RedeemInvite tok a)"
  unfolding RedeemInvite_def Let_def
  apply (intro pres pres_insert_row fault_free_wf)
  apply (rule wf_put; simp add: wf_get fk_ids)
  done

lemma pres_inviteEdges [pres]: "fault_free I \<Longrightarrow> preserves I inviteEdges"
  unfolding inviteEdges_def by (intro pres)

lemma pres_SuspendSubtree [pres]: "preserves wf_store (SuspendSubtree r reason)"
  unfolding SuspendSubtree_def InviteSubtree_def FindAdminByID_def
  apply (intro pres pres_update_admins pres_delete_rows fault_free_wf)
  apply (simp_all add: suspend_row_def)
  by (simp add: wf_put wf_get)

lemma pres_RestoreSubtree [pres]: "preserves wf_store (RestoreSubtree r)"
  unfolding RestoreSubtree_def
  by (intro pres pres_update_admins; simp add: restore_row_def)

interpretation rollup_table: keyed_table ru_admin_id rollup_upd
  by unfold_locales (simp add: rollup_upd_def)

lemma pres_RollupAdminTraffic [pres]: "preserves wf_store RollupAdminTraffic"
  unfolding RollupAdminTraffic_def ListAdmins_def Let_def
  by (intro pres pres_stmt pres_upsert_rows fault_free_wf)
     (auto intro!: wf_put rollup_table.upsert_intros simp: wf_get fk_ids rollup_upd_def list_all_iff)

subsection \<open>Uses of a code\<close>

definition uses_ok :: "store \<Rightarrow> bool" where
  "uses_ok s \<longleftrightarrow> (\<forall>r \<in> set (invites s).
     iv_max_uses r \<ge> 0 \<and> (iv_max_uses r > 0 \<longrightarrow> iv_use_count r \<le> iv_max_uses r))"

lemma fault_free_uses [simp]: "fault_free uses_ok"
  by (simp add: fault_free_def uses_ok_def)

lemma uses_spend: "preserves uses_ok (spend_invite tok now a)"
  unfolding spend_invite_def
  by (rule pres_stmt) (auto simp: uses_ok_def set_update_where redeemable_def spend_use_def)

lemma uses_DeleteAdmin: "preserves uses_ok (DeleteAdmin i)"
  unfolding DeleteAdmin_def delete_admins_def
  by (intro pres pres_stmt)
     (auto simp: uses_ok_def remove_admins_def cascade_admins_def remove_clients_def
        cascade_clients_def drop_client_rows_def require_affected_def split: if_splits)

text \<open>A code is never spent more often than it allows. Issuing, redeeming and deleting codes and
  deleting accounts keep, whatever statements fail, every limited code's use count within its limit
  (zero means no limit); in particular a code of one use is good for one registration.\<close>

theorem invite_uses_bounded:
  "preserves uses_ok (CreateInviteWithUses token expiresAt createdBy maxUses) \<and>
   preserves uses_ok (RedeemInvite token a) \<and> preserves uses_ok (DeleteInvite token) \<and>
   preserves uses_ok (DeleteAdmin a)"
proof (intro conjI uses_DeleteAdmin)
  show "preserves uses_ok (CreateInviteWithUses token expiresAt createdBy maxUses)"
    unfolding CreateInviteWithUses_def Let_def
    by (intro pres pres_insert_row) (auto simp: uses_ok_def)
  show "preserves uses_ok (RedeemInvite token a)"
    unfolding RedeemInvite_def Let_def
    by (intro pres pres_insert_row uses_spend) (simp_all add: uses_ok_def)
  show "preserves uses_ok (DeleteInvite token)"
    unfolding DeleteInvite_def by (intro pres pres_delete_rows) (auto simp: uses_ok_def)
qed

subsection \<open>The tree over a working database\<close>

definition edges_of :: "store \<Rightarrow> edges" where
  "edges_of s = first_inviter [] (redemption_edges s @ legacy_edges s)"

lemma inviteEdges_ok [db_simps]: "faults s = [] \<Longrightarrow> inviteEdges s = (Inr (edges_of s), s)"
  by (simp add: inviteEdges_def bindE_def select_ok edges_of_def)

lemma InviteSubtree_ok:
  assumes "faults s = []"
  obtains ids where "InviteSubtree root s = (Inr ids, s)"
    "set ids = (invited (edges_of s))\<^sup>* `` {root}" "distinct ids"
proof -
  let ?p = "edges_of s"
  let ?w = "walk_down ?p (Some (maxInviteDepth * length ?p + 1)) 0 [root] [root]"
  have "InviteSubtree root s = (Inr ?w, s)"
    by (simp add: InviteSubtree_def bindE_def inviteEdges_ok assms)
  moreover have "set ?w = (invited ?p)\<^sup>* `` {root} \<and> distinct ?w"
    by (rule walk_down_reachable) (simp add: maxInviteDepth_def)
  ultimately show ?thesis using that by blast
qed

lemma FindAdminByID_ok:
  "faults s = [] \<Longrightarrow> admin_by_id i s = Some m \<Longrightarrow> FindAdminByID i s = (Inr (toStorageAdmin m), s)"
  by (simp add: FindAdminByID_def bindE_def find_row_ok)

definition cut_off :: "store \<Rightarrow> int \<Rightarrow> admin_row \<Rightarrow> bool" where
  "cut_off s root r \<longleftrightarrow> adm_id r \<in> (invited (edges_of s))\<^sup>* `` {root} \<and> adm_suspended_at r = 0 \<and>
     adm_role r \<noteq> RoleOwner"

lemma SuspendSubtree_ok:
  assumes f: "faults s = []" and m: "admin_by_id root s = Some m" and r: "a_role (toStorageAdmin m) \<noteq> RoleOwner"
  shows "SuspendSubtree root reason s =
    (Inr (affected (driver s) (cut_off s root) (suspend_row (clock s) reason root) (admins s), None),
     s\<lparr>admins := update_where (cut_off s root) (suspend_row (clock s) reason root) (admins s),
       sessions := filter (\<lambda>x. se_admin_id x \<notin> (invited (edges_of s))\<^sup>* `` {root}) (sessions s)\<rparr>)"
proof -
  obtain ids where i: "InviteSubtree root s = (Inr ids, s)"
    "set ids = (invited (edges_of s))\<^sup>* `` {root}" using InviteSubtree_ok [OF f] by blast
  have c: "(\<lambda>a. adm_id a \<in> set ids \<and> adm_suspended_at a = 0 \<and> adm_role a \<noteq> RoleOwner) = cut_off s root"
    by (simp add: cut_off_def i(2) fun_eq_iff)
  let ?s1 = "admins_update (update_where (cut_off s root) (suspend_row (clock s) reason root)) s"
  have f1: "faults ?s1 = []" by (simp add: f)
  show ?thesis
    by (simp add: SuspendSubtree_def bindE_def FindAdminByID_ok [OF f m] r i(1) update_rows_ok f c
        attempt_app delete_rows_ok i(2) [symmetric])
qed

text \<open>C4: Cutting a branch. Unless the account is an owner (refused, and nothing changes), with a working
  database exactly the accounts at or below it in the invite tree that are not owners and not
  already suspended become suspended under this cut, nobody else changes, and no session of anybody
  at or below it is left.\<close>

theorem suspend_subtree:
  assumes "faults s = []" "admin_by_id root s = Some m"
  shows "if a_role (toStorageAdmin m) = RoleOwner
    then SuspendSubtree root reason s = (Inl ErrCannotSuspendOwner, s)
    else \<exists>n s'. SuspendSubtree root reason s = (Inr (n, None), s') \<and>
      admins s' = map (\<lambda>r. if adm_id r \<in> (invited (edges_of s))\<^sup>* `` {root} \<and> adm_suspended_at r = 0 \<and>
          adm_role r \<noteq> RoleOwner
        then r\<lparr>adm_suspended_at := clock s, adm_suspended_reason := reason,
               adm_suspended_by_root := root, adm_updated_at := clock s\<rparr> else r) (admins s) \<and>
      sessions s' = filter (\<lambda>x. se_admin_id x \<notin> (invited (edges_of s))\<^sup>* `` {root}) (sessions s)"
proof (cases "a_role (toStorageAdmin m) = RoleOwner")
  case True
  then show ?thesis
    by (simp add: SuspendSubtree_def bindE_def FindAdminByID_ok [OF assms])
next
  case False
  then show ?thesis
    by (simp add: SuspendSubtree_ok [OF assms False] update_where_def cut_off_def suspend_row_def)
qed

definition suspension_of :: "admin_row \<Rightarrow> int \<times> int \<times> string \<times> int" where
  "suspension_of r = (adm_id r, adm_suspended_at r, adm_suspended_reason r, adm_suspended_by_root r)"

text \<open>Lifting a cut undoes it. Restoring right after a cut gives every account back the suspension
  state it had, when accounts that were not suspended carried no stale reason or cut and no account
  was already under a cut made at the same point; sessions stay dropped.\<close>

theorem restore_undoes_suspend:
  assumes "faults s = []" "admin_by_id root s = Some m" "a_role (toStorageAdmin m) \<noteq> RoleOwner"
    and "root \<noteq> 0" "\<forall>r \<in> set (admins s). adm_suspended_by_root r \<noteq> root"
    and "\<forall>r \<in> set (admins s). adm_suspended_at r = 0 \<longrightarrow>
           adm_suspended_reason r = [] \<and> adm_suspended_by_root r = 0"
  shows "\<exists>n k s1 s2. SuspendSubtree root reason s = (Inr (n, None), s1) \<and>
    RestoreSubtree root s1 = (Inr k, s2) \<and>
    map suspension_of (admins s2) = map suspension_of (admins s)"
proof -
  obtain n s1 where s1: "SuspendSubtree root reason s = (Inr (n, None), s1)" "faults s1 = []"
    "admins s1 = update_where (cut_off s root) (suspend_row (clock s) reason root) (admins s)"
    using SuspendSubtree_ok [OF assms(1-3), of reason] assms(1) by simp
  have "suspension_of (let r1 = (if cut_off s root r then suspend_row (clock s) reason root r else r)
      in if adm_suspended_by_root r1 = root then restore_row (clock s1) r1 else r1) = suspension_of r"
    if "r \<in> set (admins s)" for r
    using assms(4-6) that by (auto simp: suspension_of_def suspend_row_def restore_row_def cut_off_def Let_def)
  then have "map suspension_of (update_where (\<lambda>a. adm_suspended_by_root a = root) (restore_row (clock s1)) (admins s1))
      = map suspension_of (admins s)"
    by (simp add: s1(3) update_where_def comp_def Let_def)
  then show ?thesis
    using s1 by (auto simp: RestoreSubtree_def bindE_def update_rows_ok)
qed

subsection \<open>Redeeming\<close>

lemma spend_changes: "spend_use now a r \<noteq> r"
  by (cases r) (simp add: spend_use_def)

lemma affected_spend:
  "affected d P (spend_use now a) rs = length (filter P rs)"
  by (simp add: affected_def spend_changes)

lemma invites_update_same: "f (invites s) = invites s \<Longrightarrow> invites_update f s = s"
  by (cases s) simp

text \<open>Redeeming a code, on every branch. An empty code, and one no stored code matches (letter case
  aside), with uses left and not expired, is refused and nothing changes. Otherwise every matching
  code has one more use, with the first redeemer and time kept, the redemption is recorded and the
  account from then on counts as invited. If the same account redeems the same text a second time,
  the call fails although the use has been spent.\<close>

theorem redeem_invite:
  assumes f: "faults s = []" and fk: "fk_admin a s"
  shows "if trim_space token = [] \<or> (\<forall>r \<in> set (invites s). \<not> redeemable (trim_space token) (clock s) r)
    then RedeemInvite token a s = (Inl ErrNotFound, s)
    else \<exists>s'. RedeemInvite token a s =
        (if (trim_space token, a) \<in> rd_key ` set (redemptions s) then Inl ErrConstraint else Inr (), s') \<and>
      (invites s' = map (\<lambda>r. if redeemable (trim_space token) (clock s) r
        then r\<lparr>iv_use_count := iv_use_count r + 1,
               iv_used_at := (if iv_used_at r = 0 then clock s else iv_used_at r),
               iv_used_by := (case iv_used_by r of None \<Rightarrow> Some a | Some b \<Rightarrow> Some b)\<rparr> else r) (invites s) \<and>
      ((trim_space token, a) \<notin> rd_key ` set (redemptions s) \<longrightarrow>
         redemptions s' = redemptions s @
           [\<lparr>rd_token = trim_space token, rd_admin_id = a, rd_created_at = clock s\<rparr>] \<and>
         RedeemedInvite a s' = (Inr True, s')))"
    (is "if _ then _ else \<exists>s'. _ \<and> ?Q s'")
proof (cases "trim_space token = []")
  case True
  then show ?thesis by (simp add: RedeemInvite_def)
next
  case ne: False
  let ?P = "redeemable (trim_space token) (clock s)" and ?f = "spend_use (clock s) a"
  let ?s1 = "invites_update (update_where ?P ?f) s"
  have sp: "spend_invite (trim_space token) (clock s) a s = (Inr (length (filter ?P (invites s))), ?s1)"
    using f fk by (simp add: spend_invite_def stmt_ok affected_spend)
  show ?thesis
  proof (cases "\<forall>r \<in> set (invites s). \<not> ?P r")
    case True
    then have "length (filter ?P (invites s)) = 0" by (simp add: length_filter_zero)
    moreover have "?s1 = s" by (rule invites_update_same) (rule update_where_none [OF True])
    ultimately have "spend_invite (trim_space token) (clock s) a s = (Inr 0, s)" using sp by metis
    then have "RedeemInvite token a s = (Inl ErrNotFound, s)" using ne by (simp add: RedeemInvite_def bindE_def Let_def)
    then show ?thesis using True by simp
  next
    case False
    then have n: "length (filter ?P (invites s)) \<noteq> 0" unfolding length_filter_zero by blast
    let ?row = "\<lparr>rd_token = trim_space token, rd_admin_id = a, rd_created_at = clock s\<rparr>"
    have R: "RedeemInvite token a s =
        (if (trim_space token, a) \<in> rd_key ` set (redemptions s) then (Inl ErrConstraint, ?s1)
         else (Inr (), redemptions_update (\<lambda>rs. rs @ [?row]) ?s1))"
      using n sp ne f fk
      by (simp add: RedeemInvite_def bindE_def insert_row_ok fk_admin_def Let_def)
    have RI: "RedeemedInvite a (redemptions_update (\<lambda>rs. rs @ [?row]) ?s1) =
        (Inr True, redemptions_update (\<lambda>rs. rs @ [?row]) ?s1)"
      using f by (simp add: RedeemedInvite_def bindE_def select_ok)
    have I: "invites ?s1 = map (\<lambda>r. if ?P r
        then r\<lparr>iv_use_count := iv_use_count r + 1,
               iv_used_at := (if iv_used_at r = 0 then clock s else iv_used_at r),
               iv_used_by := (case iv_used_by r of None \<Rightarrow> Some a | Some b \<Rightarrow> Some b)\<rparr> else r) (invites s)"
      by (simp add: update_where_def spend_use_def)
    have B: "\<not> (trim_space token = [] \<or> (\<forall>r \<in> set (invites s). \<not> ?P r))" using False ne by blast
    show ?thesis
    proof (subst if_not_P [OF B], cases "(trim_space token, a) \<in> rd_key ` set (redemptions s)")
      case True
      then show "\<exists>s'. RedeemInvite token a s = (if (trim_space token, a) \<in> rd_key ` set (redemptions s)
          then Inl ErrConstraint else Inr (), s') \<and> ?Q s'"
        using R I by (intro exI [of _ ?s1]) simp
    next
      case False
      then show "\<exists>s'. RedeemInvite token a s = (if (trim_space token, a) \<in> rd_key ` set (redemptions s)
          then Inl ErrConstraint else Inr (), s') \<and> ?Q s'"
        using R I RI by (intro exI [of _ "redemptions_update (\<lambda>rs. rs @ [?row]) ?s1"]) simp
    qed
  qed
qed

text \<open>A code typed in another letter case leaves the newcomer outside the tree. When no stored code is
  spelled as typed, and the codes it matches already name their first redeemer, a successful
  redemption adds no edge: the account has an invitation but no inviter, so a cut of the branch does
  not reach it.\<close>

theorem redeem_other_case_no_edge:
  assumes f: "faults s = []"
    and spelled: "\<forall>r \<in> set (invites s). iv_token r \<noteq> trim_space token"
    and named: "\<forall>r \<in> set (invites s). to_upper (iv_token r) = to_upper (trim_space token) \<longrightarrow> iv_used_by r \<noteq> None"
    and ok: "RedeemInvite token a s = (Inr (), s')"
  shows "edges_of s' = edges_of s"
proof -
  let ?P = "redeemable (trim_space token) (clock s)" and ?f = "spend_use (clock s) a"
  have "trim_space token \<noteq> []" using ok by (auto simp: RedeemInvite_def)
  then have inv: "invites s' = update_where ?P ?f (invites s)" and
    red: "redemptions s' = redemptions s @ [\<lparr>rd_token = trim_space token, rd_admin_id = a, rd_created_at = clock s\<rparr>]"
    using ok f
    by (auto simp: RedeemInvite_def bindE_def spend_invite_def stmt_ok insert_row_ok Let_def split: if_splits)
  have used: "iv_used_by (?f r) = iv_used_by r" if "r \<in> set (invites s)" "?P r" for r
    using named that by (auto simp: spend_use_def redeemable_def)
  have bt: "iv_created_by (if ?P r then ?f r else r) = iv_created_by r"
    "iv_token (if ?P r then ?f r else r) = iv_token r" for r by simp_all
  have "filter (\<lambda>t. iv_token t = k \<and> iv_created_by t \<noteq> None) (invites s') =
      map (\<lambda>r. if ?P r then ?f r else r) (filter (\<lambda>t. iv_token t = k \<and> iv_created_by t \<noteq> None) (invites s))" for k
    by (simp add: inv update_where_def filter_map comp_def bt)
  then have "redemption_edges s' = redemption_edges s"
    using spelled by (simp add: redemption_edges_def red comp_def bt filter_False)
  moreover have "legacy_edges s' = legacy_edges s"
    using used by (auto simp: legacy_edges_def inv update_where_def filter_map comp_def bt intro!: map_cong filter_cong)
  ultimately show ?thesis by (simp add: edges_of_def)
qed


subsection \<open>A tree of three\<close>

text \<open>The first account invited the second, the second the third, each with a reusable code.\<close>

definition tree_code :: "string \<Rightarrow> int \<Rightarrow> int \<Rightarrow> invite_row" where
  "tree_code tok by first = \<lparr>iv_token = tok, iv_created_at = 1, iv_expires_at = 0, iv_used_at = 5,
     iv_used_by = Some first, iv_created_by = Some by, iv_max_uses = 0, iv_use_count = 1\<rparr>"

definition tree_store :: store where
  "tree_store = (sample_store DriverSQLite)\<lparr>
     admins := [sample_admin 1 ''root'' RoleOwner, sample_admin 2 ''ann'' RoleAdmin, sample_admin 3 ''bob'' RoleUser],
     admins_seq := 4,
     sessions := [\<lparr>se_id = ''x'', se_admin_id = 3, se_expires_at = 9000000, se_created_at = 1\<rparr>],
     invites := [tree_code ''AA'' 1 2, tree_code ''BB'' 2 3],
     redemptions := [\<lparr>rd_token = ''AA'', rd_admin_id = 2, rd_created_at = 5\<rparr>,
                     \<lparr>rd_token = ''BB'', rd_admin_id = 3, rd_created_at = 5\<rparr>]\<rparr>"

lemma tree_store_simps [simp]:
  "faults tree_store = []" "clock tree_store = 5000000" "driver tree_store = DriverSQLite"
  "admins tree_store = [sample_admin 1 ''root'' RoleOwner, sample_admin 2 ''ann'' RoleAdmin, sample_admin 3 ''bob'' RoleUser]"
  "invites tree_store = [tree_code ''AA'' 1 2, tree_code ''BB'' 2 3]"
  by (simp_all add: tree_store_def sample_defs)

lemma tree_admin_2: "admin_by_id 2 tree_store = Some (sample_admin 2 ''ann'' RoleAdmin)"
  by (simp add: admin_by_id_def sample_admin_def)

lemma tree_role_2: "a_role (toStorageAdmin (sample_admin 2 ''ann'' RoleAdmin)) = RoleAdmin"
  by (simp add: toStorageAdmin_def sample_admin_def RoleAdmin_def)

lemma tree_role_owner: "a_role (toStorageAdmin (sample_admin 2 ''ann'' RoleAdmin)) \<noteq> RoleOwner"
  unfolding tree_role_2 by (simp add: RoleAdmin_def RoleOwner_def)

lemma tree_edges: "edges_of tree_store = [(2, 1), (3, 2)]"
  by (simp add: edges_of_def redemption_edges_def legacy_edges_def tree_code_def derefInt64_def
      tree_store_def sample_store_def)

theorem suspend_subtree_witness:
  "\<exists>n s'. SuspendSubtree 2 ''spam'' tree_store = (Inr (n, None), s') \<and>
     map adm_suspended_at (admins s') = [0, 5000000, 5000000]"
proof -
  have r: "(invited [(2, 1), (3, 2)])\<^sup>* `` {2} = {2, 3}"
    using walk_down_reachable [of None "[(2, 1), (3, 2)]" 2]
    by (simp add: walk_down.simps children_of_def)
  from suspend_subtree [OF tree_store_simps(1) tree_admin_2, of "''spam''"]
  obtain n s' where s': "SuspendSubtree 2 ''spam'' tree_store = (Inr (n, None), s')"
    "admins s' = map (\<lambda>r. if adm_id r \<in> {2, 3} \<and> adm_suspended_at r = 0 \<and> adm_role r \<noteq> RoleOwner
        then r\<lparr>adm_suspended_at := 5000000, adm_suspended_reason := ''spam'',
               adm_suspended_by_root := 2, adm_updated_at := 5000000\<rparr> else r) (admins tree_store)"
    unfolding if_not_P [OF tree_role_owner] tree_edges r tree_store_simps(2) by blast
  show ?thesis
    by (intro exI conjI, rule s'(1))
       (simp add: s'(2) sample_admin_def RoleOwner_def RoleAdmin_def RoleUser_def)
qed

theorem restore_undoes_suspend_witness:
  "\<exists>n k s1 s2. SuspendSubtree 2 ''spam'' tree_store = (Inr (n, None), s1) \<and>
     RestoreSubtree 2 s1 = (Inr k, s2) \<and>
     map suspension_of (admins s2) = map suspension_of (admins tree_store)"
  by (rule restore_undoes_suspend [OF _ tree_admin_2 tree_role_owner]) (simp_all add: sample_admin_def)

theorem redeem_invite_witness:
  "\<exists>s'. RedeemInvite '' AA '' 3 tree_store = (Inr (), s') \<and> RedeemedInvite 3 s' = (Inr True, s') \<and>
     map iv_use_count (invites s') = [2, 1]"
proof -
  have t: "trim_space '' AA '' = ''AA''" by code_simp
  have p: "redeemable ''AA'' 5000000 (tree_code ''AA'' 1 2)" "\<not> redeemable ''AA'' 5000000 (tree_code ''BB'' 2 3)"
    by (code_simp+)
  have k: "(''AA'', 3) \<notin> rd_key ` set (redemptions tree_store)"
    by (simp add: tree_store_def rd_key_def)
  have "fk_admin 3 tree_store" by (simp add: fk_admin_def sample_admin_def)
  from redeem_invite [OF _ this, of "'' AA ''"] show ?thesis
    using p k by (auto simp: t tree_code_def)
qed

theorem redeem_other_case_no_edge_witness:
  "\<exists>s'. RedeemInvite ''aa'' 3 tree_store = (Inr (), s') \<and> edges_of s' = edges_of tree_store"
proof -
  have t: "trim_space ''aa'' = ''aa''" by code_simp
  obtain s' where s': "RedeemInvite ''aa'' 3 tree_store = (Inr (), s')"
  proof -
    have p: "redeemable ''aa'' 5000000 (tree_code ''AA'' 1 2)" by code_simp
    have k: "(''aa'', 3) \<notin> rd_key ` set (redemptions tree_store)"
      by (simp add: tree_store_def rd_key_def)
    have n: "length (filter (redeemable ''aa'' 5000000) (invites tree_store)) \<noteq> 0" using p by simp
    show ?thesis
      using that k n p
      by (simp add: RedeemInvite_def t bindE_def spend_invite_def stmt_ok insert_row_ok fk_admin_def
          affected_spend sample_admin_def Let_def)
  qed
  moreover have "edges_of s' = edges_of tree_store"
    by (rule redeem_other_case_no_edge [OF _ _ _ s']) (simp_all add: t tree_code_def)
  ultimately show ?thesis by blast
qed

subsection \<open>The rollup\<close>

context keyed_table
begin

lemma find_upsert_row:
  assumes "distinct (map key rows)" "r \<in> set rows"
  shows "find (\<lambda>r'. key r' = key r) (fold (upsert_one key upd) rows rs) =
    Some (case find (\<lambda>r'. key r' = key r) rs of None \<Rightarrow> r | Some old \<Rightarrow> upd r old)"
  using assms
proof (induction rows arbitrary: rs)
  case (Cons x rows)
  show ?case
  proof (cases "r = x")
    case True
    then have "key r \<notin> key ` set rows" using Cons.prems(1) by simp
    then show ?thesis using True by (simp add: find_upsert_other find_upsert_one split: option.split)
  next
    case False
    then have "r \<in> set rows" using Cons.prems by simp
    moreover have "key x \<notin> key ` set rows" using Cons.prems(1) by simp
    then have "key r \<noteq> key x" using \<open>r \<in> set rows\<close> by (metis imageI)
    ultimately show ?thesis using Cons by (simp add: find_upsert_one)
  qed
qed simp

end

text \<open>The devices of a set of accounts, and what they used.\<close>

definition devices_of :: "int set \<Rightarrow> store \<Rightarrow> client_row list" where
  "devices_of A s = filter (\<lambda>c. cl_owner c \<in> A) (clients s)"

lemma own_of_rows:
  "own_of (own_rows s) a = \<lparr>or_bytes = owned_sum a s, or_clients = int (length (devices_of {a} s))\<rparr>"
proof -
  let ?f = "\<lambda>a. \<lparr>or_bytes = owned_sum a s, or_clients = int (length (filter (\<lambda>c. cl_owner c = a) (clients s)))\<rparr>"
  have m: "map_of (map (\<lambda>a. (a, ?f a)) xs) a = (if a \<in> set xs then Some (?f a) else None)" for xs
    by (induction xs) auto
  show ?thesis
  proof (cases "a \<in> cl_owner ` set (clients s)")
    case True
    then show ?thesis by (simp add: own_of_def own_rows_def m devices_of_def)
  next
    case False
    then have "filter (\<lambda>c. cl_owner c = a) (clients s) = []" by (auto simp: filter_empty_conv)
    moreover from this have "owned_sum a s = 0" by (simp add: owned_sum_def)
    ultimately show ?thesis using False
      by (simp add: own_of_def own_rows_def m devices_of_def)
  qed
qed

lemma sum_over_owners:
  fixes g :: "client_row \<Rightarrow> int"
  assumes "distinct q"
  shows "sum_list (map (\<lambda>a. sum_list (map g (filter (\<lambda>c. cl_owner c = a) cs))) q) =
    sum_list (map g (filter (\<lambda>c. cl_owner c \<in> set q) cs))"
  using assms
proof (induction q)
  case (Cons a q)
  have "sum_list (map g (filter (\<lambda>c. cl_owner c \<in> set (a # q)) cs)) =
      sum_list (map g (filter (\<lambda>c. cl_owner c = a) cs)) + sum_list (map g (filter (\<lambda>c. cl_owner c \<in> set q) cs))"
    using Cons.prems by (induction cs) auto
  then show ?case using Cons by simp
qed simp

lemma u64_of_sum_list: "sum_list (map (\<lambda>a. u64_of (f a)) q) = u64_of (sum_list (map f q))"
  by (induction q) (simp_all add: u64_of_def)

definition used_sum :: "client_row list \<Rightarrow> store \<Rightarrow> int" where
  "used_sum cs s = sum_list (map (\<lambda>c. uint (used_of (cl_id c) s)) cs)"

lemma owned_sum_used: "owned_sum a s = used_sum (devices_of {a} s) s"
  by (simp add: owned_sum_def used_sum_def devices_of_def)

lemma subtreeTotals_rows:
  "subtreeTotals root parent (own_rows s) =
    (let A = (invited parent)\<^sup>* `` {root} in
     (u64_of (used_sum (devices_of A s) s), int (length (devices_of A s)), int (card A)))"
proof -
  let ?q = "walk_down parent None 0 [root] [root]" and ?A = "(invited parent)\<^sup>* `` {root}"
  have q: "set ?q = ?A" "distinct ?q" using walk_down_reachable [of None parent root] by simp_all
  have len: "int (length xs) = sum_list (map (\<lambda>_. 1) xs)" for xs :: "client_row list"
    by (induction xs) auto
  have b: "sum_list (map (\<lambda>a. owned_sum a s) ?q) = used_sum (devices_of ?A s) s"
    using sum_over_owners [OF q(2), of "\<lambda>c. uint (used_of (cl_id c) s)" "clients s"]
    by (simp add: owned_sum_def used_sum_def devices_of_def q(1))
  have c: "sum_list (map (\<lambda>a. int (length (devices_of {a} s))) ?q) = int (length (devices_of ?A s))"
    using sum_over_owners [OF q(2), of "\<lambda>_. 1" "clients s"] by (simp add: len devices_of_def q(1))
  have n: "int (length ?q) = int (card ?A)"
    using distinct_card [OF q(2)] q(1) by simp
  show ?thesis
    by (simp only: subtreeTotals_def Let_def own_of_rows own_row.select_convs u64_of_sum_list b c n)
qed

lemma rollup_entry_id [simp]: "ru_admin_id (rollup_entry p own now a) = a_id a"
  by (simp add: rollup_entry_def split: prod.split)

lemma toStorageAdmin_id [simp]: "a_id (toStorageAdmin m) = adm_id m"
  by (simp add: toStorageAdmin_def)

lemma sort_key_empty: "sort_key f xs = [] \<longleftrightarrow> xs = []"
  by (metis length_0_conv length_sort)

text \<open>C30: The traffic of a branch. When the database works, no account's own sum exceeds an int64 and every
  account exists once, the rollup stores for every account what its own devices used and how many they are, and for
  the whole branch below it, each account counted once however the edges are shaped, the number of
  accounts brought in, their devices and the sum of what those devices used.\<close>

theorem rollup_branches:
  assumes f: "faults s = []" and wf: "wf_store s"
    and fit: "\<forall>c \<in> set (clients s). owned_sum (cl_owner c) s < 2 ^ 63"
  shows "\<exists>s'. RollupAdminTraffic s = (Inr (), s') \<and>
    (\<forall>m \<in> set (admins s). \<exists>row. find (\<lambda>r. ru_admin_id r = adm_id m) (rollups s') = Some row \<and>
       (let A = (invited (edges_of s))\<^sup>* `` {adm_id m} in
        ru_own_bytes row = u64_of (used_sum (devices_of {adm_id m} s) s) \<and>
        ru_own_clients row = int (length (devices_of {adm_id m} s)) \<and>
        ru_subtree_admins row = int (card A) - 1 \<and>
        ru_subtree_clients row = int (length (devices_of A s)) \<and>
        ru_subtree_bytes row = u64_of (used_sum (devices_of A s) s)))"
proof -
  let ?row = "rollup_entry (edges_of s) (own_rows s) (clock s)"
  let ?rows = "map ?row (map toStorageAdmin (sort_key adm_created_at (admins s)))"
  let ?s' = "rollups_update (fold (upsert_one ru_admin_id rollup_upd) ?rows) s"
  have keys: "map ru_admin_id ?rows = map adm_id (sort_key adm_created_at (admins s))"
    by simp
  have dist: "distinct (map ru_admin_id ?rows)"
    unfolding keys using wf by (simp add: wf_defs uniq_def distinct_map)
  have fk: "list_all (\<lambda>r. fk_admin (ru_admin_id r) s) ?rows"
    by (auto simp: list_all_iff fk_admin_def)
  have run: "RollupAdminTraffic s = (Inr (), if ?rows = [] then s else ?s')"
    using f fit fk dist
    by (simp add: RollupAdminTraffic_def bindE_def stmt_ok inviteEdges_ok ListAdmins_def select_ok
        upsert_rows_ok Let_def del: map_map)
  have "\<exists>row. find (\<lambda>r. ru_admin_id r = adm_id m) (rollups ?s') = Some row \<and>
       (let A = (invited (edges_of s))\<^sup>* `` {adm_id m} in
        ru_own_bytes row = u64_of (used_sum (devices_of {adm_id m} s) s) \<and>
        ru_own_clients row = int (length (devices_of {adm_id m} s)) \<and>
        ru_subtree_admins row = int (card A) - 1 \<and>
        ru_subtree_clients row = int (length (devices_of A s)) \<and>
        ru_subtree_bytes row = u64_of (used_sum (devices_of A s) s))" if m: "m \<in> set (admins s)" for m
  proof -
    let ?r = "?row (toStorageAdmin m)"
    let ?find = "find (\<lambda>r. ru_admin_id r = adm_id m)"
    have r: "?r \<in> set ?rows" using m by simp
    have "?find (rollups ?s') = Some (case ?find (rollups s) of None \<Rightarrow> ?r | Some old \<Rightarrow> rollup_upd ?r old)"
      using rollup_table.find_upsert_row [OF dist r, of "rollups s"] by simp
    then show ?thesis
      by (auto simp: rollup_entry_def subtreeTotals_rows Let_def own_of_rows owned_sum_used rollup_upd_def split: option.split)
  qed
  moreover have "admins s = []" if "?rows = []" using that by (simp add: sort_key_empty)
  ultimately show ?thesis using run by (intro exI [of _ "if ?rows = [] then s else ?s'"]) auto
qed


text \<open>The sample branch with usage: 700 bytes of the root's own device, 40 of a member's.\<close>

definition busy_tree :: store where
  "busy_tree = tree_store\<lparr>ctraffic := [(zero_traffic ''c1'')\<lparr>ct_used_bytes := 700\<rparr>,
     (zero_traffic ''c2'')\<lparr>ct_used_bytes := 40\<rparr>]\<rparr>"

theorem rollup_branches_witness:
  "\<exists>s' row. RollupAdminTraffic busy_tree = (Inr (), s') \<and>
     find (\<lambda>r. ru_admin_id r = 1) (rollups s') = Some row \<and>
     ru_own_bytes row = 700 \<and> ru_own_clients row = 1 \<and>
     ru_subtree_admins row = 2 \<and> ru_subtree_clients row = 2 \<and> ru_subtree_bytes row = 740"
proof -
  have wf: "wf_store busy_tree"
    by (simp add: wf_defs uniq_def refers_def orefers_def busy_tree_def tree_store_def sample_defs tree_code_def
        wg_key_def pt_key_def rd_key_def zero_traffic_def)
  have f: "faults busy_tree = []" by (simp add: busy_tree_def)
  have c: "clients busy_tree = [new_client_row ''c1'' 1 ''phone'' ''h1'' ''t1'' 100,
      new_client_row ''c2'' 2 ''tablet'' ''h2'' ''t2'' 200]"
    by (simp add: busy_tree_def tree_store_def sample_store_def)
  have u: "used_of ''c1'' busy_tree = 700" "used_of ''c2'' busy_tree = 40"
    by (simp_all add: used_of_def traffic_of_def busy_tree_def zero_traffic_def)
  have fit: "\<forall>c \<in> set (clients busy_tree). owned_sum (cl_owner c) busy_tree < 2 ^ 63"
    by (simp add: owned_sum_def c u new_client_row_def)
  have e: "edges_of busy_tree = [(2, 1), (3, 2)]"
    using tree_edges by (simp add: busy_tree_def edges_of_def redemption_edges_def legacy_edges_def)
  have r: "(invited [(2, 1), (3, 2)])\<^sup>* `` {1} = {1, 2, 3}"
    using walk_down_reachable [of None "[(2, 1), (3, 2)]" 1]
    by (simp add: walk_down.simps children_of_def)
  have d: "length (devices_of {1, 2, 3} busy_tree) = 2" "length (devices_of {1} busy_tree) = 1"
      "used_sum (devices_of {1, 2, 3} busy_tree) busy_tree = 740" "used_sum (devices_of {1} busy_tree) busy_tree = 700"
    by (simp_all add: devices_of_def used_sum_def c u new_client_row_def)
  from rollup_branches [OF f wf fit] obtain s' where
    s': "RollupAdminTraffic busy_tree = (Inr (), s')" and
    rows: "\<forall>m \<in> set (admins busy_tree). \<exists>row. find (\<lambda>r. ru_admin_id r = adm_id m) (rollups s') = Some row \<and>
       (let A = (invited (edges_of busy_tree))\<^sup>* `` {adm_id m} in
        ru_own_bytes row = u64_of (used_sum (devices_of {adm_id m} busy_tree) busy_tree) \<and>
        ru_own_clients row = int (length (devices_of {adm_id m} busy_tree)) \<and>
        ru_subtree_admins row = int (card A) - 1 \<and>
        ru_subtree_clients row = int (length (devices_of A busy_tree)) \<and>
        ru_subtree_bytes row = u64_of (used_sum (devices_of A busy_tree) busy_tree))" by blast
  have "sample_admin 1 ''root'' RoleOwner \<in> set (admins busy_tree)" "adm_id (sample_admin 1 ''root'' RoleOwner) = 1"
    by (simp add: busy_tree_def, simp add: sample_admin_def)
  with rows obtain row where "find (\<lambda>r. ru_admin_id r = 1) (rollups s') = Some row"
    "ru_own_bytes row = u64_of 700" "ru_own_clients row = 1" "ru_subtree_admins row = int (card {1, 2, 3 :: int}) - 1"
    "ru_subtree_clients row = 2" "ru_subtree_bytes row = u64_of 740"
    unfolding e by (metis r d int_ops(2) of_nat_numeral)
  then show ?thesis using s' by (auto simp: u64_of_def)
qed

lemma walk_up_depth: "depth \<le> fst (walk_up parent cutAt n at seen depth b) \<and>
    fst (walk_up parent cutAt n at seen depth b) \<le> depth + n"
proof (induction n arbitrary: at seen depth b)
  case (Suc n)
  show ?case
  proof (cases "map_of parent at")
    case (Some up)
    show ?thesis using Suc.IH [of "Suc depth" up "up # seen" "b \<or> cutAt up"] Some by simp
  qed simp
qed simp

text \<open>C34: The walks over the invite tree end with the whole branch. With a working database the bounded
  breadth-first walk returns exactly the accounts at or below the root, each once, whatever the
  shape of the edges (cycles included): the bound on the number of steps never cuts a branch short.
  The walk up takes at most 64 steps.\<close>

theorem invite_subtree_complete:
  assumes "faults s = []"
  shows "\<exists>ids. InviteSubtree root s = (Inr ids, s) \<and>
      set ids = (invited (edges_of s))\<^sup>* `` {root} \<and> distinct ids \<and>
      fst (walkUp root (edges_of s) cutAt) \<le> maxInviteDepth"
proof -
  obtain ids where "InviteSubtree root s = (Inr ids, s)" "set ids = (invited (edges_of s))\<^sup>* `` {root}"
    "distinct ids" using InviteSubtree_ok [OF assms] by blast
  moreover have "fst (walkUp root (edges_of s) cutAt) \<le> maxInviteDepth"
    using walk_up_depth unfolding walkUp_def by (metis add_0)
  ultimately show ?thesis by blast
qed

theorem invite_subtree_complete_witness:
  "\<exists>ids. InviteSubtree 2 tree_store = (Inr ids, tree_store) \<and> set ids = {2, 3} \<and>
     fst (walkUp 2 [(2, 1), (3, 2)] (\<lambda>_. False)) \<le> 64"
proof -
  have r: "(invited [(2, 1), (3, 2)])\<^sup>* `` {2} = {2, 3}"
    using walk_down_reachable [of None "[(2, 1), (3, 2)]" 2]
    by (simp add: walk_down.simps children_of_def)
  show ?thesis
    using invite_subtree_complete [OF tree_store_simps(1), of 2 "\<lambda>_. False"]
    by (auto simp: tree_edges r maxInviteDepth_def)
qed

end
