(* ===== verification/DeviceQueues.thy ===== *)
theory DeviceQueues
  imports Sample
begin

text \<open>
  What waits for or comes from a device: commands queued until it connects
  (\<^verbatim>\<open>internal/storage/pending_commands.go\<close>) and the log lines it uploads
  (\<^verbatim>\<open>internal/storage/logs.go\<close>). Times to live are in milliseconds.
\<close>

subsection \<open>Pending commands\<close>

record pending_command =
  pq_id :: int
  pq_client_id :: string
  pq_command_type :: int
  pq_subscription_id :: string
  pq_queued_at :: int
  pq_expires_at :: int

definition defaultPendingCommandTTL :: int where "defaultPendingCommandTTL = 24 * 3600 * 1000"

text \<open>\<^verbatim>\<open>Create(&row)\<close>: the row takes the next id of the sequence, which it reports.\<close>

definition create_pending :: "pending_row \<Rightarrow> int db" where
  "create_pending row = stmt (\<lambda>s.
     if fk_client (pc_client_id row) s
     then (Inr (pending_seq s), s\<lparr>pending := pending s @ [row\<lparr>pc_id := pending_seq s\<rparr>],
                                  pending_seq := pending_seq s + 1\<rparr>)
     else (Inl ErrConstraint, s))"

definition EnqueuePendingCommandWithTTL :: "string \<Rightarrow> int \<Rightarrow> string \<Rightarrow> int \<Rightarrow> int db" where
  "EnqueuePendingCommandWithTTL clientID commandType subscriptionID ttl =
     bindE (asks clock) (\<lambda>now.
     create_pending \<lparr>pc_id = 0, pc_client_id = clientID, pc_command_type = commandType,
       pc_subscription_id = subscriptionID, pc_queued_at = now, pc_expires_at = now + ttl\<rparr>)"

definition EnqueuePendingCommand :: "string \<Rightarrow> int \<Rightarrow> string \<Rightarrow> int db" where
  "EnqueuePendingCommand clientID commandType subscriptionID =
     EnqueuePendingCommandWithTTL clientID commandType subscriptionID defaultPendingCommandTTL"

definition same_pending :: "string \<Rightarrow> int \<Rightarrow> string \<Rightarrow> int \<Rightarrow> pending_row \<Rightarrow> bool" where
  "same_pending clientID commandType subscriptionID now r \<longleftrightarrow>
     pc_client_id r = clientID \<and> pc_command_type r = commandType \<and>
     pc_subscription_id r = subscriptionID \<and> pc_expires_at r > now"

definition EnqueuePendingCommandDedup :: "string \<Rightarrow> int \<Rightarrow> string \<Rightarrow> (int \<times> bool) db" where
  "EnqueuePendingCommandDedup clientID commandType subscriptionID =
     bindE (asks clock) (\<lambda>now.
     bindE (select (\<lambda>s. length (filter (same_pending clientID commandType subscriptionID now) (pending s)))) (\<lambda>count.
     if count > 0 then ret (0, False)
     else bindE (EnqueuePendingCommand clientID commandType subscriptionID) (\<lambda>i. ret (i, True))))"

definition toPendingCommand :: "pending_row \<Rightarrow> pending_command" where
  "toPendingCommand r = \<lparr>pq_id = pc_id r, pq_client_id = pc_client_id r,
     pq_command_type = pc_command_type r, pq_subscription_id = pc_subscription_id r,
     pq_queued_at = pc_queued_at r, pq_expires_at = pc_expires_at r\<rparr>"

definition DrainPendingCommands :: "string \<Rightarrow> pending_command list db" where
  "DrainPendingCommands clientID =
     bindE (asks clock) (\<lambda>now.
     bindE (delete_rows pending pending_update (\<lambda>r. pc_expires_at r \<le> now)) (\<lambda>_.
     bindE (select (\<lambda>s. sort_key pc_queued_at (filter (\<lambda>r. pc_client_id r = clientID) (pending s)))) (\<lambda>rows.
     let out = map toPendingCommand rows in
     if out \<noteq> []
     then bindE (delete_rows pending pending_update (\<lambda>r. pc_client_id r = clientID)) (\<lambda>_. ret out)
     else ret out)))"

definition CountPendingCommands :: "string \<Rightarrow> int \<Rightarrow> int db" where
  "CountPendingCommands clientID commandType =
     bindE (asks clock) (\<lambda>now.
     select (\<lambda>s. int (length (filter (\<lambda>r. pc_client_id r = clientID \<and>
        pc_command_type r = commandType \<and> pc_expires_at r > now) (pending s)))))"

subsection \<open>Device logs\<close>

definition MaxLogLinesPerStream :: int where "MaxLogLinesPerStream = 10000"

record log_line =
  ll_seq :: int
  ll_ts :: int
  ll_text :: string

definition log_rows :: "string \<Rightarrow> int \<Rightarrow> int \<Rightarrow> log_line list \<Rightarrow> client_log_row list" where
  "log_rows clientID stream baseSeq ls =
     map (\<lambda>(i, ln). \<lparr>lg_client_id = clientID, lg_stream = stream,
            lg_seq = wrap64 (baseSeq + int i), lg_ts = ll_ts ln, lg_text = ll_text ln\<rparr>)
         (enumerate 0 ls)"

text \<open>\<^verbatim>\<open>ON CONFLICT DO NOTHING\<close>: a stored row is left as it is.\<close>

definition keep_old :: "client_log_row \<Rightarrow> client_log_row \<Rightarrow> client_log_row" where
  "keep_old new old = old"

definition of_stream :: "string \<Rightarrow> int \<Rightarrow> client_log_row \<Rightarrow> bool" where
  "of_stream clientID stream r \<longleftrightarrow> lg_client_id r = clientID \<and> lg_stream r = stream"

text \<open>\<^verbatim>\<open>SELECT COALESCE(MAX(seq), 0)\<close>\<close>

definition max_seq :: "string \<Rightarrow> int \<Rightarrow> store \<Rightarrow> int" where
  "max_seq clientID stream s =
     (let qs = map lg_seq (filter (of_stream clientID stream) (clogs s))
      in if qs = [] then 0 else Max (set qs))"

definition AppendClientLogs :: "string \<Rightarrow> int \<Rightarrow> int \<Rightarrow> log_line list \<Rightarrow> unit db" where
  "AppendClientLogs clientID stream baseSeq ls =
     (if ls = [] then ret ()
      else transaction (
        bindE (upsert_rows clogs_update log_key keep_old (\<lambda>s r. fk_client (lg_client_id r) s)
                 (log_rows clientID stream baseSeq ls)) (\<lambda>_.
        bindE (select (max_seq clientID stream)) (\<lambda>maxSeq.
        let threshold = wrap64 (maxSeq - MaxLogLinesPerStream) in
        bindE (delete_rows clogs clogs_update
                 (\<lambda>r. of_stream clientID stream r \<and> lg_seq r \<le> threshold)) (\<lambda>_. ret ())))))"

definition ReadClientLogs :: "string \<Rightarrow> int \<Rightarrow> int \<Rightarrow> int \<Rightarrow> log_line list db" where
  "ReadClientLogs clientID stream sinceSeq limit =
     (let l = (if limit \<le> 0 \<or> limit > 1000 then 500 else limit) in
      bindE (select (\<lambda>s. take (nat l) (sort_key lg_seq
               (filter (\<lambda>r. of_stream clientID stream r \<and> lg_seq r > sinceSeq) (clogs s))))) (\<lambda>rows.
      ret (map (\<lambda>r. \<lparr>ll_seq = lg_seq r, ll_ts = lg_ts r, ll_text = lg_text r\<rparr>) rows)))"

subsection \<open>Invariant\<close>

lemma wf_put_pending:
  "wf_store s \<Longrightarrow> wf_store (pending_update (filter P) s)"
  by (simp add: wf_defs)

lemma pres_create_pending [pres]: "preserves wf_store (create_pending row)"
  unfolding create_pending_def
  by (rule pres_stmt) (auto simp: wf_defs refers_def fk_ids intro: less_trans)

lemma pres_pending [pres]:
  "preserves wf_store (EnqueuePendingCommandDedup c k sub)"
  "preserves wf_store (DrainPendingCommands c)"
  unfolding EnqueuePendingCommandDedup_def EnqueuePendingCommand_def
    EnqueuePendingCommandWithTTL_def DrainPendingCommands_def Let_def
  by (intro pres pres_delete_rows fault_free_wf; simp add: wf_put_pending)+

interpretation log_table: keyed_table log_key keep_old
  by unfold_locales (simp add: keep_old_def)

lemma pres_AppendClientLogs [pres]: "preserves wf_store (AppendClientLogs c st b ls)"
  unfolding AppendClientLogs_def Let_def
  by (intro pres pres_upsert_rows pres_delete_rows fault_free_wf)
     (auto intro!: wf_put log_table.upsert_intros simp: wf_get fk_ids list_all_iff keep_old_def)

subsection \<open>Properties\<close>

definition live_for :: "string \<Rightarrow> int \<Rightarrow> pending_row \<Rightarrow> bool" where
  "live_for clientID now r \<longleftrightarrow> pc_client_id r = clientID \<and> pc_expires_at r > now"

lemma DrainPendingCommands_ok:
  assumes "faults s = []"
  shows "DrainPendingCommands c s =
    (Inr (map toPendingCommand (sort_key pc_queued_at (filter (live_for c (clock s)) (pending s)))),
     pending_update (filter (\<lambda>r. pc_expires_at r > clock s \<and> pc_client_id r \<noteq> c)) s)"
proof -
  let ?s1 = "pending_update (filter (\<lambda>r. \<not> pc_expires_at r \<le> clock s)) s"
  have live: "filter (\<lambda>r. pc_client_id r = c) (pending ?s1) = filter (live_for c (clock s)) (pending s)"
    by (auto simp: live_for_def intro: filter_cong)
  have gone: "pending_update (filter (\<lambda>r. pc_client_id r \<noteq> c)) ?s1 =
      pending_update (filter (\<lambda>r. pc_expires_at r > clock s \<and> pc_client_id r \<noteq> c)) s"
    by (simp add: comp_def not_le conj_commute)
  have none: "pending_update (filter (\<lambda>r. pc_expires_at r > clock s \<and> pc_client_id r \<noteq> c)) s = ?s1"
    if "filter (live_for c (clock s)) (pending s) = []"
  proof -
    have "filter (\<lambda>r. pc_expires_at r > clock s \<and> pc_client_id r \<noteq> c) (pending s) =
        filter (\<lambda>r. \<not> pc_expires_at r \<le> clock s) (pending s)"
      using that by (intro filter_cong refl) (auto simp: filter_empty_conv live_for_def)
    then show ?thesis by (cases s) simp
  qed
  have srt: "sort_key pc_queued_at xs = [] \<longleftrightarrow> xs = []" for xs by (metis length_0_conv length_sort)
  let ?rows = "sort_key pc_queued_at (filter (live_for c (clock s)) (pending s))"
  have run: "DrainPendingCommands c s = (if map toPendingCommand ?rows \<noteq> []
      then (Inr (map toPendingCommand ?rows), pending_update (filter (\<lambda>r. pc_client_id r \<noteq> c)) ?s1)
      else (Inr (map toPendingCommand ?rows), ?s1))"
    unfolding live [symmetric] using assms
    by (simp add: DrainPendingCommands_def bindE_def delete_rows_ok select_ok Let_def del: filter_filter)
  show ?thesis
  proof (cases "filter (live_for c (clock s)) (pending s) = []")
    case True
    show ?thesis unfolding run none [OF True] by (simp add: True)
  next
    case False
    then have "map toPendingCommand ?rows \<noteq> []" by (simp add: srt)
    then show ?thesis unfolding run gone by simp
  qed
qed

text \<open>A queued command is delivered once. With a working database, draining hands over exactly the
  device's commands that have not expired, in the order they were queued, and takes them off the
  queue; commands of other devices stay as long as they are alive; a second drain finds nothing.\<close>

theorem drain_delivers_once:
  assumes "faults s = []"
  shows "\<exists>s'. DrainPendingCommands c s =
      (Inr (map toPendingCommand (sort_key pc_queued_at
         (filter (\<lambda>r. pc_client_id r = c \<and> pc_expires_at r > clock s) (pending s)))), s') \<and>
    filter (\<lambda>r. pc_client_id r \<noteq> c \<and> pc_expires_at r > clock s) (pending s) = pending s' \<and>
    DrainPendingCommands c s' = (Inr [], s')"
proof -
  let ?s' = "pending_update (filter (\<lambda>r. pc_expires_at r > clock s \<and> pc_client_id r \<noteq> c)) s"
  have l: "live_for c (clock s) = (\<lambda>r. pc_client_id r = c \<and> pc_expires_at r > clock s)"
    by (auto simp: live_for_def)
  have e: "filter (live_for c (clock s)) (pending ?s') = []"
    by (auto simp: filter_empty_conv live_for_def)
  have same: "pending_update (filter (\<lambda>r. pc_expires_at r > clock s \<and> pc_client_id r \<noteq> c)) ?s' = ?s'"
    by (simp add: comp_def)
  have "DrainPendingCommands c ?s' = (Inr [], ?s')"
    using DrainPendingCommands_ok [of ?s' c] assms e same by simp
  then show ?thesis
    using DrainPendingCommands_ok [OF assms, of c] unfolding l
    by (intro exI [of _ ?s']) (auto intro: filter_cong)
qed

text \<open>Queueing with deduplication. With a working database and an existing device, a command is queued
  if and only if no live command of the same device, type and subscription is waiting; asking twice
  queues it once, and it is then among what the device receives.\<close>

theorem dedup_queues_once:
  assumes "faults s = []" "fk_client c s"
  shows "\<exists>r s'. EnqueuePendingCommandDedup c k sub s = (Inr r, s') \<and>
    snd r = (\<forall>p \<in> set (pending s). \<not> same_pending c k sub (clock s) p) \<and>
    (\<not> snd r \<longrightarrow> s' = s) \<and>
    (\<exists>p \<in> set (pending s'). same_pending c k sub (clock s) p) \<and>
    EnqueuePendingCommandDedup c k sub s' = (Inr (0, False), s')"
proof -
  have once: "EnqueuePendingCommandDedup c k sub t = (Inr (0, False), t)"
    if "\<exists>p \<in> set (pending t). same_pending c k sub (clock t) p" "faults t = []" for t
  proof -
    have "0 < length (filter (same_pending c k sub (clock t)) (pending t))"
      using that(1) by (auto simp: filter_empty_conv)
    then show ?thesis using that(2) by (simp add: EnqueuePendingCommandDedup_def bindE_def select_ok)
  qed
  show ?thesis
  proof (cases "\<exists>p \<in> set (pending s). same_pending c k sub (clock s) p")
    case True
    then show ?thesis using once [OF True assms(1)] by (intro exI [of _ "(0, False)"] exI [of _ s]) auto
  next
    case False
    let ?row = "\<lparr>pc_id = pending_seq s, pc_client_id = c, pc_command_type = k,
       pc_subscription_id = sub, pc_queued_at = clock s, pc_expires_at = clock s + defaultPendingCommandTTL\<rparr>"
    let ?s' = "s\<lparr>pending := pending s @ [?row], pending_seq := pending_seq s + 1\<rparr>"
    have "length (filter (same_pending c k sub (clock s)) (pending s)) = 0"
      unfolding length_filter_zero using False by blast
    then have 1: "EnqueuePendingCommandDedup c k sub s = (Inr (pending_seq s, True), ?s')"
      using assms
      by (simp add: EnqueuePendingCommandDedup_def EnqueuePendingCommand_def
          EnqueuePendingCommandWithTTL_def create_pending_def bindE_def select_ok stmt_ok fk_client_def)
    have p: "\<exists>p \<in> set (pending ?s'). same_pending c k sub (clock ?s') p"
      by (simp add: same_pending_def defaultPendingCommandTTL_def)
    have "EnqueuePendingCommandDedup c k sub ?s' = (Inr (0, False), ?s')"
      using once [OF p] assms(1) by simp
    then show ?thesis using 1 p False by (intro exI [of _ "(pending_seq s, True)"] exI [of _ ?s']) auto
  qed
qed

subsection \<open>Logs\<close>

lemma log_rows_stream: "r \<in> set (log_rows c st b ls) \<Longrightarrow> of_stream c st r"
  by (auto simp: log_rows_def of_stream_def)

lemma log_rows_keys: "length ls < 2 ^ 64 \<Longrightarrow> distinct (map log_key (log_rows c st b ls))"
proof -
  assume len: "length ls < 2 ^ 64"
  have inj: "i = j" if "wrap64 (b + int i) = wrap64 (b + int j)" "i < length ls" "j < length ls" for i j
  proof -
    have "(b + int i + 2 ^ 63) mod 2 ^ 64 = (b + int j + 2 ^ 63) mod 2 ^ 64"
      using that(1) by (simp add: wrap64_def)
    then have "(2 ^ 64 :: int) dvd (b + int i + 2 ^ 63) - (b + int j + 2 ^ 63)"
      by (metis mod_eq_dvd_iff)
    then have "(2 ^ 64 :: int) dvd int i - int j" by simp
    moreover have "int i < 2 ^ 64" "int j < 2 ^ 64" using that(2,3) len by simp_all
    then have "\<bar>int i - int j\<bar> < 2 ^ 64" by simp
    ultimately have "int i - int j = 0" using zdvd_imp_le [of "2 ^ 64" "\<bar>int i - int j\<bar>"] by force
    then show ?thesis by simp
  qed
  have "map log_key (log_rows c st b ls) = map (\<lambda>i. (c, st, wrap64 (b + int i))) [0 ..< length ls]"
    by (rule nth_equalityI) (simp_all add: log_rows_def log_key_def nth_enumerate_eq)
  then show ?thesis
    by (auto simp: distinct_map inj_on_def intro: inj)
qed

definition stream_rows :: "string \<Rightarrow> int \<Rightarrow> store \<Rightarrow> client_log_row list" where
  "stream_rows c st s = filter (of_stream c st) (clogs s)"

lemma log_bound:
  fixes rs :: "client_log_row list"
  assumes "distinct (map lg_seq rs)" "\<forall>r \<in> set rs. m - k < lg_seq r \<and> lg_seq r \<le> m" "0 \<le> k"
  shows "int (length rs) \<le> k"
proof -
  have "set (map lg_seq rs) \<subseteq> {m - k <.. m}" using assms(2) by auto
  then have "card (set (map lg_seq rs)) \<le> card {m - k <.. m}" by (intro card_mono) simp_all
  moreover have "card (set (map lg_seq rs)) = length rs" using assms(1) by (metis distinct_card length_map)
  ultimately show ?thesis using assms(3) by simp
qed


lemma upsert_keep_old: "upsert_one log_key keep_old r rs = (if log_key r \<in> log_key ` set rs then rs else rs @ [r])"
  by (simp add: upsert_one_def update_where_def keep_old_def map_idI)

lemma set_fold_keep_old:
  "distinct (map log_key rows) \<Longrightarrow> set (fold (upsert_one log_key keep_old) rows rs) =
     set rs \<union> {r \<in> set rows. log_key r \<notin> log_key ` set rs}"
proof (induction rows arbitrary: rs)
  case (Cons x rows)
  then have "set (fold (upsert_one log_key keep_old) rows (upsert_one log_key keep_old x rs)) =
      set (upsert_one log_key keep_old x rs) \<union>
      {r \<in> set rows. log_key r \<notin> log_key ` set (upsert_one log_key keep_old x rs)}" by simp
  then have step: "set (fold (upsert_one log_key keep_old) (x # rows) rs) =
      set (upsert_one log_key keep_old x rs) \<union>
      {r \<in> set rows. log_key r \<notin> log_key ` set (upsert_one log_key keep_old x rs)}" by simp
  have "log_key x \<notin> log_key ` set rows" using Cons.prems by simp
  then have "log_key r \<noteq> log_key x" if "r \<in> set rows" for r using that by (metis imageI)
  then show ?case unfolding step upsert_keep_old [of x rs] by auto
qed simp

lemma max_seq_clogs:
  "max_seq c st (s\<lparr>clogs := rs\<rparr>) = (if filter (of_stream c st) rs = [] then 0
     else Max (lg_seq ` set (filter (of_stream c st) rs)))"
  by (simp add: max_seq_def)

lemma AppendClientLogs_ok:
  assumes "faults s = []" "fk_client c s" "ls \<noteq> []" "length ls < 2 ^ 64"
    and rs_def: "rs = fold (upsert_one log_key keep_old) (log_rows c st b ls) (clogs s)"
    and m_def: "m = max_seq c st (s\<lparr>clogs := rs\<rparr>)"
  shows "AppendClientLogs c st b ls s = (Inr (), s\<lparr>clogs :=
    filter (\<lambda>r. \<not> (of_stream c st r \<and> lg_seq r \<le> wrap64 (m - MaxLogLinesPerStream))) rs\<rparr>)"
proof -
  let ?up = "upsert_rows clogs_update log_key keep_old (\<lambda>s r. fk_client (lg_client_id r) s) (log_rows c st b ls)"
  have fk: "list_all (\<lambda>r. fk_client (lg_client_id r) s) (log_rows c st b ls)"
    using assms(2) log_rows_stream [of _ c st b ls] by (auto simp: list_all_iff of_stream_def)
  have up: "?up s = (Inr (), s\<lparr>clogs := rs\<rparr>)"
    using assms(1) fk log_rows_keys [OF assms(4)] by (simp add: upsert_rows_ok rs_def)
  show ?thesis
    using assms(1,3) unfolding AppendClientLogs_def
    by (simp, intro transaction_InrI)
       (simp_all add: bindE_def up select_ok delete_rows_ok Let_def m_def)
qed

text \<open>The log of a device stays bounded. With a working database, after lines arrive (sequence numbers
  being non-negative int64 values) a stream holds at most 10000 of them: those whose number is
  within 10000 of the highest. Stored lines in that window are kept as they are, a new line is
  stored unless its number is already taken, and no other stream changes.\<close>

theorem append_logs_bounded:
  assumes "faults s = []" "wf_store s" "fk_client c s" "ls \<noteq> []"
    and b: "0 \<le> b" "b + int (length ls) \<le> 2 ^ 63"
    and old: "\<forall>r \<in> set (clogs s). of_stream c st r \<longrightarrow> 0 \<le> lg_seq r \<and> lg_seq r < 2 ^ 63"
  shows "\<exists>s' top. AppendClientLogs c st b ls s = (Inr (), s') \<and>
    int (length (stream_rows c st s')) \<le> MaxLogLinesPerStream \<and>
    (\<forall>r. \<not> of_stream c st r \<longrightarrow> r \<in> set (clogs s') \<longleftrightarrow> r \<in> set (clogs s)) \<and>
    (\<forall>r. of_stream c st r \<longrightarrow> r \<in> set (clogs s') \<longleftrightarrow> top - MaxLogLinesPerStream < lg_seq r \<and>
       (r \<in> set (clogs s) \<or> r \<in> set (log_rows c st b ls) \<and> log_key r \<notin> log_key ` set (clogs s))) \<and>
    b + int (length ls) - 1 \<le> top"
proof -
  let ?new = "log_rows c st b ls"
  let ?rs = "fold (upsert_one log_key keep_old) ?new (clogs s)"
  let ?m = "max_seq c st (s\<lparr>clogs := ?rs\<rparr>)"
  let ?s' = "s\<lparr>clogs := filter (\<lambda>r. \<not> (of_stream c st r \<and> lg_seq r \<le> wrap64 (?m - MaxLogLinesPerStream))) ?rs\<rparr>"
  have len: "length ls < 2 ^ 64" using b by simp
  have seqs: "\<exists>i < length ls. lg_seq r = b + int i" if "r \<in> set ?new" for r
    using that b by (auto simp: log_rows_def in_set_enumerate_eq)
  have set: "set ?rs = set (clogs s) \<union> {r \<in> set ?new. log_key r \<notin> log_key ` set (clogs s)}"
    by (rule set_fold_keep_old [OF log_rows_keys [OF len]])
  define Q where "Q = {r \<in> set ?rs. of_stream c st r}"
  let ?qs = "lg_seq ` Q"
  have fin: "finite ?qs" by (simp add: Q_def)
  have lastrow: "b + int (length ls) - 1 \<in> ?qs"
  proof -
    obtain ln where ln: "(length ls - 1, ln) \<in> set (enumerate 0 ls)"
      using assms(4) by (auto simp: in_set_enumerate_eq)
    let ?r = "\<lparr>lg_client_id = c, lg_stream = st, lg_seq = b + int (length ls - 1), lg_ts = ll_ts ln, lg_text = ll_text ln\<rparr>"
    have r: "?r \<in> set ?new"
    proof -
      have "wrap64 (b + int (length ls - 1)) = b + int (length ls - 1)"
        using b assms(4) by (intro wrap64_id) (auto simp: of_nat_diff Suc_leI)
      then show ?thesis
        unfolding log_rows_def using ln by (auto intro!: image_eqI [of _ _ "(length ls - 1, ln)"])
    qed
    have l: "lg_seq ?r = b + int (length ls) - 1" using assms(4) by (simp add: of_nat_diff Suc_leI)
    show ?thesis
    proof (cases "log_key ?r \<in> log_key ` set (clogs s)")
      case False
      then have "?r \<in> Q" unfolding Q_def using r set log_rows_stream by blast
      then show ?thesis using l by (metis (no_types, lifting) imageI)
    next
      case True
      then obtain q where "q \<in> set (clogs s)" "log_key q = log_key ?r" by (metis imageE)
      then have "q \<in> Q" "lg_seq q = b + int (length ls) - 1"
        using set l by (auto simp: Q_def log_key_def of_stream_def)
      then show ?thesis by (metis (no_types, lifting) imageI)
    qed
  qed
  have qs: "lg_seq ` set (filter (of_stream c st) ?rs) = ?qs" by (simp add: Q_def)
  have "filter (of_stream c st) ?rs \<noteq> []" using lastrow unfolding qs [symmetric] by (metis empty_iff image_empty list.set(1))
  then have m: "?m = Max ?qs" unfolding max_seq_clogs by (simp only: if_False qs)
  have mb: "b + int (length ls) - 1 \<le> ?m" unfolding m using lastrow fin by (rule Max_ge [rotated])
  have "Max ?qs \<in> ?qs" by (rule Max_in [OF fin]) (use lastrow in blast)
  then obtain q where q: "q \<in> set ?rs" "of_stream c st q" "lg_seq q = ?m" unfolding m Q_def by auto
  have "0 \<le> lg_seq q \<and> lg_seq q < 2 ^ 63"
  proof (cases "q \<in> set (clogs s)")
    case False
    then have "q \<in> set ?new" using q(1) set by blast
    then show ?thesis using seqs [of q] b by auto
  qed (use old q(2) in blast)
  then have w: "wrap64 (?m - MaxLogLinesPerStream) = ?m - MaxLogLinesPerStream"
    unfolding q(3) by (intro wrap64_id) (simp_all add: MaxLogLinesPerStream_def)
  have run: "AppendClientLogs c st b ls s = (Inr (), ?s')"
    by (rule AppendClientLogs_ok [OF assms(1,3,4) len refl refl])
  have "distinct (map log_key ?rs)"
    using log_table.uniq_upsert [of "clogs s" ?new] wf_get [OF assms(2)] by (simp add: uniq_def)
  then have "distinct (map log_key (stream_rows c st ?s'))"
    by (simp add: stream_rows_def distinct_map_filter)
  then have d: "distinct (map lg_seq (stream_rows c st ?s'))"
    by (auto simp: distinct_map inj_on_def stream_rows_def of_stream_def log_key_def)
  have "int (length (stream_rows c st ?s')) \<le> MaxLogLinesPerStream"
  proof (rule log_bound [OF d, of ?m])
    show "\<forall>r \<in> set (stream_rows c st ?s'). ?m - MaxLogLinesPerStream < lg_seq r \<and> lg_seq r \<le> ?m"
      using fin w unfolding m by (auto simp: stream_rows_def Q_def)
  qed (simp add: MaxLogLinesPerStream_def)
  then show ?thesis
    using run mb set log_rows_stream [of _ c st b ls]
    by (intro exI [of _ ?s'] exI [of _ ?m]) (auto simp: w)
qed


subsection \<open>At concrete inputs\<close>

definition queue_store :: store where
  "queue_store = (sample_store DriverSQLite)\<lparr>pending := [
     \<lparr>pc_id = 1, pc_client_id = ''c1'', pc_command_type = 3, pc_subscription_id = [], pc_queued_at = 20, pc_expires_at = 6000000\<rparr>,
     \<lparr>pc_id = 2, pc_client_id = ''c1'', pc_command_type = 4, pc_subscription_id = [], pc_queued_at = 10, pc_expires_at = 6000000\<rparr>,
     \<lparr>pc_id = 3, pc_client_id = ''c1'', pc_command_type = 5, pc_subscription_id = [], pc_queued_at = 5, pc_expires_at = 5000000\<rparr>,
     \<lparr>pc_id = 4, pc_client_id = ''c2'', pc_command_type = 3, pc_subscription_id = [], pc_queued_at = 1, pc_expires_at = 6000000\<rparr>],
     pending_seq := 5\<rparr>"

lemma queue_store_simps [simp]: "faults queue_store = []" "clock queue_store = 5000000"
  by (simp_all add: queue_store_def sample_store_def empty_store_def)

theorem drain_delivers_once_witness:
  "\<exists>out s'. DrainPendingCommands ''c1'' queue_store = (Inr out, s') \<and> map pq_id out = [2, 1] \<and>
     DrainPendingCommands ''c1'' s' = (Inr [], s')"
proof -
  have "map pq_id (map toPendingCommand (sort_key pc_queued_at
      (filter (\<lambda>r. pc_client_id r = ''c1'' \<and> pc_expires_at r > clock queue_store) (pending queue_store)))) = [2, 1]"
    by (simp add: queue_store_def toPendingCommand_def sample_store_def empty_store_def)
  note ids = this
  from drain_delivers_once [OF queue_store_simps(1), of "''c1''"] show ?thesis
    by (elim exE conjE) (intro exI conjI, assumption, rule ids, assumption)
qed

theorem dedup_queues_once_witness:
  "\<exists>i s'. EnqueuePendingCommandDedup ''c1'' 5 [] queue_store = (Inr (i, True), s') \<and>
     EnqueuePendingCommandDedup ''c1'' 5 [] s' = (Inr (0, False), s')"
proof -
  have "fk_client ''c1'' queue_store"
    by (simp add: queue_store_def sample_store_def fk_client_def new_client_row_def)
  moreover have "\<forall>p \<in> set (pending queue_store). \<not> same_pending ''c1'' 5 [] (clock queue_store) p"
    by (simp add: queue_store_def same_pending_def sample_store_def empty_store_def)
  ultimately show ?thesis
    using dedup_queues_once [OF queue_store_simps(1), of "''c1''" 5 "[]"] by fastforce
qed

theorem append_logs_bounded_witness:
  "\<exists>s'. AppendClientLogs ''c1'' 0 7 [\<lparr>ll_seq = 0, ll_ts = 1, ll_text = ''boot''\<rparr>] (sample_store DriverSQLite) = (Inr (), s') \<and>
     int (length (stream_rows ''c1'' 0 s')) \<le> 10000"
proof -
  have "fk_client ''c1'' (sample_store DriverSQLite)"
    by (simp add: sample_store_def fk_client_def new_client_row_def)
  moreover have "clogs (sample_store DriverSQLite) = []" by (simp add: sample_store_def empty_store_def)
  ultimately show ?thesis
    using append_logs_bounded [OF sample_faults sample_wf, where c = "''c1''" and st = 0 and b = 7
        and ls = "[\<lparr>ll_seq = 0, ll_ts = 1, ll_text = ''boot''\<rparr>]"]
    by (fastforce simp: MaxLogLinesPerStream_def)
qed

end
