(* ===== verification/TokenAead.thy ===== *)
theory TokenAead
  imports Hex "HOL-Library.Sublist"
begin

text \<open>
  The management transport, \<^verbatim>\<open>internal/tokenaead/tokenaead.go\<close> and \<^verbatim>\<open>preference.go\<close>: a byte stream cut into
  length-prefixed AES-256-GCM records under keys derived from a shared token, without a handshake,
  and the memory of which key derivation each peer answered on. The ciphers are a parameter, the
  record \<open>suite\<close>; what is assumed of them is named in \<open>aead_ok\<close> and \<open>separated\<close>. The connection
  underneath is its unread bytes, its written bytes and the outcome of its next writes. A mutex
  makes each operation one step. Times are in nanoseconds.
\<close>

subsection \<open>Which derivation a peer answered on\<close>

datatype Variant = Legacy256 | SHA512

record pref_entry =
  pe_variant :: Variant
  pe_at :: int
  pe_proven :: bool

type_synonym prefs = "string \<rightharpoonup> pref_entry"

definition reprobeAfter :: int where "reprobeAfter = 3600 * 1000000000"

definition NewPreference :: prefs where "NewPreference = Map.empty"

definition Next :: "int \<Rightarrow> string \<Rightarrow> prefs \<Rightarrow> Variant" where
  "Next now key p = (case p key of
     None \<Rightarrow> SHA512
   | Some entry \<Rightarrow>
       if pe_variant entry = Legacy256 \<and> now - pe_at entry > reprobeAfter then SHA512
       else pe_variant entry)"

definition Succeeded :: "int \<Rightarrow> string \<Rightarrow> Variant \<Rightarrow> prefs \<Rightarrow> prefs" where
  "Succeeded now key v p = p(key \<mapsto> \<lparr>pe_variant = v, pe_at = now, pe_proven = True\<rparr>)"

definition Failed :: "int \<Rightarrow> string \<Rightarrow> Variant \<Rightarrow> prefs \<Rightarrow> prefs" where
  "Failed now key v p =
     (if \<exists>entry. p key = Some entry \<and> pe_proven entry then p
      else p(key \<mapsto> \<lparr>pe_variant = (if v = Legacy256 then SHA512 else Legacy256), pe_at = now, pe_proven = False\<rparr>))"

definition Known :: "string \<Rightarrow> prefs \<Rightarrow> Variant \<times> bool" where
  "Known key p = (case p key of None \<Rightarrow> (Legacy256, False) | Some entry \<Rightarrow> (pe_variant entry, True))"

definition variant_String :: "Variant \<Rightarrow> string" where
  "variant_String v = (if v = SHA512 then ''sha512'' else ''sha256'')"

subsection \<open>Keys and nonces\<close>

datatype hash_alg = Sha256 | Sha512

record suite =
  aead_seal :: "bytes \<Rightarrow> bytes \<Rightarrow> bytes \<Rightarrow> bytes"
  aead_open :: "bytes \<Rightarrow> bytes \<Rightarrow> bytes \<Rightarrow> bytes option"
  hkdf_key :: "hash_alg \<Rightarrow> string \<Rightarrow> string \<Rightarrow> string \<Rightarrow> nat \<Rightarrow> bytes"
  sha256_sum :: "string \<Rightarrow> bytes"

definition keyLen :: nat where "keyLen = 32"
definition nonceLen :: nat where "nonceLen = 12"
definition maxPlainChunk :: nat where "maxPlainChunk = 16 * 1024"
definition protocolName :: string where "protocolName = ''wingsv-token-aes256gcm''"
definition hkdfSalt :: string where "hkdfSalt = ''wingsv-mgmt-grpc-v1''"
definition maxRecordCipher :: nat where "maxRecordCipher = maxPlainChunk + 16"

definition variant_hash :: "Variant \<Rightarrow> hash_alg" where
  "variant_hash v = (if v = SHA512 then Sha512 else Sha256)"

definition deriveKey :: "suite \<Rightarrow> Variant \<Rightarrow> string \<Rightarrow> string \<Rightarrow> bytes" where
  "deriveKey P v token label = hkdf_key P (variant_hash v) token hkdfSalt label keyLen"

text \<open>\<^verbatim>\<open>binary.BigEndian\<close>: the low \<open>k\<close> bytes of a number, and the number a byte string denotes.\<close>

fun put_be :: "nat \<Rightarrow> nat \<Rightarrow> bytes" where
  "put_be 0 n = []"
| "put_be (Suc k) n = put_be k (n div 256) @ [char_of (n mod 256)]"

definition get_be :: "bytes \<Rightarrow> nat" where
  "get_be bs = foldl (\<lambda>a c. 256 * a + of_char c) 0 bs"

definition nonce :: "u64 \<Rightarrow> bytes" where
  "nonce counter = replicate (nonceLen - 8) (char_of (0 :: nat)) @ put_be 8 (unat counter)"

subsection \<open>The encrypted connection\<close>

datatype conn_error = EOF | ErrUnexpectedEOF | ErrNoVariant | ErrOpen | ErrConnWrite

record aead_conn =
  rx :: bytes
  tx :: bytes
  tx_faults :: "nat option list"
  write_key :: bytes
  read_key :: bytes
  write_ctr :: u64
  read_ctr :: u64
  read_buf :: bytes
  on_first_read :: "(string \<times> Variant) option"
  reported :: bool

text \<open>A write of the connection underneath: all of it, or an error after some of the bytes.\<close>

definition conn_write :: "bytes \<Rightarrow> aead_conn \<Rightarrow> bool \<times> aead_conn" where
  "conn_write d c = (case tx_faults c of
     [] \<Rightarrow> (True, c\<lparr>tx := tx c @ d\<rparr>)
   | None # fs \<Rightarrow> (True, c\<lparr>tx := tx c @ d, tx_faults := fs\<rparr>)
   | Some k # fs \<Rightarrow> (False, c\<lparr>tx := tx c @ take k d, tx_faults := fs\<rparr>))"

function write_loop :: "suite \<Rightarrow> bytes \<Rightarrow> nat \<Rightarrow> aead_conn \<Rightarrow> (nat \<times> conn_error option) \<times> aead_conn" where
  "write_loop P p written c =
     (if p = [] then ((written, None), c)
      else
        let chunk = take maxPlainChunk p;
            ct = aead_seal P (write_key c) (nonce (write_ctr c)) chunk
        in case conn_write (put_be 4 (length ct)) (c\<lparr>write_ctr := write_ctr c + 1\<rparr>) of
             (False, c1) \<Rightarrow> ((written, Some ErrConnWrite), c1)
           | (True, c1) \<Rightarrow>
               (case conn_write ct c1 of
                  (False, c2) \<Rightarrow> ((written, Some ErrConnWrite), c2)
                | (True, c2) \<Rightarrow> write_loop P (drop maxPlainChunk p) (written + length chunk) c2))"
  by pat_completeness auto
termination
  by (relation "measure (\<lambda>(P, p, n, c). length p)") (auto simp: maxPlainChunk_def)

declare write_loop.simps [simp del]

definition Write :: "suite \<Rightarrow> bytes \<Rightarrow> aead_conn \<Rightarrow> (nat \<times> conn_error option) \<times> aead_conn" where
  "Write P p c = write_loop P p 0 c"

text \<open>\<^verbatim>\<open>io.ReadFull\<close>\<close>

definition read_full :: "nat \<Rightarrow> bytes \<Rightarrow> (conn_error + bytes) \<times> bytes" where
  "read_full n r =
     (if n \<le> length r then (Inr (take n r), drop n r)
      else if r = [] then (Inl EOF, []) else (Inl ErrUnexpectedEOF, []))"

definition readRecord :: "bytes \<Rightarrow> (conn_error + bytes) \<times> bytes" where
  "readRecord r = (case read_full 4 r of
     (Inl e, r1) \<Rightarrow> (Inl e, r1)
   | (Inr hdr, r1) \<Rightarrow>
       let size = get_be hdr in
       if size = 0 \<or> size > maxRecordCipher then (Inl ErrNoVariant, r1)
       else read_full size r1)"

definition report :: "int \<Rightarrow> bool \<Rightarrow> aead_conn \<times> prefs \<Rightarrow> aead_conn \<times> prefs" where
  "report now good s = (case s of (c, p) \<Rightarrow>
     (case on_first_read c of
        None \<Rightarrow> (c, p)
      | Some (key, v) \<Rightarrow>
          if reported c then (c, p)
          else (c\<lparr>reported := True\<rparr>, if good then Succeeded now key v p else Failed now key v p)))"

text \<open>The bytes copied out of the buffer, at most \<open>n\<close> of them.\<close>

definition copy_out :: "nat \<Rightarrow> aead_conn \<Rightarrow> bytes \<times> aead_conn" where
  "copy_out n c = (take n (read_buf c), c\<lparr>read_buf := drop n (read_buf c)\<rparr>)"

definition Read :: "suite \<Rightarrow> int \<Rightarrow> nat \<Rightarrow> aead_conn \<times> prefs \<Rightarrow> (conn_error + bytes) \<times> aead_conn \<times> prefs" where
  "Read P now n s = (case s of (c, p) \<Rightarrow>
     if read_buf c \<noteq> [] then (case copy_out n c of (d, c1) \<Rightarrow> (Inr d, c1, p))
     else (case readRecord (rx c) of
       (Inl e, r) \<Rightarrow> (Inl e, report now False (c\<lparr>rx := r\<rparr>, p))
     | (Inr ct, r) \<Rightarrow>
         (case aead_open P (read_key c) (nonce (read_ctr c)) ct of
            None \<Rightarrow> (Inl ErrOpen, report now False (c\<lparr>rx := r\<rparr>, p))
          | Some pt \<Rightarrow>
              (case report now True (c\<lparr>rx := r\<rparr>, p) of (c1, p1) \<Rightarrow>
                 (case copy_out n (c1\<lparr>read_ctr := read_ctr c1 + 1, read_buf := pt\<rparr>) of
                    (d, c2) \<Rightarrow> (Inr d, c2, p1))))))"

subsection \<open>Credentials and handshakes\<close>

record keypair =
  kp_variant :: Variant
  kp_c2s :: bytes
  kp_s2c :: bytes

text \<open>
  \<open>cr_pref\<close> tells whether the credentials report to a preference record; there is one such record in
  the process, passed to the operations that read or change it.
\<close>

record creds =
  cr_c2s :: bytes
  cr_s2c :: bytes
  cr_server :: bool
  cr_accept :: "keypair list"
  cr_variant :: Variant
  cr_pref :: bool
  cr_prefKey :: string
  cr_token :: string

record auth_info =
  ai_variant :: Variant

definition AuthType :: "auth_info \<Rightarrow> string" where "AuthType info = protocolName"

definition NegotiatedVariant :: "auth_info option \<Rightarrow> Variant \<times> bool" where
  "NegotiatedVariant info = (case info of None \<Rightarrow> (Legacy256, False) | Some ai \<Rightarrow> (ai_variant ai, True))"

definition HashSecret :: "suite \<Rightarrow> string \<Rightarrow> string" where
  "HashSecret P token = hex_encode (sha256_sum P token)"

definition ClientVariant :: "suite \<Rightarrow> string \<Rightarrow> Variant \<Rightarrow> creds" where
  "ClientVariant P token v = \<lparr>cr_c2s = deriveKey P v token ''c2s'', cr_s2c = deriveKey P v token ''s2c'',
     cr_server = False, cr_accept = [], cr_variant = Legacy256, cr_pref = False, cr_prefKey = [], cr_token = []\<rparr>"

definition Client :: "suite \<Rightarrow> string \<Rightarrow> creds" where "Client P token = ClientVariant P token Legacy256"

definition ClientFor :: "suite \<Rightarrow> int \<Rightarrow> string \<Rightarrow> string \<Rightarrow> prefs \<Rightarrow> creds" where
  "ClientFor P now token peerKey p =
     (let v = Next now peerKey p in
      (ClientVariant P token v)\<lparr>cr_variant := v, cr_pref := True, cr_prefKey := peerKey, cr_token := token\<rparr>)"

definition ServerVariant :: "suite \<Rightarrow> string \<Rightarrow> Variant \<Rightarrow> creds" where
  "ServerVariant P token v = (ClientVariant P token v)\<lparr>cr_server := True\<rparr>"

definition Server :: "suite \<Rightarrow> string \<Rightarrow> creds" where "Server P token = ServerVariant P token Legacy256"

definition keypair_for :: "suite \<Rightarrow> string \<Rightarrow> Variant \<Rightarrow> keypair" where
  "keypair_for P token v =
     \<lparr>kp_variant = v, kp_c2s = deriveKey P v token ''c2s'', kp_s2c = deriveKey P v token ''s2c''\<rparr>"

definition ServerAny :: "suite \<Rightarrow> string \<Rightarrow> Variant list \<Rightarrow> creds" where
  "ServerAny P token variants =
     (let vs = (if variants = [] then [Legacy256] else variants);
          acc = map (keypair_for P token) vs
      in \<lparr>cr_c2s = kp_c2s (hd acc), cr_s2c = kp_s2c (hd acc), cr_server = True, cr_accept = acc,
          cr_variant = Legacy256, cr_pref = False, cr_prefKey = [], cr_token = []\<rparr>)"

definition wrap :: "bytes \<Rightarrow> nat option list \<Rightarrow> bytes \<Rightarrow> bytes \<Rightarrow> aead_conn \<times> auth_info" where
  "wrap r fs writeKey readKey =
     (\<lparr>rx = r, tx = [], tx_faults = fs, write_key = writeKey, read_key = readKey, write_ctr = 0, read_ctr = 0,
       read_buf = [], on_first_read = None, reported = False\<rparr>, \<lparr>ai_variant = Legacy256\<rparr>)"

definition ClientHandshake :: "suite \<Rightarrow> int \<Rightarrow> creds \<Rightarrow> prefs \<Rightarrow> bytes \<Rightarrow> nat option list \<Rightarrow> aead_conn \<times> auth_info" where
  "ClientHandshake P now c p r fs =
     (let again = cr_pref c \<and> cr_token c \<noteq> [];
          v = (if again then Next now (cr_prefKey c) p else cr_variant c);
          c2s = (if again then deriveKey P v (cr_token c) ''c2s'' else cr_c2s c);
          s2c = (if again then deriveKey P v (cr_token c) ''s2c'' else cr_s2c c)
      in case wrap r fs c2s s2c of (conn, info) \<Rightarrow>
           (if cr_pref c then conn\<lparr>on_first_read := Some (cr_prefKey c, v)\<rparr> else conn, info))"

fun first_opening :: "suite \<Rightarrow> bytes \<Rightarrow> keypair list \<Rightarrow> (keypair \<times> bytes) option" where
  "first_opening P record [] = None"
| "first_opening P record (kp # kps) = (case aead_open P (kp_c2s kp) (nonce 0) record of
     None \<Rightarrow> first_opening P record kps
   | Some plain \<Rightarrow> Some (kp, plain))"

definition serverHandshakeAny ::
  "suite \<Rightarrow> bytes \<Rightarrow> nat option list \<Rightarrow> keypair list \<Rightarrow> conn_error + aead_conn \<times> auth_info" where
  "serverHandshakeAny P r fs accept = (case readRecord r of
     (Inl e, _) \<Rightarrow> Inl e
   | (Inr record, r1) \<Rightarrow> (case first_opening P record accept of
       None \<Rightarrow> Inl ErrNoVariant
     | Some (kp, plain) \<Rightarrow>
         Inr (\<lparr>rx = r1, tx = [], tx_faults = fs, write_key = kp_s2c kp, read_key = kp_c2s kp, write_ctr = 0,
               read_ctr = 1, read_buf = plain, on_first_read = None, reported = False\<rparr>,
              \<lparr>ai_variant = kp_variant kp\<rparr>)))"

definition ServerHandshake :: "suite \<Rightarrow> creds \<Rightarrow> bytes \<Rightarrow> nat option list \<Rightarrow> conn_error + aead_conn \<times> auth_info" where
  "ServerHandshake P c r fs =
     (if length (cr_accept c) > 1 then serverHandshakeAny P r fs (cr_accept c)
      else Inr (wrap r fs (cr_s2c c) (cr_c2s c)))"

definition creds_Info :: "creds \<Rightarrow> string" where "creds_Info c = protocolName"
definition creds_Clone :: "creds \<Rightarrow> creds" where "creds_Clone c = c"
definition OverrideServerName :: "string \<Rightarrow> creds \<Rightarrow> creds" where "OverrideServerName name c = c"

subsection \<open>Framing\<close>

lemma length_put_be [simp]: "length (put_be k n) = k"
  by (induction k arbitrary: n) simp_all

lemma get_be_snoc: "get_be (xs @ [c]) = 256 * get_be xs + of_char c"
  by (simp add: get_be_def)

lemma get_put_be: "get_be (put_be k n) = n mod 256 ^ k"
proof (induction k arbitrary: n)
  case 0
  then show ?case by (simp add: get_be_def)
next
  case (Suc k)
  then show ?case by (simp add: get_be_snoc mod_mult2_eq)
qed

lemma nonce_inj: "nonce a = nonce b \<longleftrightarrow> a = b"
proof
  assume "nonce a = nonce b"
  then have "get_be (put_be 8 (unat a)) = get_be (put_be 8 (unat b))" by (simp add: nonce_def)
  moreover have "unat a < 2 ^ 64" "unat b < 2 ^ 64"
    using unsigned_less [of a] unsigned_less [of b] by simp_all
  ultimately show "a = b" by (simp add: get_put_be word_unat_eq_iff)
qed simp

text \<open>A record on the wire, and consecutive records from a counter on.\<close>

definition frame :: "suite \<Rightarrow> bytes \<Rightarrow> u64 \<Rightarrow> bytes \<Rightarrow> bytes" where
  "frame P k i pt = (let ct = aead_seal P k (nonce i) pt in put_be 4 (length ct) @ ct)"

fun frames :: "suite \<Rightarrow> bytes \<Rightarrow> u64 \<Rightarrow> bytes list \<Rightarrow> bytes" where
  "frames P k i [] = []"
| "frames P k i (c # cs) = frame P k i c @ frames P k (i + 1) cs"

function chunks :: "bytes \<Rightarrow> bytes list" where
  "chunks p = (if p = [] then [] else take maxPlainChunk p # chunks (drop maxPlainChunk p))"
  by pat_completeness auto
termination by (relation "measure length") (auto simp: maxPlainChunk_def)

declare chunks.simps [simp del]

lemma chunks_Nil [simp]: "chunks [] = []"
  by (simp add: chunks.simps)

lemma concat_chunks [simp]: "concat (chunks p) = p"
proof (induction p rule: chunks.induct)
  case (1 p)
  then show ?case by (cases "p = []") (simp_all add: chunks.simps [of p])
qed

definition chunk_ok :: "bytes \<Rightarrow> bool" where
  "chunk_ok c \<longleftrightarrow> c \<noteq> [] \<and> length c \<le> maxPlainChunk"

lemma chunks_ok: "c \<in> set (chunks p) \<Longrightarrow> chunk_ok c"
proof (induction p rule: chunks.induct)
  case (1 p)
  then show ?case
    by (cases "p = []") (auto simp: chunks.simps [of p] chunk_ok_def maxPlainChunk_def)
qed

lemma frames_append: "frames P k i (cs @ ds) = frames P k i cs @ frames P k (i + of_nat (length cs)) ds"
  by (induction cs arbitrary: i) (simp_all add: algebra_simps)

subsection \<open>What the ciphers promise\<close>

text \<open>
  What is taken from AES-256-GCM: a record opens under the key and nonce it was sealed with and is
  16 bytes longer than its content, and what opens is the record the content seals to.
\<close>

definition aead_ok :: "suite \<Rightarrow> bool" where
  "aead_ok P \<longleftrightarrow>
     (\<forall>k i p. aead_open P k (nonce i) (aead_seal P k (nonce i) p) = Some p) \<and>
     (\<forall>k i p. length (aead_seal P k (nonce i) p) = length p + 16) \<and>
     (\<forall>k i c p. aead_open P k (nonce i) c = Some p \<longrightarrow> c = aead_seal P k (nonce i) p)"

text \<open>A record sealed under another derivation of the token, or with another nonce, does not open.\<close>

definition separated :: "suite \<Rightarrow> string \<Rightarrow> bool" where
  "separated P token \<longleftrightarrow> (\<forall>v v' l i j p. v \<noteq> v' \<longrightarrow>
     aead_open P (deriveKey P v token l) (nonce i) (aead_seal P (deriveKey P v' token l) (nonce j) p) = None)"

definition nonce_bound :: "suite \<Rightarrow> bytes \<Rightarrow> bool" where
  "nonce_bound P k \<longleftrightarrow> (\<forall>i j p. i \<noteq> j \<longrightarrow> aead_open P k (nonce j) (aead_seal P k (nonce i) p) = None)"

lemma aead_okD:
  assumes "aead_ok P"
  shows "aead_open P k (nonce i) (aead_seal P k (nonce i) p) = Some p"
    and "length (aead_seal P k (nonce i) p) = length p + 16"
    and "aead_open P k (nonce i) c = Some p \<Longrightarrow> c = aead_seal P k (nonce i) p"
  using assms by (auto simp: aead_ok_def)

lemma read_frame:
  assumes "aead_ok P" "chunk_ok c"
  shows "readRecord (frame P k i c @ r) = (Inr (aead_seal P k (nonce i) c), r)"
  using assms aead_okD(2) [OF assms(1), of k i c]
  by (simp add: readRecord_def frame_def Let_def read_full_def get_put_be chunk_ok_def maxRecordCipher_def
      maxPlainChunk_def)

subsection \<open>Writing\<close>

lemma write_loop_ok:
  "tx_faults c = [] \<Longrightarrow> write_loop P p n c =
     ((n + length p, None), c\<lparr>tx := tx c @ frames P (write_key c) (write_ctr c) (chunks p),
        write_ctr := write_ctr c + of_nat (length (chunks p))\<rparr>)"
proof (induction P p n c rule: write_loop.induct)
  case (1 P p n c)
  show ?case
  proof (cases "p = []")
    case True
    then show ?thesis by (subst write_loop.simps) simp
  next
    case False
    let ?ct = "aead_seal P (write_key c) (nonce (write_ctr c)) (take maxPlainChunk p)"
    let ?c1 = "c\<lparr>write_ctr := write_ctr c + 1, tx := tx c @ put_be 4 (length ?ct)\<rparr>"
    let ?c2 = "?c1\<lparr>tx := (tx c @ put_be 4 (length ?ct)) @ ?ct\<rparr>"
    have IH: "write_loop P (drop maxPlainChunk p) (n + length (take maxPlainChunk p)) ?c2 =
       ((n + length (take maxPlainChunk p) + length (drop maxPlainChunk p), None),
        ?c2\<lparr>tx := tx ?c2 @ frames P (write_key c) (write_ctr c + 1) (chunks (drop maxPlainChunk p)),
           write_ctr := write_ctr c + 1 + of_nat (length (chunks (drop maxPlainChunk p)))\<rparr>)"
      by (subst 1(1) [OF False refl refl _ refl _ refl, of ?c1]) (use 1(2) in \<open>simp_all add: conn_write_def\<close>)
    have "n + length (take maxPlainChunk p) + length (drop maxPlainChunk p) = n + length p"
      by simp
    then show ?thesis
      using False 1(2) IH
      by (subst write_loop.simps) (simp add: Let_def conn_write_def chunks.simps [of p] frame_def algebra_simps)
  qed
qed

lemma Write_ok:
  assumes "tx_faults c = []"
  shows "Write P p c = ((length p, None), c\<lparr>tx := tx c @ frames P (write_key c) (write_ctr c) (chunks p),
        write_ctr := write_ctr c + of_nat (length (chunks p))\<rparr>)"
  using write_loop_ok [OF assms] by (simp add: Write_def)

definition sends :: "suite \<Rightarrow> bytes list \<Rightarrow> aead_conn \<Rightarrow> aead_conn" where
  "sends P ps c = fold (\<lambda>p c. snd (Write P p c)) ps c"

lemma sends_ok:
  "tx_faults c = [] \<Longrightarrow> sends P ps c =
     c\<lparr>tx := tx c @ frames P (write_key c) (write_ctr c) (concat (map chunks ps)),
       write_ctr := write_ctr c + of_nat (length (concat (map chunks ps)))\<rparr>"
proof (induction ps arbitrary: c)
  case Nil
  then show ?case by (simp add: sends_def)
next
  case (Cons p ps)
  have "sends P (p # ps) c = sends P ps (snd (Write P p c))" by (simp add: sends_def)
  then show ?case
    using Cons.prems by (simp add: Write_ok Cons.IH frames_append algebra_simps)
qed

subsection \<open>Reading\<close>

lemma report_frame [simp]:
  "rx (fst (report now g s)) = rx (fst s)" "read_key (fst (report now g s)) = read_key (fst s)"
  "read_ctr (fst (report now g s)) = read_ctr (fst s)" "read_buf (fst (report now g s)) = read_buf (fst s)"
  by (auto simp: report_def split: prod.splits option.splits)

fun drain :: "suite \<Rightarrow> int \<Rightarrow> nat \<Rightarrow> nat \<Rightarrow> aead_conn \<times> prefs \<Rightarrow> bytes \<times> conn_error option" where
  "drain P now n 0 s = ([], None)"
| "drain P now n (Suc f) s = (case Read P now n s of
     (Inl e, s') \<Rightarrow> ([], Some e)
   | (Inr d, s') \<Rightarrow> (case drain P now n f s' of (d', e) \<Rightarrow> (d @ d', e)))"

lemma Read_buffered:
  "read_buf c \<noteq> [] \<Longrightarrow> Read P now n (c, p) = (Inr (take n (read_buf c)), c\<lparr>read_buf := drop n (read_buf c)\<rparr>, p)"
  by (simp add: Read_def copy_out_def)

lemma Read_record:
  assumes "read_buf c = []" "readRecord (rx c) = (Inr ct, r)" "aead_open P (read_key c) (nonce (read_ctr c)) ct = Some pt"
  obtains c' p' where "Read P now n (c, p) = (Inr (take n pt), c', p')" "rx c' = r" "read_key c' = read_key c"
    "read_ctr c' = read_ctr c + 1" "read_buf c' = drop n pt"
proof -
  obtain c1 p1 where r: "report now True (c\<lparr>rx := r\<rparr>, p) = (c1, p1)" by fastforce
  show ?thesis
    by (rule that [of "c1\<lparr>read_ctr := read_ctr c1 + 1, read_buf := drop n pt\<rparr>" p1])
       (use assms r report_frame [of now True "(c\<lparr>rx := r\<rparr>, p)"] in \<open>simp_all add: Read_def copy_out_def\<close>)
qed

lemma Read_refused:
  assumes "read_buf c = []" "readRecord (rx c) = (Inr ct, r)" "aead_open P (read_key c) (nonce (read_ctr c)) ct = None"
  shows "Read P now n (c, p) = (Inl ErrOpen, report now False (c\<lparr>rx := r\<rparr>, p))"
  using assms by (simp add: Read_def)

lemma Read_error:
  assumes "read_buf c = []" "readRecord (rx c) = (Inl e, r)"
  shows "Read P now n (c, p) = (Inl e, report now False (c\<lparr>rx := r\<rparr>, p))"
  using assms by (simp add: Read_def)

lemma readRecord_Nil [simp]: "readRecord [] = (Inl EOF, [])"
  by (simp add: readRecord_def read_full_def)

lemma drain_frames:
  assumes "aead_ok P" "n > 0"
  shows "rx c = frames P (read_key c) (read_ctr c) cs \<Longrightarrow> \<forall>x \<in> set cs. chunk_ok x \<Longrightarrow>
     f > length (read_buf c) + length (concat cs) \<Longrightarrow>
     drain P now n f (c, p) = (read_buf c @ concat cs, Some EOF)"
proof (induction f arbitrary: c p cs)
  case (Suc f)
  show ?case
  proof (cases "read_buf c = []")
    case False
    let ?c = "c\<lparr>read_buf := drop n (read_buf c)\<rparr>"
    have "length (drop n (read_buf c)) < length (read_buf c)" using False assms(2) by simp
    then have "drain P now n f (?c, p) = (drop n (read_buf c) @ concat cs, Some EOF)"
      using Suc.IH [of ?c cs p] Suc.prems by simp
    then show ?thesis using False by (simp add: Read_buffered flip: append_assoc)
  next
    case b: True
    show ?thesis
    proof (cases cs)
      case Nil
      then show ?thesis using b Suc.prems(1) Read_error [OF b] by simp
    next
      case (Cons x xs)
      have x: "chunk_ok x" using Cons Suc.prems(2) by simp
      have rr: "readRecord (rx c) = (Inr (aead_seal P (read_key c) (nonce (read_ctr c)) x), frames P (read_key c) (read_ctr c + 1) xs)"
        using read_frame [OF assms(1) x] Suc.prems(1) Cons by simp
      obtain c' p' where R: "Read P now n (c, p) = (Inr (take n x), c', p')"
        "rx c' = frames P (read_key c) (read_ctr c + 1) xs" "read_key c' = read_key c" "read_ctr c' = read_ctr c + 1"
        "read_buf c' = drop n x"
        using Read_record [OF b rr aead_okD(1) [OF assms(1)]] by blast
      have "length (drop n x) < length x" using x assms(2) by (simp add: chunk_ok_def)
      then have "drain P now n f (c', p') = (drop n x @ concat xs, Some EOF)"
        using Suc.IH [of c' xs p'] Suc.prems Cons R b by simp
      then show ?thesis using Cons R b by (simp flip: append_assoc)
    qed
  qed
qed simp

subsection \<open>The stream\<close>

text \<open>The transport delivers the stream. Whatever is written on one side, in any number of writes of any
  length, is read on the other side, in reads of any size, byte for byte and then the end of the
  stream, when both sides hold the same key and counter.\<close>

theorem stream_roundtrip:
  assumes "aead_ok P" "n > 0" and w: "tx_faults w = []" "tx w = []" and
    r: "read_key r = write_key w" "read_ctr r = write_ctr w" "read_buf r = []" "rx r = tx (sends P ps w)" and
    f: "f > length (concat ps)"
  shows "drain P now n f (r, p) = (concat ps, Some EOF)"
proof -
  have c: "concat (concat (map chunks ps)) = concat ps" by (induction ps) simp_all
  have ok: "\<forall>x \<in> set (concat (map chunks ps)). chunk_ok x" using chunks_ok by auto
  show ?thesis
    using drain_frames [OF assms(1,2) _ ok, of r f now p] w r f by (simp add: sends_ok c)
qed

lemma word_nat_inj: "i < 2 ^ 64 \<Longrightarrow> j < 2 ^ 64 \<Longrightarrow> (of_nat i :: u64) = of_nat j \<Longrightarrow> i = j"
  by (simp add: word_of_nat_eq_iff take_bit_nat_eq_self)

lemma conn_write_frame:
  assumes "conn_write d c = (good, c')"
  shows "write_ctr c' = write_ctr c" "write_key c' = write_key c"
    "\<exists>w. tx c' = tx c @ w \<and> prefix w d \<and> (good \<longrightarrow> w = d)"
  using assms by (auto simp: conn_write_def take_is_prefix split: list.splits option.splits)

definition wrote :: "suite \<Rightarrow> bytes \<Rightarrow> aead_conn \<Rightarrow> conn_error option \<Rightarrow> aead_conn \<Rightarrow> nat \<Rightarrow> bool" where
  "wrote P p c e c' m \<longleftrightarrow> m \<le> length (chunks p) \<and> write_ctr c' = write_ctr c + of_nat m \<and>
     write_key c' = write_key c \<and>
     (\<exists>w. tx c' = tx c @ w \<and> prefix w (frames P (write_key c) (write_ctr c) (take m (chunks p))) \<and>
        (e = None \<longrightarrow> m = length (chunks p) \<and> w = frames P (write_key c) (write_ctr c) (chunks p)))"

lemma write_loop_wrote:
  "write_loop P p n c = ((k, e), c') \<Longrightarrow> \<exists>m. wrote P p c e c' m"
proof (induction P p n c arbitrary: k e c' rule: write_loop.induct)
  case (1 P p n c)
  show ?case
  proof (cases "p = []")
    case True
    then show ?thesis using 1(2) by (subst (asm) write_loop.simps) (auto simp: wrote_def)
  next
    case p: False
    let ?ch = "take maxPlainChunk p"
    let ?ct = "aead_seal P (write_key c) (nonce (write_ctr c)) ?ch"
    let ?c0 = "c\<lparr>write_ctr := write_ctr c + 1\<rparr>"
    have ch: "chunks p = ?ch # chunks (drop maxPlainChunk p)" using p by (simp add: chunks.simps [of p])
    obtain b1 c1 where w1: "conn_write (put_be 4 (length ?ct)) ?c0 = (b1, c1)" by fastforce
    obtain v1 where v1: "tx c1 = tx c @ v1" "prefix v1 (put_be 4 (length ?ct))" "b1 \<longrightarrow> v1 = put_be 4 (length ?ct)"
      "write_ctr c1 = write_ctr c + 1" "write_key c1 = write_key c"
      using conn_write_frame [OF w1] by auto
    show ?thesis
    proof (cases b1)
      case False
      then have "e = Some ErrConnWrite" "c' = c1" using 1(2) p w1 by (subst (asm) write_loop.simps, simp add: Let_def)+
      moreover have "prefix v1 (frames P (write_key c) (write_ctr c) (take 1 (chunks p)))"
        using v1(2) by (auto simp: ch frame_def Let_def elim!: prefixE)
      ultimately have "wrote P p c e c' 1" using v1 by (auto simp: wrote_def ch)
      then show ?thesis by blast
    next
      case b1: True
      obtain b2 c2 where w2: "conn_write ?ct c1 = (b2, c2)" by fastforce
      obtain v2 where v2: "tx c2 = tx c @ put_be 4 (length ?ct) @ v2" "prefix v2 ?ct" "b2 \<longrightarrow> v2 = ?ct"
        "write_ctr c2 = write_ctr c + 1" "write_key c2 = write_key c"
        using conn_write_frame [OF w2] v1 b1 by auto
      show ?thesis
      proof (cases b2)
        case False
        then have "e = Some ErrConnWrite" "c' = c2"
          using 1(2) p w1 b1 w2 by (subst (asm) write_loop.simps, simp add: Let_def)+
        moreover have "prefix (put_be 4 (length ?ct) @ v2) (frames P (write_key c) (write_ctr c) (take 1 (chunks p)))"
          using v2(2) by (auto simp: ch frame_def Let_def)
        ultimately have "wrote P p c e c' 1" using v2 by (auto simp: wrote_def ch)
        then show ?thesis by blast
      next
        case True
        then have "write_loop P (drop maxPlainChunk p) (n + length ?ch) c2 = ((k, e), c')"
          using 1(2) p w1 b1 w2 by (subst (asm) write_loop.simps) (simp add: Let_def)
        moreover have w: "(True, c1) = conn_write (put_be 4 (length ?ct)) ?c0" "(True, c2) = conn_write ?ct c1"
          using w1 b1 w2 True by simp_all
        ultimately obtain m where m: "wrote P (drop maxPlainChunk p) c2 e c' m"
          using 1(1) [OF p refl refl w(1) refl w(2) refl] by blast
        then have "wrote P p c e c' (Suc m)"
          using v2 True by (auto simp: wrote_def ch frame_def Let_def)
        then show ?thesis by blast
      qed
    qed
  qed
qed

text \<open>No nonce is used twice. Whatever writes of the connection underneath fail, and after however
  many bytes, a write seals at most one record per chunk, each under the next counter value, the
  bytes it puts on the wire are a prefix of those records, and it leaves the counter behind the
  last of them; fewer than 2^64 consecutive counters give pairwise distinct nonces. A write that
  reports no error has sent all of its records.\<close>

theorem write_nonces:
  assumes "Write P p c = ((k, e), c')"
  shows "\<exists>m w. m \<le> length (chunks p) \<and> write_ctr c' = write_ctr c + of_nat m \<and> tx c' = tx c @ w \<and>
      prefix w (frames P (write_key c) (write_ctr c) (take m (chunks p))) \<and>
      (e = None \<longrightarrow> w = frames P (write_key c) (write_ctr c) (chunks p)) \<and>
      (m \<le> 2 ^ 64 \<longrightarrow> distinct (map (\<lambda>i. nonce (write_ctr c + of_nat i)) [0..<m]))"
proof -
  obtain m where m: "wrote P p c e c' m" using write_loop_wrote assms unfolding Write_def by blast
  have "distinct (map (\<lambda>i. nonce (write_ctr c + of_nat i)) [0..<m])" if "m \<le> 2 ^ 64"
    using that word_nat_inj by (auto simp: distinct_map inj_on_def nonce_inj)
  then show ?thesis using m by (auto simp: wrote_def)
qed

text \<open>The records a wire holds, as the reader cuts it.\<close>

lemma readRecord_shorter: "readRecord r = (Inr ct, r') \<Longrightarrow> length r' < length r"
  by (auto simp: readRecord_def read_full_def Let_def split: prod.splits sum.splits if_splits)

function records :: "bytes \<Rightarrow> bytes list" where
  "records r = (case readRecord r of (Inl _, _) \<Rightarrow> [] | (Inr ct, r') \<Rightarrow> ct # records r')"
  by pat_completeness auto
termination by (relation "measure length") (auto dest: readRecord_shorter [OF sym])

declare records.simps [simp del]

definition genuine :: "suite \<Rightarrow> bytes \<Rightarrow> bytes list \<Rightarrow> bytes \<Rightarrow> bool" where
  "genuine P k cs ct \<longleftrightarrow> (\<forall>j p. aead_open P k (nonce j) ct = Some p \<longrightarrow>
     (\<exists>i < length cs. ct = aead_seal P k (nonce (of_nat i)) (cs ! i)))"

lemma prefix_take_app: "prefix d (drop n b @ r) \<Longrightarrow> prefix (take n b @ d) (b @ r)"
  by (metis append_assoc append_take_drop_id same_prefix_prefix)

lemma drain_prefix:
  assumes ok: "aead_ok P" "nonce_bound P k" "length cs < 2 ^ 64"
  shows "read_key c = k \<Longrightarrow> read_ctr c = of_nat i \<Longrightarrow> i \<le> length cs \<Longrightarrow>
     \<forall>ct \<in> set (records (rx c)). genuine P k cs ct \<Longrightarrow>
     prefix (fst (drain P now n f (c, p))) (read_buf c @ concat (drop i cs))"
proof (induction f arbitrary: c p i)
  case (Suc f)
  show ?case
  proof (cases "read_buf c = []")
    case False
    let ?c = "c\<lparr>read_buf := drop n (read_buf c)\<rparr>"
    have "prefix (fst (drain P now n f (?c, p))) (drop n (read_buf c) @ concat (drop i cs))"
      using Suc.IH [of ?c i p] Suc.prems by simp
    from prefix_take_app [OF this] show ?thesis using False by (simp add: Read_buffered case_prod_beta)
  next
    case b: True
    show ?thesis
    proof (cases "readRecord (rx c)")
      case (Pair res r)
      show ?thesis
      proof (cases res)
        case (Inl e)
        then show ?thesis using Pair b by (simp add: Read_error)
      next
        case (Inr ct)
        note rr = Pair [unfolded Inr]
        have rec: "records (rx c) = ct # records r" by (simp add: records.simps [of "rx c"] rr)
        show ?thesis
        proof (cases "aead_open P (read_key c) (nonce (read_ctr c)) ct")
          case None
          then show ?thesis using b rr by (simp add: Read_refused)
        next
          case (Some pt)
          have "genuine P k cs ct" using Suc.prems(4) rec by simp
          then obtain j where j: "j < length cs" "ct = aead_seal P k (nonce (of_nat j)) (cs ! j)"
            using Some Suc.prems(1) unfolding genuine_def by blast
          have "(of_nat j :: u64) = of_nat i"
            using ok(2) Some j(2) Suc.prems(1,2) unfolding nonce_bound_def by (metis option.distinct(1))
          then have ij: "j = i" using j(1) Suc.prems(3) ok(3) by (intro word_nat_inj) simp_all
          have pt: "pt = cs ! i" using Some j ij Suc.prems(1,2) aead_okD(1) [OF ok(1)] by simp
          obtain c' p' where R: "Read P now n (c, p) = (Inr (take n pt), c', p')" "rx c' = r" "read_key c' = read_key c"
            "read_ctr c' = read_ctr c + 1" "read_buf c' = drop n pt"
            using Read_record [OF b rr Some] by blast
          have "prefix (take n pt @ fst (drain P now n f (c', p'))) (take n pt @ drop n pt @ concat (drop (Suc i) cs))"
            using Suc.IH [of c' "Suc i" p'] Suc.prems R rec j(1) ij by simp
          then have "prefix (take n pt @ fst (drain P now n f (c', p'))) (concat (drop i cs))"
            using j(1) ij pt by (simp add: Cons_nth_drop_Suc [symmetric] flip: append_assoc)
          then show ?thesis using R(1) b by (simp add: case_prod_beta)
        qed
      qed
    qed
  qed
qed simp

text \<open>C6: The integrity of the stream. Let the peer have sealed the chunks \<open>cs\<close>, fewer than 2^64. Whatever
  arrives on the wire, records dropped, repeated, reordered, cut short or replaced by anything that
  does not open, the reader delivers a prefix of what the peer wrote and nothing else.\<close>

theorem stream_integrity:
  assumes "aead_ok P" "nonce_bound P k" "length cs < 2 ^ 64" and
    "read_key c = k" "read_ctr c = 0" "read_buf c = []" and
    "\<forall>ct \<in> set (records (rx c)). genuine P k cs ct"
  shows "prefix (fst (drain P now n f (c, p))) (concat cs)"
  using drain_prefix [OF assms(1-3), of c 0 now n f p] assms(4-7) by simp

subsection \<open>Accepting several derivations\<close>

lemma first_opening_sealed:
  assumes "aead_ok P" "separated P token"
  shows "first_opening P (aead_seal P (deriveKey P v token ''c2s'') (nonce 0) x) (map (keypair_for P token) vs) =
     (if v \<in> set vs then Some (keypair_for P token v, x) else None)"
proof (induction vs)
  case (Cons u us)
  have "aead_open P (deriveKey P u token ''c2s'') (nonce 0) (aead_seal P (deriveKey P v token ''c2s'') (nonce 0) x) =
      (if u = v then Some x else None)"
    using assms(2) aead_okD(1) [OF assms(1)] by (simp add: separated_def)
  then show ?case using Cons by (auto simp: keypair_for_def)
qed simp

text \<open>What a dialling peer has put on the wire after its handshake and a first write.\<close>

definition dialled :: "suite \<Rightarrow> string \<Rightarrow> Variant \<Rightarrow> bytes \<Rightarrow> bytes" where
  "dialled P token v x = frames P (deriveKey P v token ''c2s'') 0 (chunks x)"

lemma handshake_any:
  assumes "aead_ok P" "separated P token" "x \<noteq> []"
  shows "serverHandshakeAny P (dialled P token v x) fs (map (keypair_for P token) vs) =
     (if v \<in> set vs then
        Inr (\<lparr>rx = frames P (deriveKey P v token ''c2s'') 1 (chunks (drop maxPlainChunk x)), tx = [], tx_faults = fs,
              write_key = deriveKey P v token ''s2c'', read_key = deriveKey P v token ''c2s'', write_ctr = 0,
              read_ctr = 1, read_buf = take maxPlainChunk x, on_first_read = None, reported = False\<rparr>, \<lparr>ai_variant = v\<rparr>)
      else Inl ErrNoVariant)"
proof -
  have c: "chunks x = take maxPlainChunk x # chunks (drop maxPlainChunk x)" using assms(3) by (simp add: chunks.simps [of x])
  then have "chunk_ok (take maxPlainChunk x)" using chunks_ok [of _ x] by simp
  from read_frame [OF assms(1) this, of "deriveKey P v token ''c2s''" 0]
  show ?thesis
    using first_opening_sealed [OF assms(1,2), of v "take maxPlainChunk x" vs]
    by (simp add: serverHandshakeAny_def dialled_def c keypair_for_def)
qed

text \<open>A listener that accepts several derivations finds out which one the peer used, whatever the order they
  are listed in, and loses nothing of what the peer sent first: the connection reads the whole
  stream. A derivation that is not accepted is refused with ErrNoVariant, and so is a record whose
  length prefix is zero or above the bound, before any of its content is read.\<close>

theorem server_resolves:
  assumes "aead_ok P" "separated P token" "x \<noteq> []" "length vs > 1" "n > 0" "f > length x"
  shows "(case ServerHandshake P (ServerAny P token vs) (dialled P token v x) fs of
      Inl e \<Rightarrow> e = ErrNoVariant \<and> v \<notin> set vs
    | Inr (sc, info) \<Rightarrow> v \<in> set vs \<and> NegotiatedVariant (Some info) = (v, True) \<and>
        drain P now n f (sc, p) = (x, Some EOF)) \<and>
    (sz = 0 \<or> maxRecordCipher < sz \<and> sz < 2 ^ 32 \<longrightarrow>
      ServerHandshake P (ServerAny P token vs) (put_be 4 sz @ r) fs = Inl ErrNoVariant)"
proof -
  have S: "ServerHandshake P (ServerAny P token vs) r fs = serverHandshakeAny P r fs (map (keypair_for P token) vs)" for r
    using assms(4) by (auto simp: ServerHandshake_def ServerAny_def Let_def)
  let ?k = "deriveKey P v token ''c2s''"
  let ?sc = "\<lparr>rx = frames P ?k 1 (chunks (drop maxPlainChunk x)), tx = [], tx_faults = fs,
              write_key = deriveKey P v token ''s2c'', read_key = ?k, write_ctr = 0,
              read_ctr = 1, read_buf = take maxPlainChunk x, on_first_read = None, reported = False\<rparr>"
  have "drain P now n f (?sc, p) = (read_buf ?sc @ concat (chunks (drop maxPlainChunk x)), Some EOF)"
    by (rule drain_frames [OF assms(1,5)]) (use assms(6) chunks_ok in auto)
  then have 1: "case ServerHandshake P (ServerAny P token vs) (dialled P token v x) fs of
      Inl e \<Rightarrow> e = ErrNoVariant \<and> v \<notin> set vs
    | Inr (sc, info) \<Rightarrow> v \<in> set vs \<and> NegotiatedVariant (Some info) = (v, True) \<and>
        drain P now n f (sc, p) = (x, Some EOF)"
    by (simp add: S handshake_any [OF assms(1-3)] NegotiatedVariant_def)
  have 2: "ServerHandshake P (ServerAny P token vs) (put_be 4 sz @ r) fs = Inl ErrNoVariant"
    if "sz = 0 \<or> maxRecordCipher < sz \<and> sz < 2 ^ 32"
    using that by (auto simp: S serverHandshakeAny_def readRecord_def read_full_def get_put_be Let_def)
  show ?thesis using 1 2 by blast
qed

subsection \<open>Finding out what a peer speaks\<close>

text \<open>
  One connection attempt of the panel: the handshake of its credentials, the first bytes of the
  client, the listener's handshake and its first bytes, and the client's first read. A listener
  whose handshake fails closes the connection.
\<close>

definition attempt :: "suite \<Rightarrow> creds \<Rightarrow> creds \<Rightarrow> int \<Rightarrow> prefs \<Rightarrow> bool \<times> prefs" where
  "attempt P cl srv now p =
     (let conn = snd (Write P ''PRI'' (fst (ClientHandshake P now cl p [] [])));
          reply = (case ServerHandshake P srv (tx conn) [] of
                     Inl _ \<Rightarrow> []
                   | Inr (sc, _) \<Rightarrow> tx (snd (Write P ''SETTINGS'' sc)))
      in case Read P now 4096 (conn\<lparr>rx := reply\<rparr>, p) of (r, _, p') \<Rightarrow> (\<not> isl r, p'))"

definition accepted :: "Variant list \<Rightarrow> Variant set" where
  "accepted vs = (if vs = [] then {Legacy256} else set vs)"

lemma chunks_short: "x \<noteq> [] \<Longrightarrow> length x \<le> maxPlainChunk \<Longrightarrow> chunks x = [x]"
  by (simp add: chunks.simps [of x])

lemma short_texts: "chunks ''PRI'' = [''PRI'']" "chunks ''SETTINGS'' = [''SETTINGS'']"
  by (simp_all add: chunks_short maxPlainChunk_def)

lemma attempt_outcome:
  assumes ok: "aead_ok P" "separated P token" and t: "token \<noteq> []"
  shows "attempt P (ClientFor P now0 token key p0) (ServerAny P token vs) now p =
     (let v = Next now key p in
      if v \<in> accepted vs then (True, Succeeded now key v p) else (False, Failed now key v p))"
proof -
  define v where "v = Next now key p"
  let ?k = "\<lambda>v l. deriveKey P v token l"
  let ?conn = "\<lparr>rx = [], tx = dialled P token v ''PRI'', tx_faults = [], write_key = ?k v ''c2s'', read_key = ?k v ''s2c'',
     write_ctr = 1, read_ctr = 0, read_buf = [], on_first_read = Some (key, v), reported = False\<rparr>"
  have conn: "snd (Write P ''PRI'' (fst (ClientHandshake P now (ClientFor P now0 token key p0) p [] []))) = ?conn"
    using t by (simp add: ClientHandshake_def ClientFor_def ClientVariant_def Let_def wrap_def v_def Write_ok
        short_texts dialled_def)
  have sok: "chunk_ok ''SETTINGS''" by (simp add: chunk_ok_def maxPlainChunk_def)
  have good: "Read P now 4096 (?conn\<lparr>rx := frames P (?k v ''s2c'') 0 (chunks ''SETTINGS'')\<rparr>, p) =
      (Inr ''SETTINGS'', ?conn\<lparr>rx := [], reported := True, read_ctr := 1\<rparr>, Succeeded now key v p)"
    using read_frame [OF ok(1) sok, of "?k v ''s2c''" 0 "[]"] aead_okD(1) [OF ok(1)]
    by (simp add: Read_def short_texts report_def copy_out_def)
  have bad: "fst (Read P now 4096 (?conn\<lparr>rx := frames P (?k u ''s2c'') 0 (chunks ''SETTINGS'')\<rparr>, p)) = Inl ErrOpen \<and>
      snd (snd (Read P now 4096 (?conn\<lparr>rx := frames P (?k u ''s2c'') 0 (chunks ''SETTINGS'')\<rparr>, p))) = Failed now key v p"
    if "u \<noteq> v" for u
    using read_frame [OF ok(1) sok, of "?k u ''s2c''" 0 "[]"] that ok(2)
    by (simp add: Read_def short_texts report_def separated_def)
  have closed: "Read P now 4096 (?conn\<lparr>rx := []\<rparr>, p) = (Inl EOF, ?conn\<lparr>rx := [], reported := True\<rparr>, Failed now key v p)"
    by (simp add: Read_def report_def)
  consider (any) "length vs > 1" | (one) u where "accepted vs = {u}" "\<not> length vs > 1"
    "cr_s2c (ServerAny P token vs) = ?k u ''s2c''" "cr_c2s (ServerAny P token vs) = ?k u ''c2s''"
  proof (cases vs)
    case Nil
    then show ?thesis using one [of Legacy256] by (simp add: accepted_def ServerAny_def Let_def keypair_for_def)
  next
    case (Cons u us)
    then show ?thesis using any one [of u] by (cases us) (auto simp: accepted_def ServerAny_def Let_def keypair_for_def)
  qed
  then show ?thesis
  proof cases
    case any
    then have S: "ServerHandshake P (ServerAny P token vs) r fs = serverHandshakeAny P r fs (map (keypair_for P token) vs)" for r fs
      by (auto simp: ServerHandshake_def ServerAny_def Let_def)
    have a: "accepted vs = set vs" using any by (auto simp: accepted_def)
    show ?thesis
      using good closed
      by (simp add: attempt_def conn S handshake_any [OF ok] a Write_ok Let_def v_def [symmetric])
  next
    case one
    have S: "ServerHandshake P (ServerAny P token vs) r fs = Inr (wrap r fs (?k u ''s2c'') (?k u ''c2s''))" for r fs
      using one by (auto simp: ServerHandshake_def ServerAny_def Let_def)
    show ?thesis
    proof (cases "u = v")
      case True
      then show ?thesis
        using good one(1)
        by (simp add: attempt_def conn S wrap_def Write_ok Let_def v_def [symmetric])
    next
      case False
      then show ?thesis
        using bad [OF False] one(1)
        by (simp add: attempt_def conn S wrap_def Write_ok Let_def v_def [symmetric] case_prod_beta)
    qed
  qed
qed

fun attempts :: "suite \<Rightarrow> creds \<Rightarrow> creds \<Rightarrow> int list \<Rightarrow> prefs \<Rightarrow> bool list \<times> prefs" where
  "attempts P cl srv [] p = ([], p)"
| "attempts P cl srv (t # ts) p = (case attempt P cl srv t p of (b, p1) \<Rightarrow>
     (case attempts P cl srv ts p1 of (bs, p2) \<Rightarrow> (b # bs, p2)))"

fun frequent :: "int \<Rightarrow> int list \<Rightarrow> bool" where
  "frequent t [] \<longleftrightarrow> True"
| "frequent t (u # us) \<longleftrightarrow> u - t \<le> reprobeAfter \<and> frequent u us"

lemma settled_stays:
  assumes ok: "aead_ok P" "separated P token" "token \<noteq> []"
  shows "p key = Some e \<Longrightarrow> pe_variant e \<in> accepted vs \<Longrightarrow> frequent (pe_at e) ts \<Longrightarrow>
     fst (attempts P (ClientFor P now0 token key p0) (ServerAny P token vs) ts p) = replicate (length ts) True"
proof (induction ts arbitrary: p e)
  case (Cons t ts)
  let ?v = "pe_variant e"
  have n: "Next t key p = ?v" using Cons.prems by (simp add: Next_def)
  have "fst (attempts P (ClientFor P now0 token key p0) (ServerAny P token vs) ts (Succeeded t key ?v p)) =
      replicate (length ts) True"
    by (rule Cons.IH [where e = "\<lparr>pe_variant = ?v, pe_at = t, pe_proven = True\<rparr>"])
       (use Cons.prems in \<open>simp_all add: Succeeded_def\<close>)
  then show ?case
    using Cons.prems by (simp add: attempt_outcome [OF ok] n case_prod_beta)
qed simp

text \<open>C35: A new peer that keeps being dialled is reached. Take a peer the panel has no record of, a token that is not
  empty, and attempts of which each follows the one before within an hour: whatever derivations the
  listener accepts, only the first attempt can fail, and it fails exactly for a peer that does not
  accept SHA-512. The hour matters: after a longer silence the panel goes back to SHA-512, and a
  later theorem of this section shows a peer that is then never reached again.\<close>

theorem peer_settles:
  assumes ok: "aead_ok P" "separated P token" "token \<noteq> []" and new: "p key = None" and f: "frequent t ts"
  shows "fst (attempts P (ClientFor P now0 token key p0) (ServerAny P token vs) (t # ts) p) =
    (SHA512 \<in> accepted vs) # replicate (length ts) True"
proof -
  let ?A = "attempts P (ClientFor P now0 token key p0) (ServerAny P token vs) ts"
  have n: "Next t key p = SHA512" using new by (simp add: Next_def)
  show ?thesis
  proof (cases "SHA512 \<in> accepted vs")
    case True
    have "fst (?A (Succeeded t key SHA512 p)) = replicate (length ts) True"
      by (rule settled_stays [OF ok, where e = "\<lparr>pe_variant = SHA512, pe_at = t, pe_proven = True\<rparr>"])
         (use True f in \<open>simp_all add: Succeeded_def\<close>)
    then show ?thesis using True by (simp add: attempt_outcome [OF ok] n case_prod_beta)
  next
    case False
    have l: "Legacy256 \<in> accepted vs"
    proof (cases vs)
      case (Cons u us)
      then show ?thesis using False by (cases u) (auto simp: accepted_def)
    qed (simp add: accepted_def)
    have "fst (?A (Failed t key SHA512 p)) = replicate (length ts) True"
      by (rule settled_stays [OF ok, where e = "\<lparr>pe_variant = Legacy256, pe_at = t, pe_proven = False\<rparr>"])
         (use l f new in \<open>simp_all add: Failed_def\<close>)
    then show ?thesis using False by (simp add: attempt_outcome [OF ok] n case_prod_beta)
  qed
qed

text \<open>An upgraded peer is picked up: once the hour has passed, the next attempt at a peer that was known to be
  older uses SHA-512, and if the peer accepts it, every later attempt does.\<close>

theorem upgraded_peer_moves:
  assumes ok: "aead_ok P" "separated P token" "token \<noteq> []" and
    e: "p key = Some e" "pe_variant e = Legacy256" "t - pe_at e > reprobeAfter" and up: "SHA512 \<in> accepted vs"
  shows "\<exists>p'. attempt P (ClientFor P now0 token key p0) (ServerAny P token vs) t p = (True, p') \<and>
    Known key p' = (SHA512, True) \<and> (\<forall>u. Next u key p' = SHA512)"
proof -
  have n: "Next t key p = SHA512" using e by (simp add: Next_def)
  have "attempt P (ClientFor P now0 token key p0) (ServerAny P token vs) t p = (True, Succeeded t key SHA512 p)"
    using up by (simp add: attempt_outcome [OF ok] n)
  then show ?thesis by (simp add: Succeeded_def Known_def Next_def)
qed

text \<open>A peer that has answered on the old derivation and was then left alone for more than an hour cannot be
  reached again: every attempt dials SHA-512, fails, and the failure is not recorded, because the
  entry is proven. The same holds for a peer that was proven on SHA-512 and went back to the old
  derivation.\<close>

theorem proven_peer_stuck:
  assumes ok: "aead_ok P" "separated P token" "token \<noteq> []" and
    e: "p key = Some e" "pe_proven e" and old: "SHA512 \<notin> accepted vs" and
    late: "pe_variant e = SHA512 \<or> (\<forall>t \<in> set ts. t - pe_at e > reprobeAfter)"
  shows "attempts P (ClientFor P now0 token key p0) (ServerAny P token vs) ts p = (replicate (length ts) False, p)"
  using late
proof (induction ts)
  case (Cons t ts)
  have n: "Next t key p = SHA512" using e Cons.prems by (cases "pe_variant e") (auto simp: Next_def)
  show ?case
    using Cons e old by (auto simp: attempt_outcome [OF ok] n Failed_def)
qed simp

subsection \<open>At concrete inputs\<close>

text \<open>
  A cipher that hides nothing but binds its records: the tag is the nonce, the length of the content
  and three bytes of the key.
\<close>

definition key3 :: "bytes \<Rightarrow> bytes" where "key3 k = take 3 (k @ ''---'')"

lemma length_key3 [simp]: "length (key3 k) = 3"
  by (simp add: key3_def)

definition plain_tag :: "bytes \<Rightarrow> bytes \<Rightarrow> bytes \<Rightarrow> bytes" where
  "plain_tag k n p = n @ [char_of (length p)] @ key3 k"

definition plain_suite :: suite where
  "plain_suite = \<lparr>aead_seal = (\<lambda>k n p. p @ plain_tag k n p),
     aead_open = (\<lambda>k n c. let p = take (length c - 16) c in if c = p @ plain_tag k n p then Some p else None),
     hkdf_key = (\<lambda>h token salt label len. (if h = Sha512 then CHR ''n'' else CHR ''o'') # label),
     sha256_sum = (\<lambda>s. s)\<rparr>"

lemma length_nonce [simp]: "length (nonce i) = 12"
  by (simp add: nonce_def nonceLen_def)

lemma length_plain_tag [simp]: "length (plain_tag k (nonce i) p) = 16"
  by (simp add: plain_tag_def)

lemma plain_open:
  "aead_open plain_suite k (nonce j) (aead_seal plain_suite k' (nonce i) p) =
     (if j = i \<and> key3 k = key3 k' then Some p else None)"
  by (auto simp: plain_suite_def Let_def plain_tag_def nonce_inj)

lemma plain_ok: "aead_ok plain_suite"
  unfolding aead_ok_def
  by (auto simp: plain_open simp flip: nonce_inj)
     (auto simp: plain_suite_def Let_def split: if_splits)

lemma plain_nonce_bound: "nonce_bound plain_suite k"
  by (simp add: nonce_bound_def plain_open)

lemma plain_separated: "separated plain_suite token"
  unfolding separated_def
proof (intro allI impI)
  fix v v' :: Variant and l i j p
  assume "v \<noteq> v'"
  then have "key3 (deriveKey plain_suite v token l) \<noteq> key3 (deriveKey plain_suite v' token l)"
    by (cases v; cases v') (simp_all add: deriveKey_def plain_suite_def variant_hash_def key3_def)
  then show "aead_open plain_suite (deriveKey plain_suite v token l) (nonce i)
      (aead_seal plain_suite (deriveKey plain_suite v' token l) (nonce j) p) = None"
    by (simp add: plain_open)
qed

definition idle :: "bytes \<Rightarrow> aead_conn" where
  "idle r = fst (wrap r [] ''key'' ''key'')"

lemma idle_simps [simp]: "rx (idle r) = r" "tx (idle r) = []" "tx_faults (idle r) = []" "write_key (idle r) = ''key''"
  "read_key (idle r) = ''key''" "read_ctr (idle r) = 0" "write_ctr (idle r) = 0" "read_buf (idle r) = []"
  by (simp_all add: idle_def wrap_def)

theorem stream_roundtrip_witness:
  "drain plain_suite 0 2 9 (idle (tx (sends plain_suite [''hello'', [], ''abc''] (idle []))), NewPreference) = (''helloabc'', Some EOF)"
  using stream_roundtrip [OF plain_ok, of 2 "idle []" "idle (tx (sends plain_suite [''hello'', [], ''abc''] (idle [])))"
      "[''hello'', [], ''abc'']" 9 0 NewPreference] by simp

theorem write_nonces_witness:
  "\<exists>m. m \<le> 1 \<and> write_ctr (snd (Write plain_suite ''ab'' (idle []\<lparr>tx_faults := [Some 2]\<rparr>))) = of_nat m"
proof -
  have c: "chunks ''ab'' = [''ab'']" by (simp add: chunks_short maxPlainChunk_def)
  obtain k e c' where W: "Write plain_suite ''ab'' (idle []\<lparr>tx_faults := [Some 2]\<rparr>) = ((k, e), c')"
    by (metis surj_pair)
  from write_nonces [OF W] show ?thesis by (auto simp: W c)
qed

lemma genuine_seal: "0 < length cs \<Longrightarrow> genuine P k cs (aead_seal P k (nonce 0) (cs ! 0))"
  unfolding genuine_def by (intro allI impI exI [of _ 0]) simp

theorem stream_integrity_witness:
  "let r = frame plain_suite ''key'' 0 ''a'' in
   prefix (fst (drain plain_suite 0 10 5 (idle (r @ r), NewPreference))) ''ab''"
proof -
  let ?r = "frame plain_suite ''key'' 0 ''a''" and ?ct = "aead_seal plain_suite ''key'' (nonce 0) ''a''"
  have rr: "readRecord (?r @ x) = (Inr ?ct, x)" for x
    by (rule read_frame [OF plain_ok]) (simp add: chunk_ok_def maxPlainChunk_def)
  have "records (?r @ ?r) = [?ct, ?ct]"
    using rr [of ?r] rr [of "[]"] by (subst records.simps, simp, subst records.simps, simp add: records.simps [of "[]"])
  then have "\<forall>ct \<in> set (records (rx (idle (?r @ ?r)))). genuine plain_suite ''key'' [''a'', ''b''] ct"
    using genuine_seal [of "[''a'', ''b'']" plain_suite "''key''"] by simp
  from stream_integrity [OF plain_ok plain_nonce_bound _ _ _ _ this, of 0 10 5 NewPreference] show ?thesis by (simp add: Let_def)
qed

theorem server_resolves_witness:
  "ServerHandshake plain_suite (ServerAny plain_suite ''t'' [SHA512, Legacy256]) (put_be 4 20000 @ ''xyz'') [] = Inl ErrNoVariant"
  using server_resolves [OF plain_ok plain_separated, where x = "''x''" and vs = "[SHA512, Legacy256]" and n = 1 and f = 2
      and token = "''t''" and fs = "[]" and sz = 20000 and r = "''xyz''"]
  by (simp add: maxRecordCipher_def maxPlainChunk_def)

theorem peer_settles_witness:
  "fst (attempts plain_suite (ClientFor plain_suite 0 ''t'' ''node'' NewPreference) (ServerAny plain_suite ''t'' [Legacy256])
      [0, 3, 6] NewPreference) = [False, True, True]"
  using peer_settles [OF plain_ok plain_separated, of "''t''" NewPreference "''node''" 0 "[3, 6]" 0 NewPreference "[Legacy256]"]
  by (simp add: NewPreference_def reprobeAfter_def accepted_def numeral_2_eq_2)

definition legacy_peer :: prefs where
  "legacy_peer = [''node'' \<mapsto> \<lparr>pe_variant = Legacy256, pe_at = 0, pe_proven = True\<rparr>]"

theorem upgraded_peer_moves_witness:
  "\<exists>p'. attempt plain_suite (ClientFor plain_suite 0 ''t'' ''node'' legacy_peer)
      (ServerAny plain_suite ''t'' [SHA512, Legacy256]) 3600000000001 legacy_peer = (True, p')"
  using upgraded_peer_moves [OF plain_ok plain_separated, of "''t''" legacy_peer "''node''" _ 3600000000001
      "[SHA512, Legacy256]" 0 legacy_peer]
  by (auto simp: legacy_peer_def reprobeAfter_def accepted_def)

theorem proven_peer_stuck_witness:
  "fst (attempts plain_suite (ClientFor plain_suite 0 ''t'' ''node'' legacy_peer) (ServerAny plain_suite ''t'' [Legacy256])
      [3600000000001, 3600000000002] legacy_peer) = [False, False]"
  using proven_peer_stuck [OF plain_ok plain_separated, of "''t''" legacy_peer "''node''" _ "[Legacy256]"
      "[3600000000001, 3600000000002]" 0 legacy_peer]
  by (simp add: legacy_peer_def reprobeAfter_def accepted_def numeral_2_eq_2)

end
