(* ===== verification/SecondFactor.thy ===== *)
theory SecondFactor
  imports Invites
begin

text \<open>
  The second factor (\<^verbatim>\<open>internal/storage/totp.go\<close>) and the sessions of the mobile application
  (\<^verbatim>\<open>internal/storage/appsessions.go\<close>). The hash of both files (SHA-512/256 in hex) is the argument
  \<open>H\<close>. An error that the source drops is dropped by the model.
\<close>

subsection \<open>TOTP\<close>

record totp_state =
  to_secret :: string
  to_confirmed :: bool

definition hashBackupCode :: "(string \<Rightarrow> string) \<Rightarrow> string \<Rightarrow> string" where
  "hashBackupCode H code = H (to_lower (trim_space code))"

definition delete_totp :: "int \<Rightarrow> unit db" where
  "delete_totp adminID = bindE (delete_rows totps totps_update (\<lambda>r. tp_admin_id r = adminID)) (\<lambda>_. ret ())"

definition delete_backups :: "int \<Rightarrow> unit db" where
  "delete_backups adminID =
     bindE (delete_rows totpbackups totpbackups_update (\<lambda>r. tb_admin_id r = adminID)) (\<lambda>_. ret ())"

definition StartTOTP :: "int \<Rightarrow> string \<Rightarrow> unit db" where
  "StartTOTP adminID secret =
     bindE (delete_totp adminID) (\<lambda>_.
     bindE (asks clock) (\<lambda>now.
     insert_row totps_update (\<lambda>s. adminID \<notin> tp_admin_id ` set (totps s) \<and> fk_admin adminID s)
       \<lparr>tp_admin_id = adminID, tp_secret = secret, tp_confirmed_at = 0, tp_created_at = now\<rparr>))"

definition ConfirmTOTP :: "int \<Rightarrow> unit db" where
  "ConfirmTOTP adminID = bindE (asks clock) (\<lambda>now.
     bindE (update_rows totps totps_update (\<lambda>r. tp_admin_id r = adminID)
              (\<lambda>r. r\<lparr>tp_confirmed_at := now\<rparr>)) (\<lambda>_. ret ()))"

definition totp_of :: "int \<Rightarrow> store \<Rightarrow> totp_row option" where
  "totp_of adminID s = find (\<lambda>r. tp_admin_id r = adminID) (totps s)"

definition TOTPFor :: "int \<Rightarrow> totp_state db" where
  "TOTPFor adminID = bindE (find_row (totp_of adminID)) (\<lambda>row.
     ret \<lparr>to_secret = tp_secret row, to_confirmed = (tp_confirmed_at row > 0)\<rparr>)"

definition DisableTOTP :: "int \<Rightarrow> unit db" where
  "DisableTOTP adminID = bindE (delete_totp adminID) (\<lambda>_. delete_backups adminID)"

definition SetBackupCodes :: "(string \<Rightarrow> string) \<Rightarrow> int \<Rightarrow> string list \<Rightarrow> unit db" where
  "SetBackupCodes H adminID codes =
     bindE (delete_backups adminID) (\<lambda>_.
     forE codes (\<lambda>code.
       insert_row totpbackups_update
         (\<lambda>s. (adminID, hashBackupCode H code) \<notin> tb_key ` set (totpbackups s) \<and> fk_admin adminID s)
         \<lparr>tb_admin_id = adminID, tb_code_hash = hashBackupCode H code, tb_used_at = 0\<rparr>))"

definition UseBackupCode :: "(string \<Rightarrow> string) \<Rightarrow> int \<Rightarrow> string \<Rightarrow> bool db" where
  "UseBackupCode H adminID code = bindE (asks clock) (\<lambda>now.
     bindE (attempt (update_rows totpbackups totpbackups_update
        (\<lambda>r. tb_admin_id r = adminID \<and> tb_code_hash r = hashBackupCode H code \<and> tb_used_at r = 0)
        (\<lambda>r. r\<lparr>tb_used_at := now\<rparr>))) (\<lambda>res.
     ret (case res of Inl _ \<Rightarrow> False | Inr n \<Rightarrow> n = 1)))"

definition BackupCodesLeft :: "int \<Rightarrow> int db" where
  "BackupCodesLeft adminID =
     bindE (attempt (select (\<lambda>s. int (length (filter (\<lambda>r. tb_admin_id r = adminID \<and> tb_used_at r = 0)
        (totpbackups s)))))) (\<lambda>res.
     ret (case res of Inl _ \<Rightarrow> 0 | Inr n \<Rightarrow> n))"

subsection \<open>Application sessions\<close>

record app_session =
  ap_id :: string
  ap_admin_id :: int
  ap_device_name :: string
  ap_created_at :: int
  ap_last_seen_at :: int
  ap_expires_at :: int

definition toAppSession :: "app_session_row \<Rightarrow> app_session" where
  "toAppSession row = \<lparr>ap_id = as_id row, ap_admin_id = as_admin_id row,
     ap_device_name = as_device_name row, ap_created_at = as_created_at row,
     ap_last_seen_at = as_last_seen_at row, ap_expires_at = as_expires_at row\<rparr>"

definition HashAppToken :: "(string \<Rightarrow> string) \<Rightarrow> string \<Rightarrow> string" where
  "HashAppToken H token = H token"

definition CreateAppSession ::
  "(string \<Rightarrow> string) \<Rightarrow> string \<Rightarrow> string \<Rightarrow> int \<Rightarrow> string \<Rightarrow> int \<Rightarrow> app_session db" where
  "CreateAppSession H i token adminID deviceName ttl =
     bindE (asks clock) (\<lambda>now.
     let row = \<lparr>as_id = i, as_admin_id = adminID, as_token_hash = HashAppToken H token,
                as_device_name = deviceName, as_created_at = now, as_last_seen_at = now,
                as_expires_at = now + ttl\<rparr> in
     bindE (insert_row appsessions_update
              (\<lambda>s. i \<notin> as_id ` set (appsessions s) \<and>
                   HashAppToken H token \<notin> as_token_hash ` set (appsessions s) \<and> fk_admin adminID s)
              row) (\<lambda>_. ret (toAppSession row)))"

definition DeleteAppSession :: "string \<Rightarrow> unit db" where
  "DeleteAppSession i =
     bindE (delete_rows appsessions appsessions_update (\<lambda>r. as_id r = i)) (\<lambda>_. ret ())"

definition LookupAppSession :: "(string \<Rightarrow> string) \<Rightarrow> string \<Rightarrow> app_session db" where
  "LookupAppSession H token =
     bindE (find_row (\<lambda>s. find (\<lambda>r. as_token_hash r = HashAppToken H token) (appsessions s))) (\<lambda>row.
     bindE (asks clock) (\<lambda>now.
     if as_expires_at row > 0 \<and> now > as_expires_at row
     then bindE (attempt (DeleteAppSession (as_id row))) (\<lambda>_. fail ErrNotFound)
     else bindE (attempt (update_rows appsessions appsessions_update (\<lambda>r. as_id r = as_id row)
                   (\<lambda>r. r\<lparr>as_last_seen_at := now\<rparr>))) (\<lambda>_.
          ret (toAppSession (row\<lparr>as_last_seen_at := now\<rparr>)))))"

definition ListAppSessions :: "int \<Rightarrow> app_session list db" where
  "ListAppSessions adminID =
     bindE (select (\<lambda>s. sort_key (\<lambda>r. - as_last_seen_at r)
              (filter (\<lambda>r. as_admin_id r = adminID) (appsessions s)))) (\<lambda>rows.
     ret (map toAppSession rows))"

definition PurgeExpiredAppSessions :: "unit db" where
  "PurgeExpiredAppSessions = bindE (asks clock) (\<lambda>now.
     bindE (delete_rows appsessions appsessions_update
              (\<lambda>r. as_expires_at r > 0 \<and> as_expires_at r < now)) (\<lambda>_. ret ()))"

subsection \<open>Invariant\<close>

lemma wf_put_appsessions:
  "wf_store s \<Longrightarrow> uniq as_id (f (appsessions s)) \<Longrightarrow> uniq as_token_hash (f (appsessions s)) \<Longrightarrow>
     (driver s = DriverSQLite \<Longrightarrow> refers as_admin_id (f (appsessions s)) (admin_ids s)) \<Longrightarrow>
     wf_store (appsessions_update f s)"
  by (simp add: wf_defs)

lemma wf_get_appsessions:
  "wf_store s \<Longrightarrow> uniq as_id (appsessions s)" "wf_store s \<Longrightarrow> uniq as_token_hash (appsessions s)"
  "wf_store s \<Longrightarrow> driver s = DriverSQLite \<Longrightarrow> refers as_admin_id (appsessions s) (admin_ids s)"
  by (simp_all add: wf_defs)

lemma pres_delete_totp [pres]: "preserves wf_store (delete_totp a)" "preserves wf_store (delete_backups a)"
  unfolding delete_totp_def delete_backups_def
  by (intro pres pres_delete_rows; auto intro!: wf_put simp: wf_get)+

lemma pres_totp [pres]:
  "preserves wf_store (StartTOTP a k)" "preserves wf_store (ConfirmTOTP a)" "preserves wf_store (DisableTOTP a)"
  unfolding StartTOTP_def ConfirmTOTP_def DisableTOTP_def
  by (intro pres pres_insert_row pres_update_rows; auto intro!: wf_put simp: wf_get fk_ids)+

lemma tb_key_new [simp]: "tb_key \<lparr>tb_admin_id = a, tb_code_hash = h, tb_used_at = u\<rparr> = (a, h)"
  by (simp add: tb_key_def)

lemma pres_SetBackupCodes [pres]: "preserves wf_store (SetBackupCodes H a cs)"
  unfolding SetBackupCodes_def
  by (intro pres pres_insert_row) (auto intro!: wf_put simp: wf_get fk_ids)

lemma tb_key_used [simp]: "tb_key (r\<lparr>tb_used_at := t\<rparr>) = tb_key r"
  by (simp add: tb_key_def)

lemma pres_UseBackupCode [pres]: "preserves wf_store (UseBackupCode H a c)"
  unfolding UseBackupCode_def
  by (intro pres pres_update_rows) (auto intro!: wf_put simp: wf_get)

lemma pres_app_sessions [pres]:
  "preserves wf_store (DeleteAppSession i)" "preserves wf_store PurgeExpiredAppSessions"
  "preserves wf_store (CreateAppSession H i tok a dev ttl)" "preserves wf_store (LookupAppSession H tok)"
  unfolding DeleteAppSession_def PurgeExpiredAppSessions_def CreateAppSession_def LookupAppSession_def Let_def
  by (intro pres pres_delete_rows pres_insert_row pres_update_rows;
      auto intro!: wf_put_appsessions simp: wf_get_appsessions fk_ids)+

subsection \<open>Properties\<close>

text \<open>A backup code works once. Under any failures of the database, a call that accepts a code marks
  it used, and from then on every spelling of it (letter case and surrounding blanks aside) is
  refused; with a working database an unused code of the account is accepted and leaves one less.\<close>

theorem backup_code_once:
  assumes wf: "wf_store s" and later: "clock s > 0"
  shows "(\<forall>s' code'. UseBackupCode H a code s = (Inr True, s') \<longrightarrow>
       to_lower (trim_space code') = to_lower (trim_space code) \<longrightarrow>
       fst (UseBackupCode H a code' s') = Inr False) \<and>
    (\<forall>r. faults s = [] \<longrightarrow> r \<in> set (totpbackups s) \<longrightarrow> tb_key r = (a, hashBackupCode H code) \<longrightarrow>
       tb_used_at r = 0 \<longrightarrow>
       (\<exists>s'. UseBackupCode H a code s = (Inr True, s') \<and>
          fst (BackupCodesLeft a s') = map_sum id (\<lambda>n. n - 1) (fst (BackupCodesLeft a s))))"
proof (intro conjI allI impI)
  let ?P = "\<lambda>r. tb_admin_id r = a \<and> tb_code_hash r = hashBackupCode H code \<and> tb_used_at r = 0"
  let ?f = "\<lambda>now r. r\<lparr>tb_used_at := now\<rparr>"
  fix s' code' assume u: "UseBackupCode H a code s = (Inr True, s')"
    and c: "to_lower (trim_space code') = to_lower (trim_space code)"
  have h: "hashBackupCode H code' = hashBackupCode H code" using c by (simp add: hashBackupCode_def)
  have s': "totpbackups s' = update_where ?P (?f (clock s)) (totpbackups s)"
    using u by (auto simp: UseBackupCode_def bindE_def attempt_app update_rows_def stmt_def
        split: list.splits if_splits sum.splits)
  have "\<not> ?P r" if "r \<in> set (totpbackups s')" for r
  proof -
    have "r \<in> (\<lambda>r. if ?P r then ?f (clock s) r else r) ` set (totpbackups s)"
      using that by (simp only: s' set_update_where)
    then obtain x where "r = (if ?P x then ?f (clock s) x else x)" by (rule imageE)
    then show ?thesis using later by (cases "?P x") simp_all
  qed
  then have "affected d ?P f (totpbackups s') = 0" for d f
    by (auto simp: affected_def filter_empty_conv)
  then show "fst (UseBackupCode H a code' s') = Inr False"
    by (auto simp: UseBackupCode_def bindE_def attempt_app update_rows_def stmt_def h split: list.splits)
next
  let ?P = "\<lambda>r. tb_admin_id r = a \<and> tb_code_hash r = hashBackupCode H code \<and> tb_used_at r = 0"
  let ?f = "\<lambda>r. r\<lparr>tb_used_at := clock s\<rparr>"
  let ?L = "\<lambda>r. tb_admin_id r = a \<and> tb_used_at r = 0"
  fix r assume f: "faults s = []" and r: "r \<in> set (totpbackups s)" "tb_key r = (a, hashBackupCode H code)" "tb_used_at r = 0"
  let ?bs = "totpbackups s"
  let ?s' = "totpbackups_update (update_where ?P ?f) s"
  have d: "distinct (map tb_key ?bs)" using wf_get [OF wf] by (simp add: uniq_def)
  have P: "?P x \<longleftrightarrow> x = r" if "x \<in> set ?bs" for x
    using distinct_key_unique [OF d that r(1)] r by (auto simp: tb_key_def)
  have "filter ?P ?bs = filter (\<lambda>x. tb_key x = tb_key r) ?bs"
    by (rule filter_cong [OF refl]) (use P distinct_key_unique [OF d _ r(1)] in blast)
  then have one: "filter ?P ?bs = [r]"
    by (simp only: filter_key [OF d] find_key [OF d r(1)] option.case)
  have ch: "?f x \<noteq> x" if "?P x" for x
    using that later by (cases x) auto
  have aff: "affected (driver s) ?P ?f ?bs = 1"
  proof -
    have "filter (\<lambda>x. ?P x \<and> (driver s = DriverMySQL \<longrightarrow> ?f x \<noteq> x)) ?bs = filter ?P ?bs"
      using ch by (intro filter_cong refl) blast
    then show ?thesis by (simp only: affected_def one) simp
  qed
  have run: "UseBackupCode H a code s = (Inr True, ?s')"
    by (simp add: UseBackupCode_def bindE_def attempt_app update_rows_ok f aff)
  have "filter ?L (totpbackups ?s') = filter (\<lambda>x. ?L x \<and> x \<noteq> r) ?bs"
  proof -
    have "filter ?L (update_where ?P ?f xs) = filter (\<lambda>x. ?L x \<and> x \<noteq> r) xs" if "set xs \<subseteq> set ?bs" for xs
      using that by (induction xs) (use P later in \<open>auto simp: update_where_def\<close>)
    then show ?thesis by simp
  qed
  moreover have "int (length (filter ?L ?bs)) = int (length (filter (\<lambda>x. ?L x \<and> x \<noteq> r) ?bs)) + 1"
  proof -
    have "filter (\<lambda>x. ?L x \<and> x = r) ?bs = filter ?P ?bs"
      using P r by (intro filter_cong refl) (auto simp: tb_key_def)
    then show ?thesis
      using sum_length_filter_compl [of "\<lambda>x. x = r" "filter ?L ?bs"] one by simp
  qed
  ultimately show "\<exists>s'. UseBackupCode H a code s = (Inr True, s') \<and>
      fst (BackupCodesLeft a s') = map_sum id (\<lambda>n. n - 1) (fst (BackupCodesLeft a s))"
    using run f by (simp add: BackupCodesLeft_def bindE_def attempt_app select_ok)
qed

theorem backup_code_once_witness:
  "\<exists>s'. UseBackupCode (\<lambda>x. x) 1 ''A1b2'' ((sample_store DriverSQLite)\<lparr>totpbackups :=
       [\<lparr>tb_admin_id = 1, tb_code_hash = ''a1b2'', tb_used_at = 0\<rparr>]\<rparr>) = (Inr True, s') \<and>
     fst (UseBackupCode (\<lambda>x. x) 1 '' a1B2'' s') = Inr False"
proof -
  let ?s = "(sample_store DriverSQLite)\<lparr>totpbackups := [\<lparr>tb_admin_id = 1, tb_code_hash = ''a1b2'', tb_used_at = 0\<rparr>]\<rparr>"
  have wf: "wf_store ?s"
    using sample_wf [of DriverSQLite] unfolding wf_defs
    by (simp add: sample_defs uniq_def refers_def orefers_def)
  have c: "clock ?s > 0" by (simp add: sample_store_def empty_store_def)
  have h: "hashBackupCode (\<lambda>x. x) ''A1b2'' = ''a1b2''" "to_lower (trim_space '' a1B2'') = to_lower (trim_space ''A1b2'')"
    by (code_simp+)
  obtain s' where s': "UseBackupCode (\<lambda>x. x) 1 ''A1b2'' ?s = (Inr True, s')"
    using backup_code_once [OF wf c, of "\<lambda>x. x" 1 "''A1b2''"] by (auto simp: h(1))
  then show ?thesis
    using backup_code_once [OF wf c, of "\<lambda>x. x" 1 "''A1b2''"] h(2) by blast
qed

lemma find_unique_row:
  assumes "distinct (map key rs)" "find (\<lambda>r. g r = k) rs = Some row" "r \<in> set rs"
  shows "key r = key row \<longleftrightarrow> r = row"
  using assms distinct_key_unique [OF assms(1) assms(3), of row] by (auto simp: find_Some_iff)

text \<open>An application token opens its session until it expires. With a working database a lookup by
  token finds nothing, or drops the expired session and reports nothing found, or reports the
  session and marks it as seen now; no other session changes. A session stored without an expiry
  stays valid.\<close>

theorem app_session_lookup:
  assumes f: "faults s = []" and wf: "wf_store s"
  shows "case find (\<lambda>r. as_token_hash r = H token) (appsessions s) of
      None \<Rightarrow> LookupAppSession H token s = (Inl ErrNotFound, s)
    | Some row \<Rightarrow> \<exists>s'.
        if as_expires_at row > 0 \<and> clock s > as_expires_at row
        then LookupAppSession H token s = (Inl ErrNotFound, s') \<and>
             appsessions s' = filter (\<lambda>r. r \<noteq> row) (appsessions s)
        else LookupAppSession H token s = (Inr (toAppSession (row\<lparr>as_last_seen_at := clock s\<rparr>)), s') \<and>
             appsessions s' = map (\<lambda>r. if r = row then row\<lparr>as_last_seen_at := clock s\<rparr> else r) (appsessions s)"
proof (cases "find (\<lambda>r. as_token_hash r = H token) (appsessions s)")
  case None
  then show ?thesis using f by (simp add: LookupAppSession_def HashAppToken_def bindE_def find_row_ok)
next
  case (Some row)
  have d: "distinct (map as_id (appsessions s))" using wf_get_appsessions(1) [OF wf] by (simp add: uniq_def)
  have u: "as_id r = as_id row \<longleftrightarrow> r = row" if "r \<in> set (appsessions s)" for r
    by (rule find_unique_row [OF d Some that])
  have del: "filter (\<lambda>r. as_id r \<noteq> as_id row) (appsessions s) = filter (\<lambda>r. r \<noteq> row) (appsessions s)"
    by (rule filter_cong) (simp_all add: u)
  have upd: "update_where (\<lambda>r. as_id r = as_id row) (\<lambda>r. r\<lparr>as_last_seen_at := clock s\<rparr>) (appsessions s) =
      map (\<lambda>r. if r = row then row\<lparr>as_last_seen_at := clock s\<rparr> else r) (appsessions s)"
    unfolding update_where_def by (rule map_cong) (simp_all add: u)
  show ?thesis
  proof (cases "as_expires_at row > 0 \<and> clock s > as_expires_at row")
    case True
    have "LookupAppSession H token s =
        (Inl ErrNotFound, appsessions_update (filter (\<lambda>r. as_id r \<noteq> as_id row)) s)"
      using True f Some
      by (simp add: LookupAppSession_def HashAppToken_def bindE_def find_row_ok attempt_app
          DeleteAppSession_def delete_rows_ok)
    then show ?thesis using True Some del by auto
  next
    case False
    have "LookupAppSession H token s = (Inr (toAppSession (row\<lparr>as_last_seen_at := clock s\<rparr>)),
        appsessions_update (update_where (\<lambda>r. as_id r = as_id row) (\<lambda>r. r\<lparr>as_last_seen_at := clock s\<rparr>)) s)"
      using False f Some
      by (auto simp: LookupAppSession_def HashAppToken_def bindE_def find_row_ok attempt_app update_rows_ok)
    then show ?thesis using False Some upd by auto
  qed
qed

theorem app_session_lookup_witness:
  "\<exists>s'. LookupAppSession (\<lambda>x. x) ''tok'' ((sample_store DriverSQLite)\<lparr>appsessions :=
       [\<lparr>as_id = ''a'', as_admin_id = 1, as_token_hash = ''tok'', as_device_name = ''d'', as_created_at = 1,
         as_last_seen_at = 1, as_expires_at = 4000000\<rparr>]\<rparr>) = (Inl ErrNotFound, s') \<and> appsessions s' = []"
proof -
  let ?row = "\<lparr>as_id = ''a'', as_admin_id = 1, as_token_hash = ''tok'', as_device_name = ''d'', as_created_at = 1,
         as_last_seen_at = 1, as_expires_at = 4000000\<rparr>"
  let ?s = "(sample_store DriverSQLite)\<lparr>appsessions := [?row]\<rparr>"
  have f: "faults ?s = []" by simp
  have wf: "wf_store ?s"
    using sample_wf [of DriverSQLite] unfolding wf_defs
    by (simp add: sample_defs uniq_def refers_def orefers_def)
  have c: "clock ?s = 5000000" by (simp add: sample_store_def empty_store_def)
  show ?thesis
    using app_session_lookup [OF f wf, of "\<lambda>x. x" "''tok''"] unfolding c by simp
qed

end
