(* ===== verification/Auth.thy ===== *)
theory Auth
  imports SecondFactor Hex
begin

text \<open>
  Signing in and up: \<^verbatim>\<open>internal/auth/auth.go\<close>. The cryptography the package calls is a parameter, the
  record \<open>crypto\<close>: bcrypt (which may refuse a password, for instance a long one), SHA-512, the blob
  hash and the avatar generator behind \<^verbatim>\<open>CreateAccount\<close>. Every random token an operation draws is an
  argument of it, \<^term>\<open>None\<close> when the entropy source fails. The time to live is in milliseconds.
\<close>

record crypto =
  bcrypt_gen :: "string \<Rightarrow> string option"
  bcrypt_cmp :: "string \<Rightarrow> string \<Rightarrow> bool"
  sha512 :: "bytes \<Rightarrow> bytes"
  blob_hash :: "bytes \<Rightarrow> string"
  avatar_gen :: "string \<Rightarrow> bytes option"

definition SessionCookieName :: string where "SessionCookieName = ''wingsv_admin_session''"
definition SessionTTL :: int where "SessionTTL = 14 * 24 * 3600 * 1000"
definition MinPasswordLen :: nat where "MinPasswordLen = 8"
definition MinUsernameLen :: nat where "MinUsernameLen = 3"

definition RegistrationModeOpen :: string where "RegistrationModeOpen = ''open''"
definition RegistrationModeInvite :: string where "RegistrationModeInvite = ''invite''"
definition RegistrationModeClosed :: string where "RegistrationModeClosed = ''closed''"
definition SettingRegistrationMode :: string where "SettingRegistrationMode = ''registration_mode''"

datatype auth_error =
    ErrInvalidCredentials
  | ErrSessionExpired
  | ErrUsernameTaken
  | ErrPasswordTooShort
  | ErrUsernameTooShort
  | ErrUsernameInvalid
  | ErrRegistrationClosed
  | ErrRegistrationInvite
  | ErrInviteTokenInvalid
  | SuspendedError string
  | EmptyPassword
  | BcryptError
  | EntropyError
  | StorageError error

subsection \<open>Sequencing\<close>

type_synonym 'a auth = "store \<Rightarrow> (auth_error + 'a) \<times> store"

definition retA :: "'a \<Rightarrow> 'a auth" where "retA x s = (Inr x, s)"
definition failA :: "auth_error \<Rightarrow> 'a auth" where "failA e s = (Inl e, s)"

definition bindA :: "'a auth \<Rightarrow> ('a \<Rightarrow> 'b auth) \<Rightarrow> 'b auth" where
  "bindA m k s = (case m s of (Inl e, s') \<Rightarrow> (Inl e, s') | (Inr x, s') \<Rightarrow> k x s')"

text \<open>A storage call whose error is looked at, and one whose error is passed on.\<close>

definition tryA :: "'a db \<Rightarrow> (error + 'a) auth" where
  "tryA m s = (case m s of (r, s') \<Rightarrow> (Inr r, s'))"

definition liftA :: "'a db \<Rightarrow> 'a auth" where
  "liftA m s = (case m s of (Inl e, s') \<Rightarrow> (Inl (StorageError e), s') | (Inr x, s') \<Rightarrow> (Inr x, s'))"

definition drawn :: "string option \<Rightarrow> string auth" where
  "drawn r = (case r of None \<Rightarrow> failA EntropyError | Some t \<Rightarrow> retA t)"

subsection \<open>Names and passwords\<close>

definition NormalizeUsername :: "string \<Rightarrow> string" where
  "NormalizeUsername s = to_lower (trim_space s)"

definition name_char :: "char \<Rightarrow> bool" where
  "name_char c \<longleftrightarrow> (let n = of_char c :: nat in (97 \<le> n \<and> n \<le> 122) \<or> (48 \<le> n \<and> n \<le> 57))"

definition ValidateNewUsername :: "string \<Rightarrow> auth_error + string" where
  "ValidateNewUsername username =
     (let normalized = NormalizeUsername username in
      if length normalized < MinUsernameLen then Inl ErrUsernameTooShort
      else if \<not> list_all name_char normalized then Inl ErrUsernameInvalid
      else Inr normalized)"

definition HashPassword :: "crypto \<Rightarrow> string \<Rightarrow> auth_error + string" where
  "HashPassword C password =
     (if length password < 1 then Inl EmptyPassword
      else case bcrypt_gen C password of None \<Rightarrow> Inl BcryptError | Some h \<Rightarrow> Inr h)"

definition VerifyPassword :: "crypto \<Rightarrow> string \<Rightarrow> string \<Rightarrow> bool" where
  "VerifyPassword C hash password = bcrypt_cmp C hash password"

definition sumA :: "auth_error + 'a \<Rightarrow> 'a auth" where
  "sumA r = (case r of Inl e \<Rightarrow> failA e | Inr x \<Rightarrow> retA x)"

subsection \<open>Signing in\<close>

definition Bootstrap :: "crypto \<Rightarrow> string \<Rightarrow> string \<Rightarrow> unit auth" where
  "Bootstrap C username password =
     bindA (liftA CountAdmins) (\<lambda>count.
     if count > 0 then retA ()
     else bindA (sumA (HashPassword C password)) (\<lambda>hash.
          bindA (liftA (CreateAdmin (blob_hash C) (avatar_gen C) (NormalizeUsername username) hash True RoleOwner)) (\<lambda>_.
          retA ())))"

text \<open>\<^verbatim>\<open>if suspended, reason, err := IsSuspended(id); err == nil && suspended\<close>\<close>

definition refuse_suspended :: "int \<Rightarrow> unit auth" where
  "refuse_suspended i =
     bindA (tryA (IsSuspended i)) (\<lambda>r.
     case r of
       Inl _ \<Rightarrow> retA ()
     | Inr (suspended, reason) \<Rightarrow> if suspended then failA (SuspendedError reason) else retA ())"

definition find_for_login :: "string \<Rightarrow> admin auth" where
  "find_for_login username =
     bindA (tryA (FindAdminByUsername (NormalizeUsername username))) (\<lambda>r.
     case r of
       Inl e \<Rightarrow> failA (if e = ErrNotFound then ErrInvalidCredentials else StorageError e)
     | Inr a \<Rightarrow> retA a)"

definition VerifyCredentials :: "crypto \<Rightarrow> string \<Rightarrow> string \<Rightarrow> admin auth" where
  "VerifyCredentials C username password =
     bindA (find_for_login username) (\<lambda>admin.
     if \<not> VerifyPassword C (a_password_hash admin) password then failA ErrInvalidCredentials
     else bindA (refuse_suspended (a_id admin)) (\<lambda>_.
          bindA (tryA (MarkAdminLogin (a_id admin))) (\<lambda>_.
          retA admin)))"

definition newSession :: "string option \<Rightarrow> int \<Rightarrow> admin_session auth" where
  "newSession token adminID =
     bindA (drawn token) (\<lambda>i. liftA (CreateSession i adminID SessionTTL))"

text \<open>What every successful way in ends with: a session and the login time.\<close>

definition enter :: "string option \<Rightarrow> admin \<Rightarrow> (admin \<times> admin_session) auth" where
  "enter token admin =
     bindA (newSession token (a_id admin)) (\<lambda>sess.
     bindA (tryA (MarkAdminLogin (a_id admin))) (\<lambda>_.
     retA (admin, sess)))"

definition Login :: "crypto \<Rightarrow> string option \<Rightarrow> string \<Rightarrow> string \<Rightarrow> (admin \<times> admin_session) auth" where
  "Login C token username password =
     bindA (find_for_login username) (\<lambda>admin.
     if \<not> VerifyPassword C (a_password_hash admin) password then failA ErrInvalidCredentials
     else bindA (refuse_suspended (a_id admin)) (\<lambda>_. enter token admin))"

definition Logout :: "string \<Rightarrow> unit auth" where
  "Logout sessionID = (if sessionID = [] then retA () else liftA (DeleteSession sessionID))"

text \<open>The request is the value of its session cookie, if it has one.\<close>

definition Authenticate :: "string option \<Rightarrow> admin auth" where
  "Authenticate cookie = (case cookie of
     None \<Rightarrow> failA ErrSessionExpired
   | Some v \<Rightarrow>
       bindA (tryA (LookupSession v)) (\<lambda>r.
       case r of
         Inl _ \<Rightarrow> failA ErrSessionExpired
       | Inr sess \<Rightarrow>
           bindA (tryA (FindAdminByID (s_admin_id sess))) (\<lambda>r2.
           case r2 of
             Inl _ \<Rightarrow> failA ErrSessionExpired
           | Inr admin \<Rightarrow>
               bindA (refuse_suspended (a_id admin)) (\<lambda>_. retA admin))))"

definition ChangePassword :: "crypto \<Rightarrow> int \<Rightarrow> string \<Rightarrow> string \<Rightarrow> unit auth" where
  "ChangePassword C adminID oldPassword newPassword =
     bindA (liftA (FindAdminByID adminID)) (\<lambda>admin.
     if \<not> VerifyPassword C (a_password_hash admin) oldPassword then failA ErrInvalidCredentials
     else if length newPassword < MinPasswordLen then failA ErrPasswordTooShort
     else bindA (sumA (HashPassword C newPassword)) (\<lambda>hash.
          liftA (UpdateAdminPassword adminID hash False)))"

definition ResetPasswordTo :: "crypto \<Rightarrow> int \<Rightarrow> string \<Rightarrow> unit auth" where
  "ResetPasswordTo C adminID newPassword =
     (if length newPassword < MinPasswordLen then failA ErrPasswordTooShort
      else bindA (sumA (HashPassword C newPassword)) (\<lambda>hash.
           liftA (UpdateAdminPassword adminID hash True)))"

definition IsOwner :: "admin \<Rightarrow> bool" where
  "IsOwner admin \<longleftrightarrow> a_role admin = RoleOwner"

definition OpenSession :: "string option \<Rightarrow> int \<Rightarrow> (admin \<times> admin_session) auth" where
  "OpenSession token adminID =
     bindA (liftA (FindAdminByID adminID)) (\<lambda>admin.
     bindA (refuse_suspended (a_id admin)) (\<lambda>_. enter token admin))"

subsection \<open>Signing up\<close>

text \<open>The gate both kinds of registration share: the platform's registration mode.\<close>

definition registration_gate :: "string \<Rightarrow> unit auth" where
  "registration_gate inviteToken =
     bindA (liftA (GetPlatformSetting SettingRegistrationMode RegistrationModeOpen)) (\<lambda>mode.
     if mode = RegistrationModeClosed then failA ErrRegistrationClosed
     else if mode = RegistrationModeInvite \<and> trim_space inviteToken = [] then failA ErrRegistrationInvite
     else retA ())"

definition name_free :: "string \<Rightarrow> unit auth" where
  "name_free username =
     bindA (tryA (FindAdminByUsername username)) (\<lambda>r.
     case r of
       Inr _ \<Rightarrow> failA ErrUsernameTaken
     | Inl e \<Rightarrow> if e = ErrNotFound then retA () else failA (StorageError e))"

text \<open>An account whose code cannot be redeemed is deleted again.\<close>

definition redeem_or_drop :: "string \<Rightarrow> int \<Rightarrow> unit auth" where
  "redeem_or_drop inviteToken adminID =
     (if trim_space inviteToken = [] then retA ()
      else bindA (tryA (RedeemInvite inviteToken adminID)) (\<lambda>r.
      case r of
        Inr _ \<Rightarrow> retA ()
      | Inl _ \<Rightarrow> bindA (tryA (DeleteAdmin adminID)) (\<lambda>_. failA ErrInviteTokenInvalid)))"

text \<open>
  The part both registrations share: the name must be free, the account is created as a plain user
  without the panel, and a code that was named is redeemed.
\<close>

definition open_account :: "crypto \<Rightarrow> string \<Rightarrow> string auth \<Rightarrow> string \<Rightarrow> admin auth" where
  "open_account C username password inviteToken =
     bindA (name_free username) (\<lambda>_.
     bindA password (\<lambda>pw.
     bindA (sumA (HashPassword C pw)) (\<lambda>hash.
     bindA (liftA (CreateAccount (blob_hash C) (avatar_gen C) username hash False RoleUser False)) (\<lambda>admin.
     bindA (redeem_or_drop inviteToken (a_id admin)) (\<lambda>_.
     retA admin)))))"

definition Register ::
  "crypto \<Rightarrow> string option \<Rightarrow> string \<Rightarrow> string \<Rightarrow> string \<Rightarrow> (admin \<times> admin_session) auth" where
  "Register C token username password inviteToken =
     bindA (sumA (ValidateNewUsername username)) (\<lambda>name.
     if length password < MinPasswordLen then failA ErrPasswordTooShort
     else
     bindA (registration_gate inviteToken) (\<lambda>_.
     bindA (open_account C name (retA password) inviteToken) (\<lambda>admin.
     enter token admin)))"

text \<open>
  \<^verbatim>\<open>mustRandomPassword\<close> panics when the entropy source fails; the panic ends the request, which the
  model shows as \<^const>\<open>EntropyError\<close>.
\<close>

definition mustRandomPassword :: "string option \<Rightarrow> string auth" where
  "mustRandomPassword r = drawn r"

definition link_or_drop :: "int \<Rightarrow> string \<Rightarrow> string \<Rightarrow> unit auth" where
  "link_or_drop adminID subject displayName =
     bindA (tryA (LinkAccount adminID subject displayName)) (\<lambda>linked.
     case linked of
       Inl e \<Rightarrow> bindA (tryA (DeleteAdmin adminID)) (\<lambda>_. failA (StorageError e))
     | Inr _ \<Rightarrow> retA ())"

definition LoginWithAccount ::
  "crypto \<Rightarrow> string option \<Rightarrow> string option \<Rightarrow> string \<Rightarrow> string \<Rightarrow> string \<Rightarrow> string \<Rightarrow>
   (admin \<times> admin_session) auth" where
  "LoginWithAccount C pw token subject username displayName inviteToken =
     (let subject' = trim_space subject in
      if subject' = [] then failA ErrInvalidCredentials
      else
      bindA (tryA (FindAdminByAccount subject')) (\<lambda>r.
      case r of
        Inr admin \<Rightarrow> bindA (refuse_suspended (a_id admin)) (\<lambda>_. enter token admin)
      | Inl e \<Rightarrow>
          if e \<noteq> ErrNotFound then failA (StorageError e)
          else
          bindA (registration_gate inviteToken) (\<lambda>_.
          bindA (sumA (ValidateNewUsername username)) (\<lambda>name.
          bindA (open_account C name (mustRandomPassword pw) inviteToken) (\<lambda>created.
          bindA (link_or_drop (a_id created) subject' displayName) (\<lambda>_.
          enter token created))))))"

subsection \<open>The session cookie\<close>

datatype same_site = SameSiteDefaultMode | SameSiteLaxMode | SameSiteStrictMode | SameSiteNoneMode

record cookie =
  ck_name :: string
  ck_value :: string
  ck_path :: string
  ck_expires :: "int option"
  ck_max_age :: int
  ck_http_only :: bool
  ck_secure :: bool
  ck_same_site :: same_site

definition WriteSessionCookie :: "bool \<Rightarrow> admin_session \<Rightarrow> cookie" where
  "WriteSessionCookie cookieSecure sess = \<lparr>ck_name = SessionCookieName, ck_value = s_id sess, ck_path = ''/'',
     ck_expires = Some (s_expires_at sess), ck_max_age = 0, ck_http_only = True, ck_secure = cookieSecure,
     ck_same_site = SameSiteLaxMode\<rparr>"

definition ClearSessionCookie :: "bool \<Rightarrow> cookie" where
  "ClearSessionCookie cookieSecure = \<lparr>ck_name = SessionCookieName, ck_value = [], ck_path = ''/'',
     ck_expires = None, ck_max_age = -1, ck_http_only = True, ck_secure = cookieSecure,
     ck_same_site = SameSiteLaxMode\<rparr>"

subsection \<open>Tokens\<close>

definition newToken :: "bytes option \<Rightarrow> string option" where
  "newToken r = map_option hex_encode r"

definition clientTokenHashPrefix :: string where "clientTokenHashPrefix = ''sha512:''"

definition HashClientToken :: "crypto \<Rightarrow> bytes \<Rightarrow> string" where
  "HashClientToken C token = clientTokenHashPrefix @ hex_encode (sha512 C token)"

definition GenerateClientToken :: "crypto \<Rightarrow> bytes option \<Rightarrow> (bytes \<times> string) option" where
  "GenerateClientToken C r = map_option (\<lambda>buf. (buf, HashClientToken C buf)) r"

definition verifyClientTokenBytes :: "crypto \<Rightarrow> string \<Rightarrow> bytes \<Rightarrow> bool" where
  "verifyClientTokenBytes C hash token =
     (if has_prefix hash clientTokenHashPrefix then hash = HashClientToken C token
      else bcrypt_cmp C hash token)"

definition VerifyClientToken :: "crypto \<Rightarrow> string \<Rightarrow> bytes \<Rightarrow> bool" where
  "VerifyClientToken C hash token =
     (if verifyClientTokenBytes C hash token then True
      else case hex_decode token of
        None \<Rightarrow> False
      | Some decoded \<Rightarrow> if decoded = [] then False else verifyClientTokenBytes C hash decoded)"

definition ClientTokenHashNeedsUpgrade :: "string \<Rightarrow> bool" where
  "ClientTokenHashNeedsUpgrade hash \<longleftrightarrow> \<not> has_prefix hash clientTokenHashPrefix"

definition GenerateClientID :: "bytes option \<Rightarrow> string option" where
  "GenerateClientID r = map_option hex_encode r"

definition GenerateInviteToken :: "bytes option \<Rightarrow> string option" where
  "GenerateInviteToken r = newToken r"

definition GenerateInviteCode :: "bytes option \<Rightarrow> string option" where
  "GenerateInviteCode r = map_option to_upper (newToken r)"

text \<open>A device token verifies in both spellings and no other. Whatever the hash function, the token a
  digest was made from is accepted, raw or as its hex text, and such a digest never asks for an
  upgrade; when the hash separates the token from the presented bytes and from what they decode to,
  they are refused.\<close>

theorem client_token_verifies:
  assumes "token \<noteq> []"
  shows "VerifyClientToken C (HashClientToken C token) token \<and>
    VerifyClientToken C (HashClientToken C token) (hex_encode token) \<and>
    \<not> ClientTokenHashNeedsUpgrade (HashClientToken C token) \<and>
    (\<forall>other. sha512 C other \<noteq> sha512 C token \<longrightarrow>
       (\<forall>d. hex_decode other = Some d \<longrightarrow> sha512 C d \<noteq> sha512 C token) \<longrightarrow>
       \<not> VerifyClientToken C (HashClientToken C token) other)"
proof -
  have p: "has_prefix (HashClientToken C token) clientTokenHashPrefix"
    by (simp add: has_prefix_def HashClientToken_def)
  have v: "verifyClientTokenBytes C (HashClientToken C token) x \<longleftrightarrow> sha512 C x = sha512 C token" for x
    unfolding verifyClientTokenBytes_def if_P [OF p] by (auto simp: HashClientToken_def hex_encode_inj)
  show ?thesis
    using p assms by (auto simp: VerifyClientToken_def v ClientTokenHashNeedsUpgrade_def split: option.split)
qed

definition sample_crypto :: crypto where
  "sample_crypto = \<lparr>bcrypt_gen = Some, bcrypt_cmp = (=), sha512 = rev, blob_hash = (\<lambda>x. x), avatar_gen = (\<lambda>_. None)\<rparr>"

theorem client_token_verifies_witness:
  "VerifyClientToken sample_crypto (HashClientToken sample_crypto ''ab'') ''6162'' \<and>
   \<not> VerifyClientToken sample_crypto (HashClientToken sample_crypto ''ab'') ''ba''"
proof -
  have h: "hex_encode ''ab'' = ''6162''" "hex_decode ''ba'' = Some [CHR 0xBA]" by (code_simp+)
  have "\<forall>d. hex_decode ''ba'' = Some d \<longrightarrow> sha512 sample_crypto d \<noteq> sha512 sample_crypto ''ab''"
    unfolding h(2) by (simp add: sample_crypto_def)
  moreover have "sha512 sample_crypto ''ba'' \<noteq> sha512 sample_crypto ''ab''" by (simp add: sample_crypto_def)
  ultimately show ?thesis
    using client_token_verifies [of "''ab''" sample_crypto] unfolding h(1) by blast
qed

subsection \<open>Evaluation on a working database\<close>

lemma auth_app [simp]:
  "retA x s = (Inr x, s)" "failA e s = (Inl e, s)" "tryA m s = (Inr (fst (m s)), snd (m s))"
  by (simp_all add: retA_def failA_def tryA_def split: prod.split)

lemma bindA_app: "bindA m k s = (case m s of (Inl e, s') \<Rightarrow> (Inl e, s') | (Inr x, s') \<Rightarrow> k x s')"
  by (simp add: bindA_def)

lemma liftA_app: "liftA m s = (map_sum StorageError id (fst (m s)), snd (m s))"
  by (simp add: liftA_def split: prod.split sum.split)

lemma find_for_login_ok:
  "faults s = [] \<Longrightarrow> find_for_login u s =
     (case find (\<lambda>r. adm_username r = NormalizeUsername u) (admins s) of
        None \<Rightarrow> Inl ErrInvalidCredentials | Some m \<Rightarrow> Inr (toStorageAdmin m), s)"
  by (simp add: find_for_login_def bindA_app FindAdminByUsername_def bindE_def find_row_ok split: option.split)

lemma refuse_suspended_ok:
  "faults s = [] \<Longrightarrow> refuse_suspended i s =
     (case admin_by_id i s of
        None \<Rightarrow> Inr ()
      | Some m \<Rightarrow> if adm_suspended_at m > 0 then Inl (SuspendedError (adm_suspended_reason m)) else Inr (), s)"
  by (simp add: refuse_suspended_def bindA_app IsSuspended_def bindE_def query_first_ok split: option.split)

definition session_row_of :: "string \<Rightarrow> int \<Rightarrow> int \<Rightarrow> session_row" where
  "session_row_of i a now = \<lparr>se_id = i, se_admin_id = a, se_expires_at = now + SessionTTL, se_created_at = now\<rparr>"

definition session_for :: "string \<Rightarrow> int \<Rightarrow> int \<Rightarrow> admin_session" where
  "session_for i a now = \<lparr>s_id = i, s_admin_id = a, s_expires_at = now + SessionTTL, s_created_at = now\<rparr>"

lemma newSession_ok:
  "faults s = [] \<Longrightarrow> i \<notin> se_id ` set (sessions s) \<Longrightarrow> fk_admin a s \<Longrightarrow>
     newSession (Some i) a s = (Inr (session_for i a (clock s)),
       sessions_update (\<lambda>rs. rs @ [session_row_of i a (clock s)]) s)"
  by (simp add: newSession_def drawn_def bindA_app liftA_app CreateSession_def bindE_def insert_row_ok
      session_for_def session_row_of_def fk_admin_def)

lemma MarkAdminLogin_ok:
  "faults s = [] \<Longrightarrow> MarkAdminLogin i s =
     (Inr (), admins_update (update_where (\<lambda>r. adm_id r = i) (\<lambda>r. r\<lparr>adm_last_login_at := clock s\<rparr>)) s)"
  by (simp add: MarkAdminLogin_def update_admin_def bindE_def update_rows_ok)

lemma admin_fk: "r \<in> set (admins s) \<Longrightarrow> fk_admin (adm_id r) s"
  by (simp add: fk_admin_def)

lemma admin_by_id_member:
  "wf_store s \<Longrightarrow> r \<in> set (admins s) \<Longrightarrow> admin_by_id (adm_id r) s = Some r"
  using find_key [of adm_id "admins s" r] by (simp add: admin_by_id_def wf_defs uniq_def)

text \<open>The store after a successful sign-in.\<close>

definition signed_in :: "string \<Rightarrow> int \<Rightarrow> store \<Rightarrow> store" where
  "signed_in i a s = admins_update (update_where (\<lambda>r. adm_id r = a) (\<lambda>r. r\<lparr>adm_last_login_at := clock s\<rparr>))
     (sessions_update (\<lambda>rs. rs @ [session_row_of i a (clock s)]) s)"

text \<open>What a password login does, on every branch. With a working database and a fresh random session
  id: an unknown name (case and blanks aside) or a wrong password is refused as invalid
  credentials, a suspended account is told so, and neither changes anything; otherwise the account
  and a session of fourteen days are returned, the session is stored and the login time noted.\<close>

theorem login_outcome:
  assumes f: "faults s = []" and wf: "wf_store s" and fresh: "i \<notin> se_id ` set (sessions s)"
  shows "Login C (Some i) u p s =
    (case find (\<lambda>r. adm_username r = NormalizeUsername u) (admins s) of
       None \<Rightarrow> (Inl ErrInvalidCredentials, s)
     | Some m \<Rightarrow>
         if \<not> bcrypt_cmp C (adm_password_hash m) p then (Inl ErrInvalidCredentials, s)
         else if adm_suspended_at m > 0 then (Inl (SuspendedError (adm_suspended_reason m)), s)
         else (Inr (toStorageAdmin m, session_for i (adm_id m) (clock s)), signed_in i (adm_id m) s))"
proof (cases "find (\<lambda>r. adm_username r = NormalizeUsername u) (admins s)")
  case None
  then show ?thesis by (simp add: Login_def bindA_app find_for_login_ok f)
next
  case (Some m)
  then have m: "m \<in> set (admins s)" by (auto simp: find_Some_iff)
  have pw: "a_password_hash (toStorageAdmin m) = adm_password_hash m" by (simp add: toStorageAdmin_def)
  show ?thesis
    using Some
    by (simp add: Login_def bindA_app find_for_login_ok f refuse_suspended_ok admin_by_id_member [OF wf m]
        VerifyPassword_def pw enter_def newSession_ok [OF f fresh admin_fk [OF m]] MarkAdminLogin_ok signed_in_def)
qed

subsection \<open>Triples\<close>

text \<open>\<open>validA P m Q\<close>: what \<open>m\<close> returns from a store with \<open>P\<close> satisfies \<open>Q\<close> with the store it leaves.\<close>

definition validA :: "(store \<Rightarrow> bool) \<Rightarrow> 'a auth \<Rightarrow> ('a \<Rightarrow> store \<Rightarrow> bool) \<Rightarrow> bool" where
  "validA P m Q \<longleftrightarrow> (\<forall>s x s'. P s \<longrightarrow> m s = (Inr x, s') \<longrightarrow> Q x s')"

lemma validA_bind: "validA P m R \<Longrightarrow> (\<And>x. validA (R x) (k x) Q) \<Longrightarrow> validA P (bindA m k) Q"
  by (fastforce simp: validA_def bindA_app split: prod.splits sum.splits)

lemma validA_ret: "(\<And>s. P s \<Longrightarrow> Q x s) \<Longrightarrow> validA P (retA x) Q"
  by (simp add: validA_def)

lemma validA_fail: "validA P (failA e) Q"
  by (simp add: validA_def)

lemma validA_if: "validA P a Q \<Longrightarrow> validA P b Q \<Longrightarrow> validA P (if c then a else b) Q"
  by simp

lemma validA_any: "(\<And>x s. Q x s) \<Longrightarrow> validA P m Q"
  by (simp add: validA_def)

text \<open>A computation whose result never names the account \<open>i\<close>.\<close>

lemma enter_admin: "validA P (enter tok admin) (\<lambda>x _. fst x = admin)"
  by (auto simp: validA_def enter_def bindA_app split: prod.splits sum.splits)

lemma enter_after_gate:
  assumes "validA P (refuse_suspended (a_id admin)) (\<lambda>_ _. a_id admin \<noteq> i)"
  shows "validA P (bindA (refuse_suspended (a_id admin)) (\<lambda>_. enter tok admin)) (\<lambda>x _. a_id (fst x) \<noteq> i)"
  using assms enter_admin [of "\<lambda>_. True" tok admin]
  by (fastforce simp: validA_def bindA_app split: prod.splits sum.splits)

lemma gate_refuses:
  assumes "faults s = []" "admin_by_id i s = Some m" "adm_suspended_at m > 0"
  shows "validA (\<lambda>t. t = s \<and> P) (refuse_suspended j) (\<lambda>_ _. j \<noteq> i)"
  using assms by (auto simp: validA_def refuse_suspended_ok)

lemma unchanged_tryA:
  "m s = (r, s) \<Longrightarrow> validA (\<lambda>t. t = s) (tryA m) (\<lambda>_ t. t = s)"
  by (auto simp: validA_def)

lemma validA_at: "(\<And>x s'. m s = (Inr x, s') \<Longrightarrow> Q x s') \<Longrightarrow> validA (\<lambda>t. t = s) m Q"
  by (simp add: validA_def)

lemma GetPlatformSetting_ok:
  "faults s = [] \<Longrightarrow> GetPlatformSetting k d s =
     (Inr (case setting_row_of k s of None \<Rightarrow> d | Some r \<Rightarrow> ps_value r), s)"
  by (simp add: GetPlatformSetting_def bindE_def attempt_app query_first_ok split: option.split)

lemma registration_gate_ok:
  "faults s = [] \<Longrightarrow> registration_gate tok s =
     (let mode = (case setting_row_of SettingRegistrationMode s of None \<Rightarrow> RegistrationModeOpen | Some r \<Rightarrow> ps_value r)
      in if mode = RegistrationModeClosed then Inl ErrRegistrationClosed
         else if mode = RegistrationModeInvite \<and> trim_space tok = [] then Inl ErrRegistrationInvite
         else Inr (), s)"
  by (simp add: registration_gate_def bindA_app liftA_app GetPlatformSetting_ok Let_def)

lemma name_free_ok:
  "faults s = [] \<Longrightarrow> name_free n s =
     (if n \<in> adm_username ` set (admins s) then Inl ErrUsernameTaken else Inr (), s)"
proof -
  assume f: "faults s = []"
  show ?thesis
  proof (cases "find (\<lambda>r. adm_username r = n) (admins s)")
    case None
    then have "n \<notin> adm_username ` set (admins s)" by (auto simp: find_None_iff)
    then show ?thesis using None f
      by (simp add: name_free_def bindA_app FindAdminByUsername_def bindE_def find_row_ok)
  next
    case (Some r)
    then have "n \<in> adm_username ` set (admins s)" by (auto simp: find_Some_iff)
    then show ?thesis using Some f
      by (simp add: name_free_def bindA_app FindAdminByUsername_def bindE_def find_row_ok)
  qed
qed

lemma FindAdminByAccount_ok:
  "faults s = [] \<Longrightarrow> FindAdminByAccount sub s =
     (if trim_space sub = [] then Inl ErrNotFound
      else case find (\<lambda>r. adm_account_subject r = Some (trim_space sub)) (admins s) of
        None \<Rightarrow> Inl ErrNotFound | Some m \<Rightarrow> Inr (toStorageAdmin m), s)"
  by (simp add: FindAdminByAccount_def Let_def bindE_def find_row_ok split: option.split)

lemma CreateAccount_id:
  assumes "faults s = []" "CreateAccount h g u p mc role pa s = (Inr a, s')"
  shows "a_id a = admins_seq s"
  using assms
  by (auto simp: CreateAccount_def Let_def bindE_def insert_admin_def stmt_ok attempt_app
      split: if_splits option.splits sum.splits)

lemma open_account_id:
  assumes f: "faults s = []" and pw: "validA (\<lambda>t. t = s) pw (\<lambda>_ t. t = s)"
  shows "validA (\<lambda>t. t = s) (open_account C name pw code) (\<lambda>a _. a_id a = admins_seq s)"
  unfolding open_account_def
proof (intro validA_bind [OF _ validA_bind [OF pw validA_bind [OF _ validA_bind]]])
  show "validA (\<lambda>t. t = s) (name_free name) (\<lambda>_ t. t = s)"
    by (rule validA_at) (simp add: name_free_ok f split: if_splits)
  show "validA (\<lambda>t. t = s) (sumA x) (\<lambda>_ t. t = s)" for x :: "auth_error + string"
    by (rule validA_at) (simp add: sumA_def split: sum.splits)
  show "validA (\<lambda>t. t = s) (liftA (CreateAccount h g name hash False RoleUser False)) (\<lambda>a _. a_id a = admins_seq s)"
    for h g hash
  proof (rule validA_at)
    fix a s' assume "liftA (CreateAccount h g name hash False RoleUser False) s = (Inr a, s')"
    then have "CreateAccount h g name hash False RoleUser False s = (Inr a, s')"
      by (cases "CreateAccount h g name hash False RoleUser False s";
          cases "fst (CreateAccount h g name hash False RoleUser False s)") (auto simp: liftA_app)
    then show "a_id a = admins_seq s" by (rule CreateAccount_id [OF f])
  qed
  show "validA (\<lambda>_. a_id a = admins_seq s) (bindA (redeem_or_drop code (a_id a)) (\<lambda>_. retA a))
      (\<lambda>a _. a_id a = admins_seq s)" for a
    by (auto simp: validA_def bindA_app split: prod.splits sum.splits)
qed

lemma suspended_login:
  assumes s: "faults s = []" "admin_by_id i s = Some m" "adm_suspended_at m > 0"
  shows "validA (\<lambda>t. t = s) (Login C tok u p) (\<lambda>x _. a_id (fst x) \<noteq> i)"
    and "validA (\<lambda>t. t = s) (VerifyCredentials C u p) (\<lambda>a _. a_id a \<noteq> i)"
    and "validA (\<lambda>t. t = s) (OpenSession tok j) (\<lambda>x _. a_id (fst x) \<noteq> i)"
    and "validA (\<lambda>t. t = s) (Authenticate ck) (\<lambda>a _. a_id a \<noteq> i)"
proof -
  note gate = gate_refuses [OF s, where P = True, simplified]
  have find: "validA (\<lambda>t. t = s) (find_for_login u) (\<lambda>_ t. t = s)"
    by (rule validA_at) (simp add: find_for_login_ok s(1))
  show "validA (\<lambda>t. t = s) (Login C tok u p) (\<lambda>x _. a_id (fst x) \<noteq> i)"
    unfolding Login_def by (rule validA_bind [OF find], intro validA_if validA_fail enter_after_gate gate)
  show "validA (\<lambda>t. t = s) (VerifyCredentials C u p) (\<lambda>a _. a_id a \<noteq> i)"
    unfolding VerifyCredentials_def
    by (rule validA_bind [OF find], intro validA_if validA_fail, rule validA_bind [OF gate])
       (auto simp: validA_def bindA_app)
  show "validA (\<lambda>t. t = s) (OpenSession tok j) (\<lambda>x _. a_id (fst x) \<noteq> i)"
    unfolding OpenSession_def
  proof (rule validA_bind)
    show "validA (\<lambda>t. t = s) (liftA (FindAdminByID j)) (\<lambda>_ t. t = s)"
      by (rule validA_at) (simp add: liftA_app FindAdminByID_def bindE_def find_row_ok s(1) split: option.splits)
  qed (intro enter_after_gate gate)
  show "validA (\<lambda>t. t = s) (Authenticate ck) (\<lambda>a _. a_id a \<noteq> i)"
  proof (cases ck)
    case (Some v)
    have "reads (LookupSession v)" "reads (FindAdminByID j)" for v j
      unfolding LookupSession_def FindAdminByID_def reads_iff by (intro allI pres fault_free_data)+
    then have same: "snd (LookupSession v s) = s" "snd (FindAdminByID j s) = s" for v j
      using s(1) by (simp_all add: LookupSession_def FindAdminByID_def bindE_def find_row_ok split: option.split)
    show ?thesis
      unfolding Authenticate_def Some option.case
    proof (rule validA_bind)
      show "validA (\<lambda>t. t = s) (tryA (LookupSession v)) (\<lambda>_ t. t = s)"
        by (rule validA_at) (simp add: same)
      fix r show "validA (\<lambda>t. t = s) (case r of Inl _ \<Rightarrow> failA ErrSessionExpired
         | Inr sess \<Rightarrow> bindA (tryA (FindAdminByID (s_admin_id sess))) (\<lambda>r2. case r2 of
             Inl _ \<Rightarrow> failA ErrSessionExpired
           | Inr admin \<Rightarrow> bindA (refuse_suspended (a_id admin)) (\<lambda>_. retA admin))) (\<lambda>a _. a_id a \<noteq> i)"
      proof (cases r)
        case (Inr sess)
        have k: "validA (\<lambda>t. t = s) (case r2 of Inl _ \<Rightarrow> failA ErrSessionExpired
            | Inr admin \<Rightarrow> bindA (refuse_suspended (a_id admin)) (\<lambda>_. retA admin)) (\<lambda>a _. a_id a \<noteq> i)"
          for r2 :: "error + admin"
          by (cases r2) (auto intro!: validA_fail validA_bind [OF gate] validA_ret)
        have "validA (\<lambda>t. t = s) (tryA (FindAdminByID (s_admin_id sess))) (\<lambda>_ t. t = s)"
          by (rule validA_at) (simp add: same)
        then show ?thesis unfolding Inr sum.case by (rule validA_bind) (rule k)
      qed (simp add: validA_fail)
    qed
  qed (simp add: Authenticate_def validA_fail)
qed

lemma suspended_account_login:
  assumes s: "faults s = []" "admin_by_id i s = Some m" "adm_suspended_at m > 0" "wf_store s"
  shows "validA (\<lambda>t. t = s) (LoginWithAccount C pw tok sub u name code) (\<lambda>x _. a_id (fst x) \<noteq> i)"
proof -
  note gate = gate_refuses [OF s(1-3), where P = True, simplified]
  have "m \<in> set (admins s)" "adm_id m = i" using s(2) by (auto simp: admin_by_id_def find_Some_iff)
  then have new: "admins_seq s \<noteq> i" using s(4) by (force simp: wf_defs refers_def)
  have reg: "validA (\<lambda>t. t = s) (registration_gate code) (\<lambda>_ t. t = s)"
    by (rule validA_at) (simp add: registration_gate_ok s(1) Let_def split: if_splits)
  have val: "validA (\<lambda>t. t = s) (sumA x) (\<lambda>_ t. t = s)" for x :: "auth_error + string"
    by (rule validA_at) (simp add: sumA_def split: sum.splits)
  have rnd: "validA (\<lambda>t. t = s) (mustRandomPassword pw) (\<lambda>_ t. t = s)"
    by (rule validA_at) (simp add: mustRandomPassword_def drawn_def split: option.splits)
  have acc: "validA (\<lambda>t. t = s) (tryA (FindAdminByAccount (trim_space sub))) (\<lambda>_ t. t = s)"
    by (rule validA_at) (simp add: FindAdminByAccount_ok s(1))
  have fin: "validA (\<lambda>_. a_id a = admins_seq s)
      (bindA (link_or_drop (a_id a) (trim_space sub) name) (\<lambda>_. enter tok a)) (\<lambda>x _. a_id (fst x) \<noteq> i)" for a
    using enter_admin [of "\<lambda>_. True" tok a] new
    by (fastforce simp: validA_def bindA_app split: prod.splits sum.splits)
  show ?thesis
    unfolding LoginWithAccount_def Let_def
    by (intro validA_if validA_fail validA_bind [OF acc])
       (auto split: sum.split intro!: validA_fail enter_after_gate gate validA_bind [OF reg] validA_bind [OF val]
         validA_bind [OF open_account_id [OF s(1) rnd]] fin)
qed

text \<open>C21: The authentication service admits no cut account. With a working database, whatever password,
  cookie, provider account or confirmation is presented, none of the five functions of
  \<^verbatim>\<open>auth.go\<close> that admit an existing account returns a suspended one: \<^verbatim>\<open>Login\<close> and
  \<^verbatim>\<open>VerifyCredentials\<close> by password, \<^verbatim>\<open>Authenticate\<close> by the session cookie of the panel,
  \<^verbatim>\<open>LoginWithAccount\<close> by the identity provider and \<^verbatim>\<open>OpenSession\<close> on somebody's behalf. This is about
  the service alone: the bearer token of the application is checked in \<^verbatim>\<open>appauth.go\<close>, which does not
  ask it, and outlives a cut; the theory of the sign-in handlers proves that.\<close>

theorem suspended_never_enters:
  assumes "faults s = []" "wf_store s" "admin_by_id i s = Some m" "adm_suspended_at m > 0"
  shows "(\<forall>a sess s'. Login C tok u p s = (Inr (a, sess), s') \<longrightarrow> a_id a \<noteq> i) \<and>
    (\<forall>a s'. VerifyCredentials C u p s = (Inr a, s') \<longrightarrow> a_id a \<noteq> i) \<and>
    (\<forall>a s'. Authenticate ck s = (Inr a, s') \<longrightarrow> a_id a \<noteq> i) \<and>
    (\<forall>a sess s'. OpenSession tok j s = (Inr (a, sess), s') \<longrightarrow> a_id a \<noteq> i) \<and>
    (\<forall>a sess s'. LoginWithAccount C pw tok sub u name code s = (Inr (a, sess), s') \<longrightarrow> a_id a \<noteq> i)"
  using suspended_login [OF assms(1,3,4)] suspended_account_login [OF assms(1,3,4,2)]
  unfolding validA_def by (metis fst_conv)

text \<open>The same check fails open. When the one query that reads the suspension is refused by the
  database, the session cookie of a suspended account is accepted.\<close>

theorem suspension_check_fails_open:
  assumes "session_of ck s = Some r" "se_expires_at r \<ge> clock s" "admin_by_id (se_admin_id r) s = Some m"
    and "faults s = [False, False, True]"
  shows "Authenticate (Some ck) s = (Inr (toStorageAdmin m), s\<lparr>faults := []\<rparr>)"
proof -
  have sess: "LookupSession ck s = (Inr \<lparr>s_id = se_id r, s_admin_id = se_admin_id r,
      s_expires_at = se_expires_at r, s_created_at = se_created_at r\<rparr>, s\<lparr>faults := [False, True]\<rparr>)"
    using assms(1,2,4)
    by (simp add: LookupSession_def bindE_def find_row_def query_first_def stmt_def session_of_def)
  have adm: "FindAdminByID (se_admin_id r) (s\<lparr>faults := [False, True]\<rparr>) =
      (Inr (toStorageAdmin m), s\<lparr>faults := [True]\<rparr>)"
    using assms(3)
    by (simp add: FindAdminByID_def bindE_def find_row_def query_first_def stmt_def admin_by_id_def)
  have susp: "refuse_suspended x (s\<lparr>faults := [True]\<rparr>) = (Inr (), s\<lparr>faults := []\<rparr>)" for x
    by (simp add: refuse_suspended_def bindA_app IsSuspended_def bindE_def query_first_def stmt_def)
  show ?thesis by (simp add: Authenticate_def bindA_app sess adm susp)
qed

text \<open>A login holds exactly as long as it says. After a successful password login the cookie the panel
  writes authenticates that account at any later moment up to the session's expiry, and not after
  it, as long as nothing else changes.\<close>

theorem login_then_authenticate:
  assumes f: "faults s = []" and wf: "wf_store s" and fresh: "i \<notin> se_id ` set (sessions s)"
    and ok: "Login C (Some i) u p s = (Inr (a, sess), s')"
  shows "fst (Authenticate (Some (ck_value (WriteSessionCookie secure sess))) (s'\<lparr>clock := t\<rparr>)) =
    (if t \<le> clock s + SessionTTL then Inr (a\<lparr>a_last_login_at := clock s\<rparr>) else Inl ErrSessionExpired)"
proof -
  obtain m where m: "find (\<lambda>r. adm_username r = NormalizeUsername u) (admins s) = Some m"
    "\<not> adm_suspended_at m > 0" "a = toStorageAdmin m" "sess = session_for i (adm_id m) (clock s)"
    "s' = signed_in i (adm_id m) s"
    using ok unfolding login_outcome [OF f wf fresh] by (auto split: option.splits if_splits)
  have mem: "m \<in> set (admins s)" using m(1) by (auto simp: find_Some_iff)
  let ?t = "s'\<lparr>clock := t\<rparr>" and ?m = "m\<lparr>adm_last_login_at := clock s\<rparr>"
  have sess': "session_of i ?t = Some (session_row_of i (adm_id m) (clock s))"
    using fresh by (auto simp: session_of_def m(5) signed_in_def find_append_cases session_row_of_def
        find_None_iff split: option.split)
       (force simp: find_Some_iff)+
  have adm: "admin_by_id (adm_id m) ?t = Some ?m"
    using admin_by_id_member [OF wf mem]
    by (simp add: admin_by_id_def m(5) signed_in_def find_update_where [where key = adm_id])
  have ft: "faults ?t = []" by (simp add: m(5) signed_in_def f)
  have ct: "clock ?t = t" by simp
  have tm: "toStorageAdmin ?m = a\<lparr>a_last_login_at := clock s\<rparr>" "a_id a = adm_id m"
    by (simp_all add: m(3) toStorageAdmin_def)
  have L: "LookupSession i ?t = (if t \<le> clock s + SessionTTL
      then Inr (session_for i (adm_id m) (clock s)) else Inl ErrNotFound, ?t)"
    unfolding session_lookup [OF ft] sess' ct by (simp add: session_row_of_def session_for_def)
  have A: "FindAdminByID (adm_id m) ?t = (Inr (toStorageAdmin ?m), ?t)"
    by (rule FindAdminByID_ok [OF ft adm])
  have S: "refuse_suspended (adm_id m) ?t = (Inr (), ?t)"
    unfolding refuse_suspended_ok [OF ft] adm using m(2) by simp
  have id: "a_id (toStorageAdmin ?m) = adm_id m" by (simp add: toStorageAdmin_def)
  have v: "ck_value (WriteSessionCookie secure sess) = i"
    by (simp add: WriteSessionCookie_def m(4) session_for_def)
  have sid: "s_admin_id (session_for i (adm_id m) (clock s)) = adm_id m" by (simp add: session_for_def)
  show ?thesis
    unfolding v by (simp add: Authenticate_def bindA_app L A S sid id tm)
qed


subsection \<open>Registration\<close>

text \<open>A working database keeps working: none of the statements creates a failure.\<close>

abbreviation quiet :: "'a db \<Rightarrow> bool" where
  "quiet m \<equiv> preserves (\<lambda>s. faults s = []) m"

named_theorems quiet_rules "operations that keep a working database working"

lemma quiet_stmt [quiet_rules]: "(\<And>s. faults s = [] \<Longrightarrow> faults (snd (f s)) = []) \<Longrightarrow> quiet (stmt f)"
  by (simp add: preserves_def stmt_ok)

lemma quiet_reads [quiet_rules]: "quiet (select g)" "quiet (query_first h)" "quiet (find_row h)"
  by (simp_all add: preserves_def select_ok query_first_ok find_row_ok)

lemma quiet_update_rows [quiet_rules]:
  "(\<And>g s. faults (put g s) = faults s) \<Longrightarrow> quiet (update_rows get put P f)"
  by (simp add: preserves_def update_rows_ok)

lemma quiet_delete_rows [quiet_rules]:
  "(\<And>g s. faults (put g s) = faults s) \<Longrightarrow> quiet (delete_rows get put P)"
  by (simp add: preserves_def delete_rows_ok)

lemma quiet_insert_row [quiet_rules]:
  "(\<And>g s. faults (put g s) = faults s) \<Longrightarrow> quiet (insert_row put ok r)"
  by (simp add: preserves_def insert_row_ok)

lemma quiet_delete_admins [quiet_rules]: "quiet (delete_admins P)"
  by (simp add: preserves_def delete_admins_ok remove_admins_def cascade_admins_def remove_clients_def
      cascade_clients_def drop_client_rows_def)

lemmas quiet_intros = quiet_rules pres_ret pres_Pair pres_fail pres_asks pres_bindE pres_attempt pres_if
  pres_option pres_sum pres_prod pres_let

lemma quiet_SetAdminAvatar: "quiet (SetAdminAvatar h i mime d)"
  unfolding SetAdminAvatar_def PutBlob_def avatarBlobOf_def touch_admin_def update_admin_def
    dropBlobIfOrphan_def Let_def
  by (intro quiet_intros; simp)

lemma quiet_CreateAccount: "quiet (CreateAccount h g u p mc role pa)"
  unfolding CreateAccount_def insert_admin_def Let_def
  by (intro quiet_intros quiet_SetAdminAvatar; simp)

lemma quiet_RedeemInvite: "quiet (RedeemInvite code a)"
  unfolding RedeemInvite_def spend_invite_def Let_def by (intro quiet_intros; simp)

lemma quiet_DeleteAdmin: "quiet (DeleteAdmin a)"
  unfolding DeleteAdmin_def require_affected_def by (intro quiet_intros)

text \<open>Creating an account: the old rows, then the new one; only \<open>blobs\<close> may change beside it.\<close>

definition with_account :: "store \<Rightarrow> string \<Rightarrow> store \<Rightarrow> bool" where
  "with_account s name t \<longleftrightarrow> (\<exists>row. admins t = admins s @ [row] \<and> adm_id row = admins_seq s \<and>
      adm_username row = name \<and> adm_suspended_at row = 0) \<and>
     sessions t = sessions s \<and> invites t = invites s \<and> redemptions t = redemptions s \<and>
     driver t = driver s \<and> clock t = clock s"

lemma fault_free_account [simp]: "fault_free (with_account s name)"
  by (simp add: fault_free_def with_account_def)

lemma with_account_update:
  assumes "with_account s name t" "\<forall>r \<in> set (admins s). adm_id r \<noteq> admins_seq s"
    and "\<And>r. adm_id (f r) = adm_id r" "\<And>r. adm_username (f r) = adm_username r"
    and "\<And>r. adm_suspended_at (f r) = adm_suspended_at r"
  shows "with_account s name (admins_update (update_where (\<lambda>r. adm_id r = admins_seq s) f) t)"
proof -
  obtain row where "admins t = admins s @ [row]" "adm_id row = admins_seq s" using assms(1)
    by (auto simp: with_account_def)
  moreover have "update_where (\<lambda>r. adm_id r = admins_seq s) f (admins s) = admins s"
    by (rule update_where_none [OF assms(2)])
  ultimately show ?thesis using assms by (auto simp: with_account_def update_where_def)
qed

lemma account_SetAdminAvatar:
  assumes "\<forall>r \<in> set (admins s). adm_id r \<noteq> admins_seq s"
  shows "preserves (with_account s name) (SetAdminAvatar h (admins_seq s) mime d)"
  unfolding SetAdminAvatar_def PutBlob_def avatarBlobOf_def touch_admin_def update_admin_def
    dropBlobIfOrphan_def Let_def
  by (intro pres pres_insert_row pres_update_rows pres_delete_rows fault_free_account with_account_update assms;
      simp add: with_account_def)

lemma wf_new_id: "wf_store s \<Longrightarrow> \<forall>r \<in> set (admins s). adm_id r \<noteq> admins_seq s"
  by (auto simp: wf_defs refers_def)

lemma CreateAccount_ok:
  assumes f: "faults s = []" and wf: "wf_store s" and n: "name \<notin> adm_username ` set (admins s)" and r: "role \<noteq> []"
  obtains a t where "CreateAccount h g name p mc role pa s = (Inr a, t)" "faults t = []" "with_account s name t"
    "a_id a = admins_seq s" "a_username a = name" "a_role a = role" "a_panel_access a = pa"
proof -
  let ?row = "new_admin_row name p mc role pa (clock s)\<lparr>adm_id := admins_seq s\<rparr>"
  let ?t = "s\<lparr>admins := admins s @ [?row], admins_seq := admins_seq s + 1\<rparr>"
  have ins: "insert_admin (new_admin_row name p mc role pa (clock s)) s = (Inr ?row, ?t)"
    using f n by (simp add: insert_admin_def stmt_ok new_admin_row_def Let_def)
  have t: "with_account s name ?t" by (simp add: with_account_def new_admin_row_def)
  have row: "a_id (toStorageAdmin (?row\<lparr>adm_avatar_version := v\<rparr>)) = admins_seq s"
    "a_username (toStorageAdmin (?row\<lparr>adm_avatar_version := v\<rparr>)) = name"
    "a_role (toStorageAdmin (?row\<lparr>adm_avatar_version := v\<rparr>)) = role"
    "a_panel_access (toStorageAdmin (?row\<lparr>adm_avatar_version := v\<rparr>)) = pa" for v
    using r by (simp_all add: toStorageAdmin_def new_admin_row_def bool_to_int_def)
  have row0: "?row = ?row\<lparr>adm_avatar_version := 0\<rparr>" by (simp add: new_admin_row_def)
  have id: "adm_id ?row = admins_seq s" by (simp add: new_admin_row_def)
  have after: "with_account s name (snd (SetAdminAvatar h (admins_seq s) ''image/png'' pic ?t)) \<and>
      faults (snd (SetAdminAvatar h (admins_seq s) ''image/png'' pic ?t)) = []" for pic
    using preservesD [OF account_SetAdminAvatar [OF wf_new_id [OF wf]] t]
      preservesD [OF quiet_SetAdminAvatar, of ?t] f by simp
  have base: "CreateAccount h g name p mc role pa s =
      (case g name of None \<Rightarrow> (Inr (toStorageAdmin ?row), ?t)
       | Some pic \<Rightarrow> if pic = [] then (Inr (toStorageAdmin ?row), ?t)
           else let x = SetAdminAvatar h (admins_seq s) ''image/png'' pic ?t in
             (Inr (toStorageAdmin (case fst x of Inl _ \<Rightarrow> ?row
                | Inr _ \<Rightarrow> ?row\<lparr>adm_avatar_version := adm_avatar_version ?row + 1\<rparr>)), snd x))"
    using r unfolding CreateAccount_def
    by (simp add: Let_def bindE_def ins attempt_app id split: option.split)
  show ?thesis
  proof (cases "g name")
    case None
    then show ?thesis using that [OF _ _ t] base row [of 0, folded row0] f by simp
  next
    case (Some pic)
    show ?thesis
    proof (cases "pic = []")
      case True
      then show ?thesis using that [OF _ _ t] base row [of 0, folded row0] f Some by simp
    next
      case False
      let ?x = "SetAdminAvatar h (admins_seq s) ''image/png'' pic ?t"
      have "CreateAccount h g name p mc role pa s = (Inr (toStorageAdmin (case fst ?x of Inl _ \<Rightarrow> ?row
          | Inr _ \<Rightarrow> ?row\<lparr>adm_avatar_version := adm_avatar_version ?row + 1\<rparr>)), snd ?x)"
        unfolding base Some using False by (simp add: Let_def)
      then show ?thesis
        using that [of _ "snd ?x"] after [of pic] row [of 0, folded row0] row
        by (cases "fst ?x") auto
    qed
  qed
qed


definition registration_mode :: "store \<Rightarrow> string" where
  "registration_mode s = (case setting_row_of SettingRegistrationMode s of
     None \<Rightarrow> RegistrationModeOpen | Some r \<Rightarrow> ps_value r)"

lemma redeem_or_drop_ok:
  assumes f: "faults t = []" and w: "with_account s name t" and new: "\<forall>r \<in> set (admins s). adm_id r \<noteq> admins_seq s"
  shows "case redeem_or_drop code (admins_seq s) t of
      (Inl e, t') \<Rightarrow> e = ErrInviteTokenInvalid \<and> admins t' = admins s
    | (Inr _, t') \<Rightarrow> faults t' = [] \<and> admins t' = admins t \<and> sessions t' = sessions t \<and>
        driver t' = driver t \<and> clock t' = clock t \<and>
        (trim_space code \<noteq> [] \<longrightarrow> (\<exists>r \<in> set (redemptions t'). rd_admin_id r = admins_seq s))"
proof (cases "trim_space code = []")
  case False
  obtain row where row: "admins t = admins s @ [row]" "adm_id row = admins_seq s"
    using w by (auto simp: with_account_def)
  have fk: "fk_admin (admins_seq s) t" using row by (simp add: fk_admin_def)
  let ?P = "redeemable (trim_space code) (clock t)" and ?f = "spend_use (clock t) (admins_seq s)"
  let ?t1 = "invites_update (update_where ?P ?f) t"
  have sp: "spend_invite (trim_space code) (clock t) (admins_seq s) t = (Inr (length (filter ?P (invites t))), ?t1)"
    using f fk by (simp add: spend_invite_def stmt_ok affected_spend)
  have run: "\<exists>r t2. RedeemInvite code (admins_seq s) t = (r, t2) \<and> faults t2 = [] \<and> admins t2 = admins t \<and>
      sessions t2 = sessions t \<and> driver t2 = driver t \<and> clock t2 = clock t \<and>
      (r = Inr () \<longrightarrow> (\<exists>q \<in> set (redemptions t2). rd_admin_id q = admins_seq s))"
    using False f by (simp add: RedeemInvite_def Let_def bindE_def sp insert_row_ok)
  then obtain r t2 where t2: "RedeemInvite code (admins_seq s) t = (r, t2)" "faults t2 = []" "admins t2 = admins t"
    "sessions t2 = sessions t" "driver t2 = driver t" "clock t2 = clock t"
    "r = Inr () \<longrightarrow> (\<exists>q \<in> set (redemptions t2). rd_admin_id q = admins_seq s)" by blast
  have gone: "admins (snd (DeleteAdmin (admins_seq s) t2)) = admins s"
  proof -
    have "filter (\<lambda>r. adm_id r \<noteq> admins_seq s) (admins t2) = admins s"
      using new by (simp add: t2(3) row)
    then show ?thesis
      using t2(2) by (simp add: DeleteAdmin_def bindE_def delete_admins_ok require_affected_def remove_admins_def)
  qed
  show ?thesis
  proof (cases r)
    case (Inl e)
    then show ?thesis using False t2(1) gone by (simp add: redeem_or_drop_def bindA_app)
  next
    case (Inr u)
    then show ?thesis using False t2 by (simp add: redeem_or_drop_def bindA_app)
  qed
qed (use f in \<open>simp add: redeem_or_drop_def\<close>)

lemma enter_ok:
  assumes "faults t = []" "i \<notin> se_id ` set (sessions t)" "fk_admin (a_id a) t"
  shows "fst (enter (Some i) a t) = Inr (a, session_for i (a_id a) (clock t))"
    and "redemptions (snd (enter (Some i) a t)) = redemptions t"
  using assms by (simp_all add: enter_def bindA_app newSession_ok MarkAdminLogin_ok)

lemma open_account_ok:
  assumes f: "faults s = []" and wf: "wf_store s"
  shows "case open_account C name (retA pw) code s of
      (Inl e, t) \<Rightarrow> admins t = admins s
    | (Inr a, t) \<Rightarrow> name \<notin> adm_username ` set (admins s) \<and> a_id a = admins_seq s \<and> a_username a = name \<and>
        a_role a = RoleUser \<and> \<not> a_panel_access a \<and> faults t = [] \<and> sessions t = sessions s \<and> clock t = clock s \<and>
        fk_admin (a_id a) t \<and>
        (trim_space code \<noteq> [] \<longrightarrow> (\<exists>r \<in> set (redemptions t). rd_admin_id r = a_id a))"
proof (cases "name \<in> adm_username ` set (admins s)")
  case True
  then show ?thesis by (simp add: open_account_def bindA_app name_free_ok f)
next
  case False
  show ?thesis
  proof (cases "HashPassword C pw")
    case (Inl e)
    then show ?thesis using False by (simp add: open_account_def bindA_app name_free_ok f sumA_def)
  next
    case (Inr h)
    obtain a t where a: "CreateAccount (blob_hash C) (avatar_gen C) name h False RoleUser False s = (Inr a, t)"
      "faults t = []" "with_account s name t" "a_id a = admins_seq s" "a_username a = name" "a_role a = RoleUser"
      "a_panel_access a = False"
      by (rule CreateAccount_ok [OF f wf False, of RoleUser "blob_hash C" "avatar_gen C" h False False])
         (simp add: RoleUser_def)
    have fk: "fk_admin (admins_seq s) t" using a(3) by (auto simp: with_account_def fk_admin_def)
    have o: "open_account C name (retA pw) code s =
        (case redeem_or_drop code (admins_seq s) t of (Inl e, t') \<Rightarrow> (Inl e, t') | (Inr _, t') \<Rightarrow> (Inr a, t'))"
      using False Inr
      by (simp add: open_account_def bindA_app name_free_ok f sumA_def liftA_app a(1,4) split: prod.split sum.split)
    show ?thesis
      using redeem_or_drop_ok [OF a(2,3) wf_new_id [OF wf], of code] fk a(3) False
      unfolding o by (auto simp: a fk_admin_def with_account_def split: prod.splits sum.splits)
  qed
qed

text \<open>Registration respects the platform's mode and leaves nothing behind when it fails. With a working
  database and a fresh session id: a refused registration, for whatever reason, leaves the accounts
  as they were; a successful one happens only if registration is not closed, with a code named if
  it is by invitation, creates a plain user without the panel under a new id and the normalised,
  previously free name, has redeemed the code if one was named, and returns a session for it.\<close>

theorem register_outcome:
  assumes f: "faults s = []" and wf: "wf_store s" and fresh: "i \<notin> se_id ` set (sessions s)"
  shows "case Register C (Some i) u pw code s of
      (Inl e, t) \<Rightarrow> admins t = admins s
    | (Inr (a, sess), t) \<Rightarrow> registration_mode s \<noteq> RegistrationModeClosed \<and>
        (registration_mode s = RegistrationModeInvite \<longrightarrow> trim_space code \<noteq> []) \<and>
        length pw \<ge> MinPasswordLen \<and> list_all name_char (NormalizeUsername u) \<and>
        NormalizeUsername u \<notin> adm_username ` set (admins s) \<and> a_username a = NormalizeUsername u \<and>
        a_id a = admins_seq s \<and> a_role a = RoleUser \<and> \<not> a_panel_access a \<and>
        (trim_space code \<noteq> [] \<longrightarrow> (\<exists>r \<in> set (redemptions t). rd_admin_id r = a_id a)) \<and>
        sess = session_for i (a_id a) (clock s)"
proof (cases "ValidateNewUsername u")
  case (Inl e)
  then show ?thesis by (simp add: Register_def bindA_app sumA_def)
next
  case (Inr name)
  then have name: "name = NormalizeUsername u" "list_all name_char name"
    by (auto simp: ValidateNewUsername_def Let_def split: if_splits)
  show ?thesis
  proof (cases "length pw < MinPasswordLen \<or> registration_mode s = RegistrationModeClosed \<or>
      registration_mode s = RegistrationModeInvite \<and> trim_space code = []")
    case True
    then show ?thesis using Inr
      by (auto simp: Register_def bindA_app sumA_def registration_gate_ok [OF f] Let_def
          registration_mode_def [symmetric])
  next
    case False
    then have R: "Register C (Some i) u pw code s =
        bindA (open_account C name (retA pw) code) (enter (Some i)) s"
      using Inr by (auto simp: Register_def bindA_app sumA_def registration_gate_ok [OF f] Let_def
          registration_mode_def [symmetric])
    obtain r t where o: "open_account C name (retA pw) code s = (r, t)" by fastforce
    show ?thesis
    proof (cases r)
      case (Inl e)
      then show ?thesis using open_account_ok [OF f wf, where C = C and name = name and pw = pw and code = code] o by (simp add: R bindA_app)
    next
      case (Inr a)
      note oa = open_account_ok [OF f wf, where C = C and name = name and pw = pw and code = code, unfolded o Inr, simplified]
      have e: "fst (enter (Some i) a t) = Inr (a, session_for i (a_id a) (clock t))"
        "redemptions (snd (enter (Some i) a t)) = redemptions t"
        by (rule enter_ok; use oa fresh in auto)+
      obtain t' where t': "enter (Some i) a t = (Inr (a, session_for i (a_id a) (clock t)), t')"
        using e(1) by (metis prod.collapse)
      show ?thesis
        unfolding R using oa False name e(2)
        by (auto simp: bindA_app o [unfolded name(1)] Inr t' not_less)
    qed
  qed
qed


subsection \<open>At concrete inputs\<close>

lemma sample_clock [simp]: "clock (sample_store d) = 5000000"
  by (simp add: sample_store_def empty_store_def)

lemma sample_sessions [simp]: "sessions (sample_store d) = []"
  by (simp add: sample_store_def empty_store_def)

lemma norm_ann: "NormalizeUsername '' Ann'' = ''ann''"
  by code_simp

lemma sample_find_ann: "find (\<lambda>r. adm_username r = ''ann'') (admins (sample_store d)) = Some (sample_admin 2 ''ann'' ''admin'')"
  by (simp add: sample_store_def sample_admin_def)

lemma ann_logs_in:
  "Login sample_crypto (Some ''tok'') '' Ann'' ''h'' (sample_store DriverSQLite) =
     (Inr (toStorageAdmin (sample_admin 2 ''ann'' ''admin''), session_for ''tok'' 2 5000000),
      signed_in ''tok'' 2 (sample_store DriverSQLite))"
  by (simp add: Login_def bindA_app find_for_login_ok norm_ann sample_find_ann refuse_suspended_ok
      VerifyPassword_def sample_crypto_def toStorageAdmin_def sample_admin_def admin_by_id_def enter_def
      newSession_ok fk_admin_def MarkAdminLogin_ok signed_in_def sample_store_def empty_store_def)

theorem login_outcome_witness:
  "Login sample_crypto (Some ''tok'') '' Ann'' ''wrong'' (sample_store DriverSQLite) =
     (Inl ErrInvalidCredentials, sample_store DriverSQLite)"
  using login_outcome [where s = "sample_store DriverSQLite" and i = "''tok''" and C = sample_crypto
      and u = "'' Ann''" and p = "''wrong''"]
  by (simp add: norm_ann sample_find_ann sample_crypto_def sample_admin_def)

theorem login_then_authenticate_witness:
  "fst (Authenticate (Some ''tok'') (signed_in ''tok'' 2 (sample_store DriverSQLite)\<lparr>clock := 5000001\<rparr>)) =
     Inr (toStorageAdmin (sample_admin 2 ''ann'' ''admin'')\<lparr>a_last_login_at := 5000000\<rparr>) \<and>
   fst (Authenticate (Some ''tok'') (signed_in ''tok'' 2 (sample_store DriverSQLite)\<lparr>clock := 2000000000000\<rparr>)) =
     Inl ErrSessionExpired"
  using login_then_authenticate [OF _ _ _ ann_logs_in, of True 5000001]
    login_then_authenticate [OF _ _ _ ann_logs_in, of True 2000000000000]
  by (simp add: WriteSessionCookie_def session_for_def SessionTTL_def)

definition cut_store :: store where
  "cut_store = (sample_store DriverSQLite)\<lparr>
     admins := [sample_admin 1 ''root'' ''owner'', (sample_admin 2 ''ann'' ''admin'')\<lparr>adm_suspended_at := 7\<rparr>],
     sessions := [session_row_of ''tok'' 2 5000000]\<rparr>"

lemma cut_store_simps [simp]: "faults cut_store = []" "clock cut_store = 5000000" "wf_store cut_store"
  using sample_wf [of DriverSQLite]
  by (simp_all add: cut_store_def wf_defs sample_defs uniq_def refers_def session_row_of_def)

lemma cut_ann: "admin_by_id 2 cut_store = Some ((sample_admin 2 ''ann'' ''admin'')\<lparr>adm_suspended_at := 7\<rparr>)"
  by (simp add: cut_store_def admin_by_id_def sample_admin_def)

theorem suspended_never_enters_witness:
  "case Authenticate (Some ''tok'') cut_store of (Inr a, _) \<Rightarrow> a_id a \<noteq> 2 | (Inl _, _) \<Rightarrow> True"
  using suspended_never_enters [OF cut_store_simps(1) cut_store_simps(3) cut_ann]
  by (auto split: prod.split sum.split)

theorem suspension_check_fails_open_witness:
  "\<exists>a s'. Authenticate (Some ''tok'') (cut_store\<lparr>faults := [False, False, True]\<rparr>) = (Inr a, s') \<and> a_id a = 2"
proof -
  let ?s = "cut_store\<lparr>faults := [False, False, True]\<rparr>"
  have 1: "session_of ''tok'' ?s = Some (session_row_of ''tok'' 2 5000000)"
    by (simp add: session_of_def cut_store_def session_row_of_def)
  have 2: "se_expires_at (session_row_of ''tok'' 2 5000000) \<ge> clock ?s"
    by (simp add: session_row_of_def SessionTTL_def)
  have 3: "admin_by_id (se_admin_id (session_row_of ''tok'' 2 5000000)) ?s =
      Some ((sample_admin 2 ''ann'' ''admin'')\<lparr>adm_suspended_at := 7\<rparr>)"
    using cut_ann by (simp add: session_row_of_def admin_by_id_def)
  have "Authenticate (Some ''tok'') ?s =
      (Inr (toStorageAdmin ((sample_admin 2 ''ann'' ''admin'')\<lparr>adm_suspended_at := 7\<rparr>)), ?s\<lparr>faults := []\<rparr>)"
    by (rule suspension_check_fails_open [OF 1 2 3]) simp
  moreover have "a_id (toStorageAdmin ((sample_admin 2 ''ann'' ''admin'')\<lparr>adm_suspended_at := 7\<rparr>)) = 2"
    by (simp add: toStorageAdmin_def sample_admin_def)
  ultimately show ?thesis by blast
qed

lemma bob_registers: "\<not> isl (fst (Register sample_crypto (Some ''tok'') ''Bob'' ''password1'' [] (sample_store DriverSQLite)))"
  by code_simp

theorem register_outcome_witness:
  "\<exists>a sess t. Register sample_crypto (Some ''tok'') ''Bob'' ''password1'' [] (sample_store DriverSQLite) =
     (Inr (a, sess), t) \<and> a_role a = RoleUser \<and> a_id a = 3 \<and> \<not> a_panel_access a"
proof -
  let ?R = "Register sample_crypto (Some ''tok'') ''Bob'' ''password1'' [] (sample_store DriverSQLite)"
  obtain a sess t where R: "?R = (Inr (a, sess), t)"
    using bob_registers by (cases ?R; cases "fst ?R") auto
  have q: "admins_seq (sample_store DriverSQLite) = 3" by (simp add: sample_store_def)
  show ?thesis
    using register_outcome [where s = "sample_store DriverSQLite" and i = "''tok''" and C = sample_crypto
        and u = "''Bob''" and pw = "''password1''" and code = "[]"]
    unfolding R by (simp add: q)
qed

end
