(* ===== verification/Provisioning.thy ===== *)
theory Provisioning
  imports Auth ClientTraffic
begin

text \<open>
  The provisioning API that relays call, \<^verbatim>\<open>internal/provisioning/service.go\<close>: a relay forwards a device's
  token, and the panel answers with the device's WireGuard configuration for that relay. The relays'
  own API and the 3x-ui API are parameters, the record \<open>relays\<close>; the calls made to them are part of
  the state, in order. Of a gRPC status the code is kept and the message is not.
\<close>

datatype code = Unauthenticated | ResourceExhausted | NotFound | Internal | PermissionDenied

record wg_peer =
  pr_public_key :: string
  pr_private_key :: string
  pr_allowed_ips :: string
  pr_server_public_key :: string

datatype rpc =
    CreatePeer string string string
  | ProvisionXUIClient string string string
  | DeletePeer string string

text \<open>\<^verbatim>\<open>PeerProvisioner\<close> and \<^verbatim>\<open>XUIProvisioner\<close>; the second may be nil. \<^term>\<open>None\<close> is an error of the call.\<close>

record relays =
  create_peer :: "node_row \<Rightarrow> string \<Rightarrow> string \<Rightarrow> wg_peer option"
  xui_prov :: "(node_row \<Rightarrow> string \<Rightarrow> string \<Rightarrow> string \<Rightarrow> wg_peer option) option"

type_synonym 'a prov = "store \<times> rpc list \<Rightarrow> (code + 'a) \<times> store \<times> rpc list"

definition retP :: "'a \<Rightarrow> 'a prov" where "retP x w = (Inr x, w)"
definition failP :: "code \<Rightarrow> 'a prov" where "failP e w = (Inl e, w)"

definition bindP :: "'a prov \<Rightarrow> ('a \<Rightarrow> 'b prov) \<Rightarrow> 'b prov" where
  "bindP m k w = (case m w of (Inl e, w') \<Rightarrow> (Inl e, w') | (Inr x, w') \<Rightarrow> k x w')"

text \<open>A storage call whose error the service looks at, and one whose error is \<^verbatim>\<open>codes.Internal\<close>.\<close>

definition dbP :: "'a db \<Rightarrow> (error + 'a) prov" where
  "dbP m w = (case w of (s, cs) \<Rightarrow> (case m s of (r, s') \<Rightarrow> (Inr r, s', cs)))"

definition internalP :: "'a db \<Rightarrow> 'a prov" where
  "internalP m = bindP (dbP m) (\<lambda>r. case r of Inl _ \<Rightarrow> failP Internal | Inr x \<Rightarrow> retP x)"

definition callP :: "rpc \<Rightarrow> unit prov" where
  "callP c w = (case w of (s, cs) \<Rightarrow> (Inr (), s, cs @ [c]))"

subsection \<open>Who may call, and for whom\<close>

definition verifyNodeBearer :: "string list \<Rightarrow> node_row \<Rightarrow> unit prov" where
  "verifyNodeBearer authorization node =
     (let presented = (case authorization of [] \<Rightarrow> [] | v # _ \<Rightarrow> trim_space (trim_prefix v ''Bearer ''))
      in if nd_grpc_token node = [] then retP ()
         else if presented \<noteq> nd_grpc_token node then failP Unauthenticated
         else retP ())"

definition authorizeClientOnNode :: "client \<Rightarrow> node_row \<Rightarrow> unit prov" where
  "authorizeClientOnNode client node =
     (if nd_owner node = OwnerAdminID client then retP ()
      else if nd_owner node = 0 then
        bindP (dbP (FindAdminByID (OwnerAdminID client))) (\<lambda>r.
        case r of
          Inr owner \<Rightarrow> if IsOwner owner then retP () else failP PermissionDenied
        | Inl _ \<Rightarrow> failP PermissionDenied)
      else failP PermissionDenied)"

definition get_node :: "string \<Rightarrow> node_row prov" where
  "get_node i = bindP (dbP (GetServerNode i)) (\<lambda>r.
     case r of
       Inr node \<Rightarrow> retP node
     | Inl e \<Rightarrow> failP (if e = ErrNotFound then NotFound else Internal))"

subsection \<open>Answers\<close>

record wireguard_config =
  wc_private_key :: string
  wc_public_key :: string
  wc_address :: string
  wc_server_public_key :: string
  wc_allowed_ips :: string
  wc_mtu :: int

record resolve_response =
  rs_vk_links :: "string list"
  rs_wg :: "wireguard_config option"
  rs_provision_locally :: bool

definition defaultMTU :: int where "defaultMTU = 1280"
definition serviceAllowedIPs :: string where "serviceAllowedIPs = ''0.0.0.0/0''"

definition prov_response :: "int \<Rightarrow> string \<Rightarrow> string \<Rightarrow> string \<Rightarrow> string \<Rightarrow> resolve_response prov" where
  "prov_response ownerAdminID privateKey publicKey address serverPublicKey =
     bindP (dbP (GetAdminVKLinks ownerAdminID)) (\<lambda>r.
     retP \<lparr>rs_vk_links = (case r of Inl _ \<Rightarrow> [] | Inr links \<Rightarrow> links),
           rs_wg = Some \<lparr>wc_private_key = privateKey, wc_public_key = publicKey, wc_address = address,
             wc_server_public_key = serverPublicKey, wc_allowed_ips = serviceAllowedIPs, wc_mtu = defaultMTU\<rparr>,
           rs_provision_locally = False\<rparr>)"

text \<open>The row a minted peer is stored as; its creation time is set by the storage.\<close>

definition peer_record :: "string \<Rightarrow> string \<Rightarrow> wg_peer \<Rightarrow> wg_peer_row" where
  "peer_record clientID nodeID p = \<lparr>wp_client_id = clientID, wp_node_id = nodeID,
     wp_public_key = pr_public_key p, wp_private_key = pr_private_key p, wp_allowed_ips = pr_allowed_ips p,
     wp_server_public_key = pr_server_public_key p, wp_endpoint = [], wp_created_at = 0\<rparr>"

fun replicate_to :: "relays \<Rightarrow> string \<Rightarrow> string \<Rightarrow> wg_peer \<Rightarrow> node_row list \<Rightarrow> unit prov" where
  "replicate_to E clientID origin p [] = retP ()"
| "replicate_to E clientID origin p (n # ns) =
     (if nd_id n = origin then replicate_to E clientID origin p ns
      else bindP (callP (CreatePeer (nd_id n) (pr_public_key p) (pr_allowed_ips p))) (\<lambda>_.
      case create_peer E n (pr_public_key p) (pr_allowed_ips p) of
        None \<Rightarrow> replicate_to E clientID origin p ns
      | Some replica \<Rightarrow>
          bindP (dbP (UpsertClientWGPeer (peer_record clientID (nd_id n)
                        (p\<lparr>pr_server_public_key := pr_server_public_key replica\<rparr>)))) (\<lambda>_.
          replicate_to E clientID origin p ns)))"

definition replicatePeer :: "relays \<Rightarrow> string \<Rightarrow> string \<Rightarrow> wg_peer \<Rightarrow> unit prov" where
  "replicatePeer E clientID origin p =
     bindP (dbP (ListServerNodes ServerNodeVKTurnProxy)) (\<lambda>r.
     case r of Inl _ \<Rightarrow> retP () | Inr ns \<Rightarrow> replicate_to E clientID origin p ns)"

definition resolveXUITarget :: "relays \<Rightarrow> node_row \<Rightarrow> (node_row \<times> string) option prov" where
  "resolveXUITarget E node =
     (if nd_wg_backend node \<noteq> WGBackendXUI then retP None
      else if xui_prov E = None \<or> nd_xui_node_id node = [] then failP Internal
      else bindP (internalP (GetServerNode (nd_xui_node_id node))) (\<lambda>xuiNode.
           retP (Some (xuiNode, nd_xui_inbound_tag node))))"

subsection \<open>Resolving\<close>

record resolve_request =
  rq_client_id :: string
  rq_node_id :: string
  rq_token :: bytes
  rq_wg_public_key :: string
  rq_wg_private_key :: string
  rq_wg_allowed_ips :: string
  rq_wg_server_public_key :: string

text \<open>The second phase: the relay has minted the peer and reports it.\<close>

definition report_peer :: "relays \<Rightarrow> resolve_request \<Rightarrow> client \<Rightarrow> resolve_response prov" where
  "report_peer E rq client =
     (let p = \<lparr>pr_public_key = rq_wg_public_key rq, pr_private_key = rq_wg_private_key rq,
               pr_allowed_ips = rq_wg_allowed_ips rq, pr_server_public_key = rq_wg_server_public_key rq\<rparr>
      in bindP (internalP (UpsertClientWGPeer (peer_record (rq_client_id rq) (rq_node_id rq) p))) (\<lambda>_.
         bindP (replicatePeer E (rq_client_id rq) (rq_node_id rq) p) (\<lambda>_.
         prov_response (OwnerAdminID client) (pr_private_key p) (pr_public_key p) (pr_allowed_ips p)
           (pr_server_public_key p))))"

text \<open>The client is minted on the 3x-ui inbound the relay forwards to.\<close>

definition mint_xui :: "relays \<Rightarrow> resolve_request \<Rightarrow> client \<Rightarrow> node_row \<Rightarrow> string \<Rightarrow> resolve_response prov" where
  "mint_xui E rq client xuiNode tag =
     bindP (callP (ProvisionXUIClient (nd_id xuiNode) tag (rq_client_id rq))) (\<lambda>_.
     case Option.bind (xui_prov E) (\<lambda>f. f xuiNode tag (rq_client_id rq) (Name client)) of
       None \<Rightarrow> failP Internal
     | Some p \<Rightarrow>
         bindP (internalP (UpsertClientWGPeer (peer_record (rq_client_id rq) (rq_node_id rq) p))) (\<lambda>_.
         prov_response (OwnerAdminID client) (pr_private_key p) (pr_public_key p) (pr_allowed_ips p)
           (pr_server_public_key p)))"

definition serve_client :: "relays \<Rightarrow> resolve_request \<Rightarrow> client \<Rightarrow> node_row \<Rightarrow> resolve_response prov" where
  "serve_client E rq client node =
     (if rq_wg_public_key rq \<noteq> [] then report_peer E rq client
      else bindP (dbP (GetClientWGPeer (rq_client_id rq) (rq_node_id rq))) (\<lambda>r.
      case r of
        Inr existing \<Rightarrow> prov_response (OwnerAdminID client) (wp_private_key existing) (wp_public_key existing)
                          (wp_allowed_ips existing) (wp_server_public_key existing)
      | Inl e \<Rightarrow>
          if e \<noteq> ErrNotFound then failP Internal
          else bindP (resolveXUITarget E node) (\<lambda>target.
          case target of
            Some (xuiNode, tag) \<Rightarrow> mint_xui E rq client xuiNode tag
          | None \<Rightarrow> retP \<lparr>rs_vk_links = [], rs_wg = None, rs_provision_locally = True\<rparr>)))"

definition ResolveClientConfig ::
  "crypto \<Rightarrow> relays \<Rightarrow> string list \<Rightarrow> resolve_request \<Rightarrow> resolve_response prov" where
  "ResolveClientConfig C E authorization rq =
     bindP (dbP (FindClientByID (rq_client_id rq))) (\<lambda>r.
     case r of
       Inl _ \<Rightarrow> failP Unauthenticated
     | Inr client \<Rightarrow>
         if \<not> VerifyClientToken C (TokenHash client) (rq_token rq) then failP Unauthenticated
         else
         bindP (dbP (GetClientControl (rq_client_id rq))) (\<lambda>ctrl.
         if (case ctrl of Inr c \<Rightarrow> Blocked c | Inl _ \<Rightarrow> False) then failP ResourceExhausted
         else
         bindP (get_node (rq_node_id rq)) (\<lambda>node.
         bindP (verifyNodeBearer authorization node) (\<lambda>_.
         bindP (authorizeClientOnNode client node) (\<lambda>_.
         serve_client E rq client node)))))"

subsection \<open>Usage\<close>

record usage_entry =
  us_public_key :: string
  us_client_id :: string
  us_limit_bytes :: u64
  us_used_bytes :: u64
  us_remaining_bytes :: u64
  us_disabled :: bool

definition usage_of :: "node_client_usage \<Rightarrow> usage_entry" where
  "usage_of r = \<lparr>us_public_key = nu_public_key r, us_client_id = nu_client_id r, us_limit_bytes = nu_limit_bytes r,
     us_used_bytes = nu_used_bytes r,
     us_remaining_bytes = (if nu_limit_bytes r > nu_used_bytes r then nu_limit_bytes r - nu_used_bytes r else 0),
     us_disabled = nu_disabled r\<rparr>"

definition GetClientUsage :: "string list \<Rightarrow> string \<Rightarrow> usage_entry list prov" where
  "GetClientUsage authorization nodeID =
     bindP (get_node nodeID) (\<lambda>node.
     bindP (verifyNodeBearer authorization node) (\<lambda>_.
     bindP (internalP (NodeClientUsageForLimits nodeID)) (\<lambda>rows.
     retP (map usage_of rows))))"

subsection \<open>The gate\<close>

lemma bindP_app: "bindP m k w = (case fst (m w) of Inl e \<Rightarrow> (Inl e, snd (m w)) | Inr x \<Rightarrow> k x (snd (m w)))"
  by (simp add: bindP_def split: prod.split sum.split)

lemma prov_app [simp]:
  "retP x w = (Inr x, w)" "failP e w = (Inl e, w)" "dbP m (s, cs) = (Inr (fst (m s)), snd (m s), cs)"
  "callP c (s, cs) = (Inr (), s, cs @ [c])"
  by (simp_all add: retP_def failP_def dbP_def callP_def split: prod.split)

lemma internalP_app: "internalP m (s, cs) =
   (case fst (m s) of Inl _ \<Rightarrow> Inl Internal | Inr x \<Rightarrow> Inr x, snd (m s), cs)"
  by (simp add: internalP_def bindP_app split: sum.split)

lemma reads_ok:
  assumes "faults s = []"
  shows "FindClientByID i s = (case client_by_id i s of None \<Rightarrow> Inl ErrNotFound | Some c \<Rightarrow> Inr (toStorageClient c), s)"
    and "GetServerNode n s = (case node_by_id n s of None \<Rightarrow> Inl ErrNotFound | Some r \<Rightarrow> Inr r, s)"
    and "FindAdminByID a s = (case admin_by_id a s of None \<Rightarrow> Inl ErrNotFound | Some m \<Rightarrow> Inr (toStorageAdmin m), s)"
    and "GetClientWGPeer i n s = (case peer_of i n s of None \<Rightarrow> Inl ErrNotFound | Some r \<Rightarrow> Inr r, s)"
    and "ListServerNodes kind s = (Inr (sort_key nd_created_at
           (filter (\<lambda>n. kind \<noteq> [] \<longrightarrow> nd_kind n = kind) (nodes s))), s)"
  using assms
  by (auto simp: FindClientByID_def GetServerNode_def FindAdminByID_def GetClientWGPeer_def ListServerNodes_def
      list_nodes_def bindE_def find_row_ok select_ok split: option.split)

definition bearer_ok :: "string list \<Rightarrow> node_row \<Rightarrow> bool" where
  "bearer_ok authorization n \<longleftrightarrow> nd_grpc_token n = [] \<or>
     (case authorization of [] \<Rightarrow> False | v # _ \<Rightarrow> trim_space (trim_prefix v ''Bearer '') = nd_grpc_token n)"

definition may_use :: "store \<Rightarrow> client_row \<Rightarrow> node_row \<Rightarrow> bool" where
  "may_use s c n \<longleftrightarrow> nd_owner n = cl_owner c \<or>
     (nd_owner n = 0 \<and> (case admin_by_id (cl_owner c) s of None \<Rightarrow> False | Some m \<Rightarrow> adm_role m = RoleOwner))"

text \<open>The gate as a pure function of the database: the first check that fails, or the device and the relay.\<close>

definition provision_gate ::
  "crypto \<Rightarrow> store \<Rightarrow> string list \<Rightarrow> resolve_request \<Rightarrow> code + client_row \<times> node_row" where
  "provision_gate C s authorization rq =
     (case client_by_id (rq_client_id rq) s of
        None \<Rightarrow> Inl Unauthenticated
      | Some c \<Rightarrow>
          if \<not> VerifyClientToken C (cl_token_hash c) (rq_token rq) then Inl Unauthenticated
          else if Blocked (control_of s c) then Inl ResourceExhausted
          else (case node_by_id (rq_node_id rq) s of
             None \<Rightarrow> Inl NotFound
           | Some n \<Rightarrow>
               if \<not> bearer_ok authorization n then Inl Unauthenticated
               else if \<not> may_use s c n then Inl PermissionDenied
               else Inr (c, n)))"

lemma bearer_app: "verifyNodeBearer h n w = (if bearer_ok h n then Inr () else Inl Unauthenticated, w)"
  by (auto simp: verifyNodeBearer_def bearer_ok_def Let_def split: list.split)

lemma authorize_app:
  assumes "faults s = []"
  shows "authorizeClientOnNode (toStorageClient c) n (s, cs) =
    (if may_use s c n then Inr () else Inl PermissionDenied, s, cs)"
  using assms
  by (auto simp: authorizeClientOnNode_def may_use_def bindP_app reads_ok toStorageClient_def IsOwner_def
      toStorageAdmin_def RoleForPanel_def RoleOwner_def RoleAdmin_def RoleUser_def split: option.split)

lemma get_node_app:
  assumes "faults s = []"
  shows "get_node i (s, cs) = (case node_by_id i s of None \<Rightarrow> Inl NotFound | Some n \<Rightarrow> Inr n, s, cs)"
  using assms by (simp add: get_node_def bindP_app reads_ok split: option.split)

text \<open>C9: With a working database the handler is its gate followed by the service: a request that fails a check
  is refused with the code of the first check that fails (the device and its token, the cap, the
  relay, the relay's own token, the tenancy rule), and nothing is written and no relay is called.\<close>

theorem resolve_refines_gate:
  assumes "faults s = []" "wf_store s"
  shows "ResolveClientConfig C E h rq (s, cs) =
    (case provision_gate C s h rq of
       Inl e \<Rightarrow> (Inl e, s, cs)
     | Inr (c, n) \<Rightarrow> serve_client E rq (toStorageClient c) n (s, cs))"
proof (cases "client_by_id (rq_client_id rq) s")
  case None
  then show ?thesis by (simp add: ResolveClientConfig_def provision_gate_def bindP_app reads_ok assms)
next
  case (Some c)
  have t: "TokenHash (toStorageClient c) = cl_token_hash c" by (simp add: toStorageClient_def)
  show ?thesis
    using Some
    by (simp add: ResolveClientConfig_def provision_gate_def bindP_app reads_ok assms t GetClientControl_ok
        get_node_app bearer_app authorize_app split: option.split)
qed

subsection \<open>The peers a request leaves behind\<close>

text \<open>What only touches the table of peers.\<close>

definition same_but_peers :: "store \<Rightarrow> store \<Rightarrow> bool" where
  "same_but_peers s t \<longleftrightarrow> (\<exists>f. t = wgpeers_update f s)"

lemma same_but_peersI [simp]: "same_but_peers s (wgpeers_update f s)"
  by (auto simp: same_but_peers_def)

lemma same_but_peers_refl [simp]: "same_but_peers s s"
  unfolding same_but_peers_def by (rule exI [of _ "\<lambda>x. x"], cases s, simp)

lemma same_but_peers_trans:
  assumes "same_but_peers s t" "same_but_peers t u"
  shows "same_but_peers s u"
proof -
  obtain f g where "t = wgpeers_update f s" "u = wgpeers_update g t" using assms by (auto simp: same_but_peers_def)
  then have "u = wgpeers_update (\<lambda>x. g (f x)) s" by (simp add: comp_def)
  then show ?thesis by simp
qed

lemma same_but_peersD:
  assumes "same_but_peers s t"
  shows "faults t = faults s" "driver t = driver s" "clock t = clock s" "clients t = clients s" "nodes t = nodes s"
    "admins t = admins s" "ctraffic t = ctraffic s" "ptraffic t = ptraffic s" "ntotals t = ntotals s"
  using assms by (auto simp: same_but_peers_def)

lemma same_but_peers_views:
  assumes "same_but_peers s t"
  shows "client_by_id i t = client_by_id i s" "node_by_id n t = node_by_id n s" "admin_by_id a t = admin_by_id a s"
    "control_of t = control_of s" "fk_client i t = fk_client i s" "fk_node n t = fk_node n s" "may_use t = may_use s"
  using same_but_peersD [OF assms]
  by (simp_all add: client_by_id_def node_by_id_def admin_by_id_def control_of_def traffic_of_def fk_client_def
      fk_node_def may_use_def fun_eq_iff)

lemma same_but_peers_gate:
  assumes "same_but_peers s t"
  shows "provision_gate C t h rq = provision_gate C s h rq"
  unfolding provision_gate_def same_but_peers_views [OF assms] ..

definition stamped :: "store \<Rightarrow> wg_peer_row \<Rightarrow> wg_peer_row" where
  "stamped s p = (if wp_created_at p = 0 then p\<lparr>wp_created_at := now_unix s\<rparr> else p)"

lemma stamped_sel [simp]: "wg_key (stamped s p) = wg_key p" "wp_public_key (stamped s p) = wp_public_key p"
  "wp_private_key (stamped s p) = wp_private_key p" "wp_allowed_ips (stamped s p) = wp_allowed_ips p"
  "wp_server_public_key (stamped s p) = wp_server_public_key p" "wp_client_id (stamped s p) = wp_client_id p"
  "wp_node_id (stamped s p) = wp_node_id p"
  by (simp_all add: stamped_def wg_key_def)

lemma UpsertClientWGPeer_ok:
  assumes "faults s = []"
  shows "UpsertClientWGPeer p s =
    (if fk_client (wp_client_id p) s \<and> fk_node (wp_node_id p) s
     then (Inr (), wgpeers_update (upsert_one wg_key peer_upd (stamped s p)) s) else (Inl ErrConstraint, s))"
proof -
  have "UpsertClientWGPeer p s = upsert_rows wgpeers_update wg_key peer_upd
      (\<lambda>s r. fk_client (wp_client_id r) s \<and> fk_node (wp_node_id r) s) [stamped s p] s"
    by (simp add: UpsertClientWGPeer_def bindE_def asks_def stamped_def)
  then show ?thesis using assms by (simp add: upsert_rows_ok)
qed

text \<open>A row that carries what was reported.\<close>

definition carries :: "wg_peer \<Rightarrow> wg_peer_row \<Rightarrow> bool" where
  "carries p r \<longleftrightarrow> wp_public_key r = pr_public_key p \<and> wp_private_key r = pr_private_key p \<and>
     wp_allowed_ips r = pr_allowed_ips p \<and> wp_server_public_key r = pr_server_public_key p"

lemma peer_of_upsert:
  "peer_of c n (wgpeers_update (upsert_one wg_key peer_upd (stamped s (peer_record i m p))) t) =
    (if (c, n) = (i, m) then Some (case peer_of i m t of None \<Rightarrow> stamped s (peer_record i m p)
        | Some old \<Rightarrow> peer_upd (stamped s (peer_record i m p)) old)
     else peer_of c n t)"
  using peer_table.find_upsert_one [of "(c, n)" "stamped s (peer_record i m p)" "wgpeers t"]
  by (auto simp: peer_of_def wg_key_def peer_record_def split: option.split)

lemma carries_upsert:
  "carries p (case q of None \<Rightarrow> stamped s (peer_record i m p)
        | Some old \<Rightarrow> peer_upd (stamped s (peer_record i m p)) old)"
  by (simp add: carries_def peer_record_def peer_upd_def split: option.split)

lemma replicate_to_app:
  assumes "faults s = []"
  obtains t ds where "replicate_to E i m p ns (s, cs) = (Inr (), t, cs @ ds)" "same_but_peers s t"
    "\<And>c n. c \<noteq> i \<or> n = m \<or> n \<notin> nd_id ` set ns \<Longrightarrow> peer_of c n t = peer_of c n s"
    "ds = map (\<lambda>n. CreatePeer (nd_id n) (pr_public_key p) (pr_allowed_ips p)) (filter (\<lambda>n. nd_id n \<noteq> m) ns)"
    "distinct (map nd_id ns) \<Longrightarrow> fk_client i s \<Longrightarrow> \<forall>n \<in> set ns. fk_node (nd_id n) s \<Longrightarrow>
      \<forall>n \<in> set ns. \<forall>r. nd_id n \<noteq> m \<longrightarrow> create_peer E n (pr_public_key p) (pr_allowed_ips p) = Some r \<longrightarrow>
        (\<exists>row. peer_of i (nd_id n) t = Some row \<and> carries (p\<lparr>pr_server_public_key := pr_server_public_key r\<rparr>) row)"
  using assms
proof (induction ns arbitrary: s cs thesis)
  case Nil
  show ?case by (rule Nil(1) [of s "[]"]) simp_all
next
  case (Cons n ns)
  let ?call = "CreatePeer (nd_id n) (pr_public_key p) (pr_allowed_ips p)"
  let ?rest = "map (\<lambda>n. CreatePeer (nd_id n) (pr_public_key p) (pr_allowed_ips p)) (filter (\<lambda>n. nd_id n \<noteq> m) ns)"
  consider (origin) "nd_id n = m" | (err) "nd_id n \<noteq> m" "create_peer E n (pr_public_key p) (pr_allowed_ips p) = None"
    | (ok) r where "nd_id n \<noteq> m" "create_peer E n (pr_public_key p) (pr_allowed_ips p) = Some r"
    by (cases "create_peer E n (pr_public_key p) (pr_allowed_ips p)") auto
  then show ?case
  proof cases
    case origin
    show ?thesis
      by (rule Cons.IH [OF _ Cons.prems(2), of cs], rule Cons.prems(1)) (use origin in auto)
  next
    case err
    show ?thesis
      by (rule Cons.IH [OF _ Cons.prems(2), of "cs @ [?call]"], rule Cons.prems(1))
         (use err in \<open>auto simp: bindP_app\<close>)
  next
    case ok
    define q where "q = p\<lparr>pr_server_public_key := pr_server_public_key r\<rparr>"
    define s1 where "s1 = snd (UpsertClientWGPeer (peer_record i (nd_id n) q) s)"
    have s1: "s1 = (if fk_client i s \<and> fk_node (nd_id n) s
        then wgpeers_update (upsert_one wg_key peer_upd (stamped s (peer_record i (nd_id n) q))) s else s)"
      using Cons.prems(2) by (simp add: s1_def UpsertClientWGPeer_ok peer_record_def)
    have b: "same_but_peers s s1" by (simp add: s1)
    have other: "peer_of c k s1 = peer_of c k s" if "c \<noteq> i \<or> k \<noteq> nd_id n" for c k
      using that by (auto simp: s1 peer_of_upsert)
    have f1: "faults s1 = []" using same_but_peersD [OF b] Cons.prems(2) by simp
    obtain t ds where t: "replicate_to E i m p ns (s1, cs @ [?call]) = (Inr (), t, (cs @ [?call]) @ ds)" "same_but_peers s1 t"
      "\<And>c k. c \<noteq> i \<or> k = m \<or> k \<notin> nd_id ` set ns \<Longrightarrow> peer_of c k t = peer_of c k s1" "ds = ?rest"
      "distinct (map nd_id ns) \<Longrightarrow> fk_client i s1 \<Longrightarrow> \<forall>n \<in> set ns. fk_node (nd_id n) s1 \<Longrightarrow>
        \<forall>n \<in> set ns. \<forall>r. nd_id n \<noteq> m \<longrightarrow> create_peer E n (pr_public_key p) (pr_allowed_ips p) = Some r \<longrightarrow>
        (\<exists>row. peer_of i (nd_id n) t = Some row \<and> carries (p\<lparr>pr_server_public_key := pr_server_public_key r\<rparr>) row)"
      by (rule Cons.IH [OF _ f1, of "cs @ [?call]"]) blast
    have mine: "\<exists>row. peer_of i (nd_id n) t = Some row \<and> carries q row"
      if "distinct (map nd_id (n # ns))" "fk_client i s" "fk_node (nd_id n) s"
    proof -
      have "peer_of i (nd_id n) t = peer_of i (nd_id n) s1" using t(3) that(1) by auto
      then show ?thesis using that by (auto simp: s1 peer_of_upsert carries_upsert)
    qed
    show ?thesis
    proof (rule Cons.prems(1) [of t "?call # ds"])
      show "replicate_to E i m p (n # ns) (s, cs) = (Inr (), t, cs @ ?call # ds)"
        using ok t(1) by (simp add: bindP_app s1_def q_def)
      show "same_but_peers s t" by (rule same_but_peers_trans [OF b t(2)])
      show "peer_of c k t = peer_of c k s" if "c \<noteq> i \<or> k = m \<or> k \<notin> nd_id ` set (n # ns)" for c k
        using that t(3) [of c k] other [of c k] ok by auto
      show "?call # ds = map (\<lambda>n. CreatePeer (nd_id n) (pr_public_key p) (pr_allowed_ips p)) (filter (\<lambda>n. nd_id n \<noteq> m) (n # ns))"
        using ok t(4) by simp
      show "\<forall>x \<in> set (n # ns). \<forall>r. nd_id x \<noteq> m \<longrightarrow> create_peer E x (pr_public_key p) (pr_allowed_ips p) = Some r \<longrightarrow>
        (\<exists>row. peer_of i (nd_id x) t = Some row \<and> carries (p\<lparr>pr_server_public_key := pr_server_public_key r\<rparr>) row)"
        if "distinct (map nd_id (n # ns))" "fk_client i s" "\<forall>x \<in> set (n # ns). fk_node (nd_id x) s"
        using mine t(5) that ok by (auto simp: same_but_peers_views [OF b] q_def)
    qed
  qed
qed

definition reported_peer :: "resolve_request \<Rightarrow> wg_peer" where
  "reported_peer rq = \<lparr>pr_public_key = rq_wg_public_key rq, pr_private_key = rq_wg_private_key rq,
     pr_allowed_ips = rq_wg_allowed_ips rq, pr_server_public_key = rq_wg_server_public_key rq\<rparr>"

definition links_of :: "int \<Rightarrow> store \<Rightarrow> string list" where
  "links_of a s = (case admin_by_id a s of None \<Rightarrow> [] | Some m \<Rightarrow> splitVKLinks (adm_vk_links m))"

definition response_for :: "string list \<Rightarrow> wg_peer \<Rightarrow> resolve_response" where
  "response_for links p = \<lparr>rs_vk_links = links,
     rs_wg = Some \<lparr>wc_private_key = pr_private_key p, wc_public_key = pr_public_key p, wc_address = pr_allowed_ips p,
       wc_server_public_key = pr_server_public_key p, wc_allowed_ips = serviceAllowedIPs, wc_mtu = defaultMTU\<rparr>,
     rs_provision_locally = False\<rparr>"

lemma prov_response_ok:
  "faults s = [] \<Longrightarrow> prov_response a (pr_private_key p) (pr_public_key p) (pr_allowed_ips p) (pr_server_public_key p) (s, cs) =
     (Inr (response_for (links_of a s) p), s, cs)"
  by (simp add: prov_response_def bindP_app GetAdminVKLinks_def bindE_def query_first_ok links_of_def response_for_def
      split: option.split)

lemma gate_passed:
  assumes "provision_gate C s h rq = Inr (c, n)"
  shows "client_by_id (rq_client_id rq) s = Some c" "VerifyClientToken C (cl_token_hash c) (rq_token rq)"
    "\<not> Blocked (control_of s c)" "node_by_id (rq_node_id rq) s = Some n" "bearer_ok h n" "may_use s c n"
  using assms by (auto simp: provision_gate_def split: option.splits if_splits)

lemma node_by_id_fk: "node_by_id i s = Some n \<Longrightarrow> fk_node i s"
  by (auto simp: node_by_id_def fk_node_def find_Some_iff)

lemma relays_of:
  "n \<in> set (sort_key nd_created_at (filter (\<lambda>n. ServerNodeVKTurnProxy \<noteq> [] \<longrightarrow> nd_kind n = ServerNodeVKTurnProxy) (nodes s)))
     \<longleftrightarrow> n \<in> set (nodes s) \<and> nd_kind n = ServerNodeVKTurnProxy"
  by (auto simp: ServerNodeVKTurnProxy_def)

lemma distinct_node_ids: "wf_store s \<Longrightarrow> distinct (map nd_id (nodes s))"
  by (simp add: wf_defs uniq_def)

lemma distinct_map_sorted_filter:
  "distinct (map f xs) \<Longrightarrow> distinct (map f (sort_key g (filter P xs)))"
  by (simp add: distinct_map_filter distinct_map inj_on_def)

text \<open>The report of a minted peer, step by step.\<close>

lemma report_peer_ok:
  assumes f: "faults s = []" and wf: "wf_store s" and g: "provision_gate C s h rq = Inr (c, n)"
  obtains t ds where
    "report_peer E rq (toStorageClient c) (s, cs) = (Inr (response_for (links_of (cl_owner c) s) (reported_peer rq)), t, cs @ ds)"
    "same_but_peers s t" "\<exists>row. peer_of (rq_client_id rq) (rq_node_id rq) t = Some row \<and> carries (reported_peer rq) row"
    "\<And>k m. k \<noteq> rq_client_id rq \<Longrightarrow> peer_of k m t = peer_of k m s"
    "\<And>m r. m \<in> set (nodes s) \<Longrightarrow> nd_kind m = ServerNodeVKTurnProxy \<Longrightarrow> nd_id m \<noteq> rq_node_id rq \<Longrightarrow>
       CreatePeer (nd_id m) (rq_wg_public_key rq) (rq_wg_allowed_ips rq) \<in> set ds \<and>
       (create_peer E m (rq_wg_public_key rq) (rq_wg_allowed_ips rq) = Some r \<longrightarrow>
       (\<exists>row. peer_of (rq_client_id rq) (nd_id m) t = Some row \<and>
          carries ((reported_peer rq)\<lparr>pr_server_public_key := pr_server_public_key r\<rparr>) row))"
proof -
  let ?i = "rq_client_id rq" and ?m = "rq_node_id rq" and ?p = "reported_peer rq"
  note c = gate_passed [OF g]
  have fk: "fk_client ?i s" "fk_node ?m s" using client_by_id_fk [OF c(1)] node_by_id_fk [OF c(4)] by simp_all
  define s1 where "s1 = wgpeers_update (upsert_one wg_key peer_upd (stamped s (peer_record ?i ?m ?p))) s"
  have up: "UpsertClientWGPeer (peer_record ?i ?m ?p) s = (Inr (), s1)"
    using fk by (simp add: UpsertClientWGPeer_ok f s1_def peer_record_def)
  have b: "same_but_peers s s1" by (simp add: s1_def)
  have f1: "faults s1 = []" "nodes s1 = nodes s" using same_but_peersD [OF b] f by simp_all
  let ?ns = "sort_key nd_created_at (filter (\<lambda>n. ServerNodeVKTurnProxy \<noteq> [] \<longrightarrow> nd_kind n = ServerNodeVKTurnProxy) (nodes s))"
  obtain t ds where t: "replicate_to E ?i ?m ?p ?ns (s1, cs) = (Inr (), t, cs @ ds)" "same_but_peers s1 t"
    "\<And>c n. c \<noteq> ?i \<or> n = ?m \<or> n \<notin> nd_id ` set ?ns \<Longrightarrow> peer_of c n t = peer_of c n s1"
    "ds = map (\<lambda>n. CreatePeer (nd_id n) (pr_public_key ?p) (pr_allowed_ips ?p)) (filter (\<lambda>n. nd_id n \<noteq> ?m) ?ns)"
    "distinct (map nd_id ?ns) \<Longrightarrow> fk_client ?i s1 \<Longrightarrow> \<forall>n \<in> set ?ns. fk_node (nd_id n) s1 \<Longrightarrow>
      \<forall>n \<in> set ?ns. \<forall>r. nd_id n \<noteq> ?m \<longrightarrow> create_peer E n (pr_public_key ?p) (pr_allowed_ips ?p) = Some r \<longrightarrow>
        (\<exists>row. peer_of ?i (nd_id n) t = Some row \<and> carries (?p\<lparr>pr_server_public_key := pr_server_public_key r\<rparr>) row)"
    by (rule replicate_to_app [OF f1(1), of E ?i ?m ?p ?ns cs]) blast
  have bt: "same_but_peers s t" by (rule same_but_peers_trans [OF b t(2)])
  have links: "links_of a t = links_of a s" for a by (simp add: links_of_def same_but_peers_views [OF bt])
  have run: "report_peer E rq (toStorageClient c) (s, cs) = (Inr (response_for (links_of (cl_owner c) s) ?p), t, cs @ ds)"
    using prov_response_ok [of t "cl_owner c" ?p "cs @ ds"] same_but_peersD(1) [OF bt] f
    by (simp add: report_peer_def Let_def reported_peer_def [symmetric] internalP_app bindP_app up replicatePeer_def
        reads_ok f1 t(1) links toStorageClient_def)
  have fks: "fk_client ?i s1" "\<forall>n \<in> set ?ns. fk_node (nd_id n) s1"
    using fk by (auto simp: same_but_peers_views [OF b] fk_node_def f1(2))
  show ?thesis
  proof (rule that [OF run bt])
    show "\<exists>row. peer_of ?i ?m t = Some row \<and> carries ?p row"
      using t(3) [of ?i ?m] by (simp add: s1_def peer_of_upsert carries_upsert)
    show "peer_of k m t = peer_of k m s" if "k \<noteq> ?i" for k m
      using that t(3) [of k m] by (simp add: s1_def peer_of_upsert)
    fix m r
    assume m: "m \<in> set (nodes s)" "nd_kind m = ServerNodeVKTurnProxy" "nd_id m \<noteq> ?m"
    then have "m \<in> set ?ns" by simp
    then show "CreatePeer (nd_id m) (rq_wg_public_key rq) (rq_wg_allowed_ips rq) \<in> set ds \<and>
       (create_peer E m (rq_wg_public_key rq) (rq_wg_allowed_ips rq) = Some r \<longrightarrow>
       (\<exists>row. peer_of ?i (nd_id m) t = Some row \<and>
          carries (?p\<lparr>pr_server_public_key := pr_server_public_key r\<rparr>) row))"
      using m t(4) t(5) [OF distinct_map_sorted_filter [OF distinct_node_ids [OF wf]] fks]
      by (auto simp: reported_peer_def)
  qed
qed

text \<open>What every step of the service keeps of the store.\<close>

definition presP :: "(store \<Rightarrow> bool) \<Rightarrow> 'a prov \<Rightarrow> bool" where
  "presP I m \<longleftrightarrow> (\<forall>s cs. I s \<longrightarrow> I (fst (snd (m (s, cs)))))"

lemma presP_simps [simp, intro]: "presP I (Pair r)" "presP I (retP x)" "presP I (failP e)" "presP I (callP c)" "presP I (dbP m) \<longleftrightarrow> preserves I m"
  by (auto simp: presP_def preserves_def)

lemma presP_bind [intro]:
  assumes "presP I m" "\<And>x. presP I (k x)"
  shows "presP I (bindP m k)"
  unfolding presP_def
proof (intro allI impI)
  fix s cs
  assume s: "I s"
  obtain r s' cs' where m: "m (s, cs) = (r, s', cs')" by (metis surj_pair)
  have "I s'" using assms(1) s m unfolding presP_def by (metis fst_conv snd_conv)
  then show "I (fst (snd (bindP m k (s, cs))))"
    using assms(2) by (cases r) (auto simp: bindP_app m presP_def)
qed

lemma presP_case [intro]:
  "(\<And>x. presP I (a x)) \<Longrightarrow> (\<And>x. presP I (b x)) \<Longrightarrow> presP I (case q of Inl x \<Rightarrow> a x | Inr x \<Rightarrow> b x)"
  "presP I c \<Longrightarrow> (\<And>x. presP I (b x)) \<Longrightarrow> presP I (case o' of None \<Rightarrow> c | Some x \<Rightarrow> b x)"
  "presP I c \<Longrightarrow> presP I d \<Longrightarrow> presP I (if g then c else d)"
  "(\<And>x y. presP I (e x y)) \<Longrightarrow> presP I (case pq of (x, y) \<Rightarrow> e x y)"
  by (auto split: sum.split option.split prod.split)

lemma presP_Let: "presP I (f x) \<Longrightarrow> presP I (Let x f)"
  by simp

lemma presP_internal: "preserves I m \<Longrightarrow> presP I (internalP m)"
  unfolding internalP_def by (intro presP_bind presP_case) simp_all

lemma presP_replicate_to: "presP wf_store (replicate_to E i m p ns)"
  by (induction ns) (auto intro!: presP_bind presP_case simp: pres)

lemma reads_pres:
  "preserves wf_store (GetServerNode n)" "preserves wf_store (FindAdminByID a)" "preserves wf_store (GetAdminVKLinks a)"
  "preserves wf_store (GetClientControl i)" "preserves wf_store (GetClientWGPeer i n)"
  "preserves wf_store (ListServerNodes kind)" "preserves wf_store (NodeClientUsageForLimits n)"
  unfolding GetServerNode_def FindAdminByID_def GetAdminVKLinks_def GetClientControl_def GetClientWGPeer_def
    ListServerNodes_def list_nodes_def NodeClientUsageForLimits_def
  by (auto intro!: pres split: list.split)

lemmas presP_intros = presP_bind presP_case presP_Let presP_internal presP_replicate_to presP_simps pres reads_pres

lemma presP_Resolve: "presP wf_store (ResolveClientConfig C E h rq)"
  unfolding ResolveClientConfig_def serve_client_def report_peer_def mint_xui_def resolveXUITarget_def replicatePeer_def
    prov_response_def get_node_def authorizeClientOnNode_def verifyNodeBearer_def
  by (intro presP_intros presP_simps(5) [THEN iffD2])

lemma gate_blind_to_key: "provision_gate C t h (rq\<lparr>rq_wg_public_key := k\<rparr>) = provision_gate C t h rq"
  by (cases rq, hypsubst) (unfold provision_gate_def resolve_request.simps, rule refl)

text \<open>A relay that has reported a peer gets it back. With a working database, once a request that reports a
  peer has been answered, the same device asking through the same relay is answered with the same
  configuration, from what was stored, and nothing changes.\<close>

theorem report_then_resolve:
  assumes f: "faults s = []" and wf: "wf_store s" and k: "rq_wg_public_key rq \<noteq> []"
    and R: "ResolveClientConfig C E h rq (s, cs) = (Inr resp, t, ds)"
  shows "ResolveClientConfig C E h (rq\<lparr>rq_wg_public_key := []\<rparr>) (t, ds) = (Inr resp, t, ds)"
proof -
  obtain c n where g: "provision_gate C s h rq = Inr (c, n)"
    using R by (auto simp: resolve_refines_gate [OF f wf] split: sum.splits)
  let ?i = "rq_client_id rq" and ?m = "rq_node_id rq" and ?p = "reported_peer rq"
  have rep: "report_peer E rq (toStorageClient c) (s, cs) = (Inr resp, t, ds)"
    using R k by (simp add: resolve_refines_gate [OF f wf] g serve_client_def)
  obtain row where b: "same_but_peers s t" and resp: "resp = response_for (links_of (cl_owner c) s) ?p"
    and row: "peer_of ?i ?m t = Some row" "carries ?p row"
    by (rule report_peer_ok [OF f wf g, of E cs]) (use rep in auto)
  have "wf_store t" using presP_Resolve R wf unfolding presP_def by (metis fst_conv snd_conv)
  moreover have ft: "faults t = []" using same_but_peersD(1) [OF b] f by simp
  moreover have "provision_gate C t h (rq\<lparr>rq_wg_public_key := []\<rparr>) = Inr (c, n)"
    using g same_but_peers_gate [OF b, of C h rq] by (simp add: gate_blind_to_key)
  moreover have "links_of a t = links_of a s" for a by (simp add: links_of_def same_but_peers_views [OF b])
  ultimately show ?thesis
    using row prov_response_ok [OF ft, of "cl_owner c" ?p ds]
    by (simp add: resolve_refines_gate serve_client_def bindP_app reads_ok carries_def resp toStorageClient_def)
qed

text \<open>A reported peer is minted on every relay of the fleet, whoever owns it. The tenancy rule is checked
  for the relay that reports; the replication then calls every other relay, and the private key of
  the device is stored for each that accepts the call, including relays on which the rule refuses
  the same device.\<close>

theorem report_reaches_every_relay:
  assumes f: "faults s = []" and wf: "wf_store s" and k: "rq_wg_public_key rq \<noteq> []"
    and R: "ResolveClientConfig C E h rq (s, []) = (Inr resp, t, ds)"
    and m: "m \<in> set (nodes s)" "nd_kind m = ServerNodeVKTurnProxy" "nd_id m \<noteq> rq_node_id rq"
    and r: "create_peer E m (rq_wg_public_key rq) (rq_wg_allowed_ips rq) = Some r"
  shows "CreatePeer (nd_id m) (rq_wg_public_key rq) (rq_wg_allowed_ips rq) \<in> set ds \<and>
    (\<exists>row. peer_of (rq_client_id rq) (nd_id m) t = Some row \<and> wp_private_key row = rq_wg_private_key rq)"
proof -
  obtain c n where g: "provision_gate C s h rq = Inr (c, n)"
    using R by (auto simp: resolve_refines_gate [OF f wf] split: sum.splits)
  have rep: "report_peer E rq (toStorageClient c) (s, []) = (Inr resp, t, ds)"
    using R k by (simp add: resolve_refines_gate [OF f wf] g serve_client_def)
  show ?thesis
  proof (rule report_peer_ok [OF f wf g, of E "[]"])
    fix t' ds'
    assume 1: "report_peer E rq (toStorageClient c) (s, []) =
        (Inr (response_for (links_of (cl_owner c) s) (reported_peer rq)), t', [] @ ds')"
      and 2: "\<And>m r. m \<in> set (nodes s) \<Longrightarrow> nd_kind m = ServerNodeVKTurnProxy \<Longrightarrow> nd_id m \<noteq> rq_node_id rq \<Longrightarrow>
       CreatePeer (nd_id m) (rq_wg_public_key rq) (rq_wg_allowed_ips rq) \<in> set ds' \<and>
       (create_peer E m (rq_wg_public_key rq) (rq_wg_allowed_ips rq) = Some r \<longrightarrow>
       (\<exists>row. peer_of (rq_client_id rq) (nd_id m) t' = Some row \<and>
          carries ((reported_peer rq)\<lparr>pr_server_public_key := pr_server_public_key r\<rparr>) row))"
    from 1 rep have "t' = t" "ds' = ds" by simp_all
    then show ?thesis using 2 [OF m, of r] r by (auto simp: carries_def reported_peer_def)
  qed
qed

text \<open>What a relay is told about usage agrees with the gate. For every peer on the relay whose device is
  capped or disabled, the answer has an entry, and the device is cut off exactly when the entry is
  disabled or has nothing remaining; what remains is the cap less the usage.\<close>

theorem usage_matches_gate:
  assumes f: "faults s = []" and wf: "wf_store s" and n: "node_by_id i s = Some n" "bearer_ok h n"
  shows "\<exists>us. GetClientUsage h i (s, cs) = (Inr us, s, cs) \<and>
    (\<forall>p c. p \<in> set (wgpeers s) \<longrightarrow> wp_node_id p = i \<longrightarrow> client_by_id (wp_client_id p) s = Some c \<longrightarrow>
       cl_traffic_limit c > 0 \<or> cl_disabled c \<noteq> 0 \<longrightarrow>
       (\<exists>u \<in> set us. us_public_key u = wp_public_key p \<and> us_client_id u = cl_id c \<and>
          (us_disabled u \<or> us_remaining_bytes u = 0 \<longleftrightarrow> Blocked (control_of s c)) \<and>
          (us_used_bytes u < us_limit_bytes u \<longrightarrow>
             uint (us_remaining_bytes u) = uint (cl_traffic_limit c) - uint (used_of (cl_id c) s))))"
proof -
  have rows: "NodeClientUsageForLimits i s = (Inr [\<lparr>nu_public_key = wp_public_key p, nu_client_id = cl_id c,
       nu_limit_bytes = cl_traffic_limit c, nu_used_bytes = used_of (cl_id c) s,
       nu_disabled = (cl_disabled c \<noteq> 0)\<rparr>.
      p \<leftarrow> wgpeers s, c \<leftarrow> filter (\<lambda>c. cl_id c = wp_client_id p) (clients s),
      wp_node_id p = i \<and> (cl_traffic_limit c > 0 \<or> cl_disabled c \<noteq> 0)], s)" (is "_ = (Inr ?rows, s)")
    by (simp add: NodeClientUsageForLimits_def select_ok f)
  have run: "GetClientUsage h i (s, cs) = (Inr (map usage_of ?rows), s, cs)"
    using n by (simp add: GetClientUsage_def bindP_app get_node_app f bearer_app internalP_app rows)
  have ctl: "control_of s c = \<lparr>Disabled = cl_disabled c \<noteq> 0, LimitBytes = cl_traffic_limit c, UsedBytes = used_of (cl_id c) s,
      ResetPeriodDays = ResetPeriodDays (control_of s c), NextResetUnix = NextResetUnix (control_of s c)\<rparr>" for c
    by (simp add: control_of_def used_of_def split: option.split)
  have entry: "\<exists>u \<in> set (map usage_of ?rows). us_public_key u = wp_public_key p \<and> us_client_id u = cl_id c \<and>
          (us_disabled u \<or> us_remaining_bytes u = 0 \<longleftrightarrow> Blocked (control_of s c)) \<and>
          (us_used_bytes u < us_limit_bytes u \<longrightarrow>
             uint (us_remaining_bytes u) = uint (cl_traffic_limit c) - uint (used_of (cl_id c) s))"
    if p: "p \<in> set (wgpeers s)" "wp_node_id p = i" and c: "client_by_id (wp_client_id p) s = Some c"
      "cl_traffic_limit c > 0 \<or> cl_disabled c \<noteq> 0" for p c
  proof -
    let ?r = "\<lparr>nu_public_key = wp_public_key p, nu_client_id = cl_id c, nu_limit_bytes = cl_traffic_limit c,
       nu_used_bytes = used_of (cl_id c) s, nu_disabled = (cl_disabled c \<noteq> 0)\<rparr>"
    have "c \<in> set (clients s)" "cl_id c = wp_client_id p" using client_by_id_SomeD [OF c(1)] by simp_all
    then have mem: "?r \<in> set ?rows" using p c(2) by (auto intro!: bexI [of _ p] bexI [of _ c])
    have mem: "usage_of ?r \<in> set (map usage_of ?rows)" using mem by (simp only: set_map imageI)
    have "us_disabled (usage_of ?r) \<or> us_remaining_bytes (usage_of ?r) = 0 \<longleftrightarrow> Blocked (control_of s c)"
      using c(2) by (subst ctl) (auto simp: usage_of_def Blocked_def not_less)
    moreover have "uint (cl_traffic_limit c - used_of (cl_id c) s) = uint (cl_traffic_limit c) - uint (used_of (cl_id c) s)"
      if "used_of (cl_id c) s < cl_traffic_limit c"
      using that by (intro uint_diff_u64) simp
    ultimately show ?thesis
      by (intro bexI [OF _ mem]) (simp add: usage_of_def)
  qed
  show ?thesis using run entry by blast
qed


subsection \<open>At concrete inputs\<close>

definition prov_store :: store where
  "prov_store = (sample_store DriverSQLite)\<lparr>
     nodes := [sample_node, sample_node\<lparr>nd_id := ''n2'', nd_owner := 2, nd_grpc_token := ''sec''\<rparr>],
     clients := [(new_client_row ''c1'' 1 ''phone'' ''h1'' ''t1'' 100)\<lparr>cl_traffic_limit := 1000\<rparr>,
                 new_client_row ''c2'' 2 ''tablet'' ''h2'' ''t2'' 200]\<rparr>"

definition sample_relays :: relays where
  "sample_relays = \<lparr>create_peer = (\<lambda>n k ips. Some \<lparr>pr_public_key = k, pr_private_key = [], pr_allowed_ips = ips,
     pr_server_public_key = ''s2''\<rparr>), xui_prov = None\<rparr>"

definition sample_report :: resolve_request where
  "sample_report = \<lparr>rq_client_id = ''c1'', rq_node_id = ''n1'', rq_token = ''h1'', rq_wg_public_key = ''K'',
     rq_wg_private_key = ''P'', rq_wg_allowed_ips = ''10.0.0.9/32'', rq_wg_server_public_key = ''s''\<rparr>"

lemma prov_wf [simp]: "wf_store prov_store" "faults prov_store = []"
  by (simp_all add: prov_store_def sample_defs wf_defs uniq_def refers_def wg_key_def pt_key_def)

lemma sample_gates:
  "isl (provision_gate sample_crypto prov_store [] sample_report) = False"
  "provision_gate sample_crypto prov_store [''Bearer sec''] (sample_report\<lparr>rq_node_id := ''n2''\<rparr>) = Inl PermissionDenied"
  "provision_gate sample_crypto prov_store [''Bearer no''] (sample_report\<lparr>rq_node_id := ''n2''\<rparr>) = Inl Unauthenticated"
  by code_simp+

theorem resolve_refines_gate_witness:
  "ResolveClientConfig sample_crypto sample_relays [''Bearer sec''] (sample_report\<lparr>rq_node_id := ''n2''\<rparr>) (prov_store, []) =
     (Inl PermissionDenied, prov_store, [])"
  using resolve_refines_gate [of prov_store sample_crypto sample_relays "[''Bearer sec'']" "sample_report\<lparr>rq_node_id := ''n2''\<rparr>" "[]"]
  by (simp add: sample_gates)

lemma sample_report_answered:
  obtains resp t ds where "ResolveClientConfig sample_crypto sample_relays [] sample_report (prov_store, []) = (Inr resp, t, ds)"
proof -
  have "isl (fst (ResolveClientConfig sample_crypto sample_relays [] sample_report (prov_store, []))) = False"
    by code_simp
  then show ?thesis
    using that by (cases "ResolveClientConfig sample_crypto sample_relays [] sample_report (prov_store, [])"; cases "fst
      (ResolveClientConfig sample_crypto sample_relays [] sample_report (prov_store, []))") auto
qed

theorem report_then_resolve_witness:
  "\<exists>resp t ds. ResolveClientConfig sample_crypto sample_relays [] sample_report (prov_store, []) = (Inr resp, t, ds) \<and>
     ResolveClientConfig sample_crypto sample_relays [] (sample_report\<lparr>rq_wg_public_key := []\<rparr>) (t, ds) = (Inr resp, t, ds)"
proof -
  obtain resp t ds where R: "ResolveClientConfig sample_crypto sample_relays [] sample_report (prov_store, []) = (Inr resp, t, ds)"
    by (rule sample_report_answered)
  from report_then_resolve [OF prov_wf(2,1) _ R] R show ?thesis by (simp add: sample_report_def)
qed

theorem report_reaches_every_relay_witness:
  "\<exists>resp t ds. ResolveClientConfig sample_crypto sample_relays [] sample_report (prov_store, []) = (Inr resp, t, ds) \<and>
     CreatePeer ''n2'' ''K'' ''10.0.0.9/32'' \<in> set ds \<and>
     provision_gate sample_crypto prov_store [''Bearer sec''] (sample_report\<lparr>rq_node_id := ''n2''\<rparr>) = Inl PermissionDenied"
proof -
  obtain resp t ds where R: "ResolveClientConfig sample_crypto sample_relays [] sample_report (prov_store, []) = (Inr resp, t, ds)"
    by (rule sample_report_answered)
  have "CreatePeer ''n2'' ''K'' ''10.0.0.9/32'' \<in> set ds"
    using report_reaches_every_relay [OF prov_wf(2,1) _ R, of "sample_node\<lparr>nd_id := ''n2'', nd_owner := 2, nd_grpc_token := ''sec''\<rparr>"]
    by (simp add: sample_report_def prov_store_def sample_node_def sample_relays_def)
  then show ?thesis using R sample_gates by blast
qed

theorem usage_matches_gate_witness:
  "\<exists>us. GetClientUsage [] ''n1'' (prov_store, []) = (Inr us, prov_store, []) \<and>
     (\<exists>u \<in> set us. us_client_id u = ''c1'' \<and> us_remaining_bytes u \<noteq> 0)"
proof -
  let ?c = "(new_client_row ''c1'' 1 ''phone'' ''h1'' ''t1'' 100)\<lparr>cl_traffic_limit := 1000\<rparr>"
  have n: "node_by_id ''n1'' prov_store = Some sample_node" "bearer_ok [] sample_node"
    by (simp_all add: node_by_id_def prov_store_def sample_node_def bearer_ok_def)
  have c: "client_by_id ''c1'' prov_store = Some ?c" by (simp add: client_by_id_def prov_store_def new_client_row_def)
  have b: "\<not> Blocked (control_of prov_store ?c)"
    by (simp add: Blocked_def control_of_def traffic_of_def prov_store_def sample_defs)
  have p: "sample_peer ''c1'' ''k1'' \<in> set (wgpeers prov_store)" by (simp add: prov_store_def sample_store_def)
  obtain us where us: "GetClientUsage [] ''n1'' (prov_store, []) = (Inr us, prov_store, [])"
    "\<forall>p c. p \<in> set (wgpeers prov_store) \<longrightarrow> wp_node_id p = ''n1'' \<longrightarrow> client_by_id (wp_client_id p) prov_store = Some c \<longrightarrow>
       cl_traffic_limit c > 0 \<or> cl_disabled c \<noteq> 0 \<longrightarrow>
       (\<exists>u \<in> set us. us_public_key u = wp_public_key p \<and> us_client_id u = cl_id c \<and>
          (us_disabled u \<or> us_remaining_bytes u = 0 \<longleftrightarrow> Blocked (control_of prov_store c)))"
    using usage_matches_gate [OF prov_wf(2,1) n, of "[]"] by blast
  have "\<exists>u \<in> set us. us_public_key u = ''k1'' \<and> us_client_id u = ''c1'' \<and>
      (us_disabled u \<or> us_remaining_bytes u = 0 \<longleftrightarrow> Blocked (control_of prov_store ?c))"
    using us(2) [rule_format, OF p, of ?c] c by (simp add: sample_peer_def new_client_row_def)
  then show ?thesis using us(1) b by blast
qed

end
