(* ===== verification/Collector.thy ===== *)
theory Collector
  imports Provisioning Traffic
begin

text \<open>
  The loop that polls the relays, \<^verbatim>\<open>internal/collector/collector.go\<close>: status, traffic, flows and
  per-peer counters go into the database, and devices that are cut off lose their peers. What the
  relays answer in one cycle is a parameter, the record \<open>relay_view\<close>; the calls that remove peers and
  the callbacks of the options are recorded in order. The clock of the store is \<^verbatim>\<open>opts.Now\<close>;
  durations are in milliseconds. The ticker of \<^verbatim>\<open>Run\<close> and the timeout of a call are not modelled: a run
  is a list of cycles, and a call that times out is an error of the relay. What a cycle
  writes is stated of the book of a node, its rows in the tables of samples, flows and totals.
\<close>

record relay_status =
  Version :: string
  PeerCount :: u32

record flow_stats =
  ServerRxBytes :: u64
  ServerTxBytes :: u64
  ActiveStreams :: u32
  ActiveSessions :: u32
  TotalSessions :: u64
  StreamsByProtocol :: "(string \<times> u32) list"

record relay_flow =
  rf_SessionID :: string
  rf_StreamID :: u32
  rf_ClientIP :: string
  rf_Remote :: string
  rf_Protocol :: string
  rf_Version :: u32
  rf_RxBytes :: u64
  rf_TxBytes :: u64
  rf_RxRate :: u64
  rf_TxRate :: u64
  rf_StartedUnix :: int

record relay_peer =
  rp_PublicKey :: string
  rp_RxBytes :: u64
  rp_TxBytes :: u64

text \<open>\<^verbatim>\<open>Relay\<close>, through \<^verbatim>\<open>RelayFactory\<close>; \<^term>\<open>None\<close> is an error of the call.\<close>

record relay_view =
  NodeStatus :: "node_row \<Rightarrow> relay_status option"
  FlowStats :: "node_row \<Rightarrow> flow_stats option"
  RelayFlows :: "node_row \<Rightarrow> relay_flow list option"
  ListPeers :: "node_row \<Rightarrow> relay_peer list option"

record options =
  Interval :: int
  PersistInterval :: int
  Timeout :: int
  TrafficRetention :: int
  ConnRetention :: int
  OnCollected :: bool
  OnFlowStats :: bool
  OnFlows :: bool

definition offlineThreshold :: nat where "offlineThreshold = 3"

datatype event = Collected string | FlowStatsEvent string flow_stats | FlowsEvent string "relay_flow list"

record collector =
  co_store :: store
  co_failures :: "string \<Rightarrow> nat"
  co_last_persist :: "int option"
  co_calls :: "rpc list"
  co_events :: "event list"

text \<open>\<^verbatim>\<open>New\<close>: unset options take their defaults.\<close>

definition or_default :: "int \<Rightarrow> int \<Rightarrow> int" where
  "or_default d v = (if v \<le> 0 then d else v)"

definition collector_options :: "options \<Rightarrow> options" where
  "collector_options opts = opts\<lparr>
     Interval := or_default (3 * 1000) (Interval opts),
     PersistInterval := or_default (15 * 1000) (PersistInterval opts),
     Timeout := or_default (5 * 1000) (Timeout opts),
     TrafficRetention := or_default (31 * 24 * 3600 * 1000) (TrafficRetention opts),
     ConnRetention := or_default (3600 * 1000) (ConnRetention opts)\<rparr>"

definition new_collector :: "store \<Rightarrow> collector" where
  "new_collector s = \<lparr>co_store = s, co_failures = (\<lambda>_. 0), co_last_persist = None, co_calls = [], co_events = []\<rparr>"

subsection \<open>Steps of a cycle\<close>

datatype collect_error = RelayError | StoreError error

type_synonym 'a col = "collector \<Rightarrow> (collect_error + 'a) \<times> collector"

definition retC :: "'a \<Rightarrow> 'a col" where "retC x c = (Inr x, c)"
definition failC :: "collect_error \<Rightarrow> 'a col" where "failC e c = (Inl e, c)"

definition bindC :: "'a col \<Rightarrow> ('a \<Rightarrow> 'b col) \<Rightarrow> 'b col" where
  "bindC m k c = (case m c of (Inl e, c') \<Rightarrow> (Inl e, c') | (Inr x, c') \<Rightarrow> k x c')"

text \<open>A storage call whose error is looked at or dropped, and one whose error ends the step.\<close>

definition tryC :: "'a db \<Rightarrow> (error + 'a) col" where
  "tryC m c = (case m (co_store c) of (r, s) \<Rightarrow> (Inr r, c\<lparr>co_store := s\<rparr>))"

definition storeC :: "'a db \<Rightarrow> 'a col" where
  "storeC m = bindC (tryC m) (\<lambda>r. case r of Inl e \<Rightarrow> failC (StoreError e) | Inr x \<Rightarrow> retC x)"

definition relayC :: "'a option \<Rightarrow> 'a col" where
  "relayC r = (case r of None \<Rightarrow> failC RelayError | Some x \<Rightarrow> retC x)"

definition updC :: "(collector \<Rightarrow> collector) \<Rightarrow> unit col" where
  "updC f c = (Inr (), f c)"

definition emit :: "bool \<Rightarrow> event \<Rightarrow> unit col" where
  "emit hook e = (if hook then updC (\<lambda>c. c\<lparr>co_events := co_events c @ [e]\<rparr>) else retC ())"

definition getC :: "(collector \<Rightarrow> 'a) \<Rightarrow> 'a col" where
  "getC f c = (Inr (f c), c)"

subsection \<open>One node\<close>

definition sample_for :: "string \<Rightarrow> int \<Rightarrow> relay_status \<Rightarrow> flow_stats \<Rightarrow> sample_row" where
  "sample_for node now status stats = \<lparr>ts_id = 0, ts_node_id = node, ts_ts = now, ts_rx_bytes = ServerRxBytes stats,
     ts_tx_bytes = ServerTxBytes stats, ts_active_streams = ActiveStreams stats,
     ts_active_sessions = ActiveSessions stats, ts_peer_count = PeerCount status\<rparr>"

definition snapshot_for :: "string \<Rightarrow> int \<Rightarrow> relay_flow \<Rightarrow> flow_row" where
  "snapshot_for node now f = \<lparr>fl_id = 0, fl_node_id = node, fl_session_id = rf_SessionID f, fl_stream_id = rf_StreamID f,
     fl_client_ip = rf_ClientIP f, fl_remote = rf_Remote f, fl_protocol = rf_Protocol f, fl_version = rf_Version f,
     fl_rx_bytes = rf_RxBytes f, fl_tx_bytes = rf_TxBytes f, fl_rx_rate = rf_RxRate f, fl_tx_rate = rf_TxRate f,
     fl_started_unix = rf_StartedUnix f, fl_sampled_unix = now\<rparr>"

definition connection_for :: "string \<Rightarrow> int \<Rightarrow> relay_flow \<Rightarrow> connection_row" where
  "connection_for node now f = \<lparr>cn_id = 0, cn_node_id = node, cn_session_id = rf_SessionID f,
     cn_stream_id = rf_StreamID f, cn_started_unix = rf_StartedUnix f, cn_client_ip = rf_ClientIP f,
     cn_remote = rf_Remote f, cn_protocol = rf_Protocol f, cn_rx_bytes = rf_RxBytes f, cn_tx_bytes = rf_TxBytes f,
     cn_first_seen = now, cn_last_seen = now\<rparr>"

definition peer_traffic_for :: "string \<Rightarrow> int \<Rightarrow> relay_peer \<Rightarrow> peer_traffic_row" where
  "peer_traffic_for node now p = \<lparr>pt_node_id = node, pt_public_key = rp_PublicKey p, pt_rx_bytes = rp_RxBytes p,
     pt_tx_bytes = rp_TxBytes p, pt_sampled_unix = now\<rparr>"

text \<open>A failed poll: the count goes up, and from the third miss in a row the node is offline.\<close>

definition missed_poll :: "node_row \<Rightarrow> int \<Rightarrow> unit col" where
  "missed_poll node now =
     bindC (updC (\<lambda>c. c\<lparr>co_failures := (co_failures c)(nd_id node := co_failures c (nd_id node) + 1)\<rparr>)) (\<lambda>_.
     bindC (getC (\<lambda>c. co_failures c (nd_id node))) (\<lambda>n.
     bindC (if n \<ge> offlineThreshold then bindC (tryC (UpdateServerNodeStatus (nd_id node) ''offline'' now)) (\<lambda>_. retC ())
            else retC ()) (\<lambda>_.
     failC RelayError)))"

definition persist_node :: "relay_view \<Rightarrow> options \<Rightarrow> node_row \<Rightarrow> int \<Rightarrow> relay_status \<Rightarrow> unit col" where
  "persist_node R opts node now status =
     bindC (relayC (FlowStats R node)) (\<lambda>stats.
     bindC (relayC (RelayFlows R node)) (\<lambda>fs.
     bindC (emit (OnFlowStats opts) (FlowStatsEvent (nd_id node) stats)) (\<lambda>_.
     bindC (emit (OnFlows opts) (FlowsEvent (nd_id node) fs)) (\<lambda>_.
     bindC (storeC (InsertTrafficSample (sample_for (nd_id node) now status stats))) (\<lambda>_.
     bindC (tryC (AccumulateNodeTraffic (nd_id node) (ServerRxBytes stats) (ServerTxBytes stats))) (\<lambda>_.
     bindC (storeC (ReplaceFlows (nd_id node) (map (snapshot_for (nd_id node) now) fs))) (\<lambda>_.
     bindC (storeC (RecordConnections (map (connection_for (nd_id node) now) fs))) (\<lambda>_.
     bindC (case ListPeers R node of
              None \<Rightarrow> retC ()
            | Some ps \<Rightarrow> bindC (tryC (UpsertPeerTraffic (map (peer_traffic_for (nd_id node) now) ps))) (\<lambda>_. retC ())) (\<lambda>_.
     bindC (storeC (UpdateServerNodeStatus (nd_id node) ''online'' now)) (\<lambda>_.
     emit (OnCollected opts) (Collected (nd_id node))))))))))))"

definition collectNode :: "relay_view \<Rightarrow> options \<Rightarrow> node_row \<Rightarrow> bool \<Rightarrow> unit col" where
  "collectNode R opts node persist =
     bindC (getC (\<lambda>c. now_unix (co_store c))) (\<lambda>now.
     case NodeStatus R node of
       None \<Rightarrow> missed_poll node now
     | Some status \<Rightarrow>
         bindC (updC (\<lambda>c. c\<lparr>co_failures := (co_failures c)(nd_id node := 0)\<rparr>)) (\<lambda>_.
         bindC (tryC (UpdateServerNodeRelayVersion (nd_id node) (Version status))) (\<lambda>_.
         if \<not> persist then storeC (UpdateServerNodeStatus (nd_id node) ''online'' now)
         else persist_node R opts node now status)))"

subsection \<open>Cutting devices off\<close>

definition drop_peer :: "string \<Rightarrow> wg_peer_row \<Rightarrow> unit col" where
  "drop_peer clientID p =
     bindC (tryC (GetServerNode (wp_node_id p))) (\<lambda>r.
     bindC (case r of
              Inr node \<Rightarrow> if nd_wg_backend node \<noteq> WGBackendXUI
                then updC (\<lambda>c. c\<lparr>co_calls := co_calls c @ [DeletePeer (nd_id node) (wp_public_key p)]\<rparr>) else retC ()
            | Inl _ \<Rightarrow> retC ()) (\<lambda>_.
     bindC (tryC (DeleteClientWGPeer clientID (wp_node_id p))) (\<lambda>_. retC ())))"

fun forC :: "'a list \<Rightarrow> ('a \<Rightarrow> unit col) \<Rightarrow> unit col" where
  "forC [] f = retC ()"
| "forC (x # xs) f = bindC (f x) (\<lambda>_. forC xs f)"

definition deprovisionClient :: "string \<Rightarrow> unit col" where
  "deprovisionClient clientID =
     bindC (tryC (ListClientWGPeers clientID)) (\<lambda>r.
     case r of Inl _ \<Rightarrow> retC () | Inr peers \<Rightarrow> forC peers (drop_peer clientID))"

definition enforceTrafficLimits :: "int \<Rightarrow> unit col" where
  "enforceTrafficLimits nowUnix =
     bindC (tryC AccumulateClientTraffic) (\<lambda>r.
     case r of
       Inl _ \<Rightarrow> retC ()
     | Inr _ \<Rightarrow>
         bindC (tryC (RunDueTrafficResets nowUnix)) (\<lambda>_.
         bindC (tryC BlockedProvisionedClientIDs) (\<lambda>r2.
         case r2 of Inl _ \<Rightarrow> retC () | Inr blocked \<Rightarrow> forC blocked deprovisionClient)))"

subsection \<open>A cycle\<close>

text \<open>The error of one node is logged and the next one is polled.\<close>

definition tolerate :: "unit col \<Rightarrow> unit col" where
  "tolerate m c = (Inr (), snd (m c))"

definition persist_due :: "options \<Rightarrow> collector \<Rightarrow> bool" where
  "persist_due opts c = (case co_last_persist c of
     None \<Rightarrow> True | Some t \<Rightarrow> clock (co_store c) - t \<ge> PersistInterval opts)"

definition CollectOnce :: "relay_view \<Rightarrow> options \<Rightarrow> unit col" where
  "CollectOnce R opts =
     bindC (tryC (ListServerNodes ServerNodeVKTurnProxy)) (\<lambda>r.
     case r of
       Inl _ \<Rightarrow> retC ()
     | Inr ns \<Rightarrow>
         bindC (getC (\<lambda>c. (clock (co_store c), persist_due opts c))) (\<lambda>(now, persist).
         bindC (if persist then updC (\<lambda>c. c\<lparr>co_last_persist := Some now\<rparr>) else retC ()) (\<lambda>_.
         bindC (forC ns (\<lambda>n. tolerate (collectNode R opts n persist))) (\<lambda>_.
         if \<not> persist then retC ()
         else
         bindC (enforceTrafficLimits (now div 1000)) (\<lambda>_.
         bindC (tryC (PruneTrafficBefore ((now - TrafficRetention opts) div 1000))) (\<lambda>_.
         bindC (tryC (PruneConnectionsBefore ((now - ConnRetention opts) div 1000))) (\<lambda>_.
         retC ())))))))"

subsection \<open>Evaluating a step\<close>

lemma bindC_app: "bindC m k c = (case fst (m c) of Inl e \<Rightarrow> (Inl e, snd (m c)) | Inr x \<Rightarrow> k x (snd (m c)))"
  by (simp add: bindC_def split: prod.split sum.split)

lemma col_app [simp]:
  "retC x c = (Inr x, c)" "failC e c = (Inl e, c)" "updC f c = (Inr (), f c)" "getC g c = (Inr (g c), c)"
  "tryC m c = (Inr (fst (m (co_store c))), c\<lparr>co_store := snd (m (co_store c))\<rparr>)"
  "tolerate n c = (Inr (), snd (n c))"
  by (simp_all add: retC_def failC_def updC_def getC_def tryC_def tolerate_def split: prod.split)

lemma storeC_app: "storeC m c = (case fst (m (co_store c)) of Inl e \<Rightarrow> Inl (StoreError e) | Inr x \<Rightarrow> Inr x,
    c\<lparr>co_store := snd (m (co_store c))\<rparr>)"
  by (simp add: storeC_def bindC_app split: sum.split)

subsection \<open>Cutting devices off\<close>

definition drop_calls :: "store \<Rightarrow> wg_peer_row \<Rightarrow> rpc list" where
  "drop_calls s p = (case node_by_id (wp_node_id p) s of
     None \<Rightarrow> [] | Some n \<Rightarrow> if nd_wg_backend n \<noteq> WGBackendXUI then [DeletePeer (nd_id n) (wp_public_key p)] else [])"

lemma drop_calls_peers [simp]: "drop_calls (wgpeers_update g s) = drop_calls s"
  by (simp add: drop_calls_def node_by_id_def fun_eq_iff)

lemma drop_peer_ok:
  assumes "faults (co_store c) = []"
  shows "drop_peer i p c = (Inr (), c\<lparr>
     co_store := wgpeers_update (filter (\<lambda>r. wg_key r \<noteq> (i, wp_node_id p))) (co_store c),
     co_calls := co_calls c @ drop_calls (co_store c) p\<rparr>)"
proof -
  have "snd (DeleteClientWGPeer i (wp_node_id p) (co_store c)) =
      wgpeers_update (filter (\<lambda>r. wg_key r \<noteq> (i, wp_node_id p))) (co_store c)"
    using assms by (simp add: DeleteClientWGPeer_def bindE_def delete_rows_ok require_affected_def)
  then show ?thesis
    using assms by (cases "node_by_id (wp_node_id p) (co_store c)")
      (auto simp: drop_peer_def bindC_app reads_ok drop_calls_def)
qed

lemma drop_peers_ok:
  "faults (co_store c) = [] \<Longrightarrow> forC ps (drop_peer i) c = (Inr (), c\<lparr>
     co_store := wgpeers_update (filter (\<lambda>r. \<not> (wp_client_id r = i \<and> wp_node_id r \<in> wp_node_id ` set ps))) (co_store c),
     co_calls := co_calls c @ concat (map (drop_calls (co_store c)) ps)\<rparr>)"
proof (induction ps arbitrary: c)
  case Nil
  then show ?case by (cases c, cases "co_store c") simp
next
  case (Cons p ps)
  let ?c = "c\<lparr>co_store := wgpeers_update (filter (\<lambda>r. wg_key r \<noteq> (i, wp_node_id p))) (co_store c),
     co_calls := co_calls c @ drop_calls (co_store c) p\<rparr>"
  have f: "(\<lambda>x. wg_key x \<noteq> (i, wp_node_id p) \<and> (wp_client_id x = i \<longrightarrow> wp_node_id x \<notin> wp_node_id ` set ps)) =
      (\<lambda>r. wp_client_id r = i \<longrightarrow> wp_node_id r \<noteq> wp_node_id p \<and> wp_node_id r \<notin> wp_node_id ` set ps)"
    by (auto simp: wg_key_def fun_eq_iff)
  show ?case
    using Cons.IH [of ?c] Cons.prems by (simp add: bindC_app drop_peer_ok comp_def conj_commute f)
qed

lemma deprovisionClient_ok:
  assumes "faults (co_store c) = []"
  shows "\<exists>ds. deprovisionClient i c = (Inr (), c\<lparr>
     co_store := wgpeers_update (filter (\<lambda>r. wp_client_id r \<noteq> i)) (co_store c), co_calls := co_calls c @ ds\<rparr>) \<and>
     set ds = (\<Union>p \<in> {p \<in> set (wgpeers (co_store c)). wp_client_id p = i}. set (drop_calls (co_store c) p))"
proof -
  let ?s = "co_store c"
  let ?ps = "sort_key wp_created_at (filter (\<lambda>p. wp_client_id p = i) (wgpeers ?s))"
  have "ListClientWGPeers i ?s = (Inr ?ps, ?s)" using assms by (simp add: ListClientWGPeers_def select_ok)
  moreover have "filter (\<lambda>r. \<not> (wp_client_id r = i \<and> wp_node_id r \<in> wp_node_id ` set ?ps)) (wgpeers ?s) =
      filter (\<lambda>r. wp_client_id r \<noteq> i) (wgpeers ?s)"
    by (auto intro: filter_cong)
  then have "wgpeers_update (filter (\<lambda>r. \<not> (wp_client_id r = i \<and> wp_node_id r \<in> wp_node_id ` set ?ps))) ?s =
      wgpeers_update (filter (\<lambda>r. wp_client_id r \<noteq> i)) ?s"
    by (cases ?s) simp
  ultimately show ?thesis
    using drop_peers_ok [OF assms, of ?ps i] assms
    by (intro exI [of _ "concat (map (drop_calls ?s) ?ps)"]) (simp add: deprovisionClient_def bindC_app)
qed

lemma deprovision_all_ok:
  "faults (co_store c) = [] \<Longrightarrow> \<exists>ds. forC is deprovisionClient c = (Inr (), c\<lparr>
     co_store := wgpeers_update (filter (\<lambda>r. wp_client_id r \<notin> set is)) (co_store c), co_calls := co_calls c @ ds\<rparr>) \<and>
     (distinct is \<longrightarrow> set ds = (\<Union>p \<in> {p \<in> set (wgpeers (co_store c)). wp_client_id p \<in> set is}. set (drop_calls (co_store c) p)))"
proof (induction "is" arbitrary: c)
  case Nil
  then show ?case by (intro exI [of _ "[]"], cases c, cases "co_store c") simp
next
  case (Cons i js)
  obtain ds where 1: "deprovisionClient i c = (Inr (), c\<lparr>
     co_store := wgpeers_update (filter (\<lambda>r. wp_client_id r \<noteq> i)) (co_store c), co_calls := co_calls c @ ds\<rparr>)"
     "set ds = (\<Union>p \<in> {p \<in> set (wgpeers (co_store c)). wp_client_id p = i}. set (drop_calls (co_store c) p))"
    using deprovisionClient_ok [OF Cons.prems] by blast
  let ?c = "c\<lparr>co_store := wgpeers_update (filter (\<lambda>r. wp_client_id r \<noteq> i)) (co_store c), co_calls := co_calls c @ ds\<rparr>"
  obtain es where 2: "forC js deprovisionClient ?c = (Inr (), ?c\<lparr>
     co_store := wgpeers_update (filter (\<lambda>r. wp_client_id r \<notin> set js)) (co_store ?c), co_calls := co_calls ?c @ es\<rparr>)"
     "distinct js \<longrightarrow> set es = (\<Union>p \<in> {p \<in> set (wgpeers (co_store ?c)). wp_client_id p \<in> set js}. set (drop_calls (co_store c) p))"
    using Cons.IH [of ?c] Cons.prems by auto
  have "(\<lambda>r. wp_client_id r \<notin> set js \<and> wp_client_id r \<noteq> i) = (\<lambda>r. wp_client_id r \<notin> set (i # js))"
    by (auto simp: fun_eq_iff)
  then show ?case
    using 1 2 by (intro exI [of _ "ds @ es"]) (auto simp: bindC_app comp_def conj_commute)
qed

lemma quiet_reset_due: "quiet (reset_due n due acc)"
proof (induction due arbitrary: acc)
  case (Cons row due)
  show ?case
    unfolding reset_due.simps sumClientPeerTraffic_def save_traffic_def upsert_rows_def
    by (intro quiet_intros Cons.IH) (auto split: if_splits)
qed (simp add: quiet_intros)

lemma quiet_RunDueTrafficResets: "quiet (RunDueTrafficResets n)"
  unfolding RunDueTrafficResets_def by (intro quiet_intros quiet_reset_due)

text \<open>The devices the gate refuses.\<close>

definition is_cut :: "store \<Rightarrow> string \<Rightarrow> bool" where
  "is_cut s i \<longleftrightarrow> (case client_by_id i s of None \<Rightarrow> False | Some r \<Rightarrow> Blocked (control_of s r))"

lemma is_cut_peers [simp]: "is_cut (wgpeers_update g s) = is_cut s"
  by (simp add: is_cut_def client_by_id_def control_of_def traffic_of_def fun_eq_iff split: option.split)

lemma enforce_ok:
  assumes f: "faults (co_store c) = []" and wf: "wf_store (co_store c)"
    and acc: "AccumulateClientTraffic (co_store c) = (Inr (), s1)" and f1: "faults s1 = []"
  obtains s2 ds where "snd (RunDueTrafficResets n s1) = s2" "faults s2 = []" "wf_store s2"
    "enforceTrafficLimits n c = (Inr (), c\<lparr>
       co_store := wgpeers_update (filter (\<lambda>p. \<not> is_cut s2 (wp_client_id p))) s2, co_calls := co_calls c @ ds\<rparr>)"
    "set ds = (\<Union>p \<in> {p \<in> set (wgpeers s2). is_cut s2 (wp_client_id p)}. set (drop_calls s2 p))"
proof -
  define s2 where "s2 = snd (RunDueTrafficResets n s1)"
  have "wf_store s1" using preservesD [OF pres_AccumulateClientTraffic wf] acc by simp
  then have w2: "wf_store s2" using preservesD [OF pres_RunDueTrafficResets] s2_def by simp
  have f2: "faults s2 = []" using preservesD [OF quiet_RunDueTrafficResets] f1 s2_def by simp
  obtain ids where ids: "BlockedProvisionedClientIDs s2 = (Inr ids, s2)" "distinct ids"
    "\<forall>c. c \<in> set ids \<longleftrightarrow> c \<in> wp_client_id ` set (wgpeers s2) \<and>
       (\<exists>r. client_by_id c s2 = Some r \<and> Blocked (control_of s2 r))"
    using blocked_ids_ok [OF f2 w2] by blast
  have cut: "wp_client_id p \<in> set ids \<longleftrightarrow> is_cut s2 (wp_client_id p)" if "p \<in> set (wgpeers s2)" for p
    using that ids(3) by (auto simp: is_cut_def split: option.split)
  let ?c = "c\<lparr>co_store := s2\<rparr>"
  obtain ds where ds: "forC ids deprovisionClient ?c = (Inr (), ?c\<lparr>
     co_store := wgpeers_update (filter (\<lambda>r. wp_client_id r \<notin> set ids)) s2, co_calls := co_calls c @ ds\<rparr>)"
     "set ds = (\<Union>p \<in> {p \<in> set (wgpeers s2). wp_client_id p \<in> set ids}. set (drop_calls s2 p))"
    using deprovision_all_ok [of ?c ids] f2 ids(2) by auto
  have p: "filter (\<lambda>r. wp_client_id r \<notin> set ids) (wgpeers s2) = filter (\<lambda>p. \<not> is_cut s2 (wp_client_id p)) (wgpeers s2)"
    using cut by (auto intro: filter_cong)
  have "wgpeers_update (filter (\<lambda>r. wp_client_id r \<notin> set ids)) s2 =
      wgpeers_update (filter (\<lambda>p. \<not> is_cut s2 (wp_client_id p))) s2"
    using p by (cases s2) simp
  then show ?thesis
    using that [OF s2_def [symmetric] f2 w2, of ds] acc ds ids(1) cut
    by (simp add: enforceTrafficLimits_def bindC_app s2_def [symmetric] cong: conj_cong)
qed

text \<open>Enforcement. When the counters could be read, the collector removes the peers of every device that is
  cut off (disabled, or at its cap after the traffic was folded in and the due resets were run), of
  no other device, and changes nothing else of the database; the relay of every removed peer has
  been asked to delete it, unless a 3x-ui inbound holds it.\<close>

theorem enforcement_cuts_off:
  assumes f: "faults (co_store c) = []" and wf: "wf_store (co_store c)"
    and acc: "AccumulateClientTraffic (co_store c) = (Inr (), s1)" "faults s1 = []"
  shows "\<exists>c' s2. enforceTrafficLimits n c = (Inr (), c') \<and> s2 = snd (RunDueTrafficResets n s1) \<and>
    same_but_peers s2 (co_store c') \<and>
    (\<forall>p. p \<in> set (wgpeers (co_store c')) \<longleftrightarrow> p \<in> set (wgpeers s2) \<and> \<not> is_cut (co_store c') (wp_client_id p)) \<and>
    (\<forall>p m. p \<in> set (wgpeers s2) \<and> is_cut (co_store c') (wp_client_id p) \<and> node_by_id (wp_node_id p) s2 = Some m \<and>
       nd_wg_backend m \<noteq> WGBackendXUI \<longrightarrow> DeletePeer (nd_id m) (wp_public_key p) \<in> set (co_calls c'))"
proof -
  obtain s2 ds where E: "snd (RunDueTrafficResets n s1) = s2"
    "enforceTrafficLimits n c = (Inr (), c\<lparr>
       co_store := wgpeers_update (filter (\<lambda>p. \<not> is_cut s2 (wp_client_id p))) s2, co_calls := co_calls c @ ds\<rparr>)"
    "set ds = (\<Union>p \<in> {p \<in> set (wgpeers s2). is_cut s2 (wp_client_id p)}. set (drop_calls s2 p))"
    by (rule enforce_ok [OF f wf acc, of n]) blast
  show ?thesis
    by (intro exI conjI, rule E(2), rule E(1) [symmetric]) (auto simp: E(3) drop_calls_def)
qed

subsection \<open>Requests between two cycles\<close>

text \<open>What a request can do to the set of devices that hold peers: add the device of a request that passed.\<close>

definition peers_within :: "store \<Rightarrow> string set \<Rightarrow> store \<Rightarrow> bool" where
  "peers_within s X t \<longleftrightarrow> same_but_peers s t \<and> wp_client_id ` set (wgpeers t) \<subseteq> X"

lemma within_select: "faults s = [] \<Longrightarrow> preserves (peers_within s X) (select g)"
  "faults s = [] \<Longrightarrow> preserves (peers_within s X) (query_first h)"
  "faults s = [] \<Longrightarrow> preserves (peers_within s X) (find_row h)"
  using same_but_peersD(1)
  by (auto simp: preserves_def peers_within_def select_ok query_first_ok find_row_ok)

lemma within_upsert:
  assumes "faults s = []" "wp_client_id p \<in> X"
  shows "preserves (peers_within s X) (UpsertClientWGPeer p)"
proof (rule preservesI)
  fix t
  assume t: "peers_within s X t"
  then have "faults t = []" using assms(1) same_but_peersD(1) by (auto simp: peers_within_def)
  moreover have "wp_client_id ` set (upsert_one wg_key peer_upd r (wgpeers t)) \<subseteq> X" if "wp_client_id r \<in> X" for r
    using t that by (auto simp: upsert_one_def peers_within_def set_update_where)
  moreover have "same_but_peers s (wgpeers_update g t)" for g
    using t same_but_peers_trans [OF _ same_but_peersI] by (auto simp: peers_within_def)
  ultimately show "peers_within s X (snd (UpsertClientWGPeer p t))"
    using t assms(2) by (simp add: UpsertClientWGPeer_ok peers_within_def)
qed

lemma within_serve:
  assumes f: "faults s = []" and i: "rq_client_id rq \<in> X"
  shows "presP (peers_within s X) (serve_client E rq c n)"
proof -
  have rep: "presP (peers_within s X) (replicate_to E (rq_client_id rq) m p ns)" for m p ns
    by (induction ns) (use f i in \<open>auto intro!: presP_bind presP_case within_upsert simp: peer_record_def\<close>)
  have up: "preserves (peers_within s X) (UpsertClientWGPeer (peer_record (rq_client_id rq) m p))" for m p
    using within_upsert [OF f] i by (simp add: peer_record_def)
  show ?thesis
    unfolding serve_client_def report_peer_def mint_xui_def resolveXUITarget_def replicatePeer_def prov_response_def
      GetClientWGPeer_def GetServerNode_def GetAdminVKLinks_def ListServerNodes_def list_nodes_def
    by (intro presP_bind presP_case presP_Let presP_internal rep up presP_simps presP_simps(5) [THEN iffD2]
        within_select [OF f] pres_bindE pres_ret)
qed

definition serve_all :: "(crypto \<times> relays \<times> string list \<times> resolve_request) list \<Rightarrow> store \<Rightarrow> store" where
  "serve_all rqs s = fold (\<lambda>(C, E, h, rq) t. fst (snd (ResolveClientConfig C E h rq (t, [])))) rqs s"

lemma serve_one:
  assumes f: "faults s = []" and wf: "wf_store s" and off: "\<forall>p \<in> set (wgpeers s). \<not> is_cut s (wp_client_id p)"
    and t_def: "t = fst (snd (ResolveClientConfig C E h rq (s, cs)))"
  shows "same_but_peers s t \<and> wf_store t \<and> (\<forall>p \<in> set (wgpeers t). \<not> is_cut t (wp_client_id p))"
proof -
  have w: "wf_store t" using presP_Resolve wf unfolding presP_def t_def by blast
  show ?thesis
  proof (cases "provision_gate C s h rq")
    case (Inl e)
    then have "t = s" by (simp add: t_def resolve_refines_gate [OF f wf])
    then show ?thesis using w off by simp
  next
    case (Inr cn)
    obtain c n where cn: "cn = (c, n)" by fastforce
    let ?X = "insert (rq_client_id rq) (wp_client_id ` set (wgpeers s))"
    have "t = fst (snd (serve_client E rq (toStorageClient c) n (s, cs)))"
      using Inr cn by (simp add: t_def resolve_refines_gate [OF f wf])
    moreover have "peers_within s ?X s" by (auto simp: peers_within_def)
    ultimately have "peers_within s ?X t"
      using within_serve [OF f, of rq ?X E "toStorageClient c" n] unfolding presP_def by simp
    moreover have "\<not> is_cut s (rq_client_id rq)"
      using gate_passed [OF Inr [unfolded cn]] by (simp add: is_cut_def)
    ultimately show ?thesis using w off
      by (auto simp: peers_within_def same_but_peers_def)
  qed
qed


subsection \<open>Status of a node\<close>

lemma node_by_id_update:
  assumes "\<And>r. nd_id (f r) = nd_id r"
  shows "node_by_id i (nodes_update (update_where (\<lambda>r. nd_id r = j) f) s) =
    (if i = j then map_option f (node_by_id i s) else node_by_id i s)"
proof -
  have e: "node_by_id i (nodes_update (update_where (\<lambda>r. nd_id r = j) f) s) =
      map_option (\<lambda>r. if nd_id r = j then f r else r) (find (\<lambda>r. nd_id r = i) (nodes s))"
    unfolding node_by_id_def using find_update_where [of nd_id f i "\<lambda>r. nd_id r = j" "nodes s"] assms by simp
  have "nd_id r = i" if "find (\<lambda>r. nd_id r = i) (nodes s) = Some r" for r
    using that by (auto simp: find_Some_iff)
  then show ?thesis
    by (subst e) (cases "find (\<lambda>r. nd_id r = i) (nodes s)", auto simp: node_by_id_def)
qed

lemma status_update:
  assumes "faults s = []" "node_by_id i s = Some r"
  shows "faults (snd (UpdateServerNodeStatus i st l s)) = []"
    and "node_by_id i (snd (UpdateServerNodeStatus i st l s)) = Some (r\<lparr>nd_status := st, nd_last_seen_at := l\<rparr>)"
    and "clock (snd (UpdateServerNodeStatus i st l s)) = clock s"
  using assms
  by (simp_all add: UpdateServerNodeStatus_def update_node_def bindE_def update_rows_ok require_affected_def
      node_by_id_update)

lemma version_update:
  assumes "faults s = []" "node_by_id i s = Some r"
  shows "faults (snd (UpdateServerNodeRelayVersion i v s)) = []"
    and "\<exists>v'. node_by_id i (snd (UpdateServerNodeRelayVersion i v s)) = Some (r\<lparr>nd_relay_version := v'\<rparr>)"
    and "clock (snd (UpdateServerNodeRelayVersion i v s)) = clock s"
proof -
  have "r = r\<lparr>nd_relay_version := nd_relay_version r\<rparr>" by simp
  then show "\<exists>v'. node_by_id i (snd (UpdateServerNodeRelayVersion i v s)) = Some (r\<lparr>nd_relay_version := v'\<rparr>)"
    using assms by (auto simp: UpdateServerNodeRelayVersion_def update_node_def bindE_def update_rows_ok
        node_by_id_update intro: exI [of _ v] exI [of _ "nd_relay_version r"])
qed (use assms in \<open>simp_all add: UpdateServerNodeRelayVersion_def update_node_def bindE_def update_rows_ok\<close>)

text \<open>One poll between two persist cycles.\<close>

definition polled :: "collector \<Rightarrow> string \<Rightarrow> int \<Rightarrow> nat \<Rightarrow> string \<Rightarrow> int \<Rightarrow> bool" where
  "polled c i now k st l \<longleftrightarrow> faults (co_store c) = [] \<and> now_unix (co_store c) = now \<and> co_failures c i = k \<and>
     (\<exists>r. node_by_id i (co_store c) = Some r \<and> nd_status r = st \<and> nd_last_seen_at r = l)"

lemma poll_step:
  assumes "polled c (nd_id node) now k st l"
  shows "polled (snd (collectNode R opts node False c)) (nd_id node) now
    (if NodeStatus R node = None then k + 1 else 0)
    (if NodeStatus R node \<noteq> None then ''online'' else if k + 1 \<ge> offlineThreshold then ''offline'' else st)
    (if NodeStatus R node = None \<and> k + 1 < offlineThreshold then l else now)"
proof -
  obtain r where r: "faults (co_store c) = []" "now_unix (co_store c) = now" "co_failures c (nd_id node) = k"
    "node_by_id (nd_id node) (co_store c) = Some r" "nd_status r = st" "nd_last_seen_at r = l"
    using assms by (auto simp: polled_def)
  show ?thesis
  proof (cases "NodeStatus R node")
    case None
    then show ?thesis
      using r status_update [OF r(1,4)]
      by (simp add: polled_def collectNode_def missed_poll_def bindC_app now_unix_def)
  next
    case (Some status)
    let ?s1 = "snd (UpdateServerNodeRelayVersion (nd_id node) (Version status) (co_store c))"
    obtain v' where v: "node_by_id (nd_id node) ?s1 = Some (r\<lparr>nd_relay_version := v'\<rparr>)" "faults ?s1 = []" "clock ?s1 = clock (co_store c)"
      using version_update [OF r(1,4)] by blast
    show ?thesis
      using Some r v status_update [OF v(2,1)]
      by (simp add: polled_def collectNode_def bindC_app storeC_app now_unix_def)
  qed
qed

fun polls :: "relay_view list \<Rightarrow> options \<Rightarrow> node_row \<Rightarrow> collector \<Rightarrow> collector" where
  "polls [] opts node c = c"
| "polls (R # Rs) opts node c = polls Rs opts node (snd (collectNode R opts node False c))"

lemma polls_snoc: "polls (Rs @ [R]) opts node c = snd (collectNode R opts node False (polls Rs opts node c))"
  by (induction Rs arbitrary: c) simp_all

definition misses :: "relay_view list \<Rightarrow> node_row \<Rightarrow> nat" where
  "misses Rs node = length (takeWhile (\<lambda>R. NodeStatus R node = None) (rev Rs))"

text \<open>Status has hysteresis. After any sequence of polls the counter is the number of misses since the last
  answer; the node is shown offline exactly from the third miss in a row on and online again with
  the first answer, and a shorter run of misses leaves the status as it was. A miss that shows the
  node offline also sets its last-seen time to the time of the miss.\<close>

theorem status_hysteresis:
  assumes "polled c (nd_id node) now 0 st l" "Rs \<noteq> []"
  shows "\<exists>l'. polled (polls Rs opts node c) (nd_id node) now (misses Rs node)
     (if misses Rs node \<ge> 3 then ''offline'' else if misses Rs node < length Rs then ''online'' else st) l' \<and>
     (misses Rs node \<ge> 3 \<longrightarrow> l' = now)"
proof -
  have "\<exists>l'. polled (polls Rs opts node c) (nd_id node) now (misses Rs node)
     (if misses Rs node \<ge> 3 then ''offline'' else if misses Rs node < length Rs then ''online'' else st) l' \<and>
     (misses Rs node \<ge> 3 \<longrightarrow> l' = now)"
  proof (induction Rs rule: rev_induct)
    case Nil
    then show ?case using assms(1) by (auto simp: misses_def)
  next
    case (snoc R Rs)
    then obtain l' where IH: "polled (polls Rs opts node c) (nd_id node) now (misses Rs node)
       (if misses Rs node \<ge> 3 then ''offline'' else if misses Rs node < length Rs then ''online'' else st) l'" by blast
    have m: "misses (Rs @ [R]) node = (if NodeStatus R node = None then misses Rs node + 1 else 0)"
      by (simp add: misses_def)
    show ?case
      using poll_step [OF IH, of R opts]
      by (intro exI [of _ "if NodeStatus R node = None \<and> misses Rs node + 1 < offlineThreshold then l' else now"],
          unfold polls_snoc m) (auto simp: offlineThreshold_def split: if_splits)
  qed
  then show ?thesis .
qed

subsection \<open>A cycle and the invariant of the store\<close>

definition presC :: "(store \<Rightarrow> bool) \<Rightarrow> 'a col \<Rightarrow> bool" where
  "presC I m \<longleftrightarrow> (\<forall>c. I (co_store c) \<longrightarrow> I (co_store (snd (m c))))"

lemma presC_basic: "presC I (retC x)" "presC I (failC e)" "presC I (getC g)" "presC I (tryC m) \<longleftrightarrow> preserves I m"
  "presC I (tolerate n) \<longleftrightarrow> presC I n" "presC I (emit b ev)"
  by (auto simp: presC_def preserves_def emit_def) (metis collector.select_convs(1))

lemma presC_updC: "(\<And>c. co_store (f c) = co_store c) \<Longrightarrow> presC I (updC f)"
  by (simp add: presC_def)

lemma presC_bind: "presC I m \<Longrightarrow> (\<And>x. presC I (k x)) \<Longrightarrow> presC I (bindC m k)"
  by (auto simp: presC_def bindC_app split: sum.split)

lemma presC_case:
  "(\<And>x. presC I (a x)) \<Longrightarrow> (\<And>x. presC I (b x)) \<Longrightarrow> presC I (case q of Inl x \<Rightarrow> a x | Inr x \<Rightarrow> b x)"
  "presC I c \<Longrightarrow> (\<And>x. presC I (b x)) \<Longrightarrow> presC I (case o' of None \<Rightarrow> c | Some x \<Rightarrow> b x)"
  "presC I c \<Longrightarrow> presC I d \<Longrightarrow> presC I (if g then c else d)"
  "(\<And>x y. presC I (e x y)) \<Longrightarrow> presC I (case pq of (x, y) \<Rightarrow> e x y)"
  by (auto split: sum.split option.split prod.split)

lemma presC_storeC: "preserves I m \<Longrightarrow> presC I (storeC m)"
  unfolding storeC_def by (intro presC_bind presC_case presC_basic) (simp add: presC_basic)

lemma presC_relayC: "presC I (relayC r)"
  unfolding relayC_def by (intro presC_case presC_basic)

lemma presC_forC: "(\<And>x. presC I (f x)) \<Longrightarrow> presC I (forC xs f)"
  by (induction xs) (simp_all add: presC_basic presC_bind)

lemmas presC_intros = presC_bind presC_case presC_storeC presC_relayC presC_forC presC_basic(1-3,6)
  presC_basic(4) [THEN iffD2] presC_basic(5) [THEN iffD2] presC_updC

lemma collector_reads_pres:
  "preserves wf_store (ListClientWGPeers i)" "preserves wf_store BlockedProvisionedClientIDs"
  "preserves wf_store (ListServerNodes kind)" "preserves wf_store (GetServerNode n)"
  by (auto simp: ListClientWGPeers_def BlockedProvisionedClientIDs_def ListServerNodes_def list_nodes_def
      GetServerNode_def intro!: pres)

lemma presC_collectNode: "presC wf_store (collectNode R opts node persist)"
  unfolding collectNode_def missed_poll_def persist_node_def by (intro presC_intros pres; simp)

lemma CollectOnce_wf: "presC wf_store (CollectOnce R opts)"
  unfolding CollectOnce_def enforceTrafficLimits_def deprovisionClient_def drop_peer_def
  by (intro presC_intros presC_collectNode pres collector_reads_pres; simp)

subsection \<open>What a cycle records\<close>

text \<open>What the database keeps of a node's traffic, without the generated ids: its samples, the flows
  that run through it, and its running totals.\<close>

definition node_book :: "string \<Rightarrow> store \<Rightarrow> sample_row list \<times> flow_row list \<times> node_total_row option" where
  "node_book n s =
    (map (ts_id_update (\<lambda>_. 0)) (filter (\<lambda>r. ts_node_id r = n) (samples s)),
     map (fl_id_update (\<lambda>_. 0)) (filter (\<lambda>r. fl_node_id r = n) (flows s)), node_total_of n s)"

definition on_book :: "string \<Rightarrow> int \<Rightarrow> sample_row list \<times> flow_row list \<times> node_total_row option \<Rightarrow> store \<Rightarrow> bool" where
  "on_book n t B s \<longleftrightarrow> faults s = [] \<and> clock s = t \<and> node_book n s = B"

named_theorems book "operations that leave the book of a node as it is"

lemma book_stmt: "(\<And>s. on_book n t B s \<Longrightarrow> on_book n t B (snd (f s))) \<Longrightarrow> preserves (on_book n t B) (stmt f)"
  by (simp add: preserves_def on_book_def stmt_ok)

lemma book_reads [book]: "preserves (on_book n t B) (select g)" "preserves (on_book n t B) (query_first h)"
    "preserves (on_book n t B) (find_row h)"
  by (simp_all add: preserves_def on_book_def select_ok query_first_ok find_row_ok)

lemma book_writes [book]:
  assumes "\<And>g s. on_book n t B (put g s) = on_book n t B s"
  shows "preserves (on_book n t B) (update_rows get put P f)" "preserves (on_book n t B) (delete_rows get put P)"
    "preserves (on_book n t B) (insert_row put ok r)" "preserves (on_book n t B) (upsert_rows put key upd okr rows)"
  unfolding update_rows_def delete_rows_def insert_row_def upsert_rows_def
  by (rule book_stmt; simp add: assms)+

lemma book_transaction [book]:
  assumes m: "preserves (on_book n t B) m"
  shows "preserves (on_book n t B) (transaction m)"
proof (rule preservesI)
  fix s assume s: "on_book n t B s"
  then have f: "faults s = []" by (simp add: on_book_def)
  obtain r s2 where r: "m s = (r, s2)" by fastforce
  then have s2: "on_book n t B s2" using preservesD [OF m s] by simp
  then have "faults s2 = []" by (simp add: on_book_def)
  moreover have "on_book n t B (s\<lparr>faults := []\<rparr>)" using s by (simp add: on_book_def node_book_def node_total_of_def)
  ultimately show "on_book n t B (snd (transaction m s))"
    using s s2 r f by (cases r) (simp_all add: transaction_def stmt_ok)
qed

lemma on_book_put [simp]:
  "on_book n t B (nodes_update g s) = on_book n t B s" "on_book n t B (ptraffic_update h s) = on_book n t B s"
  "on_book n t B (connections_update c s) = on_book n t B s" "on_book n t B (connections_seq_update q s) = on_book n t B s"
  "on_book n t B (ctraffic_update u s) = on_book n t B s" "on_book n t B (wgpeers_update w s) = on_book n t B s"
  by (simp_all add: on_book_def node_book_def node_total_of_def)

lemmas book_intros = book pres_ret pres_Pair pres_fail pres_asks pres_bindE pres_attempt pres_if pres_option pres_sum
  pres_prod pres_let pres_forE pres_record_case

text \<open>Everything the collector does beside the samples, the totals and the flows.\<close>

lemma book_beside [book]:
  "preserves (on_book n t B) (UpdateServerNodeStatus i st l)" "preserves (on_book n t B) (UpdateServerNodeRelayVersion i v)"
  "preserves (on_book n t B) (RecordConnections cs)" "preserves (on_book n t B) (UpsertPeerTraffic ps)"
  unfolding UpdateServerNodeStatus_def UpdateServerNodeRelayVersion_def update_node_def require_affected_def
    RecordConnections_def UpsertPeerTraffic_def Let_def
  by (intro book_intros; simp)+

lemma book_sums [book]: "preserves (on_book n t B) (sumClientPeerTraffic c)"
  unfolding sumClientPeerTraffic_def by (rule book_stmt) simp

lemma book_reset_due: "preserves (on_book n t B) (reset_due now due acc)"
proof (induction due arbitrary: acc)
  case (Cons row due)
  show ?case
    unfolding reset_due.simps save_traffic_def by (intro book book_intros Cons.IH; simp)
qed simp

lemma book_enforce: "presC (on_book n t B) (enforceTrafficLimits now)"
proof -
  have acc: "preserves (on_book n t B) AccumulateClientTraffic"
    unfolding AccumulateClientTraffic_def accumulate_one_def create_traffic_def save_traffic_def
    by (intro book_intros book_stmt; simp)
  have due: "preserves (on_book n t B) (RunDueTrafficResets now)"
    unfolding RunDueTrafficResets_def by (intro book book_intros book_reset_due)
  have rd: "preserves (on_book n t B) BlockedProvisionedClientIDs" "preserves (on_book n t B) (ListClientWGPeers i)"
    "preserves (on_book n t B) (GetServerNode j)" "preserves (on_book n t B) (DeleteClientWGPeer i j)" for i j
    unfolding BlockedProvisionedClientIDs_def ListClientWGPeers_def GetServerNode_def DeleteClientWGPeer_def
      require_affected_def
    by (intro book_intros; simp)+
  show ?thesis
    unfolding enforceTrafficLimits_def deprovisionClient_def drop_peer_def
    by (intro presC_intros acc due rd; simp)
qed

text \<open>The three tables of the book.\<close>

definition grown :: "string \<Rightarrow> u64 \<Rightarrow> u64 \<Rightarrow> node_total_row option \<Rightarrow> node_total_row" where
  "grown n rx tx q = (case q of
     None \<Rightarrow> \<lparr>nt_node_id = n, nt_rx_total = 0, nt_tx_total = 0, nt_last_rx = rx, nt_last_tx = tx\<rparr>
   | Some r \<Rightarrow> r\<lparr>nt_rx_total := nt_rx_total r + gain (nt_last_rx r) rx, nt_tx_total := nt_tx_total r + gain (nt_last_tx r) tx,
                nt_last_rx := rx, nt_last_tx := tx\<rparr>)"

lemma AccumulateNodeTraffic_ok:
  assumes f: "faults s = []"
  shows "\<exists>nt. snd (AccumulateNodeTraffic n rx tx s) = s\<lparr>ntotals := nt\<rparr> \<and>
    (\<forall>i. node_total_of i (s\<lparr>ntotals := nt\<rparr>) = (if i = n then Some (grown n rx tx (node_total_of n s)) else node_total_of i s))"
proof (cases "node_total_of n s")
  case None
  let ?r = "\<lparr>nt_node_id = n, nt_rx_total = 0, nt_tx_total = 0, nt_last_rx = rx, nt_last_tx = tx\<rparr>"
  have no: "n \<notin> nt_node_id ` set (ntotals s)" using None by (auto simp: node_total_of_def find_None_iff)
  have "AccumulateNodeTraffic n rx tx s = (Inr (), s\<lparr>ntotals := ntotals s @ [?r]\<rparr>)"
    unfolding AccumulateNodeTraffic_def
    by (rule transaction_InrI) (simp_all add: f None no bindE_def attempt_app query_first_ok insert_row_ok)
  moreover have "node_total_of i (s\<lparr>ntotals := ntotals s @ [?r]\<rparr>) =
      (if i = n then Some ?r else node_total_of i s)" for i
  proof -
    have "find (\<lambda>r. nt_node_id r = i) (rs @ [?r]) = (if i = n \<and> n \<notin> nt_node_id ` set rs then Some ?r
        else find (\<lambda>r. nt_node_id r = i) rs)" for rs by (induction rs) auto
    then show ?thesis using no by (simp add: node_total_of_def)
  qed
  ultimately show ?thesis using None by (intro exI [of _ "ntotals s @ [?r]"]) (simp add: grown_def)
next
  case (Some row)
  let ?nt = "upsert_one nt_node_id node_total_upd (node_step (rx, tx) row) (ntotals s)"
  have id: "nt_node_id row = n" by (rule node_total_id [OF Some])
  have "AccumulateNodeTraffic n rx tx s = (Inr (), s\<lparr>ntotals := ?nt\<rparr>)"
    unfolding AccumulateNodeTraffic_def
    by (rule transaction_InrI) (simp_all add: f Some bindE_def attempt_app query_first_ok upsert_rows_ok)
  moreover have "node_step (rx, tx) row = grown n rx tx (Some row)"
    by (simp add: node_step_def grown_def gain_def Let_def)
  moreover have "node_total_of i (s\<lparr>ntotals := ?nt\<rparr>) = (if i = n then Some (node_step (rx, tx) row) else node_total_of i s)" for i
    using Some id by (simp add: node_total_of_def node_total_table.find_upsert_one node_total_upd_def)
  ultimately show ?thesis using Some by (intro exI [of _ ?nt]) simp
qed

lemma ReplaceFlows_ok:
  assumes f: "faults s = []"
  shows "\<exists>fl q. ReplaceFlows n rows s = (Inr (), s\<lparr>flows := fl, flows_seq := q\<rparr>) \<and>
    map (fl_id_update (\<lambda>_. 0)) fl = map (fl_id_update (\<lambda>_. 0)) (filter (\<lambda>r. fl_node_id r \<noteq> n) (flows s) @ rows)"
proof -
  have ins: "\<exists>fl q. forE bs insert_flows t = (Inr (), t\<lparr>flows := fl, flows_seq := q\<rparr>)" if "faults t = []" for bs t
    using that
  proof (induction bs arbitrary: t)
    case Nil
    show ?case by (intro exI [of _ "flows t"] exI [of _ "flows_seq t"]) (cases t; simp add: ret_def)
  next
    case (Cons b bs)
    let ?t = "t\<lparr>flows := flows t @ map (\<lambda>(i, r). r\<lparr>fl_id := i\<rparr>)
        (zip [flows_seq t .. flows_seq t + int (length b) - 1] b), flows_seq := flows_seq t + int (length b)\<rparr>"
    obtain fl q where "forE bs insert_flows ?t = (Inr (), ?t\<lparr>flows := fl, flows_seq := q\<rparr>)"
      using Cons.IH [of ?t] Cons.prems by auto
    moreover have "insert_flows b t = (Inr (), ?t)" using Cons.prems by (simp add: insert_flows_def exec_ok)
    ultimately show ?case by (auto simp: bindE_def)
  qed
  let ?s1 = "flows_update (filter (\<lambda>r. fl_node_id r \<noteq> n)) s"
  have "\<exists>fl q. (if rows = [] then ret () else forE (batches 100 rows) insert_flows) ?s1 =
      (Inr (), ?s1\<lparr>flows := fl, flows_seq := q\<rparr>)"
  proof (cases "rows = []")
    case True
    then show ?thesis by (intro exI [of _ "flows ?s1"] exI [of _ "flows_seq ?s1"]) (cases s; simp add: ret_def)
  next
    case False
    then show ?thesis using ins [of ?s1 "batches 100 rows"] f by auto
  qed
  then obtain fl q where fl: "(if rows = [] then ret () else forE (batches 100 rows) insert_flows) ?s1 =
      (Inr (), ?s1\<lparr>flows := fl, flows_seq := q\<rparr>)" by blast
  have run: "ReplaceFlows n rows s = (Inr (), s\<lparr>flows := fl, flows_seq := q\<rparr>)"
    unfolding ReplaceFlows_def
    by (rule transaction_InrI) (use f fl in \<open>simp_all add: bindE_def delete_rows_ok\<close>)
  then show ?thesis using replace_flows_atomic [where n = n and rows = rows and s = s] by auto
qed

text \<open>A poll leaves the books of the other nodes alone.\<close>

lemma book_sample: "ts_node_id r \<noteq> n \<Longrightarrow> preserves (on_book n t B) (InsertTrafficSample r)"
  by (simp add: preserves_def on_book_def InsertTrafficSample_def bindE_def exec_ok node_book_def node_total_of_def)

lemma book_totals: "i \<noteq> n \<Longrightarrow> preserves (on_book n t B) (AccumulateNodeTraffic i rx tx)"
proof (rule preservesI)
  fix s assume i: "i \<noteq> n" and s: "on_book n t B s"
  then have f: "faults s = []" by (simp add: on_book_def)
  obtain nt where "snd (AccumulateNodeTraffic i rx tx s) = s\<lparr>ntotals := nt\<rparr>" "node_total_of n (s\<lparr>ntotals := nt\<rparr>) = node_total_of n s"
    using AccumulateNodeTraffic_ok [OF f, of i rx tx] i by metis
  then show "on_book n t B (snd (AccumulateNodeTraffic i rx tx s))" using s by (simp add: on_book_def node_book_def)
qed

lemma zeroed_flows:
  "map (fl_id_update (\<lambda>_. 0)) xs = map (fl_id_update (\<lambda>_. 0)) ys \<Longrightarrow>
   map (fl_id_update (\<lambda>_. 0)) (filter (\<lambda>r. fl_node_id r = n) xs) = map (fl_id_update (\<lambda>_. 0)) (filter (\<lambda>r. fl_node_id r = n) ys)"
proof (induction xs ys rule: list_induct2')
  case (4 x xs y ys)
  then have "fl_id_update (\<lambda>_. 0) x = fl_id_update (\<lambda>_. 0) y" by simp
  then have "fl_node_id x = fl_node_id y" by (metis flow_row.select_convs(2) flow_row.surjective flow_row.update_convs(1))
  then show ?case using 4 by simp
qed simp_all

lemma flows_book:
  assumes f: "faults s = []" and rows: "\<forall>r \<in> set rows. fl_node_id r = i \<and> fl_id r = 0"
  shows "\<exists>fl q. ReplaceFlows i rows s = (Inr (), s\<lparr>flows := fl, flows_seq := q\<rparr>) \<and>
    (\<forall>n. map (fl_id_update (\<lambda>_. 0)) (filter (\<lambda>r. fl_node_id r = n) fl) =
       (if n = i then rows else map (fl_id_update (\<lambda>_. 0)) (filter (\<lambda>r. fl_node_id r = n) (flows s))))"
proof -
  obtain fl q where r: "ReplaceFlows i rows s = (Inr (), s\<lparr>flows := fl, flows_seq := q\<rparr>)"
    "map (fl_id_update (\<lambda>_. 0)) fl = map (fl_id_update (\<lambda>_. 0)) (filter (\<lambda>r. fl_node_id r \<noteq> i) (flows s) @ rows)"
    using ReplaceFlows_ok [OF f] by blast
  have z: "map (fl_id_update (\<lambda>_. 0)) rows = rows" using rows by (auto intro: map_idI)
  have "filter (\<lambda>r. fl_node_id r = n) (filter (\<lambda>r. fl_node_id r \<noteq> i) (flows s) @ rows) =
      (if n = i then rows else filter (\<lambda>r. fl_node_id r = n) (flows s))" for n
    using rows by (auto simp: filter_empty_conv intro!: filter_cong filter_True)
  then show ?thesis using r zeroed_flows [OF r(2)] z by (intro exI [of _ fl] exI [of _ q]) simp
qed

lemma book_flows:
  assumes "\<forall>r \<in> set rows. fl_node_id r = i \<and> fl_id r = 0" "i \<noteq> n"
  shows "preserves (on_book n t B) (ReplaceFlows i rows)"
proof (rule preservesI)
  fix s assume s: "on_book n t B s"
  then have f: "faults s = []" by (simp add: on_book_def)
  then show "on_book n t B (snd (ReplaceFlows i rows s))"
    using flows_book [OF f assms(1)] assms(2) s by (auto simp: on_book_def node_book_def node_total_of_def)
qed

lemma snapshots: "\<forall>r \<in> set (map (snapshot_for i now) fs). fl_node_id r = i \<and> fl_id r = 0"
  by (auto simp: snapshot_for_def)

lemma book_other:
  assumes "nd_id m \<noteq> n"
  shows "presC (on_book n t B) (collectNode R opts m persist)"
  unfolding collectNode_def missed_poll_def persist_node_def
  by (intro presC_intros book_beside book_sample book_totals book_flows snapshots)
    (simp_all add: assms sample_for_def)

text \<open>What the relay of a node answered of its traffic: all three calls, or nothing.\<close>

definition heard :: "relay_view \<Rightarrow> node_row \<Rightarrow> (relay_status \<times> flow_stats \<times> relay_flow list) option" where
  "heard R m = (case (NodeStatus R m, FlowStats R m, RelayFlows R m) of
     (Some st, Some stats, Some fs) \<Rightarrow> Some (st, stats, fs) | _ \<Rightarrow> None)"

definition booked :: "string \<Rightarrow> int \<Rightarrow> (relay_status \<times> flow_stats \<times> relay_flow list) option \<Rightarrow>
    sample_row list \<times> flow_row list \<times> node_total_row option \<Rightarrow> sample_row list \<times> flow_row list \<times> node_total_row option" where
  "booked i now report b = (case report of None \<Rightarrow> b
     | Some (st, stats, fs) \<Rightarrow> (fst b @ [sample_for i now st stats], map (snapshot_for i now) fs,
         Some (grown i (ServerRxBytes stats) (ServerTxBytes stats) (snd (snd b)))))"

lemma bindC_relay [simp]: "bindC (relayC None) k = failC RelayError" "bindC (relayC (Some x)) k = k x"
  by (simp_all add: fun_eq_iff relayC_def bindC_app)

lemma book_unanswered:
  assumes "heard R m = None"
  shows "presC (on_book n t B) (collectNode R opts m True)"
proof (cases "NodeStatus R m = None \<or> FlowStats R m = None \<or> RelayFlows R m = None")
  case True
  then show ?thesis
    unfolding collectNode_def missed_poll_def persist_node_def
    by (elim disjE; cases "FlowStats R m"; cases "RelayFlows R m"; cases "NodeStatus R m"; simp;
        (intro presC_intros book_beside; simp)?; simp add: presC_def)
qed (use assms in \<open>auto simp: heard_def split: option.splits\<close>)

lemma book_tail:
  "presC (on_book n t B) (bindC (storeC (RecordConnections cs)) (\<lambda>_.
     bindC (case ListPeers R m of None \<Rightarrow> retC ()
            | Some ps \<Rightarrow> bindC (tryC (UpsertPeerTraffic (map (peer_traffic_for (nd_id m) now) ps))) (\<lambda>_. retC ())) (\<lambda>_.
     bindC (storeC (UpdateServerNodeStatus (nd_id m) ''online'' now)) (\<lambda>_. emit b ev))))"
  by (intro presC_intros book_beside)

lemma three_books:
  assumes f: "on_book i t b s" "now = now_unix s" "sample = sample_for i now st stats" "rows = map (snapshot_for i now) fs"
  defines "s1 \<equiv> snd (InsertTrafficSample sample s)"
  defines "s2 \<equiv> snd (AccumulateNodeTraffic i (ServerRxBytes stats) (ServerTxBytes stats) s1)"
  shows "fst (InsertTrafficSample sample s) = Inr () \<and> fst (ReplaceFlows i rows s2) = Inr () \<and>
    on_book i t (booked i now (Some (st, stats, fs)) b) (snd (ReplaceFlows i rows s2))"
proof -
  have s: "faults s = []" using f(1) by (simp add: on_book_def)
  have s1: "InsertTrafficSample sample s = (Inr (), s1)"
      "s1 = s\<lparr>samples := samples s @ [sample\<lparr>ts_id := samples_seq s\<rparr>], samples_seq := samples_seq s + 1\<rparr>"
    using s f(2,3) by (simp_all add: s1_def InsertTrafficSample_def bindE_def exec_ok sample_for_def)
  obtain nt where nt: "s2 = s1\<lparr>ntotals := nt\<rparr>"
      "node_total_of i s2 = Some (grown i (ServerRxBytes stats) (ServerTxBytes stats) (node_total_of i s1))"
    using AccumulateNodeTraffic_ok [of s1 i "ServerRxBytes stats" "ServerTxBytes stats"] s s1(2) unfolding s2_def by auto
  have "faults s2 = []" using s s1(2) nt(1) by simp
  then obtain fl q where fl: "ReplaceFlows i rows s2 = (Inr (), s2\<lparr>flows := fl, flows_seq := q\<rparr>)"
    "map (fl_id_update (\<lambda>_. 0)) (filter (\<lambda>r. fl_node_id r = i) fl) = rows"
    using flows_book [OF _ snapshots [of i now fs], of s2] unfolding f(4) by (metis (no_types, lifting))
  let ?s3 = "s2\<lparr>flows := fl, flows_seq := q\<rparr>"
  have tot: "node_total_of i ?s3 = Some (grown i (ServerRxBytes stats) (ServerTxBytes stats) (node_total_of i s))"
    using nt(2) by (simp add: node_total_of_def s1(2))
  have smp: "samples ?s3 = samples s @ [sample\<lparr>ts_id := samples_seq s\<rparr>]" "faults ?s3 = []" "clock ?s3 = t" "flows ?s3 = fl"
    using nt(1) s s1(2) f(1) by (simp_all add: on_book_def)
  have "ts_node_id sample = i" "sample\<lparr>ts_id := 0\<rparr> = sample" by (simp_all add: f(3) sample_for_def)
  then have "node_book i ?s3 = booked i now (Some (st, stats, fs)) (node_book i s)"
    unfolding node_book_def tot smp by (simp add: fl(2) f(3,4) booked_def)
  then show ?thesis using f(1) s1(1) fl(1) smp(2,3) by (simp add: on_book_def)
qed

lemma emit_app: "emit b e c = (Inr (), c\<lparr>co_events := co_events c @ (if b then [e] else [])\<rparr>)"
  by (cases c) (simp add: emit_def)

lemma book_own:
  assumes b: "on_book (nd_id m) t b (co_store c)" and r: "heard R m = Some (st, stats, fs)"
  shows "on_book (nd_id m) t (booked (nd_id m) (t div 1000) (Some (st, stats, fs)) b) (co_store (snd (collectNode R opts m True c)))"
proof -
  have a: "NodeStatus R m = Some st" "FlowStats R m = Some stats" "RelayFlows R m = Some fs"
    using r by (auto simp: heard_def split: option.splits)
  define s0 where "s0 = snd (UpdateServerNodeRelayVersion (nd_id m) (Version st) (co_store c))"
  have s0: "on_book (nd_id m) t b s0" using preservesD [OF book_beside(2) b] by (simp add: s0_def)
  have now: "now_unix (co_store c) = t div 1000" "t div 1000 = now_unix s0" using b s0 by (simp_all add: on_book_def now_unix_def)
  note T = three_books [OF s0 now(2) refl refl, of st stats fs]
  let ?c = "c\<lparr>co_failures := (co_failures c)(nd_id m := 0), co_store := s0\<rparr>" and ?now = "t div 1000"
  define K where "K = bindC (storeC (RecordConnections (map (connection_for (nd_id m) ?now) fs))) (\<lambda>_.
     bindC (case ListPeers R m of None \<Rightarrow> retC ()
            | Some ps \<Rightarrow> bindC (tryC (UpsertPeerTraffic (map (peer_traffic_for (nd_id m) ?now) ps))) (\<lambda>_. retC ())) (\<lambda>_.
     bindC (storeC (UpdateServerNodeStatus (nd_id m) ''online'' ?now)) (\<lambda>_. emit (OnCollected opts) (Collected (nd_id m)))))"
  have "collectNode R opts m True c = persist_node R opts m ?now st ?c"
    by (simp add: collectNode_def a bindC_app now(1) s0_def)
  also have "\<exists>c4. persist_node R opts m ?now st ?c = K c4 \<and>
      on_book (nd_id m) t (booked (nd_id m) ?now (Some (st, stats, fs)) b) (co_store c4)"
    unfolding persist_node_def a(2,3) bindC_relay K_def [symmetric] using T
    by (simp add: bindC_app storeC_app emit_app) (intro conjI impI; rule exI; rule conjI [OF refl]; simp)
  finally obtain c4 where "collectNode R opts m True c = K c4"
    "on_book (nd_id m) t (booked (nd_id m) ?now (Some (st, stats, fs)) b) (co_store c4)" by blast
  moreover have "presC (on_book (nd_id m) t B) K" for B unfolding K_def by (rule book_tail)
  ultimately show ?thesis by (simp add: presC_def)
qed

lemma book_poll:
  assumes "on_book (nd_id m) t b (co_store c)"
  shows "on_book (nd_id m) t (booked (nd_id m) (t div 1000) (heard R m) b) (co_store (snd (collectNode R opts m True c)))"
proof (cases "heard R m")
  case None
  then show ?thesis using book_unanswered [OF None, of "nd_id m" t b opts] assms by (simp add: presC_def booked_def)
next
  case (Some q)
  then show ?thesis using book_own [OF assms] by (cases q) simp
qed

lemma forC_pass: "forC (m # ns) (\<lambda>m. tolerate (g m)) c = forC ns (\<lambda>m. tolerate (g m)) (snd (g m c))"
  by (simp only: forC.simps bindC_app col_app prod.sel sum.case)

lemma book_others:
  "n \<notin> nd_id ` set ns \<Longrightarrow> presC (on_book n t b) (forC ns (\<lambda>m. tolerate (collectNode R opts m persist)))"
proof (induction ns)
  case (Cons m ns)
  then have "presC (on_book n t b) (collectNode R opts m persist)" by (intro book_other) auto
  moreover have "presC (on_book n t b) (forC ns (\<lambda>m. tolerate (collectNode R opts m persist)))" 
    by (rule Cons.IH) (use Cons.prems in auto)
  ultimately show ?case unfolding presC_def forC_pass by blast
qed (simp add: presC_basic)

text \<open>The pass over the relays: whatever the others do, each book is brought up to date by its own.\<close>

lemma book_pass:
  assumes "distinct (map nd_id ns)" "on_book i t b (co_store c)"
  shows "on_book i t (booked i (t div 1000) (case find (\<lambda>m. nd_id m = i) ns of None \<Rightarrow> None | Some m \<Rightarrow> heard R m) b)
    (co_store (snd (forC ns (\<lambda>m. tolerate (collectNode R opts m True)) c)))"
  using assms
proof (induction ns arbitrary: c)
  case Nil
  then show ?case by (simp add: booked_def)
next
  case (Cons m ns)
  show ?case
  proof (cases "nd_id m = i")
    case True
    then have "on_book i t (booked i (t div 1000) (heard R m) b) (co_store (snd (collectNode R opts m True c)))"
      using book_poll [of m t b c R opts] Cons.prems(2) by simp
    moreover have "i \<notin> nd_id ` set ns" using Cons.prems(1) True by auto
    ultimately show ?thesis
      using book_others [of i ns t _ R opts True] True unfolding presC_def forC_pass by simp
  next
    case False
    then have "on_book i t b (co_store (snd (collectNode R opts m True c)))"
      using book_other [of m i t b R opts True] Cons.prems(2) by (simp add: presC_def)
    moreover have "find (\<lambda>m. nd_id m = i) (m # ns) = find (\<lambda>m. nd_id m = i) ns" using False by simp
    moreover have "distinct (map nd_id ns)" using Cons.prems(1) by simp
    ultimately show ?thesis using Cons.IH unfolding forC_pass by metis
  qed
qed

lemma enforce_completes: "fst (enforceTrafficLimits n c) = Inr ()"
proof -
  have drop: "fst (forC ps (drop_peer i) c) = Inr ()" for ps i c
    by (induction ps arbitrary: c) (auto simp: bindC_app drop_peer_def split: sum.split)
  have cl: "fst (deprovisionClient i c) = Inr ()" for i c
    by (auto simp: deprovisionClient_def bindC_app drop split: sum.split)
  have "fst (forC is deprovisionClient c) = Inr ()" for "is" c
    by (induction "is" arbitrary: c) (simp_all add: bindC_app cl)
  then show ?thesis by (auto simp: enforceTrafficLimits_def bindC_app split: sum.split)
qed

lemma pass_completes: "fst (forC ns (\<lambda>m. tolerate (collectNode R opts m b)) c) = Inr ()"
  by (induction ns arbitrary: c) (simp_all add: bindC_app)

lemma book_prune:
  assumes "on_book i t b s"
  shows "on_book i t (filter (\<lambda>r. \<not> ts_ts r < cutoff) (fst b), snd b) (snd (PruneTrafficBefore cutoff s))"
proof -
  have z: "map (ts_id_update (\<lambda>_. 0)) (filter (\<lambda>r. ts_node_id r = i) (filter (\<lambda>r. \<not> ts_ts r < cutoff) xs)) =
      filter (\<lambda>r. \<not> ts_ts r < cutoff) (map (ts_id_update (\<lambda>_. 0)) (filter (\<lambda>r. ts_node_id r = i) xs))" for xs
    by (induction xs) auto
  show ?thesis
    using assms by (auto simp: on_book_def PruneTrafficBefore_def bindE_def delete_rows_ok node_book_def node_total_of_def z [unfolded filter_filter])
qed

lemma book_prune_connections: "preserves (on_book i t b) (PruneConnectionsBefore cutoff)"
  unfolding PruneConnectionsBefore_def by (intro book_intros; simp)

lemma cycle_book:
  fixes R :: relay_view
  assumes f: "faults (co_store c) = []" and wf: "wf_store (co_store c)" and due: "persist_due opts c"
    and n: "n \<in> set (nodes (co_store c))"
  defines "i \<equiv> nd_id n" and "t \<equiv> clock (co_store c)"
  defines "b \<equiv> booked i (t div 1000) (if nd_kind n = ServerNodeVKTurnProxy then heard R n else None) (node_book i (co_store c))"
  shows "node_book i (co_store (snd (CollectOnce R opts c))) =
    (filter (\<lambda>r. \<not> ts_ts r < (t - TrafficRetention opts) div 1000) (fst b), snd b)"
proof -
  let ?P = "\<lambda>m. nd_kind m = ServerNodeVKTurnProxy"
  define ns where "ns = sort_key nd_created_at (filter ?P (nodes (co_store c)))"
  have ls: "ListServerNodes ServerNodeVKTurnProxy (co_store c) = (Inr ns, co_store c)"
    using f by (simp add: ListServerNodes_def list_nodes_def select_ok ns_def ServerNodeVKTurnProxy_def)
  have d: "distinct (map nd_id (nodes (co_store c)))" using wf by (simp add: wf_defs uniq_def)
  then have dn: "distinct (map nd_id ns)" by (simp add: ns_def distinct_map inj_on_def)
  have inj: "m = n" if "m \<in> set (nodes (co_store c))" "nd_id m = i" for m
    using d n that by (auto simp: i_def distinct_map dest: inj_onD)
  have who: "(case find (\<lambda>m. nd_id m = i) ns of None \<Rightarrow> None | Some m \<Rightarrow> heard R m) =
      (if ?P n then heard R n else None)"
  proof (cases "find (\<lambda>m. nd_id m = i) ns")
    case None
    then have "\<not> ?P n" using n by (auto simp: find_None_iff ns_def i_def)
    then show ?thesis using None by simp
  next
    case (Some m)
    then have "m \<in> set ns" "nd_id m = i" by (auto simp: find_Some_iff)
    then show ?thesis using Some inj [of m] by (simp add: ns_def)
  qed
  let ?c0 = "c\<lparr>co_last_persist := Some t\<rparr>"
  define c1 where "c1 = snd (forC ns (\<lambda>m. tolerate (collectNode R opts m True)) ?c0)"
  define c2 where "c2 = snd (enforceTrafficLimits (t div 1000) c1)"
  have "on_book i t (node_book i (co_store c)) (co_store ?c0)" by (simp add: on_book_def f t_def)
  from book_pass [OF dn this, of R opts] have "on_book i t b (co_store c1)" by (simp add: c1_def b_def who)
  then have "on_book i t b (co_store c2)" using book_enforce [of i t b "t div 1000"] by (simp add: presC_def c2_def)
  from book_prune [OF this, of "(t - TrafficRetention opts) div 1000"]
  have "on_book i t (filter (\<lambda>r. \<not> ts_ts r < (t - TrafficRetention opts) div 1000) (fst b), snd b)
      (co_store (snd (CollectOnce R opts c)))"
    using due preservesD [OF book_prune_connections]
    by (simp add: CollectOnce_def bindC_app ls t_def [symmetric] pass_completes enforce_completes c1_def [symmetric] c2_def [symmetric])
  then show ?thesis by (simp add: on_book_def)
qed

text \<open>C37: A cycle records what each relay reported, whatever the others do. With a working database, once the
  persist interval has passed: for every node that is polled and whose relay answers for its status,
  counters and flows, one sample is added with exactly the reported figures, its live flows become
  exactly the reported ones, and its running totals grow by what the reported counters moved since
  the last reading (nothing for a counter that went back; a first reading is only the baseline). For
  a node whose relay fails any of these calls, or that is no vk-turn relay, samples, flows and totals
  stay as they were. A failing relay never keeps the next ones from being recorded. Samples older
  than the retention are dropped in the same cycle. Rows are compared without their generated ids.\<close>

theorem cycle_records_reports:
  assumes "faults (co_store c) = []" "wf_store (co_store c)" "persist_due opts c" "0 \<le> TrafficRetention opts"
    and "n \<in> set (nodes (co_store c))"
  shows "let s = co_store c; i = nd_id n; now = clock s div 1000;
      kept = filter (\<lambda>r. (clock s - TrafficRetention opts) div 1000 \<le> ts_ts r) (fst (node_book i s)) in
    node_book i (co_store (snd (CollectOnce R opts c))) =
      (case if nd_kind n = ServerNodeVKTurnProxy then heard R n else None of
         None \<Rightarrow> (kept, snd (node_book i s))
       | Some (status, stats, reports) \<Rightarrow>
          (kept @ [\<lparr>ts_id = 0, ts_node_id = i, ts_ts = now, ts_rx_bytes = ServerRxBytes stats,
             ts_tx_bytes = ServerTxBytes stats, ts_active_streams = ActiveStreams stats,
             ts_active_sessions = ActiveSessions stats, ts_peer_count = PeerCount status\<rparr>],
           map (\<lambda>f. \<lparr>fl_id = 0, fl_node_id = i, fl_session_id = rf_SessionID f, fl_stream_id = rf_StreamID f,
             fl_client_ip = rf_ClientIP f, fl_remote = rf_Remote f, fl_protocol = rf_Protocol f, fl_version = rf_Version f,
             fl_rx_bytes = rf_RxBytes f, fl_tx_bytes = rf_TxBytes f, fl_rx_rate = rf_RxRate f, fl_tx_rate = rf_TxRate f,
             fl_started_unix = rf_StartedUnix f, fl_sampled_unix = now\<rparr>) reports,
           Some (case node_total_of i s of
               None \<Rightarrow> \<lparr>nt_node_id = i, nt_rx_total = 0, nt_tx_total = 0,
                        nt_last_rx = ServerRxBytes stats, nt_last_tx = ServerTxBytes stats\<rparr>
             | Some r \<Rightarrow> r\<lparr>nt_rx_total := nt_rx_total r + gain (nt_last_rx r) (ServerRxBytes stats),
                          nt_tx_total := nt_tx_total r + gain (nt_last_tx r) (ServerTxBytes stats),
                          nt_last_rx := ServerRxBytes stats, nt_last_tx := ServerTxBytes stats\<rparr>)))"
proof -
  let ?t = "clock (co_store c)" and ?b = "node_book (nd_id n) (co_store c)"
  have old: "snd (snd ?b) = node_total_of (nd_id n) (co_store c)" by (simp add: node_book_def)
  have le: "(?t - TrafficRetention opts) div 1000 \<le> ?t div 1000" using assms(4) by (intro zdiv_mono1) simp_all
  have snap: "snapshot_for i now = (\<lambda>f. \<lparr>fl_id = 0, fl_node_id = i, fl_session_id = rf_SessionID f,
      fl_stream_id = rf_StreamID f, fl_client_ip = rf_ClientIP f, fl_remote = rf_Remote f, fl_protocol = rf_Protocol f,
      fl_version = rf_Version f, fl_rx_bytes = rf_RxBytes f, fl_tx_bytes = rf_TxBytes f, fl_rx_rate = rf_RxRate f,
      fl_tx_rate = rf_TxRate f, fl_started_unix = rf_StartedUnix f, fl_sampled_unix = now\<rparr>)" for i now
    by (simp add: fun_eq_iff snapshot_for_def)
  show ?thesis
    unfolding cycle_book [OF assms(1-3,5)] Let_def booked_def old snap grown_def sample_for_def
    using le by (simp add: not_less split: option.split prod.split)
qed

subsection \<open>At concrete inputs\<close>

definition col_store :: store where
  "col_store = prov_store\<lparr>clients := [(new_client_row ''c1'' 1 ''phone'' ''h1'' ''t1'' 100)\<lparr>cl_disabled := 1\<rparr>,
                 new_client_row ''c2'' 2 ''tablet'' ''h2'' ''t2'' 200]\<rparr>"

lemma col_wf [simp]: "wf_store col_store" "faults col_store = []"
  by (simp_all add: col_store_def prov_store_def sample_defs wf_defs uniq_def refers_def wg_key_def pt_key_def)

lemma col_accumulated:
  "AccumulateClientTraffic col_store = (Inr (), snd (AccumulateClientTraffic col_store))"
  "faults (snd (AccumulateClientTraffic col_store)) = []"
proof -
  have "fst (AccumulateClientTraffic col_store) = Inr ()" by code_simp
  then show "AccumulateClientTraffic col_store = (Inr (), snd (AccumulateClientTraffic col_store))"
    by (metis prod.collapse)
  show "faults (snd (AccumulateClientTraffic col_store)) = []" by code_simp
qed

lemma col_cut: "is_cut (co_store (snd (enforceTrafficLimits 5000 (new_collector col_store)))) ''c1''"
  by code_simp

theorem enforcement_cuts_off_witness:
  "\<exists>c'. enforceTrafficLimits 5000 (new_collector col_store) = (Inr (), c') \<and>
     ''c1'' \<notin> wp_client_id ` set (wgpeers (co_store c'))"
proof -
  have c: "co_store (new_collector col_store) = col_store" by (simp add: new_collector_def)
  obtain c' where c': "enforceTrafficLimits 5000 (new_collector col_store) = (Inr (), c')"
    "\<forall>p. p \<in> set (wgpeers (co_store c')) \<longrightarrow> \<not> is_cut (co_store c') (wp_client_id p)"
    using enforcement_cuts_off [of "new_collector col_store" _ 5000, unfolded c, OF col_wf(2,1) col_accumulated] by blast
  then show ?thesis using col_cut by auto
qed


definition silent_relays :: relay_view where
  "silent_relays = \<lparr>NodeStatus = (\<lambda>_. None), FlowStats = (\<lambda>_. None), RelayFlows = (\<lambda>_. None), ListPeers = (\<lambda>_. None)\<rparr>"

definition plain_options :: options where
  "plain_options = collector_options \<lparr>Interval = 0, PersistInterval = 0, Timeout = 0, TrafficRetention = 0,
     ConnRetention = 0, OnCollected = True, OnFlowStats = False, OnFlows = False\<rparr>"

theorem status_hysteresis_witness:
  "\<exists>l. polled (polls [silent_relays, silent_relays, silent_relays] plain_options sample_node (new_collector prov_store))
     ''n1'' 5000 3 ''offline'' l"
proof -
  have p: "polled (new_collector prov_store) (nd_id sample_node) 5000 0 ''online'' 0"
    by (simp add: polled_def new_collector_def now_unix_def node_by_id_def prov_store_def sample_defs)
  have "misses [silent_relays, silent_relays, silent_relays] sample_node = 3"
    by (simp add: misses_def silent_relays_def)
  then show ?thesis
    using status_hysteresis [OF p, of "[silent_relays, silent_relays, silent_relays]" plain_options]
    by (auto simp: sample_node_def)
qed

text \<open>Two relays: the first one polled is silent, the second one reports a flow.\<close>

definition relay_pair :: store where
  "relay_pair = prov_store\<lparr>nodes := sample_node\<lparr>nd_id := ''n0'', nd_created_at := 0\<rparr> # nodes prov_store,
     ntotals := [\<lparr>nt_node_id = ''n1'', nt_rx_total = 7, nt_tx_total = 9, nt_last_rx = 60, nt_last_tx = 500\<rparr>]\<rparr>"

definition polled_flow :: relay_flow where
  "polled_flow = \<lparr>rf_SessionID = ''s'', rf_StreamID = 1, rf_ClientIP = ''10.0.0.2'', rf_Remote = ''9.9.9.9:443'', rf_Protocol = ''tcp'',
     rf_Version = 2, rf_RxBytes = 11, rf_TxBytes = 12, rf_RxRate = 3, rf_TxRate = 4, rf_StartedUnix = 4990\<rparr>"

definition talking_relay :: relay_view where
  "talking_relay = \<lparr>NodeStatus = (\<lambda>n. if nd_id n = ''n1'' then Some \<lparr>Version = ''1.2'', PeerCount = 2\<rparr> else None),
     FlowStats = (\<lambda>_. Some \<lparr>ServerRxBytes = 100, ServerTxBytes = 50, ActiveStreams = 1, ActiveSessions = 1,
       TotalSessions = 3, StreamsByProtocol = []\<rparr>),
     RelayFlows = (\<lambda>_. Some [polled_flow]), ListPeers = (\<lambda>_. None)\<rparr>"

theorem cycle_records_reports_witness:
  "node_book ''n1'' (co_store (snd (CollectOnce talking_relay plain_options (new_collector relay_pair)))) =
    ([\<lparr>ts_id = 0, ts_node_id = ''n1'', ts_ts = 5000, ts_rx_bytes = 100, ts_tx_bytes = 50, ts_active_streams = 1,
       ts_active_sessions = 1, ts_peer_count = 2\<rparr>],
     [\<lparr>fl_id = 0, fl_node_id = ''n1'', fl_session_id = ''s'', fl_stream_id = 1, fl_client_ip = ''10.0.0.2'',
       fl_remote = ''9.9.9.9:443'', fl_protocol = ''tcp'', fl_version = 2, fl_rx_bytes = 11, fl_tx_bytes = 12,
       fl_rx_rate = 3, fl_tx_rate = 4, fl_started_unix = 4990, fl_sampled_unix = 5000\<rparr>],
     Some \<lparr>nt_node_id = ''n1'', nt_rx_total = 47, nt_tx_total = 9, nt_last_rx = 100, nt_last_tx = 50\<rparr>)"
proof -
  have s: "faults relay_pair = []" "clock relay_pair = 5000000" "nodes relay_pair = sample_node\<lparr>nd_id := ''n0'', nd_created_at := 0\<rparr> # nodes prov_store"
    by (simp_all add: relay_pair_def prov_store_def sample_defs)
  have wf: "wf_store relay_pair"
    by (simp add: relay_pair_def prov_store_def sample_defs wf_defs uniq_def refers_def wg_key_def pt_key_def)
  have n: "sample_node \<in> set (nodes relay_pair)" by (simp add: s(3) prov_store_def)
  have b: "node_book ''n1'' relay_pair = ([], [], node_total_of ''n1'' relay_pair)"
    by (simp add: node_book_def relay_pair_def prov_store_def sample_defs)
  have t: "node_total_of ''n1'' relay_pair =
      Some \<lparr>nt_node_id = ''n1'', nt_rx_total = 7, nt_tx_total = 9, nt_last_rx = 60, nt_last_tx = 500\<rparr>"
    by (simp add: node_total_of_def relay_pair_def)
  have i: "nd_id sample_node = ''n1''" "nd_kind sample_node = ServerNodeVKTurnProxy" by (simp_all add: sample_node_def)
  have c: "co_store (new_collector relay_pair) = relay_pair" "persist_due plain_options (new_collector relay_pair)"
    by (simp_all add: new_collector_def persist_due_def)
  have r: "0 \<le> TrafficRetention plain_options" by (simp add: plain_options_def collector_options_def or_default_def)
  show ?thesis
    using cycle_records_reports [of "new_collector relay_pair" plain_options sample_node talking_relay, unfolded c(1), OF s(1) wf c(2) r n]
    by (simp add: Let_def i b t s(2) heard_def talking_relay_def polled_flow_def gain_def)
qed

end
