(* ===== verification/Attempts.thy ===== *)
theory Attempts
  imports Prelude
begin

text \<open>
  What the sign-in handlers keep in memory: the attempt limiter of
  \<^verbatim>\<open>internal/handlers/admin/ratelimit.go\<close>, the desk of QR sign-ins of \<^verbatim>\<open>qrlogin.go\<close> and the one-time
  codes of \<^verbatim>\<open>appauth.go\<close>. Times are milliseconds; the time an operation reads from the clock is its
  argument, as is the code it draws. Each operation holds its mutex throughout and is one step. The
  locale \<open>one_shot\<close> is what the desk and the codes share: a code that is handed out is gone.
\<close>

definition redeemAttempts :: nat where "redeemAttempts = 10"
definition redeemWindow :: int where "redeemWindow = 60 * 1000"
definition redeemBlock :: int where "redeemBlock = 10 * 60 * 1000"

lemma limiter_times [simp]: "0 < redeemWindow" "redeemWindow \<le> redeemBlock" "0 < redeemAttempts"
  by (simp_all add: redeemWindow_def redeemBlock_def redeemAttempts_def)

subsection \<open>The attempt limiter\<close>

text \<open>Reading a key that is not in the map gives the empty slice, so the map of attempts is total.\<close>

record limiter =
  al_attempts :: "string \<Rightarrow> int list"
  al_blocked :: "string \<rightharpoonup> int"

definition newAttemptLimiter :: limiter where
  "newAttemptLimiter = \<lparr>al_attempts = (\<lambda>_. []), al_blocked = Map.empty\<rparr>"

definition count_attempt :: "int \<Rightarrow> string \<Rightarrow> limiter \<Rightarrow> bool \<times> limiter" where
  "count_attempt now key l =
     (let kept = filter (\<lambda>at. now - at < redeemWindow) (al_attempts l key) @ [now] in
      if redeemAttempts < length kept
      then (False, l\<lparr>al_attempts := (al_attempts l)(key := []), al_blocked := (al_blocked l)(key \<mapsto> now + redeemBlock)\<rparr>)
      else (True, l\<lparr>al_attempts := (al_attempts l)(key := kept)\<rparr>))"

definition Allow :: "int \<Rightarrow> string \<Rightarrow> limiter \<Rightarrow> bool \<times> limiter" where
  "Allow now key l = (case al_blocked l key of
     None \<Rightarrow> count_attempt now key l
   | Some until \<Rightarrow>
       if now < until then (False, l)
       else count_attempt now key (l\<lparr>al_blocked := (al_blocked l)(key := None)\<rparr>))"

definition Forget :: "string \<Rightarrow> limiter \<Rightarrow> limiter" where
  "Forget key l = l\<lparr>al_attempts := (al_attempts l)(key := []), al_blocked := (al_blocked l)(key := None)\<rparr>"

text \<open>A handler without a limiter allows everything; an empty key is not counted.\<close>

fun limitAttempt :: "int \<Rightarrow> string list \<Rightarrow> limiter \<Rightarrow> bool \<times> limiter" where
  "limitAttempt now [] l = (True, l)"
| "limitAttempt now (key # keys) l =
     (if key = [] then limitAttempt now keys l
      else case Allow now key l of (ok, l') \<Rightarrow> if ok then limitAttempt now keys l' else (False, l'))"

definition limitRedeem :: "int \<Rightarrow> string \<Rightarrow> string \<Rightarrow> limiter \<Rightarrow> bool \<times> limiter" where
  "limitRedeem now ip accountKey l = (case Allow now (''ip:'' @ ip) l of
     (ok, l') \<Rightarrow> if ok then Allow now (''acc:'' @ accountKey) l' else (False, l'))"

text \<open>
  A run of the limiter: the calls of its two operations, each with its time and key. \<open>allowed\<close> are
  the times at which an attempt is let through for one key, \<open>forgotten\<close> those at which the key is
  forgotten, as a successful redemption does.
\<close>

datatype limiter_op = Attempted string | Forgotten string

fun allowed :: "string \<Rightarrow> (int \<times> limiter_op) list \<Rightarrow> limiter \<Rightarrow> int list" where
  "allowed key [] l = []"
| "allowed key ((now, Attempted k) # es) l = (case Allow now k l of (ok, l') \<Rightarrow>
     (if k = key \<and> ok then now # allowed key es l' else allowed key es l'))"
| "allowed key ((now, Forgotten k) # es) l = allowed key es (Forget k l)"

definition forgotten :: "string \<Rightarrow> (int \<times> limiter_op) list \<Rightarrow> int list" where
  "forgotten key es = map fst (filter (\<lambda>e. snd e = Forgotten key) es)"

definition window :: "int \<Rightarrow> int list \<Rightarrow> int list" where
  "window a ts = filter (\<lambda>t. a \<le> t \<and> t < a + redeemWindow) ts"

abbreviation recent :: "int \<Rightarrow> int list \<Rightarrow> int list" where
  "recent now ts \<equiv> filter (\<lambda>t. now - t < redeemWindow) ts"

lemma Allow_other: "k \<noteq> key \<Longrightarrow> al_attempts (snd (Allow now k l)) key = al_attempts l key \<and>
    al_blocked (snd (Allow now k l)) key = al_blocked l key"
  by (auto simp: Allow_def count_attempt_def Let_def split: option.splits)

lemma length_filter_mono:
  "(\<And>x. x \<in> set xs \<Longrightarrow> P x \<Longrightarrow> Q x) \<Longrightarrow> length (filter P xs) \<le> length (filter Q xs)"
  by (induction xs) (auto simp: le_SucI)

lemma recent_later: "now \<le> now' \<Longrightarrow> recent now' (recent now ts) = recent now' ts"
  by (auto intro!: filter_cong)

lemma recent_nil: "\<forall>t \<in> set ts. t \<le> now - redeemWindow \<Longrightarrow> recent now ts = []"
  by (auto simp: filter_empty_conv)

text \<open>What the limiter knows of the attempts it has allowed: those of the window, or that they are all
  ten minutes older than the end of the block.\<close>

definition tracks :: "int \<Rightarrow> int list \<Rightarrow> string \<Rightarrow> limiter \<Rightarrow> bool" where
  "tracks now ts key l \<longleftrightarrow> (\<forall>t \<in> set ts. t \<le> now) \<and>
     (case al_blocked l key of
        None \<Rightarrow> recent now (al_attempts l key) = recent now ts
      | Some until \<Rightarrow> al_attempts l key = [] \<and> (\<forall>t \<in> set ts. t + redeemBlock \<le> until))"

lemma tracks_later: "tracks now ts key l \<Longrightarrow> now \<le> now' \<Longrightarrow> tracks now' ts key l"
  unfolding tracks_def by (auto split: option.splits dest: order_trans) (metis recent_later)

lemma tracks_other: "k \<noteq> key \<Longrightarrow> tracks now ts key (snd (Allow now' k l)) = tracks now ts key l"
  by (auto simp: tracks_def Allow_other split: option.splits)

lemma tracks_Forget: "tracks now (if k = key then [] else ts) key (Forget k l)"
  if "tracks now ts key l"
  using that by (auto simp: tracks_def Forget_def split: option.splits)

lemma tracks_new: "tracks now [] key newAttemptLimiter"
  by (simp add: tracks_def newAttemptLimiter_def)

lemma count_attempt_tracks:
  assumes "\<forall>t \<in> set ts. t \<le> now" "recent now (al_attempts l key) = recent now ts" "al_blocked l key = None"
  shows "fst (count_attempt now key l) = (length (recent now ts) < redeemAttempts) \<and>
    tracks now (if fst (count_attempt now key l) then ts @ [now] else ts) key (snd (count_attempt now key l))"
  using assms by (auto simp: count_attempt_def Let_def tracks_def)

lemma Allow_tracks:
  assumes "tracks now ts key l"
  shows "(fst (Allow now key l) \<longrightarrow> length (recent now ts) < redeemAttempts) \<and>
    tracks now (if fst (Allow now key l) then ts @ [now] else ts) key (snd (Allow now key l))"
proof (cases "al_blocked l key")
  case None
  then have "\<forall>t \<in> set ts. t \<le> now" "recent now (al_attempts l key) = recent now ts"
    using assms by (simp_all add: tracks_def)
  from count_attempt_tracks [OF this None] show ?thesis using None by (auto simp: Allow_def)
next
  case (Some until)
  show ?thesis
  proof (cases "now < until")
    case True
    then show ?thesis using assms Some by (simp add: Allow_def)
  next
    case False
    let ?l = "l\<lparr>al_blocked := (al_blocked l)(key := None)\<rparr>"
    have "\<forall>t \<in> set ts. t + redeemBlock \<le> until" using assms Some by (simp add: tracks_def)
    have "t \<le> now - redeemWindow" if "t \<in> set ts" for t
      using that \<open>\<forall>t \<in> set ts. t + redeemBlock \<le> until\<close> False limiter_times(2) by (smt (verit))
    then have "\<forall>t \<in> set ts. t \<le> now - redeemWindow" by blast
    then have "recent now (al_attempts ?l key) = recent now ts"
      using assms Some by (simp add: tracks_def recent_nil)
    moreover have "\<forall>t \<in> set ts. t \<le> now" "al_blocked ?l key = None" using assms by (simp_all add: tracks_def)
    ultimately show ?thesis using Some False count_attempt_tracks [of ts now ?l key] by (auto simp: Allow_def)
  qed
qed

lemma window_snoc:
  assumes "\<forall>t \<in> set ts. t \<le> now" "length (recent now ts) < redeemAttempts" "length (window a ts) \<le> redeemAttempts"
  shows "length (window a (ts @ [now])) \<le> redeemAttempts"
proof (cases "a \<le> now \<and> now < a + redeemWindow")
  case True
  then have "length (window a ts) \<le> length (recent now ts)"
    unfolding window_def by (intro length_filter_mono) auto
  then show ?thesis using True assms(2) by (simp add: window_def)
qed (use assms(3) in \<open>auto simp: window_def\<close>)

text \<open>
  The book over a run up to \<open>now\<close>: \<open>pre\<close> are all the attempts allowed for the key, \<open>ts\<close> those since
  it was last forgotten, and \<open>fs\<close> the times at which it was.
\<close>

definition bounded_so_far :: "int \<Rightarrow> int list \<Rightarrow> int list \<Rightarrow> int list \<Rightarrow> bool" where
  "bounded_so_far now pre ts fs \<longleftrightarrow> (\<forall>t \<in> set pre \<union> set ts. t \<le> now) \<and>
     (\<forall>a. length (window a ts) \<le> redeemAttempts \<and>
        length (window a pre) \<le> redeemAttempts * Suc (length (window a fs)) \<and>
        (now < a + redeemWindow \<longrightarrow>
           length (window a pre) \<le> redeemAttempts * length (window a fs) + length (window a ts)))"

lemma window_append [simp]: "window a (ts @ us) = window a ts @ window a us"
  by (simp add: window_def)

lemma window_one: "window a [t] = (if a \<le> t \<and> t < a + redeemWindow then [t] else [])"
  by (simp add: window_def)

lemma window_past: "\<forall>t \<in> set ts. t \<le> now \<Longrightarrow> now < a \<Longrightarrow> window a ts = []"
  by (auto simp: window_def filter_empty_conv)

lemma bounded_later: "bounded_so_far now pre ts fs \<Longrightarrow> now \<le> now' \<Longrightarrow> bounded_so_far now' pre ts fs"
  by (force simp: bounded_so_far_def)

lemma bounded_allow:
  assumes b: "bounded_so_far now pre ts fs" and few: "length (recent now ts) < redeemAttempts"
  shows "bounded_so_far now (pre @ [now]) (ts @ [now]) fs"
proof -
  have w: "length (window a (ts @ [now])) \<le> redeemAttempts" for a
    using window_snoc [OF _ few] b by (simp add: bounded_so_far_def)
  have "length (window a (pre @ [now])) \<le> redeemAttempts * Suc (length (window a fs)) \<and>
      (now < a + redeemWindow \<longrightarrow> length (window a (pre @ [now])) \<le>
         redeemAttempts * length (window a fs) + length (window a (ts @ [now])))" for a
  proof (cases "now < a + redeemWindow")
    case True
    then have "length (window a pre) \<le> redeemAttempts * length (window a fs) + length (window a ts)"
      using b by (simp add: bounded_so_far_def)
    then show ?thesis using w [of a] by (simp add: window_one)
  next
    case False
    then show ?thesis using b by (simp add: bounded_so_far_def window_one)
  qed
  then show ?thesis using b w by (auto simp: bounded_so_far_def)
qed

lemma bounded_forget:
  assumes b: "bounded_so_far now pre ts fs"
  shows "bounded_so_far now pre [] (fs @ [now])"
proof -
  have "now < a + redeemWindow \<longrightarrow> length (window a pre) \<le> redeemAttempts * length (window a (fs @ [now]))" for a
  proof (cases "a \<le> now")
    case True
    then show ?thesis using b by (auto simp: bounded_so_far_def window_one)
  next
    case False
    then have "window a pre = []" using b by (intro window_past [of _ now]) (auto simp: bounded_so_far_def)
    then show ?thesis by simp
  qed
  moreover have "redeemAttempts * Suc (length (window a fs)) \<le> redeemAttempts * Suc (length (window a (fs @ [now])))" for a
    by simp
  ultimately show ?thesis
    using b unfolding bounded_so_far_def by (auto simp: window_def)
qed

lemma allowed_bounded:
  assumes "sorted (map fst es)" "\<forall>e \<in> set es. now \<le> fst e" "tracks now ts key l" "bounded_so_far now pre ts fs"
  shows "length (window a (pre @ allowed key es l)) \<le> redeemAttempts * Suc (length (window a (fs @ forgotten key es)))"
  using assms
proof (induction es arbitrary: now pre ts fs l)
  case Nil
  then show ?case by (simp add: bounded_so_far_def forgotten_def)
next
  case (Cons e es)
  obtain at call where e [simp]: "e = (at, call)" by force
  have pr: "sorted (map fst es)" "\<forall>e \<in> set es. at \<le> fst e" using Cons.prems(1) by auto
  have tr: "tracks at ts key l" and bd: "bounded_so_far at pre ts fs"
    using Cons.prems by (auto intro: tracks_later bounded_later)
  note IH = Cons.IH [OF pr]
  show ?case
  proof (cases call)
    case (Attempted k)
    obtain ok l' where al: "Allow at k l = (ok, l')" by force
    show ?thesis
    proof (cases "k = key \<and> ok")
      case True
      then have "tracks at (ts @ [at]) key l'" "length (recent at ts) < redeemAttempts"
        using Allow_tracks [OF tr] al by auto
      from IH [OF this(1) bounded_allow [OF bd this(2)]] show ?thesis
        using True al Attempted by (simp add: forgotten_def)
    next
      case False
      then have "tracks at ts key l'"
        using Allow_tracks [OF tr] tracks_other [of k key at ts at l] tr al by (cases "k = key") auto
      from IH [OF this bd] show ?thesis using False al Attempted by (auto simp: forgotten_def)
    qed
  next
    case (Forgotten k)
    show ?thesis
    proof (cases "k = key")
      case True
      from IH [OF tracks_Forget [OF tr, of k, unfolded if_P [OF True]] bounded_forget [OF bd]] show ?thesis
        using True Forgotten by (simp add: forgotten_def)
    next
      case False
      from IH [OF tracks_Forget [OF tr, of k, unfolded if_not_P [OF False]] bd] show ?thesis
        using False Forgotten by (simp add: forgotten_def)
    qed
  qed
qed

text \<open>C31: Guessing is bounded. Whatever the timing of the attempts and whatever else is tried or forgotten in
  between, a window of one minute holds at most ten allowed attempts for a key, and ten more for each
  time the key is forgotten within that minute: without a successful redemption, never more than ten.\<close>

theorem attempts_bounded:
  assumes "sorted (map fst es)"
  shows "length (window a (allowed key es newAttemptLimiter)) \<le>
    redeemAttempts * Suc (length (window a (forgotten key es)))"
proof (cases es)
  case (Cons e es')
  have "\<forall>x \<in> set es. fst e \<le> fst x" using assms Cons by auto
  then show ?thesis
    using allowed_bounded [OF assms _ tracks_new [of "fst e" key], where pre = "[]" and fs = "[]"]
    by (simp add: bounded_so_far_def window_def)
qed (simp add: window_def)

text \<open>The attempts made on a key, allowed or not.\<close>

definition tried :: "string \<Rightarrow> (int \<times> limiter_op) list \<Rightarrow> int list" where
  "tried key es = map fst (filter (\<lambda>e. snd e = Attempted key) es)"

lemma allowed_patient:
  assumes "sorted (map fst es)" "\<forall>e \<in> set es. now \<le> fst e" "tracks now ts key l" "al_blocked l key = None"
    and "\<forall>a. length (window a (ts @ tried key es)) \<le> redeemAttempts"
  shows "allowed key es l = tried key es"
  using assms
proof (induction es arbitrary: now ts l)
  case (Cons e es)
  obtain at call where e [simp]: "e = (at, call)" by force
  have tr: "tracks at ts key l" using Cons.prems by (auto intro: tracks_later)
  have pr: "sorted (map fst es)" "\<forall>e \<in> set es. at \<le> fst e" using Cons.prems(1) by auto
  show ?case
  proof (cases call)
    case (Attempted k)
    show ?thesis
    proof (cases "k = key")
      case True
      have "length (recent at (ts @ [at])) \<le> length (window (at - redeemWindow + 1) (ts @ tried key (e # es)))"
      proof -
        have "length (recent at ts) \<le> length (window (at - redeemWindow + 1) ts)"
          unfolding window_def using tr by (intro length_filter_mono) (auto simp: tracks_def)
        moreover have "at - redeemWindow + 1 \<le> at" using limiter_times(1) by linarith
        ultimately show ?thesis using True by (simp add: window_def tried_def Attempted)
      qed
      also have "\<dots> \<le> redeemAttempts" using Cons.prems(5) by blast
      finally have lt: "length (recent at ts) < redeemAttempts" by simp
      have "recent at (al_attempts l key) = recent at ts" "\<forall>t \<in> set ts. t \<le> at"
        using tr Cons.prems(4) by (auto simp: tracks_def)
      then have ok: "fst (Allow at key l)" "tracks at (ts @ [at]) key (snd (Allow at key l))"
          "al_blocked (snd (Allow at key l)) key = None"
        using count_attempt_tracks [of ts at l key] lt Cons.prems(4)
        by (auto simp: Allow_def count_attempt_def Let_def)
      have "allowed key es (snd (Allow at key l)) = tried key es"
        using Cons.IH [OF pr ok(2,3)] Cons.prems(5) True Attempted by (simp add: tried_def)
      then show ?thesis using ok(1) True Attempted by (simp add: tried_def case_prod_unfold)
    next
      case False
      have "allowed key es (snd (Allow at k l)) = tried key es"
        using Cons.IH [OF pr, of ts "snd (Allow at k l)"] tracks_other [OF False] tr Cons.prems(4,5) False Attempted
        by (simp add: Allow_other tried_def)
      then show ?thesis using False Attempted by (simp add: tried_def case_prod_unfold)
    qed
  next
    case (Forgotten k)
    let ?ts = "if k = key then [] else ts"
    have "al_blocked (Forget k l) key = None" using Cons.prems(4) by (simp add: Forget_def)
    moreover have "length (window a (?ts @ tried key es)) \<le> redeemAttempts" for a
      using Cons.prems(5) [THEN spec, of a] Forgotten by (simp add: tried_def window_def split: if_splits)
    ultimately have "allowed key es (Forget k l) = tried key es"
      using Cons.IH [OF pr tracks_Forget [OF tr]] by blast
    then show ?thesis using Forgotten by (simp add: tried_def)
  qed
qed (simp add: tried_def)

text \<open>An honest user is never locked out: if no window of one minute holds more than ten attempts on a
  key, every one of them is allowed.\<close>

theorem patient_never_refused:
  assumes "sorted (map fst es)" "\<forall>a. length (window a (tried key es)) \<le> redeemAttempts"
  shows "allowed key es newAttemptLimiter = tried key es"
proof (cases es)
  case (Cons e es')
  have "\<forall>x \<in> set es. fst e \<le> fst x" using assms(1) Cons by auto
  then show ?thesis
    using allowed_patient [OF assms(1) _ tracks_new [of "fst e" key]] assms(2) by (simp add: newAttemptLimiter_def)
qed (simp add: tried_def)

subsection \<open>QR sign-ins\<close>

definition qrTTL :: int where "qrTTL = 2 * 60 * 1000"
definition qrSweepEvery :: int where "qrSweepEvery = 60 * 1000"

record qr_request =
  qr_created_at :: int
  qr_expires_at :: int
  qr_from_ip :: string
  qr_user_agent :: string
  qr_approved_by :: int
  qr_taken :: bool

record qr_desk =
  qd_rows :: "string \<rightharpoonup> qr_request"
  qd_swept_at :: int

text \<open>Go's zero time is the start of the year 1.\<close>

definition newQRDesk :: qr_desk where
  "newQRDesk = \<lparr>qd_rows = Map.empty, qd_swept_at = - 62135596800000\<rparr>"

definition sweep :: "int \<Rightarrow> qr_desk \<Rightarrow> qr_desk" where
  "sweep now d =
     (if now - qd_swept_at d > qrSweepEvery
      then \<lparr>qd_rows = (\<lambda>k. case qd_rows d k of None \<Rightarrow> None
                       | Some row \<Rightarrow> if now > qr_expires_at row then None else Some row),
            qd_swept_at = now\<rparr>
      else d)"

definition qr_open :: "int \<Rightarrow> string option \<Rightarrow> string \<Rightarrow> string \<Rightarrow> qr_desk \<Rightarrow> (string \<times> int) option \<times> qr_desk" where
  "qr_open now drawn fromIP userAgent d = (case drawn of
     None \<Rightarrow> (None, d)
   | Some code \<Rightarrow>
       let d' = sweep now d; expires = now + qrTTL in
       (Some (code, expires),
        d'\<lparr>qd_rows := (qd_rows d')(code \<mapsto> \<lparr>qr_created_at = now, qr_expires_at = expires, qr_from_ip = fromIP,
             qr_user_agent = userAgent, qr_approved_by = 0, qr_taken = False\<rparr>)\<rparr>))"

definition qr_get :: "int \<Rightarrow> string \<Rightarrow> qr_desk \<Rightarrow> qr_request option" where
  "qr_get now code d = (case qd_rows d code of
     None \<Rightarrow> None
   | Some row \<Rightarrow> if now > qr_expires_at row then None else Some row)"

definition qr_approve :: "int \<Rightarrow> string \<Rightarrow> int \<Rightarrow> qr_desk \<Rightarrow> bool \<times> qr_desk" where
  "qr_approve now code adminID d = (case qd_rows d code of
     None \<Rightarrow> (False, d)
   | Some row \<Rightarrow>
       if now > qr_expires_at row \<or> qr_approved_by row \<noteq> 0 then (False, d)
       else (True, d\<lparr>qd_rows := (qd_rows d)(code \<mapsto> row\<lparr>qr_approved_by := adminID\<rparr>)\<rparr>))"

definition qr_take :: "int \<Rightarrow> string \<Rightarrow> qr_desk \<Rightarrow> int option \<times> qr_desk" where
  "qr_take now code d = (case qd_rows d code of
     None \<Rightarrow> (None, d)
   | Some row \<Rightarrow>
       if now > qr_expires_at row \<or> qr_approved_by row = 0 \<or> qr_taken row then (None, d)
       else (Some (qr_approved_by row), d\<lparr>qd_rows := (qd_rows d)(code := None)\<rparr>))"

subsection \<open>One-time codes of the application\<close>

definition appCodeTTL :: int where "appCodeTTL = 2 * 60 * 1000"

record app_code =
  ac_admin_id :: int
  ac_expires_at :: int

type_synonym app_codes = "string \<rightharpoonup> app_code"

definition newAppCodes :: app_codes where
  "newAppCodes = Map.empty"

definition issue :: "string \<Rightarrow> int \<Rightarrow> int \<Rightarrow> app_codes \<Rightarrow> app_codes" where
  "issue code adminID now a =
     (\<lambda>value. case a value of None \<Rightarrow> None | Some entry \<Rightarrow> if now > ac_expires_at entry then None else Some entry)
     (code \<mapsto> \<lparr>ac_admin_id = adminID, ac_expires_at = now + appCodeTTL\<rparr>)"

definition redeem :: "string \<Rightarrow> int \<Rightarrow> app_codes \<Rightarrow> int option \<times> app_codes" where
  "redeem code now a =
     (case a code of None \<Rightarrow> None | Some entry \<Rightarrow> if now > ac_expires_at entry then None else Some (ac_admin_id entry),
      a(code := None))"

subsection \<open>A code that is handed out is gone\<close>

text \<open>What a run hands out for one code.\<close>

fun handed :: "('l \<Rightarrow> 's \<Rightarrow> (string \<times> int) option) \<Rightarrow> ('l \<Rightarrow> 's \<Rightarrow> 's) \<Rightarrow> string \<Rightarrow> 'l list \<Rightarrow> 's \<Rightarrow> int list" where
  "handed yields step code [] s = []"
| "handed yields step code (l # ls) s =
     (case yields l s of
        Some (c, a) \<Rightarrow> if c = code then a # handed yields step code ls (step l s) else handed yields step code ls (step l s)
      | None \<Rightarrow> handed yields step code ls (step l s))"

locale one_shot =
  fixes held :: "'s \<Rightarrow> string \<Rightarrow> bool"
    and step :: "'l \<Rightarrow> 's \<Rightarrow> 's"
    and opens :: "'l \<Rightarrow> string \<Rightarrow> bool"
    and yields :: "'l \<Rightarrow> 's \<Rightarrow> (string \<times> int) option"
  assumes yields_held: "yields l s = Some (c, a) \<Longrightarrow> held s c"
    and yields_drops: "yields l s = Some (c, a) \<Longrightarrow> \<not> held (step l s) c"
    and held_step: "held (step l s) c \<Longrightarrow> held s c \<or> opens l c"
begin

lemma handed_at_most:
  "length (handed yields step c ls s) \<le> length (filter (\<lambda>l. opens l c) ls) + (if held s c then 1 else 0)"
proof (induction ls arbitrary: s)
  case (Cons l ls)
  have h: "held (step l s) c \<Longrightarrow> held s c \<or> opens l c" by (rule held_step)
  show ?case
  proof (cases "yields l s")
    case None
    then show ?thesis using Cons [of "step l s"] h by (auto split: if_splits)
  next
    case (Some p)
    obtain d a where p: "p = (d, a)" by force
    have y: "held s d" "\<not> held (step l s) d" using Some p yields_held yields_drops by auto
    show ?thesis using Cons [of "step l s"] h Some p y by (auto split: if_splits)
  qed
qed simp

end

text \<open>The operations of the desk and of the codes, each with the time it is called at.\<close>

datatype qr_op = QOpen string string string | QApprove string int | QTake string

fun qr_step :: "int \<times> qr_op \<Rightarrow> qr_desk \<Rightarrow> qr_desk" where
  "qr_step (now, QOpen code ip ua) d = snd (qr_open now (Some code) ip ua d)"
| "qr_step (now, QApprove code a) d = snd (qr_approve now code a d)"
| "qr_step (now, QTake code) d = snd (qr_take now code d)"

fun qr_yields :: "int \<times> qr_op \<Rightarrow> qr_desk \<Rightarrow> (string \<times> int) option" where
  "qr_yields (now, QTake code) d = map_option (Pair code) (fst (qr_take now code d))"
| "qr_yields _ d = None"

fun qr_opens :: "int \<times> qr_op \<Rightarrow> string \<Rightarrow> bool" where
  "qr_opens (now, QOpen code ip ua) c \<longleftrightarrow> code = c"
| "qr_opens _ c \<longleftrightarrow> False"

datatype code_op = Issue string int | Redeem string

fun code_step :: "int \<times> code_op \<Rightarrow> app_codes \<Rightarrow> app_codes" where
  "code_step (now, Issue code a) m = issue code a now m"
| "code_step (now, Redeem code) m = snd (redeem code now m)"

fun code_yields :: "int \<times> code_op \<Rightarrow> app_codes \<Rightarrow> (string \<times> int) option" where
  "code_yields (now, Redeem code) m = map_option (Pair code) (fst (redeem code now m))"
| "code_yields _ m = None"

fun code_opens :: "int \<times> code_op \<Rightarrow> string \<Rightarrow> bool" where
  "code_opens (now, Issue code a) c \<longleftrightarrow> code = c"
| "code_opens _ c \<longleftrightarrow> False"

lemma sweep_held: "qd_rows (sweep now d) c = Some r \<Longrightarrow> qd_rows d c = Some r"
  by (auto simp: sweep_def split: if_splits option.splits)

interpretation desk: one_shot "\<lambda>d c. qd_rows d c \<noteq> None" qr_step qr_opens qr_yields
proof
  show "qd_rows d c \<noteq> None" if "qr_yields l d = Some (c, a)" for l d c a
    using that by (cases "(l, d)" rule: qr_yields.cases) (auto simp: qr_take_def split: option.splits)
  show "\<not> qd_rows (qr_step l d) c \<noteq> None" if "qr_yields l d = Some (c, a)" for l d c a
    using that by (cases "(l, d)" rule: qr_yields.cases) (auto simp: qr_take_def split: option.splits if_splits)
  show "qd_rows d c \<noteq> None \<or> qr_opens l c" if "qd_rows (qr_step l d) c \<noteq> None" for l d c
    using that by (cases "(l, d)" rule: qr_step.cases)
      (auto simp: qr_open_def qr_approve_def qr_take_def Let_def dest: sweep_held split: option.splits if_splits)
qed

interpretation codes: one_shot "\<lambda>m c. m c \<noteq> None" code_step code_opens code_yields
proof
  show "m c \<noteq> None" if "code_yields l m = Some (c, a)" for l m c a
    using that by (cases "(l, m)" rule: code_yields.cases) (auto simp: redeem_def split: option.splits)
  show "\<not> code_step l m c \<noteq> None" if "code_yields l m = Some (c, a)" for l m c a
    using that by (cases "(l, m)" rule: code_yields.cases) (auto simp: redeem_def)
  show "m c \<noteq> None \<or> code_opens l c" if "code_step l m c \<noteq> None" for l m c
    using that by (cases "(l, m)" rule: code_step.cases) (auto simp: redeem_def issue_def split: if_splits option.splits)
qed

text \<open>A one-time code of the application buys at most one session: over any sequence of issues and
  redemptions at any times, the exchange succeeds at most as often as the code was issued.\<close>

theorem app_code_once:
  "length (handed code_yields code_step c ls newAppCodes) \<le> length (filter (\<lambda>l. code_opens l c) ls)"
  using codes.handed_at_most [of c ls newAppCodes] by (simp add: newAppCodes_def)

text \<open>What is known of every row of the desk after a run.\<close>

definition qr_row_ok :: "(int \<times> qr_op) list \<Rightarrow> string \<Rightarrow> qr_request \<Rightarrow> bool" where
  "qr_row_ok es c r \<longleftrightarrow> qr_expires_at r = qr_created_at r + qrTTL \<and> \<not> qr_taken r \<and>
     (\<exists>ip ua. (qr_created_at r, QOpen c ip ua) \<in> set es) \<and>
     (qr_approved_by r \<noteq> 0 \<longrightarrow> (\<exists>t. (t, QApprove c (qr_approved_by r)) \<in> set es \<and>
        qr_created_at r \<le> t \<and> t \<le> qr_expires_at r))"

lemma qr_row_ok_more: "qr_row_ok es c r \<Longrightarrow> qr_row_ok (es @ [e]) c r"
  unfolding qr_row_ok_def by auto

lemma qr_created_le: "qr_row_ok es c r \<Longrightarrow> sorted (map fst (es @ [e])) \<Longrightarrow> qr_created_at r \<le> fst e"
  by (auto simp: qr_row_ok_def sorted_append)

lemma qr_rows_ok:
  assumes "sorted (map fst es)" "qd_rows (fold qr_step es newQRDesk) c = Some r"
  shows "qr_row_ok es c r"
  using assms
proof (induction es arbitrary: c r rule: rev_induct)
  case Nil
  then show ?case by (simp add: newQRDesk_def)
next
  case (snoc e es)
  let ?d = "fold qr_step es newQRDesk"
  have IH: "qd_rows ?d c = Some r \<Longrightarrow> qr_row_ok es c r" for c r using snoc by (simp add: sorted_append)
  have step: "qd_rows (qr_step e ?d) c = Some r" using snoc.prems(2) by simp
  show ?case
  proof (cases "(e, ?d)" rule: qr_step.cases)
    case (1 now code ip ua d)
    show ?thesis
    proof (cases "c = code")
      case True
      then show ?thesis using 1 step by (auto simp: qr_open_def Let_def qr_row_ok_def) blast
    next
      case False
      then have "qd_rows ?d c = Some r" using 1 step by (auto simp: qr_open_def Let_def dest: sweep_held)
      then show ?thesis by (intro qr_row_ok_more IH)
    qed
  next
    case (2 now code a d)
    show ?thesis
    proof (cases "qd_rows ?d c = Some r")
      case False
      then obtain q where q: "c = code" "qd_rows ?d c = Some q" "now \<le> qr_expires_at q" "r = q\<lparr>qr_approved_by := a\<rparr>"
        using 2 step by (auto simp: qr_approve_def split: option.splits if_splits)
      have "qr_created_at q \<le> now" using qr_created_le [OF IH [OF q(2)]] snoc.prems(1) 2 by auto
      then show ?thesis using q 2 IH [OF q(2)] by (auto simp: qr_row_ok_def)
    qed (intro qr_row_ok_more IH)
  next
    case (3 now code d)
    then have "qd_rows ?d c = Some r" using step by (auto simp: qr_take_def split: option.splits if_splits)
    then show ?thesis by (intro qr_row_ok_more IH)
  qed
qed

text \<open>A machine is let in by QR only as the account that approved it: when the desk hands out an
  account for a code, the code was shown at some time, that account approved it afterwards, and the
  machine came for it within two minutes of the showing. Over any run a code lets in at most once for
  each time it was shown.\<close>

theorem qr_admits_only_approved:
  assumes "sorted (map fst (es @ [(t, QTake c)]))"
  shows "(case fst (qr_take t c (fold qr_step es newQRDesk)) of None \<Rightarrow> True
     | Some a \<Rightarrow> a \<noteq> 0 \<and> (\<exists>t0 t1 ip ua. (t0, QOpen c ip ua) \<in> set es \<and> (t1, QApprove c a) \<in> set es \<and>
         t0 \<le> t1 \<and> t1 \<le> t \<and> t \<le> t0 + qrTTL)) \<and>
    length (handed qr_yields qr_step c es newQRDesk) \<le> length (filter (\<lambda>l. qr_opens l c) es)"
proof
  let ?d = "fold qr_step es newQRDesk"
  show "case fst (qr_take t c ?d) of None \<Rightarrow> True
     | Some a \<Rightarrow> a \<noteq> 0 \<and> (\<exists>t0 t1 ip ua. (t0, QOpen c ip ua) \<in> set es \<and> (t1, QApprove c a) \<in> set es \<and>
         t0 \<le> t1 \<and> t1 \<le> t \<and> t \<le> t0 + qrTTL)"
  proof (cases "fst (qr_take t c ?d)")
    case (Some a)
    then obtain r where r: "qd_rows ?d c = Some r" "t \<le> qr_expires_at r" "a = qr_approved_by r" "a \<noteq> 0"
      by (auto simp: qr_take_def split: option.splits if_splits)
    have ok: "qr_row_ok es c r" using qr_rows_ok [OF _ r(1)] assms by (simp add: sorted_append)
    have late: "(u, op) \<in> set es \<Longrightarrow> u \<le> t" for u op using assms by (force simp: sorted_append)
    show ?thesis using ok r late unfolding qr_row_ok_def Some option.case by metis
  qed simp
  show "length (handed qr_yields qr_step c es newQRDesk) \<le> length (filter (\<lambda>l. qr_opens l c) es)"
    using desk.handed_at_most [of c es newQRDesk] by (simp add: newQRDesk_def)
qed

subsection \<open>At concrete inputs\<close>

text \<open>Ten guesses, a redemption, and fourteen more, all within a minute: twenty are let through.\<close>

definition guesses :: "int \<Rightarrow> nat \<Rightarrow> (int \<times> limiter_op) list" where
  "guesses start n = map (\<lambda>i. (start + int i * 1000, Attempted ''ip:1'')) [0..<n]"

definition redeemed :: "(int \<times> limiter_op) list" where
  "redeemed = guesses 0 10 @ [(10000, Forgotten ''ip:1'')] @ guesses 10000 14"

theorem attempts_bounded_witness:
  "length (window 0 (allowed ''ip:1'' redeemed newAttemptLimiter)) \<le>
     redeemAttempts * Suc (length (window 0 (forgotten ''ip:1'' redeemed))) \<and>
   length (window 0 (allowed ''ip:1'' redeemed newAttemptLimiter)) = 20 \<and>
   length (window 0 (forgotten ''ip:1'' redeemed)) = 1"
proof (intro conjI)
  show "length (window 0 (allowed ''ip:1'' redeemed newAttemptLimiter)) \<le>
      redeemAttempts * Suc (length (window 0 (forgotten ''ip:1'' redeemed)))"
    by (rule attempts_bounded) (simp add: redeemed_def guesses_def upt_rec)
  show "length (window 0 (allowed ''ip:1'' redeemed newAttemptLimiter)) = 20" by code_simp
  show "length (window 0 (forgotten ''ip:1'' redeemed)) = 1" by code_simp
qed

theorem patient_never_refused_witness:
  "allowed ''ip:1'' [(0, Attempted ''ip:1''), (70000, Attempted ''ip:1'')] newAttemptLimiter = [0, 70000]"
proof -
  have "length (window a (tried ''ip:1'' [(0, Attempted ''ip:1''), (70000, Attempted ''ip:1'')])) \<le> redeemAttempts" for a
    by (simp add: tried_def window_def redeemAttempts_def)
  then show ?thesis using patient_never_refused [of "[(0, Attempted ''ip:1''), (70000, Attempted ''ip:1'')]" "''ip:1''"]
    by (simp add: tried_def)
qed

definition shown :: "(int \<times> qr_op) list" where
  "shown = [(1000, QOpen ''k'' ''1.2.3.4'' ''ua''), (5000, QApprove ''k'' 7)]"

theorem qr_admits_only_approved_witness:
  "fst (qr_take 9000 ''k'' (fold qr_step shown newQRDesk)) = Some 7 \<and>
    length (handed qr_yields qr_step ''k'' shown newQRDesk) \<le> 1"
  using qr_admits_only_approved [of shown 9000 "''k''"]
  by (simp add: shown_def qr_take_def qr_open_def qr_approve_def newQRDesk_def sweep_def Let_def qrTTL_def qrSweepEvery_def)

end
