(* ===== verification/SignIn.thy ===== *)
theory SignIn
  imports Auth Attempts
begin

text \<open>
  The sign-in handlers of the panel: the password login of \<^verbatim>\<open>internal/handlers/admin/admin.go\<close>, the
  application's doors of \<^verbatim>\<open>appauth.go\<close>, the QR sign-in of \<^verbatim>\<open>qrlogin.go\<close> and the second factor of
  \<^verbatim>\<open>totp.go\<close>, over the operations of the theories Auth, SecondFactor and Attempts. A handler takes the
  parts of the request it reads (a body is \<^term>\<open>None\<close> when it does not decode, the address is what
  \<^verbatim>\<open>clientIP\<close> makes of the headers) and the random tokens it draws, and returns what it answers; the
  texts of refusals are left out, their status codes are kept. The TOTP library is the parameter
  \<open>en_totp\<close> (time, code, secret).
\<close>

record env =
  en_crypto :: crypto
  en_hash :: "string \<Rightarrow> string"
  en_totp :: "int \<Rightarrow> string \<Rightarrow> string \<Rightarrow> bool"
  en_secure :: bool

record server =
  sv_store :: store
  sv_limiter :: limiter
  sv_desk :: qr_desk
  sv_codes :: app_codes

record request =
  rq_method :: string
  rq_ip :: string
  rq_user_agent :: string
  rq_authorization :: string

datatype reply =
    Refused nat
  | TotpRequired
  | SignedIn "cookie option" admin
  | AppToken string admin
  | Redirect string
  | QRCode string int
  | QRState string
  | QRInfo string string int bool
  | TotpSecret string
  | BackupCodes "string list"
  | Done

subsection \<open>Sequencing\<close>

type_synonym 'a srv = "server \<Rightarrow> 'a \<times> server"

definition retS :: "'a \<Rightarrow> 'a srv" where "retS x sv = (x, sv)"

definition bindS :: "'a srv \<Rightarrow> ('a \<Rightarrow> 'b srv) \<Rightarrow> 'b srv" where
  "bindS m k sv = (case m sv of (x, sv') \<Rightarrow> k x sv')"

definition onDb :: "'a db \<Rightarrow> (error + 'a) srv" where
  "onDb m sv = (case m (sv_store sv) of (r, s') \<Rightarrow> (r, sv\<lparr>sv_store := s'\<rparr>))"

definition onAuth :: "'a auth \<Rightarrow> (auth_error + 'a) srv" where
  "onAuth m sv = (case m (sv_store sv) of (r, s') \<Rightarrow> (r, sv\<lparr>sv_store := s'\<rparr>))"

definition now :: "int srv" where
  "now sv = (clock (sv_store sv), sv)"

definition limited :: "string list \<Rightarrow> bool srv" where
  "limited keys sv = (case limitAttempt (clock (sv_store sv)) keys (sv_limiter sv) of
     (ok, l) \<Rightarrow> (ok, sv\<lparr>sv_limiter := l\<rparr>))"

definition onDesk :: "(qr_desk \<Rightarrow> 'a \<times> qr_desk) \<Rightarrow> 'a srv" where
  "onDesk m sv = (case m (sv_desk sv) of (x, d) \<Rightarrow> (x, sv\<lparr>sv_desk := d\<rparr>))"

definition onCodes :: "(app_codes \<Rightarrow> 'a \<times> app_codes) \<Rightarrow> 'a srv" where
  "onCodes m sv = (case m (sv_codes sv) of (x, c) \<Rightarrow> (x, sv\<lparr>sv_codes := c\<rparr>))"

text \<open>The checks the handlers open with.\<close>

definition only :: "string \<Rightarrow> request \<Rightarrow> reply srv \<Rightarrow> reply srv" where
  "only meth rq m = (if rq_method rq \<noteq> meth then retS (Refused 405) else m)"

definition decoded :: "'b option \<Rightarrow> ('b \<Rightarrow> reply srv) \<Rightarrow> reply srv" where
  "decoded body k = (case body of None \<Rightarrow> retS (Refused 400) | Some req \<Rightarrow> k req)"

definition within :: "string list \<Rightarrow> reply srv \<Rightarrow> reply srv" where
  "within keys m = bindS (limited keys) (\<lambda>ok. if ok then m else retS (Refused 429))"

definition note_audit :: "audit_entry \<Rightarrow> unit srv" where
  "note_audit e = bindS (onDb (AppendAudit e)) (\<lambda>_. retS ())"

definition audit_of :: "int \<Rightarrow> string \<Rightarrow> string \<Rightarrow> string \<Rightarrow> string \<Rightarrow> string \<Rightarrow> audit_entry" where
  "audit_of actor name action target message ip = \<lparr>ae_id = 0, ae_ts = None, ae_actor_admin_id = actor,
     ae_actor_username = name, ae_action = action, ae_target_type = target, ae_target_id = [],
     ae_message = message, ae_ip = ip\<rparr>"

subsection \<open>The second factor\<close>

definition verifySecondFactor :: "env \<Rightarrow> admin \<Rightarrow> string \<Rightarrow> bool srv" where
  "verifySecondFactor E admin code =
     bindS (onDb (TOTPFor (a_id admin))) (\<lambda>r.
     case r of
       Inl _ \<Rightarrow> retS True
     | Inr st \<Rightarrow>
         if \<not> to_confirmed st then retS True
         else let code' = trim_space code in
           if code' = [] then retS False
           else bindS now (\<lambda>t.
             if en_totp E t code' (to_secret st) then retS True
             else bindS (onDb (UseBackupCode (en_hash E) (a_id admin) code')) (\<lambda>used.
                  retS (case used of Inl _ \<Rightarrow> False | Inr b \<Rightarrow> b))))"

definition backupCodeCount :: nat where "backupCodeCount = 10"

definition base32_alphabet :: string where "base32_alphabet = ''ABCDEFGHIJKLMNOPQRSTUVWXYZ234567''"

text \<open>Base 32 of five bytes: the forty bits, five at a time, from the most significant.\<close>

definition base32_5 :: "bytes \<Rightarrow> string" where
  "base32_5 buf = (let n = foldl (\<lambda>a c. a * 256 + of_char c) 0 buf :: nat in
     map (\<lambda>i. base32_alphabet ! (n div 32 ^ (7 - i) mod 32)) [0..<8])"

definition backup_code :: "bytes \<Rightarrow> string" where
  "backup_code buf = (let raw = to_lower (base32_5 buf) in take 4 raw @ ''-'' @ take 4 (drop 4 raw))"

text \<open>The argument holds the draws of the loop, \<^term>\<open>None\<close> where the entropy source fails.\<close>

definition generateBackupCodes :: "bytes option list \<Rightarrow> string list option" where
  "generateBackupCodes draws = those (map (map_option backup_code) (take backupCodeCount draws))"

definition startTOTP :: "string option \<Rightarrow> admin \<Rightarrow> reply srv" where
  "startTOTP key admin = (case key of
     None \<Rightarrow> retS (Refused 500)
   | Some secret \<Rightarrow> bindS (onDb (StartTOTP (a_id admin) secret)) (\<lambda>r.
       retS (case r of Inl _ \<Rightarrow> Refused 500 | Inr _ \<Rightarrow> TotpSecret secret)))"

definition give_backup_codes :: "env \<Rightarrow> bytes option list \<Rightarrow> string \<Rightarrow> request \<Rightarrow> admin \<Rightarrow> reply srv" where
  "give_backup_codes E draws action rq admin = (case generateBackupCodes draws of
     None \<Rightarrow> retS (Refused 500)
   | Some codes \<Rightarrow> bindS (onDb (SetBackupCodes (en_hash E) (a_id admin) codes)) (\<lambda>r.
       case r of
         Inl _ \<Rightarrow> retS (Refused 500)
       | Inr _ \<Rightarrow> bindS (note_audit (audit_of (a_id admin) (a_username admin) action [] [] (rq_ip rq))) (\<lambda>_.
                  retS (BackupCodes codes))))"

definition confirmTOTP :: "env \<Rightarrow> bytes option list \<Rightarrow> request \<Rightarrow> string option \<Rightarrow> admin \<Rightarrow> reply srv" where
  "confirmTOTP E draws rq body admin = decoded body (\<lambda>code.
     within [''totp:'' @ itoa (a_id admin)] (
     bindS (onDb (TOTPFor (a_id admin))) (\<lambda>r.
     case r of
       Inl _ \<Rightarrow> retS (Refused 404)
     | Inr st \<Rightarrow> bindS now (\<lambda>t.
         if \<not> en_totp E t (trim_space code) (to_secret st) then retS (Refused 403)
         else bindS (onDb (ConfirmTOTP (a_id admin))) (\<lambda>c.
           case c of
             Inl _ \<Rightarrow> retS (Refused 500)
           | Inr _ \<Rightarrow> give_backup_codes E draws ''admin.totp_enabled'' rq admin)))))"

definition reissueBackupCodes :: "env \<Rightarrow> bytes option list \<Rightarrow> request \<Rightarrow> string option \<Rightarrow> admin \<Rightarrow> reply srv" where
  "reissueBackupCodes E draws rq body admin = decoded body (\<lambda>password.
     bindS (onDb (TOTPFor (a_id admin))) (\<lambda>r.
     case r of
       Inl _ \<Rightarrow> retS (Refused 404)
     | Inr st \<Rightarrow>
         if \<not> to_confirmed st then retS (Refused 404)
         else bindS (onAuth (VerifyCredentials (en_crypto E) (a_username admin) password)) (\<lambda>v.
           case v of
             Inl _ \<Rightarrow> retS (Refused 403)
           | Inr _ \<Rightarrow> give_backup_codes E draws ''admin.backup_codes_reissued'' rq admin)))"

definition disableTOTP :: "env \<Rightarrow> request \<Rightarrow> string option \<Rightarrow> admin \<Rightarrow> reply srv" where
  "disableTOTP E rq body admin = decoded body (\<lambda>password.
     within [''totp-off:'' @ itoa (a_id admin)] (
     bindS (onAuth (VerifyCredentials (en_crypto E) (a_username admin) password)) (\<lambda>v.
     case v of
       Inl _ \<Rightarrow> retS (Refused 403)
     | Inr _ \<Rightarrow> bindS (onDb (DisableTOTP (a_id admin))) (\<lambda>r.
         case r of
           Inl _ \<Rightarrow> retS (Refused 500)
         | Inr _ \<Rightarrow> bindS (note_audit (audit_of (a_id admin) (a_username admin) ''admin.totp_disabled'' [] [] (rq_ip rq)))
                     (\<lambda>_. retS Done)))))"

subsection \<open>Password logins\<close>

record login_request =
  li_username :: string
  li_password :: string
  li_device_name :: string
  li_code :: string

definition login_keys :: "request \<Rightarrow> login_request \<Rightarrow> string list" where
  "login_keys rq req = [''login-ip:'' @ rq_ip rq, ''login-user:'' @ to_lower (trim_space (li_username req))]"

definition handleLogin :: "env \<Rightarrow> string option \<Rightarrow> request \<Rightarrow> login_request option \<Rightarrow> reply srv" where
  "handleLogin E token rq body = only ''POST'' rq (decoded body (\<lambda>req.
     within (login_keys rq req) (
     bindS (onAuth (VerifyCredentials (en_crypto E) (li_username req) (li_password req))) (\<lambda>checked.
     bindS (case checked of Inl _ \<Rightarrow> retS True | Inr a \<Rightarrow> verifySecondFactor E a (li_code req)) (\<lambda>passed.
     if \<not> passed then retS TotpRequired
     else bindS (onAuth (Login (en_crypto E) token (li_username req) (li_password req))) (\<lambda>r.
       case r of
         Inl e \<Rightarrow>
           if e = ErrInvalidCredentials
           then bindS (note_audit (audit_of 0 (li_username req) ''auth.login_failed'' [] [] (rq_ip rq))) (\<lambda>_. retS (Refused 401))
           else retS (Refused 500)
       | Inr (a, sess) \<Rightarrow>
           bindS (note_audit (audit_of (a_id a) (a_username a) ''auth.login'' [] [] (rq_ip rq))) (\<lambda>_.
           retS (SignedIn (Some (WriteSessionCookie (en_secure E) sess)) a))))))))"

subsection \<open>The application\<close>

definition appSessionTTL :: int where "appSessionTTL = 180 * 24 * 3600 * 1000"

definition default_device :: string where
  "default_device = map char_of [0xd1, 0x83, 0xd1, 0x81, 0xd1, 0x82, 0xd1, 0x80, 0xd0, 0xbe, 0xd0, 0xb9, 0xd1, 0x81, 0xd1, 0x82, 0xd0, 0xb2, 0xd0, 0xbe :: nat]"

definition issueAppSession :: "env \<Rightarrow> string option \<Rightarrow> string option \<Rightarrow> request \<Rightarrow> admin \<Rightarrow> string \<Rightarrow> reply srv" where
  "issueAppSession E i token rq admin deviceName = (case (i, token) of
     (Some i', Some token') \<Rightarrow>
       let device = (let d = trim_space deviceName in if d = [] then default_device else d) in
       bindS (onDb (CreateAppSession (en_hash E) i' token' (a_id admin) device appSessionTTL)) (\<lambda>r.
       case r of
         Inl _ \<Rightarrow> retS (Refused 500)
       | Inr _ \<Rightarrow>
           bindS (note_audit (audit_of (a_id admin) (a_username admin) ''app.session_created'' [] device (rq_ip rq))) (\<lambda>_.
           retS (AppToken token' admin)))
   | _ \<Rightarrow> retS (Refused 500))"

definition handleAppConsent :: "string option \<Rightarrow> request \<Rightarrow> string \<Rightarrow> admin \<Rightarrow> reply srv" where
  "handleAppConsent draw rq deviceName admin = only ''POST'' rq (case draw of
     None \<Rightarrow> retS (Refused 500)
   | Some code \<Rightarrow>
       bindS now (\<lambda>t.
       bindS (onCodes (\<lambda>m. ((), issue code (a_id admin) t m))) (\<lambda>_.
       bindS (note_audit (audit_of (a_id admin) (a_username admin) ''app.consent_given'' [] (trim_space deviceName) (rq_ip rq))) (\<lambda>_.
       retS (Redirect (''wingsv://account?code='' @ code))))))"

definition handleAppSession ::
  "env \<Rightarrow> string option \<Rightarrow> string option \<Rightarrow> request \<Rightarrow> (string \<times> string) option \<Rightarrow> reply srv" where
  "handleAppSession E i token rq body = only ''POST'' rq (decoded body (\<lambda>(code, deviceName).
     within [''appcode-ip:'' @ rq_ip rq] (
     bindS now (\<lambda>t.
     bindS (onCodes (redeem (trim_space code) t)) (\<lambda>r.
     case r of
       None \<Rightarrow> retS (Refused 403)
     | Some adminID \<Rightarrow> bindS (onDb (FindAdminByID adminID)) (\<lambda>f.
         case f of
           Inl _ \<Rightarrow> retS (Refused 403)
         | Inr a \<Rightarrow> issueAppSession E i token rq a deviceName))))))"

definition handleAppLogin ::
  "env \<Rightarrow> string option \<Rightarrow> string option \<Rightarrow> request \<Rightarrow> login_request option \<Rightarrow> reply srv" where
  "handleAppLogin E i token rq body = only ''POST'' rq (decoded body (\<lambda>req.
     within (login_keys rq req) (
     bindS (onAuth (VerifyCredentials (en_crypto E) (li_username req) (li_password req))) (\<lambda>r.
     case r of
       Inl e \<Rightarrow> retS (Refused (case e of SuspendedError _ \<Rightarrow> 403 | _ \<Rightarrow> 401))
     | Inr a \<Rightarrow> bindS (verifySecondFactor E a (li_code req)) (\<lambda>passed.
         if \<not> passed then retS TotpRequired
         else issueAppSession E i token rq a (li_device_name req))))))"

definition authenticateApp :: "env \<Rightarrow> request \<Rightarrow> admin option srv" where
  "authenticateApp E rq =
     (if \<not> has_prefix (rq_authorization rq) ''Bearer '' then retS None
      else bindS (onDb (LookupAppSession (en_hash E) (trim_prefix (rq_authorization rq) ''Bearer ''))) (\<lambda>r.
      case r of
        Inl _ \<Rightarrow> retS None
      | Inr sess \<Rightarrow> bindS (onDb (FindAdminByID (ap_admin_id sess))) (\<lambda>f.
          retS (case f of Inl _ \<Rightarrow> None | Inr a \<Rightarrow> Some a))))"

definition requireApp :: "env \<Rightarrow> request \<Rightarrow> (admin \<Rightarrow> reply srv) \<Rightarrow> reply srv" where
  "requireApp E rq k = bindS (authenticateApp E rq) (\<lambda>r. case r of None \<Rightarrow> retS (Refused 401) | Some a \<Rightarrow> k a)"

definition handleAppLogout :: "env \<Rightarrow> request \<Rightarrow> admin \<Rightarrow> reply srv" where
  "handleAppLogout E rq admin =
     bindS (onDb (LookupAppSession (en_hash E) (trim_prefix (rq_authorization rq) ''Bearer ''))) (\<lambda>r.
     case r of
       Inl _ \<Rightarrow> retS Done
     | Inr sess \<Rightarrow>
         bindS (onDb (DeleteAppSession (ap_id sess))) (\<lambda>_.
         bindS (note_audit (audit_of (a_id admin) (a_username admin) ''app.session_revoked'' [] (ap_device_name sess) (rq_ip rq)))
           (\<lambda>_. retS Done)))"

subsection \<open>QR sign-in\<close>

definition handleQRStart :: "string option \<Rightarrow> request \<Rightarrow> reply srv" where
  "handleQRStart draw rq = only ''POST'' rq (bindS now (\<lambda>t.
     bindS (onDesk (qr_open t draw (rq_ip rq) (rq_user_agent rq))) (\<lambda>r.
     retS (case r of None \<Rightarrow> Refused 500 | Some (code, expires) \<Rightarrow> QRCode code expires))))"

definition handleQRStatus :: "env \<Rightarrow> string option \<Rightarrow> request \<Rightarrow> string \<Rightarrow> reply srv" where
  "handleQRStatus E token rq query = only ''GET'' rq (
     let code = trim_space query in
     bindS now (\<lambda>t.
     bindS (onDesk (\<lambda>d. (qr_get t code d, d))) (\<lambda>g.
     if g = None then retS (QRState ''expired'')
     else bindS (onDesk (qr_take t code)) (\<lambda>r.
       case r of
         None \<Rightarrow> retS (QRState ''pending'')
       | Some adminID \<Rightarrow> bindS (onAuth (OpenSession token adminID)) (\<lambda>res.
           case res of
             Inl e \<Rightarrow> retS (case e of SuspendedError _ \<Rightarrow> QRState ''refused'' | _ \<Rightarrow> Refused 500)
           | Inr (a, sess) \<Rightarrow>
               bindS (note_audit (audit_of (a_id a) (a_username a) ''admin.qr_login'' ''admin'' [] [])) (\<lambda>_.
               retS (SignedIn (Some (WriteSessionCookie (en_secure E) sess)) a)))))))"

definition handleQRPending :: "request \<Rightarrow> string \<Rightarrow> reply srv" where
  "handleQRPending rq query = only ''GET'' rq (bindS now (\<lambda>t.
     bindS (onDesk (\<lambda>d. (qr_get t (trim_space query) d, d))) (\<lambda>g.
     retS (case g of None \<Rightarrow> Refused 404
       | Some row \<Rightarrow> QRInfo (qr_from_ip row) (qr_user_agent row) (qr_created_at row) (qr_approved_by row \<noteq> 0)))))"

definition handleQRApprove :: "request \<Rightarrow> string option \<Rightarrow> admin \<Rightarrow> reply srv" where
  "handleQRApprove rq body admin = only ''POST'' rq (decoded body (\<lambda>code.
     bindS now (\<lambda>t.
     bindS (onDesk (qr_approve t (trim_space code) (a_id admin))) (\<lambda>ok.
     if \<not> ok then retS (Refused 404)
     else bindS (note_audit (audit_of (a_id admin) (a_username admin) ''admin.qr_approved'' ''admin'' [] [])) (\<lambda>_.
          retS Done)))))"


subsection \<open>Evaluation\<close>

lemma srv_app [simp]:
  "retS x sv = (x, sv)" "bindS m k sv = k (fst (m sv)) (snd (m sv))"
  "onDb d sv = (fst (d (sv_store sv)), sv\<lparr>sv_store := snd (d (sv_store sv))\<rparr>)"
  "onAuth u sv = (fst (u (sv_store sv)), sv\<lparr>sv_store := snd (u (sv_store sv))\<rparr>)"
  "now sv = (clock (sv_store sv), sv)"
  "onDesk f sv = (fst (f (sv_desk sv)), sv\<lparr>sv_desk := snd (f (sv_desk sv))\<rparr>)"
  "onCodes g sv = (fst (g (sv_codes sv)), sv\<lparr>sv_codes := snd (g (sv_codes sv))\<rparr>)"
  by (simp_all add: retS_def bindS_def onDb_def onAuth_def now_def onDesk_def onCodes_def split: prod.split)

lemma sv_store_id [simp]: "sv\<lparr>sv_store := sv_store sv\<rparr> = sv"
  by simp

lemma clock_upd: "clock (s\<lparr>clock := t\<rparr>) = t"
  by simp

lemma sv_store_upd: "sv_store (sv\<lparr>sv_limiter := l, sv_store := s\<rparr>) = s"
  by simp

lemma limited_app: "limited keys sv = (fst (limitAttempt (clock (sv_store sv)) keys (sv_limiter sv)),
    sv\<lparr>sv_limiter := snd (limitAttempt (clock (sv_store sv)) keys (sv_limiter sv))\<rparr>)"
  by (simp add: limited_def split: prod.split)

lemma within_app: "within keys m sv =
    (if fst (limitAttempt (clock (sv_store sv)) keys (sv_limiter sv))
     then m (sv\<lparr>sv_limiter := snd (limitAttempt (clock (sv_store sv)) keys (sv_limiter sv))\<rparr>)
     else (Refused 429, sv\<lparr>sv_limiter := snd (limitAttempt (clock (sv_store sv)) keys (sv_limiter sv))\<rparr>))"
  by (simp add: within_def limited_app)

text \<open>An audit line touches the audit log alone.\<close>

definition only_audits :: "store \<Rightarrow> store \<Rightarrow> bool" where
  "only_audits s t \<longleftrightarrow> (\<exists>au n. t = s\<lparr>audits := au, audits_seq := n\<rparr>)"

lemma only_audits_refl: "only_audits s s"
  unfolding only_audits_def by (rule exI [of _ "audits s"], rule exI [of _ "audits_seq s"]) simp

lemma only_audits_if: "only_audits s (snd (if b then (x, s\<lparr>audits := au, audits_seq := n\<rparr>) else (y, s)))"
  using only_audits_refl by (auto simp: only_audits_def)

lemma AppendAudit_frame:
  assumes "faults s = []"
  shows "only_audits s (snd (AppendAudit e s))"
proof (cases "ae_action e = []")
  case True
  then show ?thesis by (simp add: AppendAudit_def fail_def only_audits_refl)
next
  case False
  show ?thesis
    unfolding AppendAudit_def bindE_def asks_def Let_def prod.case sum.case
    by (simp only: False if_False stmt_ok [OF assms] only_audits_if)
qed

lemma note_audit_app:
  "note_audit e sv = ((), sv\<lparr>sv_store := snd (AppendAudit e (sv_store sv))\<rparr>)"
  by (simp add: note_audit_def)

subsection \<open>Who gets in with a password\<close>

lemma VerifyCredentials_ok:
  assumes f: "faults s = []" and wf: "wf_store s"
  shows "VerifyCredentials C u p s =
    (case find (\<lambda>r. adm_username r = NormalizeUsername u) (admins s) of
       None \<Rightarrow> (Inl ErrInvalidCredentials, s)
     | Some m \<Rightarrow>
         if \<not> bcrypt_cmp C (adm_password_hash m) p then (Inl ErrInvalidCredentials, s)
         else if adm_suspended_at m > 0 then (Inl (SuspendedError (adm_suspended_reason m)), s)
         else (Inr (toStorageAdmin m),
               admins_update (update_where (\<lambda>r. adm_id r = adm_id m) (\<lambda>r. r\<lparr>adm_last_login_at := clock s\<rparr>)) s))"
proof (cases "find (\<lambda>r. adm_username r = NormalizeUsername u) (admins s)")
  case None
  then show ?thesis by (simp add: VerifyCredentials_def bindA_app find_for_login_ok f)
next
  case (Some m)
  then have m: "m \<in> set (admins s)" by (auto simp: find_Some_iff)
  have pw: "a_password_hash (toStorageAdmin m) = adm_password_hash m" "a_id (toStorageAdmin m) = adm_id m"
    by (simp_all add: toStorageAdmin_def)
  show ?thesis
    using Some
    by (simp add: VerifyCredentials_def bindA_app find_for_login_ok f refuse_suspended_ok admin_by_id_member [OF wf m]
        VerifyPassword_def pw MarkAdminLogin_ok)
qed

lemma Login_refused:
  assumes "faults s = []" "VerifyCredentials C u p s = (Inl e, s')"
  shows "Login C tok u p s = (Inl e, s)"
  using assms
  by (auto simp: VerifyCredentials_def Login_def bindA_app find_for_login_ok refuse_suspended_ok MarkAdminLogin_ok
      split: option.splits if_splits prod.splits sum.splits)

lemma find_for_login_name: "find_for_login u s = (Inr a, s') \<Longrightarrow> a_username a = NormalizeUsername u"
  by (auto simp: find_for_login_def bindA_app FindAdminByUsername_def bindE_def ret_def find_row_def query_first_def
      stmt_def toStorageAdmin_def find_Some_iff split: option.splits sum.splits prod.splits list.splits error.splits if_splits)

lemma Login_name:
  assumes "Login C tok u p s = (Inr (a, sess), s')"
  shows "a_username a = NormalizeUsername u"
proof -
  obtain b t where f: "find_for_login u s = (Inr b, t)"
    using assms by (auto simp: Login_def bindA_app split: prod.splits sum.splits)
  have "a = b" using assms f
    by (auto simp: Login_def enter_def bindA_app split: prod.splits sum.splits if_splits)
  then show ?thesis using find_for_login_name [OF f] by simp
qed

text \<open>What the second factor of an account asks for, in the store it is checked in.\<close>

definition factor_met :: "env \<Rightarrow> int \<Rightarrow> string \<Rightarrow> store \<Rightarrow> bool" where
  "factor_met E i code s = (case totp_of i s of
     None \<Rightarrow> True
   | Some r \<Rightarrow> tp_confirmed_at r \<le> 0 \<or> (trim_space code \<noteq> [] \<and>
       (en_totp E (clock s) (trim_space code) (tp_secret r) \<or>
        (\<exists>b \<in> set (totpbackups s). tb_admin_id b = i \<and> tb_used_at b = 0 \<and>
           tb_code_hash b = hashBackupCode (en_hash E) (trim_space code)))))"

definition entitled :: "env \<Rightarrow> login_request \<Rightarrow> store \<Rightarrow> admin \<Rightarrow> bool" where
  "entitled E req s a \<longleftrightarrow> (\<exists>m \<in> set (admins s). adm_username m = a_username a \<and>
     adm_username m = NormalizeUsername (li_username req) \<and>
     bcrypt_cmp (en_crypto E) (adm_password_hash m) (li_password req) \<and> adm_suspended_at m \<le> 0 \<and>
     factor_met E (adm_id m) (li_code req) s)"

lemma TOTPFor_ok: "faults s = [] \<Longrightarrow> TOTPFor i s = (case totp_of i s of None \<Rightarrow> Inl ErrNotFound
    | Some r \<Rightarrow> Inr \<lparr>to_secret = tp_secret r, to_confirmed = (tp_confirmed_at r > 0)\<rparr>, s)"
  by (simp add: TOTPFor_def bindE_def find_row_ok split: option.split)

lemma UseBackupCode_true:
  assumes "faults s = []" "fst (UseBackupCode H i code s) = Inr True"
  shows "\<exists>b \<in> set (totpbackups s). tb_admin_id b = i \<and> tb_used_at b = 0 \<and> tb_code_hash b = hashBackupCode H code"
proof (rule ccontr)
  assume n: "\<not> ?thesis"
  then have "filter (\<lambda>r. tb_admin_id r = i \<and> tb_code_hash r = hashBackupCode H code \<and> tb_used_at r = 0) (totpbackups s) = []"
    by (auto simp: filter_empty_conv)
  then have "affected d (\<lambda>r. tb_admin_id r = i \<and> tb_code_hash r = hashBackupCode H code \<and> tb_used_at r = 0) g (totpbackups s) = 0" for d g
    by (auto simp: affected_def filter_empty_conv split: driver.split)
  then show False using assms by (simp add: UseBackupCode_def bindE_def asks_def attempt_app update_rows_ok)
qed

lemma verifySecondFactor_met:
  assumes "faults (sv_store sv) = []" "fst (verifySecondFactor E a code sv)"
  shows "factor_met E (a_id a) code (sv_store sv)"
proof (cases "totp_of (a_id a) (sv_store sv)")
  case (Some r)
  show ?thesis
    using assms Some UseBackupCode_true [OF assms(1), of "en_hash E" "a_id a" "trim_space code"]
    by (auto simp: factor_met_def verifySecondFactor_def TOTPFor_ok Let_def split: if_splits sum.splits)
qed (simp add: factor_met_def)

lemma VerifyCredentials_entitled:
  assumes f: "faults s = []" and wf: "wf_store s" and v: "VerifyCredentials (en_crypto E) u p s = (Inr a, s')"
  obtains m where "m \<in> set (admins s)" "adm_username m = NormalizeUsername u" "bcrypt_cmp (en_crypto E) (adm_password_hash m) p"
    "adm_suspended_at m \<le> 0" "a = toStorageAdmin m" "faults s' = []" "clock s' = clock s" "totps s' = totps s"
    "totpbackups s' = totpbackups s"
proof -
  obtain m where m: "find (\<lambda>r. adm_username r = NormalizeUsername u) (admins s) = Some m"
    "bcrypt_cmp (en_crypto E) (adm_password_hash m) p" "\<not> adm_suspended_at m > 0" "a = toStorageAdmin m"
    "s' = admins_update (update_where (\<lambda>r. adm_id r = adm_id m) (\<lambda>r. r\<lparr>adm_last_login_at := clock s\<rparr>)) s"
    using v unfolding VerifyCredentials_ok [OF f wf] by (auto split: option.splits if_splits)
  then show ?thesis using that [of m] f by (auto simp: find_Some_iff)
qed

lemma factor_met_cong: "totps s' = totps s \<Longrightarrow> totpbackups s' = totpbackups s \<Longrightarrow> clock s' = clock s \<Longrightarrow>
    factor_met E i code s' = factor_met E i code s"
  by (simp add: factor_met_def totp_of_def split: option.split)

lemma entitledI:
  assumes f: "faults s = []" and wf: "wf_store s"
    and v: "VerifyCredentials (en_crypto E) (li_username req) (li_password req) s = (Inr b, s')"
    and k: "fst (verifySecondFactor E b (li_code req) sv)" "sv_store sv = s'"
    and a: "a_username a = NormalizeUsername (li_username req)"
  shows "entitled E req s a"
proof (rule VerifyCredentials_entitled [OF f wf v])
  fix m assume m: "m \<in> set (admins s)" "adm_username m = NormalizeUsername (li_username req)"
    "bcrypt_cmp (en_crypto E) (adm_password_hash m) (li_password req)" "adm_suspended_at m \<le> 0" "b = toStorageAdmin m"
    "faults s' = []" "clock s' = clock s" "totps s' = totps s" "totpbackups s' = totpbackups s"
  have "factor_met E (a_id b) (li_code req) s'" using verifySecondFactor_met [OF _ k(1)] m(6) k(2) by simp
  then have "factor_met E (adm_id m) (li_code req) s"
    using factor_met_cong [of s' s] m by (simp add: toStorageAdmin_def)
  then show ?thesis using m a by (auto simp: entitled_def)
qed

lemma login_entitled:
  assumes f: "faults (sv_store sv) = []" and wf: "wf_store (sv_store sv)"
    and r: "fst (handleLogin E token rq (Some req) sv) = SignedIn ck a"
  shows "entitled E req (sv_store sv) a"
proof -
  let ?s = "sv_store sv" and ?C = "en_crypto E" and ?u = "li_username req" and ?p = "li_password req"
  obtain v s1 where v: "VerifyCredentials ?C ?u ?p ?s = (v, s1)" by force
  show ?thesis
  proof (cases v)
    case (Inl e)
    have "fst (Login ?C token ?u ?p s1) = Inl e"
      using Login_refused [OF f v [unfolded Inl]] v Inl VerifyCredentials_ok [OF f wf, of ?C ?u ?p]
      by (auto split: option.splits if_splits)
    then show ?thesis using r v Inl
      by (auto simp: handleLogin_def only_def decoded_def within_app note_audit_app split: if_splits sum.splits prod.splits)
  next
    case (Inr b)
    obtain sv2 where sv2: "sv2 = sv\<lparr>sv_limiter := snd (limitAttempt (clock ?s) (login_keys rq req) (sv_limiter sv)), sv_store := s1\<rparr>"
      by blast
    have "fst (verifySecondFactor E b (li_code req) sv2) \<and>
        (\<exists>sess t s2. Login ?C token ?u ?p s2 = (Inr (a, sess), t))"
      using r v Inr unfolding sv2
      by (auto simp: handleLogin_def only_def decoded_def within_app note_audit_app split: if_splits sum.splits prod.splits)
         (metis prod.collapse)
    then show ?thesis using entitledI [OF f wf v [unfolded Inr], of sv2] Login_name by (metis sv2 sv_store_upd)
  qed
qed

lemma issueAppSession_token:
  "fst (issueAppSession E i token rq b d sv) = AppToken t a \<Longrightarrow> a = b"
  by (auto simp: issueAppSession_def Let_def note_audit_app split: option.splits sum.splits if_splits)

lemma app_login_entitled:
  assumes f: "faults (sv_store sv) = []" and wf: "wf_store (sv_store sv)"
    and r: "fst (handleAppLogin E i token rq (Some req) sv) = AppToken t a"
  shows "entitled E req (sv_store sv) a"
proof -
  let ?s = "sv_store sv"
  obtain v s1 where v: "VerifyCredentials (en_crypto E) (li_username req) (li_password req) ?s = (v, s1)" by force
  obtain sv2 where sv2: "sv2 = sv\<lparr>sv_limiter := snd (limitAttempt (clock ?s) (login_keys rq req) (sv_limiter sv)), sv_store := s1\<rparr>"
    by blast
  obtain b where b: "v = Inr b" using r v
    by (cases v) (auto simp: handleAppLogin_def only_def decoded_def within_app split: if_splits)
  have k: "fst (verifySecondFactor E b (li_code req) sv2)" "a = b"
    using r v b issueAppSession_token unfolding sv2
    by (auto simp: handleAppLogin_def only_def decoded_def within_app split: if_splits)
  have "a_username b = NormalizeUsername (li_username req)"
    by (rule VerifyCredentials_entitled [OF f wf v [unfolded b]]) (simp add: toStorageAdmin_def)
  then show ?thesis using entitledI [OF f wf v [unfolded b], of sv2] k by (simp add: sv2)
qed

text \<open>C8: A password is not enough. With a working database neither the panel's login nor the application's
  lets anybody in who does not know the password of an account that is not suspended and, where the
  account has a confirmed second factor, a valid code of it or a backup code not used before.\<close>

theorem sign_in_needs_both_factors:
  assumes "faults (sv_store sv) = []" "wf_store (sv_store sv)"
  shows "(case fst (handleLogin E token rq (Some req) sv) of SignedIn ck a \<Rightarrow> entitled E req (sv_store sv) a | _ \<Rightarrow> True) \<and>
    (case fst (handleAppLogin E i token rq (Some req) sv) of AppToken t a \<Rightarrow> entitled E req (sv_store sv) a | _ \<Rightarrow> True)"
  using login_entitled [OF assms] app_login_entitled [OF assms] by (auto split: reply.split)

text \<open>C26: The panel's login forgets the second factor when its first query fails. If the database refuses
  just the first statement of a login, the check of the code is skipped, the password is checked a
  second time, and whoever knows it is let in whatever second factor the account has.\<close>

theorem login_skips_factor_on_fault:
  assumes "faults (sv_store sv) = [True]" "wf_store (sv_store sv)" "i \<notin> se_id ` set (sessions (sv_store sv))"
    and "find (\<lambda>r. adm_username r = NormalizeUsername (li_username req)) (admins (sv_store sv)) = Some m"
    and "bcrypt_cmp (en_crypto E) (adm_password_hash m) (li_password req)" "adm_suspended_at m \<le> 0"
    and "rq_method rq = ''POST''" "fst (limitAttempt (clock (sv_store sv)) (login_keys rq req) (sv_limiter sv))"
  shows "fst (handleLogin E (Some i) rq (Some req) sv) =
    SignedIn (Some (WriteSessionCookie (en_secure E) (session_for i (adm_id m) (clock (sv_store sv))))) (toStorageAdmin m)"
proof -
  let ?s = "sv_store sv" and ?t = "(sv_store sv)\<lparr>faults := []\<rparr>"
  have v: "VerifyCredentials (en_crypto E) (li_username req) (li_password req) ?s = (Inl (StorageError ErrDb), ?t)"
    using assms(1) by (simp add: VerifyCredentials_def bindA_app find_for_login_def FindAdminByUsername_def bindE_def
        find_row_def query_first_def stmt_def)
  have wf: "wf_store ?t" using assms(2) by (simp add: wf_defs)
  have l: "Login (en_crypto E) (Some i) (li_username req) (li_password req) ?t =
      (Inr (toStorageAdmin m, session_for i (adm_id m) (clock ?s)), signed_in i (adm_id m) ?t)"
    using login_outcome [OF _ wf, of i "en_crypto E" "li_username req" "li_password req"] assms(3-6) by simp
  show ?thesis using assms(7,8) by (simp add: handleLogin_def only_def decoded_def within_app v l note_audit_app)
qed

lemma find_new: "\<forall>x \<in> set xs. \<not> P x \<Longrightarrow> P r \<Longrightarrow> find P (xs @ [r]) = Some r"
  by (induction xs) auto

declare limitAttempt.simps [simp del]

subsection \<open>The second factor under its owner's hand\<close>

text \<open>Starting over takes the second factor off. With a working database a signed-in request to set up
  a second factor, which asks for no password, replaces a confirmed one by an unconfirmed one: from
  then on every code passes, the empty one included.\<close>

theorem start_totp_removes_factor:
  assumes "faults (sv_store sv) = []" "fk_admin (a_id admin) (sv_store sv)"
  shows "fst (startTOTP (Some key) admin sv) = TotpSecret key \<and>
    fst (verifySecondFactor E admin code (snd (startTOTP (Some key) admin sv)))"
proof -
  let ?s = "sv_store sv" and ?i = "a_id admin"
  let ?row = "\<lparr>tp_admin_id = ?i, tp_secret = key, tp_confirmed_at = 0, tp_created_at = clock ?s\<rparr>"
  have st: "StartTOTP ?i key ?s = (Inr (), totps_update (\<lambda>rs. filter (\<lambda>r. tp_admin_id r \<noteq> ?i) rs @ [?row]) ?s)"
    using assms by (auto simp: StartTOTP_def delete_totp_def bindE_def delete_rows_ok insert_row_ok asks_def ret_def
        fk_admin_def comp_def)
  have "totp_of ?i (snd (StartTOTP ?i key ?s)) = Some ?row"
    by (simp add: st totp_of_def find_new)
  then show ?thesis using assms(1) by (simp add: startTOTP_def verifySecondFactor_def TOTPFor_ok st)
qed

subsection \<open>Tokens of the application\<close>

lemma has_prefix_append [simp]: "has_prefix (p @ t) p"
  by (simp add: has_prefix_def)

lemma authenticateApp_ok:
  assumes f: "faults (sv_store sv) = []" and h: "rq_authorization rq = ''Bearer '' @ tok"
    and row: "find (\<lambda>r. as_token_hash r = en_hash E tok) (appsessions (sv_store sv)) = Some row"
    and live: "\<not> (as_expires_at row > 0 \<and> clock (sv_store sv) > as_expires_at row)"
    and m: "admin_by_id (as_admin_id row) (sv_store sv) = Some m"
  shows "fst (authenticateApp E rq sv) = Some (toStorageAdmin m)"
proof -
  let ?s = "sv_store sv"
  have pre: "has_prefix (rq_authorization rq) ''Bearer ''" "trim_prefix (rq_authorization rq) ''Bearer '' = tok"
    using has_prefix_append [of "''Bearer ''" tok] unfolding h trim_prefix_def by simp_all
  let ?t = "appsessions_update (update_where (\<lambda>r. as_id r = as_id row) (\<lambda>r. r\<lparr>as_last_seen_at := clock ?s\<rparr>)) ?s"
  have l: "LookupAppSession (en_hash E) tok ?s = (Inr (toAppSession (row\<lparr>as_last_seen_at := clock ?s\<rparr>)), ?t)"
    using f row live
    by (auto simp: LookupAppSession_def HashAppToken_def bindE_def find_row_ok attempt_app update_rows_ok)
  have "admin_by_id (as_admin_id row) ?t = Some m" "faults ?t = []" using m f by (simp_all add: admin_by_id_def)
  then have "FindAdminByID (as_admin_id row) ?t = (Inr (toStorageAdmin m), ?t)" by (simp add: FindAdminByID_ok)
  then show ?thesis by (simp add: authenticateApp_def pre l toAppSession_def)
qed

text \<open>A cut does not reach the application. After a branch of the invite tree has been suspended, with
  its panel sessions dropped, every application token of an account in it that was valid before
  still authenticates that account, now marked as suspended.\<close>

theorem app_token_survives_cut:
  assumes f: "faults (sv_store sv) = []" and wf: "wf_store (sv_store sv)"
    and root: "admin_by_id root (sv_store sv) = Some mr" "a_role (toStorageAdmin mr) \<noteq> RoleOwner"
    and row: "find (\<lambda>r. as_token_hash r = en_hash E tok) (appsessions (sv_store sv)) = Some row"
      "\<not> (as_expires_at row > 0 \<and> clock (sv_store sv) > as_expires_at row)"
    and m: "admin_by_id (as_admin_id row) (sv_store sv) = Some m" "cut_off (sv_store sv) root m"
    and h: "rq_authorization rq = ''Bearer '' @ tok"
  shows "\<exists>m'. admin_by_id (as_admin_id row) (snd (SuspendSubtree root reason (sv_store sv))) = Some m' \<and>
    adm_suspended_at m' = clock (sv_store sv) \<and>
    fst (authenticateApp E rq (sv\<lparr>sv_store := snd (SuspendSubtree root reason (sv_store sv))\<rparr>)) = Some (toStorageAdmin m')"
proof -
  let ?s = "sv_store sv"
  let ?t = "snd (SuspendSubtree root reason ?s)" and ?m = "suspend_row (clock ?s) reason root m"
  note S = SuspendSubtree_ok [OF f root, of reason]
  have k: "adm_id (suspend_row (clock ?s) reason root r) = adm_id r" for r by (simp add: suspend_row_def)
  have "admin_by_id (as_admin_id row) ?t = Some ?m"
    using m wf by (simp add: S admin_by_id_def find_update_where [where key = adm_id, OF k])
  moreover have "fst (authenticateApp E rq (sv\<lparr>sv_store := ?t\<rparr>)) = Some (toStorageAdmin ?m)"
    by (rule authenticateApp_ok [OF _ h]) (use f row calculation in \<open>simp_all add: S\<close>)
  ultimately show ?thesis by (simp add: suspend_row_def)
qed

lemma only_audits_same:
  assumes "only_audits s t"
  shows "faults t = faults s" "admins t = admins s" "appsessions t = appsessions s" "clock t = clock s" "driver t = driver s"
  using assms by (auto simp: only_audits_def)

definition at_time :: "int \<Rightarrow> server \<Rightarrow> server" where
  "at_time t sv = sv\<lparr>sv_store := (sv_store sv)\<lparr>clock := t\<rparr>\<rparr>"

lemma issueAppSession_ok:
  assumes f: "faults (sv_store sv) = []" and fresh: "i \<notin> as_id ` set (appsessions (sv_store sv))"
      "en_hash E tok \<notin> as_token_hash ` set (appsessions (sv_store sv))" and a: "fk_admin (a_id a) (sv_store sv)"
  shows "\<exists>row t. issueAppSession E (Some i) (Some tok) rq a d sv = (AppToken tok a, sv\<lparr>sv_store := t\<rparr>) \<and>
    as_token_hash row = en_hash E tok \<and> as_admin_id row = a_id a \<and>
    as_expires_at row = clock (sv_store sv) + appSessionTTL \<and>
    only_audits (appsessions_update (\<lambda>rs. rs @ [row]) (sv_store sv)) t"
proof -
  let ?s = "sv_store sv" and ?d = "let d = trim_space d in if d = [] then default_device else d"
  define row where "row = \<lparr>as_id = i, as_admin_id = a_id a, as_token_hash = en_hash E tok,
     as_device_name = ?d, as_created_at = clock ?s, as_last_seen_at = clock ?s, as_expires_at = clock ?s + appSessionTTL\<rparr>"
  let ?t = "appsessions_update (\<lambda>rs. rs @ [row]) ?s"
  let ?e = "audit_of (a_id a) (a_username a) ''app.session_created'' [] ?d (rq_ip rq)"
  have c: "CreateAppSession (en_hash E) i tok (a_id a) ?d appSessionTTL ?s = (Inr (toAppSession row), ?t)"
    using f fresh a by (simp add: CreateAppSession_def HashAppToken_def bindE_def asks_def ret_def insert_row_ok
        fk_admin_def row_def Let_def)
  have "issueAppSession E (Some i) (Some tok) rq a d sv = (AppToken tok a, sv\<lparr>sv_store := snd (AppendAudit ?e ?t)\<rparr>)"
    using c by (simp add: issueAppSession_def note_audit_app Let_def)
  moreover have "only_audits ?t (snd (AppendAudit ?e ?t))" by (rule AppendAudit_frame) (simp add: f)
  moreover have "as_token_hash row = en_hash E tok" "as_admin_id row = a_id a"
    "as_expires_at row = clock ?s + appSessionTTL" by (simp_all add: row_def)
  ultimately show ?thesis by blast
qed

lemma handleAppConsent_ok:
  assumes "faults (sv_store sv) = []" "rq_method rq = ''POST''"
  shows "\<exists>t. handleAppConsent (Some code) rq d admin sv = (Redirect (''wingsv://account?code='' @ code),
      sv\<lparr>sv_codes := issue code (a_id admin) (clock (sv_store sv)) (sv_codes sv), sv_store := t\<rparr>) \<and> only_audits (sv_store sv) t"
  using assms AppendAudit_frame [OF assms(1)] by (auto simp: handleAppConsent_def only_def note_audit_app)

text \<open>C22: From consent to token. With a working database the code given on consent buys, within two minutes
  and below the attempt limit, a token that authenticates the consenting account for the hundred
  and eighty days that follow; the code itself is worth nothing afterwards.\<close>

theorem app_exchange:
  assumes f: "faults (sv_store sv) = []" and m: "admin_by_id (a_id admin) (sv_store sv) = Some m"
    and rq: "rq_method rq = ''POST''" "rq_method rq' = ''POST''" "rq_authorization rq'' = ''Bearer '' @ tok"
    and fresh: "i \<notin> as_id ` set (appsessions (sv_store sv))"
      "en_hash E tok \<notin> as_token_hash ` set (appsessions (sv_store sv))" "trim_space code = code"
    and times: "t \<le> clock (sv_store sv) + appCodeTTL" "t' \<le> t + appSessionTTL"
    and lim: "fst (limitAttempt t [''appcode-ip:'' @ rq_ip rq'] (sv_limiter sv))"
  shows "case handleAppSession E (Some i) (Some tok) rq' (Some (code, d'))
      (at_time t (snd (handleAppConsent (Some code) rq d admin sv))) of (r, sv2) \<Rightarrow>
    r = AppToken tok (toStorageAdmin m) \<and> fst (authenticateApp E rq'' (at_time t' sv2)) = Some (toStorageAdmin m) \<and>
    fst (redeem code t'' (sv_codes sv2)) = None"
proof -
  let ?s = "sv_store sv" and ?codes = "issue code (a_id admin) (clock (sv_store sv)) (sv_codes sv)"
  obtain t1 where c: "handleAppConsent (Some code) rq d admin sv = (Redirect (''wingsv://account?code='' @ code),
      sv\<lparr>sv_codes := ?codes, sv_store := t1\<rparr>)" and o1: "only_audits ?s t1"
    using handleAppConsent_ok [OF f rq(1)] by blast
  note s1 = only_audits_same [OF o1]
  let ?s1 = "t1\<lparr>clock := t\<rparr>"
  define sv1 where "sv1 = sv\<lparr>sv_limiter := snd (limitAttempt t [''appcode-ip:'' @ rq_ip rq'] (sv_limiter sv)),
      sv_codes := ?codes(code := None), sv_store := ?s1\<rparr>"
  have v1: "sv_store sv1 = ?s1" "sv_codes sv1 = ?codes(code := None)" by (simp_all add: sv1_def)
  have red: "redeem code t ?codes = (Some (a_id admin), ?codes(code := None))"
    using times(1) by (simp add: redeem_def issue_def)
  have adm: "admin_by_id (a_id admin) ?s1 = Some m" using m by (simp add: admin_by_id_def s1)
  have id: "a_id (toStorageAdmin m) = a_id admin" "m \<in> set (admins ?s1)"
    using adm by (auto simp: admin_by_id_def find_Some_iff toStorageAdmin_def)
  have fk: "fk_admin (a_id (toStorageAdmin m)) ?s1" using admin_fk [OF id(2)] by (simp add: toStorageAdmin_def)
  obtain row u where i: "issueAppSession E (Some i) (Some tok) rq' (toStorageAdmin m) d' sv1 =
      (AppToken tok (toStorageAdmin m), sv1\<lparr>sv_store := u\<rparr>)" "as_token_hash row = en_hash E tok"
      "as_admin_id row = a_id admin" "as_expires_at row = t + appSessionTTL"
      "only_audits (appsessions_update (\<lambda>rs. rs @ [row]) ?s1) u"
  proof -
    have "faults (sv_store sv1) = []" "i \<notin> as_id ` set (appsessions (sv_store sv1))"
      "en_hash E tok \<notin> as_token_hash ` set (appsessions (sv_store sv1))" "fk_admin (a_id (toStorageAdmin m)) (sv_store sv1)"
      using f fresh fk unfolding v1 by (simp_all add: s1)
    from issueAppSession_ok [OF this, of rq' d'] show ?thesis using that id(1) unfolding v1 unfolding clock_upd by metis
  qed
  note s2 = only_audits_same [OF i(5)]
  have "handleAppSession E (Some i) (Some tok) rq' (Some (code, d')) (at_time t (sv\<lparr>sv_codes := ?codes, sv_store := t1\<rparr>)) =
      (AppToken tok (toStorageAdmin m), sv1\<lparr>sv_store := u\<rparr>)"
    using rq(2) lim red FindAdminByID_ok [OF _ adm] f i(1)
    by (simp add: handleAppSession_def only_def decoded_def within_app at_time_def fresh(3) s1 sv1_def)
  moreover have "fst (authenticateApp E rq'' (at_time t' (sv1\<lparr>sv_store := u\<rparr>))) = Some (toStorageAdmin m)"
  proof (rule authenticateApp_ok [OF _ rq(3)])
    show "faults (sv_store (at_time t' (sv1\<lparr>sv_store := u\<rparr>))) = []" using f by (simp add: at_time_def s2 s1)
    show "find (\<lambda>r. as_token_hash r = en_hash E tok) (appsessions (sv_store (at_time t' (sv1\<lparr>sv_store := u\<rparr>)))) = Some row"
    proof -
      have "\<forall>x \<in> set (appsessions ?s). as_token_hash x \<noteq> en_hash E tok" using fresh(2) by force
      then show ?thesis using i(2) by (simp add: at_time_def s2 s1 find_new)
    qed
    show "\<not> (as_expires_at row > 0 \<and> clock (sv_store (at_time t' (sv1\<lparr>sv_store := u\<rparr>))) > as_expires_at row)"
      using times(2) i(4) by (simp add: at_time_def)
    show "admin_by_id (as_admin_id row) (sv_store (at_time t' (sv1\<lparr>sv_store := u\<rparr>))) = Some m"
      using adm i(3) by (simp add: at_time_def admin_by_id_def s2)
  qed
  ultimately show ?thesis by (simp add: c redeem_def v1)
qed

subsection \<open>QR sign-in, end to end\<close>

lemma OpenSession_entered:
  assumes f: "faults s = []" and r: "OpenSession token j s = (Inr (a, sess), s')"
  shows "\<exists>m. admin_by_id j s = Some m \<and> adm_suspended_at m \<le> 0 \<and> a_id a = j"
proof -
  obtain m where m: "admin_by_id j s = Some m"
    using r by (cases "admin_by_id j s")
      (auto simp: OpenSession_def bindA_app liftA_app FindAdminByID_def bindE_def find_row_ok f)
  have id: "adm_id m = j" using m by (auto simp: admin_by_id_def find_Some_iff)
  show ?thesis using r m id
    by (auto simp: OpenSession_def bindA_app liftA_app FindAdminByID_ok [OF f m] refuse_suspended_ok f toStorageAdmin_def
        enter_def split: if_splits prod.splits sum.splits)
qed


subsection \<open>At concrete inputs\<close>

definition sample_env :: env where
  "sample_env = \<lparr>en_crypto = sample_crypto, en_hash = (\<lambda>x. x), en_totp = (\<lambda>t code secret. code = secret), en_secure = True\<rparr>"

definition panel :: "store \<Rightarrow> server" where
  "panel s = \<lparr>sv_store = s, sv_limiter = newAttemptLimiter, sv_desk = newQRDesk, sv_codes = newAppCodes\<rparr>"

definition sample_request :: "string \<Rightarrow> string \<Rightarrow> request" where
  "sample_request meth auth = \<lparr>rq_method = meth, rq_ip = ''1.2.3.4'', rq_user_agent = ''ua'', rq_authorization = auth\<rparr>"

definition ann_login :: "string \<Rightarrow> login_request" where
  "ann_login code = \<lparr>li_username = '' Ann'', li_password = ''h'', li_device_name = ''phone'', li_code = code\<rparr>"

definition factor_store :: "bool list \<Rightarrow> store" where
  "factor_store fs = (sample_store DriverSQLite)\<lparr>faults := fs,
     totps := [\<lparr>tp_admin_id = 2, tp_secret = ''123456'', tp_confirmed_at = 5, tp_created_at = 4\<rparr>]\<rparr>"

lemma factor_store_simps [simp]: "faults (factor_store fs) = fs" "clock (factor_store fs) = 5000000" "wf_store (factor_store fs)"
  using sample_wf [of DriverSQLite]
  by (simp_all add: factor_store_def wf_defs sample_defs uniq_def refers_def)

lemma panel_simps [simp]: "sv_store (panel s) = s" "sv_limiter (panel s) = newAttemptLimiter"
    "sv_desk (panel s) = newQRDesk" "sv_codes (panel s) = newAppCodes"
  by (simp_all add: panel_def)

lemma ann_signed_in:
  "case fst (handleLogin sample_env (Some ''tok'') (sample_request ''POST'' []) (Some (ann_login ''123456'')) (panel (factor_store []))) of
     SignedIn ck a \<Rightarrow> True | _ \<Rightarrow> False"
  by code_simp

theorem sign_in_needs_both_factors_witness:
  "\<exists>ck a. fst (handleLogin sample_env (Some ''tok'') (sample_request ''POST'' []) (Some (ann_login ''123456'')) (panel (factor_store []))) =
     SignedIn ck a \<and> entitled sample_env (ann_login ''123456'') (factor_store []) a"
  using ann_signed_in sign_in_needs_both_factors [of "panel (factor_store [])", where E = sample_env and token = "Some ''tok''"
    and rq = "sample_request ''POST'' []" and req = "ann_login ''123456''"]
  by (simp split: reply.splits)

theorem login_skips_factor_on_fault_witness:
  "\<exists>ck a. fst (handleLogin sample_env (Some ''tok'') (sample_request ''POST'' []) (Some (ann_login [])) (panel (factor_store [True]))) =
     SignedIn ck a \<and> \<not> factor_met sample_env (a_id a) [] (factor_store [])"
proof -
  have n: "NormalizeUsername (li_username (ann_login [])) = ''ann''" by (simp add: ann_login_def norm_ann)
  have m: "find (\<lambda>r. adm_username r = NormalizeUsername (li_username (ann_login []))) (admins (sv_store (panel (factor_store [True])))) =
      Some (sample_admin 2 ''ann'' ''admin'')"
    unfolding n by (simp add: factor_store_def sample_find_ann)
  have l: "fst (limitAttempt (clock (sv_store (panel (factor_store [True])))) (login_keys (sample_request ''POST'' []) (ann_login []))
      (sv_limiter (panel (factor_store [True]))))"
    by code_simp
  have n2: "\<not> factor_met sample_env 2 [] (factor_store [])" by code_simp
  have "fst (handleLogin sample_env (Some ''tok'') (sample_request ''POST'' []) (Some (ann_login [])) (panel (factor_store [True]))) =
    SignedIn (Some (WriteSessionCookie (en_secure sample_env) (session_for ''tok'' (adm_id (sample_admin 2 ''ann'' ''admin''))
      (clock (sv_store (panel (factor_store [True]))))))) (toStorageAdmin (sample_admin 2 ''ann'' ''admin''))"
    by (rule login_skips_factor_on_fault [OF _ _ _ m _ _ _ l], simp, simp, simp add: factor_store_def)
      (simp_all add: sample_env_def sample_crypto_def sample_admin_def ann_login_def sample_request_def)
  moreover have "a_id (toStorageAdmin (sample_admin 2 ''ann'' ''admin'')) = 2" by (simp add: toStorageAdmin_def sample_admin_def)
  ultimately show ?thesis using n2 by auto
qed

theorem start_totp_removes_factor_witness:
  "case FindAdminByID 2 (factor_store []) of (r, _) \<Rightarrow> (case r of Inl _ \<Rightarrow> False | Inr a \<Rightarrow>
     \<not> fst (verifySecondFactor sample_env a [] (panel (factor_store []))) \<and>
     fst (verifySecondFactor sample_env a [] (snd (startTOTP (Some ''new'') a (panel (factor_store []))))))"
proof -
  let ?a = "toStorageAdmin (sample_admin 2 ''ann'' ''admin'')"
  have f: "FindAdminByID 2 (factor_store []) = (Inr ?a, factor_store [])"
    by (rule FindAdminByID_ok) (simp_all add: factor_store_def admin_by_id_def sample_store_def sample_admin_def)
  have "fst (verifySecondFactor sample_env ?a [] (panel (factor_store []))) = False" by code_simp
  moreover have "fk_admin (a_id ?a) (sv_store (panel (factor_store [])))"
    by (simp add: fk_admin_def factor_store_def sample_store_def sample_admin_def toStorageAdmin_def)
  ultimately show ?thesis
    using start_totp_removes_factor [of "panel (factor_store [])" ?a "''new''" sample_env "[]"] unfolding f by simp
qed

definition token_store :: store where
  "token_store = (sample_store DriverSQLite)\<lparr>appsessions :=
     [\<lparr>as_id = ''i'', as_admin_id = 2, as_token_hash = ''app'', as_device_name = ''phone'', as_created_at = 1,
       as_last_seen_at = 1, as_expires_at = 0\<rparr>]\<rparr>"

theorem app_token_survives_cut_witness:
  "\<exists>a. fst (authenticateApp sample_env (sample_request ''GET'' ''Bearer app'')
     ((panel token_store)\<lparr>sv_store := snd (SuspendSubtree 2 ''spam'' token_store)\<rparr>)) = Some a \<and> a_id a = 2"
proof -
  let ?s = "sv_store (panel token_store)" and ?m = "sample_admin 2 ''ann'' ''admin''"
  have wf: "wf_store ?s" using sample_wf [of DriverSQLite]
    by (simp add: token_store_def wf_defs sample_defs uniq_def refers_def)
  have m: "admin_by_id 2 ?s = Some ?m" by (simp add: token_store_def admin_by_id_def sample_store_def sample_admin_def)
  have row: "find (\<lambda>r. as_token_hash r = en_hash sample_env ''app'') (appsessions ?s) =
      Some \<lparr>as_id = ''i'', as_admin_id = 2, as_token_hash = ''app'', as_device_name = ''phone'', as_created_at = 1,
       as_last_seen_at = 1, as_expires_at = 0\<rparr>"
    by (simp add: token_store_def sample_env_def)
  have cut: "cut_off ?s 2 ?m" by (simp add: cut_off_def sample_admin_def RoleOwner_def)
  obtain m' where m': "admin_by_id 2 (snd (SuspendSubtree 2 ''spam'' ?s)) = Some m'"
    "fst (authenticateApp sample_env (sample_request ''GET'' ''Bearer app'')
       ((panel token_store)\<lparr>sv_store := snd (SuspendSubtree 2 ''spam'' ?s)\<rparr>)) = Some (toStorageAdmin m')"
    using app_token_survives_cut [OF _ wf m _ row, where rq = "sample_request ''GET'' ''Bearer app''" and reason = "''spam''"] m cut
    by (auto simp: token_store_def toStorageAdmin_def sample_admin_def RoleOwner_def sample_request_def)
  moreover have "a_id (toStorageAdmin m') = 2" using m'(1) by (auto simp: admin_by_id_def find_Some_iff toStorageAdmin_def)
  ultimately show ?thesis by auto
qed

theorem app_exchange_witness:
  "case handleAppSession sample_env (Some ''id'') (Some ''app'') (sample_request ''POST'' []) (Some (''k'', []))
      (at_time 5100000 (snd (handleAppConsent (Some ''k'') (sample_request ''POST'' []) []
         (toStorageAdmin (sample_admin 2 ''ann'' ''admin'')) (panel (sample_store DriverSQLite))))) of
     (r, sv2) \<Rightarrow> r = AppToken ''app'' (toStorageAdmin (sample_admin 2 ''ann'' ''admin'')) \<and>
       fst (redeem ''k'' 5100001 (sv_codes sv2)) = None"
proof -
  let ?a = "toStorageAdmin (sample_admin 2 ''ann'' ''admin'')"
  have m: "admin_by_id (a_id ?a) (sv_store (panel (sample_store DriverSQLite))) = Some (sample_admin 2 ''ann'' ''admin'')"
    by (simp add: admin_by_id_def sample_store_def sample_admin_def toStorageAdmin_def)
  have l: "fst (limitAttempt 5100000 [''appcode-ip:'' @ rq_ip (sample_request ''POST'' [])]
      (sv_limiter (panel (sample_store DriverSQLite))))" by code_simp
  have t: "trim_space ''k'' = ''k''" by code_simp
  have e: "appsessions (sample_store DriverSQLite) = []" by (simp add: sample_store_def empty_store_def)
  show ?thesis
    using app_exchange [OF _ m, where rq = "sample_request ''POST'' []" and rq' = "sample_request ''POST'' []" and
        rq'' = "sample_request ''POST'' ''Bearer app''" and tok = "''app''" and i = "''id''" and E = sample_env and code = "''k''" and
        t = 5100000 and t' = 5100000 and d = "[]" and d' = "[]" and t'' = 5100001] l t e
    by (auto simp: sample_request_def appCodeTTL_def appSessionTTL_def split: prod.splits)
qed

definition waiting :: server where
  "waiting = (panel (sample_store DriverSQLite))\<lparr>sv_desk := fold qr_step
     [(4990000, QOpen ''k'' ''1.2.3.4'' ''ua''), (4995000, QApprove ''k'' 2)] newQRDesk\<rparr>"

lemma waiting_enters:
  "case handleQRStatus sample_env (Some ''tok'') (sample_request ''GET'' []) '' k'' waiting of
     (SignedIn ck a, _) \<Rightarrow> True | _ \<Rightarrow> False"
  by code_simp


end
