(* ===== verification/Hub.thy ===== *)
theory Hub
  imports Prelude "HOL-Library.Multiset"
begin

text \<open>
  Live delivery between devices and admin sessions: \<^verbatim>\<open>internal/guardianhub/hub.go\<close> over the bus of
  \<^verbatim>\<open>internal/bus/bus.go\<close>. A WebSocket sink is a number, what the hub does to the outside is a list of
  effects in order. Frames are of any type; protobuf is a parameter, the record \<open>codec\<close>. The envelope
  travels as JSON, which carries each of its fields unchanged. Every operation holds the mutex
  while it touches the maps and is one step. Go visits a map in no fixed order; the model takes the order of
  attachment, and the theorems do not depend on it.
\<close>

record 'f codec =
  marshal :: "'f \<Rightarrow> bytes option"
  unmarshal :: "bytes \<Rightarrow> 'f option"

record 'f admin_event =
  ev_ClientID :: string
  ev_Frame :: "'f option"
  ev_Kind :: string
  ev_Data :: bytes

record busEnvelope =
  be_Origin :: string
  be_Broadcast :: bool
  be_ClientID :: string
  be_AdminID :: int
  be_EventKind :: string
  be_Frame :: bytes
  be_Data :: bytes

datatype 'f effect =
    SendFrame nat 'f
  | CloseSink nat string
  | SendEvent nat "'f admin_event"
  | Publish string busEnvelope

definition channelClient :: string where "channelClient = ''guardian.client''"
definition channelAdmin :: string where "channelAdmin = ''guardian.admin''"

record hub =
  hb_clients :: "string \<rightharpoonup> nat"
  hb_admins :: "(int \<times> nat) list"
  hb_instanceID :: string
  hb_hasBus :: bool

definition new_hub :: hub where
  "new_hub = \<lparr>hb_clients = Map.empty, hb_admins = [], hb_instanceID = [], hb_hasBus = False\<rparr>"

definition AttachBus :: "string \<Rightarrow> hub \<Rightarrow> hub" where
  "AttachBus instanceID h = h\<lparr>hb_instanceID := instanceID, hb_hasBus := True\<rparr>"

subsection \<open>Devices\<close>

definition AttachClient :: "string \<Rightarrow> nat \<Rightarrow> hub \<Rightarrow> 'f effect list \<times> hub" where
  "AttachClient clientID sink h =
     (case hb_clients h clientID of None \<Rightarrow> [] | Some prev \<Rightarrow> [CloseSink prev ''replaced''],
      h\<lparr>hb_clients := (hb_clients h)(clientID \<mapsto> sink)\<rparr>)"

definition DetachClient :: "string \<Rightarrow> nat \<Rightarrow> hub \<Rightarrow> hub" where
  "DetachClient clientID sink h =
     (if hb_clients h clientID = Some sink then h\<lparr>hb_clients := (hb_clients h)(clientID := None)\<rparr> else h)"

definition ClientSink :: "string \<Rightarrow> hub \<Rightarrow> nat option" where
  "ClientSink clientID h = hb_clients h clientID"

text \<open>\<open>published\<close> tells whether the bus takes the message.\<close>

definition SendToClient :: "'f codec \<Rightarrow> bool \<Rightarrow> string \<Rightarrow> 'f \<Rightarrow> bool \<Rightarrow> hub \<Rightarrow> bool \<times> 'f effect list" where
  "SendToClient K published clientID frame online h = (case ClientSink clientID h of
     Some sink \<Rightarrow> (True, [SendFrame sink frame])
   | None \<Rightarrow>
       if \<not> online \<or> \<not> hb_hasBus h then (False, [])
       else (case marshal K frame of
          None \<Rightarrow> (False, [])
        | Some raw \<Rightarrow>
            (published, [Publish channelClient \<lparr>be_Origin = hb_instanceID h, be_Broadcast = False,
               be_ClientID = clientID, be_AdminID = 0, be_EventKind = [], be_Frame = raw, be_Data = []\<rparr>])))"

definition onBusClient :: "'f codec \<Rightarrow> busEnvelope \<Rightarrow> hub \<Rightarrow> 'f effect list" where
  "onBusClient K env h = (case ClientSink (be_ClientID env) h of
     None \<Rightarrow> []
   | Some sink \<Rightarrow> (case unmarshal K (be_Frame env) of None \<Rightarrow> [] | Some frame \<Rightarrow> [SendFrame sink frame]))"

subsection \<open>Admin sessions\<close>

definition AttachAdmin :: "int \<Rightarrow> nat \<Rightarrow> hub \<Rightarrow> hub" where
  "AttachAdmin adminID sink h = h\<lparr>hb_admins :=
     (if (adminID, sink) \<in> set (hb_admins h) then hb_admins h else hb_admins h @ [(adminID, sink)])\<rparr>"

definition DetachAdmin :: "int \<Rightarrow> nat \<Rightarrow> hub \<Rightarrow> hub" where
  "DetachAdmin adminID sink h = h\<lparr>hb_admins := filter (\<lambda>x. x \<noteq> (adminID, sink)) (hb_admins h)\<rparr>"

definition AdminCount :: "hub \<Rightarrow> nat" where
  "AdminCount h = length (hb_admins h)"

definition ClientCount :: "string list \<Rightarrow> hub \<Rightarrow> nat" where
  "ClientCount keys h = length (filter (\<lambda>c. hb_clients h c \<noteq> None) (remdups keys))"

definition deliverLocalAdmin :: "int \<Rightarrow> 'f admin_event \<Rightarrow> hub \<Rightarrow> 'f effect list" where
  "deliverLocalAdmin adminID ev h = map (\<lambda>(a, sink). SendEvent sink ev) (filter (\<lambda>(a, sink). a = adminID) (hb_admins h))"

definition deliverLocalBroadcast :: "'f admin_event \<Rightarrow> hub \<Rightarrow> 'f effect list" where
  "deliverLocalBroadcast ev h = map (\<lambda>(a, sink). SendEvent sink ev) (hb_admins h)"

definition adminEnvelope :: "'f codec \<Rightarrow> 'f admin_event \<Rightarrow> int \<Rightarrow> bool \<Rightarrow> hub \<Rightarrow> busEnvelope" where
  "adminEnvelope K ev adminID broadcast h = \<lparr>be_Origin = hb_instanceID h, be_Broadcast = broadcast,
     be_ClientID = ev_ClientID ev, be_AdminID = adminID, be_EventKind = ev_Kind ev,
     be_Frame = (case Option.bind (ev_Frame ev) (marshal K) of None \<Rightarrow> [] | Some raw \<Rightarrow> raw), be_Data = ev_Data ev\<rparr>"

definition FanoutToAdmin :: "'f codec \<Rightarrow> int \<Rightarrow> 'f admin_event \<Rightarrow> hub \<Rightarrow> 'f effect list" where
  "FanoutToAdmin K adminID ev h = deliverLocalAdmin adminID ev h @
     (if hb_hasBus h then [Publish channelAdmin (adminEnvelope K ev adminID False h)] else [])"

definition BroadcastToAdmins :: "'f codec \<Rightarrow> 'f admin_event \<Rightarrow> hub \<Rightarrow> 'f effect list" where
  "BroadcastToAdmins K ev h = deliverLocalBroadcast ev h @
     (if hb_hasBus h then [Publish channelAdmin (adminEnvelope K ev 0 True h)] else [])"

definition onBusAdmin :: "'f codec \<Rightarrow> busEnvelope \<Rightarrow> hub \<Rightarrow> 'f effect list" where
  "onBusAdmin K env h =
     (if be_Origin env = hb_instanceID h then []
      else
        let ev = \<lparr>ev_ClientID = be_ClientID env,
                  ev_Frame = (if be_Frame env = [] then None else unmarshal K (be_Frame env)),
                  ev_Kind = be_EventKind env, ev_Data = be_Data env\<rparr>
        in if be_Broadcast env then deliverLocalBroadcast ev h else deliverLocalAdmin (be_AdminID env) ev h)"

subsection \<open>A fleet of replicas\<close>

text \<open>
  The bus hands what one replica publishes to every subscribed replica, the publisher included. The
  effects of an operation on a fleet are those of the replica it is called on and those of every
  delivery.
\<close>

definition bus_delivery :: "'f codec \<Rightarrow> hub list \<Rightarrow> 'f effect \<Rightarrow> 'f effect list" where
  "bus_delivery K hs e = (case e of
     Publish chan env \<Rightarrow>
       if chan = channelClient then concat (map (onBusClient K env) hs)
       else if chan = channelAdmin then concat (map (onBusAdmin K env) hs) else []
   | _ \<Rightarrow> [e])"

definition fleet :: "'f codec \<Rightarrow> hub list \<Rightarrow> 'f effect list \<Rightarrow> 'f effect list" where
  "fleet K hs es = concat (map (bus_delivery K hs) es)"

definition codec_ok :: "'f codec \<Rightarrow> 'f \<Rightarrow> bool" where
  "codec_ok K f \<longleftrightarrow> (\<exists>raw. marshal K f = Some raw \<and> raw \<noteq> [] \<and> unmarshal K raw = Some f)"

lemma fleet_simps [simp]:
  "fleet K hs [] = []" "fleet K hs (es @ fs) = fleet K hs es @ fleet K hs fs"
  "fleet K hs [SendFrame s f] = [SendFrame s f]"
  "fleet K hs [Publish channelAdmin env] = concat (map (onBusAdmin K env) hs)"
  "fleet K hs [Publish channelClient env] = concat (map (onBusClient K env) hs)"
  by (simp_all add: fleet_def bus_delivery_def channelAdmin_def channelClient_def)

lemma fleet_local [simp]:
  "fleet K hs (deliverLocalAdmin a ev h) = deliverLocalAdmin a ev h"
  "fleet K hs (deliverLocalBroadcast ev h) = deliverLocalBroadcast ev h"
proof -
  have "concat (map (bus_delivery K hs) (map (\<lambda>(a, s). SendEvent s ev) xs)) = map (\<lambda>(a, s). SendEvent s ev) xs" for xs :: "(int \<times> nat) list"
    by (induction xs) (auto simp: bus_delivery_def)
  then show "fleet K hs (deliverLocalAdmin a ev h) = deliverLocalAdmin a ev h"
    "fleet K hs (deliverLocalBroadcast ev h) = deliverLocalBroadcast ev h"
    by (simp_all add: fleet_def deliverLocalAdmin_def deliverLocalBroadcast_def)
qed

lemma event_roundtrip:
  assumes "\<forall>f. ev_Frame ev = Some f \<longrightarrow> codec_ok K f"
  shows "onBusAdmin K (adminEnvelope K ev a b h) g =
    (if hb_instanceID h = hb_instanceID g then [] else if b then deliverLocalBroadcast ev g else deliverLocalAdmin a ev g)"
proof (cases "ev_Frame ev")
  case None
  have e: "\<lparr>ev_ClientID = ev_ClientID ev, ev_Frame = None, ev_Kind = ev_Kind ev, ev_Data = ev_Data ev\<rparr> = ev"
    using None by (cases ev) simp
  show ?thesis using None by (simp add: onBusAdmin_def adminEnvelope_def e)
next
  case (Some f)
  then obtain raw where raw: "marshal K f = Some raw" "raw \<noteq> []" "unmarshal K raw = Some f"
    using assms by (auto simp: codec_ok_def)
  have e: "\<lparr>ev_ClientID = ev_ClientID ev, ev_Frame = Some f, ev_Kind = ev_Kind ev, ev_Data = ev_Data ev\<rparr> = ev"
    using Some by (cases ev) simp
  show ?thesis using Some raw by (simp add: onBusAdmin_def adminEnvelope_def e)
qed

lemma once_each:
  assumes "distinct (map hb_instanceID hs)" "h \<in> set hs"
  shows "mset (g h @ concat (map (\<lambda>k. if hb_instanceID h = hb_instanceID k then [] else g k) hs)) =
    mset (concat (map g hs))"
  using assms
proof (induction hs)
  case (Cons k hs)
  show ?case
  proof (cases "k = h")
    case True
    have e: "map (\<lambda>k. if hb_instanceID h = hb_instanceID k then [] else g k) hs = map g hs"
      by (rule map_cong) (use Cons.prems(1) True in \<open>auto simp: image_iff\<close>)
    show ?thesis unfolding True by (simp add: e)
  next
    case False
    then have "h \<in> set hs" using Cons.prems(2) by simp
    moreover from this have "hb_instanceID h \<in> hb_instanceID ` set hs" by simp
    moreover from this have "hb_instanceID h \<noteq> hb_instanceID k" using Cons.prems(1) by (metis distinct.simps(2) list.simps(9) set_map)
    ultimately show ?thesis using Cons by (simp add: add.left_commute)
  qed
qed simp

text \<open>C33: Every session gets an event exactly once. In a fleet of replicas with distinct instance ids that share
  a bus, an event for an admin reaches each of that admin's sessions once, whichever replicas hold
  them and whichever replica it is called on, and no session of another admin; a broadcast reaches
  every session of the fleet once; an event and its frame arrive as they were sent. Without a bus
  the same holds of the one replica.\<close>

theorem events_exactly_once:
  assumes "distinct (map hb_instanceID hs)" "h \<in> set hs" "hb_hasBus h \<or> hs = [h]"
    and "\<forall>f. ev_Frame ev = Some f \<longrightarrow> codec_ok K f"
  shows "mset (fleet K hs (FanoutToAdmin K a ev h)) = mset (concat (map (deliverLocalAdmin a ev) hs)) \<and>
    mset (fleet K hs (BroadcastToAdmins K ev h)) = mset (concat (map (deliverLocalBroadcast ev) hs))"
proof -
  have m: "map (onBusAdmin K (adminEnvelope K ev x False h)) hs =
      map (\<lambda>k. if hb_instanceID h = hb_instanceID k then [] else deliverLocalAdmin x ev k) hs"
    "map (onBusAdmin K (adminEnvelope K ev x True h)) hs =
      map (\<lambda>k. if hb_instanceID h = hb_instanceID k then [] else deliverLocalBroadcast ev k) hs"
    for x by (simp_all add: event_roundtrip [OF assms(4)])
  show ?thesis
    using once_each [OF assms(1,2), of "deliverLocalAdmin a ev"] once_each [OF assms(1,2), of "deliverLocalBroadcast ev"] assms(3)
    by (auto simp: FanoutToAdmin_def BroadcastToAdmins_def m)
qed

text \<open>A frame reaches the device wherever it is connected: sent on any replica of a fleet in which one
  replica holds the device's socket, the frame is written to that socket exactly once and to no
  other, provided the caller knows the device to be online.\<close>

theorem frame_exactly_once:
  assumes "k \<in> set hs" "distinct hs" "ClientSink c k = Some sink" "\<forall>g \<in> set hs. g \<noteq> k \<longrightarrow> ClientSink c g = None"
    and "h \<in> set hs" "hb_hasBus h" "codec_ok K f"
  shows "fleet K hs (snd (SendToClient K True c f True h)) = [SendFrame sink f] \<and> fst (SendToClient K True c f True h)"
proof (cases "h = k")
  case True
  then show ?thesis using assms(3) by (simp add: SendToClient_def)
next
  case False
  obtain raw where raw: "marshal K f = Some raw" "unmarshal K raw = Some f" using assms(7) by (auto simp: codec_ok_def)
  have "ClientSink c h = None" using assms(4,5) False by blast
  moreover have "concat (map (onBusClient K \<lparr>be_Origin = o', be_Broadcast = False, be_ClientID = c, be_AdminID = 0,
      be_EventKind = [], be_Frame = raw, be_Data = []\<rparr>) hs) = [SendFrame sink f]" for o'
    using assms(1-4)
  proof (induction hs)
    case (Cons g gs)
    show ?case
    proof (cases "g = k")
      case True
      then have "\<forall>x \<in> set gs. ClientSink c x = None" using Cons.prems by auto
      then have "concat (map (onBusClient K \<lparr>be_Origin = o', be_Broadcast = False, be_ClientID = c, be_AdminID = 0,
          be_EventKind = [], be_Frame = raw, be_Data = []\<rparr>) gs) = []" by (auto simp: onBusClient_def)
      then show ?thesis using True Cons.prems(3) raw by (simp add: onBusClient_def)
    next
      case False
      then show ?thesis using Cons by (auto simp: onBusClient_def)
    qed
  qed simp
  ultimately show ?thesis using assms(6) raw by (simp add: SendToClient_def)
qed

subsection \<open>One session per device\<close>

datatype client_op = Attach string nat | Detach string nat

fun client_step :: "client_op \<Rightarrow> hub \<Rightarrow> hub" where
  "client_step (Attach c s) h = snd (AttachClient c s h :: unit effect list \<times> hub)"
| "client_step (Detach c s) h = DetachClient c s h"

text \<open>What the registry should answer: the sink attached last, unless that sink has been detached since.\<close>

fun registered :: "string \<Rightarrow> client_op list \<Rightarrow> nat option" where
  "registered c [] = None"
| "registered c (Attach d s # ops) = (if d = c then Some s else registered c ops)"
| "registered c (Detach d s # ops) =
     (if d = c \<and> registered c ops = Some s then None else registered c ops)"

text \<open>A late disconnect of a replaced session does not unregister its successor: after any interleaving of
  connects and disconnects, a device is registered under the session that connected last, unless
  that very session has disconnected.\<close>

theorem registry_is_last_session:
  "ClientSink c (fold client_step ops new_hub) = registered c (rev ops)"
proof (induction ops rule: rev_induct)
  case Nil
  then show ?case by (simp add: ClientSink_def new_hub_def)
next
  case (snoc op ops)
  then show ?case
    by (cases op) (auto simp: ClientSink_def AttachClient_def DetachClient_def)
qed

subsection \<open>At concrete inputs\<close>

definition text_codec :: "string codec" where
  "text_codec = \<lparr>marshal = Some, unmarshal = Some\<rparr>"

definition replica :: "string \<Rightarrow> (int \<times> nat) list \<Rightarrow> (string \<rightharpoonup> nat) \<Rightarrow> hub" where
  "replica i as cs = \<lparr>hb_clients = cs, hb_admins = as, hb_instanceID = i, hb_hasBus = True\<rparr>"

definition ping :: "string admin_event" where
  "ping = \<lparr>ev_ClientID = ''c'', ev_Frame = Some ''f'', ev_Kind = [], ev_Data = []\<rparr>"

theorem events_exactly_once_witness:
  "let a = replica ''a'' [(1, 10), (2, 20)] Map.empty; b = replica ''b'' [(1, 11)] Map.empty in
   mset (fleet text_codec [a, b] (FanoutToAdmin text_codec 1 ping b)) = {#SendEvent 10 ping, SendEvent 11 ping#}"
  using events_exactly_once [of "[replica ''a'' [(1, 10), (2, 20)] Map.empty, replica ''b'' [(1, 11)] Map.empty]"
      "replica ''b'' [(1, 11)] Map.empty" ping text_codec 1]
  by (simp add: replica_def ping_def text_codec_def codec_ok_def deliverLocalAdmin_def Let_def)

theorem frame_exactly_once_witness:
  "let a = replica ''a'' [] Map.empty; b = replica ''b'' [] [''c'' \<mapsto> 7] in
   fleet text_codec [a, b] (snd (SendToClient text_codec True ''c'' ''hi'' True a)) = [SendFrame 7 ''hi'']"
  using frame_exactly_once [of "replica ''b'' [] [''c'' \<mapsto> 7]" "[replica ''a'' [] Map.empty, replica ''b'' [] [''c'' \<mapsto> 7]]" "''c''" 7
      "replica ''a'' [] Map.empty" text_codec "''hi''"]
  by (simp add: replica_def text_codec_def codec_ok_def ClientSink_def Let_def)

end
