(* ===== verification/DeviceSession.thy ===== *)
theory DeviceSession
  imports Auth ClientState DeviceQueues Hub
begin

text \<open>
  The device side of the panel: the Guardian protocol of \<^verbatim>\<open>internal/handlers/guardian\<close>
  (\<^verbatim>\<open>session.go\<close>, and the two calls of \<^verbatim>\<open>grpc.go\<close>), over the storage of devices, their state and
  their queues, the token check of Auth and the live hub. A device configuration is of any type
  \<open>'c\<close> and a runtime state of any type \<open>'r\<close>; what the code asks of them and of protobuf is the record
  \<open>wire\<close>. A stream takes a number of frames before it breaks, \<open>dv_room\<close>; random ids are arguments.
\<close>

subsection \<open>Frames\<close>

record hello =
  h_client_id :: string
  h_client_token :: bytes
  h_hwid :: string
  h_device_name :: string
  h_device_model :: string
  h_os_version :: string
  h_app_version :: string
  h_config_version :: u64

record ('c, 'r) state_report =
  sr_snapshot :: "'c option"
  sr_runtime :: "'r option"

record log_chunk =
  lc_stream :: int
  lc_first_seq :: u64
  lc_lines :: "(int \<times> string) list"

record log_control =
  lo_runtime :: bool
  lo_proxy :: bool
  lo_xray :: bool

record command =
  cm_type :: int
  cm_id :: string
  cm_subscription_id :: string

datatype ('c, 'r) frame =
    ClientHello hello
  | ServerHello bool
  | Heartbeat int
  | StateReport "('c, 'r) state_report option"
  | LogChunk "log_chunk option"
  | StatusUpdate "'r option"
  | CommandAck string
  | InstalledApps "package_metadata list option"
  | LogControl log_control
  | ConfigPush 'c string
  | is_CommandFrame: CommandFrame command
  | ServerError string
  | OtherFrame

record ('c, 'r) wire =
  w_crypto :: crypto
  w_frames :: "('c, 'r) frame codec"
  w_config_bytes :: "'c \<Rightarrow> bytes option"
  w_config_of :: "bytes \<Rightarrow> 'c option"
  w_with_version :: "u64 \<Rightarrow> 'c \<Rightarrow> 'c"
  w_runtime_bytes :: "'r \<Rightarrow> bytes option"
  w_apps_bytes :: "package_metadata list \<Rightarrow> bytes option"
  w_root_access :: "'r \<Rightarrow> bool"
  w_vk_authorized :: "'r \<Rightarrow> bool"
  w_no_runtime :: 'r

subsection \<open>Sequencing\<close>

record ('c, 'r) dev =
  dv_store :: store
  dv_hub :: hub
  dv_room :: nat
  dv_out :: "('c, 'r) frame effect list"

type_synonym ('a, 'c, 'r) act = "('c, 'r) dev \<Rightarrow> 'a \<times> ('c, 'r) dev"

definition retD :: "'a \<Rightarrow> ('a, 'c, 'r) act" where "retD x d = (x, d)"

definition bindD :: "('a, 'c, 'r) act \<Rightarrow> ('a \<Rightarrow> ('b, 'c, 'r) act) \<Rightarrow> ('b, 'c, 'r) act" where
  "bindD m k d = (case m d of (x, d') \<Rightarrow> k x d')"

definition dbD :: "'a db \<Rightarrow> (error + 'a, 'c, 'r) act" where
  "dbD m d = (case m (dv_store d) of (r, s') \<Rightarrow> (r, d\<lparr>dv_store := s'\<rparr>))"

definition emit :: "('c, 'r) frame effect list \<Rightarrow> (unit, 'c, 'r) act" where
  "emit es d = ((), d\<lparr>dv_out := dv_out d @ es\<rparr>)"

definition fanout :: "('c, 'r) wire \<Rightarrow> client \<Rightarrow> ('c, 'r) frame \<Rightarrow> (unit, 'c, 'r) act" where
  "fanout W client f d = emit (FanoutToAdmin (w_frames W) (OwnerAdminID client)
     \<lparr>ev_ClientID = ID client, ev_Frame = Some f, ev_Kind = [], ev_Data = []\<rparr> (dv_hub d)) d"

text \<open>The write of a session to its stream; once the stream is broken nothing more gets out.\<close>

definition send :: "nat \<Rightarrow> ('c, 'r) frame \<Rightarrow> (bool, 'c, 'r) act" where
  "send sink f d = (if dv_room d = 0 then (False, d)
     else (True, d\<lparr>dv_room := dv_room d - 1, dv_out := dv_out d @ [SendFrame sink f]\<rparr>))"

subsection \<open>Who the device is\<close>

definition hwidMatches :: "client \<Rightarrow> hello \<Rightarrow> bool" where
  "hwidMatches client hello =
     (let presented = trim_space (h_hwid hello); bound = trim_space (HWID client) in
      if bound = [] \<or> presented = [] then True else bound = presented)"

definition upgrade_hash :: "('c, 'r) wire \<Rightarrow> client \<Rightarrow> hello \<Rightarrow> (client, 'c, 'r) act" where
  "upgrade_hash W client hello =
     (if ClientTokenHashNeedsUpgrade (TokenHash client)
      then let upgraded = HashClientToken (w_crypto W) (h_client_token hello) in
        bindD (dbD (UpgradeClientTokenHash (ID client) upgraded)) (\<lambda>r.
        retD (case r of Inl _ \<Rightarrow> client | Inr _ \<Rightarrow> client\<lparr>TokenHash := upgraded\<rparr>))
      else retD client)"

definition authenticate :: "('c, 'r) wire \<Rightarrow> hello \<Rightarrow> (client option, 'c, 'r) act" where
  "authenticate W hello =
     bindD (dbD (FindClientByID (h_client_id hello))) (\<lambda>r.
     case r of
       Inl _ \<Rightarrow> retD None
     | Inr client \<Rightarrow>
         if \<not> VerifyClientToken (w_crypto W) (TokenHash client) (h_client_token hello) then retD None
         else bindD (upgrade_hash W client hello) (\<lambda>client'.
           retD (if hwidMatches client' hello then Some client' else None)))"

subsection \<open>Presence\<close>

definition markOnline :: "('c, 'r) wire \<Rightarrow> string \<Rightarrow> client \<Rightarrow> hello \<Rightarrow> (unit, 'c, 'r) act" where
  "markOnline W peer client hello =
     (let info = \<lparr>di_hwid = h_hwid hello, di_device_name = h_device_name hello,
        di_device_model = h_device_model hello, di_os_version = h_os_version hello,
        di_app_version = h_app_version hello, di_peer_ip = peer\<rparr> in
      bindD (dbD (UpdateClientPresence (ID client) True (Some info))) (\<lambda>_.
      fanout W client (StatusUpdate (Some (w_no_runtime W)))))"

definition markOffline :: "('c, 'r) wire \<Rightarrow> client \<Rightarrow> (unit, 'c, 'r) act" where
  "markOffline W client d =
     (if ClientSink (ID client) (dv_hub d) \<noteq> None then ((), d)
      else bindD (dbD (UpdateClientPresence (ID client) False None)) (\<lambda>_.
           fanout W client (ServerError ''offline'')) d)"

subsection \<open>What the panel has for the device\<close>

definition logControlFor :: "string \<Rightarrow> (log_control option, 'c, 'r) act" where
  "logControlFor clientID = bindD (dbD (FindClientByID clientID)) (\<lambda>r.
     retD (case r of Inl _ \<Rightarrow> None
       | Inr cur \<Rightarrow> Some \<lparr>lo_runtime = LogRuntimeEnabled cur, lo_proxy = LogProxyEnabled cur, lo_xray = LogXRayEnabled cur\<rparr>))"

definition configPushFor :: "('c, 'r) wire \<Rightarrow> string \<Rightarrow> u64 \<Rightarrow> (('c \<times> string) option, 'c, 'r) act" where
  "configPushFor W clientID deviceVersion = bindD (dbD (GetClientConfig clientID)) (\<lambda>r.
     retD (case r of
       Inl _ \<Rightarrow> None
     | Inr cfg \<Rightarrow>
         if ConfigProto cfg = [] \<or> ConfigVersion cfg \<le> deviceVersion then None
         else (case w_config_of W (ConfigProto cfg) of
           None \<Rightarrow> None
         | Some parsed \<Rightarrow> Some (w_with_version W (ConfigVersion cfg) parsed, Revision cfg))))"

text \<open>A command whose id cannot be drawn is skipped.\<close>

fun commands_of :: "pending_command list \<Rightarrow> bytes option list \<Rightarrow> command list" where
  "commands_of [] ds = []"
| "commands_of (pc # pcs) ds = (case ds of
     [] \<Rightarrow> []
   | d # ds' \<Rightarrow> (case GenerateClientID d of
       None \<Rightarrow> commands_of pcs ds'
     | Some i \<Rightarrow> \<lparr>cm_type = pq_command_type pc, cm_id = i, cm_subscription_id = pq_subscription_id pc\<rparr> # commands_of pcs ds'))"

definition drainCommands :: "bytes option list \<Rightarrow> string \<Rightarrow> (command list, 'c, 'r) act" where
  "drainCommands draws clientID = bindD (dbD (DrainPendingCommands clientID)) (\<lambda>r.
     retD (case r of Inl _ \<Rightarrow> [] | Inr pcs \<Rightarrow> commands_of pcs draws))"

definition welcomeFrames ::
  "('c, 'r) wire \<Rightarrow> bytes option list \<Rightarrow> client \<Rightarrow> u64 \<Rightarrow> (('c, 'r) frame list, 'c, 'r) act" where
  "welcomeFrames W draws client deviceVersion =
     bindD (logControlFor (ID client)) (\<lambda>control.
     bindD (configPushFor W (ID client) deviceVersion) (\<lambda>push.
     bindD (drainCommands draws (ID client)) (\<lambda>commands.
     retD ((case control of None \<Rightarrow> [] | Some c \<Rightarrow> [LogControl c]) @
           (case push of None \<Rightarrow> [] | Some (cfg, revision) \<Rightarrow> [ConfigPush cfg revision]) @
           map CommandFrame commands))))"

subsection \<open>What the device reports\<close>

definition ignore :: "(error + 'a, 'c, 'r) act \<Rightarrow> (unit, 'c, 'r) act" where
  "ignore m = bindD m (\<lambda>_. retD ())"

definition storeRuntime :: "('c, 'r) wire \<Rightarrow> client \<Rightarrow> 'r option \<Rightarrow> (unit, 'c, 'r) act" where
  "storeRuntime W client runtime = (case runtime of
     None \<Rightarrow> retD ()
   | Some rt \<Rightarrow>
       bindD (case w_runtime_bytes W rt of None \<Rightarrow> retD () | Some b \<Rightarrow> ignore (dbD (UpsertClientRuntime (ID client) b))) (\<lambda>_.
       bindD (ignore (dbD (UpdateClientRootAccess (ID client) (w_root_access W rt)))) (\<lambda>_.
       ignore (dbD (UpdateClientVkOAuthAuthorized (ID client) (w_vk_authorized W rt))))))"

definition storeStateReport :: "('c, 'r) wire \<Rightarrow> client \<Rightarrow> ('c, 'r) state_report option \<Rightarrow> (unit, 'c, 'r) act" where
  "storeStateReport W client report = (case report of
     None \<Rightarrow> retD ()
   | Some rep \<Rightarrow>
       bindD (case sr_snapshot rep of
           None \<Rightarrow> retD ()
         | Some snapshot \<Rightarrow> (case w_config_bytes W snapshot of
             None \<Rightarrow> retD ()
           | Some b \<Rightarrow> ignore (dbD (UpsertClientReportedConfig (ID client) b)))) (\<lambda>_.
       storeRuntime W client (sr_runtime rep)))"

text \<open>\<^verbatim>\<open>int64(chunk.GetFirstSeq())\<close> reads the unsigned number as a signed one.\<close>

definition storeLogChunk :: "client \<Rightarrow> log_chunk option \<Rightarrow> (unit, 'c, 'r) act" where
  "storeLogChunk client chunk = (case chunk of
     None \<Rightarrow> retD ()
   | Some c \<Rightarrow> ignore (dbD (AppendClientLogs (ID client) (lc_stream c) (sint (lc_first_seq c))
       (map (\<lambda>(ts, text). \<lparr>ll_seq = 0, ll_ts = ts, ll_text = text\<rparr>) (lc_lines c)))))"

definition storeInstalledApps :: "('c, 'r) wire \<Rightarrow> client \<Rightarrow> package_metadata list option \<Rightarrow> (unit, 'c, 'r) act" where
  "storeInstalledApps W client apps = (case apps of
     None \<Rightarrow> retD ()
   | Some as \<Rightarrow>
       bindD (case w_apps_bytes W as of None \<Rightarrow> retD () | Some b \<Rightarrow> ignore (dbD (UpsertClientInstalledApps (ID client) b))) (\<lambda>_.
       ignore (dbD (UpsertPackageMetadata as))))"

text \<open>The first argument is the write back to the device: \<open>send sink\<close>, or nothing on a one-shot sync.\<close>

definition handleClientFrame ::
  "(('c, 'r) frame \<Rightarrow> (bool, 'c, 'r) act) \<Rightarrow> ('c, 'r) wire \<Rightarrow> client \<Rightarrow> ('c, 'r) frame \<Rightarrow> (unit, 'c, 'r) act" where
  "handleClientFrame write W client f = (case f of
     Heartbeat _ \<Rightarrow> (\<lambda>d. bindD (write (Heartbeat (clock (dv_store d)))) (\<lambda>_. retD ()) d)
   | StateReport rep \<Rightarrow> bindD (storeStateReport W client rep) (\<lambda>_. fanout W client f)
   | LogChunk chunk \<Rightarrow> bindD (storeLogChunk client chunk) (\<lambda>_. fanout W client f)
   | StatusUpdate rt \<Rightarrow> bindD (storeRuntime W client rt) (\<lambda>_. fanout W client f)
   | CommandAck _ \<Rightarrow> fanout W client f
   | InstalledApps apps \<Rightarrow> bindD (storeInstalledApps W client apps) (\<lambda>_. fanout W client f)
   | _ \<Rightarrow> retD ())"

subsection \<open>The live session\<close>

datatype session_end = NoHello | NotHello | Unauthenticated | Broken | Closed

fun send_all :: "nat \<Rightarrow> ('c, 'r) frame list \<Rightarrow> (bool, 'c, 'r) act" where
  "send_all sink [] = retD True"
| "send_all sink (f # fs) = bindD (send sink f) (\<lambda>ok. if ok then send_all sink fs else retD False)"

fun receive_all :: "nat \<Rightarrow> ('c, 'r) wire \<Rightarrow> client \<Rightarrow> ('c, 'r) frame list \<Rightarrow> (unit, 'c, 'r) act" where
  "receive_all sink W client [] = retD ()"
| "receive_all sink W client (f # fs) =
     bindD (handleClientFrame (send sink) W client f) (\<lambda>_. receive_all sink W client fs)"

definition attachD :: "string \<Rightarrow> nat \<Rightarrow> (unit, 'c, 'r) act" where
  "attachD clientID sink d = (case AttachClient clientID sink (dv_hub d) of
     (es, h) \<Rightarrow> ((), d\<lparr>dv_hub := h, dv_out := dv_out d @ es\<rparr>))"

definition detachD :: "string \<Rightarrow> nat \<Rightarrow> (unit, 'c, 'r) act" where
  "detachD clientID sink d = ((), d\<lparr>dv_hub := DetachClient clientID sink (dv_hub d)\<rparr>)"

text \<open>The frames are those the device sends before its stream ends; the session runs to its end.\<close>

definition Session ::
  "('c, 'r) wire \<Rightarrow> string \<Rightarrow> bytes option list \<Rightarrow> nat \<Rightarrow> ('c, 'r) frame list \<Rightarrow> (session_end, 'c, 'r) act" where
  "Session W peer draws sink frames = (case frames of
     [] \<Rightarrow> retD NoHello
   | first # rest \<Rightarrow> (case first of
       ClientHello hello \<Rightarrow>
         bindD (authenticate W hello) (\<lambda>who.
         case who of
           None \<Rightarrow> bindD (send sink (ServerHello False)) (\<lambda>_. retD Unauthenticated)
         | Some client \<Rightarrow>
             bindD (send sink (ServerHello True)) (\<lambda>ok.
             if \<not> ok then retD Broken
             else bindD (markOnline W peer client hello) (\<lambda>_.
             bindD (attachD (ID client) sink) (\<lambda>_.
             bindD (welcomeFrames W draws client (h_config_version hello)) (\<lambda>burst.
             bindD (send_all sink burst) (\<lambda>sent.
             bindD (if sent then bindD (receive_all sink W client rest) (\<lambda>_. retD Closed) else retD Broken) (\<lambda>e.
             bindD (detachD (ID client) sink) (\<lambda>_.
             bindD (markOffline W client) (\<lambda>_. retD e)))))))))
     | _ \<Rightarrow> retD NotHello))"

subsection \<open>The one-shot sync\<close>

record ('c, 'r) sync_request =
  sy_hello :: "hello option"
  sy_state :: "('c, 'r) state_report option"
  sy_apps :: "package_metadata list option"
  sy_acks :: "string list"

record 'c sync_response =
  sp_accepted :: bool
  sp_log_control :: "log_control option"
  sp_push :: "('c \<times> string) option"
  sp_commands :: "command list"

definition no_sink :: "('c, 'r) frame \<Rightarrow> (bool, 'c, 'r) act" where
  "no_sink f = retD True"

fun ack_all :: "('c, 'r) wire \<Rightarrow> client \<Rightarrow> string list \<Rightarrow> (unit, 'c, 'r) act" where
  "ack_all W client [] = retD ()"
| "ack_all W client (a # as) =
     bindD (handleClientFrame no_sink W client (CommandAck a)) (\<lambda>_. ack_all W client as)"

text \<open>What an accepted sync does once the device is marked online.\<close>

definition sync_body ::
  "('c, 'r) wire \<Rightarrow> bytes option list \<Rightarrow> ('c, 'r) sync_request \<Rightarrow> hello \<Rightarrow> client \<Rightarrow> ('c sync_response option, 'c, 'r) act" where
  "sync_body W draws req hello client =
     bindD (case sy_state req of None \<Rightarrow> retD ()
         | Some st \<Rightarrow> bindD (storeStateReport W client (Some st)) (\<lambda>_. fanout W client (StateReport (Some st)))) (\<lambda>_.
     bindD (case sy_apps req of None \<Rightarrow> retD ()
         | Some apps \<Rightarrow> bindD (storeInstalledApps W client (Some apps)) (\<lambda>_. fanout W client (InstalledApps (Some apps)))) (\<lambda>_.
     bindD (ack_all W client (sy_acks req)) (\<lambda>_.
     bindD (logControlFor (ID client)) (\<lambda>control.
     bindD (configPushFor W (ID client) (h_config_version hello)) (\<lambda>push.
     bindD (drainCommands draws (ID client)) (\<lambda>commands.
     bindD (markOffline W client) (\<lambda>_.
     retD (Some \<lparr>sp_accepted = True, sp_log_control = control, sp_push = push, sp_commands = commands\<rparr>))))))))"

definition Sync ::
  "('c, 'r) wire \<Rightarrow> string \<Rightarrow> bytes option list \<Rightarrow> ('c, 'r) sync_request \<Rightarrow> ('c sync_response option, 'c, 'r) act" where
  "Sync W peer draws req = (case sy_hello req of
     None \<Rightarrow> retD None
   | Some hello \<Rightarrow>
       bindD (authenticate W hello) (\<lambda>who.
       case who of
         None \<Rightarrow> retD (Some \<lparr>sp_accepted = False, sp_log_control = None, sp_push = None, sp_commands = []\<rparr>)
       | Some client \<Rightarrow> bindD (markOnline W peer client hello) (\<lambda>_. sync_body W draws req hello client)))"

subsection \<open>Evaluation\<close>

lemma dev_app [simp]:
  "retD x d = (x, d)" "bindD m k d = k (fst (m d)) (snd (m d))"
  "dbD q d = (fst (q (dv_store d)), d\<lparr>dv_store := snd (q (dv_store d))\<rparr>)"
  "emit es d = ((), d\<lparr>dv_out := dv_out d @ es\<rparr>)" "ignore n d = ((), snd (n d))"
  by (simp_all add: retD_def bindD_def dbD_def emit_def ignore_def split: prod.split)

lemma FindClientByID_ok: "faults s = [] \<Longrightarrow> FindClientByID i s =
    (case client_by_id i s of None \<Rightarrow> Inl ErrNotFound | Some m \<Rightarrow> Inr (toStorageClient m), s)"
  by (simp add: FindClientByID_def bindE_def find_row_ok split: option.split)

lemma UpdateClientPresence_ok: "faults s = [] \<Longrightarrow> UpdateClientPresence i online info s =
    (Inr (), clients_update (update_where (\<lambda>r. cl_id r = i) (presence_update online info (clock s))) s)"
  by (simp add: UpdateClientPresence_def bindE_def asks_def update_rows_ok ret_def)

lemma toStorageClient_simps [simp]:
  "ID (toStorageClient m) = cl_id m" "OwnerAdminID (toStorageClient m) = cl_owner m"
  "TokenHash (toStorageClient m) = cl_token_hash m" "HWID (toStorageClient m) = cl_hwid m"
  by (simp_all add: toStorageClient_def)

lemma presence_update_simps [simp]:
  "cl_id (presence_update b i t r) = cl_id r" "cl_token_hash (presence_update b i t r) = cl_token_hash r"
  "cl_owner (presence_update b i t r) = cl_owner r" "cl_online (presence_update b i t r) = bool_to_int b"
  "cl_hwid (presence_update b None t r) = cl_hwid r" "cl_hwid (presence_update b (Some x) t r) = di_hwid x"
  by (simp_all add: presence_update_def Let_def split: option.split)

subsection \<open>Who is let in\<close>

definition hwid_ok :: "client_row \<Rightarrow> hello \<Rightarrow> bool" where
  "hwid_ok m hello \<longleftrightarrow> trim_space (cl_hwid m) = [] \<or> trim_space (h_hwid hello) = [] \<or>
     trim_space (cl_hwid m) = trim_space (h_hwid hello)"

lemma authenticate_ok:
  assumes f: "faults (dv_store d) = []" and m: "client_by_id (h_client_id hello) (dv_store d) = Some m"
  shows "fst (authenticate W hello d) = (if VerifyClientToken (w_crypto W) (cl_token_hash m) (h_client_token hello) \<and> hwid_ok m hello
      then Some ((toStorageClient m)\<lparr>TokenHash := (if ClientTokenHashNeedsUpgrade (cl_token_hash m)
        then HashClientToken (w_crypto W) (h_client_token hello) else cl_token_hash m)\<rparr>) else None)"
    and "snd (authenticate W hello d) = (if VerifyClientToken (w_crypto W) (cl_token_hash m) (h_client_token hello) \<and>
        ClientTokenHashNeedsUpgrade (cl_token_hash m)
      then d\<lparr>dv_store := clients_update (update_where (\<lambda>r. cl_id r = cl_id m)
        (\<lambda>r. r\<lparr>cl_token_hash := HashClientToken (w_crypto W) (h_client_token hello)\<rparr>)) (dv_store d)\<rparr> else d)"
proof -
  have e: "(toStorageClient m)\<lparr>TokenHash := cl_token_hash m\<rparr> = toStorageClient m" by (simp add: toStorageClient_def)
  show "fst (authenticate W hello d) = (if VerifyClientToken (w_crypto W) (cl_token_hash m) (h_client_token hello) \<and> hwid_ok m hello
      then Some ((toStorageClient m)\<lparr>TokenHash := (if ClientTokenHashNeedsUpgrade (cl_token_hash m)
        then HashClientToken (w_crypto W) (h_client_token hello) else cl_token_hash m)\<rparr>) else None)"
    using f m by (simp add: authenticate_def FindClientByID_ok upgrade_hash_def UpgradeClientTokenHash_def bindE_def
        update_rows_ok ret_def hwidMatches_def hwid_ok_def Let_def e)
  show "snd (authenticate W hello d) = (if VerifyClientToken (w_crypto W) (cl_token_hash m) (h_client_token hello) \<and>
        ClientTokenHashNeedsUpgrade (cl_token_hash m)
      then d\<lparr>dv_store := clients_update (update_where (\<lambda>r. cl_id r = cl_id m)
        (\<lambda>r. r\<lparr>cl_token_hash := HashClientToken (w_crypto W) (h_client_token hello)\<rparr>)) (dv_store d)\<rparr> else d)"
    using f m by (simp add: authenticate_def FindClientByID_ok upgrade_hash_def UpgradeClientTokenHash_def bindE_def
        update_rows_ok ret_def Let_def)
qed

text \<open>A row that accepts a token whatever device presents it.\<close>

definition loose :: "crypto \<Rightarrow> string \<Rightarrow> bytes \<Rightarrow> client_row list \<Rightarrow> bool" where
  "loose C i token rs \<longleftrightarrow> (case find (\<lambda>r. cl_id r = i) rs of None \<Rightarrow> False
     | Some m \<Rightarrow> VerifyClientToken C (cl_token_hash m) token \<and> trim_space (cl_hwid m) = [])"

text \<open>Operations that keep a working database working and leave \<open>J\<close> of the devices true.\<close>

definition on_clients :: "(client_row list \<Rightarrow> bool) \<Rightarrow> store \<Rightarrow> bool" where
  "on_clients J s \<longleftrightarrow> faults s = [] \<and> J (clients s)"

named_theorems keeps "operations that keep what is known of the devices"

lemma keeps_upsert [keeps]:
  assumes "\<And>f s. clients (put f s) = clients s" "\<And>f s. faults (put f s) = faults s"
  shows "preserves (on_clients J) (upsert_rows put key upd ok rows)"
  using assms by (auto simp: preserves_def on_clients_def upsert_rows_ok)

lemma keeps_reads [keeps]:
  "preserves (on_clients J) (select g)" "preserves (on_clients J) (query_first h)" "preserves (on_clients J) (find_row h)"
  by (auto simp: preserves_def on_clients_def select_ok query_first_ok find_row_ok split: option.split)

lemma keeps_delete [keeps]:
  assumes "\<And>f s. clients (put f s) = clients s" "\<And>f s. faults (put f s) = faults s"
  shows "preserves (on_clients J) (delete_rows get put P)"
  using assms by (auto simp: preserves_def on_clients_def delete_rows_ok)

lemma loose_update:
  assumes "loose C i token rs" "\<And>r. cl_id (f r) = cl_id r" "\<And>r. cl_token_hash (f r) = cl_token_hash r" "\<And>r. cl_hwid (f r) = cl_hwid r"
  shows "loose C i token (update_where P f rs)"
  using assms by (auto simp: loose_def find_update_where [where key = cl_id] split: option.splits)

lemma keeps_update [keeps]:
  assumes "\<And>r. cl_id (f r) = cl_id r" "\<And>r. cl_token_hash (f r) = cl_token_hash r" "\<And>r. cl_hwid (f r) = cl_hwid r"
  shows "preserves (on_clients (loose C i token)) (update_rows clients clients_update P f)"
  using assms by (auto simp: preserves_def on_clients_def update_rows_ok intro: loose_update)

lemmas keeps_intros = keeps pres_ret pres_Pair pres_fail pres_asks pres_bindE pres_attempt pres_if pres_forE pres_let

text \<open>The same of an action of the device's side.\<close>

definition keepsD :: "(store \<Rightarrow> bool) \<Rightarrow> ('a, 'c, 'r) act \<Rightarrow> bool" where
  "keepsD I m \<longleftrightarrow> (\<forall>d. I (dv_store d) \<longrightarrow> I (dv_store (snd (m d))))"

lemma keepsD_intros:
  "keepsD I (retD x)" "keepsD I m \<Longrightarrow> (\<And>x. keepsD I (k x)) \<Longrightarrow> keepsD I (bindD m k)" "preserves I q \<Longrightarrow> keepsD I (dbD q)"
  "keepsD I n \<Longrightarrow> keepsD I (ignore n)" "keepsD I (fanout W c f)" "keepsD I (send sink f)"
  "keepsD I (attachD i sink)" "keepsD I (detachD i sink)"
  "(\<And>x. v = Some x \<Longrightarrow> keepsD I (g x)) \<Longrightarrow> keepsD I n' \<Longrightarrow> keepsD I (case v of None \<Rightarrow> n' | Some x \<Rightarrow> g x)"
  by (simp_all add: keepsD_def preserves_def fanout_def send_def attachD_def detachD_def split: prod.split option.split)

lemma keepsD_apply: "keepsD I m \<Longrightarrow> I (dv_store d) \<Longrightarrow> I (dv_store (snd (m d)))"
  by (simp add: keepsD_def)

lemma verifies_own_hash: "VerifyClientToken C (HashClientToken C token) token"
proof -
  have "has_prefix (HashClientToken C token) clientTokenHashPrefix" by (simp add: has_prefix_def HashClientToken_def)
  then show ?thesis by (simp add: VerifyClientToken_def verifyClientTokenBytes_def)
qed

lemma keepsD_reports:
  fixes C :: crypto and i :: string and token :: bytes
  defines "I \<equiv> on_clients (loose C i token)"
  shows "keepsD I (storeStateReport W c rep)" "keepsD I (storeInstalledApps W c apps)" "keepsD I (logControlFor j)"
    "keepsD I (configPushFor W j v)" "keepsD I (drainCommands draws j)" "keepsD I (ack_all W c as)" "keepsD I (markOffline W c)"
proof -
  have rt: "keepsD I (storeRuntime W c rt)" for rt
    unfolding I_def storeRuntime_def UpsertClientRuntime_def upsert_blob_def UpdateClientRootAccess_def UpdateClientVkOAuthAuthorized_def
    by (intro keepsD_intros keeps_intros; simp)
  show "keepsD I (storeStateReport W c rep)"
    unfolding storeStateReport_def by (intro keepsD_intros rt)
      (unfold I_def UpsertClientReportedConfig_def upsert_blob_def, intro keeps_intros; simp)
  show "keepsD I (storeInstalledApps W c apps)"
    unfolding I_def storeInstalledApps_def UpsertClientInstalledApps_def upsert_blob_def UpsertPackageMetadata_def GetPackageMetadataMap_def Let_def
    by (intro keepsD_intros keeps_intros; simp)
  show "keepsD I (logControlFor j)"
    unfolding I_def logControlFor_def FindClientByID_def by (intro keepsD_intros keeps_intros)
  show "keepsD I (configPushFor W j v)"
    unfolding I_def configPushFor_def GetClientConfig_def by (intro keepsD_intros keeps_intros)
  show "keepsD I (drainCommands draws j)"
    unfolding I_def drainCommands_def DrainPendingCommands_def Let_def by (intro keepsD_intros keeps_intros; simp)
  have ack: "keepsD I (handleClientFrame no_sink W c (CommandAck a))" for a
    unfolding handleClientFrame_def frame.case by (rule keepsD_intros)
  show "keepsD I (ack_all W c as)" by (induction as) (simp_all only: ack_all.simps, (intro keepsD_intros ack; assumption)+)
  have "keepsD I (dbD (UpdateClientPresence (ID c) False None))"
    unfolding I_def UpdateClientPresence_def by (intro keepsD_intros keeps_intros; simp)
  then show "keepsD I (markOffline W c)"
    by (auto simp: keepsD_def markOffline_def fanout_def)
qed

text \<open>An empty hardware id undoes the binding of a token to its device. Whoever holds the token of a
  bound device is refused under another hardware id; but one sync that reports none is accepted,
  stores the empty id over the binding, and from then on the token is accepted with any hardware
  id.\<close>

theorem empty_hwid_unbinds:
  assumes f: "faults (dv_store d) = []" and m: "client_by_id (h_client_id hello) (dv_store d) = Some m"
    and t: "VerifyClientToken (w_crypto W) (cl_token_hash m) (h_client_token hello)"
    and req: "sy_hello req = Some hello" and blank: "trim_space (h_hwid hello) = []"
    and h': "h_client_id hello' = h_client_id hello" "h_client_token hello' = h_client_token hello"
  shows "(trim_space (cl_hwid m) \<noteq> [] \<and> trim_space (h_hwid hello') \<noteq> [] \<and> trim_space (h_hwid hello') \<noteq> trim_space (cl_hwid m) \<longrightarrow>
      fst (authenticate W hello' d) = None) \<and>
    fst (authenticate W hello' (snd (Sync W peer draws req d))) \<noteq> None"
proof
  show "trim_space (cl_hwid m) \<noteq> [] \<and> trim_space (h_hwid hello') \<noteq> [] \<and> trim_space (h_hwid hello') \<noteq> trim_space (cl_hwid m) \<longrightarrow>
      fst (authenticate W hello' d) = None"
    using authenticate_ok(1) [OF f, of hello'] m h' by (simp add: hwid_ok_def)
  let ?i = "h_client_id hello" and ?tok = "h_client_token hello" and ?C = "w_crypto W"
  let ?I = "on_clients (loose ?C ?i ?tok)"
  obtain c where c: "fst (authenticate W hello d) = Some c" "ID c = cl_id m"
    using authenticate_ok(1) [OF f m] t blank by (auto simp: hwid_ok_def toStorageClient_def)
  have id: "cl_id m = ?i" using m by (auto simp: client_by_id_def find_Some_iff)
  let ?d1 = "snd (authenticate W hello d)"
  have f1: "faults (dv_store ?d1) = []" using authenticate_ok(2) [OF f m] f by simp
  obtain m1 where m1: "find (\<lambda>r. cl_id r = ?i) (clients (dv_store ?d1)) = Some m1" "VerifyClientToken ?C (cl_token_hash m1) ?tok"
    using m t verifies_own_hash [of ?C ?tok] id
    by (cases "ClientTokenHashNeedsUpgrade (cl_token_hash m)")
      (auto simp: authenticate_ok(2) [OF f m] client_by_id_def find_update_where [where key = cl_id])
  have id1: "cl_id m1 = ?i" using m1(1) by (auto simp: find_Some_iff)
  have online: "?I (dv_store (snd (markOnline W peer c hello ?d1)))"
    using f1 m1 blank c(2) id id1
    by (simp add: markOnline_def fanout_def UpdateClientPresence_ok on_clients_def loose_def
        find_update_where [where key = cl_id])
  have body: "keepsD ?I (sync_body W draws req hello c)"
    unfolding sync_body_def by (intro keepsD_intros keepsD_reports)
  have "?I (dv_store (snd (Sync W peer draws req d)))"
    using keepsD_apply [OF body online] by (simp add: Sync_def req c(1))
  then obtain m2 where m2: "faults (dv_store (snd (Sync W peer draws req d))) = []"
      "client_by_id ?i (dv_store (snd (Sync W peer draws req d))) = Some m2"
      "VerifyClientToken ?C (cl_token_hash m2) ?tok" "trim_space (cl_hwid m2) = []"
    by (auto simp: on_clients_def loose_def client_by_id_def split: option.splits)
  show "fst (authenticate W hello' (snd (Sync W peer draws req d))) \<noteq> None"
    using authenticate_ok(1) [OF m2(1), of hello'] m2 h' by (simp add: hwid_ok_def)
qed

subsection \<open>What the device receives\<close>

lemma config_of_Some: "config_of c s = Some m \<Longrightarrow> cc_client_id m = c"
  by (auto simp: config_of_def find_Some_iff)

lemma configPushFor_ok: "faults (dv_store d) = [] \<Longrightarrow> configPushFor W c v d = (case config_of c (dv_store d) of
     None \<Rightarrow> None
   | Some m \<Rightarrow> if cc_config_proto m = [] \<or> u64_of (cc_config_version m) \<le> v then None
       else map_option (\<lambda>p. (w_with_version W (u64_of (cc_config_version m)) p, cc_revision m)) (w_config_of W (cc_config_proto m)), d)"
  by (simp add: configPushFor_def GetClientConfig_def bindE_def find_row_ok toClientConfig_def ret_def split: option.split)

text \<open>C12: What the panel saves reaches the device once. After a configuration is saved, a device that
  reports an older version is pushed exactly that configuration, stamped with the version of the
  save, and a device that reports this version, as it does once it has applied the push, is pushed
  nothing.\<close>

theorem push_until_applied:
  assumes f: "faults (dv_store d) = []" "fk_client c (dv_store d)"
    and save: "UpsertClientConfig c raw revision (dv_store d) = (Inr v, s')" and cfg: "raw \<noteq> []" "w_config_of W raw = Some cfg"
  shows "fst (configPushFor W c w (d\<lparr>dv_store := s'\<rparr>)) = (if w < v then Some (w_with_version W v cfg, revision) else None)"
proof -
  obtain m where m: "config_of c s' = Some m" "cc_config_proto m = raw" "cc_revision m = revision"
      "u64_of (cc_config_version m) = v" "faults s' = []"
    using save UpsertClientConfig_ok [OF f, of raw revision] by (cases "config_of c (dv_store d)") (auto simp: u64_of_def)
  show ?thesis using m cfg configPushFor_ok [of "d\<lparr>dv_store := s'\<rparr>" W c w] by (auto simp: not_less)
qed

lemma send_all_app: "send_all sink fs d =
    (length fs \<le> dv_room d, d\<lparr>dv_room := dv_room d - length fs, dv_out := dv_out d @ map (SendFrame sink) (take (dv_room d) fs)\<rparr>)"
proof (induction fs arbitrary: d)
  case Nil
  then show ?case by simp
next
  case (Cons f fs)
  show ?case
  proof (cases "dv_room d")
    case 0
    then show ?thesis by (simp add: send_def)
  next
    case (Suc n)
    then show ?thesis by (simp add: send_def Cons.IH)
  qed
qed

text \<open>The opening burst of a session. The log settings come first, then the configuration if a newer
  one is stored, then the queued commands in the order they were queued; the stream gets as many of
  the frames as it takes; and the commands are off the queue whether they got out or not, so those
  the stream did not take are lost.\<close>

theorem welcome_burst:
  assumes f: "faults (dv_store d) = []"
  shows "case welcomeFrames W draws client v d of (burst, d1) \<Rightarrow>
    (\<exists>pre. list_all (\<lambda>x. \<not> is_CommandFrame x) pre \<and> burst = pre @ map CommandFrame (commands_of
       (map toPendingCommand (sort_key pc_queued_at (filter (live_for (ID client) (clock (dv_store d))) (pending (dv_store d))))) draws)) \<and>
    dv_out (snd (send_all sink burst d1)) = dv_out d @ map (SendFrame sink) (take (dv_room d) burst) \<and>
    list_all (\<lambda>r. pc_client_id r \<noteq> ID client) (pending (dv_store (snd (send_all sink burst d1))))"
proof -
  let ?s = "dv_store d" and ?cs = "commands_of (map toPendingCommand (sort_key pc_queued_at
      (filter (live_for (ID client) (clock (dv_store d))) (pending (dv_store d))))) draws"
  obtain pre where w: "welcomeFrames W draws client v d = (pre @ map CommandFrame ?cs,
      d\<lparr>dv_store := pending_update (filter (\<lambda>r. pc_expires_at r > clock ?s \<and> pc_client_id r \<noteq> ID client)) ?s\<rparr>)"
    and n: "list_all (\<lambda>x. \<not> is_CommandFrame x) pre"
  proof -
    let ?c = "fst (logControlFor (ID client) d)" and ?p = "fst (configPushFor W (ID client) v d)"
    let ?pre = "(case ?c of None \<Rightarrow> [] | Some c \<Rightarrow> [LogControl c]) @ (case ?p of None \<Rightarrow> [] | Some (cfg, rr) \<Rightarrow> [ConfigPush cfg rr])"
    have s1: "snd (logControlFor (ID client) d) = d" "snd (configPushFor W (ID client) v d) = d"
      using f by (simp_all add: logControlFor_def FindClientByID_ok configPushFor_ok)
    have "welcomeFrames W draws client v d = (?pre @ map CommandFrame ?cs,
      d\<lparr>dv_store := pending_update (filter (\<lambda>r. pc_expires_at r > clock ?s \<and> pc_client_id r \<noteq> ID client)) ?s\<rparr>)"
      unfolding welcomeFrames_def dev_app(2) s1 drainCommands_def using DrainPendingCommands_ok [OF f] by simp
    moreover have "list_all (\<lambda>x. \<not> is_CommandFrame x) ?pre" by (auto split: option.split)
    ultimately show ?thesis using that by blast
  qed
  show ?thesis unfolding w prod.case send_all_app using n by (auto simp: list_all_iff)
qed

subsection \<open>Who hears of it\<close>

definition own_effect :: "client \<Rightarrow> nat \<Rightarrow> hub \<Rightarrow> ('c, 'r) frame effect \<Rightarrow> bool" where
  "own_effect client sink h e = (case e of
     SendFrame k f \<Rightarrow> k = sink
   | CloseSink _ _ \<Rightarrow> False
   | SendEvent k ev \<Rightarrow> (OwnerAdminID client, k) \<in> set (hb_admins h) \<and> ev_ClientID ev = ID client
   | Publish chan env \<Rightarrow> chan = channelAdmin \<and> \<not> be_Broadcast env \<and> be_AdminID env = OwnerAdminID client \<and>
       be_ClientID env = ID client)"

text \<open>Actions that neither say anything nor touch the hub.\<close>

definition silent :: "('a, 'c, 'r) act \<Rightarrow> bool" where
  "silent m \<longleftrightarrow> (\<forall>d. dv_out (snd (m d)) = dv_out d \<and> dv_hub (snd (m d)) = dv_hub d)"

lemma silent_intros:
  "silent (retD x)" "silent m \<Longrightarrow> (\<And>x. silent (k x)) \<Longrightarrow> silent (bindD m k)" "silent (dbD q)" "silent n \<Longrightarrow> silent (ignore n)"
  "(\<And>x. silent (g x)) \<Longrightarrow> silent n' \<Longrightarrow> silent (case v of None \<Rightarrow> n' | Some x \<Rightarrow> g x)"
  by (auto simp: silent_def split: option.split)

lemma silent_reports: "silent (storeRuntime W c rt)" "silent (storeStateReport W c rep)" "silent (storeLogChunk c chunk)"
    "silent (storeInstalledApps W c apps)"
proof -
  show r: "silent (storeRuntime W c rt)" for rt unfolding storeRuntime_def by (intro silent_intros)
  show "silent (storeStateReport W c rep)" unfolding storeStateReport_def by (intro silent_intros r)
  show "silent (storeLogChunk c chunk)" unfolding storeLogChunk_def by (intro silent_intros)
  show "silent (storeInstalledApps W c apps)" unfolding storeInstalledApps_def by (intro silent_intros)
qed

lemma fanout_own:
  "\<exists>es. dv_out (snd (fanout W c f d)) = dv_out d @ es \<and> list_all (own_effect c sink (dv_hub d)) es"
  by (auto simp: fanout_def FanoutToAdmin_def deliverLocalAdmin_def list_all_iff own_effect_def adminEnvelope_def)

lemma silent_fanout_own:
  assumes "silent m"
  shows "\<exists>es. dv_out (snd (bindD m (\<lambda>_. fanout W c f) d)) = dv_out d @ es \<and> list_all (own_effect c sink (dv_hub d)) es"
  using fanout_own [of W c f "snd (m d)" sink] assms by (simp add: silent_def)

text \<open>C24: What a device reports is heard by its owner alone. Whatever frame a connected device sends and
  whatever the database answers, the only things the panel does to the outside are to write back to
  that device's own stream, to notify admin sessions of the device's owner, and to publish a message
  for that owner to the other replicas.\<close>

theorem report_stays_with_owner:
  "\<exists>es. dv_out (snd (handleClientFrame (send sink) W client f d)) = dv_out d @ es \<and>
    list_all (own_effect client sink (dv_hub d)) es"
proof (cases f)
  case (Heartbeat t)
  then show ?thesis by (auto simp: handleClientFrame_def send_def own_effect_def)
next
  case (CommandAck a)
  then show ?thesis using fanout_own by (simp add: handleClientFrame_def)
qed (auto simp: handleClientFrame_def simp del: dev_app(2) intro!: silent_fanout_own silent_reports)

subsection \<open>Presence\<close>

text \<open>The life of the sessions of one device on a replica, one step at a time: a session is numbered by
  its sink, and other sessions may run between any two of its steps.\<close>

datatype phase = Arriving | Announced | Attached | Leaving | Gone

inductive presence_step ::
  "('c, 'r) wire \<Rightarrow> client \<Rightarrow> (nat \<Rightarrow> phase) \<times> ('c, 'r) dev \<Rightarrow> (nat \<Rightarrow> phase) \<times> ('c, 'r) dev \<Rightarrow> bool"
  for W client where
  announce: "ph k = Arriving \<Longrightarrow>
    presence_step W client (ph, d) (ph(k := Announced), snd (markOnline W peer client hello d))"
| attach: "ph k = Announced \<Longrightarrow>
    presence_step W client (ph, d) (ph(k := Attached), snd (attachD (ID client) k d))"
| detach: "ph k = Attached \<Longrightarrow>
    presence_step W client (ph, d) (ph(k := Leaving), snd (detachD (ID client) k d))"
| leave: "ph k = Leaving \<Longrightarrow>
    presence_step W client (ph, d) (ph(k := Gone), snd (markOffline W client d))"

definition shown_online :: "string \<Rightarrow> store \<Rightarrow> bool" where
  "shown_online i s \<longleftrightarrow> (case client_by_id i s of None \<Rightarrow> False | Some m \<Rightarrow> cl_online m \<noteq> 0)"

definition settled :: "(nat \<Rightarrow> phase) \<Rightarrow> bool" where
  "settled ph \<longleftrightarrow> (\<forall>k. ph k \<noteq> Announced \<and> ph k \<noteq> Leaving)"

lemma shown_after:
  assumes "faults s = []" "client_by_id i s \<noteq> None"
  shows "shown_online i (snd (UpdateClientPresence i b info s)) = b" "faults (snd (UpdateClientPresence i b info s)) = []"
    "client_by_id i (snd (UpdateClientPresence i b info s)) \<noteq> None"
proof -
  obtain m where m: "find (\<lambda>r. cl_id r = i) (clients s) = Some m" "cl_id m = i"
    using assms(2) by (auto simp: client_by_id_def find_Some_iff)
  show "shown_online i (snd (UpdateClientPresence i b info s)) = b" "faults (snd (UpdateClientPresence i b info s)) = []"
    "client_by_id i (snd (UpdateClientPresence i b info s)) \<noteq> None"
    using assms(1) m by (simp_all add: UpdateClientPresence_ok shown_online_def client_by_id_def
      find_update_where [where key = cl_id] bool_to_int_def)
qed

text \<open>While the database works, the device is shown online only if the hub holds a session of it or some
  session is between two of its steps, and the hub's session is attached.\<close>

definition presence_inv :: "client \<Rightarrow> (nat \<Rightarrow> phase) \<times> ('c, 'r) dev \<Rightarrow> bool" where
  "presence_inv client st = (case st of (ph, d) \<Rightarrow>
     faults (dv_store d) = [] \<and> client_by_id (ID client) (dv_store d) \<noteq> None \<and>
     (\<forall>k. ClientSink (ID client) (dv_hub d) = Some k \<longrightarrow> ph k = Attached) \<and>
     (shown_online (ID client) (dv_store d) \<longrightarrow> ClientSink (ID client) (dv_hub d) \<noteq> None \<or> \<not> settled ph))"

lemma presence_step_inv:
  assumes "presence_step W client st st'" "presence_inv client st"
  shows "presence_inv client st'"
  using assms
proof cases
  case (announce ph k d peer hello)
  then show ?thesis using assms(2) shown_after [of "dv_store d" "ID client"]
    by (auto simp: presence_inv_def markOnline_def fanout_def Let_def settled_def)
next
  case (attach ph k d)
  then show ?thesis using assms(2)
    by (auto simp: presence_inv_def attachD_def AttachClient_def ClientSink_def)
next
  case (detach ph k d)
  then show ?thesis using assms(2)
    by (auto simp: presence_inv_def detachD_def DetachClient_def ClientSink_def settled_def)
next
  case (leave ph k d)
  then show ?thesis using assms(2) shown_after [of "dv_store d" "ID client" False None]
    by (auto simp: presence_inv_def markOffline_def fanout_def)
qed

text \<open>C25: Presence settles. However the sessions of a device interleave, once no session is in the middle of
  connecting or disconnecting and the hub holds none, the device is shown as offline.\<close>

theorem presence_settles:
  assumes steps: "(presence_step W client)\<^sup>*\<^sup>* ((\<lambda>_. Arriving), d0) (ph, d)"
    and start: "faults (dv_store d0) = []" "client_by_id (ID client) (dv_store d0) \<noteq> None"
      "ClientSink (ID client) (dv_hub d0) = None" "\<not> shown_online (ID client) (dv_store d0)"
    and quiet: "settled ph" "ClientSink (ID client) (dv_hub d) = None"
  shows "\<not> shown_online (ID client) (dv_store d)"
proof -
  have "presence_inv client ((\<lambda>_. Arriving), d0)" using start by (simp add: presence_inv_def)
  with steps have "presence_inv client (ph, d)"
    by (induction rule: rtranclp_induct) (auto intro: presence_step_inv)
  then show ?thesis using quiet by (simp add: presence_inv_def)
qed

text \<open>A reconnect can be shown as offline. If a device reconnects while its previous session is being torn
  down, and the old session leaves between the two steps in which the new one is announced and
  attached, the device ends up attached to the hub and shown as offline, with no step left that would
  correct it.\<close>

theorem reconnect_shown_offline:
  assumes start: "faults (dv_store d0) = []" "client_by_id (ID client) (dv_store d0) \<noteq> None"
      "ClientSink (ID client) (dv_hub d0) = None" and ne: "j \<noteq> k"
  shows "\<exists>ph d. (presence_step W client)\<^sup>*\<^sup>* ((\<lambda>_. Arriving), d0) (ph, d) \<and> settled ph \<and>
    ClientSink (ID client) (dv_hub d) = Some k \<and> \<not> shown_online (ID client) (dv_store d)"
proof -
  let ?i = "ID client" and ?A = "\<lambda>_ :: nat. Arriving"
  fix peer :: string and hello :: hello
  define d1 where "d1 = snd (markOnline W peer client hello d0)"
  define d2 where "d2 = snd (attachD ?i j d1)"
  define d3 where "d3 = snd (markOnline W peer client hello d2)"
  define d4 where "d4 = snd (detachD ?i j d3)"
  define d5 where "d5 = snd (markOffline W client d4)"
  define d6 where "d6 = snd (attachD ?i k d5)"
  let ?p2 = "?A(j := Attached)" and ?p3 = "?A(j := Attached, k := Announced)" and ?p4 = "?A(j := Leaving, k := Announced)"
    and ?p5 = "?A(j := Gone, k := Announced)" and ?ph = "?A(j := Gone, k := Attached)"
  note step = rtranclp.rtrancl_into_rtrancl [where r = "presence_step W client"]
    and refl = rtranclp.rtrancl_refl [where r = "presence_step W client"]
  have 1: "presence_step W client (?A, d0) (?A(j := Announced), d1)"
    unfolding d1_def by (rule announce) simp
  have 2: "presence_step W client (?A(j := Announced), d1) (?p2, d2)"
    using attach [of "?A(j := Announced)" j W client d1] unfolding d2_def by simp
  have 3: "presence_step W client (?p2, d2) (?p3, d3)"
    unfolding d3_def using ne by (intro announce) simp
  have 4: "presence_step W client (?p3, d3) (?p4, d4)"
    using detach [of ?p3 j W client d3] ne unfolding d4_def by (simp add: fun_upd_twist)
  have 5: "presence_step W client (?p4, d4) (?p5, d5)"
    using leave [of ?p4 j W client d4] ne unfolding d5_def by (simp add: fun_upd_twist)
  have 6: "presence_step W client (?p5, d5) (?ph, d6)"
    using attach [of ?p5 k W client d5] unfolding d6_def by simp
  have reach: "(presence_step W client)\<^sup>*\<^sup>* (?A, d0) (?ph, d6)"
    by (rule step [OF step [OF step [OF step [OF step [OF step [OF refl 1] 2] 3] 4] 5] 6])
  have h4: "ClientSink ?i (dv_hub d4) = None"
    using start(3) by (simp add: d4_def d3_def d2_def d1_def markOnline_def fanout_def Let_def attachD_def detachD_def AttachClient_def DetachClient_def ClientSink_def)
  have s4: "faults (dv_store d4) = []" "client_by_id ?i (dv_store d4) \<noteq> None"
    using shown_after [of "dv_store d0" ?i] shown_after [of "snd (UpdateClientPresence ?i True x (dv_store d0))" ?i for x] start
    by (simp_all add: d4_def d3_def d2_def d1_def markOnline_def fanout_def Let_def attachD_def detachD_def AttachClient_def)
  have "\<not> shown_online ?i (dv_store d5)"
    using shown_after [OF s4, of False None] h4 by (simp add: d5_def markOffline_def fanout_def)
  then have "\<not> shown_online ?i (dv_store d6)" by (simp add: d6_def attachD_def AttachClient_def)
  moreover have "ClientSink ?i (dv_hub d6) = Some k" by (simp add: d6_def attachD_def AttachClient_def ClientSink_def)
  moreover have "settled ?ph" by (simp add: settled_def)
  ultimately show ?thesis using reach by blast
qed

subsection \<open>At concrete inputs\<close>

definition sample_wire :: "(string, bool) wire" where
  "sample_wire = \<lparr>w_crypto = sample_crypto, w_frames = \<lparr>marshal = (\<lambda>_. None), unmarshal = (\<lambda>_. None)\<rparr>,
     w_config_bytes = Some, w_config_of = Some, w_with_version = (\<lambda>_ c. c), w_runtime_bytes = (\<lambda>_. Some ''r''),
     w_apps_bytes = (\<lambda>_. None), w_root_access = id, w_vk_authorized = id, w_no_runtime = False\<rparr>"

definition hello_from :: "string \<Rightarrow> hello" where
  "hello_from hwid = \<lparr>h_client_id = ''c1'', h_client_token = ''h1'', h_hwid = hwid, h_device_name = ''n'', h_device_model = ''m'',
     h_os_version = ''14'', h_app_version = ''1'', h_config_version = 0\<rparr>"

definition on_replica :: "nat \<Rightarrow> store \<Rightarrow> (string, bool) dev" where
  "on_replica room s = \<lparr>dv_store = s, dv_hub = new_hub, dv_room = room, dv_out = []\<rparr>"

definition bound_row :: client_row where
  "bound_row = (new_client_row ''c1'' 1 ''phone'' ''h1'' ''t1'' 100)\<lparr>cl_hwid := ''A''\<rparr>"

definition bound_store :: store where
  "bound_store = (sample_store DriverSQLite)\<lparr>clients := [bound_row]\<rparr>"

lemma bound_store_simps [simp]: "faults bound_store = []" "client_by_id ''c1'' bound_store = Some bound_row"
  by (simp_all add: bound_store_def client_by_id_def bound_row_def new_client_row_def)

lemma on_replica_simps [simp]: "dv_store (on_replica n s) = s" "dv_hub (on_replica n s) = new_hub"
    "dv_room (on_replica n s) = n" "dv_out (on_replica n s) = []"
  by (simp_all add: on_replica_def)

theorem empty_hwid_unbinds_witness:
  "fst (authenticate sample_wire (hello_from ''B'') (on_replica 0 bound_store)) = None \<and>
   fst (authenticate sample_wire (hello_from ''B'') (snd (Sync sample_wire [] []
     \<lparr>sy_hello = Some (hello_from []), sy_state = None, sy_apps = None, sy_acks = []\<rparr> (on_replica 0 bound_store)))) \<noteq> None"
proof -
  have t: "VerifyClientToken (w_crypto sample_wire) (cl_token_hash bound_row) (h_client_token (hello_from []))" by code_simp
  have n: "trim_space (cl_hwid bound_row) \<noteq> []" "trim_space ''B'' \<noteq> []" "trim_space ''B'' \<noteq> trim_space (cl_hwid bound_row)"
    by code_simp+
  show ?thesis
    using empty_hwid_unbinds [of "on_replica 0 bound_store" "hello_from []" bound_row sample_wire
        "\<lparr>sy_hello = Some (hello_from []), sy_state = None, sy_apps = None, sy_acks = []\<rparr>" "hello_from ''B''" "[]" "[]"] t n
    by (simp add: hello_from_def)
qed

theorem push_until_applied_witness:
  "\<exists>s'. UpsertClientConfig ''c1'' ''cfg'' ''r1'' (empty_store DriverPostgres 7) = (Inr 1, s') \<and>
    fst (configPushFor sample_wire ''c1'' 0 (on_replica 0 s')) = Some (''cfg'', ''r1'') \<and>
    fst (configPushFor sample_wire ''c1'' 1 (on_replica 0 s')) = None"
proof -
  have f: "faults (dv_store (on_replica 0 (empty_store DriverPostgres 7))) = []"
    "fk_client ''c1'' (dv_store (on_replica 0 (empty_store DriverPostgres 7)))"
    by (simp_all add: empty_store_def fk_client_def)
  obtain s' where s': "UpsertClientConfig ''c1'' ''cfg'' ''r1'' (empty_store DriverPostgres 7) = (Inr 1, s')"
    using UpsertClientConfig_ok [of "empty_store DriverPostgres 7" "''c1''" "''cfg''" "''r1''"] f
    by (auto simp: config_of_def empty_store_def)
  have up: "(on_replica 0 s')\<lparr>dv_store := s'\<rparr> = on_replica 0 s'" "(on_replica 0 (empty_store DriverPostgres 7))\<lparr>dv_store := s'\<rparr> = on_replica 0 s'"
    by (simp_all add: on_replica_def)
  show ?thesis
    using push_until_applied [OF f, of "''cfg''" "''r1''" 1 s' sample_wire "''cfg''" 0] push_until_applied [OF f, of "''cfg''" "''r1''" 1 s' sample_wire "''cfg''" 1] s'
    by (simp add: up sample_wire_def)
qed

theorem welcome_burst_witness:
  "case welcomeFrames sample_wire [Some ''x'', Some ''y''] (toStorageClient bound_row) 0 (on_replica 1 queue_store) of (burst, d1) \<Rightarrow>
     length (dv_out (snd (send_all 3 burst d1))) \<le> 1 \<and>
     list_all (\<lambda>r. pc_client_id r \<noteq> ''c1'') (pending (dv_store (snd (send_all 3 burst d1))))"
proof -
  have i: "cl_id bound_row = ''c1''" by (simp add: bound_row_def new_client_row_def)
  show ?thesis
    using welcome_burst [where d = "on_replica 1 queue_store" and W = sample_wire and draws = "[Some ''x'', Some ''y'']"
        and client = "toStorageClient bound_row" and v = 0 and sink = 3]
    by (auto simp: i split: prod.splits)
qed

theorem presence_settles_witness:
  "\<not> shown_online ''c1'' (dv_store (snd (markOffline sample_wire (toStorageClient bound_row)
     (snd (detachD ''c1'' 0 (snd (attachD ''c1'' 0 (snd (markOnline sample_wire [] (toStorageClient bound_row) (hello_from ''A'')
       (on_replica 0 bound_store))))))))))"
proof -
  let ?W = sample_wire and ?c = "toStorageClient bound_row" and ?A = "\<lambda>_ :: nat. Arriving"
  define d0 where "d0 = on_replica 0 bound_store"
  define d1 where "d1 = snd (markOnline ?W [] ?c (hello_from ''A'') d0)"
  define d2 where "d2 = snd (attachD ''c1'' 0 d1)"
  define d3 where "d3 = snd (detachD ''c1'' 0 d2)"
  define d4 where "d4 = snd (markOffline ?W ?c d3)"
  have i: "ID ?c = ''c1''" by (simp add: bound_row_def new_client_row_def)
  have 1: "presence_step ?W ?c (?A, d0) (?A(0 := Announced), d1)" unfolding d1_def by (rule announce) simp
  have 2: "presence_step ?W ?c (?A(0 := Announced), d1) (?A(0 := Attached), d2)"
    using attach [of "?A(0 := Announced)" 0 ?W ?c d1] unfolding d2_def i by simp
  have 3: "presence_step ?W ?c (?A(0 := Attached), d2) (?A(0 := Leaving), d3)"
    using detach [of "?A(0 := Attached)" 0 ?W ?c d2] unfolding d3_def i by simp
  have 4: "presence_step ?W ?c (?A(0 := Leaving), d3) (?A(0 := Gone), d4)"
    using leave [of "?A(0 := Leaving)" 0 ?W ?c d3] unfolding d4_def by simp
  note step = rtranclp.rtrancl_into_rtrancl [where r = "presence_step ?W ?c"]
    and refl = rtranclp.rtrancl_refl [where r = "presence_step ?W ?c"]
  have "\<not> shown_online (ID ?c) (dv_store d4)"
  proof (rule presence_settles [OF step [OF step [OF step [OF step [OF refl 1] 2] 3] 4]])
    show "faults (dv_store d0) = []" "client_by_id (ID ?c) (dv_store d0) \<noteq> None" "ClientSink (ID ?c) (dv_hub d0) = None"
      "\<not> shown_online (ID ?c) (dv_store d0)"
      unfolding i by (simp_all add: d0_def new_hub_def ClientSink_def shown_online_def) (simp add: bound_row_def new_client_row_def)
    show "settled (?A(0 := Gone))" by (simp add: settled_def)
    show "ClientSink (ID ?c) (dv_hub d4) = None" unfolding i
      by (simp add: d4_def d3_def d2_def d1_def d0_def markOffline_def fanout_def markOnline_def Let_def attachD_def detachD_def
          AttachClient_def DetachClient_def ClientSink_def new_hub_def)
  qed
  then show ?thesis unfolding i d4_def d3_def d2_def d1_def d0_def .
qed

theorem reconnect_shown_offline_witness:
  "\<exists>ph d. (presence_step sample_wire (toStorageClient bound_row))\<^sup>*\<^sup>* ((\<lambda>_. Arriving), on_replica 0 bound_store) (ph, d) \<and>
    ClientSink ''c1'' (dv_hub d) = Some 1 \<and> \<not> shown_online ''c1'' (dv_store d)"
proof -
  have i: "cl_id bound_row = ''c1''" by (simp add: bound_row_def new_client_row_def)
  show ?thesis
    using reconnect_shown_offline [of "on_replica 0 bound_store" "toStorageClient bound_row" 0 1 sample_wire]
    by (auto simp: i new_hub_def ClientSink_def)
qed

end
