(* ===== verification/ConfigPatch.thy ===== *)
theory ConfigPatch
  imports Prelude "HOL-Library.AList"
begin

text \<open>
  Editing a device configuration field by field: \<^verbatim>\<open>internal/configpatch/configpatch.go\<close>. The package works
  on protobuf messages through reflection, so a message is what reflection sees of it: its populated
  fields by name, each a scalar, a list or a message. \<^verbatim>\<open>proto.Merge\<close> is a parameter; the locale
  \<open>proto_merge\<close> states what its documentation promises and holds of the reference merge below.
\<close>

subsection \<open>Messages\<close>

datatype scalar = Str string | Num int | Flag bool

datatype field_value =
    Scalar scalar
  | Items "field_value list"
  | Message "(string \<times> field_value) list"

type_synonym message = "(string \<times> field_value) list"

definition items_of :: "field_value option \<Rightarrow> field_value list" where
  "items_of v = (case v of Some (Items xs) \<Rightarrow> xs | _ \<Rightarrow> [])"

definition fields_of :: "field_value option \<Rightarrow> message" where
  "fields_of v = (case v of Some (Message m) \<Rightarrow> m | _ \<Rightarrow> [])"

definition num_of :: "field_value option \<Rightarrow> int" where
  "num_of v = (case v of Some (Scalar (Num n)) \<Rightarrow> n | _ \<Rightarrow> 0)"

text \<open>A schema gives the kind of every field of every message type.\<close>

datatype kind = Plain | Nested string | Repeated kind

type_synonym schema = "string \<Rightarrow> string \<Rightarrow> kind option"

fun well_typed :: "schema \<Rightarrow> kind \<Rightarrow> field_value \<Rightarrow> bool" where
  "well_typed D Plain (Scalar x) = True"
| "well_typed D (Repeated k) (Items vs) = (vs \<noteq> [] \<and> (\<forall>v \<in> set vs. well_typed D k v))"
| "well_typed D (Nested T) (Message m) = (distinct (map fst m) \<and>
     (\<forall>p \<in> set m. case D T (fst p) of None \<Rightarrow> False | Some k \<Rightarrow> well_typed D k (snd p)))"
| "well_typed D k v = False"

definition named :: "schema \<Rightarrow> bool" where
  "named D \<longleftrightarrow> (\<forall>T. D T [] = None)"

subsection \<open>What a patch touches\<close>

datatype patch_error = ErrEmpty

definition service_field :: "string \<Rightarrow> string \<Rightarrow> bool" where
  "service_field prefix name \<longleftrightarrow> prefix = [] \<and> (name = ''type'' \<or> name = ''ver'')"

definition dotted :: "string \<Rightarrow> string \<Rightarrow> string" where
  "dotted prefix name = (if prefix = [] then name else prefix @ ''.'' @ name)"

fun walk :: "message \<Rightarrow> string \<Rightarrow> string list" where
  "walk [] prefix = []"
| "walk ((name, v) # fs) prefix =
     (if service_field prefix name then []
      else (case v of Message m \<Rightarrow> walk m (dotted prefix name) | _ \<Rightarrow> [dotted prefix name])) @ walk fs prefix"

definition Paths :: "message option \<Rightarrow> string list" where
  "Paths patch = (case patch of None \<Rightarrow> [] | Some m \<Rightarrow> sort (walk m []))"

definition Describe :: "string list \<Rightarrow> string" where
  "Describe paths = join_with '', '' paths"

subsection \<open>Applying a patch\<close>

fun clearReplacedLists :: "message \<Rightarrow> message \<Rightarrow> message" where
  "clearReplacedLists [] dst = dst"
| "clearReplacedLists ((f, v) # fs) dst = clearReplacedLists fs (case v of
     Items _ \<Rightarrow> AList.delete f dst
   | Message m \<Rightarrow> (case map_of dst f of
       Some (Message d) \<Rightarrow> AList.update f (Message (clearReplacedLists m d)) dst | _ \<Rightarrow> dst)
   | Scalar _ \<Rightarrow> dst)"

definition with_field :: "string \<Rightarrow> field_value option \<Rightarrow> message \<Rightarrow> message" where
  "with_field f v m = (case v of None \<Rightarrow> AList.delete f m | Some x \<Rightarrow> AList.update f x m)"

definition Apply :: "(message \<Rightarrow> message \<Rightarrow> message) \<Rightarrow> message option \<Rightarrow> message option \<Rightarrow> patch_error + message" where
  "Apply merge stored patch = (case patch of
     None \<Rightarrow> Inl ErrEmpty
   | Some p \<Rightarrow>
       if Paths (Some p) = [] then Inl ErrEmpty
       else
         let base = (case stored of None \<Rightarrow> [(''ver'', Scalar (Num 1))] | Some s \<Rightarrow> s);
             merged = merge (clearReplacedLists p base) p;
             merged = (if num_of (map_of merged ''ver'') = 0 then with_field ''ver'' (Some (Scalar (Num 1))) merged else merged)
         in Inr (with_field ''type'' (map_of base ''type'') merged))"

subsection \<open>Who edited what\<close>

definition Conflicts :: "string list \<Rightarrow> (string \<times> int) list \<Rightarrow> int \<Rightarrow> string list" where
  "Conflicts paths touched since =
     (if since \<le> 0 \<or> touched = [] then []
      else sort (filter (\<lambda>path. case map_of touched path of None \<Rightarrow> False | Some version \<Rightarrow> since < version) paths))"

definition Touch :: "(string \<times> int) list \<Rightarrow> string list \<Rightarrow> int \<Rightarrow> (string \<times> int) list" where
  "Touch touched paths version = fold (\<lambda>path. AList.update path version) paths touched"

subsection \<open>The promise of \<open>proto.Merge\<close>\<close>

text \<open>Scalars of the source are copied, messages merged, lists appended; the rest of the target stays.\<close>

locale proto_merge =
  fixes merge :: "message \<Rightarrow> message \<Rightarrow> message"
  assumes merge_get: "map_of (merge d s) f = (case map_of s f of
      None \<Rightarrow> map_of d f
    | Some v \<Rightarrow> Some (case v of
        Scalar x \<Rightarrow> Scalar x
      | Items xs \<Rightarrow> Items (items_of (map_of d f) @ xs)
      | Message m \<Rightarrow> Message (merge (fields_of (map_of d f)) m)))"
    and merge_distinct: "distinct (map fst d) \<Longrightarrow> distinct (map fst s) \<Longrightarrow> distinct (map fst (merge d s))"

fun merge_ref :: "message \<Rightarrow> message \<Rightarrow> message" where
  "merge_ref d [] = d"
| "merge_ref d ((f, v) # fs) = AList.update f (case v of
     Scalar x \<Rightarrow> Scalar x
   | Items xs \<Rightarrow> Items (items_of (map_of d f) @ xs)
   | Message m \<Rightarrow> Message (merge_ref (fields_of (map_of d f)) m)) (merge_ref d fs)"

lemma merge_ref_get: "map_of (merge_ref d s) f = (case map_of s f of
    None \<Rightarrow> map_of d f
  | Some v \<Rightarrow> Some (case v of
      Scalar x \<Rightarrow> Scalar x
    | Items xs \<Rightarrow> Items (items_of (map_of d f) @ xs)
    | Message m \<Rightarrow> Message (merge_ref (fields_of (map_of d f)) m)))"
proof (induction s)
  case (Cons p s)
  then show ?case by (cases p) (auto simp: update_conv')
qed simp

lemma merge_ref_distinct: "distinct (map fst d) \<Longrightarrow> distinct (map fst (merge_ref d s))"
proof (induction s)
  case (Cons p s)
  then show ?case by (cases p) (simp add: distinct_update)
qed simp

interpretation ref: proto_merge merge_ref
  by unfold_locales (rule merge_ref_get, rule merge_ref_distinct)

subsection \<open>Lemmas\<close>

fun leaf :: "message \<Rightarrow> string list \<Rightarrow> field_value option" where
  "leaf m [] = None"
| "leaf m [f] = (case map_of m f of Some (Message _) \<Rightarrow> None | r \<Rightarrow> r)"
| "leaf m (f # g # p) = (case map_of m f of Some (Message m') \<Rightarrow> leaf m' (g # p) | _ \<Rightarrow> None)"

lemma map_of_delete [simp]: "map_of (AList.delete f m) g = (if f = g then None else map_of m g)"
  by (simp add: delete_conv')

lemma map_of_update [simp]: "map_of (AList.update f v m) g = (if f = g then Some v else map_of m g)"
  by (simp add: update_conv')

lemma map_of_with_field [simp]: "map_of (with_field f v m) g = (if f = g then v else map_of m g)"
  by (simp add: with_field_def split: option.split)

lemma distinct_with_field: "distinct (map fst m) \<Longrightarrow> distinct (map fst (with_field f v m))"
  by (simp add: with_field_def distinct_delete distinct_update split: option.split)

lemma leaf_nil [simp]: "leaf [] p = None"
  by (cases "([] :: message, p)" rule: leaf.cases) auto

lemma leaf_cong: "map_of m (hd p) = map_of n (hd p) \<Longrightarrow> leaf m p = leaf n p"
  by (cases "(m, p)" rule: leaf.cases) auto

lemma distinct_clear: "distinct (map fst d) \<Longrightarrow> distinct (map fst (clearReplacedLists s d))"
  by (induction s d rule: clearReplacedLists.induct)
    (auto simp: distinct_delete distinct_update split: field_value.split option.split)

lemma clear_none: "map_of s f = None \<Longrightarrow> map_of (clearReplacedLists s d) f = map_of d f"
  by (induction s d rule: clearReplacedLists.induct) (auto split: field_value.split option.split if_splits)

lemma clear_get: "distinct (map fst s) \<Longrightarrow> map_of s f = Some v \<Longrightarrow> map_of (clearReplacedLists s d) f = (case v of
     Items _ \<Rightarrow> None
   | Message m \<Rightarrow> (case map_of d f of Some (Message d') \<Rightarrow> Some (Message (clearReplacedLists m d')) | r \<Rightarrow> r)
   | Scalar _ \<Rightarrow> map_of d f)"
proof (induction s arbitrary: d)
  case (Cons p s)
  obtain g w where p: "p = (g, w)" by (cases p)
  show ?case
  proof (cases "g = f")
    case True
    then have "map_of s f = None" "w = v" using Cons.prems p by (simp_all add: map_of_eq_None_iff)
    then show ?thesis using p True by (simp add: clear_none split: field_value.split option.split)
  next
    case False
    then have IH: "map_of (clearReplacedLists s d') f = (case v of
       Items _ \<Rightarrow> None
     | Message m \<Rightarrow> (case map_of d' f of Some (Message e) \<Rightarrow> Some (Message (clearReplacedLists m e)) | r \<Rightarrow> r)
     | Scalar _ \<Rightarrow> map_of d' f)" for d' using Cons p by simp
    define d1 where "d1 = (case w of Items _ \<Rightarrow> AList.delete g d
      | Message m \<Rightarrow> (case map_of d g of Some (Message e) \<Rightarrow> AList.update g (Message (clearReplacedLists m e)) d | _ \<Rightarrow> d)
      | Scalar _ \<Rightarrow> d)"
    have "map_of d1 f = map_of d f"
      using False by (simp add: d1_def split: field_value.split option.split)
    then show ?thesis by (cases v) (simp_all add: p IH d1_def [symmetric])
  qed
qed simp

text \<open>What the merge of the cleared target holds, whatever merge keeps the promise.\<close>

definition patched :: "(message \<Rightarrow> message \<Rightarrow> message) \<Rightarrow> message \<Rightarrow> message \<Rightarrow> message" where
  "patched merge d s = merge (clearReplacedLists s d) s"

lemma typed_field: "well_typed D (Nested T) (Message m) \<Longrightarrow> map_of m f = Some v \<Longrightarrow>
    \<exists>k. D T f = Some k \<and> well_typed D k v"
  by (auto dest!: map_of_SomeD split: option.splits)

lemma typed_kinds: "well_typed D k v \<Longrightarrow> (\<exists>x. v = Scalar x) \<longleftrightarrow> k = Plain"
    "well_typed D k v \<Longrightarrow> (\<exists>x. v = Items x) \<longleftrightarrow> (\<exists>k'. k = Repeated k')"
    "well_typed D k v \<Longrightarrow> (\<exists>x. v = Message x) \<longleftrightarrow> (\<exists>T. k = Nested T)"
  by (cases k; cases v; simp)+

lemma typed_same_shape:
  assumes "well_typed D (Nested T) (Message d)" "well_typed D (Nested T) (Message s)" "map_of d f = Some v" "map_of s f = Some w"
  shows "(\<exists>x. v = Message x) \<longleftrightarrow> (\<exists>x. w = Message x)"
proof -
  obtain k where "D T f = Some k" "well_typed D k v" using typed_field [OF assms(1,3)] by blast
  moreover from this have "well_typed D k w" using typed_field [OF assms(2,4)] by auto
  ultimately show ?thesis by (simp only: typed_kinds(3))
qed

context proto_merge
begin

lemma patched_get:
  assumes "well_typed D (Nested T) (Message d)" "well_typed D (Nested T) (Message s)"
  shows "map_of (patched merge d s) f = (case map_of s f of
      None \<Rightarrow> map_of d f
    | Some (Message m) \<Rightarrow> Some (Message (patched merge (fields_of (map_of d f)) m))
    | Some v \<Rightarrow> Some v)"
proof (cases "map_of s f")
  case None
  then show ?thesis by (simp add: patched_def merge_get clear_none)
next
  case (Some v)
  have ds: "distinct (map fst s)" using assms by simp
  note c = clear_get [OF ds Some, of d]
  show ?thesis
  proof (cases v)
    case (Message m)
    have "fields_of (map_of (clearReplacedLists s d) f) = clearReplacedLists m (fields_of (map_of d f))"
    proof (cases "map_of d f")
      case None
      have "clearReplacedLists m [] = []" for m :: message
        by (induction m) (auto split: field_value.split)
      then show ?thesis using c Message None by (simp add: fields_of_def)
    next
      case d: (Some w)
      then obtain e where "w = Message e" using typed_same_shape [OF assms d Some] Message by auto
      then show ?thesis using c Message d by (simp add: fields_of_def)
    qed
    then show ?thesis using Some Message by (simp add: patched_def merge_get)
  qed (use Some c in \<open>simp_all add: patched_def merge_get items_of_def\<close>)
qed

lemma typed_inner:
  assumes "well_typed D (Nested T) (Message d)" "D T f = Some (Nested U)"
  shows "well_typed D (Nested U) (Message (fields_of (map_of d f)))"
proof (cases "map_of d f")
  case (Some w)
  then have "well_typed D (Nested U) w" using typed_field [OF assms(1) Some] assms(2) by simp
  then show ?thesis using Some by (cases w) (auto simp: fields_of_def)
qed (simp add: fields_of_def)

lemma patched_leaf:
  assumes "well_typed D (Nested T) (Message d)" "well_typed D (Nested T) (Message s)"
  shows "leaf (patched merge d s) p = (case leaf s p of None \<Rightarrow> leaf d p | Some v \<Rightarrow> Some v)"
  using assms
proof (induction p arbitrary: T d s)
  case (Cons f p)
  note get = patched_get [OF Cons.prems, of f]
  show ?case
  proof (cases p)
    case Nil
    show ?thesis
    proof (cases "map_of s f")
      case (Some v)
      show ?thesis
      proof (cases v)
        case (Message m)
        then have "\<forall>w. map_of d f = Some w \<longrightarrow> (\<exists>x. w = Message x)"
          using typed_same_shape [OF Cons.prems _ Some] by blast
        then show ?thesis using Nil get Some Message by (auto split: option.split)
      qed (use Nil get Some in simp_all)
    qed (use Nil get in simp)
  next
    case q: (Cons g q)
    show ?thesis
    proof (cases "map_of s f")
      case (Some v)
      show ?thesis
      proof (cases v)
        case (Message m)
        obtain U where U: "D T f = Some (Nested U)" "well_typed D (Nested U) (Message m)"
          using typed_field [OF Cons.prems(2) Some] typed_kinds(3) Message by metis
        have ty: "well_typed D (Nested U) (Message (fields_of (map_of d f)))" by (rule typed_inner [OF Cons.prems(1) U(1)])
        have "leaf (patched merge (fields_of (map_of d f)) m) p = (case leaf m p of None \<Rightarrow> leaf (fields_of (map_of d f)) p | Some v \<Rightarrow> Some v)"
          by (rule Cons.IH [OF ty U(2)])
        then show ?thesis using q get Some Message by (auto simp: fields_of_def split: option.split field_value.split)
      next
        case (Scalar x)
        then have "\<forall>w. map_of d f = Some w \<longrightarrow> \<not> (\<exists>x. w = Message x)"
          using typed_same_shape [OF Cons.prems _ Some] by blast
        then show ?thesis using q get Some Scalar by (auto split: option.split field_value.split)
      next
        case (Items xs)
        then have "\<forall>w. map_of d f = Some w \<longrightarrow> \<not> (\<exists>x. w = Message x)"
          using typed_same_shape [OF Cons.prems _ Some] by blast
        then show ?thesis using q get Some Items by (auto split: option.split field_value.split)
      qed
    qed (use q get in simp)
  qed
qed simp

lemma patched_typed_value: "well_typed D (Nested T) v \<Longrightarrow> v = Message s \<Longrightarrow> well_typed D (Nested T) (Message d) \<Longrightarrow>
    well_typed D (Nested T) (Message (patched merge d s))"
proof (induction v arbitrary: T d s)
  case (Message m)
  then have s: "m = s" by simp
  note ty = Message.prems(3) Message.prems(1) [unfolded s]
  have dist: "distinct (map fst (patched merge d s))"
    using ty by (simp add: patched_def merge_distinct distinct_clear)
  have "\<exists>k. D T f = Some k \<and> well_typed D k w" if "(f, w) \<in> set (patched merge d s)" for f w
  proof -
    have w: "map_of (patched merge d s) f = Some w" using that dist by simp
    note get = patched_get [OF ty, of f]
    show ?thesis
    proof (cases "map_of s f")
      case None
      then show ?thesis using get w typed_field [OF ty(1)] by simp
    next
      case (Some u)
      obtain k where k: "D T f = Some k" "well_typed D k u" using typed_field [OF ty(2) Some] by blast
      show ?thesis
      proof (cases u)
        case (Message n)
        then obtain U where U: "k = Nested U" using typed_kinds(3) [OF k(2)] by blast
        have "well_typed D (Nested U) (Message (fields_of (map_of d f)))" using typed_inner [OF ty(1)] k(1) U by simp
        moreover have "(f, u) \<in> set m" "u \<in> Basic_BNFs.snds (f, u)" using map_of_SomeD [OF Some] s by simp_all
        ultimately have "well_typed D (Nested U) (Message (patched merge (fields_of (map_of d f)) n))"
          using Message.IH k(2) U \<open>u = Message n\<close> by blast
        then show ?thesis using get w Some Message k(1) U by auto
      qed (use get w Some k in auto)
    qed
  qed
  then show ?case using dist by fastforce
qed simp_all

lemmas patched_typed = patched_typed_value [OF _ refl]

end

definition path_name :: "string list \<Rightarrow> string" where
  "path_name p = join_with ''.'' p"

lemma walk_member:
  "(f, v) \<in> set m \<Longrightarrow> \<not> service_field prefix f \<Longrightarrow>
   set (case v of Message n \<Rightarrow> walk n (dotted prefix f) | _ \<Rightarrow> [dotted prefix f]) \<subseteq> set (walk m prefix)"
  by (induction m prefix rule: walk.induct) (auto split: field_value.splits)

lemma dotted_simps [simp]:
  "f \<noteq> [] \<Longrightarrow> dotted prefix f \<noteq> []"
  "f \<noteq> [] \<Longrightarrow> dotted (dotted prefix f) (path_name (g # p)) = dotted prefix (path_name (f # g # p))"
  "path_name [f] = f" "dotted [] f = f"
  by (simp_all add: dotted_def path_name_def)

lemma service_nested [simp]: "prefix \<noteq> [] \<Longrightarrow> \<not> service_field prefix f"
  by (simp add: service_field_def)

lemma walk_complete:
  assumes "named D" "well_typed D (Nested T) (Message m)" "leaf m p = Some v" "\<not> service_field prefix (hd p)"
  shows "dotted prefix (path_name p) \<in> set (walk m prefix)"
  using assms(2-)
proof (induction p arbitrary: T m prefix)
  case (Cons f p)
  obtain w where w: "map_of m f = Some w" using Cons.prems(2) by (cases p) (auto split: option.splits)
  then obtain k where k: "D T f = Some k" "well_typed D k w" using typed_field [OF Cons.prems(1)] by blast
  have f: "f \<noteq> []" using assms(1) k(1) by (auto simp: named_def)
  have mem: "set (case w of Message n \<Rightarrow> walk n (dotted prefix f) | _ \<Rightarrow> [dotted prefix f]) \<subseteq> set (walk m prefix)"
    using walk_member [OF map_of_SomeD [OF w]] Cons.prems(3) by simp
  show ?case
  proof (cases p)
    case Nil
    then show ?thesis using mem w Cons.prems(2) by (auto split: field_value.splits)
  next
    case q: (Cons g q)
    then obtain n where n: "w = Message n" "leaf n p = Some v" using Cons.prems(2) w by (auto split: field_value.splits)
    obtain U where U: "well_typed D (Nested U) (Message n)" using k(2) n(1) typed_kinds(3) [OF k(2)] by auto
    have "dotted (dotted prefix f) (path_name p) \<in> set (walk n (dotted prefix f))"
      using f by (intro Cons.IH [OF U n(2)]) simp
    then show ?thesis using mem n(1) q f by auto
  qed
qed simp

lemma walk_sound:
  assumes "named D" "x \<in> set (walk m prefix)" "well_typed D (Nested T) (Message m)"
  shows "\<exists>p v. leaf m p = Some v \<and> x = dotted prefix (path_name p) \<and> \<not> service_field prefix (hd p)"
proof -
  have "well_typed D (Nested T) w \<Longrightarrow> w = Message m \<Longrightarrow> x \<in> set (walk m prefix) \<Longrightarrow>
    \<exists>p v. p \<noteq> [] \<and> leaf m p = Some v \<and> x = dotted prefix (path_name p) \<and> \<not> service_field prefix (hd p)" for w
  proof (induction w arbitrary: T m prefix)
    case (Message n)
    then have n: "n = m" by simp
    have split: "y \<in> set (walk l prefix) \<Longrightarrow> \<exists>f v. (f, v) \<in> set l \<and> \<not> service_field prefix f \<and>
        y \<in> set (case v of Message n \<Rightarrow> walk n (dotted prefix f) | _ \<Rightarrow> [dotted prefix f])" for y l
      by (induction l prefix rule: walk.induct) (fastforce split: if_splits)+
    obtain f v where fv: "(f, v) \<in> set m" "\<not> service_field prefix f"
      "x \<in> set (case v of Message n \<Rightarrow> walk n (dotted prefix f) | _ \<Rightarrow> [dotted prefix f])"
      using split [OF Message.prems(3)] by blast
    have get: "map_of m f = Some v" using fv(1) Message.prems(1) n by simp
    then obtain k where k: "D T f = Some k" "well_typed D k v" using typed_field Message.prems(1) n by blast
    have f: "f \<noteq> []" using assms(1) k(1) by (auto simp: named_def)
    show ?case
    proof (cases "\<exists>l. v = Message l")
      case True
      then obtain l where l: "v = Message l" by blast
      obtain U where U: "well_typed D (Nested U) v" using k(2) l typed_kinds(3) [OF k(2)] by auto
      have "(f, v) \<in> set n" "v \<in> Basic_BNFs.snds (f, v)" using fv(1) n by simp_all
      then obtain p w where p: "p \<noteq> []" "leaf l p = Some w" "x = dotted (dotted prefix f) (path_name p)"
        using Message.IH [OF _ _ U l, of "(f, v)" "dotted prefix f"] fv(3) l by auto
      then have "leaf m (f # p) = Some w" "x = dotted prefix (path_name (f # p))"
        using get l f by (cases p; simp)+
      then show ?thesis using fv(2) by (metis list.sel(1) list.distinct(1))
    next
      case False
      then have "x = dotted prefix (path_name [f])" "leaf m [f] = Some v"
        using fv(3) get by (simp_all split: field_value.splits)
      then show ?thesis using fv(2) by (metis list.sel(1) list.distinct(1))
    qed
  qed simp_all
  then show ?thesis using assms(2,3) by blast
qed

lemma Paths_leaf:
  assumes "named D" "well_typed D (Nested T) (Message m)" "leaf m p = Some v" "\<not> service_field [] (hd p)"
  shows "path_name p \<in> set (Paths (Some m))"
  using walk_complete [OF assms] by (simp add: Paths_def)

lemma touch_get: "map_of (Touch touched paths version) path = (if path \<in> set paths then Some version else map_of touched path)"
  by (induction paths arbitrary: touched) (auto simp: Touch_def)

lemma touch_distinct: "distinct (map fst touched) \<Longrightarrow> distinct (map fst (Touch touched paths version))"
  by (induction paths arbitrary: touched) (auto simp: Touch_def distinct_update)

lemma service_hd: "service_field [] f \<longleftrightarrow> f = ''type'' \<or> f = ''ver''"
  by (simp add: service_field_def)

lemma Apply_get:
  assumes "Apply merge (Some stored) (Some patch) = Inr merged"
  shows "map_of merged f = (if f = ''type'' then map_of stored ''type''
    else if f = ''ver'' then (let v = map_of (patched merge stored patch) ''ver''
      in if num_of v = 0 then Some (Scalar (Num 1)) else v)
    else map_of (patched merge stored patch) f)"
  using assms by (auto simp: Apply_def Let_def patched_def split: if_splits)

lemma Apply_distinct:
  assumes "Apply merge (Some stored) (Some patch) = Inr merged" "distinct (map fst (patched merge stored patch))"
  shows "distinct (map fst merged)"
  using assms by (auto simp: Apply_def Let_def patched_def distinct_with_field split: if_splits)

lemma leaf_of_Apply:
  assumes "proto_merge merge" "well_typed D (Nested T) (Message stored)" "well_typed D (Nested T) (Message patch)"
    and "Apply merge (Some stored) (Some patch) = Inr merged" "\<not> service_field [] (hd p)"
  shows "leaf merged p = (case leaf patch p of None \<Rightarrow> leaf stored p | Some v \<Rightarrow> Some v)"
proof -
  have "map_of merged (hd p) = map_of (patched merge stored patch) (hd p)"
    using assms(5) by (simp add: Apply_get [OF assms(4)] service_field_def)
  then have "leaf merged p = leaf (patched merge stored patch) p" by (rule leaf_cong)
  then show ?thesis using proto_merge.patched_leaf [OF assms(1-3)] by simp
qed

lemma typed_Apply:
  assumes "proto_merge merge" "well_typed D (Nested T) (Message stored)" "well_typed D (Nested T) (Message patch)"
    and "D T ''ver'' = Some Plain" "Apply merge (Some stored) (Some patch) = Inr merged"
  shows "well_typed D (Nested T) (Message merged)"
proof -
  note ty = proto_merge.patched_typed [OF assms(1,3,2)]
  have dist: "distinct (map fst merged)" by (rule Apply_distinct [OF assms(5)]) (use ty in simp)
  have "\<exists>k. D T f = Some k \<and> well_typed D k v" if "(f, v) \<in> set merged" for f v
  proof -
    have "map_of merged f = Some v" using that dist by simp
    then show ?thesis
      using typed_field [OF ty, of f] typed_field [OF assms(2), of f] assms(4)
      by (auto simp: Apply_get [OF assms(5)] Let_def split: if_splits)
  qed
  then show ?thesis using dist by fastforce
qed

subsection \<open>Properties\<close>

text \<open>C3: Applying a patch sets exactly what the patch carries. At every field of the configuration, however
  deep, the result has the patch's value if the patch has one (lists whole, not appended) and the stored
  value otherwise; only the two service fields at the top are treated apart.
\<close>
theorem apply_leaf:
  assumes "proto_merge merge" "well_typed D (Nested T) (Message stored)" "well_typed D (Nested T) (Message patch)"
    and "Apply merge (Some stored) (Some patch) = Inr merged" "\<not> service_field [] (hd p)"
  shows "leaf merged p = (case leaf patch p of None \<Rightarrow> leaf stored p | Some v \<Rightarrow> Some v)"
  by (rule leaf_of_Apply [OF assms])


text \<open>The list of what a patch touches is computed from the patch and tells the truth: it is sorted and names
  exactly the fields the patch carries, each by its dotted path.
\<close>
theorem paths_exact:
  assumes "named D" "well_typed D (Nested T) (Message patch)"
  shows "sorted (Paths (Some patch)) \<and>
    set (Paths (Some patch)) = {path_name p | p. leaf patch p \<noteq> None \<and> \<not> service_field [] (hd p)}"
proof -
  have "x \<in> set (Paths (Some patch)) \<Longrightarrow> \<exists>p. x = path_name p \<and> leaf patch p \<noteq> None \<and> \<not> service_field [] (hd p)" for x
    using walk_sound [OF assms(1) _ assms(2)] by (fastforce simp: Paths_def dotted_def)
  then show ?thesis using Paths_leaf [OF assms] by (auto simp: Paths_def)
qed


text \<open>A patch cannot clear a field. Whatever a well-typed patch carries, a field that has a value in storage
  has one afterwards, so setting a text back to empty or emptying a list is out of its reach: such a field has
  no presence of its own and does not travel.
\<close>
theorem patch_never_clears:
  assumes "proto_merge merge" "well_typed D (Nested T) (Message stored)" "well_typed D (Nested T) (Message patch)"
    and "Apply merge (Some stored) (Some patch) = Inr merged" "\<not> service_field [] (hd p)" "leaf stored p \<noteq> None"
  shows "leaf merged p \<noteq> None"
  using leaf_of_Apply [OF assms(1-5)] assms(6) by (simp split: option.split)

text \<open>The marks say when each field was last edited: after an edit at some version the fields it names carry
  that version and the others the one they had.
\<close>
theorem touch_marks:
  "map_of (Touch touched paths version) path = (if path \<in> set paths then Some version else map_of touched path)"
  by (rule touch_get)

subsection \<open>Witnesses\<close>

definition xray_schema :: schema where
  "xray_schema T f = map_of
    [((''Config'', ''ver''), Plain), ((''Config'', ''type''), Plain), ((''Config'', ''xray''), Nested ''Xray''),
     ((''Xray'', ''active_profile_id''), Plain), ((''Xray'', ''profiles''), Repeated (Nested ''VlessProfile'')),
     ((''Xray'', ''settings''), Nested ''XraySettings''), ((''VlessProfile'', ''id''), Plain),
     ((''XraySettings'', ''remote_dns''), Plain), ((''XraySettings'', ''direct_dns''), Plain)] (T, f)"

definition stored_config :: message where
  "stored_config = [(''ver'', Scalar (Num 1)), (''xray'', Message
     [(''active_profile_id'', Scalar (Str ''old'')),
      (''profiles'', Items [Message [(''id'', Scalar (Str ''a''))], Message [(''id'', Scalar (Str ''b''))]]),
      (''settings'', Message [(''remote_dns'', Scalar (Str ''1.1.1.1'')), (''direct_dns'', Scalar (Str ''8.8.8.8''))])])]"

definition dns_patch :: message where
  "dns_patch = [(''type'', Scalar (Num 2)), (''xray'', Message
     [(''profiles'', Items [Message [(''id'', Scalar (Str ''c''))]]),
      (''settings'', Message [(''remote_dns'', Scalar (Str ''77.88.8.8''))])])]"

lemma sample_typed:
  "well_typed xray_schema (Nested ''Config'') (Message stored_config)"
  "well_typed xray_schema (Nested ''Config'') (Message dns_patch)"
  "named xray_schema" "xray_schema ''Config'' ''ver'' = Some Plain"
  by (simp_all add: xray_schema_def stored_config_def dns_patch_def named_def)

definition merged_sample :: message where
  "merged_sample = [(''ver'', Scalar (Num 1)), (''xray'', Message
     [(''active_profile_id'', Scalar (Str ''old'')),
      (''settings'', Message [(''remote_dns'', Scalar (Str ''77.88.8.8'')), (''direct_dns'', Scalar (Str ''8.8.8.8''))]),
      (''profiles'', Items [Message [(''id'', Scalar (Str ''c''))]])])]"

lemma sample_applied: "Apply merge_ref (Some stored_config) (Some dns_patch) = Inr merged_sample"
  by (simp add: Apply_def stored_config_def dns_patch_def merged_sample_def Paths_def service_field_def dotted_def
      fields_of_def items_of_def num_of_def with_field_def Let_def)

theorem apply_leaf_witness:
  "leaf merged_sample [''xray'', ''settings'', ''remote_dns''] = Some (Scalar (Str ''77.88.8.8''))"
  using apply_leaf [OF ref.proto_merge_axioms sample_typed(1,2) sample_applied, of "[''xray'', ''settings'', ''remote_dns'']"]
  by (simp add: service_field_def dns_patch_def)


theorem paths_exact_witness: "sorted (Paths (Some dns_patch)) \<and>
    set (Paths (Some dns_patch)) = {path_name p | p. leaf dns_patch p \<noteq> None \<and> \<not> service_field [] (hd p)}"
  by (rule paths_exact [OF sample_typed(3,2)])


theorem patch_never_clears_witness: "leaf merged_sample [''xray'', ''active_profile_id''] \<noteq> None"
  by (rule patch_never_clears [OF ref.proto_merge_axioms sample_typed(1,2) sample_applied])
    (simp_all add: service_field_def stored_config_def)

end
