(* ===== verification/ManagedTurn.thy ===== *)
theory ManagedTurn
  imports ConfigPatch Hex
begin

text \<open>
  The panel-managed VK-TURN profile inside a device configuration: the functions of
  \<^verbatim>\<open>internal/handlers/admin/clients.go\<close> that insert it, take it out and read it, on the messages of
  ConfigPatch. A Go field of a message is its getter and setter: a text, number or flag without presence is
  populated when it is not zero, a list when it is not empty, and a nil message is an absent field.
\<close>

subsection \<open>Fields\<close>

definition text_of :: "field_value option \<Rightarrow> string" where
  "text_of v = (case v of Some (Scalar (Str s)) \<Rightarrow> s | _ \<Rightarrow> [])"

definition flag_of :: "field_value option \<Rightarrow> bool" where
  "flag_of v = (case v of Some (Scalar (Flag b)) \<Rightarrow> b | _ \<Rightarrow> False)"

definition message_of :: "field_value option \<Rightarrow> message option" where
  "message_of v = (case v of Some (Message m) \<Rightarrow> Some m | _ \<Rightarrow> None)"

definition set_text :: "string \<Rightarrow> string \<Rightarrow> message \<Rightarrow> message" where
  "set_text f s = with_field f (if s = [] then None else Some (Scalar (Str s)))"

definition set_num :: "string \<Rightarrow> int \<Rightarrow> message \<Rightarrow> message" where
  "set_num f n = with_field f (if n = 0 then None else Some (Scalar (Num n)))"

definition set_flag :: "string \<Rightarrow> bool \<Rightarrow> message \<Rightarrow> message" where
  "set_flag f b = with_field f (if b then Some (Scalar (Flag True)) else None)"

definition set_items :: "string \<Rightarrow> field_value list \<Rightarrow> message \<Rightarrow> message" where
  "set_items f xs = with_field f (if xs = [] then None else Some (Items xs))"

definition set_message :: "string \<Rightarrow> message option \<Rightarrow> message \<Rightarrow> message" where
  "set_message f m = with_field f (map_option Message m)"

definition Profiles :: "message \<Rightarrow> message list" where
  "Profiles turn = map (\<lambda>v. fields_of (Some v)) (items_of (map_of turn ''profiles''))"

definition set_Profiles :: "message list \<Rightarrow> message \<Rightarrow> message" where
  "set_Profiles ps = set_items ''profiles'' (map Message ps)"

definition Links :: "message \<Rightarrow> string list" where
  "Links turn = map (\<lambda>v. text_of (Some v)) (items_of (map_of turn ''links''))"

definition set_Links :: "string list \<Rightarrow> message \<Rightarrow> message" where
  "set_Links ls = set_items ''links'' (map (\<lambda>l. Scalar (Str l)) ls)"

definition ActiveProfileId :: "message \<Rightarrow> string" where
  "ActiveProfileId turn = text_of (map_of turn ''active_profile_id'')"

definition ProfileId :: "message \<Rightarrow> string" where
  "ProfileId p = text_of (map_of p ''id'')"

definition BACKEND_TYPE_VK_TURN :: int where "BACKEND_TYPE_VK_TURN = 7"
definition TUNNEL_MODE_WIREGUARD :: int where "TUNNEL_MODE_WIREGUARD = 1"
definition TUNNEL_MODE_AMNEZIAWG :: int where "TUNNEL_MODE_AMNEZIAWG = 2"
definition TURN_SESSION_MODE_MUX :: int where "TURN_SESSION_MODE_MUX = 3"

subsection \<open>The managed profile\<close>

definition isManagedProfile :: "message \<Rightarrow> bool" where
  "isManagedProfile p \<longleftrightarrow> flag_of (map_of p ''wg_provisioned'')"

definition hasManagedTurnProfile :: "message option \<Rightarrow> bool" where
  "hasManagedTurnProfile turn = (case turn of None \<Rightarrow> False | Some t \<Rightarrow> list_ex isManagedProfile (Profiles t))"

fun union_links :: "string list \<Rightarrow> string list \<Rightarrow> string list" where
  "union_links out [] = out"
| "union_links out (l # ls) =
     (let l' = trim_space l in
      if l' = [] \<or> l' \<in> set out then union_links out ls else union_links (out @ [l']) ls)"

definition mergeVKLinks :: "string list \<Rightarrow> string list \<Rightarrow> string list" where
  "mergeVKLinks existing add = union_links (union_links [] existing) add"

definition markVkTurnBackend :: "message \<Rightarrow> message" where
  "markVkTurnBackend cfg = (case message_of (map_of cfg ''turn'') of
     None \<Rightarrow> cfg
   | Some turn \<Rightarrow>
       if \<not> hasManagedTurnProfile (Some turn) then cfg
       else set_num ''backend'' BACKEND_TYPE_VK_TURN (set_message ''turn''
         (Some (if num_of (map_of turn ''tunnel_mode'') = 0 then set_num ''tunnel_mode'' TUNNEL_MODE_WIREGUARD turn else turn)) cfg))"

definition existingManagedEndpoint :: "message option \<Rightarrow> string" where
  "existingManagedEndpoint turn = (case turn of
     None \<Rightarrow> []
   | Some t \<Rightarrow> (case find isManagedProfile (Profiles t) of
       None \<Rightarrow> [] | Some p \<Rightarrow> trim_space (text_of (map_of p ''vk_turn_endpoint''))))"

definition existingManagedConfig :: "message option \<Rightarrow> message option" where
  "existingManagedConfig turn = (case turn of
     None \<Rightarrow> None
   | Some t \<Rightarrow> (case find (\<lambda>p. isManagedProfile p \<and> message_of (map_of p ''config'') \<noteq> None) (Profiles t) of
       None \<Rightarrow> None | Some p \<Rightarrow> message_of (map_of p ''config'')))"

definition hasProfile :: "message list \<Rightarrow> string \<Rightarrow> bool" where
  "hasProfile profiles i = list_ex (\<lambda>p. ProfileId p = i) profiles"

definition stripManagedTurnProfiles :: "message option \<Rightarrow> message option" where
  "stripManagedTurnProfiles turn = (case turn of
     None \<Rightarrow> None
   | Some t \<Rightarrow>
       (let kept = filter (\<lambda>p. \<not> isManagedProfile p) (Profiles t);
            t = set_Profiles kept t;
            t = (if kept = [] then set_Links [] t else t)
        in Some (if ActiveProfileId t \<noteq> [] \<and> \<not> hasProfile kept (ActiveProfileId t)
             then set_text ''active_profile_id'' (case kept of p # _ \<Rightarrow> ProfileId p | [] \<Rightarrow> []) t
             else t)))"

definition managed_profile :: "string \<Rightarrow> string \<Rightarrow> bytes \<Rightarrow> string \<Rightarrow> message \<Rightarrow> message" where
  "managed_profile clientID name token endpoint inner =
     set_text ''id'' clientID (set_text ''title'' name (set_text ''transport_kind'' ''wg''
     (set_text ''vk_turn_endpoint'' (trim_space endpoint) (set_flag ''wg_provisioned'' True
     (set_text ''provision_client_id'' clientID (set_text ''provision_token'' (hex_encode token)
     (set_message ''config'' (Some inner) [])))))))"

definition applyManagedTurnProfile :: "message option \<Rightarrow> string \<Rightarrow> string \<Rightarrow> bytes \<Rightarrow> string \<Rightarrow> message" where
  "applyManagedTurnProfile turn clientID name token endpoint =
     (let inner = (case existingManagedConfig turn of
            None \<Rightarrow> set_num ''session_mode'' TURN_SESSION_MODE_MUX [] | Some c \<Rightarrow> c);
          managed = managed_profile clientID name token endpoint inner;
          t = (case stripManagedTurnProfiles turn of None \<Rightarrow> [] | Some t \<Rightarrow> t);
          t = set_Profiles (Profiles t @ [managed]) t
      in if ActiveProfileId t = [] then set_text ''active_profile_id'' (ProfileId managed) t else t)"

definition managedTurn :: "string \<Rightarrow> string \<Rightarrow> bytes \<Rightarrow> string \<Rightarrow> message option" where
  "managedTurn clientID name token endpoint =
     (if trim_space endpoint = [] then None else Some (applyManagedTurnProfile None clientID name token endpoint))"

text \<open>The blocks a device without root is not sent.\<close>

definition stripRootOnlyBlocks :: "message \<Rightarrow> message" where
  "stripRootOnlyBlocks cfg = set_message ''xposed'' None (set_message ''sharing'' None (set_message ''root'' None cfg))"

subsection \<open>Lemmas\<close>

lemma get_set [simp]:
  "map_of (set_text f s m) g = (if f = g then if s = [] then None else Some (Scalar (Str s)) else map_of m g)"
  "map_of (set_num f n m) g = (if f = g then if n = 0 then None else Some (Scalar (Num n)) else map_of m g)"
  "map_of (set_flag f b m) g = (if f = g then if b then Some (Scalar (Flag True)) else None else map_of m g)"
  "map_of (set_items f xs m) g = (if f = g then if xs = [] then None else Some (Items xs) else map_of m g)"
  "map_of (set_message f v m) g = (if f = g then map_option Message v else map_of m g)"
  by (simp_all add: set_text_def set_num_def set_flag_def set_items_def set_message_def)

lemma read_back [simp]:
  "text_of None = []" "text_of (Some (Scalar (Str s))) = s" "flag_of None = False" "flag_of (Some (Scalar (Flag b))) = b"
  "message_of None = None" "message_of (Some (Message m)) = Some m" "items_of None = []" "items_of (Some (Items xs)) = xs"
  "num_of None = 0" "num_of (Some (Scalar (Num n))) = n" "fields_of (Some (Message m)) = m"
  by (simp_all add: text_of_def flag_of_def message_of_def items_of_def num_of_def fields_of_def)

lemma Profiles_set [simp]:
  "Profiles (set_Profiles ps t) = ps" "Profiles (set_Links ls t) = Profiles t" "Profiles (set_text f s t) = (if f = ''profiles'' then [] else Profiles t)"
  "ActiveProfileId (set_Profiles ps t) = ActiveProfileId t" "ActiveProfileId (set_Links ls t) = ActiveProfileId t"
  "ActiveProfileId (set_text ''active_profile_id'' s t) = s"
  "map_of (set_Profiles ps t) ''links'' = map_of t ''links''" "map_of (set_Links [] t) ''links'' = None"
  by (simp_all add: Profiles_def set_Profiles_def set_Links_def ActiveProfileId_def comp_def map_idI)
    (auto simp: items_of_def text_of_def)

lemma strip_profiles [simp]:
  "Profiles (case stripManagedTurnProfiles (Some t) of None \<Rightarrow> [] | Some t \<Rightarrow> t) = filter (\<lambda>p. \<not> isManagedProfile p) (Profiles t)"
  by (simp add: stripManagedTurnProfiles_def Let_def)

lemma managed_profile_simps [simp]:
  "isManagedProfile (managed_profile c n tok e inner)" "ProfileId (managed_profile c n tok e inner) = c"
  by (simp_all add: isManagedProfile_def managed_profile_def ProfileId_def)

lemma apply_profiles: "Profiles (applyManagedTurnProfile turn c n tok e) =
    filter (\<lambda>p. \<not> isManagedProfile p) (case turn of None \<Rightarrow> [] | Some t \<Rightarrow> Profiles t) @
    [managed_profile c n tok e (case existingManagedConfig turn of None \<Rightarrow> set_num ''session_mode'' TURN_SESSION_MODE_MUX [] | Some i \<Rightarrow> i)]"
  by (cases turn) (simp_all add: applyManagedTurnProfile_def Let_def, simp_all add: stripManagedTurnProfiles_def Profiles_def)

lemma strip_active: "ActiveProfileId (case stripManagedTurnProfiles (Some t) of None \<Rightarrow> [] | Some t \<Rightarrow> t) =
    (let kept = filter (\<lambda>p. \<not> isManagedProfile p) (Profiles t); a = ActiveProfileId t in
     if a \<noteq> [] \<and> \<not> hasProfile kept a then (case kept of [] \<Rightarrow> [] | p # _ \<Rightarrow> ProfileId p) else a)"
  by (simp add: stripManagedTurnProfiles_def Let_def split: list.split)

lemma strip_links: "filter (\<lambda>p. \<not> isManagedProfile p) (Profiles t) = [] \<Longrightarrow>
    map_of (case stripManagedTurnProfiles (Some t) of None \<Rightarrow> [] | Some t \<Rightarrow> t) ''links'' = None"
  by (simp add: stripManagedTurnProfiles_def Let_def)

lemma apply_active: "ActiveProfileId (applyManagedTurnProfile (Some t) c n tok e) =
    (let a = ActiveProfileId (case stripManagedTurnProfiles (Some t) of None \<Rightarrow> [] | Some t \<Rightarrow> t) in if a = [] then c else a)"
  by (simp add: applyManagedTurnProfile_def Let_def)

lemma apply_links: "map_of (applyManagedTurnProfile (Some t) c n tok e) ''links'' =
    map_of (case stripManagedTurnProfiles (Some t) of None \<Rightarrow> [] | Some t \<Rightarrow> t) ''links''"
  by (simp add: applyManagedTurnProfile_def Let_def)

lemma strip_None: "(case stripManagedTurnProfiles None of None \<Rightarrow> [] | Some t \<Rightarrow> t) = []"
  by (simp add: stripManagedTurnProfiles_def)

lemma union_links_set: "distinct out \<Longrightarrow> \<forall>l \<in> set out. l \<noteq> [] \<and> trim_space l = l \<Longrightarrow>
    distinct (union_links out ls) \<and> set (union_links out ls) = set out \<union> {trim_space l | l. l \<in> set ls \<and> trim_space l \<noteq> []} \<and>
    (\<exists>more. union_links out ls = out @ more)"
proof (induction out ls rule: union_links.induct)
  case (2 out l ls)
  show ?case
  proof (cases "trim_space l = [] \<or> trim_space l \<in> set out")
    case True
    then show ?thesis using 2(1) [OF refl True] 2(3,4) by (auto simp: Let_def)
  next
    case False
    have "distinct (out @ [trim_space l])" "\<forall>k \<in> set (out @ [trim_space l]). k \<noteq> [] \<and> trim_space k = k"
      using False 2(3,4) by auto
    from 2(2) [OF refl False this] show ?thesis using False by (auto simp: Let_def)
  qed
qed simp

subsection \<open>Properties\<close>

text \<open>C17: Rebuilding the managed profile gives exactly one: the result holds the manual profiles as they were and
  in their order, and then a single panel-managed profile with this device's id, its token in hexadecimal and
  the trimmed relay, which keeps the settings the old managed profile carried.
\<close>
theorem one_managed_profile:
  "let t = applyManagedTurnProfile turn clientID name token endpoint; old = (case turn of None \<Rightarrow> [] | Some o' \<Rightarrow> Profiles o') in
   filter (\<lambda>p. \<not> isManagedProfile p) (Profiles t) = filter (\<lambda>p. \<not> isManagedProfile p) old \<and>
   (\<exists>p. filter isManagedProfile (Profiles t) = [p] \<and> last (Profiles t) = p \<and>
     ProfileId p = clientID \<and> text_of (map_of p ''provision_client_id'') = clientID \<and>
     text_of (map_of p ''provision_token'') = hex_encode token \<and>
     text_of (map_of p ''vk_turn_endpoint'') = trim_space endpoint \<and>
     message_of (map_of p ''config'') = Some (case existingManagedConfig turn of
       None \<Rightarrow> [(''session_mode'', Scalar (Num TURN_SESSION_MODE_MUX))] | Some c \<Rightarrow> c))"
proof -
  have mux: "set_num ''session_mode'' TURN_SESSION_MODE_MUX [] = [(''session_mode'', Scalar (Num TURN_SESSION_MODE_MUX))]"
    by (simp add: set_num_def with_field_def TURN_SESSION_MODE_MUX_def)
  have "map_of (managed_profile clientID name token endpoint inner) ''config'' = Some (Message inner)" for inner
    by (simp add: managed_profile_def)
  moreover have "text_of (map_of (managed_profile clientID name token endpoint inner) ''provision_client_id'') = clientID"
    "text_of (map_of (managed_profile clientID name token endpoint inner) ''provision_token'') = hex_encode token"
    "text_of (map_of (managed_profile clientID name token endpoint inner) ''vk_turn_endpoint'') = trim_space endpoint" for inner
    by (simp_all add: managed_profile_def)
  ultimately show ?thesis by (simp add: Let_def apply_profiles mux split: option.split)
qed

text \<open>Taking the managed profiles out again leaves just the manual ones: after inserting the managed profile,
  stripping it gives back the list of manual profiles the configuration had before.
\<close>
theorem strip_after_apply:
  "map_option Profiles (stripManagedTurnProfiles (Some (applyManagedTurnProfile (Some turn) clientID name token endpoint))) =
   Some (filter (\<lambda>p. \<not> isManagedProfile p) (Profiles turn))"
  by (simp add: stripManagedTurnProfiles_def Let_def apply_profiles)

text \<open>Rebuilding the managed profile moves the device off it. If the managed profile was the active one and the
  device has manual profiles too, the first manual profile is the active one afterwards, although the managed
  profile is still there under the same id.
\<close>
theorem reprovision_switches_active:
  assumes "filter (\<lambda>p. \<not> isManagedProfile p) (Profiles turn) = first # manual"
    and "ActiveProfileId turn = clientID" "clientID \<noteq> []" "\<not> hasProfile (first # manual) clientID" "ProfileId first \<noteq> []"
  shows "ActiveProfileId (applyManagedTurnProfile (Some turn) clientID name token endpoint) = ProfileId first"
  using assms by (simp add: apply_active strip_active Let_def)

text \<open>Rebuilding the managed profile of a device that has no manual one throws away its VK links: the list is
  emptied as orphaned before the profile that owns it is put back.
\<close>
theorem reprovision_drops_links:
  assumes "\<forall>p \<in> set (Profiles turn). isManagedProfile p"
  shows "Links (applyManagedTurnProfile (Some turn) clientID name token endpoint) = []"
proof -
  have "filter (\<lambda>p. \<not> isManagedProfile p) (Profiles turn) = []" using assms by (simp add: filter_empty_conv)
  then show ?thesis by (simp add: Links_def apply_links strip_links)
qed

text \<open>Merging link lists is a union: the result has no duplicates and no blanks, and holds exactly the trimmed
  links of both lists.
\<close>
theorem merge_links_union:
  "distinct (mergeVKLinks existing add) \<and>
   set (mergeVKLinks existing add) = {trim_space l | l. l \<in> set existing \<union> set add \<and> trim_space l \<noteq> []}"
proof -
  have 1: "distinct (union_links [] existing)" "set (union_links [] existing) = {trim_space l | l. l \<in> set existing \<and> trim_space l \<noteq> []}"
    using union_links_set [of "[]" existing] by auto
  then have "\<forall>l \<in> set (union_links [] existing). l \<noteq> [] \<and> trim_space l = l" by auto
  from union_links_set [OF 1(1) this, of add] show ?thesis using 1(2) by (auto simp: mergeVKLinks_def)
qed

definition two_profiles :: message where
  "two_profiles = set_text ''active_profile_id'' ''c1'' (set_Links [''vk''] (set_Profiles
     [set_text ''id'' ''manual'' [], managed_profile ''c1'' ''Dev'' ''tok'' ''relay:1'' []] []))"

theorem reprovision_switches_active_witness:
  "ActiveProfileId (applyManagedTurnProfile (Some two_profiles) ''c1'' ''Dev'' ''tok'' ''relay:1'') = ''manual''"
  using reprovision_switches_active [of two_profiles "set_text ''id'' ''manual'' []" "[]" "''c1''"]
  by (simp add: two_profiles_def isManagedProfile_def [of "set_text _ _ _"] ProfileId_def hasProfile_def)

definition one_profile :: message where
  "one_profile = set_Links [''vk''] (set_Profiles [managed_profile ''c1'' ''Dev'' ''tok'' ''relay:1'' []] [])"

theorem reprovision_drops_links_witness:
  "Links one_profile = [''vk''] \<and> Links (applyManagedTurnProfile (Some one_profile) ''c1'' ''Dev'' ''tok'' ''relay:1'') = []"
proof
  show "Links one_profile = [''vk'']" by (simp add: one_profile_def Links_def set_Links_def)
  show "Links (applyManagedTurnProfile (Some one_profile) ''c1'' ''Dev'' ''tok'' ''relay:1'') = []"
    by (rule reprovision_drops_links) (simp add: one_profile_def)
qed

end
