(* ===== verification/ClientDesk.thy ===== *)
theory ClientDesk
  imports Complex_Main DeviceSession ManagedTurn ClientTraffic Traffic Nodes
begin

text \<open>
  The administrator's side of a device: the handlers of \<^verbatim>\<open>internal/handlers/admin/clients.go\<close>, over the
  storage, the live hub and the configuration messages. A handler takes the caller, the request its body
  decodes to (none when decoding fails) and the random bytes it draws, and returns what it answers; the texts
  of refusals are left out and their status codes kept. Parameters, in \<open>desk_env\<close>: protobuf, \<^verbatim>\<open>proto.Merge\<close>,
  the bus, the relay's status call, \<^verbatim>\<open>net.ParseIP\<close> and \<^verbatim>\<open>url.Parse\<close>, the link format of \<^verbatim>\<open>internal/preview\<close>.
\<close>

datatype link_format = Brotli | Deflate | BrotliLegacy

record 'r desk_env =
  de_wire :: "(message, 'r) wire"
  de_merge :: "message \<Rightarrow> message \<Rightarrow> message"
  de_published :: bool
  de_runtime_of :: "bytes \<Rightarrow> 'r option"
  de_apps_of :: "bytes \<Rightarrow> package_metadata list option"
  de_ip_is_loopback :: "string \<Rightarrow> bool"
  de_url_host :: "string \<Rightarrow> string option"
  de_base_url :: string
  de_node_status :: "node_row \<Rightarrow> string option"
  de_ca_pins :: "bytes list"
  de_link :: "link_format \<Rightarrow> message \<Rightarrow> string option"
  de_parse_link :: "string \<Rightarrow> message option"

type_synonym ('a, 'r) step = "('a, message, 'r) act"

record client_view =
  vw_client :: client
  vw_backend :: string
  vw_managed :: bool
  vw_provisioned :: bool
  vw_traffic :: "u64 \<times> u64"
  vw_control :: "client_control option"

datatype 'r answer =
    Failed nat
  | FieldsClash "string list" int
  | ConfigSaved string bool u64 "string list option"
  | StoredConfig bytes string int
  | CommandSent string
  | CommandQueued nat
  | Saved
  | LimitSaved u64 int
  | SyncSaved string int
  | LogLines "log_line list"
  | Created client string bytes
  | WingsvLink string
  | AppList "package_metadata list" int
  | ClientList "client_view list" int
  | Detail client client_config "message option" "message option" "'r option"

subsection \<open>Sequencing\<close>

text \<open>\<^verbatim>\<open>if err != nil { writeError(w, code, ...); return }\<close>\<close>

definition orElse :: "nat \<Rightarrow> (error + 'a, 'r) step \<Rightarrow> ('a \<Rightarrow> ('r answer, 'r) step) \<Rightarrow> ('r answer, 'r) step" where
  "orElse code m k = bindD m (\<lambda>r. case r of Inl _ \<Rightarrow> retD (Failed code) | Inr x \<Rightarrow> k x)"

definition given :: "nat \<Rightarrow> 'a option \<Rightarrow> ('a \<Rightarrow> ('r answer, 'r) step) \<Rightarrow> ('r answer, 'r) step" where
  "given code v k = (case v of None \<Rightarrow> retD (Failed code) | Some x \<Rightarrow> k x)"

definition timeMs :: "(int, 'r) step" where
  "timeMs d = (clock (dv_store d), d)"

definition sendToClient :: "'r desk_env \<Rightarrow> client \<Rightarrow> (message, 'r) frame \<Rightarrow> (bool, 'r) step" where
  "sendToClient E client f d =
     (case SendToClient (w_frames (de_wire E)) (de_published E) (ID client) f (Online client) (dv_hub d) of
        (ok, es) \<Rightarrow> (ok, d\<lparr>dv_out := dv_out d @ es\<rparr>))"

definition closeSession :: "client \<Rightarrow> string \<Rightarrow> (unit, 'r) step" where
  "closeSession client reason d = (case ClientSink (ID client) (dv_hub d) of
     None \<Rightarrow> ((), d) | Some sink \<Rightarrow> emit [CloseSink sink reason] d)"

definition noteAudit :: "admin \<Rightarrow> string \<Rightarrow> client \<Rightarrow> string \<Rightarrow> string \<Rightarrow> (unit, 'r) step" where
  "noteAudit admin action client message ip = ignore (dbD (AppendAudit
     \<lparr>ae_id = 0, ae_ts = None, ae_actor_admin_id = a_id admin, ae_actor_username = a_username admin, ae_action = action,
      ae_target_type = ''client'', ae_target_id = ID client, ae_message = message, ae_ip = ip\<rparr>))"

subsection \<open>Synchronisation modes\<close>

definition normalizeSyncMode :: "string \<Rightarrow> string" where
  "normalizeSyncMode value = (let v = to_lower (trim_space value) in
     if v = ''periodic'' then ''periodic''
     else if v = ''foreground'' \<or> v = ''foreground_only'' then ''foreground''
     else ''always'')"

definition syncModeToProto :: "string \<Rightarrow> int" where
  "syncModeToProto value = (let m = normalizeSyncMode value in
     if m = ''periodic'' then 2 else if m = ''foreground'' then 3 else 1)"

subsection \<open>Which relay\<close>

definition vkTurnDefaultDTLSPort :: string where "vkTurnDefaultDTLSPort = ''56000''"

text \<open>\<^verbatim>\<open>net.SplitHostPort\<close> and \<^verbatim>\<open>net.JoinHostPort\<close>\<close>

definition last_colon :: "string \<Rightarrow> nat option" where
  "last_colon s = (case dropWhile (\<lambda>i. s ! i \<noteq> CHR '':'') (rev [0..<length s]) of [] \<Rightarrow> None | i # _ \<Rightarrow> Some i)"

definition first_bracket :: "string \<Rightarrow> nat option" where
  "first_bracket s = (let n = length (takeWhile (\<lambda>c. c \<noteq> CHR '']'') s) in if n < length s then Some n else None)"

definition SplitHostPort :: "string \<Rightarrow> (string \<times> string) option" where
  "SplitHostPort s = (case last_colon s of
     None \<Rightarrow> None
   | Some i \<Rightarrow>
       if hd s = CHR ''['' then (case first_bracket s of
           None \<Rightarrow> None
         | Some close \<Rightarrow>
             if close + 1 \<noteq> i \<or> CHR ''['' \<in> set (drop 1 s) \<or> CHR '']'' \<in> set (drop (close + 1) s) then None
             else Some (take (close - 1) (drop 1 s), drop (i + 1) s))
       else if CHR '':'' \<in> set (take i s) \<or> CHR ''['' \<in> set s \<or> CHR '']'' \<in> set s then None
       else Some (take i s, drop (i + 1) s))"

definition JoinHostPort :: "string \<Rightarrow> string \<Rightarrow> string" where
  "JoinHostPort host port = (if CHR '':'' \<in> set host then ''['' @ host @ '']:'' @ port else host @ '':'' @ port)"

definition isLoopbackHost :: "'r desk_env \<Rightarrow> string \<Rightarrow> bool" where
  "isLoopbackHost E host = (let h = to_lower (trim_space host) in h = ''localhost'' \<or> de_ip_is_loopback E h)"

definition contains_str :: "string \<Rightarrow> string \<Rightarrow> bool" where
  "contains_str s p \<longleftrightarrow> (\<exists>i \<in> set [0..<Suc (length s)]. has_prefix (drop i s) p)"

definition publicHostFromBaseURL :: "'r desk_env \<Rightarrow> string \<Rightarrow> string" where
  "publicHostFromBaseURL E base0 = (let base = trim_space base0 in
     if base = [] then []
     else let base = (if contains_str base ''://'' then base else ''https://'' @ base) in
       case de_url_host E base of None \<Rightarrow> [] | Some h \<Rightarrow> h)"

definition relay_endpoint :: "'r desk_env \<Rightarrow> node_row \<Rightarrow> string" where
  "relay_endpoint E node =
     (let host = (case SplitHostPort (nd_grpc_endpoint node) of Some (h, _) \<Rightarrow> h | None \<Rightarrow> nd_grpc_endpoint node);
          pub = publicHostFromBaseURL E (de_base_url E);
          host = (if isLoopbackHost E host \<and> pub \<noteq> [] then pub else host);
          port = (case de_node_status E node of
            None \<Rightarrow> vkTurnDefaultDTLSPort
          | Some listen \<Rightarrow> (case SplitHostPort listen of
              Some (_, reported) \<Rightarrow> if reported \<noteq> [] then reported else vkTurnDefaultDTLSPort
            | None \<Rightarrow> vkTurnDefaultDTLSPort))
      in JoinHostPort host port)"

definition resolveVkTurnEndpoint :: "'r desk_env \<Rightarrow> admin \<Rightarrow> string \<Rightarrow> (string option, 'r) step" where
  "resolveVkTurnEndpoint E admin nodeID =
     (let nodeID = trim_space nodeID in
      if nodeID = [] then retD (Some [])
      else bindD (dbD (GetServerNode nodeID)) (\<lambda>r. retD (case r of
         Inl _ \<Rightarrow> None
       | Inr node \<Rightarrow>
           if nd_kind node \<noteq> ServerNodeVKTurnProxy then None
           else if nd_owner node \<noteq> a_id admin \<and> (\<not> IsOwner admin \<or> nd_owner node \<noteq> 0) then None
           else Some (relay_endpoint E node))))"

definition clientVkTurnEndpoint :: "'r desk_env \<Rightarrow> admin \<Rightarrow> client \<Rightarrow> string \<Rightarrow> (string option, 'r) step" where
  "clientVkTurnEndpoint E admin client nodeID =
     (if trim_space nodeID \<noteq> [] then resolveVkTurnEndpoint E admin nodeID
      else bindD (dbD (GetClientConfig (ID client))) (\<lambda>r. retD (Some (case r of
         Inl _ \<Rightarrow> []
       | Inr cfg \<Rightarrow>
           if ConfigProto cfg = [] then []
           else (case w_config_of (de_wire E) (ConfigProto cfg) of
             None \<Rightarrow> [] | Some parsed \<Rightarrow> existingManagedEndpoint (message_of (map_of parsed ''turn'')))))))"

text \<open>Whether the administrator has any relay to pick.\<close>

fun first_node :: "int list \<Rightarrow> (string, 'r) step" where
  "first_node [] = retD []"
| "first_node (owner # owners) = bindD (dbD (ListServerNodesByOwner ServerNodeVKTurnProxy owner)) (\<lambda>r.
     case r of Inr (n # _) \<Rightarrow> retD (nd_id n) | _ \<Rightarrow> first_node owners)"

definition anyVkTurnNodeID :: "admin \<Rightarrow> (string, 'r) step" where
  "anyVkTurnNodeID admin = first_node (if IsOwner admin then [0, a_id admin] else [a_id admin])"

definition hasVkTurnNode :: "admin \<Rightarrow> (bool, 'r) step" where
  "hasVkTurnNode admin = bindD (anyVkTurnNodeID admin) (\<lambda>i. retD (i \<noteq> []))"

subsection \<open>Links\<close>

definition SettingLinkFormat :: string where "SettingLinkFormat = ''link_format''"
definition LinkFormatBrotli :: string where "LinkFormatBrotli = ''brotli''"
definition maxEnrollmentVKLinks :: int where "maxEnrollmentVKLinks = 1"

definition applyAdminVKLinks :: "message option \<Rightarrow> int \<Rightarrow> int \<Rightarrow> (message option, 'r) step" where
  "applyAdminVKLinks turn adminID cap = (case turn of
     None \<Rightarrow> retD None
   | Some t \<Rightarrow>
       if \<not> hasManagedTurnProfile turn then retD turn
       else bindD (dbD (GetAdminVKLinks adminID)) (\<lambda>r. retD (case r of
          Inl _ \<Rightarrow> turn
        | Inr links \<Rightarrow>
            if links = [] then turn
            else let merged = mergeVKLinks (Links t) links in
              Some (set_Links (if cap > 0 then take (nat cap) merged else merged) t))))"

definition buildLink :: "'r desk_env \<Rightarrow> message \<Rightarrow> (string option, 'r) step" where
  "buildLink E cfg = bindD (dbD (GetPlatformSetting SettingLinkFormat LinkFormatBrotli)) (\<lambda>r.
     retD (de_link E (case r of
       Inl _ \<Rightarrow> Brotli
     | Inr format \<Rightarrow> if format = ''deflate'' then Deflate else if format = ''brotli_legacy'' then BrotliLegacy else Brotli) cfg))"

definition trim_right_slash :: "string \<Rightarrow> string" where
  "trim_right_slash s = rev (dropWhile (\<lambda>c. c = CHR ''/'') (rev s))"

definition derivePanelURL :: "string \<Rightarrow> string" where
  "derivePanelURL publicBaseURL = (let base = trim_right_slash publicBaseURL in
     if has_prefix base ''https://'' \<or> has_prefix base ''http://'' then base else ''https://'' @ base)"

definition guardian_block :: "'r desk_env \<Rightarrow> string \<Rightarrow> string \<Rightarrow> bytes \<Rightarrow> string \<Rightarrow> int \<Rightarrow> admin \<Rightarrow> message" where
  "guardian_block E clientID name token syncMode periodic admin =
     set_text ''ws_url'' (derivePanelURL (de_base_url E)) (set_text ''client_id'' clientID (set_text ''client_token'' token
     (set_text ''client_name'' name (set_num ''sync_mode'' (syncModeToProto syncMode)
     (set_num ''periodic_interval_minutes'' (uint (word_of_int periodic :: u32)) (set_text ''admin_username'' (a_username admin)
     (set_num ''admin_id'' (a_id admin) (set_num ''admin_avatar_version'' (a_avatar_version admin)
     (set_items ''server_ca_pins_sha512_256'' (map (\<lambda>p. Scalar (Str p)) (de_ca_pins E)) [])))))))))"

definition CONFIG_TYPE_GUARDIAN :: int where "CONFIG_TYPE_GUARDIAN = 9"
definition CONFIG_TYPE_VK_TURN_PROFILE :: int where "CONFIG_TYPE_VK_TURN_PROFILE = 10"

definition new_config :: message where "new_config = [(''ver'', Scalar (Num 1))]"

definition buildClientLink ::
  "'r desk_env \<Rightarrow> string \<Rightarrow> string \<Rightarrow> bytes \<Rightarrow> string \<Rightarrow> int \<Rightarrow> admin \<Rightarrow> bool \<Rightarrow> string \<Rightarrow> (string option, 'r) step" where
  "buildClientLink E clientID name token syncMode periodic admin remoteControl endpoint =
     (if remoteControl
      then buildLink E (set_message ''guardian'' (Some (guardian_block E clientID name token syncMode periodic admin))
        (set_num ''type'' CONFIG_TYPE_GUARDIAN new_config))
      else
        let cfg = markVkTurnBackend (set_message ''turn'' (managedTurn clientID name token endpoint) new_config) in
        bindD (applyAdminVKLinks (message_of (map_of cfg ''turn'')) (a_id admin) maxEnrollmentVKLinks) (\<lambda>turn.
        case turn of
          None \<Rightarrow> retD None
        | Some t \<Rightarrow> buildLink E (set_num ''type'' CONFIG_TYPE_VK_TURN_PROFILE (set_message ''turn'' (Some t) cfg))))"

subsection \<open>Saving a configuration\<close>

record push_request =
  pr_config :: "message option"
  pr_revision :: string
  pr_patch :: bool
  pr_if_config_version :: int
  pr_provision :: "bool option"
  pr_vk_turn_node_id :: string

definition revision_of :: "push_request \<Rightarrow> int \<Rightarrow> string" where
  "revision_of req ms = (let r = trim_space (pr_revision req) in if r = [] then itoa ms else r)"

definition applyProvisionToConfig ::
  "'r desk_env \<Rightarrow> admin \<Rightarrow> client \<Rightarrow> message \<Rightarrow> bool \<Rightarrow> string \<Rightarrow> (message option, 'r) step" where
  "applyProvisionToConfig E admin client cfg enable vkTurnNodeID =
     (let turn = message_of (map_of cfg ''turn'');
          stripped = set_message ''turn'' (stripManagedTurnProfiles turn) cfg in
      if \<not> enable then retD (Some stripped)
      else bindD (dbD (GetClientToken (ID client) (OwnerAdminID client))) (\<lambda>r.
        case r of
          Inl _ \<Rightarrow> retD None
        | Inr token \<Rightarrow>
            let existing = existingManagedEndpoint turn in
            bindD (if trim_space vkTurnNodeID \<noteq> [] \<or> existing = [] then resolveVkTurnEndpoint E admin vkTurnNodeID
                   else retD (Some [])) (\<lambda>resolved.
            retD (case resolved of
              None \<Rightarrow> None
            | Some r \<Rightarrow>
                let endpoint = (if trim_space r \<noteq> [] then r else existing) in
                if trim_space endpoint = [] then Some stripped
                else Some (markVkTurnBackend (set_message ''turn''
                  (Some (applyManagedTurnProfile turn (ID client) (Name client) token endpoint)) cfg))))))"

definition stamp :: "u64 \<Rightarrow> message \<Rightarrow> message" where
  "stamp version cfg = set_num ''config_version'' (uint version) cfg"

definition pushConfig :: "'r desk_env \<Rightarrow> client \<Rightarrow> message \<Rightarrow> string \<Rightarrow> (bool, 'r) step" where
  "pushConfig E client cfg revision = sendToClient E client (ConfigPush cfg revision)"

text \<open>
  The patch path in its two halves: what it reads before it decides, and what it writes. Nothing holds the
  row in between.
\<close>

record patch_base =
  pb_stored :: message
  pb_version :: int
  pb_touched :: "(string \<times> int) list"

definition loadPatchBase :: "'r desk_env \<Rightarrow> client \<Rightarrow> (patch_base option, 'r) step" where
  "loadPatchBase E client = bindD (dbD (GetClientConfig (ID client))) (\<lambda>r. retD (case r of
     Inl _ \<Rightarrow> Some \<lparr>pb_stored = new_config, pb_version = 0, pb_touched = []\<rparr>
   | Inr current \<Rightarrow> map_option (\<lambda>m. \<lparr>pb_stored = m, pb_version = sint (ConfigVersion current),
       pb_touched = TouchedFields current\<rparr>) (w_config_of (de_wire E) (ConfigProto current))))"

definition savePatch ::
  "'r desk_env \<Rightarrow> string \<Rightarrow> admin \<Rightarrow> client \<Rightarrow> message \<Rightarrow> push_request \<Rightarrow> patch_base \<Rightarrow> ('r answer, 'r) step" where
  "savePatch E ip admin client patch req base =
     (let paths = Paths (Some patch); clash = Conflicts paths (pb_touched base) (pr_if_config_version req) in
      if clash \<noteq> [] then retD (FieldsClash clash (pb_version base))
      else (case Apply (de_merge E) (Some (pb_stored base)) (Some patch) of
        Inl _ \<Rightarrow> retD (Failed 400)
      | Inr merged \<Rightarrow>
          given 500 (w_config_bytes (de_wire E) merged) (\<lambda>blob.
          bindD timeMs (\<lambda>ms.
          let revision = revision_of req ms in
          orElse 500 (dbD (UpsertClientConfigPatched (ID client) blob revision
              (Touch (pb_touched base) paths (wrap64 (pb_version base + 1))))) (\<lambda>version.
          bindD (pushConfig E client (stamp version patch) revision) (\<lambda>_.
          bindD (noteAudit admin ''client.config_patched'' client (Describe paths) ip) (\<lambda>_.
          retD (ConfigSaved revision (Online client) version (Some paths)))))))))"

definition respondPatchClientConfig ::
  "'r desk_env \<Rightarrow> string \<Rightarrow> admin \<Rightarrow> client \<Rightarrow> message \<Rightarrow> push_request \<Rightarrow> ('r answer, 'r) step" where
  "respondPatchClientConfig E ip admin client patch req =
     (if Paths (Some patch) = [] then retD (Failed 400)
      else bindD (loadPatchBase E client) (\<lambda>b. given 500 b (savePatch E ip admin client patch req)))"

definition respondPushClientConfig ::
  "'r desk_env \<Rightarrow> string \<Rightarrow> admin \<Rightarrow> client \<Rightarrow> push_request option \<Rightarrow> ('r answer, 'r) step" where
  "respondPushClientConfig E ip admin client body =
     given 400 body (\<lambda>req.
     given 400 (pr_config req) (\<lambda>parsed.
     if pr_patch req then respondPatchClientConfig E ip admin client parsed req
     else
       let parsed = set_message ''guardian'' None parsed;
           parsed = (if HasRootAccess client then parsed else stripRootOnlyBlocks parsed) in
       bindD (case pr_provision req of
           None \<Rightarrow> retD (Some parsed)
         | Some enable \<Rightarrow> applyProvisionToConfig E admin client parsed enable (pr_vk_turn_node_id req)) (\<lambda>provisioned.
       given 400 provisioned (\<lambda>cfg.
       given 500 (w_config_bytes (de_wire E) cfg) (\<lambda>blob.
       bindD timeMs (\<lambda>ms.
       let revision = revision_of req ms in
       orElse 500 (dbD (UpsertClientConfig (ID client) blob revision)) (\<lambda>version.
       bindD (pushConfig E client (stamp version cfg) revision) (\<lambda>_.
       retD (ConfigSaved revision (Online client) version None)))))))))"

subsection \<open>Commands\<close>

definition maxQueuedGenerateVkLinkCount :: int where "maxQueuedGenerateVkLinkCount = 50"

definition COMMAND_REFRESH_SUBSCRIPTION :: int where "COMMAND_REFRESH_SUBSCRIPTION = 5"
definition COMMAND_REFRESH_ALL_SUBSCRIPTIONS :: int where "COMMAND_REFRESH_ALL_SUBSCRIPTIONS = 6"
definition COMMAND_REFRESH_INSTALLED_APPS :: int where "COMMAND_REFRESH_INSTALLED_APPS = 7"
definition COMMAND_GENERATE_VK_LINK :: int where "COMMAND_GENERATE_VK_LINK = 8"

definition queueableCommands :: "int list" where
  "queueableCommands = [COMMAND_REFRESH_SUBSCRIPTION, COMMAND_REFRESH_ALL_SUBSCRIPTIONS,
     COMMAND_REFRESH_INSTALLED_APPS, COMMAND_GENERATE_VK_LINK]"

definition parseCommandType :: "string \<Rightarrow> int option" where
  "parseCommandType name = map_of
     [(''start_tunnel'', 1), (''start'', 1), (''stop_tunnel'', 2), (''stop'', 2), (''reconnect'', 3),
      (''report_now'', 4), (''report'', 4), (''refresh_subscription'', COMMAND_REFRESH_SUBSCRIPTION),
      (''refresh_all_subscriptions'', COMMAND_REFRESH_ALL_SUBSCRIPTIONS),
      (''refresh_installed_apps'', COMMAND_REFRESH_INSTALLED_APPS), (''generate_vk_link'', COMMAND_GENERATE_VK_LINK)]
     (to_lower (trim_space name))"

fun enqueueTimes :: "nat \<Rightarrow> string \<Rightarrow> int \<Rightarrow> string \<Rightarrow> nat db" where
  "enqueueTimes 0 clientID cmdType subscriptionID = ret 0"
| "enqueueTimes (Suc n) clientID cmdType subscriptionID =
     bindE (EnqueuePendingCommand clientID cmdType subscriptionID) (\<lambda>_.
     bindE (enqueueTimes n clientID cmdType subscriptionID) (\<lambda>k. ret (Suc k)))"

definition enqueueOfflineCommand :: "string \<Rightarrow> int \<Rightarrow> string \<Rightarrow> int \<Rightarrow> nat db" where
  "enqueueOfflineCommand clientID cmdType subscriptionID n =
     (if cmdType = COMMAND_GENERATE_VK_LINK
      then let n = (if n \<le> 0 then 1 else n);
               n = (if n > maxQueuedGenerateVkLinkCount then maxQueuedGenerateVkLinkCount else n)
           in enqueueTimes (nat n) clientID cmdType subscriptionID
      else if cmdType \<in> {COMMAND_REFRESH_SUBSCRIPTION, COMMAND_REFRESH_ALL_SUBSCRIPTIONS, COMMAND_REFRESH_INSTALLED_APPS}
      then bindE (EnqueuePendingCommandDedup clientID cmdType subscriptionID) (\<lambda>(_, inserted). ret (if inserted then 1 else 0))
      else ret 0)"

definition commandFrame :: "int \<Rightarrow> string \<Rightarrow> string \<Rightarrow> (message, 'r) frame" where
  "commandFrame cmdType i subscriptionID =
     CommandFrame \<lparr>cm_type = cmdType, cm_id = i, cm_subscription_id = subscriptionID\<rparr>"

definition respondCommand ::
  "'r desk_env \<Rightarrow> bytes option \<Rightarrow> client \<Rightarrow> (string \<times> int) option \<Rightarrow> ('r answer, 'r) step" where
  "respondCommand E draw client body =
     given 400 body (\<lambda>(name, n).
     given 400 (parseCommandType name) (\<lambda>cmdType.
     given 500 (GenerateClientID draw) (\<lambda>i.
     bindD (sendToClient E client (commandFrame cmdType i [])) (\<lambda>sent.
     if sent then retD (CommandSent i)
     else if cmdType \<notin> set queueableCommands then retD (Failed 503)
     else orElse 500 (dbD (enqueueOfflineCommand (ID client) cmdType [] n)) (\<lambda>queued.
       retD (CommandQueued queued))))))"

definition respondRefreshSubscription ::
  "'r desk_env \<Rightarrow> bytes option \<Rightarrow> client \<Rightarrow> string \<Rightarrow> ('r answer, 'r) step" where
  "respondRefreshSubscription E draw client subscriptionID =
     (let subID = trim_space subscriptionID;
          cmdType = (if subID \<noteq> [] then COMMAND_REFRESH_SUBSCRIPTION else COMMAND_REFRESH_ALL_SUBSCRIPTIONS) in
      given 500 (GenerateClientID draw) (\<lambda>i.
      bindD (sendToClient E client (commandFrame cmdType i subID)) (\<lambda>sent.
      if sent then retD (CommandSent i)
      else orElse 500 (dbD (enqueueOfflineCommand (ID client) cmdType subID 0)) (\<lambda>queued.
        retD (CommandQueued queued)))))"

definition respondRefreshInstalledApps :: "'r desk_env \<Rightarrow> bytes option \<Rightarrow> client \<Rightarrow> ('r answer, 'r) step" where
  "respondRefreshInstalledApps E draw client =
     given 500 (GenerateClientID draw) (\<lambda>i.
     bindD (sendToClient E client (commandFrame COMMAND_REFRESH_INSTALLED_APPS i [])) (\<lambda>sent.
     retD (if sent then CommandSent i else Failed 503)))"

subsection \<open>Settings of a device\<close>

definition respondLogControl :: "'r desk_env \<Rightarrow> client \<Rightarrow> (bool \<times> bool \<times> bool) option \<Rightarrow> ('r answer, 'r) step" where
  "respondLogControl E client body = given 400 body (\<lambda>(runtime, proxy, xray).
     orElse 500 (dbD (UpdateClientLogControl (ID client) (OwnerAdminID client) runtime proxy xray)) (\<lambda>_.
     bindD (sendToClient E client (LogControl \<lparr>lo_runtime = runtime, lo_proxy = proxy, lo_xray = xray\<rparr>)) (\<lambda>_.
     retD Saved)))"

definition parseLogStream :: "string \<Rightarrow> int option" where
  "parseLogStream name = map_of [(''runtime'', 1), (''proxy'', 2), (''xray'', 3)] (to_lower (trim_space name))"

definition respondLogs :: "client \<Rightarrow> string \<Rightarrow> int \<Rightarrow> int \<Rightarrow> ('r answer, 'r) step" where
  "respondLogs client stream since limit = given 400 (parseLogStream stream) (\<lambda>st.
     orElse 500 (dbD (ReadClientLogs (ID client) st since limit)) (\<lambda>lines. retD (LogLines lines)))"

definition sync_config :: "string \<Rightarrow> int \<Rightarrow> message" where
  "sync_config mode periodic = set_message ''guardian'' (Some (set_num ''sync_mode'' (syncModeToProto mode)
     (set_num ''periodic_interval_minutes'' (uint (word_of_int periodic :: u32)) []))) new_config"

definition respondSync :: "'r desk_env \<Rightarrow> client \<Rightarrow> (string \<times> int) option \<Rightarrow> ('r answer, 'r) step" where
  "respondSync E client body = given 400 body (\<lambda>(syncMode, interval).
     let mode = normalizeSyncMode syncMode; periodic = (if interval \<le> 0 then 30 else interval) in
     orElse 500 (dbD (UpdateClientSync (ID client) (OwnerAdminID client) mode periodic)) (\<lambda>_.
     bindD (pushConfig E client (sync_config mode periodic) ''sync'') (\<lambda>_.
     retD (SyncSaved mode periodic))))"

definition respondSetManagement :: "client \<Rightarrow> bool option \<Rightarrow> ('r answer, 'r) step" where
  "respondSetManagement client body = given 400 body (\<lambda>remoteControl.
     orElse 500 (dbD (SetClientRemoteControl (ID client) (OwnerAdminID client) remoteControl)) (\<lambda>_. retD Saved))"

text \<open>
  A JSON number is a rational. \<^verbatim>\<open>uint64(x * bytesPerGB)\<close> is its integer part; what Go makes of a value past
  64 bits depends on the machine and is the parameter \<open>saturated\<close>.
\<close>

definition bytesPerGB :: int where "bytesPerGB = 1024 * 1024 * 1024"

definition gb_bytes :: "u64 \<Rightarrow> rat \<Rightarrow> u64" where
  "gb_bytes saturated gb = (let b = \<lfloor>gb * of_int bytesPerGB\<rfloor> in
     if 0 \<le> b \<and> b < 2 ^ 64 then word_of_int b else saturated)"

definition respondSetTrafficLimit :: "u64 \<Rightarrow> client \<Rightarrow> (rat \<times> int) option \<Rightarrow> ('r answer, 'r) step" where
  "respondSetTrafficLimit saturated client body = given 400 body (\<lambda>(limitGB, days).
     if limitGB < 0 \<or> days < 0 then retD (Failed 400)
     else let limitBytes = gb_bytes saturated limitGB in
       bindD timeMs (\<lambda>ms.
       orElse 500 (dbD (SetClientTrafficLimit (ID client) (OwnerAdminID client) limitBytes days (ms div 1000))) (\<lambda>_.
       retD (LimitSaved limitBytes days))))"

definition respondSetDisabled :: "client \<Rightarrow> bool option \<Rightarrow> ('r answer, 'r) step" where
  "respondSetDisabled client body = given 400 body (\<lambda>disabled.
     orElse 500 (dbD (SetClientDisabled (ID client) (OwnerAdminID client) disabled)) (\<lambda>_. retD Saved))"

definition respondResetTraffic :: "client \<Rightarrow> ('r answer, 'r) step" where
  "respondResetTraffic client = bindD timeMs (\<lambda>ms.
     orElse 500 (dbD (ResetClientTraffic (ID client) (OwnerAdminID client) (ms div 1000))) (\<lambda>_. retD Saved))"

definition respondClientConfig :: "client \<Rightarrow> ('r answer, 'r) step" where
  "respondClientConfig client = orElse 404 (dbD (GetClientConfig (ID client))) (\<lambda>cfg.
     retD (StoredConfig (ConfigProto cfg) (Revision cfg) (UpdatedAt cfg)))"

subsection \<open>Links, tokens, the whole device\<close>

definition respondWingsvLink ::
  "'r desk_env \<Rightarrow> admin \<Rightarrow> client \<Rightarrow> string \<Rightarrow> string \<Rightarrow> ('r answer, 'r) step" where
  "respondWingsvLink E admin client remote vkTurnNode =
     orElse 404 (dbD (GetClientToken (ID client) (OwnerAdminID client))) (\<lambda>token.
     let remoteControl = (if remote = ''0'' then False else if remote = ''1'' then True else RemoteControl client) in
     bindD (clientVkTurnEndpoint E admin client vkTurnNode) (\<lambda>endpoint.
     given 400 endpoint (\<lambda>ep.
     bindD (buildClientLink E (ID client) (Name client) token (SyncMode client) (PeriodicIntervalMinutes client)
       admin remoteControl ep) (\<lambda>link.
     given 400 link (\<lambda>l. retD (WingsvLink l))))))"

definition respondRotateToken ::
  "'r desk_env \<Rightarrow> bytes option \<Rightarrow> string \<Rightarrow> admin \<Rightarrow> client \<Rightarrow> ('r answer, 'r) step" where
  "respondRotateToken E draw ip admin client =
     given 500 (GenerateClientToken (w_crypto (de_wire E)) draw) (\<lambda>(token, tokenHash).
     orElse 500 (dbD (UpdateClientToken (ID client) (OwnerAdminID client) tokenHash token)) (\<lambda>_.
     bindD (closeSession client ''token_rotated'') (\<lambda>_.
     bindD (clientVkTurnEndpoint E admin client []) (\<lambda>endpoint.
     bindD (buildClientLink E (ID client) (Name client) token (SyncMode client) (PeriodicIntervalMinutes client)
       admin (RemoteControl client) (case endpoint of None \<Rightarrow> [] | Some ep \<Rightarrow> ep)) (\<lambda>link.
     given 500 link (\<lambda>l.
     bindD (noteAudit admin ''client.token_rotated'' client [] ip) (\<lambda>_.
     retD (WingsvLink l))))))))"

definition shown_config :: "'r desk_env \<Rightarrow> bytes \<Rightarrow> message option" where
  "shown_config E b = (if b = [] then None
     else map_option (set_message ''guardian'' None) (w_config_of (de_wire E) b))"

definition respondClientDetail :: "'r desk_env \<Rightarrow> client \<Rightarrow> ('r answer, 'r) step" where
  "respondClientDetail E client =
     bindD (dbD (GetClientConfig (ID client))) (\<lambda>cfg.
     bindD (dbD (GetClientRuntime (ID client))) (\<lambda>runtime.
     bindD (dbD (GetClientReportedConfig (ID client))) (\<lambda>reported.
     let cfg = (case cfg of Inr c \<Rightarrow> c | Inl _ \<Rightarrow> \<lparr>ClientID = [], ConfigProto = [], Revision = [], UpdatedAt = 0,
           ConfigVersion = 0, TouchedFields = []\<rparr>);
         bytes_of = (\<lambda>x. case x of Inr (b, _) \<Rightarrow> b | Inl _ \<Rightarrow> []) in
     retD (Detail client cfg (shown_config E (ConfigProto cfg)) (shown_config E (bytes_of reported))
       (if bytes_of runtime = [] then None else de_runtime_of E (bytes_of runtime))))))"

definition respondDeleteClient :: "'r desk_env \<Rightarrow> client \<Rightarrow> ('r answer, 'r) step" where
  "respondDeleteClient E client =
     bindD (sendToClient E client (ServerError ''revoked'')) (\<lambda>_.
     bindD (closeSession client ''revoked'') (\<lambda>_.
     orElse 500 (dbD (DeleteClient (ID client) (OwnerAdminID client))) (\<lambda>_. retD Saved)))"

definition respondInstalledApps :: "'r desk_env \<Rightarrow> client \<Rightarrow> ('r answer, 'r) step" where
  "respondInstalledApps E client = bindD (dbD (GetClientInstalledApps (ID client))) (\<lambda>r.
     case r of
       Inl _ \<Rightarrow> retD (AppList [] 0)
     | Inr (b, updatedAt) \<Rightarrow> given 500 (de_apps_of E b) (\<lambda>apps. retD (AppList apps updatedAt)))"

subsection \<open>Creating a device\<close>

record create_request =
  cr_name :: string
  cr_seed_from_client_id :: string
  cr_seed_from_link :: string
  cr_sync_mode :: string
  cr_periodic :: int
  cr_remote_control :: "bool option"
  cr_vk_turn_node_id :: string
  cr_traffic_limit_gb :: rat
  cr_reset_period_days :: int

text \<open>An error is \<open>None\<close>, no seed is \<open>Some None\<close>.\<close>

definition resolveSeedConfig :: "'r desk_env \<Rightarrow> create_request \<Rightarrow> admin \<Rightarrow> (message option option, 'r) step" where
  "resolveSeedConfig E req admin =
     (let i = trim_space (cr_seed_from_client_id req); link = trim_space (cr_seed_from_link req) in
      if i \<noteq> [] then
        bindD (dbD (FindClientByID i)) (\<lambda>r.
        case r of
          Inl _ \<Rightarrow> retD None
        | Inr client \<Rightarrow>
            if OwnerAdminID client \<noteq> a_id admin \<and> \<not> IsOwner admin then retD None
            else bindD (dbD (GetClientConfig i)) (\<lambda>c. retD (case c of
               Inl _ \<Rightarrow> None
             | Inr cfg \<Rightarrow> map_option (\<lambda>m. Some (set_message ''guardian'' None m)) (w_config_of (de_wire E) (ConfigProto cfg)))))
      else if link \<noteq> [] then retD (map_option (\<lambda>m. Some (set_message ''guardian'' None m)) (de_parse_link E link))
      else retD (Some None))"

definition create_config ::
  "'r desk_env \<Rightarrow> create_request \<Rightarrow> admin \<Rightarrow> string \<Rightarrow> bytes \<Rightarrow> string \<Rightarrow> message \<Rightarrow> (message, 'r) step" where
  "create_config E req admin clientID token endpoint seed =
     (case managedTurn clientID (trim_space (cr_name req)) token endpoint of
        None \<Rightarrow> retD seed
      | Some managed \<Rightarrow>
          let cfg = markVkTurnBackend (set_message ''turn'' (Some managed) seed) in
          bindD (applyAdminVKLinks (message_of (map_of cfg ''turn'')) (a_id admin) 0) (\<lambda>turn.
          retD (set_message ''turn'' turn cfg)))"

definition create_limit :: "u64 \<Rightarrow> create_request \<Rightarrow> admin \<Rightarrow> string \<Rightarrow> string \<Rightarrow> (error + unit, 'r) step" where
  "create_limit saturated req admin clientID endpoint =
     (if trim_space endpoint \<noteq> [] \<and> (cr_traffic_limit_gb req > 0 \<or> cr_reset_period_days req > 0)
      then bindD timeMs (\<lambda>ms. dbD (SetClientTrafficLimit clientID (a_id admin) (gb_bytes saturated (cr_traffic_limit_gb req))
             (max 0 (cr_reset_period_days req)) (ms div 1000)))
      else retD (Inr ()))"

text \<open>The two parts of creation: the row comes first, everything that can refuse the request after it.\<close>

definition create_row ::
  "'r desk_env \<Rightarrow> admin \<Rightarrow> create_request \<Rightarrow> string \<Rightarrow> bytes \<Rightarrow> string \<Rightarrow> (unit \<Rightarrow> ('r answer, 'r) step) \<Rightarrow> ('r answer, 'r) step" where
  "create_row E admin req clientID token tokenHash k =
     orElse 500 (dbD (CreateClient clientID (a_id admin) (trim_space (cr_name req)) tokenHash token)) (\<lambda>_.
     orElse 500 (dbD (UpdateClientSync clientID (a_id admin) (normalizeSyncMode (cr_sync_mode req))
       (if cr_periodic req \<le> 0 then 30 else cr_periodic req))) k)"

definition create_rest ::
  "'r desk_env \<Rightarrow> u64 \<Rightarrow> admin \<Rightarrow> create_request \<Rightarrow> string \<Rightarrow> bytes \<Rightarrow> ('r answer, 'r) step" where
  "create_rest E saturated admin req clientID token =
     bindD (resolveSeedConfig E req admin) (\<lambda>seed.
     given 400 seed (\<lambda>s.
     bindD (resolveVkTurnEndpoint E admin (cr_vk_turn_node_id req)) (\<lambda>resolved.
     given 400 resolved (\<lambda>endpoint.
     bindD (create_config E req admin clientID token endpoint (case s of None \<Rightarrow> new_config | Some m \<Rightarrow> m)) (\<lambda>cfg.
     given 500 (w_config_bytes (de_wire E) cfg) (\<lambda>blob.
     orElse 500 (dbD (UpsertClientConfig clientID blob ''1'')) (\<lambda>_.
     orElse 500 (create_limit saturated req admin clientID endpoint) (\<lambda>_.
     let remoteControl = (case cr_remote_control req of None \<Rightarrow> True | Some b \<Rightarrow> b) in
     orElse 500 (dbD (SetClientRemoteControl clientID (a_id admin) remoteControl)) (\<lambda>_.
     bindD (buildClientLink E clientID (trim_space (cr_name req)) token (normalizeSyncMode (cr_sync_mode req))
       (if cr_periodic req \<le> 0 then 30 else cr_periodic req) admin remoteControl endpoint) (\<lambda>link.
     given 400 link (\<lambda>l.
     orElse 500 (dbD (FindClientByID clientID)) (\<lambda>created.
     retD (Created created l token)))))))))))))"

definition handleCreateClient ::
  "'r desk_env \<Rightarrow> u64 \<Rightarrow> bytes option \<Rightarrow> bytes option \<Rightarrow> admin \<Rightarrow> create_request option \<Rightarrow> ('r answer, 'r) step" where
  "handleCreateClient E saturated idDraw tokenDraw admin body =
     given 400 body (\<lambda>req.
     if trim_space (cr_name req) = [] then retD (Failed 400)
     else given 500 (GenerateClientID idDraw) (\<lambda>clientID.
     given 500 (GenerateClientToken (w_crypto (de_wire E)) tokenDraw) (\<lambda>(token, tokenHash).
     create_row E admin req clientID token tokenHash (\<lambda>_. create_rest E saturated admin req clientID token))))"

subsection \<open>The list\<close>

definition backendTypeLabel :: "int \<Rightarrow> string" where
  "backendTypeLabel t = (if t \<in> {1, 7} then ''VK TURN + WG'' else if t = 2 then ''Xray'' else if t = 3 then ''VK TURN + AWG''
     else if t = 4 then ''WireGuard'' else if t \<in> {5, 8} then ''AmneziaWG'' else if t = 6 then ''WB Stream'' else [])"

definition backendTypeLabelForConfig :: "message \<Rightarrow> string" where
  "backendTypeLabelForConfig cfg =
     (let b = num_of (map_of cfg ''backend'');
          tunnel = num_of (map_of (fields_of (map_of cfg ''turn'')) ''tunnel_mode'') in
      if b \<in> {7, 1} \<and> tunnel = TUNNEL_MODE_AMNEZIAWG then ''VK TURN + AWG'' else backendTypeLabel b)"

definition hydrateBackendType :: "'r desk_env \<Rightarrow> client_view \<Rightarrow> (client_view, 'r) step" where
  "hydrateBackendType E view = bindD (dbD (GetClientConfig (ID (vw_client view)))) (\<lambda>r. retD (case r of
     Inl _ \<Rightarrow> view
   | Inr cfg \<Rightarrow>
       if ConfigProto cfg = [] then view
       else (case w_config_of (de_wire E) (ConfigProto cfg) of
         None \<Rightarrow> view
       | Some parsed \<Rightarrow> view\<lparr>vw_backend := backendTypeLabelForConfig parsed,
           vw_managed := hasManagedTurnProfile (message_of (map_of parsed ''turn''))\<rparr>)))"

definition pageParams :: "int \<Rightarrow> int option \<Rightarrow> int option \<Rightarrow> int \<times> int" where
  "pageParams fallback limit offset =
     (case limit of Some n \<Rightarrow> if n > 0 \<and> n \<le> 500 then n else fallback | None \<Rightarrow> fallback,
      case offset of Some n \<Rightarrow> if n > 0 then n else 0 | None \<Rightarrow> 0)"

fun hydrateAll :: "'r desk_env \<Rightarrow> client_view list \<Rightarrow> (client_view list, 'r) step" where
  "hydrateAll E [] = retD []"
| "hydrateAll E (v # vs) = bindD (hydrateBackendType E v) (\<lambda>v'. bindD (hydrateAll E vs) (\<lambda>vs'. retD (v' # vs')))"

definition ok_list :: "error + 'a list \<Rightarrow> 'a list" where
  "ok_list r = (case r of Inl _ \<Rightarrow> [] | Inr xs \<Rightarrow> xs)"

definition handleListClients :: "'r desk_env \<Rightarrow> admin \<Rightarrow> int option \<Rightarrow> int option \<Rightarrow> ('r answer, 'r) step" where
  "handleListClients E admin limit offset =
     (case pageParams 50 limit offset of (n, off) \<Rightarrow>
      orElse 500 (dbD (PageClientsByOwner (a_id admin) n off)) (\<lambda>(cs, total).
      bindD (dbD ClientTrafficMap) (\<lambda>traffic.
      bindD (dbD ProvisionedClientIDs) (\<lambda>provisioned.
      bindD (dbD (ClientControlMap (a_id admin))) (\<lambda>control.
      bindD (hydrateAll E (map (\<lambda>c. \<lparr>vw_client = c, vw_backend = [], vw_managed = False,
        vw_provisioned = ID c \<in> set (ok_list provisioned),
        vw_traffic = (case map_of (ok_list traffic) (ID c) of None \<Rightarrow> (0, 0) | Some t \<Rightarrow> t),
        vw_control = map_of (ok_list control) (ID c)\<rparr>) cs)) (\<lambda>views.
      retD (ClientList views total)))))))"

subsection \<open>The routes of one device\<close>

datatype route =
    GetDetail
  | Delete
  | GetConfig
  | PutConfig "push_request option"
  | PutManagement "bool option"
  | PutTrafficLimit "(rat \<times> int) option"
  | PutDisabled "bool option"
  | PostTrafficReset
  | PutLogControl "(bool \<times> bool \<times> bool) option"
  | PutSync "(string \<times> int) option"
  | PostCommand "bytes option" "(string \<times> int) option"
  | GetLink string string
  | GetLogs string int int
  | PostRotate "bytes option"
  | PostSubscriptionRefresh "bytes option" string
  | GetApps
  | PostAppsRefresh "bytes option"
  | UnknownRoute

definition clientRoute :: "'r desk_env \<Rightarrow> u64 \<Rightarrow> string \<Rightarrow> admin \<Rightarrow> client \<Rightarrow> route \<Rightarrow> ('r answer, 'r) step" where
  "clientRoute E saturated ip admin client route = (case route of
     GetDetail \<Rightarrow> respondClientDetail E client
   | Delete \<Rightarrow> respondDeleteClient E client
   | GetConfig \<Rightarrow> respondClientConfig client
   | PutConfig body \<Rightarrow> respondPushClientConfig E ip admin client body
   | PutManagement body \<Rightarrow> respondSetManagement client body
   | PutTrafficLimit body \<Rightarrow> respondSetTrafficLimit saturated client body
   | PutDisabled body \<Rightarrow> respondSetDisabled client body
   | PostTrafficReset \<Rightarrow> respondResetTraffic client
   | PutLogControl body \<Rightarrow> respondLogControl E client body
   | PutSync body \<Rightarrow> respondSync E client body
   | PostCommand draw body \<Rightarrow> respondCommand E draw client body
   | GetLink remote node \<Rightarrow> respondWingsvLink E admin client remote node
   | GetLogs stream since limit \<Rightarrow> respondLogs client stream since limit
   | PostRotate draw \<Rightarrow> respondRotateToken E draw ip admin client
   | PostSubscriptionRefresh draw sub \<Rightarrow> respondRefreshSubscription E draw client sub
   | GetApps \<Rightarrow> respondInstalledApps E client
   | PostAppsRefresh draw \<Rightarrow> respondRefreshInstalledApps E draw client
   | UnknownRoute \<Rightarrow> retD (Failed 404))"

definition handleClientByID ::
  "'r desk_env \<Rightarrow> u64 \<Rightarrow> string \<Rightarrow> admin \<Rightarrow> string \<Rightarrow> route \<Rightarrow> ('r answer, 'r) step" where
  "handleClientByID E saturated ip admin clientID route =
     (if clientID = [] then retD (Failed 404)
      else orElse 404 (dbD (FindClientByID clientID)) (\<lambda>client.
        if OwnerAdminID client \<noteq> a_id admin \<and> \<not> IsOwner admin then retD (Failed 403)
        else clientRoute E saturated ip admin client route))"

end
