(* ===== verification/ClientDeskLaws.thy ===== *)
theory ClientDeskLaws
  imports ClientDesk "HOL-Library.Countable"
begin

text \<open>
  What the handlers of ClientDesk do: their invariant, who may reach a device, what a push lets out, what
  becomes of two editors of one configuration, of commands and of a refused creation.
\<close>

subsection \<open>Evaluation\<close>

lemma step_app [simp]:
  "orElse code m k d = (case fst (m d) of Inl _ \<Rightarrow> (Failed code, snd (m d)) | Inr x \<Rightarrow> k x (snd (m d)))"
  "given code (Some x) h = h x" "given code None h = retD (Failed code)" "timeMs d = (clock (dv_store d), d)"
  by (simp_all add: orElse_def given_def timeMs_def retD_def bindD_def split: prod.split sum.split)

lemma send_app:
  "sendToClient E c f d = (fst (SendToClient (w_frames (de_wire E)) (de_published E) (ID c) f (Online c) (dv_hub d)),
     d\<lparr>dv_out := dv_out d @ snd (SendToClient (w_frames (de_wire E)) (de_published E) (ID c) f (Online c) (dv_hub d))\<rparr>)"
  by (simp add: sendToClient_def split: prod.split)

lemma audit_store:
  assumes "faults s = []"
  shows "faults (snd (AppendAudit e s)) = []" "cconfigs (snd (AppendAudit e s)) = cconfigs s"
    "clients (snd (AppendAudit e s)) = clients s" "driver (snd (AppendAudit e s)) = driver s"
  using assms by (auto simp: AppendAudit_def fail_def bindE_def asks_def Let_def stmt_def)

lemma config_of_cong: "cconfigs s = cconfigs t \<Longrightarrow> config_of c s = config_of c t"
  by (simp add: config_of_def)

lemma fk_client_cong: "clients s = clients t \<Longrightarrow> driver s = driver t \<Longrightarrow> fk_client c s = fk_client c t"
  by (simp add: fk_client_def)

subsection \<open>Steps that keep the invariant\<close>

lemma keeps_steps:
  "keepsD I m \<Longrightarrow> (\<And>x. keepsD I (k x)) \<Longrightarrow> keepsD I (orElse code m k)"
  "(\<And>x. keepsD I (k x)) \<Longrightarrow> keepsD I (given code v k)"
  "keepsD I timeMs" "keepsD I (sendToClient E c f)" "keepsD I (closeSession c reason)"
  "(b \<Longrightarrow> keepsD I n1) \<Longrightarrow> (\<not> b \<Longrightarrow> keepsD I n2) \<Longrightarrow> keepsD I (if b then n1 else n2)"
  by (auto simp: keepsD_def given_def send_app closeSession_def split: option.split sum.split)

lemma keeps_cases:
  "(\<And>x. keepsD I (h x)) \<Longrightarrow> (\<And>y. keepsD I (g y)) \<Longrightarrow> keepsD I (case r of Inl x \<Rightarrow> h x | Inr y \<Rightarrow> g y)"
  "(\<And>x y. keepsD I (f x y)) \<Longrightarrow> keepsD I (case p of (x, y) \<Rightarrow> f x y)"
  by (simp_all split: sum.split prod.split)

lemma pres_enqueueTimes [pres]: "preserves wf_store (enqueueTimes n c t s)"
  by (induction n) (simp_all only: enqueueTimes.simps EnqueuePendingCommand_def EnqueuePendingCommandWithTTL_def, (intro pres | assumption)+)

lemmas desk_intros = keepsD_intros keeps_steps keeps_cases pres fault_free_wf

lemma keeps_resolve: "keepsD wf_store (resolveVkTurnEndpoint E a n)"
  unfolding resolveVkTurnEndpoint_def GetServerNode_def Let_def by (intro desk_intros)

lemma keeps_links: "keepsD wf_store (applyAdminVKLinks t a n)" "keepsD wf_store (buildLink E cfg)"
    "keepsD wf_store (clientVkTurnEndpoint E adm c m)"
  unfolding applyAdminVKLinks_def buildLink_def clientVkTurnEndpoint_def GetClientConfig_def GetAdminVKLinks_def GetPlatformSetting_def
  by (intro desk_intros keeps_resolve)+

lemma keeps_client_link: "keepsD wf_store (buildClientLink E i n t s p a r e)"
  unfolding buildClientLink_def Let_def by (intro desk_intros keeps_links)

lemma keeps_patch: "keepsD wf_store (savePatch E ip a c patch req base)" "keepsD wf_store (loadPatchBase E c)"
  unfolding savePatch_def loadPatchBase_def Let_def pushConfig_def noteAudit_def GetClientConfig_def
  by (intro desk_intros | simp split: sum.split)+

lemma keeps_push: "keepsD wf_store (respondPushClientConfig E ip a c body)"
  unfolding respondPushClientConfig_def respondPatchClientConfig_def applyProvisionToConfig_def pushConfig_def Let_def GetClientToken_def
  by (intro desk_intros keeps_patch keeps_resolve | simp split: option.split)+

lemma keeps_commands: "keepsD wf_store (respondCommand E draw c body1)" "keepsD wf_store (respondRefreshSubscription E draw c sub)"
    "keepsD wf_store (respondRefreshInstalledApps E draw c)"
  unfolding respondCommand_def respondRefreshSubscription_def respondRefreshInstalledApps_def enqueueOfflineCommand_def Let_def
  by (intro desk_intros)+

lemma keeps_settings: "keepsD wf_store (respondLogControl E c b1)" "keepsD wf_store (respondLogs c st since n)"
    "keepsD wf_store (respondSync E c b2)" "keepsD wf_store (respondSetManagement c b3)"
    "keepsD wf_store (respondSetTrafficLimit sat c b4)" "keepsD wf_store (respondSetDisabled c b5)"
    "keepsD wf_store (respondResetTraffic c)" "keepsD wf_store (respondClientConfig c)"
  unfolding respondLogControl_def respondLogs_def respondSync_def respondSetManagement_def respondSetTrafficLimit_def
    respondSetDisabled_def respondResetTraffic_def respondClientConfig_def pushConfig_def ReadClientLogs_def SetClientDisabled_def
    GetClientConfig_def Let_def
  by (intro desk_intros | simp)+

lemma keeps_whole: "keepsD wf_store (respondWingsvLink E a c r n)" "keepsD wf_store (respondRotateToken E draw ip a c)"
    "keepsD wf_store (respondClientDetail E c)" "keepsD wf_store (respondDeleteClient E c)" "keepsD wf_store (respondInstalledApps E c)"
  unfolding respondWingsvLink_def respondRotateToken_def respondClientDetail_def respondDeleteClient_def respondInstalledApps_def
    noteAudit_def GetClientConfig_def GetClientToken_def GetClientRuntime_def GetClientReportedConfig_def GetClientInstalledApps_def
    get_blob_def Let_def
  by (intro desk_intros keeps_links keeps_client_link | simp)+

text \<open>Every request about one device keeps the database in order. Whatever route an administrator calls with
  whatever body, and whichever statements the engine refuses, every key stays unique and no row refers to a
  device, account or node that is not there.
\<close>
theorem device_route_keeps_invariant:
  assumes "wf_store (dv_store d)"
  shows "wf_store (dv_store (snd (handleClientByID E saturated ip admin clientID route d)))"
proof -
  have "keepsD wf_store (clientRoute E saturated ip admin c route)" for c
    unfolding clientRoute_def
    by (cases route) (simp_all add: keeps_push keeps_commands keeps_settings keeps_whole keepsD_intros)
  then have "keepsD wf_store (handleClientByID E saturated ip admin clientID route)"
    unfolding handleClientByID_def by (intro desk_intros)
  then show ?thesis using assms by (rule keepsD_apply)
qed


subsection \<open>What a push lets out\<close>

text \<open>What an effect carries to a device: directly, or in an envelope on the bus.\<close>

definition carries :: "(message, 'r) wire \<Rightarrow> (message, 'r) frame effect \<Rightarrow> (message, 'r) frame \<Rightarrow> bool" where
  "carries W e f \<longleftrightarrow> (case e of
     SendFrame _ g \<Rightarrow> g = f
   | Publish _ env \<Rightarrow> marshal (w_frames W) f = Some (be_Frame env)
   | _ \<Rightarrow> False)"

lemma sent_frames: "e \<in> set (snd (SendToClient K published c f online h)) \<Longrightarrow>
    (\<exists>sink. e = SendFrame sink f) \<or> (\<exists>ch env. e = Publish ch env \<and> marshal K f = Some (be_Frame env))"
  by (auto simp: SendToClient_def split: option.splits if_splits)


text \<open>What a step emits satisfies \<open>P\<close>, and what it returns satisfies \<open>R\<close>.\<close>

definition emits :: "((message, 'r) frame effect \<Rightarrow> bool) \<Rightarrow> ('a, 'r) step \<Rightarrow> bool" where
  "emits P m \<longleftrightarrow> (\<forall>d. \<exists>es. dv_out (snd (m d)) = dv_out d @ es \<and> list_all P es)"

definition returns :: "('a \<Rightarrow> bool) \<Rightarrow> ('a, 'r) step \<Rightarrow> bool" where
  "returns R m \<longleftrightarrow> (\<forall>d. R (fst (m d)))"

lemma emits_bind: "emits P m \<Longrightarrow> returns R m \<Longrightarrow> (\<And>x. R x \<Longrightarrow> emits P (k x)) \<Longrightarrow> emits P (bindD m k)"
  unfolding emits_def
proof
  fix d
  assume m: "\<forall>d. \<exists>es. dv_out (snd (m d)) = dv_out d @ es \<and> list_all P es" and r: "returns R m"
    and k: "\<And>x. R x \<Longrightarrow> \<forall>d. \<exists>es. dv_out (snd (k x d)) = dv_out d @ es \<and> list_all P es"
  obtain es where es: "dv_out (snd (m d)) = dv_out d @ es" "list_all P es" using m by blast
  obtain fs where "dv_out (snd (k (fst (m d)) (snd (m d)))) = dv_out (snd (m d)) @ fs" "list_all P fs"
    using k r by (fastforce simp: returns_def)
  then show "\<exists>es. dv_out (snd (bindD m k d)) = dv_out d @ es \<and> list_all P es" using es by auto
qed

lemma emits_seq: "emits P m \<Longrightarrow> (\<And>x. emits P (k x)) \<Longrightarrow> emits P (bindD m k)"
  by (rule emits_bind [where R = "\<lambda>_. True"]) (simp_all add: returns_def)

lemma emits_basic:
  "emits P (retD x)" "emits P (dbD q)" "emits P (ignore (dbD q))" "emits P timeMs"
  "(\<And>x. v = Some x \<Longrightarrow> emits P (g x)) \<Longrightarrow> emits P (given code v g)"
  "(\<And>x. emits P (f1 x)) \<Longrightarrow> (\<And>x. emits P (f2 x)) \<Longrightarrow> emits P (case s of Inl x \<Rightarrow> f1 x | Inr x \<Rightarrow> f2 x)"
  "(\<And>x. v' = Some x \<Longrightarrow> emits P (g' x)) \<Longrightarrow> emits P n' \<Longrightarrow> emits P (case v' of None \<Rightarrow> n' | Some x \<Rightarrow> g' x)"
  "(b \<Longrightarrow> emits P m1) \<Longrightarrow> (\<not> b \<Longrightarrow> emits P m2) \<Longrightarrow> emits P (if b then m1 else m2)"
  by (auto simp: emits_def given_def split: option.split sum.split)

lemma emits_orElse: "emits P n \<Longrightarrow> (\<And>x. emits P (h x)) \<Longrightarrow> emits P (orElse code n h)"
  unfolding orElse_def by (intro emits_seq emits_basic)

lemmas emits_intros = emits_basic emits_seq emits_orElse

lemma emits_send:
  assumes "\<And>sink. P (SendFrame sink f)" "\<And>ch env. marshal (w_frames (de_wire E)) f = Some (be_Frame env) \<Longrightarrow> P (Publish ch env)"
  shows "emits P (sendToClient E c f)"
proof -
  have "P e" if "e \<in> set (snd (SendToClient (w_frames (de_wire E)) published i f online h))" for e published i online h
    using sent_frames [OF that] assms by auto
  then show ?thesis by (simp add: emits_def send_app list_all_iff)
qed

lemma returns_intros:
  "R x \<Longrightarrow> returns R (retD x)" "(\<And>x. returns R (k x)) \<Longrightarrow> returns R (bindD m k)"
  "(b \<Longrightarrow> returns R m1) \<Longrightarrow> (\<not> b \<Longrightarrow> returns R m2) \<Longrightarrow> returns R (if b then m1 else m2)"
  "(\<And>x. v = Some x \<Longrightarrow> returns R (g x)) \<Longrightarrow> returns R n \<Longrightarrow> returns R (case v of None \<Rightarrow> n | Some x \<Rightarrow> g x)"
  "(\<And>x. returns R (f1 x)) \<Longrightarrow> (\<And>x. returns R (f2 x)) \<Longrightarrow> returns R (case s of Inl x \<Rightarrow> f1 x | Inr x \<Rightarrow> f2 x)"
  by (simp_all add: returns_def split: option.split sum.split)

definition provision_fields :: "string list" where
  "provision_fields = [''turn'', ''backend'']"

lemma mark_other: "f \<notin> set provision_fields \<Longrightarrow> map_of (markVkTurnBackend cfg) f = map_of cfg f"
  by (auto simp: markVkTurnBackend_def provision_fields_def split: option.split)

lemma provision_other:
  assumes "f \<notin> set provision_fields"
  shows "returns (\<lambda>r. \<forall>cfg'. r = Some cfg' \<longrightarrow> map_of cfg' f = map_of cfg f) (applyProvisionToConfig E a c cfg on n)"
  unfolding applyProvisionToConfig_def Let_def
  by (intro returns_intros)
    (use assms in \<open>auto simp: mark_other provision_fields_def split: option.splits if_splits\<close>)

lemma provision_emits: "emits P (applyProvisionToConfig E a c cfg on n)"
  unfolding applyProvisionToConfig_def resolveVkTurnEndpoint_def Let_def by (intro emits_intros)

definition clean_config :: "client \<Rightarrow> message \<Rightarrow> bool" where
  "clean_config client cfg \<longleftrightarrow> map_of cfg ''guardian'' = None \<and>
     (\<not> HasRootAccess client \<longrightarrow> map_of cfg ''root'' = None \<and> map_of cfg ''sharing'' = None \<and> map_of cfg ''xposed'' = None)"

lemma clean_stamp: "clean_config c cfg \<Longrightarrow> clean_config c (stamp v cfg)"
  by (simp add: clean_config_def stamp_def)


subsection \<open>Two editors\<close>

text \<open>A stored configuration, and marks that are in order: distinct paths, none newer than the version.\<close>

definition holds_config :: "'r desk_env \<Rightarrow> string \<Rightarrow> message \<Rightarrow> int \<Rightarrow> (string \<times> int) list \<Rightarrow> store \<Rightarrow> bool" where
  "holds_config E c cfg version touched s \<longleftrightarrow> faults s = [] \<and> fk_client c s \<and>
     (\<exists>m. config_of c s = Some m \<and> w_config_of (de_wire E) (cc_config_proto m) = Some cfg \<and>
        cc_config_version m = version \<and> 0 < version \<and> version < 2 ^ 62 \<and>
        distinct (map fst (cc_touched_fields m)) \<and> map_of (cc_touched_fields m) = map_of touched \<and>
        (\<forall>p v. map_of touched p = Some v \<longrightarrow> v \<le> version))"

definition codec_lossless :: "'r desk_env \<Rightarrow> bool" where
  "codec_lossless E \<longleftrightarrow> (\<forall>m. \<exists>blob. w_config_bytes (de_wire E) m = Some blob \<and> w_config_of (de_wire E) blob = Some m)"

lemma sint_u64: "0 \<le> n \<Longrightarrow> n < 2 ^ 62 \<Longrightarrow> sint (u64_of n) = n"
  by (simp add: u64_of_def signed_of_int signed_take_bit_int_eq_self)

lemma map_of_sort_key:
  "distinct (map fst xs) \<Longrightarrow> map_of (sort_key f xs) = map_of xs"
  by (subst map_of_inject_set) (simp_all add: distinct_map inj_on_def)

lemma UpsertPatched_ok:
  assumes "faults s = []" "fk_client c s" "distinct (map fst touched)"
  shows "\<exists>v s' m. UpsertClientConfigPatched c p r touched s = (Inr v, s') \<and> faults s' = [] \<and>
    clients s' = clients s \<and> driver s' = driver s \<and> config_of c s' = Some m \<and> cc_config_proto m = p \<and>
    cc_config_version m = (case config_of c s of None \<Rightarrow> 1 | Some n \<Rightarrow> cc_config_version n + 1) \<and>
    v = u64_of (cc_config_version m) \<and>
    distinct (map fst (cc_touched_fields m)) \<and> map_of (cc_touched_fields m) = map_of touched"
proof -
  have keep: "clients (snd (UpsertClientConfig c p r s)) = clients s \<and> driver (snd (UpsertClientConfig c p r s)) = driver s"
    using assms(1,2) by (simp add: UpsertClientConfig_def bindE_def db_simps)
  obtain s1 where s1: "UpsertClientConfig c p r s = (Inr (case config_of c s of None \<Rightarrow> 1 | Some m \<Rightarrow> u64_of (cc_config_version m + 1)), s1)"
    "faults s1 = []" "config_of c s1 = Some (case config_of c s of
      None \<Rightarrow> \<lparr>cc_client_id = c, cc_config_proto = p, cc_revision = r, cc_updated_at = clock s,
              cc_config_version = 1, cc_touched_fields = []\<rparr>
    | Some m \<Rightarrow> m\<lparr>cc_config_proto := p, cc_revision := r, cc_updated_at := clock s,
                  cc_config_version := cc_config_version m + 1\<rparr>)"
    using UpsertClientConfig_ok [OF assms(1,2), of p r] by blast
  have cid: "find (\<lambda>r. cc_client_id r = c) (cconfigs s) = Some n \<Longrightarrow> cc_client_id n = c" for n by (auto simp: find_Some_iff)
  have d: "distinct (map fst (sort_key fst touched))" using assms(3) by (simp add: distinct_map)
  show ?thesis
    using s1 keep d map_of_sort_key [OF assms(3), of fst]
    by (cases "config_of c s")
      (use cid in \<open>simp_all add: UpsertClientConfigPatched_def bindE_def update_rows_ok ret_def config_of_def
        find_update_where [where key = cc_client_id] u64_of_def\<close>)
qed

lemma savePatch_ok:
  assumes f: "faults (dv_store d) = []" "fk_client (ID client) (dv_store d)" and t: "distinct (map fst (pb_touched base))"
    and c: "Conflicts (Paths (Some patch)) (pb_touched base) (pr_if_config_version req) = []"
    and a: "Apply (de_merge E) (Some (pb_stored base)) (Some patch) = Inr merged"
    and b: "codec_lossless E" and v: "0 \<le> pb_version base" "pb_version base < 2 ^ 62"
  shows "\<exists>rev ver d' m. savePatch E ip admin client patch req base d = (ConfigSaved rev (Online client) ver (Some (Paths (Some patch))), d') \<and>
    faults (dv_store d') = [] \<and> fk_client (ID client) (dv_store d') \<and> config_of (ID client) (dv_store d') = Some m \<and>
    w_config_of (de_wire E) (cc_config_proto m) = Some merged \<and>
    cc_config_version m = (case config_of (ID client) (dv_store d) of None \<Rightarrow> 1 | Some n \<Rightarrow> cc_config_version n + 1) \<and>
    distinct (map fst (cc_touched_fields m)) \<and>
    map_of (cc_touched_fields m) = map_of (Touch (pb_touched base) (Paths (Some patch)) (pb_version base + 1))"
proof -
  obtain blob where blob: "w_config_bytes (de_wire E) merged = Some blob" "w_config_of (de_wire E) blob = Some merged"
    using b by (auto simp: codec_lossless_def)
  have w: "wrap64 (pb_version base + 1) = pb_version base + 1" using v by simp
  let ?r = "revision_of req (clock (dv_store d))" and ?t = "Touch (pb_touched base) (Paths (Some patch)) (pb_version base + 1)"
  obtain ver s' m where up: "UpsertClientConfigPatched (ID client) blob ?r ?t (dv_store d) = (Inr ver, s')" "faults s' = []"
    "clients s' = clients (dv_store d)" "driver s' = driver (dv_store d)" "config_of (ID client) s' = Some m" "cc_config_proto m = blob"
    "cc_config_version m = (case config_of (ID client) (dv_store d) of None \<Rightarrow> 1 | Some n \<Rightarrow> cc_config_version n + 1)"
    "distinct (map fst (cc_touched_fields m))" "map_of (cc_touched_fields m) = map_of ?t"
    using UpsertPatched_ok [OF f touch_distinct [OF t], of blob ?r "Paths (Some patch)" "pb_version base + 1"] by blast
  have fk: "fk_client (ID client) s'" using f(2) up(3,4) by (simp add: fk_client_def)
  show ?thesis
    using up fk blob
    by (auto simp: savePatch_def c a w Let_def pushConfig_def send_app noteAudit_def audit_store
        cong: fk_client_cong config_of_cong)
qed

lemma Conflicts_set: "set (Conflicts paths touched since) =
    {q \<in> set paths. 0 < since \<and> (\<exists>v. map_of touched q = Some v \<and> since < v)}"
  by (auto simp: Conflicts_def split: option.splits)

lemma respondPatch_ok:
  assumes h: "holds_config E (ID client) stored version touched (dv_store d)" and b: "codec_lossless E" "proto_merge (de_merge E)"
    and p: "Paths (Some patch) \<noteq> []"
    and c: "\<forall>q \<in> set (Paths (Some patch)). case map_of touched q of None \<Rightarrow> True | Some v \<Rightarrow> pr_if_config_version req \<le> 0 \<or> v \<le> pr_if_config_version req"
  shows "\<exists>rev ver d' merged. respondPatchClientConfig E ip admin client patch req d =
      (ConfigSaved rev (Online client) ver (Some (Paths (Some patch))), d') \<and>
    Apply (de_merge E) (Some stored) (Some patch) = Inr merged \<and>
    (version + 1 < 2 ^ 62 \<longrightarrow>
      holds_config E (ID client) merged (version + 1) (Touch touched (Paths (Some patch)) (version + 1)) (dv_store d'))"
proof -
  obtain m where m: "faults (dv_store d) = []" "fk_client (ID client) (dv_store d)" "config_of (ID client) (dv_store d) = Some m"
    "w_config_of (de_wire E) (cc_config_proto m) = Some stored" "cc_config_version m = version" "0 < version" "version < 2 ^ 62"
    "distinct (map fst (cc_touched_fields m))" "map_of (cc_touched_fields m) = map_of touched" "\<forall>p v. map_of touched p = Some v \<longrightarrow> v \<le> version"
    using h by (auto simp: holds_config_def)
  have s: "sint (u64_of version) = version" using m(6,7) by (intro sint_u64) simp_all
  let ?base = "\<lparr>pb_stored = stored, pb_version = version, pb_touched = cc_touched_fields m\<rparr>"
  have load: "loadPatchBase E client d = (Some ?base, d)"
    using m s by (simp add: loadPatchBase_def GetClientConfig_def bindE_def find_row_ok toClientConfig_def ret_def)
  obtain merged where a: "Apply (de_merge E) (Some stored) (Some patch) = Inr merged"
    using p by (simp add: Apply_def Let_def)
  have c': "Conflicts (Paths (Some patch)) (pb_touched ?base) (pr_if_config_version req) = []"
    unfolding set_empty [symmetric] Conflicts_set using c by (auto simp: m(9) not_less split: option.splits)
  have t: "map_of (Touch (pb_touched ?base) ps v) = map_of (Touch touched ps v)" for ps v
    by (rule ext) (simp add: touch_get m(9))
  obtain rev ver d' n where r: "savePatch E ip admin client patch req ?base d = (ConfigSaved rev (Online client) ver (Some (Paths (Some patch))), d')"
    "faults (dv_store d') = []" "fk_client (ID client) (dv_store d')" "config_of (ID client) (dv_store d') = Some n"
    "w_config_of (de_wire E) (cc_config_proto n) = Some merged" "cc_config_version n = version + 1"
    "distinct (map fst (cc_touched_fields n))" "map_of (cc_touched_fields n) = map_of (Touch touched (Paths (Some patch)) (version + 1))"
    using savePatch_ok [OF m(1,2) _ c' _ b(1), where merged = merged and ip = ip and admin = admin] a m s t by auto
  have "v \<le> version + 1" if "map_of (Touch touched (Paths (Some patch)) (version + 1)) q = Some v" for q v
    using that m(10) by (auto simp: touch_get split: if_splits) (metis add.commute add_increasing zero_le_one)
  then have "version + 1 < 2 ^ 62 \<Longrightarrow> holds_config E (ID client) merged (version + 1) (Touch touched (Paths (Some patch)) (version + 1)) (dv_store d')"
    using r m(6) by (auto simp: holds_config_def)
  then show ?thesis using a r(1) p load by (auto simp: respondPatchClientConfig_def)
qed

lemma Apply_some: "Paths (Some patch) \<noteq> [] \<Longrightarrow> \<exists>merged. Apply merge (Some stored) (Some patch) = Inr merged"
  by (simp add: Apply_def Let_def)

lemma holds_marks: "holds_config E c cfg version touched s \<Longrightarrow> map_of touched p = Some v \<Longrightarrow> v \<le> version"
  by (auto simp: holds_config_def)

lemma first_edit:
  assumes h: "holds_config E (ID client) stored version touched (dv_store d)" and b: "codec_lossless E" "proto_merge (de_merge E)"
    and p: "Paths (Some patch) \<noteq> []" and since: "pr_if_config_version req = version"
  shows "\<exists>rev ver d' merged. respondPatchClientConfig E ip admin client patch req d =
      (ConfigSaved rev (Online client) ver (Some (Paths (Some patch))), d') \<and>
    Apply (de_merge E) (Some stored) (Some patch) = Inr merged \<and>
    (version + 1 < 2 ^ 62 \<longrightarrow>
      holds_config E (ID client) merged (version + 1) (Touch touched (Paths (Some patch)) (version + 1)) (dv_store d'))"
proof (rule respondPatch_ok [OF h b p])
  show "\<forall>q \<in> set (Paths (Some patch)). case map_of touched q of None \<Rightarrow> True
      | Some v \<Rightarrow> pr_if_config_version req \<le> 0 \<or> v \<le> pr_if_config_version req"
    using holds_marks [OF h] since by (simp split: option.split)
qed


text \<open>Two editors who touch the same field are told so. If the second patch, opened on the same version, shares
  fields with the one already saved, it is refused with exactly the shared fields and nothing changes.
\<close>
theorem edit_clash_named:
  assumes h: "holds_config E (ID client) stored version touched (dv_store d)" "version + 2 < 2 ^ 62"
    and codec: "codec_lossless E" "proto_merge (de_merge E)"
    and since: "pr_if_config_version reqA = version" "pr_if_config_version reqB = version"
    and paths: "Paths (Some A) \<noteq> []" "set (Paths (Some A)) \<inter> set (Paths (Some B)) \<noteq> {}"
  shows "\<exists>d1 fields. snd (respondPatchClientConfig E ipA adminA client A reqA d) = d1 \<and>
    respondPatchClientConfig E ipB adminB client B reqB d1 = (FieldsClash fields (version + 1), d1) \<and>
    set fields = set (Paths (Some A)) \<inter> set (Paths (Some B))"
proof -
  obtain revA verA d1 m1 where A: "respondPatchClientConfig E ipA adminA client A reqA d = (ConfigSaved revA (Online client) verA (Some (Paths (Some A))), d1)"
    "holds_config E (ID client) m1 (version + 1) (Touch touched (Paths (Some A)) (version + 1)) (dv_store d1)"
    using first_edit [OF h(1) codec paths(1) since(1), where ip = ipA and admin = adminA] h(2) by auto
  obtain m where m: "faults (dv_store d1) = []" "config_of (ID client) (dv_store d1) = Some m" "w_config_of (de_wire E) (cc_config_proto m) = Some m1"
    "cc_config_version m = version + 1" "0 < version" "map_of (cc_touched_fields m) = map_of (Touch touched (Paths (Some A)) (version + 1))"
    using A(2) h(1) by (auto simp: holds_config_def)
  let ?base = "\<lparr>pb_stored = m1, pb_version = version + 1, pb_touched = cc_touched_fields m\<rparr>"
  let ?fields = "Conflicts (Paths (Some B)) (cc_touched_fields m) (pr_if_config_version reqB)"
  have s: "sint (u64_of (version + 1)) = version + 1" using m(5) h(2) by (intro sint_u64) simp_all
  have load: "loadPatchBase E client d1 = (Some ?base, d1)"
    using m s by (simp add: loadPatchBase_def GetClientConfig_def bindE_def find_row_ok toClientConfig_def ret_def)
  have f: "set ?fields = set (Paths (Some A)) \<inter> set (Paths (Some B))"
    using holds_marks [OF h(1)] m(5) unfolding Conflicts_set since(2) m(6) by (fastforce simp: touch_get split: if_splits)
  then have "?fields \<noteq> []" using paths(2) by force
  moreover have "Paths (Some B) \<noteq> []" using paths(2) by auto
  ultimately have "respondPatchClientConfig E ipB adminB client B reqB d1 = (FieldsClash ?fields (version + 1), d1)"
    using load by (simp add: respondPatchClientConfig_def savePatch_def Let_def)
  then show ?thesis using A(1) f by auto
qed

text \<open>A patch that is decided on while another is being saved undoes it. If the second editor's handler reads
  the configuration, the first editor's request runs to its end, and the second handler then writes, both are
  told their edit is saved, but the first editor's fields are back to what they were, with no mark left.
\<close>
theorem racing_edit_lost:
  assumes h: "holds_config E (ID client) stored version touched (dv_store d)" "version + 2 < 2 ^ 62"
    and codec: "codec_lossless E" "proto_merge (de_merge E)"
    and ty: "well_typed D (Nested T) (Message stored)" "well_typed D (Nested T) (Message B)"
    and since: "pr_if_config_version reqA = version" "pr_if_config_version reqB = version"
    and paths: "Paths (Some A) \<noteq> []" "Paths (Some B) \<noteq> []"
  shows "\<exists>base revA verA d1 revB verB d2 cfg marks.
    loadPatchBase E client d = (Some base, d) \<and>
    respondPatchClientConfig E ipA adminA client A reqA d = (ConfigSaved revA (Online client) verA (Some (Paths (Some A))), d1) \<and>
    savePatch E ipB adminB client B reqB base d1 = (ConfigSaved revB (Online client) verB (Some (Paths (Some B))), d2) \<and>
    (\<exists>m. config_of (ID client) (dv_store d2) = Some m \<and> w_config_of (de_wire E) (cc_config_proto m) = Some cfg \<and>
       map_of (cc_touched_fields m) = marks) \<and>
    (\<forall>p. service_field [] (hd p) \<or> leaf B p \<noteq> None \<or> leaf cfg p = leaf stored p) \<and>
    (\<forall>q. q \<in> set (Paths (Some B)) \<or> marks q = map_of touched q)"
proof -
  obtain m where m: "faults (dv_store d) = []" "config_of (ID client) (dv_store d) = Some m" "w_config_of (de_wire E) (cc_config_proto m) = Some stored"
    "cc_config_version m = version" "0 < version" "distinct (map fst (cc_touched_fields m))" "map_of (cc_touched_fields m) = map_of touched"
    using h(1) by (auto simp: holds_config_def)
  let ?base = "\<lparr>pb_stored = stored, pb_version = version, pb_touched = cc_touched_fields m\<rparr>"
  have load: "loadPatchBase E client d = (Some ?base, d)"
    using m h(2) sint_u64 [of version] by (simp add: loadPatchBase_def GetClientConfig_def bindE_def find_row_ok toClientConfig_def ret_def)
  obtain revA verA d1 m1 where A: "respondPatchClientConfig E ipA adminA client A reqA d = (ConfigSaved revA (Online client) verA (Some (Paths (Some A))), d1)"
    "holds_config E (ID client) m1 (version + 1) (Touch touched (Paths (Some A)) (version + 1)) (dv_store d1)"
    using first_edit [OF h(1) codec paths(1) since(1), where ip = ipA and admin = adminA] h(2) by auto
  obtain cfg where cfg: "Apply (de_merge E) (Some (pb_stored ?base)) (Some B) = Inr cfg" using Apply_some [OF paths(2)] by auto
  have "Conflicts (Paths (Some B)) (pb_touched ?base) (pr_if_config_version reqB) = []"
    unfolding set_empty [symmetric] Conflicts_set using holds_marks [OF h(1)] by (fastforce simp: m(7) since(2))
  from savePatch_ok [OF _ _ _ this cfg codec(1), where d = d1 and client = client and ip = ipB and admin = adminB] A(2) m h(2)
  obtain revB verB d2 n where B: "savePatch E ipB adminB client B reqB ?base d1 = (ConfigSaved revB (Online client) verB (Some (Paths (Some B))), d2)"
    "config_of (ID client) (dv_store d2) = Some n" "w_config_of (de_wire E) (cc_config_proto n) = Some cfg"
    "map_of (cc_touched_fields n) = map_of (Touch (cc_touched_fields m) (Paths (Some B)) (version + 1))"
    by (auto simp: holds_config_def)
  have "leaf cfg p = leaf stored p" if "\<not> service_field [] (hd p)" "leaf B p = None" for p
    using leaf_of_Apply [OF codec(2) ty _ that(1)] cfg that(2) by simp
  moreover have "map_of (cc_touched_fields n) q = map_of touched q" if "q \<notin> set (Paths (Some B))" for q
    using B(4) that by (simp add: touch_get m(7))
  ultimately show ?thesis using load A(1) B(1-3)
    by (intro exI [of _ ?base] exI [of _ revA] exI [of _ verA] exI [of _ d1] exI [of _ revB] exI [of _ verB] exI [of _ d2]
        exI [of _ cfg] exI [of _ "map_of (cc_touched_fields n)"]) auto
qed

text \<open>A full save leaves no trace for the conflict check. If one administrator saves the whole configuration, an
  editor who opened the version before it and then patches a field is not told: the patch is accepted and
  overwrites what the full save put there.
\<close>
theorem full_save_unmarked:
  assumes h: "holds_config E (ID client) stored version touched (dv_store d)" "version + 2 < 2 ^ 62"
    and codec: "codec_lossless E" "proto_merge (de_merge E)"
    and full: "pr_config reqA = Some cfgA" "\<not> pr_patch reqA" "pr_provision reqA = None" "map_of cfgA ''guardian'' = None" "HasRootAccess client"
    and ty: "well_typed D (Nested T) (Message cfgA)" "well_typed D (Nested T) (Message B)" "leaf B p = Some v" "\<not> service_field [] (hd p)"
    and since: "pr_if_config_version reqB = version" and paths: "Paths (Some B) \<noteq> []"
  shows "\<exists>revA verA d1 revB verB d2 saved cfg marks.
    respondPushClientConfig E ipA adminA client (Some reqA) d = (ConfigSaved revA (Online client) verA None, d1) \<and>
    (\<forall>f. map_of saved f = map_of cfgA f) \<and> holds_config E (ID client) saved (version + 1) touched (dv_store d1) \<and>
    respondPatchClientConfig E ipB adminB client B reqB d1 = (ConfigSaved revB (Online client) verB (Some (Paths (Some B))), d2) \<and>
    holds_config E (ID client) cfg (version + 2) marks (dv_store d2) \<and> leaf cfg p = Some v"
proof -
  obtain m where m: "faults (dv_store d) = []" "fk_client (ID client) (dv_store d)" "config_of (ID client) (dv_store d) = Some m"
    "cc_config_version m = version" "0 < version" "distinct (map fst (cc_touched_fields m))" "map_of (cc_touched_fields m) = map_of touched"
    using h(1) by (auto simp: holds_config_def)
  let ?saved = "set_message ''guardian'' None cfgA"
  have same: "map_of ?saved f = map_of cfgA f" for f using full(4) by auto
  obtain blob where blob: "w_config_bytes (de_wire E) ?saved = Some blob" "w_config_of (de_wire E) blob = Some ?saved"
    using codec(1) by (auto simp: codec_lossless_def)
  let ?r = "revision_of reqA (clock (dv_store d))"
  obtain s' where s': "UpsertClientConfig (ID client) blob ?r (dv_store d) = (Inr (u64_of (version + 1)), s')" "faults s' = []"
      "config_of (ID client) s' = Some (m\<lparr>cc_config_proto := blob, cc_revision := ?r, cc_updated_at := clock (dv_store d),
        cc_config_version := version + 1\<rparr>)"
    using UpsertClientConfig_ok [OF m(1,2), of blob ?r] m(3,4) by auto
  have keep: "clients s' = clients (dv_store d)" "driver s' = driver (dv_store d)"
    using s'(1) m(1,2) by (auto simp: UpsertClientConfig_def bindE_def db_simps)
  have fk: "fk_client (ID client) s'" using m(2) keep by (simp add: fk_client_def)
  obtain d1 where d1: "respondPushClientConfig E ipA adminA client (Some reqA) d = (ConfigSaved ?r (Online client) (u64_of (version + 1)) None, d1)"
    "dv_store d1 = s'"
    using full blob s' by (simp add: respondPushClientConfig_def Let_def pushConfig_def send_app)
  have h1: "holds_config E (ID client) ?saved (version + 1) touched (dv_store d1)"
    using d1(2) s' fk blob(2) m h(2) holds_marks [OF h(1)] by (fastforce simp: holds_config_def)
  have free: "\<forall>q \<in> set (Paths (Some B)). case map_of touched q of None \<Rightarrow> True
      | Some v \<Rightarrow> pr_if_config_version reqB \<le> 0 \<or> v \<le> pr_if_config_version reqB"
    using holds_marks [OF h(1)] since by (simp split: option.split)
  obtain revB verB d2 cfg where B: "respondPatchClientConfig E ipB adminB client B reqB d1 = (ConfigSaved revB (Online client) verB (Some (Paths (Some B))), d2)"
    "Apply (de_merge E) (Some ?saved) (Some B) = Inr cfg"
    "holds_config E (ID client) cfg (version + 1 + 1) (Touch touched (Paths (Some B)) (version + 1 + 1)) (dv_store d2)"
    using respondPatch_ok [OF h1 codec paths free, where ip = ipB and admin = adminB] h(2) by auto
  have "well_typed D (Nested T) (Message ?saved)"
    using ty(1) distinct_with_field [of cfgA "''guardian''" None] full(4)
    by (auto simp: set_message_def with_field_def AList.delete_eq)
  then have "leaf cfg p = Some v" using leaf_of_Apply [OF codec(2) _ ty(2) B(2) ty(4)] ty(3) by simp
  moreover have "version + 1 + 1 = version + 2" by simp
  ultimately show ?thesis using d1(1) same h1 B(1,3) by metis
qed

text \<open>A read that fails costs the device its configuration. If the database refuses just the read of the stored
  configuration, the patch is not refused: it is applied to an empty configuration, and what is stored over the
  old one has the patch's fields and nothing else.
\<close>
theorem patch_over_fault:
  assumes h: "faults (dv_store d) = [True]" "fk_client (ID client) (dv_store d)" and codec: "codec_lossless E" "proto_merge (de_merge E)"
    and ty: "well_typed D (Nested T) (Message patch)" "D T ''ver'' = Some Plain" and paths: "Paths (Some patch) \<noteq> []"
  shows "\<exists>rev ver d' m cfg. respondPatchClientConfig E ip admin client patch req d =
      (ConfigSaved rev (Online client) ver (Some (Paths (Some patch))), d') \<and>
    config_of (ID client) (dv_store d') = Some m \<and> w_config_of (de_wire E) (cc_config_proto m) = Some cfg \<and>
    (\<forall>p. service_field [] (hd p) \<or> leaf cfg p = leaf patch p)"
proof -
  let ?d = "d\<lparr>dv_store := (dv_store d)\<lparr>faults := []\<rparr>\<rparr>" and ?base = "\<lparr>pb_stored = new_config, pb_version = 0, pb_touched = []\<rparr>"
  have load: "loadPatchBase E client d = (Some ?base, ?d)"
    using h(1) by (simp add: loadPatchBase_def GetClientConfig_def bindE_def find_row_def query_first_def stmt_def)
  obtain cfg where cfg: "Apply (de_merge E) (Some (pb_stored ?base)) (Some patch) = Inr cfg" using Apply_some [OF paths] by auto
  have fk: "fk_client (ID client) (dv_store ?d)" using h(2) by (simp add: fk_client_def)
  have c: "Conflicts (Paths (Some patch)) (pb_touched ?base) (pr_if_config_version req) = []" by (simp add: Conflicts_def)
  obtain rev ver d' m where r: "savePatch E ip admin client patch req ?base ?d = (ConfigSaved rev (Online client) ver (Some (Paths (Some patch))), d')"
    "config_of (ID client) (dv_store d') = Some m" "w_config_of (de_wire E) (cc_config_proto m) = Some cfg"
    using savePatch_ok [OF _ fk _ c cfg codec(1), where ip = ip and admin = admin] by auto
  have new: "well_typed D (Nested T) (Message new_config)" using ty(2) by (simp add: new_config_def)
  have "leaf cfg p = leaf patch p" if "\<not> service_field [] (hd p)" for p
  proof -
    have "leaf new_config p = None" using that by (cases "(new_config, p)" rule: leaf.cases) (auto simp: new_config_def service_field_def)
    then show ?thesis using leaf_of_Apply [OF codec(2) new ty(1) _ that] cfg by (simp split: option.split)
  qed
  then show ?thesis using r load paths by (auto simp: respondPatchClientConfig_def)
qed

subsection \<open>What the patch path lets out\<close>

lemma savePatch_out:
  assumes "fst (savePatch E ip admin client patch req base d) = ConfigSaved rv on ver paths"
  shows "dv_out (snd (savePatch E ip admin client patch req base d)) = dv_out d @
    snd (SendToClient (w_frames (de_wire E)) (de_published E) (ID client) (ConfigPush (stamp ver patch) rv) (Online client) (dv_hub d))"
  using assms by (auto simp: savePatch_def Let_def given_def pushConfig_def send_app noteAudit_def split: if_splits sum.splits option.splits)

text \<open>C27: The patch path has none of the guards of the full save. A patch that carries a Guardian block, or a
  root-only block for a device without root, is accepted, and the connected device is pushed that block as sent.
\<close>
theorem patch_pushes_guardian:
  assumes h: "holds_config E (ID client) stored version touched (dv_store d)" and codec: "codec_lossless E" "proto_merge (de_merge E)"
    and req: "pr_config req = Some patch" "pr_patch req" "pr_if_config_version req = version" and paths: "Paths (Some patch) \<noteq> []"
    and sink: "ClientSink (ID client) (dv_hub d) = Some sink" and f: "f \<in> {''guardian'', ''root'', ''sharing'', ''xposed''}"
  shows "\<exists>cfg revision. SendFrame sink (ConfigPush cfg revision) \<in> set (dv_out (snd (respondPushClientConfig E ip admin client (Some req) d))) \<and>
    map_of cfg f = map_of patch f"
proof -
  obtain rv ver d' where r: "respondPatchClientConfig E ip admin client patch req d = (ConfigSaved rv (Online client) ver (Some (Paths (Some patch))), d')"
    using first_edit [OF h codec paths req(3), where ip = ip and admin = admin] by blast
  obtain base where load: "loadPatchBase E client d = (Some base, snd (loadPatchBase E client d))"
    using r paths by (cases "loadPatchBase E client d") (auto simp: respondPatchClientConfig_def given_def split: option.splits)
  have hub: "dv_hub (snd (loadPatchBase E client d)) = dv_hub d" by (simp add: loadPatchBase_def)
  have s: "savePatch E ip admin client patch req base (snd (loadPatchBase E client d)) = (ConfigSaved rv (Online client) ver (Some (Paths (Some patch))), d')"
    using r paths arg_cong [OF load, of fst] by (simp add: respondPatchClientConfig_def)
  have "SendFrame sink (ConfigPush (stamp ver patch) rv) \<in> set (dv_out d')"
    using savePatch_out [of E ip admin client patch req base "snd (loadPatchBase E client d)" rv] s hub sink
    by (simp add: SendToClient_def)
  moreover have "map_of (stamp ver patch) f = map_of patch f" using f by (auto simp: stamp_def)
  ultimately show ?thesis using r req by (auto simp: respondPushClientConfig_def)
qed

subsection \<open>Relays\<close>

text \<open>A device is only ever pointed at a relay its administrator may use. Whenever a relay is resolved, it is a
  registered VK-TURN node that belongs to the administrator, or to the panel itself if the administrator is its
  owner, and the endpoint is that node's.
\<close>
theorem relay_only_if_allowed:
  assumes "fst (resolveVkTurnEndpoint E admin nodeID d) = Some endpoint" "endpoint \<noteq> []"
  shows "\<exists>node. node_by_id (trim_space nodeID) (dv_store d) = Some node \<and> nd_kind node = ServerNodeVKTurnProxy \<and>
    (nd_owner node = a_id admin \<or> IsOwner admin \<and> nd_owner node = 0) \<and> endpoint = relay_endpoint E node"
proof -
  obtain r s' where q: "GetServerNode (trim_space nodeID) (dv_store d) = (r, s')" by fastforce
  then have "r = Inr n \<Longrightarrow> node_by_id (trim_space nodeID) (dv_store d) = Some n" for n
    by (auto simp: GetServerNode_def find_row_def query_first_def stmt_def node_by_id_def split: list.splits if_splits option.splits error.splits sum.splits prod.splits)
  then show ?thesis using assms q by (auto simp: resolveVkTurnEndpoint_def Let_def split: sum.splits if_splits)
qed

subsection \<open>Commands to a device that is away\<close>

lemma enqueueTimes_ok: "faults s = [] \<Longrightarrow> fk_client c s \<Longrightarrow>
    \<exists>s' new. enqueueTimes n c k sub s = (Inr n, s') \<and> faults s' = [] \<and> fk_client c s' \<and> pending s' = pending s @ new \<and> length new = n \<and>
      (\<forall>r \<in> set new. pc_client_id r = c \<and> pc_command_type r = k)"
proof (induction n arbitrary: s)
  case (Suc n)
  let ?row = "\<lparr>pc_id = pending_seq s, pc_client_id = c, pc_command_type = k, pc_subscription_id = sub, pc_queued_at = clock s,
      pc_expires_at = clock s + defaultPendingCommandTTL\<rparr>"
  let ?s = "s\<lparr>pending := pending s @ [?row], pending_seq := pending_seq s + 1\<rparr>"
  have "EnqueuePendingCommand c k sub s = (Inr (pending_seq s), ?s)"
    using Suc.prems by (simp add: EnqueuePendingCommand_def EnqueuePendingCommandWithTTL_def create_pending_def bindE_def asks_def stmt_def)
  moreover have "faults ?s = []" "fk_client c ?s" using Suc.prems by (simp_all add: fk_client_def)
  ultimately show ?case using Suc.IH [of ?s] by (fastforce simp: bindE_def ret_def)
qed (simp add: ret_def)

lemma dedup_ok: "faults s = [] \<Longrightarrow> fk_client c s \<Longrightarrow>
    \<exists>b s' new. EnqueuePendingCommandDedup c k sub s = (Inr b, s') \<and> pending s' = pending s @ new \<and> length new = (if snd b then 1 else 0) \<and>
      (\<forall>r \<in> set new. pc_client_id r = c \<and> pc_command_type r = k)"
  by (auto simp: EnqueuePendingCommandDedup_def EnqueuePendingCommand_def EnqueuePendingCommandWithTTL_def create_pending_def bindE_def
      asks_def select_def stmt_def ret_def)

text \<open>A command to a device that is away is queued or refused, never both and never lost in silence. A command of
  the four queueable kinds answers with how many rows it added for that device, at most fifty whatever the count
  asked for; any other answers 503 and leaves everything as it was.
\<close>
theorem offline_command_queued:
  assumes f: "faults (dv_store d) = []" "fk_client (ID client) (dv_store d)" and away: "ClientSink (ID client) (dv_hub d) = None" "\<not> Online client"
    and c: "parseCommandType name = Some k"
  shows "\<exists>reply d'. respondCommand E (Some draw) client (Some (name, n)) d = (reply, d') \<and>
    (if k \<in> set queueableCommands
     then \<exists>q new. reply = CommandQueued q \<and> q \<le> 50 \<and> length new = q \<and> pending (dv_store d') = pending (dv_store d) @ new \<and>
       (\<forall>r \<in> set new. pc_client_id r = ID client \<and> pc_command_type r = k)
     else reply = Failed 503 \<and> d' = d)"
proof -
  have quiet: "sendToClient E client fr d = (False, d)" for fr using away by (simp add: sendToClient_def SendToClient_def)
  show ?thesis
  proof (cases "k = COMMAND_GENERATE_VK_LINK")
    case True
    define m where "m = (if (if n \<le> 0 then 1 else n) > maxQueuedGenerateVkLinkCount then maxQueuedGenerateVkLinkCount else (if n \<le> 0 then 1 else n))"
    have "nat m \<le> 50" by (auto simp: m_def maxQueuedGenerateVkLinkCount_def)
    moreover obtain s' new where "enqueueTimes (nat m) (ID client) k [] (dv_store d) = (Inr (nat m), s')" "pending s' = pending (dv_store d) @ new"
      "length new = nat m" "\<forall>r \<in> set new. pc_client_id r = ID client \<and> pc_command_type r = k"
      using enqueueTimes_ok [OF f] by blast
    ultimately show ?thesis using True c quiet
      by (auto simp: respondCommand_def GenerateClientID_def enqueueOfflineCommand_def Let_def m_def queueableCommands_def)
  next
    case False
    obtain b s' new where "EnqueuePendingCommandDedup (ID client) k [] (dv_store d) = (Inr b, s')" "pending s' = pending (dv_store d) @ new"
      "length new = (if snd b then 1 else 0)" "\<forall>r \<in> set new. pc_client_id r = ID client \<and> pc_command_type r = k"
      using dedup_ok [OF f] by blast
    then show ?thesis using False c quiet
      by (cases b) (auto simp: respondCommand_def GenerateClientID_def enqueueOfflineCommand_def Let_def bindE_def ret_def queueableCommands_def)
  qed
qed

subsection \<open>Creating a device\<close>

lemma CreateClient_ok:
  assumes "faults s = []" "client_by_id i s = None" "fk_admin owner s"
  shows "CreateClient i owner name h tok s = (Inr (toStorageClient (new_client_row i owner name h tok (clock s))),
    s\<lparr>clients := clients s @ [new_client_row i owner name h tok (clock s)]\<rparr>)"
proof -
  let ?row = "new_client_row i owner name h tok (clock s)"
  have n: "find (\<lambda>r. cl_id r = i) (clients s) = None" using assms(2) by (simp add: client_by_id_def)
  have "cl_id ?row = i" by (simp add: new_client_row_def)
  then have "find (\<lambda>r. cl_id r = i) (clients s @ [?row]) = Some ?row" by (simp add: find_append_cases n)
  moreover have "i \<notin> cl_id ` set (clients s)" using n by (auto simp: find_None_iff)
  ultimately show ?thesis using assms
    by (simp add: CreateClient_def bindE_def asks_def insert_row_def stmt_def FindClientByID_ok client_by_id_def)
qed

text \<open>The first part of a creation: the row is in, and the update of its mode succeeds unless it changes nothing on MariaDB.\<close>

lemma create_row_app:
  fixes d i admin req h token
  defines "row \<equiv> new_client_row i (a_id admin) (trim_space (cr_name req)) h token (clock (dv_store d))"
  defines "mode \<equiv> (\<lambda>r. r\<lparr>cl_sync_mode := normalizeSyncMode (cr_sync_mode req), cl_periodic_minutes := if cr_periodic req \<le> 0 then 30 else cr_periodic req\<rparr>)"
  assumes f: "faults (dv_store d) = []" "client_by_id i (dv_store d) = None" "fk_admin (a_id admin) (dv_store d)"
  shows "create_row E admin req i token h k d =
    (if driver (dv_store d) = DriverMySQL \<and> mode row = row then (Failed 500, d\<lparr>dv_store := (dv_store d)\<lparr>clients := clients (dv_store d) @ [row]\<rparr>\<rparr>)
     else k () (d\<lparr>dv_store := (dv_store d)\<lparr>clients := clients (dv_store d) @ [mode row]\<rparr>\<rparr>))"
proof -
  have n: "\<forall>r \<in> set (clients (dv_store d)). cl_id r \<noteq> i" using f(2) by (auto simp: client_by_id_def find_None_iff)
  have own: "owned i (a_id admin) row" by (simp add: row_def owned_def new_client_row_def)
  have other: "update_where (owned i (a_id admin)) mode (clients (dv_store d) @ [row]) = clients (dv_store d) @ [mode row]"
    using n own by (auto simp: update_where_def owned_def intro: map_idI)
  have "filter (\<lambda>r. owned i (a_id admin) r \<and> Q r) (clients (dv_store d)) = []" for Q
    using n by (auto simp: filter_empty_conv owned_def)
  then have aff: "affected dr (owned i (a_id admin)) mode (clients (dv_store d) @ [row]) = (if dr = DriverMySQL \<and> mode row = row then 0 else 1)" for dr
    using own by (auto simp: affected_def)
  have m: "normalizeSyncMode (cr_sync_mode req) \<noteq> []" "(if cr_periodic req \<le> 0 then 30 else cr_periodic req) > 0"
    by (simp_all add: normalizeSyncMode_def Let_def)
  have upd: "UpdateClientSync i (a_id admin) (normalizeSyncMode (cr_sync_mode req)) (if cr_periodic req \<le> 0 then 30 else cr_periodic req) =
      bindE (update_rows clients clients_update (owned i (a_id admin)) mode) require_affected"
    using m by (simp add: UpdateClientSync_def Let_def mode_def)
  let ?s = "(dv_store d)\<lparr>clients := clients (dv_store d) @ [row]\<rparr>"
  have "bindE (update_rows clients clients_update (owned i (a_id admin)) mode) require_affected ?s =
      (if driver (dv_store d) = DriverMySQL \<and> mode row = row then (Inl ErrNotFound, ?s)
       else (Inr (), (dv_store d)\<lparr>clients := clients (dv_store d) @ [mode row]\<rparr>))"
    using f(1) other by (auto simp: bindE_def update_rows_ok aff require_affected_def fail_def ret_def)
  then show ?thesis
    using CreateClient_ok [OF f, of "trim_space (cr_name req)" h token] upd
    by (simp add: create_row_def row_def [symmetric])
qed

text \<open>On MariaDB a device with the default synchronisation cannot be created. The row is inserted with the mode
  and interval that the next statement sets again; that update changes nothing, counts as no row and is taken for
  a missing device, so the request fails with 500 and the half-made device, token and all, stays in the database.
\<close>
theorem creation_fails_on_mariadb:
  assumes f: "faults (dv_store d) = []" "client_by_id (hex_encode i) (dv_store d) = None" "fk_admin (a_id admin) (dv_store d)"
    and my: "driver (dv_store d) = DriverMySQL" and name: "trim_space (cr_name req) \<noteq> []"
    and sync: "normalizeSyncMode (cr_sync_mode req) = ''always''" "cr_periodic req \<le> 0 \<or> cr_periodic req = 30"
  shows "\<exists>d' m. handleCreateClient E saturated (Some i) (Some token) admin (Some req) d = (Failed 500, d') \<and>
    client_by_id (hex_encode i) (dv_store d') = Some m \<and> cl_owner m = a_id admin \<and> cl_token_plain m = token"
proof -
  let ?h = "HashClientToken (w_crypto (de_wire E)) token"
  let ?row = "new_client_row (hex_encode i) (a_id admin) (trim_space (cr_name req)) ?h token (clock (dv_store d))"
  have same: "?row\<lparr>cl_sync_mode := normalizeSyncMode (cr_sync_mode req), cl_periodic_minutes := if cr_periodic req \<le> 0 then 30 else cr_periodic req\<rparr> = ?row"
    using sync by (auto simp: new_client_row_def)
  have "find (\<lambda>r. cl_id r = hex_encode i) (clients (dv_store d)) = None" using f(2) by (simp add: client_by_id_def)
  then have "find (\<lambda>r. cl_id r = hex_encode i) (clients (dv_store d) @ [?row]) = Some ?row"
    by (simp add: find_append_cases new_client_row_def)
  then show ?thesis
    using my name same
    by (simp add: handleCreateClient_def GenerateClientID_def GenerateClientToken_def create_row_app [OF f] client_by_id_def)
      (simp add: new_client_row_def)
qed

text \<open>A refused creation is not undone. If the seed device does not exist the request is refused with 400, but
  the new device is already in the database with its owner and its token.
\<close>
theorem refused_creation_leaves_device:
  assumes f: "faults (dv_store d) = []" "client_by_id (hex_encode i) (dv_store d) = None" "fk_admin (a_id admin) (dv_store d)"
    and dr: "driver (dv_store d) \<noteq> DriverMySQL" and name: "trim_space (cr_name req) \<noteq> []"
    and seed: "trim_space (cr_seed_from_client_id req) = c0" "c0 \<noteq> []" "c0 \<noteq> hex_encode i" "client_by_id c0 (dv_store d) = None"
  shows "\<exists>d' m. handleCreateClient E saturated (Some i) (Some token) admin (Some req) d = (Failed 400, d') \<and>
    client_by_id (hex_encode i) (dv_store d') = Some m \<and> cl_owner m = a_id admin \<and> cl_token_plain m = token"
proof -
  let ?h = "HashClientToken (w_crypto (de_wire E)) token"
  define row where "row = (new_client_row (hex_encode i) (a_id admin) (trim_space (cr_name req)) ?h token (clock (dv_store d)))\<lparr>cl_sync_mode :=
    normalizeSyncMode (cr_sync_mode req), cl_periodic_minutes := if cr_periodic req \<le> 0 then 30 else cr_periodic req\<rparr>"
  let ?d = "d\<lparr>dv_store := (dv_store d)\<lparr>clients := clients (dv_store d) @ [row]\<rparr>\<rparr>"
  have row: "cl_id row = hex_encode i" "cl_owner row = a_id admin" "cl_token_plain row = token" by (simp_all add: row_def new_client_row_def)
  have none: "find (\<lambda>r. cl_id r = hex_encode i) (clients (dv_store d)) = None" "find (\<lambda>r. cl_id r = c0) (clients (dv_store d)) = None"
    using f(2) seed(4) by (simp_all add: client_by_id_def)
  have "client_by_id c0 (dv_store ?d) = None" "client_by_id (hex_encode i) (dv_store ?d) = Some row"
    using none seed(3) row(1) by (simp_all add: client_by_id_def find_append_cases)
  moreover have "create_rest E saturated admin req (hex_encode i) token ?d = (Failed 400, ?d)"
    using f(1) seed(1,2) \<open>client_by_id c0 (dv_store ?d) = None\<close>
    by (simp add: create_rest_def resolveSeedConfig_def Let_def FindClientByID_ok)
  ultimately show ?thesis
    using dr name row
    by (simp add: handleCreateClient_def GenerateClientID_def GenerateClientToken_def create_row_app [OF f] row_def [symmetric])
qed

lemma setting_read_ok: "faults s = [] \<Longrightarrow> \<exists>r. GetPlatformSetting k v s = (r, s)"
  by (simp add: GetPlatformSetting_def bindE_def attempt_app query_first_ok ret_def split: option.split)

lemma create_rest_seeded:
  assumes f: "faults (dv_store d) = []" "client_by_id i (dv_store d) = Some row" "config_of i (dv_store d) = None"
    and seed: "resolveSeedConfig E req admin d = (Some (Some cfg0), d)" and relay: "trim_space (cr_vk_turn_node_id req) = []"
    and rest: "codec_lossless E" "cr_remote_control req \<noteq> Some False"
  shows "\<exists>m. config_of i (dv_store (snd (create_rest E saturated admin req i token d))) = Some m \<and>
    w_config_of (de_wire E) (cc_config_proto m) = Some cfg0"
proof -
  obtain blob where blob: "w_config_bytes (de_wire E) cfg0 = Some blob" "w_config_of (de_wire E) blob = Some cfg0"
    using rest(1) by (auto simp: codec_lossless_def)
  have fk: "fk_client i (dv_store d)" using f(2) by (rule client_by_id_fk)
  obtain s' where s': "UpsertClientConfig i blob ''1'' (dv_store d) = (Inr 1, s')" "faults s' = []"
      "config_of i s' = Some \<lparr>cc_client_id = i, cc_config_proto = blob, cc_revision = ''1'', cc_updated_at = clock (dv_store d),
        cc_config_version = 1, cc_touched_fields = []\<rparr>"
    using UpsertClientConfig_ok [OF f(1) fk, of blob "''1''"] f(3) by auto
  define s2 where "s2 = snd (SetClientRemoteControl i (a_id admin) True s')"
  have rc: "SetClientRemoteControl i (a_id admin) True s' = (Inr (), s2)" "faults s2 = []" "config_of i s2 = config_of i s'"
    using s'(2) by (simp_all add: s2_def SetClientRemoteControl_def bindE_def update_rows_ok ret_def config_of_def)
  have ctl: "(case cr_remote_control req of None \<Rightarrow> True | Some b \<Rightarrow> b) = True"
    using rest(2) by (cases "cr_remote_control req") auto
  obtain r where r: "GetPlatformSetting SettingLinkFormat LinkFormatBrotli s2 = (r, s2)" using setting_read_ok [OF rc(2)] by blast
  let ?d2 = "d\<lparr>dv_store := s2\<rparr>"
  have link: "snd (buildClientLink E i (trim_space (cr_name req)) token mode period admin True [] ?d2) = ?d2" for mode period
    using r by (simp add: buildClientLink_def buildLink_def)
  have find: "snd (FindClientByID i s2) = s2" using rc(2) by (simp add: FindClientByID_ok)
  have last: "dv_store (snd (given 400 x (\<lambda>l. orElse 500 (dbD (FindClientByID i)) (\<lambda>c. retD (Created c l token))) ?d2)) = s2" for x
    using find by (cases x) (simp_all split: sum.split)
  have "dv_store (snd (create_rest E saturated admin req i token d)) = s2"
    unfolding create_rest_def using seed relay blob(1) s'(1) rc(1)
    by (simp add: resolveVkTurnEndpoint_def create_config_def managedTurn_def create_limit_def ctl link last del: step_app(1))
      (simp add: link last)
  then show ?thesis using rc(3) s'(3) blob(2) by simp
qed

text \<open>Seeding a device from another hands out the other's credentials. If the administrator copies the
  configuration of an existing device and picks no relay, the new device's stored configuration holds the VK-TURN
  section of the old one unchanged: its managed profile with the other device's id and provisioning token.
\<close>
theorem seed_copies_token:
  assumes f: "faults (dv_store d) = []" "client_by_id (hex_encode i) (dv_store d) = None" "fk_admin (a_id admin) (dv_store d)"
    and dr: "driver (dv_store d) \<noteq> DriverMySQL" "config_of (hex_encode i) (dv_store d) = None" and name: "trim_space (cr_name req) \<noteq> []"
    and seed: "trim_space (cr_seed_from_client_id req) = c0" "c0 \<noteq> []" "client_by_id c0 (dv_store d) = Some m0" "cl_owner m0 = a_id admin"
    and cfg: "config_of c0 (dv_store d) = Some mc" "w_config_of (de_wire E) (cc_config_proto mc) = Some cfg0"
    and rest: "trim_space (cr_vk_turn_node_id req) = []" "codec_lossless E" "cr_remote_control req \<noteq> Some False"
  shows "\<exists>m cfg. config_of (hex_encode i) (dv_store (snd (handleCreateClient E saturated (Some i) (Some token) admin (Some req) d))) = Some m \<and>
    w_config_of (de_wire E) (cc_config_proto m) = Some cfg \<and> map_of cfg ''turn'' = map_of cfg0 ''turn''"
proof -
  let ?h = "HashClientToken (w_crypto (de_wire E)) token"
  define row where "row = (new_client_row (hex_encode i) (a_id admin) (trim_space (cr_name req)) ?h token (clock (dv_store d)))\<lparr>cl_sync_mode :=
    normalizeSyncMode (cr_sync_mode req), cl_periodic_minutes := if cr_periodic req \<le> 0 then 30 else cr_periodic req\<rparr>"
  let ?d = "d\<lparr>dv_store := (dv_store d)\<lparr>clients := clients (dv_store d) @ [row]\<rparr>\<rparr>"
  have row: "cl_id row = hex_encode i" by (simp add: row_def new_client_row_def)
  have fd: "faults (dv_store ?d) = []" "client_by_id c0 (dv_store ?d) = Some m0" "client_by_id (hex_encode i) (dv_store ?d) = Some row"
    "config_of c0 (dv_store ?d) = Some mc" "config_of (hex_encode i) (dv_store ?d) = None"
    using f(1,2) seed(3) row cfg(1) dr(2) by (simp_all add: client_by_id_def find_append_cases config_of_def)
  have rs: "resolveSeedConfig E req admin ?d = (Some (Some (set_message ''guardian'' None cfg0)), ?d)"
    using fd seed(1,2,4) cfg(2) by (simp add: resolveSeedConfig_def Let_def FindClientByID_ok GetClientConfig_def bindE_def find_row_ok toClientConfig_def ret_def)
  obtain m where m: "config_of (hex_encode i) (dv_store (snd (create_rest E saturated admin req (hex_encode i) token ?d))) = Some m"
    "w_config_of (de_wire E) (cc_config_proto m) = Some (set_message ''guardian'' None cfg0)"
    using create_rest_seeded [OF fd(1,3,5) rs rest] by blast
  have "handleCreateClient E saturated (Some i) (Some token) admin (Some req) d = create_rest E saturated admin req (hex_encode i) token ?d"
    using dr(1) name
    by (simp add: handleCreateClient_def GenerateClientID_def GenerateClientToken_def create_row_app [OF f] row_def [symmetric])
  then show ?thesis using m by simp
qed

subsection \<open>Witnesses\<close>

text \<open>A lossless encoding of messages exists because they can be counted.\<close>

instance scalar :: countable
  by countable_datatype

instance field_value :: countable
  by countable_datatype

definition encode_message :: "message \<Rightarrow> bytes" where
  "encode_message m = replicate (Suc (to_nat m)) (CHR ''m'')"

definition decode_message :: "bytes \<Rightarrow> message option" where
  "decode_message b = (if b = [] then None else Some (from_nat (length b - 1)))"

lemma decode_encode [simp]: "decode_message (encode_message m) = Some m"
  by (simp add: encode_message_def decode_message_def)

definition sample_desk :: "unit desk_env" where
  "sample_desk = \<lparr>de_wire = \<lparr>w_crypto = sample_crypto, w_frames = \<lparr>marshal = (\<lambda>_. None), unmarshal = (\<lambda>_. None)\<rparr>,
       w_config_bytes = (\<lambda>m. Some (encode_message m)), w_config_of = decode_message, w_with_version = stamp,
       w_runtime_bytes = (\<lambda>_. None), w_apps_bytes = (\<lambda>_. None), w_root_access = (\<lambda>_. False), w_vk_authorized = (\<lambda>_. False), w_no_runtime = ()\<rparr>,
     de_merge = merge_ref, de_published = False, de_runtime_of = (\<lambda>_. None), de_apps_of = (\<lambda>_. None), de_ip_is_loopback = (\<lambda>_. False),
     de_url_host = (\<lambda>_. None), de_base_url = ''panel'', de_node_status = (\<lambda>_. None), de_ca_pins = [],
     de_link = (\<lambda>_ _. Some ''link''), de_parse_link = (\<lambda>_. None)\<rparr>"

lemma sample_desk_simps [simp]:
  "de_merge sample_desk = merge_ref" "w_config_of (de_wire sample_desk) = decode_message" "codec_lossless sample_desk" "proto_merge merge_ref"
  using ref.proto_merge_axioms by (simp_all add: sample_desk_def codec_lossless_def)

definition phone :: client where
  "phone = toStorageClient (new_client_row ''c1'' 1 ''phone'' ''h1'' ''t1'' 100)"

definition root_admin :: admin where
  "root_admin = toStorageAdmin (sample_admin 1 ''root'' ''owner'')"

definition desk :: "driver \<Rightarrow> (message, unit) dev" where
  "desk dr = \<lparr>dv_store = (sample_store dr)\<lparr>cconfigs := [\<lparr>cc_client_id = ''c1'', cc_config_proto = encode_message stored_config,
     cc_revision = ''r'', cc_updated_at = 1, cc_config_version = 5, cc_touched_fields = []\<rparr>]\<rparr>, dv_hub = new_hub, dv_room = 0, dv_out = []\<rparr>"

lemma phone_simps [simp]: "ID phone = ''c1''" "OwnerAdminID phone = 1" "\<not> Online phone" "a_id root_admin = 1"
  by (simp_all add: phone_def root_admin_def sample_defs toStorageAdmin_def) (simp add: toStorageClient_def)

lemma desk_simps [simp]: "faults (dv_store (desk dr)) = []" "dv_hub (desk dr) = new_hub" "driver (dv_store (desk dr)) = dr"
    "fk_client ''c1'' (dv_store (desk dr))" "fk_admin 1 (dv_store (desk dr))"
  by (simp_all add: desk_def fk_client_def fk_admin_def, simp_all add: sample_defs)

lemma desk_holds: "holds_config sample_desk ''c1'' stored_config 5 [] (dv_store (desk dr))"
  using desk_simps [of dr] by (simp add: holds_config_def) (simp add: desk_def config_of_def)

definition direct_patch :: message where
  "direct_patch = [(''xray'', Message [(''settings'', Message [(''direct_dns'', Scalar (Str ''9.9.9.9''))])])]"

lemma direct_typed: "well_typed xray_schema (Nested ''Config'') (Message direct_patch)"
  by (simp add: xray_schema_def direct_patch_def)

lemma sample_paths:
  "Paths (Some dns_patch) = [''xray.profiles'', ''xray.settings.remote_dns'']" "Paths (Some direct_patch) = [''xray.settings.direct_dns'']"
  by (simp_all add: Paths_def dns_patch_def direct_patch_def service_field_def dotted_def)

definition edit_of :: "message \<Rightarrow> push_request" where
  "edit_of m = \<lparr>pr_config = Some m, pr_revision = ''r'', pr_patch = True, pr_if_config_version = 5, pr_provision = None, pr_vk_turn_node_id = []\<rparr>"

lemma edit_simps [simp]: "pr_config (edit_of m) = Some m" "pr_patch (edit_of m)" "pr_if_config_version (edit_of m) = 5"
  by (simp_all add: edit_of_def)

theorem device_route_keeps_invariant_witness:
  "wf_store (dv_store (snd (handleClientByID sample_desk 0 [] root_admin ''c1'' (PutDisabled (Some True)) (desk DriverSQLite))))"
  by (rule device_route_keeps_invariant)
    (simp add: desk_def wf_defs uniq_def refers_def orefers_def sample_defs wg_key_def pt_key_def)




theorem edit_clash_named_witness:
  "\<exists>fields. fst (respondPatchClientConfig sample_desk [] root_admin phone dns_patch (edit_of dns_patch)
      (snd (respondPatchClientConfig sample_desk [] root_admin phone dns_patch (edit_of dns_patch) (desk DriverSQLite)))) = FieldsClash fields 6 \<and>
    set fields = {''xray.profiles'', ''xray.settings.remote_dns''}"
proof -
  have h: "holds_config sample_desk (ID phone) stored_config 5 [] (dv_store (desk DriverSQLite))" using desk_holds by simp
  have n: "Paths (Some dns_patch) \<noteq> []" "set (Paths (Some dns_patch)) \<inter> set (Paths (Some dns_patch)) \<noteq> {}" by (simp_all add: sample_paths)
  have m: "proto_merge (de_merge sample_desk)" "(5::int) + 2 < 2 ^ 62" by simp_all
  obtain d1 fields where c: "snd (respondPatchClientConfig sample_desk [] root_admin phone dns_patch (edit_of dns_patch) (desk DriverSQLite)) = d1"
    "respondPatchClientConfig sample_desk [] root_admin phone dns_patch (edit_of dns_patch) d1 = (FieldsClash fields (5 + 1), d1)"
    "set fields = set (Paths (Some dns_patch)) \<inter> set (Paths (Some dns_patch))"
    using edit_clash_named [OF h m(2) sample_desk_simps(3) m(1) edit_simps(3) [of dns_patch] edit_simps(3) [of dns_patch] n,
      where ipA = "[]" and adminA = root_admin and ipB = "[]" and adminB = root_admin] by blast
  show ?thesis unfolding c(1) c(2) using c(3) by (intro exI [of _ fields]) (simp add: sample_paths)
qed

theorem racing_edit_lost_witness:
  "\<exists>base revB verB d2 cfg m. loadPatchBase sample_desk phone (desk DriverSQLite) = (Some base, desk DriverSQLite) \<and>
    savePatch sample_desk [] root_admin phone direct_patch (edit_of direct_patch) base
      (snd (respondPatchClientConfig sample_desk [] root_admin phone dns_patch (edit_of dns_patch) (desk DriverSQLite))) =
      (ConfigSaved revB False verB (Some [''xray.settings.direct_dns'']), d2) \<and>
    config_of ''c1'' (dv_store d2) = Some m \<and> decode_message (cc_config_proto m) = Some cfg \<and>
    leaf cfg [''xray'', ''settings'', ''remote_dns''] = Some (Scalar (Str ''1.1.1.1''))"
proof -
  have h: "holds_config sample_desk (ID phone) stored_config 5 [] (dv_store (desk DriverSQLite))" using desk_holds by simp
  have n: "Paths (Some dns_patch) \<noteq> []" "Paths (Some direct_patch) \<noteq> []" by (simp_all add: sample_paths)
  have m: "proto_merge (de_merge sample_desk)" "(5::int) + 2 < 2 ^ 62" by simp_all
  obtain base d1 revB verB d2 cfg r where c: "loadPatchBase sample_desk phone (desk DriverSQLite) = (Some base, desk DriverSQLite)"
    "snd (respondPatchClientConfig sample_desk [] root_admin phone dns_patch (edit_of dns_patch) (desk DriverSQLite)) = d1"
    "savePatch sample_desk [] root_admin phone direct_patch (edit_of direct_patch) base d1 = (ConfigSaved revB (Online phone) verB (Some (Paths (Some direct_patch))), d2)"
    "config_of (ID phone) (dv_store d2) = Some r" "w_config_of (de_wire sample_desk) (cc_config_proto r) = Some cfg"
    "\<forall>p. service_field [] (hd p) \<or> leaf direct_patch p \<noteq> None \<or> leaf cfg p = leaf stored_config p"
    using racing_edit_lost [OF h m(2) sample_desk_simps(3) m(1) sample_typed(1) direct_typed edit_simps(3) [of dns_patch] edit_simps(3) [of direct_patch] n,
      where ipA = "[]" and adminA = root_admin and ipB = "[]" and adminB = root_admin] by (metis snd_conv)
  have "leaf cfg [''xray'', ''settings'', ''remote_dns''] = Some (Scalar (Str ''1.1.1.1''))"
    using c(6) [THEN spec, of "[''xray'', ''settings'', ''remote_dns'']"] by (simp add: service_field_def direct_patch_def stored_config_def)
  then show ?thesis using c(1-5) by (auto simp: sample_paths)
qed

theorem full_save_unmarked_witness:
  "\<exists>cfg marks d2. holds_config sample_desk ''c1'' cfg 7 marks (dv_store d2) \<and>
    leaf cfg [''xray'', ''settings'', ''direct_dns''] = Some (Scalar (Str ''9.9.9.9'')) \<and>
    d2 = snd (respondPatchClientConfig sample_desk [] root_admin (phone\<lparr>HasRootAccess := True\<rparr>) direct_patch (edit_of direct_patch)
      (snd (respondPushClientConfig sample_desk [] root_admin (phone\<lparr>HasRootAccess := True\<rparr>) (Some ((edit_of stored_config)\<lparr>pr_patch := False\<rparr>)) (desk DriverSQLite))))"
proof -
  let ?p = "phone\<lparr>HasRootAccess := True\<rparr>" and ?full = "(edit_of stored_config)\<lparr>pr_patch := False\<rparr>"
  have h: "holds_config sample_desk (ID ?p) stored_config 5 [] (dv_store (desk DriverSQLite))" using desk_holds by simp
  have m: "proto_merge (de_merge sample_desk)" "(5::int) + 2 < 2 ^ 62" by simp_all
  have full: "pr_config ?full = Some stored_config" "\<not> pr_patch ?full" "pr_provision ?full = None" "map_of stored_config ''guardian'' = None"
      "HasRootAccess ?p" by (simp_all add: edit_of_def stored_config_def)
  have l: "leaf direct_patch [''xray'', ''settings'', ''direct_dns''] = Some (Scalar (Str ''9.9.9.9''))"
    "\<not> service_field [] (hd [''xray'', ''settings'', ''direct_dns''])" by (simp_all add: direct_patch_def service_field_def)
  have n: "Paths (Some direct_patch) \<noteq> []" by (simp add: sample_paths)
  show ?thesis
    using full_save_unmarked [OF h m(2) sample_desk_simps(3) m(1) full sample_typed(1) direct_typed l edit_simps(3) [of direct_patch] n,
      where ipA = "[]" and adminA = root_admin and ipB = "[]" and adminB = root_admin]
    by fastforce
qed

definition faulty_desk :: "(message, unit) dev" where
  "faulty_desk = (desk DriverSQLite)\<lparr>dv_store := (dv_store (desk DriverSQLite))\<lparr>faults := [True]\<rparr>\<rparr>"

theorem patch_over_fault_witness:
  "\<exists>m cfg. config_of ''c1'' (dv_store (snd (respondPatchClientConfig sample_desk [] root_admin phone direct_patch (edit_of direct_patch) faulty_desk))) = Some m \<and>
    decode_message (cc_config_proto m) = Some cfg \<and>
    leaf stored_config [''xray'', ''active_profile_id''] = Some (Scalar (Str ''old'')) \<and> leaf cfg [''xray'', ''active_profile_id''] = None"
proof -
  have f: "faults (dv_store faulty_desk) = [True]" "fk_client (ID phone) (dv_store faulty_desk)"
    by (simp add: faulty_desk_def) (simp add: faulty_desk_def desk_def fk_client_def, simp add: sample_defs)
  have n: "Paths (Some direct_patch) \<noteq> []" "proto_merge (de_merge sample_desk)" by (simp_all add: sample_paths)
  obtain rv ver d' m cfg where c: "respondPatchClientConfig sample_desk [] root_admin phone direct_patch (edit_of direct_patch) faulty_desk =
      (ConfigSaved rv (Online phone) ver (Some (Paths (Some direct_patch))), d')" "config_of (ID phone) (dv_store d') = Some m"
    "w_config_of (de_wire sample_desk) (cc_config_proto m) = Some cfg" "\<forall>p. service_field [] (hd p) \<or> leaf cfg p = leaf direct_patch p"
    using patch_over_fault [OF f sample_desk_simps(3) n(2) direct_typed sample_typed(4) n(1), where ip = "[]" and admin = root_admin and req = "edit_of direct_patch"] by blast
  have "leaf cfg [''xray'', ''active_profile_id''] = None"
    using c(4) [THEN spec, of "[''xray'', ''active_profile_id'']"] by (simp add: service_field_def direct_patch_def)
  then show ?thesis using c(1-3) by (simp add: stored_config_def)
qed

definition door :: message where
  "door = [(''guardian'', Message [(''ws_url'', Scalar (Str ''other''))])]"

theorem patch_pushes_guardian_witness:
  "\<exists>cfg revision. SendFrame 3 (ConfigPush cfg revision) \<in> set (dv_out (snd (respondPushClientConfig sample_desk [] root_admin phone (Some (edit_of door))
      ((desk DriverSQLite)\<lparr>dv_hub := new_hub\<lparr>hb_clients := [''c1'' \<mapsto> 3]\<rparr>\<rparr>)))) \<and>
    map_of cfg ''guardian'' = Some (Message [(''ws_url'', Scalar (Str ''other''))])"
proof -
  let ?d = "(desk DriverSQLite)\<lparr>dv_hub := new_hub\<lparr>hb_clients := [''c1'' \<mapsto> 3]\<rparr>\<rparr>"
  have h: "holds_config sample_desk (ID phone) stored_config 5 [] (dv_store ?d)" using desk_holds by simp
  have n: "Paths (Some door) \<noteq> []" "proto_merge (de_merge sample_desk)" "ClientSink (ID phone) (dv_hub ?d) = Some 3"
    "''guardian'' \<in> {''guardian'', ''root'', ''sharing'', ''xposed''}"
    by (simp_all add: Paths_def door_def service_field_def dotted_def ClientSink_def)
  show ?thesis
    using patch_pushes_guardian [OF h sample_desk_simps(3) n(2) edit_simps(1,2,3) [of door] n(1,3,4), where ip = "[]" and admin = root_admin]
    by (simp add: door_def)
qed

theorem relay_only_if_allowed_witness:
  "\<exists>node. node_by_id (trim_space ''n1'') (dv_store (desk DriverSQLite)) = Some node \<and> nd_kind node = ServerNodeVKTurnProxy \<and>
    (nd_owner node = 1 \<or> IsOwner root_admin \<and> nd_owner node = 0) \<and> ''e:56000'' = relay_endpoint sample_desk node"
proof -
  have t: "trim_space ''n1'' = ''n1''" by code_simp
  have e: "relay_endpoint sample_desk sample_node = ''e:56000''"
  proof -
    have "to_lower (trim_space ''e'') \<noteq> ''localhost''" "SplitHostPort ''e'' = None" "JoinHostPort ''e'' ''56000'' = ''e:56000''" by code_simp+
    moreover have "de_ip_is_loopback sample_desk h = False" "de_node_status sample_desk n = None" for h n by (simp_all add: sample_desk_def)
    ultimately show ?thesis
      by (simp add: relay_endpoint_def isLoopbackHost_def Let_def sample_node_def vkTurnDefaultDTLSPort_def)
  qed
  have o: "IsOwner root_admin" by (simp add: IsOwner_def RoleOwner_def root_admin_def toStorageAdmin_def sample_admin_def)
  have n: "node_by_id ''n1'' (dv_store (desk DriverSQLite)) = Some sample_node"
    by (simp add: desk_def node_by_id_def sample_store_def) (simp add: sample_node_def)
  have "fst (resolveVkTurnEndpoint sample_desk root_admin ''n1'' (desk DriverSQLite)) = Some ''e:56000''"
    using n o e by (simp add: resolveVkTurnEndpoint_def t Let_def GetServerNode_def find_row_ok) (simp add: sample_node_def)
  from relay_only_if_allowed [OF this] show ?thesis by simp
qed

theorem offline_command_queued_witness:
  "\<exists>q new d'. respondCommand sample_desk (Some ''x'') phone (Some (''generate_vk_link'', 99)) (desk DriverSQLite) = (CommandQueued q, d') \<and>
    q \<le> 50 \<and> length new = q \<and> pending (dv_store d') = pending (dv_store (desk DriverSQLite)) @ new"
proof -
  have k: "parseCommandType ''generate_vk_link'' = Some COMMAND_GENERATE_VK_LINK" by code_simp
  have f: "fk_client (ID phone) (dv_store (desk DriverSQLite))" "ClientSink (ID phone) (dv_hub (desk DriverSQLite)) = None"
    by (simp_all add: ClientSink_def new_hub_def)
  show ?thesis
    using offline_command_queued [OF desk_simps(1) f phone_simps(3) k, where E = sample_desk and draw = "''x''" and n = 99]
    by (auto simp: queueableCommands_def)
qed

definition create_phone :: "string \<Rightarrow> create_request" where
  "create_phone seed = \<lparr>cr_name = ''new'', cr_seed_from_client_id = seed, cr_seed_from_link = [], cr_sync_mode = ''always'', cr_periodic = 0,
     cr_remote_control = None, cr_vk_turn_node_id = [], cr_traffic_limit_gb = 0, cr_reset_period_days = 0\<rparr>"

lemma create_phone_simps [simp]: "trim_space (cr_name (create_phone s)) \<noteq> []" "normalizeSyncMode (cr_sync_mode (create_phone s)) = ''always''"
    "trim_space (cr_seed_from_client_id (create_phone ''c1'')) = ''c1''" "trim_space (cr_seed_from_client_id (create_phone ''gone'')) = ''gone''"
    "trim_space (cr_vk_turn_node_id (create_phone s)) = []" "cr_remote_control (create_phone s) \<noteq> Some False" "cr_periodic (create_phone s) = 0"
  by (simp_all add: create_phone_def) code_simp+

lemma fresh_id: "hex_encode ''a'' = ''61''" "client_by_id ''61'' (dv_store (desk dr)) = None" "config_of ''61'' (dv_store (desk dr)) = None"
  by code_simp (simp_all add: desk_def client_by_id_def config_of_def sample_store_def, simp_all add: new_client_row_def)

theorem creation_fails_on_mariadb_witness:
  "\<exists>d' m. handleCreateClient sample_desk 0 (Some ''a'') (Some ''tok'') root_admin (Some (create_phone [])) (desk DriverMySQL) = (Failed 500, d') \<and>
    client_by_id ''61'' (dv_store d') = Some m \<and> cl_owner m = 1 \<and> cl_token_plain m = ''tok''"
  using creation_fails_on_mariadb [of "desk DriverMySQL" "''a''" root_admin "create_phone []" sample_desk 0 "''tok''"] by (simp add: fresh_id)

theorem refused_creation_leaves_device_witness:
  "\<exists>d' m. handleCreateClient sample_desk 0 (Some ''a'') (Some ''tok'') root_admin (Some (create_phone ''gone'')) (desk DriverSQLite) = (Failed 400, d') \<and>
    client_by_id ''61'' (dv_store d') = Some m \<and> cl_owner m = 1 \<and> cl_token_plain m = ''tok''"
proof -
  have "client_by_id ''gone'' (dv_store (desk DriverSQLite)) = None"
    by (simp add: desk_def client_by_id_def sample_store_def) (simp add: new_client_row_def)
  then show ?thesis
    using refused_creation_leaves_device [of "desk DriverSQLite" "''a''" root_admin "create_phone ''gone''" "''gone''" sample_desk 0 "''tok''"] by (simp add: fresh_id)
qed

definition linked_config :: message where
  "linked_config = (''turn'', Message [(''provision_token'', Scalar (Str ''t1''))]) # stored_config"

definition desk_with :: "message \<Rightarrow> (message, unit) dev" where
  "desk_with cfg = (desk DriverSQLite)\<lparr>dv_store := (sample_store DriverSQLite)\<lparr>cconfigs := [\<lparr>cc_client_id = ''c1'', cc_config_proto = encode_message cfg,
     cc_revision = ''r'', cc_updated_at = 1, cc_config_version = 5, cc_touched_fields = []\<rparr>]\<rparr>\<rparr>"

lemma desk_with_simps [simp]: "faults (dv_store (desk_with cfg)) = []"
    "client_by_id ''c1'' (dv_store (desk_with cfg)) = Some (new_client_row ''c1'' 1 ''phone'' ''h1'' ''t1'' 100)"
    "config_of ''c1'' (dv_store (desk_with cfg)) = Some \<lparr>cc_client_id = ''c1'', cc_config_proto = encode_message cfg,
     cc_revision = ''r'', cc_updated_at = 1, cc_config_version = 5, cc_touched_fields = []\<rparr>"
    "driver (dv_store (desk_with cfg)) = DriverSQLite" "fk_admin 1 (dv_store (desk_with cfg))"
    "client_by_id ''61'' (dv_store (desk_with cfg)) = None" "config_of ''61'' (dv_store (desk_with cfg)) = None"
  by (simp_all add: desk_with_def client_by_id_def config_of_def fk_admin_def sample_store_def) (simp_all add: sample_defs)

lemma c1_trimmed: "trim_space ''c1'' = ''c1''"
  by code_simp

theorem seed_copies_token_witness:
  "\<exists>m cfg. config_of ''61'' (dv_store (snd (handleCreateClient sample_desk 0 (Some ''a'') (Some ''tok'') root_admin (Some (create_phone ''c1''))
      (desk_with linked_config)))) = Some m \<and> decode_message (cc_config_proto m) = Some cfg \<and>
    map_of cfg ''turn'' = Some (Message [(''provision_token'', Scalar (Str ''t1''))])"
  using seed_copies_token [of "desk_with linked_config" "''a''" root_admin "create_phone ''c1''" "''c1''",
      OF _ _ _ _ _ _ _ _ desk_with_simps(2) _ desk_with_simps(3), of sample_desk linked_config 0 "''tok''"]
  by (simp add: fresh_id) (simp add: new_client_row_def linked_config_def)

end
