(* ===== verification/MasterDesk.thy ===== *)
theory MasterDesk
  imports ClientDeskLaws
begin

text \<open>
  The master configuration, settings an administrator applies to all of their devices at once:
  \<^verbatim>\<open>internal/storage/master.go\<close> and the handlers of \<^verbatim>\<open>internal/handlers/admin/master.go\<close>.
\<close>

subsection \<open>Storage\<close>

record master_config =
  mc_AdminID :: int
  mc_ConfigProto :: bytes
  mc_SyncMode :: string
  mc_PeriodicIntervalMinutes :: int
  mc_ScopeFlags :: string
  mc_UpdatedAt :: int

definition master_of :: "int \<Rightarrow> store \<Rightarrow> master_row option" where
  "master_of a s = find (\<lambda>r. ma_admin_id r = a) (masters s)"

definition toMasterConfig :: "master_row \<Rightarrow> master_config" where
  "toMasterConfig r = \<lparr>mc_AdminID = ma_admin_id r, mc_ConfigProto = ma_config_proto r, mc_SyncMode = ma_sync_mode r,
     mc_PeriodicIntervalMinutes = ma_periodic_minutes r, mc_ScopeFlags = ma_scope_flags r, mc_UpdatedAt = ma_updated_at r\<rparr>"

definition GetMasterConfig :: "int \<Rightarrow> master_config db" where
  "GetMasterConfig adminID = bindE (attempt (query_first (master_of adminID))) (\<lambda>r.
     case r of
       Inl ErrRecordNotFound \<Rightarrow> ret \<lparr>mc_AdminID = adminID, mc_ConfigProto = [], mc_SyncMode = [],
          mc_PeriodicIntervalMinutes = 0, mc_ScopeFlags = [], mc_UpdatedAt = 0\<rparr>
     | Inl e \<Rightarrow> fail e
     | Inr row \<Rightarrow> ret (toMasterConfig row))"

definition master_upd :: "master_row \<Rightarrow> master_row \<Rightarrow> master_row" where
  "master_upd new old = old\<lparr>ma_config_proto := ma_config_proto new, ma_sync_mode := ma_sync_mode new,
     ma_periodic_minutes := ma_periodic_minutes new, ma_scope_flags := ma_scope_flags new, ma_updated_at := ma_updated_at new\<rparr>"

text \<open>Where the struct holds Go's zero value the insert takes the column default of the model, \<^verbatim>\<open>'always'\<close> and 30.\<close>

definition SaveMasterConfig :: "master_config \<Rightarrow> unit db" where
  "SaveMasterConfig m = bindE (asks clock) (\<lambda>now.
     upsert_rows masters_update ma_admin_id master_upd (\<lambda>s r. fk_admin (ma_admin_id r) s)
       [\<lparr>ma_admin_id = mc_AdminID m, ma_config_proto = mc_ConfigProto m,
         ma_sync_mode = (if mc_SyncMode m = [] then ''always'' else mc_SyncMode m),
         ma_periodic_minutes = (if mc_PeriodicIntervalMinutes m = 0 then 30 else mc_PeriodicIntervalMinutes m),
         ma_scope_flags = mc_ScopeFlags m, ma_updated_at = now\<rparr>])"

subsection \<open>Scopes\<close>

definition scopeTurn :: string where "scopeTurn = ''turn''"
definition scopeXraySettings :: string where "scopeXraySettings = ''xray_settings''"
definition scopeXrayRouting :: string where "scopeXrayRouting = ''xray_routing''"
definition scopeByeDpi :: string where "scopeByeDpi = ''byedpi''"
definition scopeAppPreferences :: string where "scopeAppPreferences = ''app_preferences''"
definition scopeAppRouting :: string where "scopeAppRouting = ''app_routing''"
definition scopeSync :: string where "scopeSync = ''sync''"

lemmas scope_defs = scopeTurn_def scopeXraySettings_def scopeXrayRouting_def scopeByeDpi_def scopeAppPreferences_def
  scopeAppRouting_def scopeSync_def

definition scopes :: "string list" where
  "scopes = [scopeTurn, scopeXraySettings, scopeXrayRouting, scopeByeDpi, scopeAppPreferences, scopeAppRouting, scopeSync]"

fun pick_scopes :: "string list \<Rightarrow> string list \<Rightarrow> string list" where
  "pick_scopes seen [] = []"
| "pick_scopes seen (raw # ws) = (let v = trim_space raw in
     if v \<notin> set scopes \<or> v \<in> set seen then pick_scopes seen ws else v # pick_scopes (v # seen) ws)"

definition normalizeScopeFlagsList :: "string list \<Rightarrow> string list" where
  "normalizeScopeFlagsList ws = pick_scopes [] ws"

definition normalizeScopeFlags :: "string \<Rightarrow> string list" where
  "normalizeScopeFlags s = (if s = [] then [] else normalizeScopeFlagsList (split_on (CHR '','') s))"

text \<open>\<^verbatim>\<open>target.Section = master.GetSection()\<close>, and the same inside Xray, which is created if it is not there.\<close>

definition take_section :: "string \<Rightarrow> message \<Rightarrow> message \<Rightarrow> message" where
  "take_section f master target = set_message f (message_of (map_of master f)) target"

definition take_xray :: "string \<Rightarrow> message \<Rightarrow> message \<Rightarrow> message" where
  "take_xray f master target =
     (let xray = (case message_of (map_of target ''xray'') of None \<Rightarrow> [] | Some x \<Rightarrow> x);
          theirs = (case message_of (map_of master ''xray'') of None \<Rightarrow> [] | Some x \<Rightarrow> x) in
      set_message ''xray'' (Some (set_message f (message_of (map_of theirs f)) xray)) target)"

definition when_set :: "bool \<Rightarrow> (message \<Rightarrow> message) \<Rightarrow> message \<Rightarrow> message" where
  "when_set b g m = (if b then g m else m)"

definition mergeMasterIntoConfig :: "message \<Rightarrow> message \<Rightarrow> string set \<Rightarrow> message" where
  "mergeMasterIntoConfig target master flags =
     when_set (scopeAppRouting \<in> flags) (take_section ''app_routing'' master)
     (when_set (scopeAppPreferences \<in> flags) (take_section ''app_preferences'' master)
     (when_set (scopeByeDpi \<in> flags) (take_section ''bye_dpi'' master)
     (when_set (scopeXrayRouting \<in> flags) (take_xray ''routing'' master)
     (when_set (scopeXraySettings \<in> flags) (take_xray ''settings'' master)
     (when_set (scopeTurn \<in> flags) (take_section ''turn'' master) target)))))"

definition stripMasterIdentity :: "message \<Rightarrow> message" where
  "stripMasterIdentity cfg =
     (let cfg = fold (\<lambda>f. set_message f None) [''guardian'', ''wg'', ''awg'', ''wb_stream'', ''sharing'', ''xposed'', ''subscription_hwid''] cfg in
      case message_of (map_of cfg ''xray'') of
        None \<Rightarrow> cfg
      | Some x \<Rightarrow> set_message ''xray'' (Some (set_items ''subscriptions'' [] (set_text ''active_profile_id'' []
           (set_items ''profiles'' [] x)))) cfg)"

subsection \<open>Handlers\<close>

datatype 'r master_answer =
    MasterFailed nat
  | MasterSaved
  | MasterShown "message option" string int "string list" int
  | MasterApplied nat nat
  | MasterSeed message

record master_request =
  mr_config :: "message option option"
  mr_sync_mode :: string
  mr_periodic :: int
  mr_scope_flags :: "string list"

definition respondMasterConfigGet :: "'r desk_env \<Rightarrow> admin \<Rightarrow> ('r master_answer, 'r) step" where
  "respondMasterConfigGet E admin = bindD (dbD (GetMasterConfig (a_id admin))) (\<lambda>r. retD (case r of
     Inl _ \<Rightarrow> MasterFailed 500
   | Inr m \<Rightarrow> MasterShown (shown_config E (mc_ConfigProto m)) (mc_SyncMode m) (mc_PeriodicIntervalMinutes m)
       (normalizeScopeFlags (mc_ScopeFlags m)) (mc_UpdatedAt m)))"

text \<open>The configuration of the request: absent, undecodable (an error), or a message.\<close>

definition masterConfigBytesFromJSON :: "'r desk_env \<Rightarrow> message option option \<Rightarrow> bytes option" where
  "masterConfigBytesFromJSON E raw = (case raw of
     None \<Rightarrow> Some []
   | Some None \<Rightarrow> None
   | Some (Some parsed) \<Rightarrow> w_config_bytes (de_wire E) (set_message ''guardian'' None parsed))"

definition respondMasterConfigPut :: "'r desk_env \<Rightarrow> admin \<Rightarrow> master_request option \<Rightarrow> ('r master_answer, 'r) step" where
  "respondMasterConfigPut E admin body = (case body of
     None \<Rightarrow> retD (MasterFailed 400)
   | Some req \<Rightarrow> (case masterConfigBytesFromJSON E (mr_config req) of
       None \<Rightarrow> retD (MasterFailed 400)
     | Some b \<Rightarrow> bindD (dbD (SaveMasterConfig \<lparr>mc_AdminID = a_id admin, mc_ConfigProto = b,
           mc_SyncMode = (if mr_sync_mode req = [] then [] else normalizeSyncMode (mr_sync_mode req)),
           mc_PeriodicIntervalMinutes = max 0 (mr_periodic req),
           mc_ScopeFlags = join_with '','' (normalizeScopeFlagsList (mr_scope_flags req)), mc_UpdatedAt = 0\<rparr>))
         (\<lambda>r. retD (case r of Inl _ \<Rightarrow> MasterFailed 500 | Inr _ \<Rightarrow> MasterSaved))))"

definition desired_base :: "'r desk_env \<Rightarrow> error + client_config \<Rightarrow> message" where
  "desired_base E r = (case r of
     Inl _ \<Rightarrow> new_config
   | Inr cfg \<Rightarrow> if ConfigProto cfg = [] then new_config
       else (case w_config_of (de_wire E) (ConfigProto cfg) of None \<Rightarrow> new_config | Some m \<Rightarrow> m))"

definition apply_to_client ::
  "'r desk_env \<Rightarrow> admin \<Rightarrow> master_config \<Rightarrow> message \<Rightarrow> string set \<Rightarrow> client \<Rightarrow> (bool, 'r) step" where
  "apply_to_client E admin master masterCfg flags client =
     bindD (dbD (GetClientConfig (ID client))) (\<lambda>r.
     let merged = mergeMasterIntoConfig (desired_base E r) masterCfg flags;
         desired = (if HasRootAccess client then merged else stripRootOnlyBlocks merged);
         sync = (scopeSync \<in> flags \<and> mc_SyncMode master \<noteq> []) in
     case w_config_bytes (de_wire E) desired of
       None \<Rightarrow> retD False
     | Some blob \<Rightarrow>
         bindD timeMs (\<lambda>ms.
         bindD (dbD (UpsertClientConfig (ID client) blob (''master-'' @ itoa (ms div 1000)))) (\<lambda>v.
         bindD (if sync then ignore (dbD (UpdateClientSync (ID client) (a_id admin) (mc_SyncMode master) (mc_PeriodicIntervalMinutes master)))
                else retD ()) (\<lambda>_.
         bindD (pushConfig E client (stamp (case v of Inl _ \<Rightarrow> 0 | Inr n \<Rightarrow> n) desired) ''master'') (\<lambda>sent.
         bindD (if sent \<and> sync then pushConfig E client (sync_config (mc_SyncMode master) (mc_PeriodicIntervalMinutes master)) ''master-sync''
                else retD False) (\<lambda>_.
         retD sent))))))"

fun apply_to_all ::
  "'r desk_env \<Rightarrow> admin \<Rightarrow> master_config \<Rightarrow> message \<Rightarrow> string set \<Rightarrow> client list \<Rightarrow> (nat, 'r) step" where
  "apply_to_all E admin master masterCfg flags [] = retD 0"
| "apply_to_all E admin master masterCfg flags (c # cs) =
     bindD (apply_to_client E admin master masterCfg flags c) (\<lambda>sent.
     bindD (apply_to_all E admin master masterCfg flags cs) (\<lambda>n. retD (if sent then Suc n else n)))"

definition master_body :: "'r desk_env \<Rightarrow> master_config \<Rightarrow> message option" where
  "master_body E master = (if mc_ConfigProto master = [] then Some [] else w_config_of (de_wire E) (mc_ConfigProto master))"

definition handleMasterConfigApply :: "'r desk_env \<Rightarrow> string \<Rightarrow> admin \<Rightarrow> ('r master_answer, 'r) step" where
  "handleMasterConfigApply E ip admin =
     bindD (dbD (GetMasterConfig (a_id admin))) (\<lambda>r.
     case r of
       Inl _ \<Rightarrow> retD (MasterFailed 500)
     | Inr master \<Rightarrow>
         let flags = set (normalizeScopeFlags (mc_ScopeFlags master)) in
         if flags = {} then retD (MasterFailed 400)
         else (case master_body E master of
           None \<Rightarrow> retD (MasterFailed 500)
         | Some masterCfg \<Rightarrow>
             bindD (dbD (ListClientsByOwner (a_id admin))) (\<lambda>cs.
             case cs of
               Inl _ \<Rightarrow> retD (MasterFailed 500)
             | Inr owned_clients \<Rightarrow>
                 bindD (apply_to_all E admin master masterCfg flags owned_clients) (\<lambda>pushed.
                 bindD (ignore (dbD (AppendAudit \<lparr>ae_id = 0, ae_ts = None, ae_actor_admin_id = a_id admin,
                    ae_actor_username = a_username admin, ae_action = ''client.master_applied'', ae_target_type = [], ae_target_id = [],
                    ae_message = join_with '','' (normalizeScopeFlags (mc_ScopeFlags master)), ae_ip = ip\<rparr>))) (\<lambda>_.
                 retD (MasterApplied (length owned_clients) pushed))))))"

definition resolveMasterSeed :: "'r desk_env \<Rightarrow> string \<Rightarrow> string \<Rightarrow> admin \<Rightarrow> (message option option, 'r) step" where
  "resolveMasterSeed E fromClientID fromLink admin =
     (let i = trim_space fromClientID; link = trim_space fromLink in
      if i \<noteq> [] then
        bindD (dbD (FindClientByID i)) (\<lambda>r.
        case r of
          Inl _ \<Rightarrow> retD None
        | Inr client \<Rightarrow>
            if OwnerAdminID client \<noteq> a_id admin \<and> \<not> IsOwner admin then retD None
            else bindD (dbD (GetClientConfig i)) (\<lambda>c. retD (case c of
               Inl _ \<Rightarrow> None
             | Inr cfg \<Rightarrow> if ConfigProto cfg = [] then None else map_option Some (w_config_of (de_wire E) (ConfigProto cfg)))))
      else if link \<noteq> [] then retD (map_option Some (de_parse_link E link))
      else retD (Some None))"

definition handleMasterConfigSeed :: "'r desk_env \<Rightarrow> admin \<Rightarrow> (string \<times> string) option \<Rightarrow> ('r master_answer, 'r) step" where
  "handleMasterConfigSeed E admin body = (case body of
     None \<Rightarrow> retD (MasterFailed 400)
   | Some (c, link) \<Rightarrow> bindD (resolveMasterSeed E c link admin) (\<lambda>seed. retD (case seed of
       Some (Some cfg) \<Rightarrow> MasterSeed (stripMasterIdentity cfg)
     | _ \<Rightarrow> MasterFailed 400)))"

subsection \<open>Lemmas\<close>

interpretation master_table: keyed_table ma_admin_id master_upd
  by unfold_locales (simp add: master_upd_def)

lemma pres_SaveMasterConfig [pres]: "preserves wf_store (SaveMasterConfig m)"
  unfolding SaveMasterConfig_def
  by (intro pres, rule pres_upsert_rows [OF fault_free_wf], rule wf_put)
    (auto intro!: master_table.upsert_intros simp: wf_get master_upd_def fk_ids list_all_iff)

definition is_section :: "field_value option \<Rightarrow> bool" where
  "is_section v \<longleftrightarrow> (case v of None \<Rightarrow> True | Some (Message _) \<Rightarrow> True | _ \<Rightarrow> False)"

definition xray_of :: "message \<Rightarrow> message" where
  "xray_of m = (case message_of (map_of m ''xray'') of None \<Rightarrow> [] | Some x \<Rightarrow> x)"

definition sections_ok :: "message \<Rightarrow> bool" where
  "sections_ok m \<longleftrightarrow> list_all (\<lambda>f. is_section (map_of m f)) [''turn'', ''xray'', ''bye_dpi'', ''app_preferences'', ''app_routing''] \<and>
     list_all (\<lambda>f. is_section (map_of (xray_of m) f)) [''settings'', ''routing'']"

definition scope_of :: "string list \<Rightarrow> string option" where
  "scope_of p = (case p of
     [] \<Rightarrow> None
   | f # q \<Rightarrow>
       if f = ''turn'' then Some scopeTurn else if f = ''bye_dpi'' then Some scopeByeDpi
       else if f = ''app_preferences'' then Some scopeAppPreferences else if f = ''app_routing'' then Some scopeAppRouting
       else if f = ''xray'' then
         (case q of g # _ \<Rightarrow> if g = ''settings'' then Some scopeXraySettings else if g = ''routing'' then Some scopeXrayRouting else None | [] \<Rightarrow> None)
       else None)"

lemma section_message [simp]: "is_section v \<Longrightarrow> map_option Message (message_of v) = v"
  by (auto simp: is_section_def message_of_def split: option.splits field_value.splits)

lemma take_section_get: "map_of (take_section f master t) g = (if f = g then map_option Message (message_of (map_of master f)) else map_of t g)"
  by (simp add: take_section_def)

lemma take_xray_get: "map_of (take_xray f master t) g =
    (if g = ''xray'' then Some (Message (set_message f (message_of (map_of (xray_of master) f)) (xray_of t))) else map_of t g)"
  by (simp add: take_xray_def xray_of_def Let_def)

lemma when_set_get: "map_of (when_set b h m) g = (if b then map_of (h m) g else map_of m g)"
  by (simp add: when_set_def)

lemma xray_of_take: "xray_of (take_xray f master t) = set_message f (message_of (map_of (xray_of master) f)) (xray_of t)"
    "f \<noteq> ''xray'' \<Longrightarrow> xray_of (take_section f master t) = xray_of t"
  by (simp_all add: xray_of_def [of "take_xray f master t"] xray_of_def [of "take_section f master t"] take_xray_get take_section_get)
    (simp add: xray_of_def)

lemma merged_get:
  assumes "sections_ok master"
  shows "map_of (mergeMasterIntoConfig target master flags) f =
    (if f = ''xray'' then
       if scopeXraySettings \<in> flags \<or> scopeXrayRouting \<in> flags
       then Some (Message (when_set (scopeXrayRouting \<in> flags) (set_message ''routing'' (message_of (map_of (xray_of master) ''routing'')))
         (when_set (scopeXraySettings \<in> flags) (set_message ''settings'' (message_of (map_of (xray_of master) ''settings''))) (xray_of target))))
       else map_of target ''xray''
     else if f = ''turn'' \<and> scopeTurn \<in> flags \<or> f = ''bye_dpi'' \<and> scopeByeDpi \<in> flags \<or>
       f = ''app_preferences'' \<and> scopeAppPreferences \<in> flags \<or> f = ''app_routing'' \<and> scopeAppRouting \<in> flags
     then map_of master f else map_of target f)"
  using assms
  by (simp add: mergeMasterIntoConfig_def when_set_get take_section_get take_xray_get sections_ok_def xray_of_take when_set_def)

lemma leaf_xray: "is_section (map_of m ''xray'') \<Longrightarrow> leaf m (''xray'' # q) = leaf (xray_of m) q"
  by (cases q) (auto simp: xray_of_def is_section_def message_of_def split: option.splits field_value.splits)

lemma leaf_hd: "map_of m f = map_of n f \<Longrightarrow> leaf m (f # q) = leaf n (f # q)"
  by (rule leaf_cong) simp

lemma merged_leaf:
  assumes "sections_ok master" "sections_ok target"
  shows "leaf (mergeMasterIntoConfig target master flags) p =
    (case scope_of p of None \<Rightarrow> leaf target p | Some s \<Rightarrow> if s \<in> flags then leaf master p else leaf target p)"
proof (cases p)
  case (Cons f q)
  let ?m = "mergeMasterIntoConfig target master flags"
  note get = merged_get [OF assms(1), of target flags]
  show ?thesis
  proof (cases "f = ''xray''")
    case False
    then show ?thesis using Cons get [of f]
      by (auto simp: scope_of_def intro!: leaf_hd split: if_splits)
  next
    case True
    have sec: "is_section (map_of ?m ''xray'')" "is_section (map_of master ''xray'')" "is_section (map_of target ''xray'')"
      using assms get [of "''xray''"] by (auto simp: sections_ok_def is_section_def)
    have x: "xray_of ?m = (when_set (scopeXrayRouting \<in> flags) (set_message ''routing'' (message_of (map_of (xray_of master) ''routing'')))
         (when_set (scopeXraySettings \<in> flags) (set_message ''settings'' (message_of (map_of (xray_of master) ''settings''))) (xray_of target)))"
      using get [of "''xray''"] by (auto simp: xray_of_def [of ?m] when_set_def) (simp add: xray_of_def)
    have "leaf (xray_of ?m) q = (case scope_of p of None \<Rightarrow> leaf (xray_of target) q
        | Some s \<Rightarrow> if s \<in> flags then leaf (xray_of master) q else leaf (xray_of target) q)"
    proof (cases q)
      case (Cons g r)
      then show ?thesis using assms \<open>p = f # q\<close> True unfolding x
        by (auto simp: scope_of_def sections_ok_def when_set_get intro!: leaf_hd)
    qed (simp add: scope_of_def Cons \<open>f = ''xray''\<close>)
    then show ?thesis using Cons True leaf_xray sec by (simp split: option.split)
  qed
qed (simp add: scope_of_def)

subsection \<open>Properties\<close>

text \<open>C18: The master configuration changes only what its scopes name. At every field of a device's configuration the
  merge has the master's value if the field lies in a section whose scope is switched on, and the device's own
  value otherwise; profiles, keys and every other section are left alone.
\<close>
theorem master_touches_scopes:
  assumes "sections_ok master" "sections_ok target"
  shows "leaf (mergeMasterIntoConfig target master flags) p =
    (case scope_of p of None \<Rightarrow> leaf target p | Some s \<Rightarrow> if s \<in> flags then leaf master p else leaf target p)"
  by (rule merged_leaf [OF assms])

lemma keeps_apply_to_all: "keepsD wf_store (apply_to_all E admin master cfg flags cs)"
proof (induction cs)
  case (Cons c cs)
  have "keepsD wf_store (apply_to_client E admin master cfg flags c)"
    unfolding apply_to_client_def Let_def pushConfig_def GetClientConfig_def by (intro desk_intros)
  then show ?case unfolding apply_to_all.simps by (intro desk_intros Cons.IH)
qed (simp only: apply_to_all.simps keepsD_intros)

text \<open>Applying and saving the master configuration keep the database in order, whichever statements the engine
  refuses on the way through the devices.
\<close>
theorem master_keeps_invariant:
  assumes "wf_store (dv_store d)"
  shows "wf_store (dv_store (snd (handleMasterConfigApply E ip admin d))) \<and>
    wf_store (dv_store (snd (respondMasterConfigPut E admin body d)))"
proof -
  have read: "keepsD wf_store (dbD (GetMasterConfig a))" for a
    unfolding GetMasterConfig_def by (intro desk_intros)
  have "keepsD wf_store (handleMasterConfigApply E ip admin)"
    unfolding handleMasterConfigApply_def Let_def ListClientsByOwner_def PageClientsByOwner_def pageClients_def
    by (intro desk_intros keeps_apply_to_all read)
  moreover have "keepsD wf_store (respondMasterConfigPut E admin body)"
    unfolding respondMasterConfigPut_def by (intro desk_intros pres_SaveMasterConfig)
  ultimately show ?thesis using assms by (simp add: keepsD_def)
qed

lemma apply_to_client_ok:
  assumes f: "faults s = []" "fk_client (ID client) s" and codec: "codec_lossless E" and root: "HasRootAccess client"
    and read: "dbD (GetClientConfig (ID client)) d = (r, d\<lparr>dv_store := s\<rparr>)"
  shows "\<exists>m. config_of (ID client) (dv_store (snd (apply_to_client E admin master masterCfg flags client d))) = Some m \<and>
    w_config_of (de_wire E) (cc_config_proto m) = Some (mergeMasterIntoConfig (desired_base E r) masterCfg flags)"
proof -
  let ?m = "mergeMasterIntoConfig (desired_base E r) masterCfg flags"
  obtain blob where blob: "w_config_bytes (de_wire E) ?m = Some blob" "w_config_of (de_wire E) blob = Some ?m"
    using codec by (auto simp: codec_lossless_def)
  have keep: "config_of i (snd (UpdateClientSync j a mode n t)) = config_of i t" if "faults t = []" for i j a mode n t
    using that by (simp add: UpdateClientSync_def Let_def bindE_def update_rows_ok require_affected_def fail_def ret_def config_of_def)
  let ?rv = "''master-'' @ itoa (clock s div 1000)"
  obtain v s' m where s': "UpsertClientConfig (ID client) blob ?rv s = (Inr v, s')" "faults s' = []" "config_of (ID client) s' = Some m" "cc_config_proto m = blob"
    using UpsertClientConfig_ok [OF f, of blob ?rv] by (cases "config_of (ID client) s") auto
  show ?thesis
    using s' blob root keep [OF s'(2)] read
    by (simp add: apply_to_client_def Let_def pushConfig_def send_app del: dev_app(3)) (simp add: send_app)
qed

text \<open>A read that fails costs a device everything the master does not set. If the database refuses just the read
  of one device's configuration, the apply does not skip the device: it merges the master into an empty
  configuration and stores that, so outside the scopes that are switched on nothing is left.
\<close>
theorem master_apply_over_fault:
  assumes f: "faults (dv_store d) = [True]" "fk_client (ID client) (dv_store d)" and codec: "codec_lossless E" and root: "HasRootAccess client"
    and ok: "sections_ok masterCfg"
  shows "\<exists>m cfg. config_of (ID client) (dv_store (snd (apply_to_client E admin master masterCfg flags client d))) = Some m \<and>
    w_config_of (de_wire E) (cc_config_proto m) = Some cfg \<and>
    (\<forall>p. service_field [] (hd p) \<or> (case scope_of p of Some s \<Rightarrow> s \<in> flags | None \<Rightarrow> False) \<or> leaf cfg p = None)"
proof -
  let ?s = "(dv_store d)\<lparr>faults := []\<rparr>"
  have read: "dbD (GetClientConfig (ID client)) d = (Inl ErrDb, d\<lparr>dv_store := ?s\<rparr>)"
    using f(1) by (simp add: GetClientConfig_def bindE_def find_row_def query_first_def stmt_def)
  have fk: "faults ?s = []" "fk_client (ID client) ?s" using f(2) by (simp_all add: fk_client_def)
  have base: "desired_base E (Inl ErrDb) = new_config" by (simp add: desired_base_def)
  have new: "sections_ok new_config" by (simp add: sections_ok_def new_config_def is_section_def xray_of_def)
  have "leaf (mergeMasterIntoConfig new_config masterCfg flags) p = None"
    if "\<not> service_field [] (hd p)" "\<not> (case scope_of p of Some s \<Rightarrow> s \<in> flags | None \<Rightarrow> False)" for p
  proof -
    have "leaf new_config p = None" using that(1) by (cases "(new_config, p)" rule: leaf.cases) (auto simp: new_config_def service_field_def)
    then show ?thesis using merged_leaf [OF ok new, of flags p] that(2) by (simp split: option.splits)
  qed
  then have none: "\<forall>p. service_field [] (hd p) \<or> (case scope_of p of Some s \<Rightarrow> s \<in> flags | None \<Rightarrow> False) \<or>
      leaf (mergeMasterIntoConfig new_config masterCfg flags) p = None"
    by metis
  note saved = apply_to_client_ok [OF fk codec root read, of admin master masterCfg flags, unfolded base]
  then obtain m where m: "config_of (ID client) (dv_store (snd (apply_to_client E admin master masterCfg flags client d))) = Some m"
      "w_config_of (de_wire E) (cc_config_proto m) = Some (mergeMasterIntoConfig new_config masterCfg flags)"
    by (elim exE conjE)
  show ?thesis by (rule exI [of _ m], rule exI, intro conjI, rule m(1), rule m(2), rule none)
qed

text \<open>A master seeded from a device hands that device's credentials to all the others. The seed keeps the
  device's VK-TURN section, managed profile and provisioning token included, and where the turn scope is on every
  device the master is merged into receives exactly that section.
\<close>
theorem master_seed_shares_token:
  assumes f: "faults (dv_store d) = []" and seed: "trim_space c = c0" "c0 \<noteq> []" "client_by_id c0 (dv_store d) = Some m0" "cl_owner m0 = a_id admin"
    and cfg: "config_of c0 (dv_store d) = Some mc" "cc_config_proto mc \<noteq> []" "w_config_of (de_wire E) (cc_config_proto mc) = Some cfg0"
    and flags: "scopeTurn \<in> flags" "is_section (map_of cfg0 ''turn'')"
  shows "\<exists>master. fst (handleMasterConfigSeed E admin (Some (c, link)) d) = MasterSeed master \<and>
    (\<forall>target. map_of (mergeMasterIntoConfig target master flags) ''turn'' = map_of cfg0 ''turn'')"
proof -
  have s: "handleMasterConfigSeed E admin (Some (c, link)) d = (MasterSeed (stripMasterIdentity cfg0), d)"
    using f seed cfg
    by (simp add: handleMasterConfigSeed_def resolveMasterSeed_def Let_def FindClientByID_ok GetClientConfig_def bindE_def find_row_ok toClientConfig_def ret_def)
  have t: "map_of (stripMasterIdentity cfg0) ''turn'' = map_of cfg0 ''turn''"
    by (simp add: stripMasterIdentity_def Let_def split: option.split)
  have "map_of (mergeMasterIntoConfig target (stripMasterIdentity cfg0) flags) ''turn'' = map_of cfg0 ''turn''" for target
    using flags by (simp add: mergeMasterIntoConfig_def when_set_get take_section_get take_xray_get t)
  then show ?thesis using s by auto
qed

text \<open>An unset synchronisation mode does not stay unset. What the handler stores as empty, meaning leave the
  devices' mode alone, is read back as \<^verbatim>\<open>always\<close>: the insert fills in the column's default, and the apply then
  takes it for a mode to set.
\<close>
theorem master_sync_default:
  assumes "faults s = []" "fk_admin (mc_AdminID m) s" "mc_SyncMode m = []"
  shows "\<exists>s' r. SaveMasterConfig m s = (Inr (), s') \<and> fst (GetMasterConfig (mc_AdminID m) s') = Inr r \<and> mc_SyncMode r = ''always''"
  using assms
  by (cases "master_of (mc_AdminID m) s")
    (auto simp: SaveMasterConfig_def GetMasterConfig_def bindE_def asks_def upsert_rows_ok attempt_app query_first_ok ret_def
      master_of_def master_table.find_upsert_one master_upd_def toMasterConfig_def)

subsection \<open>Witnesses\<close>

definition house_rules :: message where
  "house_rules = [(''xray'', Message [(''settings'', Message [(''remote_dns'', Scalar (Str ''1.1.1.1''))])]), (''bye_dpi'', Message [])]"

lemma sample_sections: "sections_ok house_rules" "sections_ok stored_config"
  by (simp_all add: sections_ok_def house_rules_def stored_config_def is_section_def xray_of_def message_of_def)

theorem master_touches_scopes_witness:
  "leaf (mergeMasterIntoConfig stored_config house_rules {scopeXraySettings}) [''xray'', ''settings'', ''remote_dns''] = Some (Scalar (Str ''1.1.1.1'')) \<and>
   leaf (mergeMasterIntoConfig stored_config house_rules {scopeXraySettings}) [''xray'', ''active_profile_id''] = Some (Scalar (Str ''old''))"
  using master_touches_scopes [OF sample_sections, of "{scopeXraySettings}" "[''xray'', ''settings'', ''remote_dns'']"]
    master_touches_scopes [OF sample_sections, of "{scopeXraySettings}" "[''xray'', ''active_profile_id'']"]
  by (simp add: scope_of_def) (simp add: house_rules_def stored_config_def)

theorem master_keeps_invariant_witness:
  "wf_store (dv_store (snd (handleMasterConfigApply sample_desk [] root_admin (desk DriverSQLite)))) \<and>
    wf_store (dv_store (snd (respondMasterConfigPut sample_desk root_admin None (desk DriverSQLite))))"
  by (rule master_keeps_invariant)
    (simp add: desk_def wf_defs uniq_def refers_def orefers_def sample_defs wg_key_def pt_key_def)

definition sample_master :: master_config where
  "sample_master = \<lparr>mc_AdminID = 1, mc_ConfigProto = encode_message house_rules, mc_SyncMode = [], mc_PeriodicIntervalMinutes = 0,
     mc_ScopeFlags = ''xray_settings'', mc_UpdatedAt = 0\<rparr>"

theorem master_apply_over_fault_witness:
  "\<exists>m cfg. config_of ''c1'' (dv_store (snd (apply_to_client sample_desk root_admin sample_master house_rules {scopeXraySettings}
      (phone\<lparr>HasRootAccess := True\<rparr>) faulty_desk))) = Some m \<and> decode_message (cc_config_proto m) = Some cfg \<and>
    leaf stored_config [''xray'', ''active_profile_id''] = Some (Scalar (Str ''old'')) \<and> leaf cfg [''xray'', ''active_profile_id''] = None"
proof -
  let ?c = "phone\<lparr>HasRootAccess := True\<rparr>"
  have f: "faults (dv_store faulty_desk) = [True]" "fk_client (ID ?c) (dv_store faulty_desk)"
    by (simp add: faulty_desk_def) (simp add: faulty_desk_def desk_def fk_client_def, simp add: sample_defs)
  obtain m cfg where c: "config_of (ID ?c) (dv_store (snd (apply_to_client sample_desk root_admin sample_master house_rules {scopeXraySettings} ?c faulty_desk))) = Some m"
    "w_config_of (de_wire sample_desk) (cc_config_proto m) = Some cfg"
    "\<forall>p. service_field [] (hd p) \<or> (case scope_of p of Some s \<Rightarrow> s \<in> {scopeXraySettings} | None \<Rightarrow> False) \<or> leaf cfg p = None"
    using master_apply_over_fault [OF f sample_desk_simps(3) _ sample_sections(1), where admin = root_admin and master = sample_master and flags = "{scopeXraySettings}"]
    by auto
  have "leaf cfg [''xray'', ''active_profile_id''] = None"
    using c(3) [THEN spec, of "[''xray'', ''active_profile_id'']"] by (simp add: service_field_def scope_of_def)
  then show ?thesis using c(1,2) by (simp add: stored_config_def)
qed

theorem master_seed_shares_token_witness:
  "\<exists>master. fst (handleMasterConfigSeed sample_desk root_admin (Some (''c1'', [])) (desk_with linked_config)) = MasterSeed master \<and>
    (\<forall>target. map_of (mergeMasterIntoConfig target master {scopeTurn}) ''turn'' = map_of linked_config ''turn'')"
  by (rule master_seed_shares_token [OF desk_with_simps(1) c1_trimmed _ desk_with_simps(2) _ desk_with_simps(3)])
    (simp_all add: new_client_row_def, simp_all add: encode_message_def linked_config_def is_section_def)

theorem master_sync_default_witness:
  "\<exists>s' r. SaveMasterConfig sample_master (sample_store DriverSQLite) = (Inr (), s') \<and> fst (GetMasterConfig 1 s') = Inr r \<and> mc_SyncMode r = ''always''"
  using master_sync_default [of "sample_store DriverSQLite" sample_master]
  by (simp add: sample_master_def fk_admin_def) (simp add: sample_defs)

end
