(* ===== verification/Base64.thy ===== *)
theory Base64
  imports Prelude
begin

text \<open>
  \<^verbatim>\<open>encoding/base64\<close> of Go's standard library with the URL alphabet: the encoding without padding, and the two
  decoders the link parser tries, \<^verbatim>\<open>RawURLEncoding\<close> and \<^verbatim>\<open>URLEncoding\<close>. Both skip carriage returns and
  newlines and neither looks at the unused bits of the last character.
\<close>

definition b64_char :: "nat \<Rightarrow> char" where
  "b64_char n = char_of (if n < 26 then 65 + n else if n < 52 then 71 + n else if n < 62 then n - 4 else if n = 62 then 45 else 95)"

definition b64_value :: "char \<Rightarrow> nat option" where
  "b64_value c = (let n = of_char c :: nat in
     if 65 \<le> n \<and> n \<le> 90 then Some (n - 65)
     else if 97 \<le> n \<and> n \<le> 122 then Some (n - 71)
     else if 48 \<le> n \<and> n \<le> 57 then Some (n + 4)
     else if n = 45 then Some 62 else if n = 95 then Some 63 else None)"

fun b64_sextets :: "nat list \<Rightarrow> nat list" where
  "b64_sextets [] = []"
| "b64_sextets [a] = [a div 4, a mod 4 * 16]"
| "b64_sextets [a, b] = [a div 4, a mod 4 * 16 + b div 16, b mod 16 * 4]"
| "b64_sextets (a # b # c # bs) = a div 4 # (a mod 4 * 16 + b div 16) # (b mod 16 * 4 + c div 64) # c mod 64 # b64_sextets bs"

definition b64_encode :: "bytes \<Rightarrow> string" where
  "b64_encode bs = map b64_char (b64_sextets (map of_char bs))"

fun b64_octets :: "nat list \<Rightarrow> nat list option" where
  "b64_octets [] = Some []"
| "b64_octets [w] = None"
| "b64_octets [w, x] = Some [w * 4 + x div 16]"
| "b64_octets [w, x, y] = Some [w * 4 + x div 16, x mod 16 * 16 + y div 4]"
| "b64_octets (w # x # y # z # ns) =
     map_option (\<lambda>bs. (w * 4 + x div 16) # (x mod 16 * 16 + y div 4) # (y mod 4 * 64 + z) # bs) (b64_octets ns)"

definition b64_read :: "string \<Rightarrow> bytes option" where
  "b64_read s = (case those (map b64_value s) of
     None \<Rightarrow> None | Some ns \<Rightarrow> map_option (map char_of) (b64_octets ns))"

definition no_newlines :: "string \<Rightarrow> string" where
  "no_newlines s = filter (\<lambda>c. c \<noteq> CHR 0x0A \<and> c \<noteq> CHR 0x0D) s"

definition RawURLDecode :: "string \<Rightarrow> bytes option" where
  "RawURLDecode s = b64_read (no_newlines s)"

text \<open>With padding the input is a whole number of quanta, the last filled up with equal signs.\<close>

definition URLDecode :: "string \<Rightarrow> bytes option" where
  "URLDecode s = (let t = no_newlines s; body = takeWhile (\<lambda>c. c \<noteq> CHR ''='') t; padding = dropWhile (\<lambda>c. c \<noteq> CHR ''='') t in
     if padding = replicate ((4 - length body mod 4) mod 4) (CHR ''='') then b64_read body else None)"

subsection \<open>Lemmas\<close>

lemma b64_value_char [simp]: "n < 64 \<Longrightarrow> b64_value (b64_char n) = Some n"
  by (auto simp: b64_value_def b64_char_def Let_def)

lemma sextets_bound: "\<forall>b \<in> set bs. b < 256 \<Longrightarrow> \<forall>n \<in> set (b64_sextets bs). n < 64"
proof (induction bs rule: b64_sextets.induct)
  case (4 a b c bs)
  then have "a div 4 < 64" "b div 16 < 16" "c div 64 < 4" "b mod 16 * 4 < 61" "a mod 4 * 16 < 49" by (auto simp: less_mult_imp_div_less)
  then show ?case using 4 by auto
qed (auto simp: less_mult_imp_div_less)

lemma octets_sextets: "\<forall>b \<in> set bs. b < 256 \<Longrightarrow> b64_octets (b64_sextets bs) = Some bs"
proof (induction bs rule: b64_sextets.induct)
  case (3 a b)
  then have "b div 16 < 16" by (simp add: less_mult_imp_div_less)
  then show ?case by simp
next
  case (4 a b c bs)
  then have "b div 16 < 16" "c div 64 < 4" by (simp_all add: less_mult_imp_div_less)
  then show ?case using 4 by simp
qed simp_all

lemma those_values: "\<forall>n \<in> set ns. n < 64 \<Longrightarrow> those (map b64_value (map b64_char ns)) = Some ns"
  by (induction ns) auto

lemma byte_codes: "\<forall>n \<in> set (map of_char bs). n < (256 :: nat)"
  by auto

lemma codes_back: "map char_of (map of_char bs :: nat list) = bs"
  by (simp add: comp_def)

lemma read_encode: "b64_read (b64_encode bs) = Some bs"
  by (simp add: b64_read_def b64_encode_def those_values [OF sextets_bound [OF byte_codes]] octets_sextets [OF byte_codes] codes_back
    del: map_map)

lemma those_None: "x \<in> set xs \<Longrightarrow> x = None \<Longrightarrow> those xs = None"
  by (induction xs) (auto split: option.splits)

lemma read_foreign: "c \<in> set s \<Longrightarrow> b64_value c = None \<Longrightarrow> b64_read s = None"
  by (simp add: b64_read_def those_None [of None] image_iff) (metis image_eqI those_None set_map option.simps(4))

lemma encode_alphabet: "c \<in> set (b64_encode bs) \<Longrightarrow> b64_value c \<noteq> None"
  using sextets_bound [OF byte_codes, of bs] by (auto simp: b64_encode_def)

lemma encode_nonempty: "bs \<noteq> [] \<Longrightarrow> b64_encode bs \<noteq> []"
  by (cases "map of_char bs :: nat list" rule: b64_sextets.cases) (auto simp: b64_encode_def)

lemma no_newlines_id: "\<forall>c \<in> set s. b64_value c \<noteq> None \<Longrightarrow> no_newlines s = s"
  by (auto simp: no_newlines_def filter_id_conv b64_value_def Let_def)

end
