(* ===== verification/Links.thy ===== *)
theory Links
  imports MasterDesk Base64
begin

text \<open>
  The share links of \<^verbatim>\<open>internal/preview\<close>: \<^verbatim>\<open>builder.go\<close>, \<^verbatim>\<open>vless.go\<close> and the decoding part of \<^verbatim>\<open>parser.go\<close>.
  Protobuf, brotli, zlib and flate, and \<^verbatim>\<open>net/url\<close> are parameters; the random identifier of a VLESS profile is an
  argument.
\<close>

record url =
  url_host :: string
  url_port :: string
  url_fragment :: string

record link_env =
  le_marshal :: "message \<Rightarrow> bytes option"
  le_unmarshal :: "bytes \<Rightarrow> message option"
  le_brotli :: "bytes \<Rightarrow> bytes option"
  le_unbrotli :: "bytes \<Rightarrow> bytes option"
  le_zlib :: "bytes \<Rightarrow> bytes option"
  le_unzlib :: "bytes \<Rightarrow> bytes option option"
  le_inflate :: "bytes \<Rightarrow> bytes option"
  le_url_parse :: "string \<Rightarrow> url option"
  le_query_unescape :: "string \<Rightarrow> string option"

definition SchemePrefix :: string where "SchemePrefix = ''wingsv://''"
definition FormatProtobufDeflate :: nat where "FormatProtobufDeflate = 18"
definition FormatProtobufBrotli :: nat where "FormatProtobufBrotli = 19"

subsection \<open>Building\<close>

definition brotliFrame :: "link_env \<Rightarrow> message \<Rightarrow> bytes option" where
  "brotliFrame L config = (case le_marshal L config of
     None \<Rightarrow> None
   | Some raw \<Rightarrow> map_option (\<lambda>z. char_of FormatProtobufBrotli # z) (le_brotli L raw))"

definition replace_all :: "char \<Rightarrow> char \<Rightarrow> string \<Rightarrow> string" where
  "replace_all a b s = map (\<lambda>c. if c = a then b else c) s"

definition encodeLinkPayload :: "bytes \<Rightarrow> string" where
  "encodeLinkPayload framed = (let encoded = replace_all (CHR ''_'') (CHR ''.'') (b64_encode framed) in
     if encoded \<noteq> [] \<and> last encoded = CHR ''.'' then encoded @ ''='' else encoded)"

definition BuildWingsLink :: "link_env \<Rightarrow> message \<Rightarrow> string option" where
  "BuildWingsLink L config = map_option (\<lambda>f. SchemePrefix @ encodeLinkPayload f) (brotliFrame L config)"

definition BuildWingsLinkLegacyAlphabet :: "link_env \<Rightarrow> message \<Rightarrow> string option" where
  "BuildWingsLinkLegacyAlphabet L config = map_option (\<lambda>f. SchemePrefix @ b64_encode f) (brotliFrame L config)"

definition BuildWingsLinkDeflate :: "link_env \<Rightarrow> message \<Rightarrow> string option" where
  "BuildWingsLinkDeflate L config = (case le_marshal L config of
     None \<Rightarrow> None
   | Some raw \<Rightarrow> map_option (\<lambda>z. SchemePrefix @ b64_encode (char_of FormatProtobufDeflate # z)) (le_zlib L raw))"

definition build_as :: "link_env \<Rightarrow> link_format \<Rightarrow> message \<Rightarrow> string option" where
  "build_as L format = (case format of
     Brotli \<Rightarrow> BuildWingsLink L | Deflate \<Rightarrow> BuildWingsLinkDeflate L | BrotliLegacy \<Rightarrow> BuildWingsLinkLegacyAlphabet L)"

subsection \<open>Parsing\<close>

definition trim_right_of :: "char \<Rightarrow> string \<Rightarrow> string" where
  "trim_right_of a s = rev (dropWhile (\<lambda>c. c = a) (rev s))"

definition normalizeBase64 :: "string \<Rightarrow> string" where
  "normalizeBase64 v = replace_all (CHR ''.'') (CHR ''_'') (trim_right_of (CHR ''='') (trim_space v))"

definition inflatePayload :: "link_env \<Rightarrow> bytes \<Rightarrow> bytes option" where
  "inflatePayload L payload = (if payload = [] then None
     else (case le_unzlib L payload of Some r \<Rightarrow> r | None \<Rightarrow> le_inflate L payload))"

fun decompressPayload :: "link_env \<Rightarrow> bytes \<Rightarrow> bytes option" where
  "decompressPayload L [] = None"
| "decompressPayload L (f # rest) =
     (if f = char_of FormatProtobufBrotli then le_unbrotli L rest
      else if f = char_of FormatProtobufDeflate then inflatePayload L rest else None)"

definition decode_link_body :: "string \<Rightarrow> bytes option" where
  "decode_link_body payload = (case RawURLDecode payload of Some b \<Rightarrow> Some b | None \<Rightarrow> URLDecode payload)"

definition ParseWingsConfig :: "link_env \<Rightarrow> string \<Rightarrow> message option" where
  "ParseWingsConfig L raw =
     (if \<not> has_prefix (to_lower raw) SchemePrefix then None
      else (case decode_link_body (normalizeBase64 (trim_prefix raw SchemePrefix)) of
        None \<Rightarrow> None
      | Some decoded \<Rightarrow>
          if decoded = [] then None
          else (case decompressPayload L decoded of None \<Rightarrow> None | Some inflated \<Rightarrow> le_unmarshal L inflated)))"

definition CONFIG_TYPE_XRAY :: int where "CONFIG_TYPE_XRAY = 2"
definition BACKEND_TYPE_XRAY :: int where "BACKEND_TYPE_XRAY = 2"

definition digit_of :: "char \<Rightarrow> nat option" where
  "digit_of c = (let n = of_char c :: nat in if 48 \<le> n \<and> n \<le> 57 then Some (n - 48) else None)"

text \<open>\<^verbatim>\<open>strconv.ParseUint(s, 10, 32)\<close>\<close>

definition parse_uint32 :: "string \<Rightarrow> nat option" where
  "parse_uint32 s = (case those (map digit_of s) of
     None \<Rightarrow> None
   | Some ds \<Rightarrow> let n = foldl (\<lambda>v d. 10 * v + d) 0 ds in if s \<noteq> [] \<and> n < 2 ^ 32 then Some n else None)"

definition vless_title :: "link_env \<Rightarrow> url \<Rightarrow> string" where
  "vless_title L uri = (let fragment = trim_space (url_fragment uri) in
     if fragment = [] then url_host uri
     else (case le_query_unescape L fragment of
       Some decoded \<Rightarrow> if decoded \<noteq> [] then decoded else url_host uri | None \<Rightarrow> url_host uri))"

definition vless_profile :: "link_env \<Rightarrow> string \<Rightarrow> string \<Rightarrow> url \<Rightarrow> message" where
  "vless_profile L profileID raw uri =
     (let port = (if url_port uri = [] then 0 else (case parse_uint32 (url_port uri) of Some p \<Rightarrow> p | None \<Rightarrow> 0)) in
      set_text ''id'' profileID (set_text ''title'' (vless_title L uri) (set_text ''raw_link'' raw (set_text ''address'' (url_host uri)
        (with_field ''port'' (if port > 0 then Some (Scalar (Num (int port))) else None) [])))))"

definition ParseVlessConfig :: "link_env \<Rightarrow> string \<Rightarrow> string \<Rightarrow> message option" where
  "ParseVlessConfig L profileID raw0 =
     (let raw = trim_space raw0 in
      if \<not> has_prefix (to_lower raw) ''vless://'' then None
      else (case le_url_parse L raw of
        None \<Rightarrow> None
      | Some uri \<Rightarrow>
          if url_host uri = [] then None
          else Some (set_message ''xray'' (Some (set_text ''active_profile_id'' profileID
              (set_Profiles [vless_profile L profileID raw uri] [])))
            (set_num ''type'' CONFIG_TYPE_XRAY (set_num ''backend'' BACKEND_TYPE_XRAY new_config)))))"

definition ParseLinkConfig :: "link_env \<Rightarrow> string \<Rightarrow> string \<Rightarrow> message option" where
  "ParseLinkConfig L profileID raw0 =
     (let raw = trim_space raw0; lower = to_lower raw in
      if raw = [] then None
      else if has_prefix lower ''vless://'' then ParseVlessConfig L profileID raw
      else if has_prefix lower SchemePrefix then ParseWingsConfig L raw
      else None)"

subsection \<open>What the codecs promise\<close>

text \<open>Protobuf, brotli and zlib give back what they were given, as their documentation states.\<close>

locale link_codecs =
  fixes L :: link_env
  assumes wire: "\<exists>raw. le_marshal L m = Some raw \<and> le_unmarshal L raw = Some m"
    and brotli: "\<exists>z. le_brotli L raw = Some z \<and> le_unbrotli L z = Some raw"
    and zlib: "\<exists>z. le_zlib L raw = Some z \<and> z \<noteq> [] \<and> le_unzlib L z = Some (Some raw)"
begin

lemma frame:
  obtains z raw where "brotliFrame L m = Some (char_of FormatProtobufBrotli # z)" "le_unbrotli L z = Some raw" "le_unmarshal L raw = Some m"
  using wire [of m] brotli by (auto simp: brotliFrame_def) metis

end

definition plain_codecs :: link_env where
  "plain_codecs = \<lparr>le_marshal = (\<lambda>m. Some (encode_message m)), le_unmarshal = decode_message,
     le_brotli = Some, le_unbrotli = Some, le_zlib = (\<lambda>b. Some (CHR ''z'' # b)),
     le_unzlib = (\<lambda>b. case b of [] \<Rightarrow> None | c # r \<Rightarrow> if c = CHR ''z'' then Some (Some r) else None), le_inflate = (\<lambda>_. None),
     le_url_parse = (\<lambda>_. Some \<lparr>url_host = ''h'', url_port = ''443'', url_fragment = ''home''\<rparr>), le_query_unescape = Some\<rparr>"

interpretation plain: link_codecs plain_codecs
  by unfold_locales (simp_all add: plain_codecs_def)

subsection \<open>Lemmas\<close>

lemma dotted_value: "b64_value (CHR ''.'') = None" "b64_value (CHR ''='') = None" "b64_value (CHR '':'') = None"
  by (simp_all add: b64_value_def)

lemma value_not_space: "b64_value c \<noteq> None \<Longrightarrow> \<not> is_space c"
  by (auto simp: b64_value_def is_space_def Let_def)

lemma replace_back: "CHR ''.'' \<notin> set s \<Longrightarrow> replace_all (CHR ''.'') (CHR ''_'') (replace_all (CHR ''_'') (CHR ''.'') s) = s"
  by (induction s) (auto simp: replace_all_def)

lemma trim_space_id: "(\<And>c. c \<in> set s \<Longrightarrow> \<not> is_space c) \<Longrightarrow> trim_space s = s"
proof -
  assume a: "\<And>c. c \<in> set s \<Longrightarrow> \<not> is_space c"
  have "trim_left s = s" "trim_left (rev s) = rev s"
    using a by (auto simp: trim_left_def dropWhile_eq_self_iff hd_rev)
  then show ?thesis by (simp add: trim_space_def)
qed

lemma trim_right_id: "a \<notin> set s \<Longrightarrow> trim_right_of a s = s" "a \<notin> set s \<Longrightarrow> trim_right_of a (s @ [a]) = s"
proof -
  assume "a \<notin> set s"
  then have "dropWhile (\<lambda>c. c = a) (rev s) = rev s" by (metis (mono_tags) dropWhile_eq_self_iff hd_in_set set_rev)
  then show "trim_right_of a s = s" "trim_right_of a (s @ [a]) = s" by (simp_all add: trim_right_of_def)
qed

lemma legacy_body: "normalizeBase64 (b64_encode bs) = b64_encode bs"
proof -
  have v: "c \<in> set (b64_encode bs) \<Longrightarrow> b64_value c \<noteq> None" for c by (rule encode_alphabet)
  have "trim_space (b64_encode bs) = b64_encode bs" by (rule trim_space_id) (use v value_not_space in blast)
  moreover have "CHR ''='' \<notin> set (b64_encode bs)" "CHR ''.'' \<notin> set (b64_encode bs)" using v dotted_value by blast+
  moreover have "replace_all (CHR ''.'') (CHR ''_'') s = s" if "CHR ''.'' \<notin> set s" for s
    using that by (auto simp: replace_all_def intro: map_idI)
  ultimately show ?thesis by (simp add: normalizeBase64_def trim_right_id)
qed

lemma dotted_body: "normalizeBase64 (encodeLinkPayload bs) = b64_encode bs"
proof -
  let ?e = "replace_all (CHR ''_'') (CHR ''.'') (b64_encode bs)"
  have v: "c \<in> set (b64_encode bs) \<Longrightarrow> b64_value c \<noteq> None" for c by (rule encode_alphabet)
  have e: "c \<in> set ?e \<Longrightarrow> c = CHR ''.'' \<or> b64_value c \<noteq> None" for c using v by (auto simp: replace_all_def)
  have eq: "CHR ''='' \<notin> set ?e" using e [of "CHR ''=''"] dotted_value(2) by auto
  have sp: "\<not> is_space c" if "c \<in> set ?e" for c using e [OF that] value_not_space by (auto simp: is_space_def)
  have "CHR ''.'' \<notin> set (b64_encode bs)" using v dotted_value by blast
  then have restored: "replace_all (CHR ''.'') (CHR ''_'') ?e = b64_encode bs" by (rule replace_back)
  have t1: "trim_space ?e = ?e" by (rule trim_space_id) (rule sp)
  have "\<not> is_space c" if "c \<in> set (?e @ [CHR ''=''])" for c
    using that sp by (auto simp: is_space_def)
  then have t2: "trim_space (?e @ [CHR ''='']) = ?e @ [CHR ''='']" by (rule trim_space_id)
  show ?thesis using eq restored t1 t2 by (simp add: normalizeBase64_def encodeLinkPayload_def Let_def trim_right_id)
qed

lemma body_decodes: "decode_link_body (b64_encode bs) = Some bs"
  using no_newlines_id [of "b64_encode bs"] encode_alphabet by (simp add: decode_link_body_def RawURLDecode_def read_encode)

lemma scheme_parse:
  assumes "normalizeBase64 body = b64_encode (f # z)"
  shows "ParseWingsConfig L (SchemePrefix @ body) = (case decompressPayload L (f # z) of None \<Rightarrow> None | Some i \<Rightarrow> le_unmarshal L i)"
proof -
  have "to_lower (SchemePrefix @ body) = SchemePrefix @ to_lower body" by (simp add: to_lower_def SchemePrefix_def lower_char_def)
  then show ?thesis using assms by (simp add: ParseWingsConfig_def has_prefix_def trim_prefix_def body_decodes)
qed

lemma trim_pad:
  assumes "list_all is_space before" "list_all is_space after" "s \<noteq> []" "\<And>c. c \<in> set s \<Longrightarrow> \<not> is_space c"
  shows "trim_space (before @ s @ after) = s"
proof -
  have drop: "dropWhile is_space (ws @ r) = r" if "list_all is_space ws" "r = [] \<or> \<not> is_space (hd r)" for ws r
    using that by (subst dropWhile_append2) (auto simp: list_all_iff dropWhile_eq_self_iff)
  have "hd (s @ after) = hd s" "hd (rev s) = last s" using assms(3) by (simp_all add: hd_rev)
  then show ?thesis
    using assms drop [of before "s @ after"] drop [of "rev after" "rev s"]
    by (simp add: trim_space_def trim_left_def list_all_rev)
qed

lemma payload_chars: "c \<in> set (encodeLinkPayload bs) \<Longrightarrow> b64_value c \<noteq> None \<or> c \<in> {CHR ''.'', CHR ''=''}"
proof -
  assume c: "c \<in> set (encodeLinkPayload bs)"
  have "c \<in> set (replace_all (CHR ''_'') (CHR ''.'') (b64_encode bs)) \<or> c = CHR ''=''"
    using c by (auto simp: encodeLinkPayload_def Let_def split: if_splits)
  then show ?thesis using encode_alphabet by (auto simp: replace_all_def)
qed

lemma payload_nonempty: "bs \<noteq> [] \<Longrightarrow> encodeLinkPayload bs \<noteq> []"
  using encode_nonempty [of bs] by (simp add: encodeLinkPayload_def Let_def replace_all_def)

lemma link_chars: "build_as L fmt m = Some link \<Longrightarrow> \<exists>body. link = SchemePrefix @ body \<and> body \<noteq> [] \<and>
    (\<forall>c \<in> set body. b64_value c \<noteq> None \<or> c \<in> {CHR ''.'', CHR ''=''})"
proof -
  assume "build_as L fmt m = Some link"
  then obtain f z body where b: "link = SchemePrefix @ body" "body = b64_encode (f # z) \<or> body = encodeLinkPayload (f # z)"
    by (cases fmt) (auto simp: build_as_def BuildWingsLink_def BuildWingsLinkDeflate_def BuildWingsLinkLegacyAlphabet_def
      brotliFrame_def split: option.splits)
  show ?thesis using b(2)
  proof
    assume "body = b64_encode (f # z)"
    then show ?thesis using b(1) encode_nonempty [of "f # z"] encode_alphabet [of _ "f # z"] by blast
  next
    assume "body = encodeLinkPayload (f # z)"
    then show ?thesis using b(1) payload_nonempty [of "f # z"] payload_chars [of _ "f # z"] by blast
  qed
qed

lemma link_no_space:
  assumes "build_as L fmt m = Some link" "c \<in> set link"
  shows "\<not> is_space c"
proof -
  obtain body where b: "link = SchemePrefix @ body" "\<forall>c \<in> set body. b64_value c \<noteq> None \<or> c \<in> {CHR ''.'', CHR ''=''}"
    using link_chars [OF assms(1)] by blast
  have "\<not> is_space c" if "c \<in> set SchemePrefix" using that by (auto simp: SchemePrefix_def is_space_def)
  moreover have "\<not> is_space (CHR ''.'')" "\<not> is_space (CHR ''='')" by (simp_all add: is_space_def)
  ultimately show ?thesis using assms(2) b value_not_space [of c] by auto
qed

lemma dispatch: "trim_space (SchemePrefix @ body) = SchemePrefix @ body \<Longrightarrow>
    ParseLinkConfig L pid (SchemePrefix @ body) = ParseWingsConfig L (SchemePrefix @ body)"
  by (simp add: ParseLinkConfig_def Let_def) (simp add: SchemePrefix_def has_prefix_def to_lower_def lower_char_def)

lemma link_parses:
  assumes "link_codecs L"
  obtains link where "build_as L fmt m = Some link" "\<And>pid. ParseLinkConfig L pid link = Some m"
proof -
  obtain raw where raw: "le_marshal L m = Some raw" "le_unmarshal L raw = Some m" using link_codecs.wire [OF assms] by blast
  obtain z where z: "le_brotli L raw = Some z" "le_unbrotli L z = Some raw" using link_codecs.brotli [OF assms] by blast
  obtain y where y: "le_zlib L raw = Some y" "y \<noteq> []" "le_unzlib L y = Some (Some raw)" using link_codecs.zlib [OF assms] by blast
  have parsed: "ParseLinkConfig L pid link = Some m"
    if "build_as L fmt m = Some link" "link = SchemePrefix @ body" "normalizeBase64 body = b64_encode (f # c)"
      "decompressPayload L (f # c) = Some raw" for link body f c pid
  proof -
    have "trim_space link = link" by (rule trim_space_id) (rule link_no_space [OF that(1)])
    then have "ParseLinkConfig L pid link = ParseWingsConfig L link" using dispatch [of body L pid] that(2) by simp
    then show ?thesis using scheme_parse [OF that(3), of L] that(2,4) raw(2) by simp
  qed
  have neq: "(char_of FormatProtobufBrotli :: char) \<noteq> char_of FormatProtobufDeflate"
    by (simp add: FormatProtobufBrotli_def FormatProtobufDeflate_def)
  have packed: "decompressPayload L (char_of FormatProtobufBrotli # z) = Some raw" "decompressPayload L (char_of FormatProtobufDeflate # y) = Some raw"
    using z y neq by (simp_all add: inflatePayload_def)
  show thesis
  proof (cases fmt)
    case Brotli
    then have b: "build_as L fmt m = Some (SchemePrefix @ encodeLinkPayload (char_of FormatProtobufBrotli # z))"
      using raw z by (simp add: build_as_def BuildWingsLink_def brotliFrame_def)
    show ?thesis using that [OF b] parsed [OF b refl dotted_body packed(1)] by blast
  next
    case Deflate
    then have b: "build_as L fmt m = Some (SchemePrefix @ b64_encode (char_of FormatProtobufDeflate # y))"
      using raw y by (simp add: build_as_def BuildWingsLinkDeflate_def)
    show ?thesis using that [OF b] parsed [OF b refl legacy_body packed(2)] by blast
  next
    case BrotliLegacy
    then have b: "build_as L fmt m = Some (SchemePrefix @ b64_encode (char_of FormatProtobufBrotli # z))"
      using raw z by (simp add: build_as_def BuildWingsLinkLegacyAlphabet_def brotliFrame_def)
    show ?thesis using that [OF b] parsed [OF b refl legacy_body packed(1)] by blast
  qed
qed

lemma read_foreign_kept: "c \<in> set s \<Longrightarrow> b64_value c = None \<Longrightarrow> c \<notin> {CHR 0x0A, CHR 0x0D, CHR ''=''} \<Longrightarrow> decode_link_body s = None"
proof -
  assume c: "c \<in> set s" "b64_value c = None" "c \<notin> {CHR 0x0A, CHR 0x0D, CHR ''=''}"
  let ?t = "no_newlines s"
  have t: "c \<in> set ?t" using c by (auto simp: no_newlines_def)
  have "URLDecode s = None"
  proof (cases "c \<in> set (takeWhile (\<lambda>c. c \<noteq> CHR ''='') ?t)")
    case True
    then show ?thesis using read_foreign c(2) by (simp add: URLDecode_def Let_def)
  next
    case False
    then have "c \<in> set (dropWhile (\<lambda>c. c \<noteq> CHR ''='') ?t)" using t by (metis Un_iff set_append takeWhile_dropWhile_id)
    then have "dropWhile (\<lambda>c. c \<noteq> CHR ''='') ?t \<noteq> replicate n (CHR ''='')" for n using c(3) by auto
    then show ?thesis by (simp add: URLDecode_def Let_def)
  qed
  then show ?thesis using read_foreign [OF t c(2)] by (simp add: decode_link_body_def RawURLDecode_def)
qed

lemma normal_keeps: "c \<in> set s \<Longrightarrow> trim_space s = s \<Longrightarrow> c \<noteq> CHR ''='' \<Longrightarrow> c \<noteq> CHR ''.'' \<Longrightarrow> c \<in> set (normalizeBase64 s)"
proof -
  assume c: "c \<in> set s" "trim_space s = s" "c \<noteq> CHR ''=''" "c \<noteq> CHR ''.''"
  have "c \<in> set (takeWhile (\<lambda>c. c = CHR ''='') (rev s)) \<or> c \<in> set (dropWhile (\<lambda>c. c = CHR ''='') (rev s))"
    using c(1) takeWhile_dropWhile_id [of _ "rev s"] by (metis Un_iff set_append set_rev)
  then have "c \<in> set (dropWhile (\<lambda>c. c = CHR ''='') (rev s))" using c(3) by (blast dest: set_takeWhileD)
  then show ?thesis using c(2,4) by (auto simp: normalizeBase64_def trim_right_of_def replace_all_def image_iff)
qed

lemma buildLink_some: "\<exists>fmt d'. buildLink E cfg d = (de_link E fmt cfg, d')"
  by (simp add: buildLink_def bindD_def dbD_def retD_def split: prod.split) blast

subsection \<open>Properties\<close>

text \<open>C20: A share link reads back as the configuration it was built from, in each of the three formats the owner can
  choose and whatever white space was copied along with it.
\<close>
theorem link_roundtrip:
  assumes "link_codecs L" "list_all is_space before" "list_all is_space after"
  shows "\<exists>link. build_as L fmt m = Some link \<and> ParseLinkConfig L pid (before @ link @ after) = Some m"
proof -
  obtain link where l: "build_as L fmt m = Some link" "\<And>pid. ParseLinkConfig L pid link = Some m"
    using link_parses [OF assms(1)] by blast
  have "link \<noteq> []" using link_chars [OF l(1)] by (auto simp: SchemePrefix_def)
  then have "trim_space (before @ link @ after) = link" "trim_space link = link"
    using trim_pad [OF assms(2,3)] link_no_space [OF l(1)] trim_space_id by blast+
  then have "ParseLinkConfig L pid (before @ link @ after) = ParseLinkConfig L pid link" by (simp add: ParseLinkConfig_def)
  then show ?thesis using l by simp
qed

text \<open>A link of the main format survives a messenger: it has no underscore, which pairs of would be taken for
  markup, does not end in a dot, which is cut as the end of a sentence, and otherwise holds only letters, digits and
  a few signs.
\<close>
theorem link_text_safe:
  assumes "BuildWingsLink L m = Some link"
  shows "CHR ''_'' \<notin> set link \<and> last link \<noteq> CHR ''.'' \<and> list_all (\<lambda>c. b64_value c \<noteq> None \<or> c \<in> {CHR ''.'', CHR ''='', CHR '':'', CHR ''/''}) link"
proof -
  have b: "build_as L Brotli m = Some link" using assms by (simp add: build_as_def)
  obtain f z where fz: "link = SchemePrefix @ encodeLinkPayload (f # z)"
    using assms by (auto simp: BuildWingsLink_def brotliFrame_def split: option.splits)
  have "encodeLinkPayload (f # z) \<noteq> []" "CHR ''_'' \<notin> set (encodeLinkPayload (f # z))" "last (encodeLinkPayload (f # z)) \<noteq> CHR ''.''"
    using encode_nonempty [of "f # z"] by (auto simp: encodeLinkPayload_def Let_def replace_all_def)
  then show ?thesis using fz link_chars [OF b] by (auto simp: SchemePrefix_def list_all_iff b64_value_def)
qed

text \<open>The scheme is recognised in any case and then cut off in lower case only: a link whose scheme has a capital
  letter, as a phone keyboard writes it, passes the check for the scheme and is refused as undecodable.
\<close>
theorem odd_scheme_refused:
  assumes "trim_space raw = raw" "has_prefix (to_lower raw) SchemePrefix" "\<not> has_prefix raw SchemePrefix"
  shows "ParseLinkConfig L pid raw = None"
proof -
  have "CHR '':'' \<in> set (to_lower raw)" using assms(2) by (auto simp: has_prefix_def SchemePrefix_def dest: in_set_takeD)
    (metis in_set_takeD list.set_intros(1) list.set_intros(2))
  then obtain c where c: "c \<in> set raw" "lower_char c = CHR '':''" by (auto simp: to_lower_def)
  then have "c = CHR '':''" by (auto simp: lower_char_def Let_def split: if_splits dest!: arg_cong [where f = "of_char :: char \<Rightarrow> nat"])
  then have "decode_link_body (normalizeBase64 raw) = None"
    using read_foreign_kept [OF normal_keeps [OF c(1) assms(1)]] dotted_value(3) by simp
  then have "ParseWingsConfig L raw = None" using assms(3) by (simp add: ParseWingsConfig_def trim_prefix_def)
  moreover have "\<not> has_prefix (to_lower raw) ''vless://''" using assms(2) by (cases "to_lower raw") (auto simp: has_prefix_def SchemePrefix_def)
  ultimately show ?thesis using assms(1) by (simp add: ParseLinkConfig_def Let_def)
qed

text \<open>A configuration seeded from a VLESS link has exactly one profile, the active one, which keeps the link
  itself; its port is absent or fits 32 bits.
\<close>
theorem vless_profile_active:
  assumes "ParseVlessConfig L pid raw = Some cfg"
  shows "\<exists>xray p. message_of (map_of cfg ''xray'') = Some xray \<and> Profiles xray = [p] \<and> ProfileId p = pid \<and> ActiveProfileId xray = pid \<and>
    text_of (map_of p ''raw_link'') = trim_space raw \<and> (case map_of p ''port'' of None \<Rightarrow> True | Some v \<Rightarrow> 0 < num_of (Some v) \<and> num_of (Some v) < 2 ^ 32)"
proof -
  obtain uri where u: "le_url_parse L (trim_space raw) = Some uri"
    "cfg = set_message ''xray'' (Some (set_text ''active_profile_id'' pid (set_Profiles [vless_profile L pid (trim_space raw) uri] [])))
      (set_num ''type'' CONFIG_TYPE_XRAY (set_num ''backend'' BACKEND_TYPE_XRAY new_config))"
    using assms by (auto simp: ParseVlessConfig_def Let_def split: if_splits option.splits)
  have "parse_uint32 s = Some n \<Longrightarrow> n < 2 ^ 32" for s n by (auto simp: parse_uint32_def Let_def split: option.splits if_splits)
  then show ?thesis using u(2) by (auto simp: vless_profile_def Let_def ProfileId_def split: option.split)
qed

text \<open>Whoever scans the link of a device under the panel's control becomes that device: the link the panel issues
  reads back as a door to the panel with exactly this device's id and token, whichever format is switched on and
  whatever the database does.
\<close>
theorem control_link_roundtrip:
  assumes "link_codecs L" "de_link E = build_as L"
  shows "\<exists>link d' cfg door. buildClientLink E i name token sync periodic admin True endpoint d = (Some link, d') \<and>
    ParseLinkConfig L pid link = Some cfg \<and> message_of (map_of cfg ''guardian'') = Some door \<and>
    text_of (map_of door ''client_id'') = i \<and> text_of (map_of door ''client_token'') = token \<and> map_of cfg ''turn'' = None"
proof -
  let ?cfg = "set_message ''guardian'' (Some (guardian_block E i name token sync periodic admin)) (set_num ''type'' CONFIG_TYPE_GUARDIAN new_config)"
  obtain fmt d' where b: "buildLink E ?cfg d = (build_as L fmt ?cfg, d')" using buildLink_some assms(2) by metis
  obtain link where l: "build_as L fmt ?cfg = Some link" "\<And>pid. ParseLinkConfig L pid link = Some ?cfg" using link_parses [OF assms(1)] by blast
  have "text_of (map_of (guardian_block E i name token sync periodic admin) ''client_id'') = i"
    "text_of (map_of (guardian_block E i name token sync periodic admin) ''client_token'') = token"
    by (simp_all add: guardian_block_def)
  then show ?thesis using b l by (simp add: buildClientLink_def new_config_def)
qed

subsection \<open>Witnesses\<close>

theorem link_roundtrip_witness:
  "\<exists>link. build_as plain_codecs Brotli new_config = Some link \<and> ParseLinkConfig plain_codecs [] ('' '' @ link @ ''  '') = Some new_config"
  by (rule link_roundtrip [OF plain.link_codecs_axioms]) (simp_all add: is_space_def)

theorem link_text_safe_witness:
  "\<exists>link. BuildWingsLink plain_codecs new_config = Some link \<and> CHR ''_'' \<notin> set link \<and> last link \<noteq> CHR ''.'' \<and>
    list_all (\<lambda>c. b64_value c \<noteq> None \<or> c \<in> {CHR ''.'', CHR ''='', CHR '':'', CHR ''/''}) link"
proof -
  have b: "BuildWingsLink plain_codecs new_config = Some (SchemePrefix @ encodeLinkPayload (char_of FormatProtobufBrotli # encode_message new_config))"
    by (simp add: BuildWingsLink_def brotliFrame_def plain_codecs_def)
  show ?thesis using b link_text_safe [OF b] by simp
qed

theorem odd_scheme_refused_witness: "ParseLinkConfig plain_codecs [] ''Wingsv://EwA'' = None"
  by (rule odd_scheme_refused) code_simp+

theorem vless_profile_active_witness:
  "\<exists>xray p. message_of (map_of (the (ParseVlessConfig plain_codecs ''id'' ''vless://u@h:443#home'')) ''xray'') = Some xray \<and> Profiles xray = [p] \<and>
    ProfileId p = ''id'' \<and> ActiveProfileId xray = ''id'' \<and> text_of (map_of p ''raw_link'') = ''vless://u@h:443#home'' \<and>
    (case map_of p ''port'' of None \<Rightarrow> True | Some v \<Rightarrow> 0 < num_of (Some v) \<and> num_of (Some v) < 2 ^ 32)"
proof -
  have t: "trim_space ''vless://u@h:443#home'' = ''vless://u@h:443#home''" "has_prefix (to_lower ''vless://u@h:443#home'') ''vless://''" by code_simp+
  then have "ParseVlessConfig plain_codecs ''id'' ''vless://u@h:443#home'' \<noteq> None"
    by (simp add: ParseVlessConfig_def) (simp add: plain_codecs_def)
  then have "ParseVlessConfig plain_codecs ''id'' ''vless://u@h:443#home'' = Some (the (ParseVlessConfig plain_codecs ''id'' ''vless://u@h:443#home''))" by simp
  from vless_profile_active [OF this] show ?thesis unfolding t(1) .
qed

theorem control_link_roundtrip_witness:
  "\<exists>link d' cfg door. buildClientLink (sample_desk\<lparr>de_link := build_as plain_codecs\<rparr>) ''c1'' ''phone'' ''tok'' ''always'' 30 root_admin True [] (desk DriverSQLite) =
      (Some link, d') \<and>
    ParseLinkConfig plain_codecs [] link = Some cfg \<and> message_of (map_of cfg ''guardian'') = Some door \<and>
    text_of (map_of door ''client_id'') = ''c1'' \<and> text_of (map_of door ''client_token'') = ''tok'' \<and> map_of cfg ''turn'' = None"
  by (rule control_link_roundtrip [OF plain.link_codecs_axioms]) simp

end
