(* ===== verification/InviteDesk.thy ===== *)
theory InviteDesk
  imports SignIn Invites Links
begin

text \<open>
  Growing the invite tree: the handlers of \<^verbatim>\<open>internal/handlers/admin/invites.go\<close> and \<^verbatim>\<open>appinvites.go\<close>, over the
  sequencing of SignIn and the storage of Invites. The federation head is a parameter: what it answers to the two
  questions that decide who may invite. Refusals keep their status codes and, where the text tells things apart,
  a constructor for it.
\<close>

definition SettingFederationEnabled :: string where "SettingFederationEnabled = ''federation_enabled''"
definition maxInviteUses :: int where "maxInviteUses = 50"
definition minPledgedBytes :: u64 where "minPledgedBytes = 5 * 1024 * 1024 * 1024"
definition minDonatedBytes :: u64 where "minDonatedBytes = 1024 * 1024 * 1024"
definition minNodeAge :: int where "minNodeAge = 72 * 3600 * 1000"
definition appInviteKeep :: nat where "appInviteKeep = 3"

record donor_summary =
  ds_nodes :: u32
  ds_declared :: u64
  ds_used :: u64

record fed_node =
  fn_online :: bool
  fn_joined :: int

record federation =
  fe_enabled :: bool
  fe_summary :: "string \<Rightarrow> donor_summary option"
  fe_nodes :: "string \<Rightarrow> fed_node list option"

datatype refusal = FederationOff | HeadDown | NoNodes | SmallPledge | LittleDonated | TooFresh

record invite_view =
  iw_token :: string
  iw_created_at :: int
  iw_expires_at :: int
  iw_max_uses :: int
  iw_use_count :: int
  iw_spent :: bool
  iw_link :: string

datatype lookup_reason = NotFound | AlreadyUsed | Expired

record inviter_view =
  by_username :: string
  by_avatar_version :: int
  by_admin_id :: int
  by_remaining :: int

datatype invite_answer =
    Rejected nat
  | NotEntitled refusal
  | InviteList "invite_view list" "refusal option"
  | InviteMade invite_view
  | CodeInvalid lookup_reason
  | CodeValid inviter_view
  | Joined
  | Revoked

definition donorID :: "admin \<Rightarrow> string" where
  "donorID admin = ''admin-'' @ itoa (a_id admin)"

definition federationOn :: "federation \<Rightarrow> bool srv" where
  "federationOn F = (if \<not> fe_enabled F then retS False
     else bindS (onDb (GetPlatformSetting SettingFederationEnabled [])) (\<lambda>r.
       retS (case r of Inl _ \<Rightarrow> False | Inr value \<Rightarrow> value = ''1'' \<or> value = ''true'')))"

definition hasSeasonedNode :: "int \<Rightarrow> fed_node list \<Rightarrow> bool" where
  "hasSeasonedNode t ns = (let cutoff = (t - minNodeAge) div 1000 in
     list_ex (\<lambda>n. fn_online n \<and> fn_joined n > 0 \<and> fn_joined n \<le> cutoff) ns)"

definition donor_verdict :: "federation \<Rightarrow> int \<Rightarrow> string \<Rightarrow> refusal option" where
  "donor_verdict F t donor = (case fe_summary F donor of
     None \<Rightarrow> Some HeadDown
   | Some summary \<Rightarrow>
       if ds_nodes summary = 0 then Some NoNodes
       else if ds_declared summary < minPledgedBytes then Some SmallPledge
       else if ds_used summary < minDonatedBytes then Some LittleDonated
       else (case fe_nodes F donor of
         None \<Rightarrow> Some HeadDown
       | Some ns \<Rightarrow> if hasSeasonedNode t ns then None else Some TooFresh))"

definition mayInvite :: "federation \<Rightarrow> admin \<Rightarrow> refusal option srv" where
  "mayInvite F admin =
     (if a_role admin = RoleOwner then retS None
      else bindS (onDb (RedeemedInvite (a_id admin))) (\<lambda>r.
        if r = Inr True then retS None
        else bindS (federationOn F) (\<lambda>on.
          if \<not> on then retS (Some FederationOff)
          else bindS now (\<lambda>t. retS (donor_verdict F t (donorID admin))))))"

definition inviteView :: "string \<Rightarrow> invite_token \<Rightarrow> invite_view" where
  "inviteView base it = \<lparr>iw_token = it_token it, iw_created_at = it_created_at it, iw_expires_at = it_expires_at it,
     iw_max_uses = it_max_uses it, iw_use_count = it_use_count it,
     iw_spent = (it_max_uses it > 0 \<and> it_use_count it \<ge> it_max_uses it),
     iw_link = trim_right_of (CHR ''/'') base @ ''/register?invite='' @ it_token it\<rparr>"

definition audit_invite :: "admin \<Rightarrow> string \<Rightarrow> string \<Rightarrow> string \<Rightarrow> unit srv" where
  "audit_invite admin action token ip = note_audit \<lparr>ae_id = 0, ae_ts = None, ae_actor_admin_id = a_id admin,
     ae_actor_username = a_username admin, ae_action = action, ae_target_type = ''invite'', ae_target_id = token,
     ae_message = [], ae_ip = ip\<rparr>"

text \<open>\<^verbatim>\<open>if err != nil { writeError(w, code, ...); return }\<close>\<close>

definition orReject :: "nat \<Rightarrow> (error + 'a) srv \<Rightarrow> ('a \<Rightarrow> invite_answer srv) \<Rightarrow> invite_answer srv" where
  "orReject code m k = bindS m (\<lambda>r. case r of Inl _ \<Rightarrow> retS (Rejected code) | Inr x \<Rightarrow> k x)"

definition listInvites :: "federation \<Rightarrow> string \<Rightarrow> admin \<Rightarrow> invite_answer srv" where
  "listInvites F base admin =
     orReject 500 (onDb (ListInvitesByAdmin (a_id admin))) (\<lambda>codes.
     bindS (mayInvite F admin) (\<lambda>refused. retS (InviteList (map (inviteView base) codes) refused)))"

text \<open>The request of the panel: hours to live and uses, zero where the body left them out or did not decode.\<close>

definition expiry :: "int \<Rightarrow> int \<Rightarrow> int option" where
  "expiry t ttlHours = (if ttlHours > 0 then Some (t + wrap64 (ttlHours * 3600000000000) div 1000000) else None)"

definition createInvite :: "federation \<Rightarrow> string \<Rightarrow> bytes option \<Rightarrow> admin \<Rightarrow> (int \<times> int) option \<Rightarrow> invite_answer srv" where
  "createInvite F base draw admin body =
     bindS (mayInvite F admin) (\<lambda>refused.
     case refused of
       Some why \<Rightarrow> retS (NotEntitled why)
     | None \<Rightarrow>
         let (ttl, uses) = (case body of None \<Rightarrow> (0, 0) | Some req \<Rightarrow> req); uses = max 0 uses in
         if uses > maxInviteUses then retS (Rejected 400)
         else (case GenerateInviteCode draw of
           None \<Rightarrow> retS (Rejected 500)
         | Some token \<Rightarrow>
             bindS now (\<lambda>t.
             orReject 500 (onDb (CreateInviteWithUses token (expiry t ttl) (a_id admin) uses)) (\<lambda>invite.
             bindS (audit_invite admin ''admin.invite_created'' token []) (\<lambda>_.
             retS (InviteMade (inviteView base invite)))))))"

definition handleInvites ::
  "federation \<Rightarrow> string \<Rightarrow> bytes option \<Rightarrow> request \<Rightarrow> (int \<times> int) option \<Rightarrow> admin \<Rightarrow> invite_answer srv" where
  "handleInvites F base draw rq body admin =
     (if rq_method rq = ''GET'' then listInvites F base admin
      else if rq_method rq = ''POST'' then createInvite F base draw admin body
      else retS (Rejected 405))"

definition handleInviteLookup :: "string \<Rightarrow> invite_answer srv" where
  "handleInviteLookup query = (let token = trim_space query in
     if token = [] then retS (Rejected 400)
     else bindS (onDb (FindInvite token)) (\<lambda>r.
       case r of
         Inl _ \<Rightarrow> retS (CodeInvalid NotFound)
       | Inr invite \<Rightarrow>
           if it_max_uses invite > 0 \<and> it_use_count invite \<ge> it_max_uses invite then retS (CodeInvalid AlreadyUsed)
           else bindS now (\<lambda>t.
             if it_expires_at invite > 0 \<and> t > it_expires_at invite then retS (CodeInvalid Expired)
             else bindS (onDb (FindAdminByID (it_created_by_admin_id invite))) (\<lambda>a.
               let remaining = (if it_max_uses invite > 0 then it_max_uses invite - it_use_count invite else 0) in
               retS (CodeValid (case a of
                 Inl _ \<Rightarrow> \<lparr>by_username = [], by_avatar_version = 0, by_admin_id = 0, by_remaining = remaining\<rparr>
               | Inr admin \<Rightarrow> \<lparr>by_username = a_username admin, by_avatar_version = a_avatar_version admin,
                   by_admin_id = a_id admin, by_remaining = remaining\<rparr>))))))"

definition limitedRedeem :: "request \<Rightarrow> admin \<Rightarrow> bool srv" where
  "limitedRedeem rq admin sv = (case limitRedeem (clock (sv_store sv)) (rq_ip rq) (itoa (a_id admin)) (sv_limiter sv) of
     (ok, l) \<Rightarrow> (ok, sv\<lparr>sv_limiter := l\<rparr>))"

definition forgetAttempts :: "request \<Rightarrow> admin \<Rightarrow> unit srv" where
  "forgetAttempts rq admin sv =
     ((), sv\<lparr>sv_limiter := Forget (''ip:'' @ rq_ip rq) (Forget (''acc:'' @ itoa (a_id admin)) (sv_limiter sv))\<rparr>)"

definition handleRedeemInvite :: "request \<Rightarrow> string option \<Rightarrow> admin \<Rightarrow> invite_answer srv" where
  "handleRedeemInvite rq body admin =
     (if rq_method rq \<noteq> ''POST'' then retS (Rejected 405)
      else (case body of
        None \<Rightarrow> retS (Rejected 400)
      | Some text \<Rightarrow> (let token = trim_space text in
          if token = [] then retS (Rejected 400)
          else bindS (limitedRedeem rq admin) (\<lambda>ok.
            if \<not> ok then retS (Rejected 429)
            else bindS (onDb (RedeemedInvite (a_id admin))) (\<lambda>r.
              if r = Inr True then retS (Rejected 409)
              else orReject 404 (onDb (FindInvite token)) (\<lambda>invite.
                if it_created_by_admin_id invite = a_id admin then retS (Rejected 403)
                else orReject 403 (onDb (RedeemInvite token (a_id admin))) (\<lambda>_.
                  bindS (forgetAttempts rq admin) (\<lambda>_.
                  bindS (audit_invite admin ''admin.invite_redeemed'' token []) (\<lambda>_.
                  retS Joined)))))))))"

definition handleInviteByToken :: "request \<Rightarrow> string \<Rightarrow> admin \<Rightarrow> invite_answer srv" where
  "handleInviteByToken rq token admin =
     (if rq_method rq \<noteq> ''DELETE'' then retS (Rejected 405)
      else if token = [] \<or> CHR ''/'' \<in> set token then retS (Rejected 400)
      else orReject 404 (onDb (FindInvite token)) (\<lambda>invite.
        if it_created_by_admin_id invite \<noteq> a_id admin \<and> a_role admin \<noteq> RoleOwner then retS (Rejected 403)
        else orReject 500 (onDb (DeleteInvite token)) (\<lambda>_.
          bindS (audit_invite admin ''admin.invite_revoked'' token []) (\<lambda>_. retS Revoked))))"

subsection \<open>The application\<close>

fun revoke_each :: "admin \<Rightarrow> string list \<Rightarrow> (error + unit) srv" where
  "revoke_each admin [] = retS (Inr ())"
| "revoke_each admin (token # tokens) =
     bindS (onDb (DeleteInvite token)) (\<lambda>r. case r of
       Inl e \<Rightarrow> retS (Inl e)
     | Inr _ \<Rightarrow> bindS (audit_invite admin ''admin.invite_revoked'' token []) (\<lambda>_. revoke_each admin tokens))"

definition revokeStaleInvites :: "admin \<Rightarrow> (error + unit) srv" where
  "revokeStaleInvites admin =
     bindS (onDb (ListInvitesByAdmin (a_id admin))) (\<lambda>r. case r of
       Inl e \<Rightarrow> retS (Inl e)
     | Inr codes \<Rightarrow>
         let live = filter (\<lambda>i. it_use_count i = 0) codes in
         if length live < appInviteKeep then retS (Inr ())
         else revoke_each admin (map it_token (drop (appInviteKeep - 1) live)))"

definition createAppInvite :: "federation \<Rightarrow> string \<Rightarrow> bytes option \<Rightarrow> request \<Rightarrow> admin \<Rightarrow> invite_answer srv" where
  "createAppInvite F base draw rq admin =
     bindS (mayInvite F admin) (\<lambda>refused.
     case refused of
       Some why \<Rightarrow> retS (NotEntitled why)
     | None \<Rightarrow>
         orReject 500 (revokeStaleInvites admin) (\<lambda>_.
         case GenerateInviteCode draw of
           None \<Rightarrow> retS (Rejected 500)
         | Some token \<Rightarrow>
             orReject 500 (onDb (CreateInviteWithUses token None (a_id admin) 0)) (\<lambda>invite.
             bindS (audit_invite admin ''admin.invite_created'' token (rq_ip rq)) (\<lambda>_.
             retS (InviteMade (inviteView base invite))))))"

definition revokeAppInvite :: "request \<Rightarrow> string \<Rightarrow> admin \<Rightarrow> invite_answer srv" where
  "revokeAppInvite rq token admin =
     (if token = [] then retS (Rejected 400)
      else orReject 404 (onDb (FindInvite token)) (\<lambda>invite.
        if it_created_by_admin_id invite \<noteq> a_id admin \<and> a_role admin \<noteq> RoleOwner then retS (Rejected 403)
        else orReject 500 (onDb (DeleteInvite (it_token invite))) (\<lambda>_.
          bindS (audit_invite admin ''admin.invite_revoked'' (it_token invite) (rq_ip rq)) (\<lambda>_. retS Revoked))))"

definition handleAppInvites ::
  "federation \<Rightarrow> string \<Rightarrow> bytes option \<Rightarrow> request \<Rightarrow> string \<Rightarrow> admin \<Rightarrow> invite_answer srv" where
  "handleAppInvites F base draw rq query admin =
     (if rq_method rq = ''GET'' then listInvites F base admin
      else if rq_method rq = ''POST'' then createAppInvite F base draw rq admin
      else if rq_method rq = ''DELETE'' then revokeAppInvite rq query admin
      else retS (Rejected 405))"

subsection \<open>Lemmas\<close>

text \<open>Who is part of the tree, and who may join it as a root of their own.\<close>

definition in_tree :: "int \<Rightarrow> store \<Rightarrow> bool" where
  "in_tree a s \<longleftrightarrow> (\<exists>r \<in> set (redemptions s). rd_admin_id r = a) \<or> (\<exists>r \<in> set (invites s). iv_used_by r = Some a)"

definition worthy_donor :: "federation \<Rightarrow> int \<Rightarrow> string \<Rightarrow> bool" where
  "worthy_donor F t donor \<longleftrightarrow> (\<exists>s ns. fe_summary F donor = Some s \<and> fe_nodes F donor = Some ns \<and> 0 < ds_nodes s \<and>
     5 * 2 ^ 30 \<le> uint (ds_declared s) \<and> 2 ^ 30 \<le> uint (ds_used s) \<and>
     (\<exists>n \<in> set ns. fn_online n \<and> 0 < fn_joined n \<and> fn_joined n * 1000 + 72 * 3600 * 1000 \<le> t))"

definition keepsS :: "(store \<Rightarrow> bool) \<Rightarrow> 'a srv \<Rightarrow> bool" where
  "keepsS I m \<longleftrightarrow> (\<forall>sv. I (sv_store sv) \<longrightarrow> I (sv_store (snd (m sv))))"

lemma keepsS_intros:
  "keepsS I (retS x)" "keepsS I now" "preserves I m \<Longrightarrow> keepsS I (onDb m)" "keepsS I n \<Longrightarrow> (\<And>x. keepsS I (k x)) \<Longrightarrow> keepsS I (bindS n k)"
  by (auto simp: keepsS_def preserves_def)

lemma keepsS_more: "keepsS I (forgetAttempts rq adm)" "preserves I (AppendAudit e) \<Longrightarrow> keepsS I (note_audit e)"
    "keepsS I n \<Longrightarrow> (\<And>x. keepsS I (k x)) \<Longrightarrow> keepsS I (orReject c n k)"
    "keepsS I (limitedRedeem rq adm)"
  by (auto simp: keepsS_def preserves_def forgetAttempts_def orReject_def limitedRedeem_def note_audit_app split: prod.splits sum.splits)

lemma keepsS_cases: "keepsS I a \<Longrightarrow> keepsS I b \<Longrightarrow> keepsS I (if c then a else b)"
    "keepsS I a \<Longrightarrow> (\<And>y. keepsS I (g y)) \<Longrightarrow> keepsS I (case opt of None \<Rightarrow> a | Some y \<Rightarrow> g y)"
    "(\<And>e. keepsS I (h e)) \<Longrightarrow> (\<And>z. keepsS I (k z)) \<Longrightarrow> keepsS I (case r of Inl e \<Rightarrow> h e | Inr z \<Rightarrow> k z)"
  by (simp_all split: option.split sum.split)

lemma keepsSD: "keepsS I m \<Longrightarrow> I (sv_store sv) \<Longrightarrow> I (sv_store (snd (m sv)))"
  by (simp add: keepsS_def)

lemma orReject_app: "orReject c m k sv = (case fst (m sv) of Inl _ \<Rightarrow> (Rejected c, snd (m sv)) | Inr x \<Rightarrow> k x (snd (m sv)))"
  by (simp add: orReject_def split: sum.split)

lemmas srv_intros = keepsS_intros keepsS_more keepsS_cases

lemma RedeemedInvite_true: "fst (RedeemedInvite a s) = Inr True \<Longrightarrow> in_tree a s"
  by (auto simp: RedeemedInvite_def bindE_def select_def stmt_def in_tree_def filter_empty_conv ret_def
      split: list.splits if_splits prod.splits sum.splits)

lemma RedeemedInvite_ok: "faults s = [] \<Longrightarrow> RedeemedInvite a s = (Inr (in_tree a s), s)"
  by (auto simp: RedeemedInvite_def bindE_def select_ok in_tree_def filter_empty_conv)

lemma RedeemedInvite_clock: "clock (snd (RedeemedInvite a s)) = clock s"
  by (simp add: RedeemedInvite_def bindE_def select_def stmt_def ret_def split: list.split)

lemma setting_clock: "clock (snd (GetPlatformSetting k v s)) = clock s"
  by (simp add: GetPlatformSetting_def bindE_def attempt_def query_first_def stmt_def split: list.split option.split sum.split error.split)

lemma verdict_worthy: "donor_verdict F t donor = None \<Longrightarrow> worthy_donor F t donor"
proof -
  assume a: "donor_verdict F t donor = None"
  then obtain s ns where s: "fe_summary F donor = Some s" "fe_nodes F donor = Some ns" "ds_nodes s \<noteq> 0" "\<not> ds_declared s < minPledgedBytes"
    "\<not> ds_used s < minDonatedBytes" "hasSeasonedNode t ns" by (auto simp: donor_verdict_def split: option.splits if_splits)
  have "5 * 2 ^ 30 \<le> uint (ds_declared s)" "2 ^ 30 \<le> uint (ds_used s)"
    using s(4,5) by (simp_all add: minPledgedBytes_def minDonatedBytes_def word_less_def)
  moreover obtain n where "n \<in> set ns" "fn_online n" "0 < fn_joined n" "fn_joined n \<le> (t - minNodeAge) div 1000"
    using s(6) by (auto simp: hasSeasonedNode_def Let_def list_ex_iff)
  moreover from this have "fn_joined n * 1000 + 72 * 3600 * 1000 \<le> t" by (simp add: minNodeAge_def)
  ultimately show ?thesis using s(1-3) unfolding worthy_donor_def by (auto simp: word_gt_0)
qed

lemma mayInvite_entitled: "fst (mayInvite F admin sv) = None \<Longrightarrow>
    a_role admin = RoleOwner \<or> in_tree (a_id admin) (sv_store sv) \<or> fe_enabled F \<and> worthy_donor F (clock (sv_store sv)) (donorID admin)"
  using RedeemedInvite_true [of "a_id admin" "sv_store sv"] verdict_worthy [of F "clock (sv_store sv)" "donorID admin"]
  by (auto simp: mayInvite_def federationOn_def RedeemedInvite_clock setting_clock split: if_splits)

lemma first_sorted: "(case sort_key k (filter P xs) of [] \<Rightarrow> None | r # _ \<Rightarrow> Some r) = Some x \<Longrightarrow> x \<in> set xs \<and> P x"
proof -
  assume "(case sort_key k (filter P xs) of [] \<Rightarrow> None | r # _ \<Rightarrow> Some r) = Some x"
  then have "x \<in> set (sort_key k (filter P xs))" by (cases "sort_key k (filter P xs)") simp_all
  then show ?thesis by simp
qed

lemma query_first_some: "query_first Q s = (Inr row, s') \<Longrightarrow> \<exists>fs. s' = s\<lparr>faults := fs\<rparr> \<and> Q s' = Some row"
proof -
  assume q: "query_first Q s = (Inr row, s')"
  show ?thesis
  proof (cases "faults s")
    case Nil
    then have "s' = s" "Q s' = Some row" using q by (auto simp: query_first_def stmt_def split: option.splits)
    moreover have "s = s\<lparr>faults := []\<rparr>" using Nil by (cases s) simp
    ultimately show ?thesis by metis
  qed (use q in \<open>auto simp: query_first_def stmt_def split: option.splits if_splits\<close>)
qed

lemma FindInvite_row: "FindInvite tok s = (Inr it, s') \<Longrightarrow> invites s' = invites s \<and> (\<exists>row \<in> set (invites s). it = toInviteToken row)"
proof -
  define Q where "Q u = (case sort_key iv_token (filter (\<lambda>r. to_upper (iv_token r) = to_upper (trim_space tok)) (invites u)) of
    [] \<Rightarrow> None | r # _ \<Rightarrow> Some r)" for u :: store
  assume a: "FindInvite tok s = (Inr it, s')"
  moreover have "FindInvite tok s = (if trim_space tok = [] then (Inl ErrNotFound, s) else (case fst (query_first Q s) of
      Inl _ \<Rightarrow> (Inl ErrNotFound, snd (query_first Q s)) | Inr row \<Rightarrow> (Inr (toInviteToken row), snd (query_first Q s))))"
    by (simp add: FindInvite_def Let_def Q_def [abs_def] bindE_attempt split: sum.split)
  ultimately obtain row s1 where q: "query_first Q s = (Inr row, s1)" "it = toInviteToken row" "s' = s1"
    by (cases "query_first Q s") (auto split: if_splits sum.splits)
  obtain fs where "s1 = s\<lparr>faults := fs\<rparr>" "Q s1 = Some row" using query_first_some [OF q(1)] by blast
  then have "row \<in> set (invites s)" using first_sorted [of iv_token _ "invites s" row] by (simp add: Q_def)
  then show ?thesis using q \<open>s1 = s\<lparr>faults := fs\<rparr>\<close> by auto
qed

lemma ListInvites_row: "ListInvitesByAdmin a s = (Inr its, s') \<Longrightarrow> invites s' = invites s \<and>
    (\<forall>it \<in> set its. \<exists>row \<in> set (invites s). it = toInviteToken row \<and> iv_created_by row = Some a)"
  by (auto simp: ListInvitesByAdmin_def bindE_def select_def stmt_def ret_def dest!: in_set_takeD split: list.splits if_splits prod.splits; blast)

lemma free_invites [simp]: "fault_free (\<lambda>s :: store. P (invites s))"
  by (simp add: fault_free_def)

lemma audit_invites: "preserves (\<lambda>s :: store. P (invites s)) (AppendAudit e)"
  unfolding AppendAudit_def Let_def by (intro pres pres_stmt free_invites) (auto split: option.splits)

lemma read_mayInvite: "keepsS (\<lambda>s. invites s = X) (mayInvite F admin)"
  unfolding mayInvite_def federationOn_def RedeemedInvite_def GetPlatformSetting_def
  by (intro srv_intros pres free_invites [of "\<lambda>i. i = X"])

lemma keeps_list: "keepsS (\<lambda>s. invites s = X) (listInvites F base admin)"
  unfolding listInvites_def ListInvitesByAdmin_def by (intro srv_intros pres free_invites [of "\<lambda>i. i = X"] read_mayInvite)

lemma FindInvite_kept: "invites (snd (FindInvite t s)) = invites s"
proof -
  have "preserves (\<lambda>u. invites u = invites s) (FindInvite t)"
    unfolding FindInvite_def Let_def by (intro pres free_invites [of "\<lambda>i. i = invites s"] | simp split: sum.split)+
  then show ?thesis by (simp add: preserves_def)
qed

lemma delete_spares: "tok \<noteq> iv_token r \<Longrightarrow> preserves (\<lambda>s. r \<in> set (invites s)) (DeleteInvite tok)"
  unfolding DeleteInvite_def by (intro pres pres_delete_rows free_invites [of "\<lambda>i. r \<in> set i"]) auto

lemma keeps_drop: "tok \<noteq> iv_token r \<Longrightarrow> keepsS (\<lambda>s. r \<in> set (invites s)) (orReject c (onDb (DeleteInvite tok)) (\<lambda>_.
    bindS (audit_invite admin ''admin.invite_revoked'' tok (rq_ip rq)) (\<lambda>_. retS Revoked)))"
  unfolding audit_invite_def by (intro srv_intros delete_spares audit_invites [of "\<lambda>i. r \<in> set i"])

lemma keeps_revoke_each: "iv_token r \<notin> set toks \<Longrightarrow> keepsS (\<lambda>s. r \<in> set (invites s)) (revoke_each admin toks)"
proof (induction toks)
  case (Cons t ts)
  then show ?case unfolding revoke_each.simps audit_invite_def
    by (intro srv_intros delete_spares audit_invites [of "\<lambda>i. r \<in> set i"]) auto
qed (simp only: revoke_each.simps srv_intros)

lemma keeps_issue: "keepsS (\<lambda>s. r \<in> set (invites s)) (case GenerateInviteCode draw of
     None \<Rightarrow> retS (Rejected 500)
   | Some token \<Rightarrow>
       orReject 500 (onDb (CreateInviteWithUses token None (a_id admin) 0)) (\<lambda>invite.
       bindS (audit_invite admin ''admin.invite_created'' token (rq_ip rq)) (\<lambda>_.
       retS (InviteMade (inviteView base invite)))))"
  unfolding audit_invite_def CreateInviteWithUses_def Let_def
  by (intro srv_intros pres pres_insert_row free_invites [of "\<lambda>i. r \<in> set i"] audit_invites [of "\<lambda>i. r \<in> set i"]) auto

lemma stale_spares:
  assumes "r \<in> set (invites (sv_store sv))" "\<And>row it. row \<in> set (invites (sv_store sv)) \<Longrightarrow> it = toInviteToken row \<Longrightarrow> iv_created_by row = Some (a_id admin) \<Longrightarrow> it_token it \<noteq> iv_token r"
  shows "r \<in> set (invites (sv_store (snd (revokeStaleInvites admin sv))))"
proof (cases "ListInvitesByAdmin (a_id admin) (sv_store sv)")
  case (Pair x s')
  have keep: "invites s' = invites (sv_store sv)"
  proof -
    have "preserves (\<lambda>u. invites u = invites (sv_store sv)) (ListInvitesByAdmin (a_id admin))"
      unfolding ListInvitesByAdmin_def by (intro pres free_invites [of "\<lambda>i. i = invites (sv_store sv)"])
    then show ?thesis using Pair by (simp add: preserves_def) (metis snd_conv)
  qed
  show ?thesis
  proof (cases x)
    case (Inr its)
    define toks where "toks = map it_token (drop (appInviteKeep - Suc 0) (filter (\<lambda>i. it_use_count i = 0) its))"
    have "iv_token r \<notin> set toks"
      using ListInvites_row [of "a_id admin" "sv_store sv" its s'] Pair Inr assms(2) unfolding toks_def by (auto dest!: in_set_dropD) (metis)
    then show ?thesis using keeps_revoke_each [of r toks admin] Pair Inr keep assms(1)
      by (simp add: revokeStaleInvites_def Let_def toks_def [symmetric] keepsS_def)
  qed (use Pair keep assms in \<open>simp add: revokeStaleInvites_def\<close>)
qed

subsection \<open>Properties\<close>

text \<open>C19: Nobody grows the tree who does not answer for a place in it. If the panel or the application hands out a
  code, the account is an owner, was itself invited, or has given the federation a server: at least five gigabytes
  pledged and one really carried, on a node that is online now and joined at least three days ago. A database that
  fails or a head that does not answer never opens the door.
\<close>
theorem only_entitled_invite:
  assumes "InviteMade v \<in> {fst (handleInvites F base draw rq body admin sv), fst (handleAppInvites F base draw rq query admin sv)}"
  shows "a_role admin = RoleOwner \<or> in_tree (a_id admin) (sv_store sv) \<or>
    fe_enabled F \<and> worthy_donor F (clock (sv_store sv)) (donorID admin)"
proof -
  have "fst (mayInvite F admin sv) = None"
    using assms by (cases "fst (mayInvite F admin sv)")
      (auto simp: handleInvites_def handleAppInvites_def listInvites_def createInvite_def createAppInvite_def revokeAppInvite_def orReject_def
        split: if_splits sum.splits)
  then show ?thesis by (rule mayInvite_entitled)
qed

text \<open>A request of an account that is no owner leaves everybody else's codes as they are, whatever the engine
  refuses on the way: listing, issuing (which revokes the account's own stale codes) and revoking from the
  application.
\<close>
theorem app_invites_spare_others:
  assumes "wf_store (sv_store sv)" "r \<in> set (invites (sv_store sv))" "iv_created_by r \<noteq> Some (a_id admin)"
    and "a_id admin \<noteq> 0" "a_role admin \<noteq> RoleOwner"
  shows "r \<in> set (invites (sv_store (snd (handleAppInvites F base draw rq query admin sv))))"
proof -
  let ?s = "sv_store sv" and ?sv = "snd (mayInvite F admin sv)"
  have other: "it_token it \<noteq> iv_token r" if "row \<in> set (invites ?s)" "it = toInviteToken row" "iv_created_by row \<noteq> iv_created_by r" for row it
    using that assms(1,2) distinct_key_unique [of iv_token "invites ?s" row r] by (auto simp: wf_defs uniq_def toInviteToken_def)
  have kept: "r \<in> set (invites (sv_store ?sv))" "invites (sv_store ?sv) = invites ?s"
    using read_mayInvite [of "invites ?s" F admin] assms(2) by (auto simp: keepsS_def)
  have post: "r \<in> set (invites (sv_store (snd (createAppInvite F base draw rq admin sv))))"
  proof (cases "fst (mayInvite F admin sv)")
    case None
    let ?sv' = "snd (revokeStaleInvites admin ?sv)"
    have "r \<in> set (invites (sv_store ?sv'))" by (rule stale_spares) (use kept other assms in auto)
    note issued = keepsSD [OF keeps_issue [where r = r and admin = admin and rq = rq and base = base and draw = draw], OF this]
    have "createAppInvite F base draw rq admin sv = orReject 500 (revokeStaleInvites admin) (\<lambda>_. case GenerateInviteCode draw of
         None \<Rightarrow> retS (Rejected 500)
       | Some token \<Rightarrow> orReject 500 (onDb (CreateInviteWithUses token None (a_id admin) 0)) (\<lambda>invite.
           bindS (audit_invite admin ''admin.invite_created'' token (rq_ip rq)) (\<lambda>_. retS (InviteMade (inviteView base invite))))) ?sv"
      using None by (simp add: createAppInvite_def)
    then show ?thesis using issued \<open>r \<in> set (invites (sv_store ?sv'))\<close>
      by (simp only: orReject_app [of 500 "revokeStaleInvites admin"] split: sum.split) simp
  qed (use kept in \<open>simp add: createAppInvite_def\<close>)
  have revoke: "r \<in> set (invites (sv_store (snd (revokeAppInvite rq query admin sv))))"
  proof (cases "FindInvite query ?s")
    case (Pair x s')
    show ?thesis
    proof (cases x)
      case (Inr it)
      have row: "invites s' = invites ?s" "\<exists>row \<in> set (invites ?s). it = toInviteToken row"
        using FindInvite_row Pair Inr by blast+
      show ?thesis
      proof (cases "it_created_by_admin_id it = a_id admin")
        case True
        then have "it_token it \<noteq> iv_token r" using row(2) other assms(3,4) by (auto simp: toInviteToken_def derefInt64_def split: option.splits)
        note dropped = keepsSD [OF keeps_drop [OF this], of "sv\<lparr>sv_store := s'\<rparr>" 500 admin rq]
        have "revokeAppInvite rq query admin sv = (if query = [] then (Rejected 400, sv) else
            orReject 500 (onDb (DeleteInvite (it_token it))) (\<lambda>_. bindS (audit_invite admin ''admin.invite_revoked'' (it_token it) (rq_ip rq)) (\<lambda>_. retS Revoked))
              (sv\<lparr>sv_store := s'\<rparr>))"
          using Pair Inr True by (simp add: revokeAppInvite_def orReject_app [of 404])
        then show ?thesis using dropped row(1) assms(2) by (simp split: if_split)
      qed (use Pair Inr row assms in \<open>simp add: revokeAppInvite_def orReject_app [of 404]\<close>)
    qed (use Pair assms FindInvite_kept [of query ?s] in \<open>simp add: revokeAppInvite_def orReject_app [of 404]\<close>)
  qed
  have "r \<in> set (invites (sv_store (snd (listInvites F base admin sv))))"
    using keeps_list [of "invites ?s" F base admin] assms(2) by (simp add: keepsS_def)
  then show ?thesis using post revoke assms(2) by (simp add: handleAppInvites_def)
qed

text \<open>No request about invitations breaks the keys or references of the database, whatever the engine refuses.
\<close>
theorem invite_desk_keeps_invariant:
  assumes "wf_store (sv_store sv)"
  shows "wf_store (sv_store (snd (handleInvites F base draw rq body admin sv))) \<and> wf_store (sv_store (snd (handleRedeemInvite rq token admin sv))) \<and>
    wf_store (sv_store (snd (handleInviteByToken rq path admin sv))) \<and> wf_store (sv_store (snd (handleAppInvites F base draw rq query admin sv)))"
proof -
  note intros = srv_intros pres fault_free_wf
  have may: "keepsS wf_store (mayInvite F admin)"
    unfolding mayInvite_def federationOn_def RedeemedInvite_def GetPlatformSetting_def by (intro intros)
  have find: "preserves wf_store (FindInvite t)" for t
    unfolding FindInvite_def Let_def by (intro intros)
  have list: "preserves wf_store (ListInvitesByAdmin a)" for a unfolding ListInvitesByAdmin_def by (intro intros)
  have lists: "keepsS wf_store (listInvites F base admin)" unfolding listInvites_def by (intro intros may list)
  have each: "keepsS wf_store (revoke_each admin toks)" for toks
    by (induction toks) (simp only: revoke_each.simps audit_invite_def, intro intros)+
  have "keepsS wf_store (handleInvites F base draw rq body admin)"
    unfolding handleInvites_def createInvite_def audit_invite_def Let_def case_prod_beta by (intro intros may lists)
  moreover have "keepsS wf_store (handleRedeemInvite rq token admin)"
    unfolding handleRedeemInvite_def audit_invite_def Let_def RedeemedInvite_def by (intro intros find)
  moreover have "keepsS wf_store (handleInviteByToken rq path admin)"
    unfolding handleInviteByToken_def audit_invite_def Let_def by (intro intros find)
  moreover have "keepsS wf_store (handleAppInvites F base draw rq query admin)"
    unfolding handleAppInvites_def createAppInvite_def revokeAppInvite_def revokeStaleInvites_def audit_invite_def Let_def
    by (intro intros may lists find list each)
  ultimately show ?thesis using assms by (simp add: keepsSD)
qed

lemma mayInvite_store: "faults (sv_store sv) = [] \<Longrightarrow> snd (mayInvite F admin sv) = sv"
  by (simp add: mayInvite_def federationOn_def RedeemedInvite_ok GetPlatformSetting_def bindE_def attempt_app query_first_ok
    split: option.split sum.split error.split)

lemma audit_app: "faults s = [] \<Longrightarrow> sv_store sv = s \<Longrightarrow>
    \<exists>au n. sv_store (snd (audit_invite admin action token ip sv)) = s\<lparr>audits := au, audits_seq := n\<rparr>"
  using AppendAudit_frame [of s] by (auto simp: audit_invite_def note_audit_app only_audits_def)

lemma revoke_each_ok: "faults (sv_store sv) = [] \<Longrightarrow> \<exists>sv'. revoke_each admin toks sv = (Inr (), sv') \<and> faults (sv_store sv') = [] \<and>
    invites (sv_store sv') = filter (\<lambda>r. iv_token r \<notin> set toks) (invites (sv_store sv))"
proof (induction toks arbitrary: sv)
  case (Cons t ts)
  let ?s = "sv_store sv"
  let ?sv = "sv\<lparr>sv_store := invites_update (filter (\<lambda>r. iv_token r \<noteq> t)) ?s\<rparr>"
  have d: "DeleteInvite t ?s = (Inr (), invites_update (filter (\<lambda>r. iv_token r \<noteq> t)) ?s)"
    using Cons.prems by (simp add: DeleteInvite_def bindE_def delete_rows_ok)
  let ?sv2 = "snd (audit_invite admin ''admin.invite_revoked'' t [] ?sv)"
  obtain au n where a: "sv_store ?sv2 = (sv_store ?sv)\<lparr>audits := au, audits_seq := n\<rparr>"
    using audit_app [of "sv_store ?sv" ?sv admin "''admin.invite_revoked''" t "[]"] Cons.prems by auto
  then have "faults (sv_store ?sv2) = []" "invites (sv_store ?sv2) = filter (\<lambda>r. iv_token r \<noteq> t) (invites ?s)"
    using Cons.prems by simp_all
  with Cons.IH [of ?sv2] show ?case by (auto simp: d)
qed simp

text \<open>A newcomer joins the tree once. After a successful redemption no further request of the same account
  succeeds, whichever code it brings.
\<close>
theorem join_once:
  assumes "faults (sv_store sv) = []" "handleRedeemInvite rq body admin sv = (Joined, sv')"
  shows "fst (handleRedeemInvite rq' body' admin sv') \<noteq> Joined \<and> in_tree (a_id admin) (sv_store sv')"
proof -
  define T where "T s \<longleftrightarrow> in_tree (a_id admin) s \<and> faults s = []" for s :: store
  obtain l tok where s1: "fst (RedeemInvite tok (a_id admin) (sv_store sv)) = Inr ()"
    and sv': "sv' = snd (audit_invite admin ''admin.invite_redeemed'' tok [] (sv\<lparr>sv_store := snd (RedeemInvite tok (a_id admin) (sv_store sv)), sv_limiter := l\<rparr>))"
    using assms
    by (auto simp: handleRedeemInvite_def Let_def limitedRedeem_def forgetAttempts_def orReject_app RedeemedInvite_ok FindInvite_def bindE_def
      attempt_app query_first_ok split: if_splits option.splits prod.splits sum.splits list.splits)
  define s1 where "s1 = snd (RedeemInvite tok (a_id admin) (sv_store sv))"
  have "T s1" using s1 assms(1)
    by (auto simp: T_def s1_def RedeemInvite_def Let_def bindE_def spend_invite_def stmt_ok insert_row_ok in_tree_def split: if_splits)
  then have "T (sv_store sv')" using audit_app [of s1 "sv\<lparr>sv_store := s1, sv_limiter := l\<rparr>" admin "''admin.invite_redeemed''" tok "[]"]
    by (auto simp: T_def sv' s1_def in_tree_def)
  then show ?thesis
    by (auto simp: T_def handleRedeemInvite_def Let_def limitedRedeem_def RedeemedInvite_ok split: if_splits option.splits prod.splits)
qed

text \<open>The page that greets a guest tells codes that exist from codes that do not. Its answer is the same for every
  caller and counts no attempts, and for an invalid code it names the reason, so that anything but not found says
  that such a code was issued.
\<close>
theorem lookup_tells_existence:
  assumes "faults (sv_store sv) = []" "handleInviteLookup query sv = (CodeInvalid why, sv')"
  shows "(why \<noteq> NotFound \<longleftrightarrow> (\<exists>r \<in> set (invites (sv_store sv)). to_upper (iv_token r) = to_upper (trim_space query))) \<and> sv' = sv"
proof -
  let ?rs = "sort_key iv_token (filter (\<lambda>r. to_upper (iv_token r) = to_upper (trim_space query)) (invites (sv_store sv)))"
  have "?rs = [] \<longleftrightarrow> \<not> (\<exists>r \<in> set (invites (sv_store sv)). to_upper (iv_token r) = to_upper (trim_space query))"
    by (simp add: sort_key_empty filter_empty_conv)
  then show ?thesis using assms
    by (cases ?rs) (auto simp: handleInviteLookup_def FindInvite_def Let_def bindE_def attempt_app query_first_ok
      split: if_splits sum.splits)
qed

text \<open>The panel revokes a code only under the spelling it is stored in, though it looks it up under any. A path
  that writes the code in another case is answered as revoked and put on the audit log, and the code still works.
\<close>
theorem revoke_other_spelling:
  assumes "faults (sv_store sv) = []" "rq_method rq = ''DELETE''" "path \<noteq> []" "CHR ''/'' \<notin> set path" "trim_space path = path"
    and "filter (\<lambda>r. to_upper (iv_token r) = to_upper path) (invites (sv_store sv)) = [r]" "iv_token r \<noteq> path"
    and "iv_created_by r = Some (a_id admin)"
  shows "\<exists>sv'. handleInviteByToken rq path admin sv = (Revoked, sv') \<and> invites (sv_store sv') = invites (sv_store sv)"
proof -
  let ?s = "sv_store sv" and ?sv' = "snd (audit_invite admin ''admin.invite_revoked'' path [] sv)"
  have f: "FindInvite path ?s = (Inr (toInviteToken r), ?s)"
    using assms(1,3,5,6) by (simp add: FindInvite_def Let_def bindE_def attempt_app query_first_ok)
  have "iv_token x \<noteq> path" if "x \<in> set (invites ?s)" for x
  proof
    assume "iv_token x = path"
    then have "x \<in> set (filter (\<lambda>r. to_upper (iv_token r) = to_upper path) (invites ?s))" using that by simp
    then show False unfolding assms(6) using \<open>iv_token x = path\<close> assms(7) by simp
  qed
  then have "filter (\<lambda>r. iv_token r \<noteq> path) (invites ?s) = invites ?s" by (simp add: filter_id_conv)
  then have d: "DeleteInvite path ?s = (Inr (), ?s)"
    using assms(1) by (simp add: DeleteInvite_def bindE_def delete_rows_ok)
  have "it_created_by_admin_id (toInviteToken r) = a_id admin" using assms(8) by (simp add: toInviteToken_def derefInt64_def)
  then have "handleInviteByToken rq path admin sv = (Revoked, ?sv')"
    using assms(2-4) f d by (simp add: handleInviteByToken_def orReject_app)
  moreover have "invites (sv_store ?sv') = invites ?s"
    using audit_app [OF assms(1) refl, of admin "''admin.invite_revoked''" path "[]"] by auto
  ultimately show ?thesis by blast
qed

subsection \<open>At concrete inputs\<close>

definition ann :: admin where "ann = toStorageAdmin (sample_admin 2 ''ann'' RoleAdmin)"

text \<open>A federation where Ann's one server pledged six gigabytes, carried two and is four days old at a clock of
  five hundred thousand seconds.\<close>

definition sample_federation :: federation where
  "sample_federation = \<lparr>fe_enabled = True,
     fe_summary = (\<lambda>d. if d = ''admin-2'' then Some \<lparr>ds_nodes = 1, ds_declared = 6 * 1024 * 1024 * 1024, ds_used = 2 * 1024 * 1024 * 1024\<rparr> else None),
     fe_nodes = (\<lambda>d. if d = ''admin-2'' then Some [\<lparr>fn_online = True, fn_joined = 154400\<rparr>] else None)\<rparr>"

definition donor_store :: store where
  "donor_store = (sample_store DriverSQLite)\<lparr>clock := 500000000, settings := [\<lparr>ps_key = ''federation_enabled'', ps_value = ''1''\<rparr>]\<rparr>"

definition four_bytes :: "bytes option" where "four_bytes = Some ''wxyz''"

lemma donor_issues:
  "case fst (handleInvites sample_federation ''https://p/'' four_bytes (sample_request ''POST'' []) (Some (1, 5)) ann (panel donor_store)) of
     InviteMade v \<Rightarrow> True | _ \<Rightarrow> False"
  by code_simp

theorem only_entitled_invite_witness:
  "\<not> (a_role ann = RoleOwner \<or> in_tree (a_id ann) donor_store) \<and> worthy_donor sample_federation 500000000 (donorID ann)"
proof -
  obtain v where v: "InviteMade v \<in> {fst (handleInvites sample_federation ''https://p/'' four_bytes (sample_request ''POST'' []) (Some (1, 5)) ann (panel donor_store)),
     fst (handleAppInvites sample_federation ''https://p/'' four_bytes (sample_request ''POST'' []) [] ann (panel donor_store))}"
    using donor_issues by (auto split: invite_answer.splits)
  have "\<not> (a_role ann = RoleOwner \<or> in_tree (a_id ann) donor_store)" by code_simp
  moreover have "clock donor_store = 500000000" by (simp add: donor_store_def)
  ultimately show ?thesis using only_entitled_invite [OF v] by (simp del: de_Morgan_disj) blast
qed

lemma tree_wf: "wf_store tree_store"
  using sample_wf [of DriverSQLite]
  by (auto simp: tree_store_def wf_defs sample_defs uniq_def refers_def orefers_def rd_key_def tree_code_def)

theorem app_invites_spare_others_witness:
  "tree_code ''AA'' 1 2 \<in> set (invites (sv_store (snd (handleAppInvites sample_federation [] four_bytes (sample_request ''DELETE'' []) ''aa''
     ann (panel tree_store)))))"
  by (rule app_invites_spare_others)
    (simp_all add: tree_wf ann_def toStorageAdmin_def sample_admin_def tree_code_def RoleAdmin_def RoleOwner_def)

theorem invite_desk_keeps_invariant_witness:
  "wf_store (sv_store (snd (handleInviteByToken (sample_request ''DELETE'' []) ''BB'' ann (panel tree_store))))"
  using invite_desk_keeps_invariant [of "panel tree_store" sample_federation "[]" four_bytes "sample_request ''DELETE'' []" None ann None "''BB''" "[]"]
  by (simp add: tree_wf)

definition lone_store :: store where
  "lone_store = tree_store\<lparr>invites := [tree_code ''AA'' 1 2], redemptions := []\<rparr>"

definition bob :: admin where "bob = toStorageAdmin (sample_admin 3 ''bob'' RoleUser)"

lemma bob_joins: "fst (handleRedeemInvite (sample_request ''POST'' []) (Some ''AA'') bob (panel lone_store)) = Joined"
  by code_simp

theorem join_once_witness:
  "case handleRedeemInvite (sample_request ''POST'' []) (Some ''AA'') bob (panel lone_store) of (ans, sv') \<Rightarrow>
     fst (handleRedeemInvite (sample_request ''POST'' []) (Some ''AA'') bob sv') \<noteq> Joined \<and> in_tree (a_id bob) (sv_store sv')"
  using bob_joins join_once [of "panel lone_store" "sample_request ''POST'' []" "Some ''AA''" bob]
  by (auto simp: lone_store_def split: prod.splits)

theorem lookup_tells_existence_witness:
  "case handleInviteLookup ''zz'' (panel tree_store) of (ans, sv') \<Rightarrow> ans = CodeInvalid NotFound \<and> sv' = panel tree_store"
proof -
  have z: "fst (handleInviteLookup ''zz'' (panel tree_store)) = CodeInvalid NotFound" by code_simp
  then show ?thesis using lookup_tells_existence [of "panel tree_store" "''zz''" NotFound] by (auto split: prod.splits)
qed

theorem revoke_other_spelling_witness:
  "\<exists>sv'. handleInviteByToken (sample_request ''DELETE'' []) ''bb'' ann (panel tree_store) = (Revoked, sv') \<and>
     tree_code ''BB'' 2 3 \<in> set (invites (sv_store sv'))"
proof -
  have u: "filter (\<lambda>r. to_upper (iv_token r) = to_upper ''bb'') (invites (sv_store (panel tree_store))) = [tree_code ''BB'' 2 3]"
    "trim_space ''bb'' = ''bb''" "rq_method (sample_request ''DELETE'' []) = ''DELETE''" by code_simp+
  have "\<exists>sv'. handleInviteByToken (sample_request ''DELETE'' []) ''bb'' ann (panel tree_store) = (Revoked, sv') \<and>
      invites (sv_store sv') = invites (sv_store (panel tree_store))"
    by (rule revoke_other_spelling [OF _ u(3) _ _ u(2) u(1)]) (simp_all add: tree_code_def ann_def toStorageAdmin_def sample_admin_def)
  then show ?thesis by auto
qed

text \<open>The handler that redeems asks only that the code be somebody else's. Bob joined by Ann's code; nothing keeps Ann,
  who was made by the owner, from joining by Bob's, and then each of them stands below the other.\<close>

lemma invite_cycle:
  "let s = tree_store\<lparr>invites := [tree_code ''BB'' 2 3, (tree_code ''CC'' 3 3)\<lparr>iv_used_by := None, iv_use_count := 0\<rparr>],
             redemptions := [\<lparr>rd_token = ''BB'', rd_admin_id = 3, rd_created_at = 5\<rparr>]\<rparr>;
       (ans, sv') = handleRedeemInvite (sample_request ''POST'' []) (Some ''CC'') ann (panel s)
   in ans = Joined \<and> set (edges_of s) = {(3, 2)} \<and> set (edges_of (sv_store sv')) = {(3, 2), (2, 3)}"
  by code_simp

text \<open>An empty body asks for no limit of uses, though the comment beside the decoder calls it a code for one.\<close>

lemma empty_body_unlimited:
  "case fst (handleInvites sample_federation [] four_bytes (sample_request ''POST'' []) None ann (panel tree_store)) of
     InviteMade v \<Rightarrow> iw_max_uses v = 0 \<and> \<not> iw_spent v | _ \<Rightarrow> False"
  by code_simp

end
