(* ===== verification/OwnerDesk.thy ===== *)
theory OwnerDesk
  imports InviteDesk Traffic
begin

text \<open>
  The owner's console: \<^verbatim>\<open>internal/handlers/owner/owner.go\<close> and \<^verbatim>\<open>invitetree.go\<close>, over the sequencing of SignIn and
  the storage of Admins, Clients, Traffic and Invites. A handler takes the caller, what the path names and what the body
  of the request decodes to; times that \<^verbatim>\<open>formatTS\<close> prints stay numbers, with \<^term>\<open>None\<close> for the empty text.
\<close>

datatype admin_view = AdminView (av_id: int) (av_username: string) (av_role: string) (av_panel_access: bool)
  (av_must_change: bool) (av_last_login: "int option") (av_created: "int option") (av_avatar: int)
  (av_total: int) (av_online: int) (av_requested: "int option")

datatype device_view = DeviceView client "string \<times> int" "(u64 \<times> u64) option"

datatype tree_view = TreeView tree_member u64 u64 int int int

datatype code_view = CodeView string "int option" "int option" "int option" bool

record settings_view =
  sw_registration_mode :: string
  sw_allow_admin_grpc :: bool
  sw_link_format :: string
  sw_panel_by_request :: bool
  sw_federation_open_entry :: bool
  sw_crypto_enabled :: bool

record settings_request =
  rs_registration_mode :: string
  rs_allow_admin_grpc :: "bool option"
  rs_link_format :: string
  rs_panel_by_request :: "bool option"
  rs_crypto_enabled :: "bool option"
  rs_federation_open_entry :: "bool option"

datatype console =
    Denied nat
  | Whoami int string string
  | AdminList "admin_view list"
  | AdminMade admin_view
  | DeviceList "device_view list" int
  | AuditPage "audit_entry list" int
  | Settings settings_view
  | CodeList "code_view list"
  | CodeMade string "int option" "int option"
  | PanelIs bool
  | TreeList "tree_view list"
  | Affected nat
  | AllDone

text \<open>What the body of a request decodes to, for each shape that is asked for; the last two read as zero when it does
  not decode.\<close>

record posted =
  po_account :: "(string \<times> string \<times> bool) option"
  po_password :: "string option"
  po_allowed :: "bool option"
  po_settings :: "settings_request option"
  po_ttl_hours :: int
  po_reason :: string

definition SettingAllowAdminGRPC :: string where "SettingAllowAdminGRPC = ''allow_admin_grpc''"
definition SettingPanelByRequest :: string where "SettingPanelByRequest = ''panel_by_request''"
definition SettingCryptoEnabled :: string where "SettingCryptoEnabled = ''crypto_enabled''"
definition SettingFederationOpenEntry :: string where "SettingFederationOpenEntry = ''federation_open_entry''"
definition LinkFormatBrotliLegacy :: string where "LinkFormatBrotliLegacy = ''brotli_legacy''"
definition LinkFormatDeflate :: string where "LinkFormatDeflate = ''deflate''"

text \<open>\<^verbatim>\<open>strconv.ParseInt(s, 10, 64)\<close> and \<^verbatim>\<open>strings.Cut(s, "/")\<close>\<close>

definition ParseInt64 :: "string \<Rightarrow> int option" where
  "ParseInt64 s =
     (let (neg, body) = (case s of [] \<Rightarrow> (False, []) | c # rest \<Rightarrow>
            if c = CHR ''-'' then (True, rest) else if c = CHR ''+'' then (False, rest) else (False, s)) in
      case those (map digit_of body) of
        None \<Rightarrow> None
      | Some ds \<Rightarrow>
          let n = int (foldl (\<lambda>v d. 10 * v + d) 0 ds); i = (if neg then - n else n) in
          if body \<noteq> [] \<and> - (2 ^ 63) \<le> i \<and> i < 2 ^ 63 then Some i else None)"

definition cut_slash :: "string \<Rightarrow> string \<times> string option" where
  "cut_slash s = (takeWhile (\<lambda>c. c \<noteq> CHR ''/'') s,
     case dropWhile (\<lambda>c. c \<noteq> CHR ''/'') s of [] \<Rightarrow> None | _ # rest \<Rightarrow> Some rest)"

definition formatTS :: "int \<Rightarrow> int option" where
  "formatTS t = (if t \<le> 0 then None else Some t)"

definition atoi_query :: "string \<Rightarrow> int option" where
  "atoi_query v = (if v = [] then None else ParseInt64 v)"

definition namedPageParams :: "u32 \<Rightarrow> string \<Rightarrow> string \<Rightarrow> u32 \<times> u32" where
  "namedPageParams fallback limit offset =
     ((case atoi_query limit of None \<Rightarrow> fallback | Some n \<Rightarrow> if n > 0 \<and> n \<le> 500 then word_of_int n else fallback),
      (case atoi_query offset of None \<Rightarrow> 0 | Some n \<Rightarrow> if n > 0 then word_of_int n else 0))"

subsection \<open>The gate\<close>

definition requireOwner :: "string option \<Rightarrow> (admin \<Rightarrow> console srv) \<Rightarrow> console srv" where
  "requireOwner cookie k = bindS (onAuth (Authenticate cookie)) (\<lambda>r. case r of
       Inl _ \<Rightarrow> retS (Denied 401)
     | Inr adm \<Rightarrow> if \<not> IsOwner adm then retS (Denied 403) else k adm)"

definition handleMe :: "admin \<Rightarrow> console srv" where
  "handleMe adm = retS (Whoami (a_id adm) (a_username adm) (a_role adm))"

definition orDeny :: "nat \<Rightarrow> (error + 'a) srv \<Rightarrow> ('a \<Rightarrow> console srv) \<Rightarrow> console srv" where
  "orDeny code m k = bindS m (\<lambda>r. case r of Inl _ \<Rightarrow> retS (Denied code) | Inr x \<Rightarrow> k x)"

definition audit_owner :: "admin \<Rightarrow> string \<Rightarrow> string \<Rightarrow> string \<Rightarrow> string \<Rightarrow> string \<Rightarrow> unit srv" where
  "audit_owner owner action target_type target message ip = note_audit \<lparr>ae_id = 0, ae_ts = None,
     ae_actor_admin_id = a_id owner, ae_actor_username = a_username owner, ae_action = action,
     ae_target_type = target_type, ae_target_id = target, ae_message = message, ae_ip = ip\<rparr>"

subsection \<open>Accounts\<close>

fun admin_views :: "admin list \<Rightarrow> admin_view list srv" where
  "admin_views [] = retS []"
| "admin_views (a # rest) =
     bindS (onDb (CountClientsByOwner (a_id a))) (\<lambda>r.
     let (total, online) = (case r of Inl _ \<Rightarrow> (0, 0) | Inr cnt \<Rightarrow> (Total cnt, OnlineCount cnt)) in
     bindS (admin_views rest) (\<lambda>views.
     retS (AdminView (a_id a) (a_username a) (a_role a) (a_panel_access a \<or> a_role a = RoleOwner) (a_must_change_password a)
       (formatTS (a_last_login_at a)) (formatTS (a_created_at a)) (a_avatar_version a) total online
       (a_panel_requested_at a) # views)))"

definition respondListAdmins :: "console srv" where
  "respondListAdmins = orDeny 500 (onDb ListAdmins) (\<lambda>xs. bindS (admin_views xs) (\<lambda>views. retS (AdminList views)))"

definition respondCreateAdmin :: "env \<Rightarrow> request \<Rightarrow> posted \<Rightarrow> admin \<Rightarrow> console srv" where
  "respondCreateAdmin E rq body owner = (case po_account body of
       None \<Rightarrow> retS (Denied 400)
     | Some (rawname, password, opened) \<Rightarrow> (case ValidateNewUsername rawname of
         Inl _ \<Rightarrow> retS (Denied 400)
       | Inr username \<Rightarrow>
           if length password < MinPasswordLen then retS (Denied 400)
           else bindS (onDb (FindAdminByUsername username)) (\<lambda>r.
             if (case r of Inr _ \<Rightarrow> True | Inl _ \<Rightarrow> False) then retS (Denied 409)
             else if r \<noteq> Inl ErrNotFound then retS (Denied 500)
             else (case HashPassword (en_crypto E) password of
               Inl _ \<Rightarrow> retS (Denied 500)
             | Inr hash \<Rightarrow>
                 orDeny 500 (onDb (CreateAccount (blob_hash (en_crypto E)) (avatar_gen (en_crypto E)) username hash True
                    (RoleForPanel opened) opened)) (\<lambda>created.
                 bindS (audit_owner owner ''owner.admin_created'' ''admin'' (itoa (a_id created)) (a_username created) (rq_ip rq)) (\<lambda>_.
                 retS (AdminMade (AdminView (a_id created) (a_username created) (a_role created) False
                   (a_must_change_password created) None (formatTS (a_created_at created)) 0 0 0 None))))))))"

definition handleAdmins :: "env \<Rightarrow> request \<Rightarrow> posted \<Rightarrow> admin \<Rightarrow> console srv" where
  "handleAdmins E rq body owner =
     (if rq_method rq = ''GET'' then respondListAdmins
      else if rq_method rq = ''POST'' then respondCreateAdmin E rq body owner
      else retS (Denied 405))"

definition respondDeleteAdmin :: "request \<Rightarrow> admin \<Rightarrow> int \<Rightarrow> console srv" where
  "respondDeleteAdmin rq owner i =
     (if i = a_id owner then retS (Denied 403)
      else orDeny 404 (onDb (FindAdminByID i)) (\<lambda>target.
        if a_role target = RoleOwner then retS (Denied 403)
        else orDeny 500 (onDb (DeleteAdmin i)) (\<lambda>_.
          bindS (audit_owner owner ''owner.admin_deleted'' ''admin'' (itoa i) (a_username target) (rq_ip rq)) (\<lambda>_.
          retS AllDone))))"

definition respondResetPassword :: "env \<Rightarrow> request \<Rightarrow> posted \<Rightarrow> admin \<Rightarrow> int \<Rightarrow> console srv" where
  "respondResetPassword E rq body owner i = (case po_password body of
       None \<Rightarrow> retS (Denied 400)
     | Some password \<Rightarrow>
         orDeny 404 (onDb (FindAdminByID i)) (\<lambda>target.
         bindS (onAuth (ResetPasswordTo (en_crypto E) i password)) (\<lambda>r. case r of
           Inl e \<Rightarrow> retS (Denied (if e = ErrPasswordTooShort then 400 else 500))
         | Inr _ \<Rightarrow>
             bindS (audit_owner owner ''owner.password_reset'' ''admin'' (itoa i) (a_username target) (rq_ip rq)) (\<lambda>_.
             retS AllDone))))"

definition respondPanelAccess :: "posted \<Rightarrow> admin \<Rightarrow> int \<Rightarrow> console srv" where
  "respondPanelAccess body owner i =
     orDeny 404 (onDb (FindAdminByID i)) (\<lambda>target.
     if a_role target = RoleOwner then retS (Denied 403)
     else (case po_allowed body of
       None \<Rightarrow> retS (Denied 400)
     | Some grant \<Rightarrow>
         orDeny 500 (onDb (SetPanelAccess i grant)) (\<lambda>_.
         bindS (onDb (ClearPanelRequest i)) (\<lambda>_.
         bindS (audit_owner owner (if grant then ''owner.panel_access_granted'' else ''owner.panel_access_revoked'')
           ''admin'' (itoa i) [] []) (\<lambda>_.
         retS (PanelIs grant))))))"

text \<open>The path below \<^verbatim>\<open>/api/owner/admins/\<close>\<close>

definition handleAdminByID :: "env \<Rightarrow> request \<Rightarrow> string \<Rightarrow> posted \<Rightarrow> admin \<Rightarrow> console srv" where
  "handleAdminByID E rq path body owner = (case cut_slash path of (idPart, rest) \<Rightarrow>
     if idPart = [] then retS (Denied 404)
     else (case ParseInt64 idPart of
       None \<Rightarrow> retS (Denied 400)
     | Some i \<Rightarrow>
         let subpath = (case rest of None \<Rightarrow> [] | Some p \<Rightarrow> p) in
         if subpath = [] \<and> rq_method rq = ''DELETE'' then respondDeleteAdmin rq owner i
         else if subpath = ''password/reset'' \<and> rq_method rq = ''POST'' then respondResetPassword E rq body owner i
         else if subpath = ''panel-access'' \<and> rq_method rq = ''PUT'' then respondPanelAccess body owner i
         else retS (Denied 404)))"

subsection \<open>Devices and the audit log\<close>

definition brief_of :: "admin list \<Rightarrow> int \<Rightarrow> string \<times> int" where
  "brief_of xs i = (case find (\<lambda>a. a_id a = i) (rev xs) of
     None \<Rightarrow> ([], 0) | Some a \<Rightarrow> (a_username a, a_avatar_version a))"

definition handleAllClients :: "request \<Rightarrow> string \<Rightarrow> string \<Rightarrow> console srv" where
  "handleAllClients rq limit offset =
     (if rq_method rq \<noteq> ''GET'' then retS (Denied 405)
      else orDeny 500 (onDb ListAdmins) (\<lambda>xs.
        case namedPageParams 50 limit offset of (n, off) \<Rightarrow>
        orDeny 500 (onDb (PageAllClients (uint n) (uint off))) (\<lambda>(page, total).
        bindS (onDb ClientTrafficMap) (\<lambda>r.
        let traffic = (case r of Inl _ \<Rightarrow> [] | Inr m \<Rightarrow> m) in
        retS (DeviceList (map (\<lambda>c. DeviceView c (brief_of xs (OwnerAdminID c)) (map_of traffic (ID c))) page) total)))))"

definition audit_query :: "string \<Rightarrow> string \<Rightarrow> string \<Rightarrow> string \<Rightarrow> int option \<Rightarrow> audit_filter" where
  "audit_query actor action limit offset since = \<lparr>
     af_actor = (case atoi_query actor of None \<Rightarrow> 0 | Some i \<Rightarrow> i), af_action = action, af_since = since, af_until = None,
     af_limit = (case atoi_query limit of None \<Rightarrow> 0 | Some n \<Rightarrow> n),
     af_offset = (case atoi_query offset of None \<Rightarrow> 0 | Some n \<Rightarrow> if n > 0 then n else 0)\<rparr>"

definition handleAudit :: "request \<Rightarrow> audit_filter \<Rightarrow> console srv" where
  "handleAudit rq f =
     (if rq_method rq \<noteq> ''GET'' then retS (Denied 405)
      else orDeny 500 (onDb (ListAudit f)) (\<lambda>entries. orDeny 500 (onDb (CountAudit f)) (\<lambda>total. retS (AuditPage entries total))))"

subsection \<open>Settings\<close>

definition read_setting :: "string \<Rightarrow> string \<Rightarrow> (error + string) srv" where
  "read_setting key fallback = onDb (GetPlatformSetting key fallback)"

definition settingsPayload :: "console srv" where
  "settingsPayload =
     orDeny 500 (read_setting SettingRegistrationMode RegistrationModeOpen) (\<lambda>mode.
     orDeny 500 (read_setting SettingAllowAdminGRPC ''false'') (\<lambda>allowGRPC.
     orDeny 500 (read_setting SettingLinkFormat LinkFormatBrotli) (\<lambda>linkFormat.
     orDeny 500 (read_setting SettingPanelByRequest ''false'') (\<lambda>byRequest.
     orDeny 500 (read_setting SettingCryptoEnabled ''false'') (\<lambda>crypto.
     orDeny 500 (read_setting SettingFederationOpenEntry ''false'') (\<lambda>openEntry.
     retS (Settings \<lparr>sw_registration_mode = mode, sw_allow_admin_grpc = (allowGRPC = ''true''), sw_link_format = linkFormat,
       sw_panel_by_request = (byRequest = ''true''), sw_federation_open_entry = (openEntry = ''true''),
       sw_crypto_enabled = (crypto = ''true'')\<rparr>)))))))"

definition save_setting :: "admin \<Rightarrow> request \<Rightarrow> string \<Rightarrow> string \<Rightarrow> string \<Rightarrow> console srv \<Rightarrow> console srv" where
  "save_setting owner rq key action value k =
     orDeny 500 (onDb (SetPlatformSetting key value)) (\<lambda>_. bindS (audit_owner owner action [] [] value (rq_ip rq)) (\<lambda>_. k))"

definition save_choice :: "admin \<Rightarrow> request \<Rightarrow> string \<Rightarrow> string \<Rightarrow> string list \<Rightarrow> string \<Rightarrow> console srv \<Rightarrow> console srv" where
  "save_choice owner rq key action known wanted k = (let value = trim_space wanted in
     if value = [] then k
     else if value \<notin> set known then retS (Denied 400)
     else save_setting owner rq key action value k)"

definition save_flag :: "admin \<Rightarrow> request \<Rightarrow> string \<Rightarrow> string \<Rightarrow> bool option \<Rightarrow> console srv \<Rightarrow> console srv" where
  "save_flag owner rq key action wanted k = (case wanted of
     None \<Rightarrow> k
   | Some b \<Rightarrow> save_setting owner rq key action (if b then ''true'' else ''false'') k)"

definition registration_modes :: "string list" where
  "registration_modes = [RegistrationModeOpen, RegistrationModeInvite, RegistrationModeClosed]"

definition link_formats :: "string list" where
  "link_formats = [LinkFormatBrotli, LinkFormatBrotliLegacy, LinkFormatDeflate]"

definition save_settings :: "admin \<Rightarrow> request \<Rightarrow> settings_request \<Rightarrow> console srv" where
  "save_settings owner rq req =
     save_choice owner rq SettingRegistrationMode ''owner.registration_mode_changed'' registration_modes (rs_registration_mode req)
    (save_choice owner rq SettingLinkFormat ''owner.link_format_changed'' link_formats (rs_link_format req)
    (save_flag owner rq SettingAllowAdminGRPC ''owner.allow_admin_grpc_changed'' (rs_allow_admin_grpc req)
    (save_flag owner rq SettingPanelByRequest ''owner.panel_by_request_changed'' (rs_panel_by_request req)
    (save_flag owner rq SettingFederationOpenEntry ''owner.federation_open_entry_changed'' (rs_federation_open_entry req)
    (save_flag owner rq SettingCryptoEnabled ''owner.crypto_enabled_changed'' (rs_crypto_enabled req)
     settingsPayload)))))"

definition handleSettings :: "request \<Rightarrow> posted \<Rightarrow> admin \<Rightarrow> console srv" where
  "handleSettings rq body owner =
     (if rq_method rq = ''GET'' then settingsPayload
      else if rq_method rq = ''PUT'' then (case po_settings body of None \<Rightarrow> retS (Denied 400) | Some req \<Rightarrow> save_settings owner rq req)
      else retS (Denied 405))"

subsection \<open>Invitations and the tree\<close>

definition ownerInvites :: "string option \<Rightarrow> request \<Rightarrow> posted \<Rightarrow> admin \<Rightarrow> console srv" where
  "ownerInvites token rq body owner =
     (if rq_method rq = ''GET'' then
        orDeny 500 (onDb (ListInvites True)) (\<lambda>codes. retS (CodeList (map (\<lambda>it. CodeView (it_token it)
          (formatTS (it_created_at it)) (formatTS (it_expires_at it)) (formatTS (it_used_at it)) (it_used_at it > 0)) codes)))
      else if rq_method rq = ''POST'' then (case token of
          None \<Rightarrow> retS (Denied 500)
        | Some tok \<Rightarrow>
            bindS now (\<lambda>t.
            orDeny 500 (onDb (CreateInvite tok (expiry t (po_ttl_hours body)) (a_id owner))) (\<lambda>invite.
            bindS (audit_owner owner ''owner.invite_created'' ''invite'' tok [] (rq_ip rq)) (\<lambda>_.
            retS (CodeMade (it_token invite) (formatTS (it_created_at invite)) (formatTS (it_expires_at invite)))))))
      else retS (Denied 405))"

definition ownerInviteByToken :: "request \<Rightarrow> string \<Rightarrow> admin \<Rightarrow> console srv" where
  "ownerInviteByToken rq token owner =
     (if token = [] then retS (Denied 404)
      else if rq_method rq \<noteq> ''DELETE'' then retS (Denied 405)
      else orDeny 500 (onDb (DeleteInvite token)) (\<lambda>_.
        bindS (audit_owner owner ''owner.invite_deleted'' ''invite'' token [] (rq_ip rq)) (\<lambda>_. retS AllDone)))"

definition tree_view_of :: "(int \<times> rollup_row) list \<Rightarrow> tree_member \<Rightarrow> tree_view" where
  "tree_view_of usage m = (case map_of usage (tm_admin_id m) of
     None \<Rightarrow> TreeView m 0 0 0 0 0
   | Some u \<Rightarrow> TreeView m (ru_own_bytes u) (ru_subtree_bytes u) (ru_own_clients u) (ru_subtree_clients u) (ru_subtree_admins u))"

definition handleInviteTree :: "request \<Rightarrow> console srv" where
  "handleInviteTree rq =
     (if rq_method rq \<noteq> ''GET'' then retS (Denied 405)
      else orDeny 500 (onDb InviteTree) (\<lambda>members.
        bindS (onDb AdminTrafficMap) (\<lambda>r.
        retS (TreeList (map (tree_view_of (case r of Inl _ \<Rightarrow> [] | Inr usage \<Rightarrow> usage)) members)))))"

definition branch_outcome :: "error + (nat \<times> error option) \<Rightarrow> error + nat" where
  "branch_outcome r = (case r of
     Inl e \<Rightarrow> Inl e | Inr (n, None) \<Rightarrow> Inr n | Inr (n, Some e) \<Rightarrow> Inl e)"

text \<open>The path below \<^verbatim>\<open>/api/owner/invite-tree/\<close>\<close>

definition handleInviteBranch :: "request \<Rightarrow> string \<Rightarrow> posted \<Rightarrow> admin \<Rightarrow> console srv" where
  "handleInviteBranch rq path body owner =
     (if rq_method rq \<noteq> ''POST'' then retS (Denied 405)
      else (case cut_slash path of
        (_, None) \<Rightarrow> retS (Denied 404)
      | (idPart, Some action) \<Rightarrow>
          if action \<noteq> ''cut'' \<and> action \<noteq> ''restore'' then retS (Denied 404)
          else (case ParseInt64 idPart of
            None \<Rightarrow> retS (Denied 400)
          | Some i \<Rightarrow>
              if i \<le> 0 \<or> i = a_id owner then retS (Denied 400)
              else let reason = trim_space (po_reason body) in
                bindS (if action = ''cut'' then bindS (onDb (SuspendSubtree i reason)) (\<lambda>r. retS (branch_outcome r))
                       else onDb (RestoreSubtree i)) (\<lambda>r. case r of
                  Inl e \<Rightarrow> retS (Denied (if e = ErrCannotSuspendOwner then 400 else if e = ErrNotFound then 404 else 500))
                | Inr hits \<Rightarrow>
                    bindS (audit_owner owner (''owner.invite_branch_'' @ action) ''admin'' (itoa i)
                      (itoa (int hits) @ '' accounts: '' @ reason) []) (\<lambda>_.
                    retS (Affected hits))))))"

text \<open>The routes that \<^verbatim>\<open>Register\<close> binds to the handlers above; every one of them stands behind the gate.\<close>

datatype owner_route =
    RMe | RAdmins | RAdminByID string | RClients string string | RAudit audit_filter | RSettings
  | RInvites | RInviteByToken string | RTree | RBranch string

fun owner_handler :: "env \<Rightarrow> string option \<Rightarrow> request \<Rightarrow> posted \<Rightarrow> owner_route \<Rightarrow> admin \<Rightarrow> console srv" where
  "owner_handler E token rq body RMe owner = handleMe owner"
| "owner_handler E token rq body RAdmins owner = handleAdmins E rq body owner"
| "owner_handler E token rq body (RAdminByID path) owner = handleAdminByID E rq path body owner"
| "owner_handler E token rq body (RClients limit offset) owner = handleAllClients rq limit offset"
| "owner_handler E token rq body (RAudit f) owner = handleAudit rq f"
| "owner_handler E token rq body RSettings owner = handleSettings rq body owner"
| "owner_handler E token rq body RInvites owner = ownerInvites token rq body owner"
| "owner_handler E token rq body (RInviteByToken path) owner = ownerInviteByToken rq path owner"
| "owner_handler E token rq body RTree owner = handleInviteTree rq"
| "owner_handler E token rq body (RBranch path) owner = handleInviteBranch rq path body owner"

definition owner_console :: "env \<Rightarrow> string option \<Rightarrow> string option \<Rightarrow> request \<Rightarrow> posted \<Rightarrow> owner_route \<Rightarrow> console srv" where
  "owner_console E token cookie rq body route = requireOwner cookie (owner_handler E token rq body route)"

subsection \<open>What every request of the console keeps\<close>

definition flag_keys :: "string list" where
  "flag_keys = [SettingAllowAdminGRPC, SettingPanelByRequest, SettingFederationOpenEntry, SettingCryptoEnabled]"

definition setting_legal :: "string \<Rightarrow> string \<Rightarrow> bool" where
  "setting_legal key value \<longleftrightarrow> (key = SettingRegistrationMode \<longrightarrow> value \<in> set registration_modes) \<and>
     (key = SettingLinkFormat \<longrightarrow> value \<in> set link_formats) \<and> (key \<in> set flag_keys \<longrightarrow> value \<in> {''true'', ''false''})"

lemmas setting_keys = SettingRegistrationMode_def SettingLinkFormat_def SettingAllowAdminGRPC_def SettingPanelByRequest_def
  SettingFederationOpenEntry_def SettingCryptoEnabled_def

definition keepsA :: "(store \<Rightarrow> bool) \<Rightarrow> 'a auth \<Rightarrow> bool" where
  "keepsA I m \<longleftrightarrow> (\<forall>s. I s \<longrightarrow> I (snd (m s)))"

lemma keepsA_intros:
  "keepsA I (retA x)" "keepsA I (failA e)" "preserves I n \<Longrightarrow> keepsA I (tryA n)" "preserves I n \<Longrightarrow> keepsA I (liftA n)"
  "keepsA I m \<Longrightarrow> (\<And>x. keepsA I (k x)) \<Longrightarrow> keepsA I (bindA m k)" "keepsA I m \<Longrightarrow> keepsA I m' \<Longrightarrow> keepsA I (if c then m else m')"
  "(\<And>e. keepsA I (h e)) \<Longrightarrow> (\<And>z. keepsA I (k' z)) \<Longrightarrow> keepsA I (case r of Inl e \<Rightarrow> h e | Inr z \<Rightarrow> k' z)"
  by (auto simp: keepsA_def preserves_def bindA_app tryA_def liftA_app retA_def failA_def split: prod.splits sum.splits)

lemma keeps_onAuth: "keepsA I m \<Longrightarrow> keepsS I (onAuth m)"
  by (auto simp: keepsA_def keepsS_def onAuth_def split: prod.splits)

lemma keeps_Authenticate: "fault_free I \<Longrightarrow> keepsA I (Authenticate cookie)"
  unfolding Authenticate_def refuse_suspended_def LookupSession_def FindAdminByID_def IsSuspended_def
  by (cases cookie) (simp_all only: option.case, (intro keepsA_intros pres | assumption | simp add: keepsA_intros split: prod.split)+)

lemma keeps_orDeny: "keepsS I n \<Longrightarrow> (\<And>x. keepsS I (k x)) \<Longrightarrow> keepsS I (orDeny c n k)"
  unfolding orDeny_def by (intro srv_intros)

lemma FindAdminByID_row: "FindAdminByID i s = (Inr a, s') \<Longrightarrow> \<exists>m fs. s' = s\<lparr>faults := fs\<rparr> \<and> admin_by_id i s = Some m \<and> a = toStorageAdmin m"
proof -
  assume a: "FindAdminByID i s = (Inr a, s')"
  then obtain m where m: "query_first (admin_by_id i) s = (Inr m, s')" "a = toStorageAdmin m"
    by (cases "query_first (admin_by_id i) s")
      (auto simp: FindAdminByID_def bindE_def find_row_def ret_def split: sum.splits prod.splits error.splits)
  obtain fs where "s' = s\<lparr>faults := fs\<rparr>" "admin_by_id i s' = Some m" using query_first_some [OF m(1)] by blast
  then show ?thesis using m(2) by (auto simp: admin_by_id_def)
qed

locale console_law =
  fixes I :: "store \<Rightarrow> bool"
  assumes ff: "fault_free I"
    and audit: "preserves I (AppendAudit e)"
    and create: "preserves I (CreateAccount h g u p True (RoleForPanel b) b)"
    and reset: "preserves I (UpdateAdminPassword i hash True)"
    and panel: "preserves I (SetPanelAccess i b)" "preserves I (ClearPanelRequest i)"
    and delete: "I s \<Longrightarrow> admin_by_id i s = Some m \<Longrightarrow> adm_role m \<noteq> RoleOwner \<Longrightarrow> I (snd (DeleteAdmin i s))"
    and codes: "preserves I (CreateInvite tok t i)" "preserves I (DeleteInvite tok)"
    and tree: "preserves I (SuspendSubtree i reason)" "preserves I (RestoreSubtree i)"
    and setting: "setting_legal key value \<Longrightarrow> preserves I (SetPlatformSetting key value)"
begin

lemma keeps_audit: "keepsS I (audit_owner owner action tt ti msg ip)"
  unfolding audit_owner_def by (intro keepsS_more audit)

lemmas console_intros = srv_intros keeps_orDeny keeps_audit keeps_onAuth pres ff

lemma keeps_removal: "keepsS I (respondDeleteAdmin rq owner i)"
  unfolding keepsS_def
proof (intro allI impI)
  fix sv :: server assume I: "I (sv_store sv)"
  obtain r s' where f: "FindAdminByID i (sv_store sv) = (r, s')" by fastforce
  have s': "I s'"
  proof -
    have "preserves I (FindAdminByID i)" unfolding FindAdminByID_def by (intro pres ff)
    then show ?thesis using I f by (auto simp: preserves_def dest!: spec [of _ "sv_store sv"])
  qed
  show "I (sv_store (snd (respondDeleteAdmin rq owner i sv)))"
  proof (cases "\<exists>a. r = Inr a \<and> a_role a \<noteq> RoleOwner \<and> i \<noteq> a_id owner")
    case True
    then obtain a where a: "r = Inr a" "a_role a \<noteq> RoleOwner" "i \<noteq> a_id owner" by blast
    obtain m fs where m: "s' = (sv_store sv)\<lparr>faults := fs\<rparr>" "admin_by_id i (sv_store sv) = Some m" "a = toStorageAdmin m"
      using FindAdminByID_row f a(1) by blast
    have "adm_role m \<noteq> RoleOwner" using a(2) m(3) by (auto simp: toStorageAdmin_def RoleOwner_def)
    moreover have "admin_by_id i s' = Some m" using m by (simp add: admin_by_id_def)
    ultimately have d: "I (snd (DeleteAdmin i s'))" using delete s' by blast
    then have "I (sv_store (snd (onDb (DeleteAdmin i) (sv\<lparr>sv_store := s'\<rparr>))))"
      by simp
    have k: "keepsS I (bindS (audit_owner owner ''owner.admin_deleted'' ''admin'' (itoa i) (a_username a) (rq_ip rq)) (\<lambda>_. retS AllDone))"
      by (intro console_intros)
    show ?thesis using a f d keepsSD [OF k] by (simp add: respondDeleteAdmin_def orDeny_def split: sum.split)
  qed (use I s' f in \<open>auto simp: respondDeleteAdmin_def orDeny_def split: sum.split\<close>)
qed

lemma keeps_views: "keepsS I (admin_views xs)"
  by (induction xs) (simp_all only: admin_views.simps CountClientsByOwner_def countClients_def Let_def case_prod_beta, (intro console_intros)+)

lemma keeps_admins: "keepsS I (handleAdmins E rq body owner)"
  unfolding handleAdmins_def respondListAdmins_def respondCreateAdmin_def ListAdmins_def FindAdminByUsername_def case_prod_beta
  by (intro console_intros keeps_views create)

lemma keeps_admin: "keepsS I (handleAdminByID E rq path body owner)"
  unfolding handleAdminByID_def respondResetPassword_def respondPanelAccess_def FindAdminByID_def Let_def case_prod_beta
    ResetPasswordTo_def sumA_def
  by (intro console_intros keeps_removal keepsA_intros reset panel)

lemma keeps_payload: "keepsS I settingsPayload"
  unfolding settingsPayload_def read_setting_def GetPlatformSetting_def by (intro console_intros)

lemma keeps_save: "setting_legal key value \<Longrightarrow> keepsS I k \<Longrightarrow> keepsS I (save_setting owner rq key action value k)"
  unfolding save_setting_def by (intro console_intros setting)

lemma keeps_choice: "(\<And>v. v \<in> set known \<Longrightarrow> setting_legal key v) \<Longrightarrow> keepsS I k \<Longrightarrow> keepsS I (save_choice owner rq key action known wanted k)"
  by (simp add: save_choice_def Let_def keeps_save keepsS_intros)

lemma keeps_flag: "(\<And>b. setting_legal key (if b then ''true'' else ''false'')) \<Longrightarrow> keepsS I k \<Longrightarrow> keepsS I (save_flag owner rq key action wanted k)"
  unfolding save_flag_def by (intro console_intros keeps_save)

lemma keeps_configured: "keepsS I (handleSettings rq body owner)"
  unfolding handleSettings_def save_settings_def
  by (intro console_intros keeps_payload keeps_choice keeps_flag) (auto simp: setting_legal_def flag_keys_def setting_keys)

lemma keeps_invites: "keepsS I (ownerInvites token rq body owner)" "keepsS I (ownerInviteByToken rq path owner)"
  unfolding ownerInvites_def ownerInviteByToken_def ListInvites_def by (intro console_intros codes)+

lemma keeps_tree: "keepsS I (handleInviteTree rq)" "keepsS I (handleInviteBranch rq path body owner)"
  unfolding handleInviteTree_def handleInviteBranch_def InviteTree_def ListAdmins_def inviteEdges_def suspendedSet_def AdminTrafficMap_def
    Let_def case_prod_beta
  by (intro console_intros tree)+

lemma keeps_lists: "keepsS I (handleAllClients rq limit offset)" "keepsS I (handleAudit rq f)"
  unfolding handleAllClients_def handleAudit_def ListAdmins_def PageAllClients_def pageClients_def ClientTrafficMap_def ListAudit_def
    CountAudit_def Let_def case_prod_beta
  by (intro console_intros pres_stmt | simp)+

lemma keeps_console: "keepsS I (owner_console E token cookie rq body route)"
  unfolding owner_console_def requireOwner_def
  by (cases route; simp only: owner_handler.simps handleMe_def;
    intro console_intros keeps_Authenticate keeps_admins keeps_admin keeps_configured keeps_invites keeps_tree keeps_lists)

end

text \<open>The references of the database, an owner that is in force, and the values that settings may have.\<close>

interpretation sound: console_law wf_store
proof unfold_locales
  show "wf_store (snd (DeleteAdmin i s))" if "wf_store s" for i s
    using pres_admin_updates(7) that by (simp add: preserves_def)
qed (unfold CreateInvite_def, (rule fault_free_wf pres)+)

definition in_force :: "int \<Rightarrow> admin_row \<Rightarrow> bool" where
  "in_force i r \<longleftrightarrow> adm_id r = i \<and> adm_role r = RoleOwner \<and> adm_suspended_at r = 0"

definition stands :: "int \<Rightarrow> store \<Rightarrow> bool" where
  "stands i s \<longleftrightarrow> (\<exists>r \<in> set (admins s). in_force i r)"

definition settings_ok :: "store \<Rightarrow> bool" where
  "settings_ok s \<longleftrightarrow> (\<forall>r \<in> set (settings s). setting_legal (ps_key r) (ps_value r))"

lemma preserves_conj: "preserves I m \<Longrightarrow> preserves J m \<Longrightarrow> preserves (\<lambda>s. I s \<and> J s) m"
  by (simp add: preserves_def)

lemma free_stands [simp]: "fault_free (stands i)" "fault_free settings_ok" "fault_free (\<lambda>s. wf_store s \<and> stands i s)"
  by (simp_all add: fault_free_def stands_def settings_ok_def wf_defs)

lemma stands_other [simp]: "stands i (blobs_update f s) = stands i s" "stands i (audits_update g s) = stands i s"
  "stands i (audits_seq_update h s) = stands i s" "stands i (invites_update k s) = stands i s" "stands i (settings_update l s) = stands i s"
  "stands i (sessions_update n s) = stands i s" "stands i (admins_seq_update q s) = stands i s"
  by (simp_all add: stands_def)

lemma stands_updated: "stands i s \<Longrightarrow> (\<And>r. in_force i r \<Longrightarrow> P r \<Longrightarrow> in_force i (f r)) \<Longrightarrow> stands i (admins_update (update_where P f) s)"
  by (auto simp: stands_def update_where_def)

lemma stands_touch: "(\<And>r. in_force i r \<Longrightarrow> in_force i (f r)) \<Longrightarrow> preserves (stands i) (touch_admin j f)"
  unfolding touch_admin_def update_admin_def
  by (intro pres pres_update_rows free_stands stands_updated) (auto simp: in_force_def)

lemma stands_avatar: "preserves (stands i) (SetAdminAvatar h j mime d)"
  unfolding SetAdminAvatar_def PutBlob_def dropBlobIfOrphan_def avatarBlobOf_def Let_def
  by (intro pres pres_insert_row pres_delete_rows stands_touch free_stands) (simp_all add: in_force_def)

lemma stands_CreateAccount: "preserves (stands i) (CreateAccount h g u p m role b)"
proof -
  have "preserves (stands i) (insert_admin row)" for row
    unfolding insert_admin_def by (intro pres_stmt free_stands) (auto simp: stands_def Let_def)
  then show ?thesis unfolding CreateAccount_def Let_def by (intro pres stands_avatar)
qed

lemma stands_suspend: "preserves (stands i) (SuspendSubtree j reason)" "preserves (stands i) (RestoreSubtree j)"
  unfolding SuspendSubtree_def RestoreSubtree_def InviteSubtree_def inviteEdges_def FindAdminByID_def
  by (intro pres pres_update_rows pres_delete_rows free_stands stands_updated; simp add: in_force_def restore_row_def)+

lemma stands_audit: "preserves (stands i) (AppendAudit e)"
  unfolding AppendAudit_def Let_def by (intro pres pres_stmt free_stands) simp

lemma stands_delete:
  assumes "wf_store s" "stands i s" "admin_by_id j s = Some m" "adm_role m \<noteq> RoleOwner"
  shows "stands i (snd (DeleteAdmin j s))"
proof -
  obtain r where r: "r \<in> set (admins s)" "in_force i r" using assms(2) by (auto simp: stands_def)
  have "j \<noteq> i"
  proof
    assume "j = i"
    then have "m = r" using r assms(1,3) distinct_key_unique [of adm_id "admins s" m r]
      by (auto simp: admin_by_id_def find_Some_iff in_force_def wf_defs uniq_def)
    then show False using r(2) assms(4) by (simp add: in_force_def)
  qed
  then have "preserves (\<lambda>t. r \<in> set (admins t)) (DeleteAdmin j)"
    using r(2) unfolding DeleteAdmin_def delete_admins_def
    by (intro pres pres_stmt) (auto simp: fault_free_def remove_admins_def in_force_def)
  then show ?thesis using r by (auto simp: preserves_def stands_def)
qed

interpretation lasting: console_law "\<lambda>s. wf_store s \<and> stands i s" for i
proof unfold_locales
  show "wf_store (snd (DeleteAdmin j s)) \<and> stands i (snd (DeleteAdmin j s))"
    if "wf_store s \<and> stands i s" "admin_by_id j s = Some m" "adm_role m \<noteq> RoleOwner" for j s m
    using that sound.delete stands_delete by blast
  show "preserves (\<lambda>s. wf_store s \<and> stands i s) (SetPanelAccess j b)" for j b
    by (rule preserves_conj [OF sound.panel(1)]) (unfold SetPanelAccess_def,
      intro pres pres_update_rows free_stands stands_updated, simp_all add: in_force_def)
  show "preserves (\<lambda>s. wf_store s \<and> stands i s) (UpdateAdminPassword j hash True)" "preserves (\<lambda>s. wf_store s \<and> stands i s) (ClearPanelRequest j)" for j hash
    by (rule preserves_conj [OF sound.reset] preserves_conj [OF sound.panel(2)]; unfold UpdateAdminPassword_def ClearPanelRequest_def,
      rule stands_touch; simp add: in_force_def)+
  show "preserves (\<lambda>s. wf_store s \<and> stands i s) (CreateInvite tok t a)" "preserves (\<lambda>s. wf_store s \<and> stands i s) (DeleteInvite tok)" for tok t a
    by (rule preserves_conj [OF sound.codes(1)] preserves_conj [OF sound.codes(2)]; unfold CreateInvite_def CreateInviteWithUses_def DeleteInvite_def Let_def,
      intro pres pres_insert_row pres_delete_rows free_stands; simp)+
  show "preserves (\<lambda>s. wf_store s \<and> stands i s) (SetPlatformSetting key v)" if "setting_legal key v" for key v
    by (rule preserves_conj [OF sound.setting [OF that]]) (unfold SetPlatformSetting_def, intro pres_upsert_rows free_stands, simp)
qed (intro free_stands preserves_conj sound.audit sound.create sound.tree stands_audit stands_CreateAccount stands_suspend)+

lemma free_settings: "fault_free (\<lambda>s :: store. P (settings s))"
  by (simp add: fault_free_def)

text \<open>The settings table belongs to the settings: nothing else in the console writes it.\<close>

lemma keeps_settings_ok: "(\<And>X. preserves (\<lambda>s. settings s = X) n) \<Longrightarrow> preserves settings_ok n"
  by (simp add: preserves_def settings_ok_def)

lemma settings_touch: "preserves (\<lambda>s. settings s = X) (touch_admin j f)"
  unfolding touch_admin_def update_admin_def by (intro pres pres_update_rows free_settings [of "\<lambda>x. x = X"]) simp

lemma free_settings_eq: "fault_free (\<lambda>s :: store. settings s = X)"
  by (rule free_settings [of "\<lambda>x. x = X"])

lemma settings_avatar: "preserves (\<lambda>s. settings s = X) (SetAdminAvatar h j mime d)"
  unfolding SetAdminAvatar_def PutBlob_def dropBlobIfOrphan_def avatarBlobOf_def Let_def
  by (intro pres pres_insert_row pres_delete_rows settings_touch free_settings_eq) simp_all

interpretation chosen: console_law settings_ok
proof unfold_locales
  note free = free_settings_eq
  show "preserves settings_ok (AppendAudit e)" for e
    unfolding AppendAudit_def Let_def by (intro keeps_settings_ok pres pres_stmt free) simp
  show "preserves settings_ok (CreateAccount h g u p True (RoleForPanel b) b)" for h g u p b
    unfolding CreateAccount_def insert_admin_def Let_def by (intro keeps_settings_ok pres pres_stmt settings_avatar free) auto
  show "preserves settings_ok (UpdateAdminPassword i hash True)" "preserves settings_ok (ClearPanelRequest i)" for i hash
    unfolding UpdateAdminPassword_def ClearPanelRequest_def by (intro keeps_settings_ok settings_touch)+
  show "preserves settings_ok (SetPanelAccess i b)" for i b
    unfolding SetPanelAccess_def by (intro keeps_settings_ok pres pres_update_rows free) simp
  show "settings_ok (snd (DeleteAdmin i s))" if "settings_ok s" for i s
  proof -
    have "preserves settings_ok (DeleteAdmin i)" unfolding DeleteAdmin_def delete_admins_def
      by (intro keeps_settings_ok pres pres_stmt free)
        (simp add: remove_admins_def cascade_admins_def remove_clients_def cascade_clients_def drop_client_rows_def Let_def)
    then show ?thesis using that by (simp add: preserves_def)
  qed
  show "preserves settings_ok (CreateInvite tok t i)" "preserves settings_ok (DeleteInvite tok)" for tok t i
    unfolding CreateInvite_def CreateInviteWithUses_def DeleteInvite_def Let_def
    by (intro keeps_settings_ok pres pres_insert_row pres_delete_rows free; simp)+
  show "preserves settings_ok (SuspendSubtree i reason)" "preserves settings_ok (RestoreSubtree i)" for i reason
    unfolding SuspendSubtree_def RestoreSubtree_def InviteSubtree_def inviteEdges_def FindAdminByID_def
    by (intro keeps_settings_ok pres pres_update_rows pres_delete_rows free; simp)+
  show "preserves settings_ok (SetPlatformSetting key v)" if "setting_legal key v" for key v
  proof -
    have "settings_ok (settings_update (fold (upsert_one ps_key setting_upd) [\<lparr>ps_key = key, ps_value = v\<rparr>]) s)" if "settings_ok s" for s
      using that \<open>setting_legal key v\<close> by (auto simp: settings_ok_def upsert_one_def setting_upd_def update_where_def)
    then show ?thesis unfolding SetPlatformSetting_def by (intro pres_upsert_rows free_stands)
  qed
qed simp

subsection \<open>What the settings say\<close>

definition setting_at :: "string \<Rightarrow> string \<Rightarrow> store \<Rightarrow> string" where
  "setting_at key fallback s = (case setting_row_of key s of None \<Rightarrow> fallback | Some r \<Rightarrow> ps_value r)"

text \<open>The settings as the owner knows them, and what a request makes of them.\<close>

definition settings_of :: "store \<Rightarrow> settings_view" where
  "settings_of s = \<lparr>sw_registration_mode = setting_at SettingRegistrationMode RegistrationModeOpen s,
     sw_allow_admin_grpc = (setting_at SettingAllowAdminGRPC ''false'' s = ''true''),
     sw_link_format = setting_at SettingLinkFormat LinkFormatBrotli s,
     sw_panel_by_request = (setting_at SettingPanelByRequest ''false'' s = ''true''),
     sw_federation_open_entry = (setting_at SettingFederationOpenEntry ''false'' s = ''true''),
     sw_crypto_enabled = (setting_at SettingCryptoEnabled ''false'' s = ''true'')\<rparr>"

definition chosen_text :: "string \<Rightarrow> string \<Rightarrow> string" where
  "chosen_text wanted old = (if trim_space wanted = [] then old else trim_space wanted)"

definition chosen_flag :: "bool option \<Rightarrow> bool \<Rightarrow> bool" where
  "chosen_flag wanted old = (case wanted of None \<Rightarrow> old | Some b \<Rightarrow> b)"

definition asked :: "settings_request \<Rightarrow> settings_view \<Rightarrow> settings_view" where
  "asked req v = \<lparr>sw_registration_mode = chosen_text (rs_registration_mode req) (sw_registration_mode v),
     sw_allow_admin_grpc = chosen_flag (rs_allow_admin_grpc req) (sw_allow_admin_grpc v),
     sw_link_format = chosen_text (rs_link_format req) (sw_link_format v),
     sw_panel_by_request = chosen_flag (rs_panel_by_request req) (sw_panel_by_request v),
     sw_federation_open_entry = chosen_flag (rs_federation_open_entry req) (sw_federation_open_entry v),
     sw_crypto_enabled = chosen_flag (rs_crypto_enabled req) (sw_crypto_enabled v)\<rparr>"

definition acceptable :: "settings_request \<Rightarrow> bool" where
  "acceptable req \<longleftrightarrow> trim_space (rs_registration_mode req) \<in> {[]} \<union> set registration_modes \<and>
     trim_space (rs_link_format req) \<in> {[]} \<union> set link_formats"

text \<open>After a step of a working database the settings are as before except for one key.\<close>

definition settled_at :: "string \<Rightarrow> string option \<Rightarrow> server \<Rightarrow> server \<Rightarrow> bool" where
  "settled_at key v sv sv' \<longleftrightarrow> faults (sv_store sv') = [] \<and>
     (\<forall>k d. setting_at k d (sv_store sv') = (if k = key then (case v of None \<Rightarrow> setting_at k d (sv_store sv) | Some x \<Rightarrow> x)
        else setting_at k d (sv_store sv)))"

lemma setting_at_save: "setting_at k d (settings_update (fold (upsert_one ps_key setting_upd) [\<lparr>ps_key = key, ps_value = v\<rparr>]) s) =
    (if k = key then v else setting_at k d s)"
  by (simp add: setting_at_def setting_row_of_def setting_table.find_upsert_one setting_upd_def split: option.split)

lemma setting_at_audits [simp]: "setting_at k d (s\<lparr>audits := au, audits_seq := n\<rparr>) = setting_at k d s"
  by (simp add: setting_at_def setting_row_of_def)

lemma save_setting_run:
  assumes "faults (sv_store sv) = []"
  shows "\<exists>sv'. save_setting owner rq key action v k sv = k sv' \<and> settled_at key (Some v) sv sv'"
proof -
  define s where "s = settings_update (fold (upsert_one ps_key setting_upd) [\<lparr>ps_key = key, ps_value = v\<rparr>]) (sv_store sv)"
  let ?sv = "snd (audit_owner owner action [] [] v (rq_ip rq) (sv\<lparr>sv_store := s\<rparr>))"
  have s: "faults s = []" "\<And>k d. setting_at k d s = (if k = key then v else setting_at k d (sv_store sv))"
    using assms setting_at_save [of _ _ key v "sv_store sv"] by (simp_all add: s_def)
  have "SetPlatformSetting key v (sv_store sv) = (Inr (), s)"
    using assms by (simp add: SetPlatformSetting_def upsert_rows_ok s_def)
  then have "save_setting owner rq key action v k sv = k ?sv" by (simp add: save_setting_def orDeny_def case_prod_beta)
  moreover have "\<exists>au n. sv_store ?sv = s\<lparr>audits := au, audits_seq := n\<rparr>"
    using AppendAudit_frame [OF s(1)] by (simp add: audit_owner_def note_audit_app only_audits_def)
  then obtain au n where "sv_store ?sv = s\<lparr>audits := au, audits_seq := n\<rparr>" by blast
  then have "settled_at key (Some v) sv ?sv" using s by (simp add: settled_at_def)
  ultimately show ?thesis by blast
qed

lemma settled_none: "faults (sv_store sv) = [] \<Longrightarrow> settled_at key None sv sv"
  by (simp add: settled_at_def)

lemma choice_run:
  assumes "faults (sv_store sv) = []" "trim_space w \<in> {[]} \<union> set known"
  shows "\<exists>sv'. save_choice owner rq key action known w k sv = k sv' \<and> settled_at key (if trim_space w = [] then None else Some (trim_space w)) sv sv'"
  using assms save_setting_run [OF assms(1)] settled_none [OF assms(1)] by (auto simp: save_choice_def)

lemma flag_run:
  assumes "faults (sv_store sv) = []"
  shows "\<exists>sv'. save_flag owner rq key action w k sv = k sv' \<and> settled_at key (map_option (\<lambda>b. if b then ''true'' else ''false'') w) sv sv'"
  using save_setting_run [OF assms] settled_none [OF assms] by (cases w) (auto simp: save_flag_def)

lemma payload_run: "faults (sv_store sv) = [] \<Longrightarrow> settingsPayload sv = (Settings (settings_of (sv_store sv)), sv)"
  by (simp add: settingsPayload_def orDeny_def read_setting_def GetPlatformSetting_ok settings_of_def setting_at_def)

subsection \<open>Properties\<close>

text \<open>The console is the owner's. A request whose session does not lead to an account of an owner is refused on
  every route, and the database is as it was.
\<close>
theorem console_for_owners:
  assumes "\<forall>a s'. Authenticate cookie (sv_store sv) = (Inr a, s') \<longrightarrow> a_role a \<noteq> RoleOwner"
  shows "\<exists>c sv'. owner_console E token cookie rq body route sv = (Denied c, sv') \<and> c \<in> {401, 403} \<and> data (sv_store sv') = data (sv_store sv)"
proof -
  have "keepsA (\<lambda>s. data s = data (sv_store sv)) (Authenticate cookie)" by (rule keeps_Authenticate) simp
  then have "data (snd (Authenticate cookie (sv_store sv))) = data (sv_store sv)" by (simp add: keepsA_def)
  then show ?thesis
    using assms by (cases "Authenticate cookie (sv_store sv)") (auto simp: owner_console_def requireOwner_def IsOwner_def split: sum.split)
qed

text \<open>C40: An owner cannot be locked out from the console. Whatever request arrives on whatever route, and whatever the
  engine refuses on the way, an account that is an owner in force is still there afterwards, an owner and not suspended.
\<close>
theorem owners_last:
  assumes "wf_store (sv_store sv)" "\<exists>r \<in> set (admins (sv_store sv)). adm_id r = i \<and> adm_role r = RoleOwner \<and> adm_suspended_at r = 0"
  shows "\<exists>r \<in> set (admins (sv_store (snd (owner_console E token cookie rq body route sv)))). adm_id r = i \<and> adm_role r = RoleOwner \<and> adm_suspended_at r = 0"
  using keepsSD [OF lasting.keeps_console, of sv i E token cookie rq body route] assms
  by (simp add: stands_def in_force_def)

text \<open>The settings stay in their range: the registration mode, the link format and the four switches only ever hold
  the values that the rest of the panel compares them with, under any request and any failure.
\<close>
theorem settings_in_range:
  assumes "settings_ok (sv_store sv)"
  shows "settings_ok (sv_store (snd (owner_console E token cookie rq body route sv)))"
  using keepsSD [OF chosen.keeps_console] assms by blast

text \<open>No request of the console breaks the keys or references of the database, whatever the engine refuses.
\<close>
theorem console_keeps_invariant:
  assumes "wf_store (sv_store sv)"
  shows "wf_store (sv_store (snd (owner_console E token cookie rq body route sv)))"
  using keepsSD [OF sound.keeps_console] assms by blast

text \<open>C28: Saving settings does to the settings table what the request says to the settings as the owner sees them: what
  is left out or blank stays, what is named is taken, and the answer is the new state.
\<close>
theorem settings_refine:
  assumes "faults (sv_store sv) = []" "rq_method rq = ''PUT''" "po_settings body = Some req" "acceptable req"
  shows "\<exists>sv'. handleSettings rq body owner sv = (Settings (asked req (settings_of (sv_store sv))), sv') \<and>
    settings_of (sv_store sv') = asked req (settings_of (sv_store sv))"
proof -
  have f: "settled_at key v a b \<Longrightarrow> faults (sv_store b) = []" for key v a b by (simp add: settled_at_def)
  note acc = assms(4) [unfolded acceptable_def]
  define req2 where "req2 = save_choice owner rq SettingLinkFormat ''owner.link_format_changed'' link_formats (rs_link_format req)"
  define req3 where "req3 = save_flag owner rq SettingAllowAdminGRPC ''owner.allow_admin_grpc_changed'' (rs_allow_admin_grpc req)"
  define req4 where "req4 = save_flag owner rq SettingPanelByRequest ''owner.panel_by_request_changed'' (rs_panel_by_request req)"
  define req5 where "req5 = save_flag owner rq SettingFederationOpenEntry ''owner.federation_open_entry_changed'' (rs_federation_open_entry req)"
  define req6 where "req6 = save_flag owner rq SettingCryptoEnabled ''owner.crypto_enabled_changed'' (rs_crypto_enabled req)"
  obtain s1 where 1: "save_settings owner rq req sv = req2 (req3 (req4 (req5 (req6 settingsPayload)))) s1"
    "settled_at SettingRegistrationMode (if trim_space (rs_registration_mode req) = [] then None else Some (trim_space (rs_registration_mode req))) sv s1"
    using choice_run [OF assms(1), of "rs_registration_mode req" registration_modes] acc
    unfolding save_settings_def req2_def req3_def req4_def req5_def req6_def by blast
  obtain s2 where 2: "req2 (req3 (req4 (req5 (req6 settingsPayload)))) s1 = req3 (req4 (req5 (req6 settingsPayload))) s2"
    "settled_at SettingLinkFormat (if trim_space (rs_link_format req) = [] then None else Some (trim_space (rs_link_format req))) s1 s2"
    using choice_run [OF f [OF 1(2)], of "rs_link_format req" link_formats] acc unfolding req2_def by blast
  obtain s3 where 3: "req3 (req4 (req5 (req6 settingsPayload))) s2 = req4 (req5 (req6 settingsPayload)) s3"
    "settled_at SettingAllowAdminGRPC (map_option (\<lambda>b. if b then ''true'' else ''false'') (rs_allow_admin_grpc req)) s2 s3"
    using flag_run [OF f [OF 2(2)]] unfolding req3_def by blast
  obtain s4 where 4: "req4 (req5 (req6 settingsPayload)) s3 = req5 (req6 settingsPayload) s4"
    "settled_at SettingPanelByRequest (map_option (\<lambda>b. if b then ''true'' else ''false'') (rs_panel_by_request req)) s3 s4"
    using flag_run [OF f [OF 3(2)]] unfolding req4_def by blast
  obtain s5 where 5: "req5 (req6 settingsPayload) s4 = req6 settingsPayload s5"
    "settled_at SettingFederationOpenEntry (map_option (\<lambda>b. if b then ''true'' else ''false'') (rs_federation_open_entry req)) s4 s5"
    using flag_run [OF f [OF 4(2)]] unfolding req5_def by blast
  obtain s6 where 6: "req6 settingsPayload s5 = settingsPayload s6"
    "settled_at SettingCryptoEnabled (map_option (\<lambda>b. if b then ''true'' else ''false'') (rs_crypto_enabled req)) s5 s6"
    using flag_run [OF f [OF 5(2)]] unfolding req6_def by blast
  have "settings_of (sv_store s6) = asked req (settings_of (sv_store sv))"
    using 1(2) 2(2) 3(2) 4(2) 5(2) 6(2)
    by (simp add: settled_at_def settings_of_def asked_def chosen_text_def chosen_flag_def setting_keys split: option.split)
  moreover have "handleSettings rq body owner sv = (Settings (settings_of (sv_store s6)), s6)"
    using assms(2,3) 1(1) 2(1) 3(1) 4(1) 5(1) 6(1) payload_run [OF f [OF 6(2)]] by (simp add: handleSettings_def)
  ultimately show ?thesis by simp
qed

text \<open>Saving is not all or nothing. A request with a good registration mode and an unknown link format is refused
  as bad, and the registration mode has changed.
\<close>
theorem settings_half_saved:
  assumes "faults (sv_store sv) = []" "rq_method rq = ''PUT''" "po_settings body = Some req"
    and "trim_space (rs_registration_mode req) \<in> set registration_modes" "trim_space (rs_link_format req) \<notin> {[]} \<union> set link_formats"
  shows "\<exists>sv'. handleSettings rq body owner sv = (Denied 400, sv') \<and>
    sw_registration_mode (settings_of (sv_store sv')) = trim_space (rs_registration_mode req)"
proof -
  have n: "trim_space (rs_registration_mode req) \<noteq> []"
    using assms(4) by (auto simp: registration_modes_def RegistrationModeOpen_def RegistrationModeInvite_def RegistrationModeClosed_def)
  define k where "k = save_flag owner rq SettingAllowAdminGRPC ''owner.allow_admin_grpc_changed'' (rs_allow_admin_grpc req)
    (save_flag owner rq SettingPanelByRequest ''owner.panel_by_request_changed'' (rs_panel_by_request req)
    (save_flag owner rq SettingFederationOpenEntry ''owner.federation_open_entry_changed'' (rs_federation_open_entry req)
    (save_flag owner rq SettingCryptoEnabled ''owner.crypto_enabled_changed'' (rs_crypto_enabled req) settingsPayload)))"
  let ?k = "save_choice owner rq SettingLinkFormat ''owner.link_format_changed'' link_formats (rs_link_format req) k"
  obtain s1 where "save_settings owner rq req sv = ?k s1"
    and s1: "settled_at SettingRegistrationMode (Some (trim_space (rs_registration_mode req))) sv s1"
    using choice_run [OF assms(1), of "rs_registration_mode req" registration_modes owner rq SettingRegistrationMode
      "''owner.registration_mode_changed''" ?k] assms(4) n
    unfolding save_settings_def k_def [symmetric] by auto
  then have "handleSettings rq body owner sv = (Denied 400, s1)"
    using assms(2,3,5) by (simp add: handleSettings_def save_choice_def Let_def)
  then show ?thesis using s1 by (simp add: settled_at_def settings_of_def)
qed

subsection \<open>At concrete inputs\<close>

definition desk_store :: store where
  "desk_store = (sample_store DriverSQLite)\<lparr>sessions := [session_row_of ''root'' 1 5000000, session_row_of ''tok'' 2 5000000]\<rparr>"

lemma desk_store_simps [simp]: "faults desk_store = []" "wf_store desk_store" "settings_ok desk_store"
    "admins desk_store = [sample_admin 1 ''root'' ''owner'', sample_admin 2 ''ann'' ''admin'']"
  using sample_wf [of DriverSQLite]
  by (simp_all add: desk_store_def wf_defs sample_defs uniq_def refers_def session_row_of_def settings_ok_def)

definition nothing_posted :: posted where
  "nothing_posted = \<lparr>po_account = None, po_password = None, po_allowed = None, po_settings = None, po_ttl_hours = 0, po_reason = []\<rparr>"

definition by_invitation :: settings_request where
  "by_invitation = \<lparr>rs_registration_mode = '' invite '', rs_allow_admin_grpc = Some True, rs_link_format = [],
     rs_panel_by_request = None, rs_crypto_enabled = Some False, rs_federation_open_entry = None\<rparr>"

lemma mode_known: "trim_space (rs_registration_mode by_invitation) = ''invite''" "trim_space (rs_link_format by_invitation) = []"
  by code_simp+

lemma ann_no_owner: "\<forall>a s'. Authenticate (Some ''tok'') desk_store = (Inr a, s') \<longrightarrow> a_role a \<noteq> RoleOwner"
proof -
  have "case fst (Authenticate (Some ''tok'') desk_store) of Inl _ \<Rightarrow> True | Inr a \<Rightarrow> a_role a \<noteq> RoleOwner" by code_simp
  then show ?thesis by auto
qed

theorem console_for_owners_witness:
  "\<exists>c sv'. owner_console sample_env None (Some ''tok'') (sample_request ''DELETE'' []) nothing_posted (RAdminByID ''1'') (panel desk_store) =
     (Denied c, sv') \<and> c \<in> {401, 403} \<and> data (sv_store sv') = data desk_store"
  using console_for_owners [of "Some ''tok''" "panel desk_store" sample_env None "sample_request ''DELETE'' []" nothing_posted "RAdminByID ''1''"]
    ann_no_owner by simp

theorem owners_last_witness:
  "\<exists>r \<in> set (admins (sv_store (snd (owner_console sample_env None (Some ''root'') (sample_request ''DELETE'' []) nothing_posted (RAdminByID ''1'') (panel desk_store))))).
     adm_id r = 1 \<and> adm_role r = RoleOwner \<and> adm_suspended_at r = 0"
  by (rule owners_last) (simp_all add: sample_admin_def RoleOwner_def)

theorem settings_in_range_witness:
  "settings_ok (sv_store (snd (owner_console sample_env None (Some ''root'') (sample_request ''PUT'' []) (nothing_posted\<lparr>po_settings := Some by_invitation\<rparr>)
     RSettings (panel desk_store))))"
  by (rule settings_in_range) simp

theorem console_keeps_invariant_witness:
  "wf_store (sv_store (snd (owner_console sample_env None (Some ''root'') (sample_request ''DELETE'' []) nothing_posted (RAdminByID ''2'') (panel desk_store))))"
  by (rule console_keeps_invariant) simp

theorem settings_refine_witness:
  "\<exists>sv'. handleSettings (sample_request ''PUT'' []) (nothing_posted\<lparr>po_settings := Some by_invitation\<rparr>) ann (panel desk_store) =
      (Settings (asked by_invitation (settings_of desk_store)), sv') \<and>
    settings_of (sv_store sv') = asked by_invitation (settings_of desk_store) \<and> sw_registration_mode (settings_of (sv_store sv')) = ''invite''"
proof -
  have "acceptable by_invitation"
    by (simp add: acceptable_def mode_known registration_modes_def RegistrationModeInvite_def)
  moreover have "sw_registration_mode (asked by_invitation v) = ''invite''" for v
    by (simp add: asked_def chosen_text_def mode_known)
  ultimately show ?thesis
    using settings_refine [of "panel desk_store" "sample_request ''PUT'' []" "nothing_posted\<lparr>po_settings := Some by_invitation\<rparr>" by_invitation ann]
    by (auto simp: sample_request_def)
qed

theorem settings_half_saved_witness:
  "\<exists>sv'. handleSettings (sample_request ''PUT'' []) (nothing_posted\<lparr>po_settings := Some (by_invitation\<lparr>rs_link_format := ''zip''\<rparr>)\<rparr>) ann (panel desk_store) =
      (Denied 400, sv') \<and> sw_registration_mode (settings_of (sv_store sv')) = ''invite''"
proof -
  have z: "trim_space ''zip'' = ''zip''" by code_simp
  show ?thesis
    using settings_half_saved [of "panel desk_store" "sample_request ''PUT'' []" "nothing_posted\<lparr>po_settings := Some (by_invitation\<lparr>rs_link_format := ''zip''\<rparr>)\<rparr>"
        "by_invitation\<lparr>rs_link_format := ''zip''\<rparr>" ann]
    by (simp add: sample_request_def mode_known z registration_modes_def RegistrationModeInvite_def link_formats_def
        LinkFormatBrotli_def LinkFormatBrotliLegacy_def LinkFormatDeflate_def)
qed

end
