(* ===== verification/AccountDesk.thy ===== *)
theory AccountDesk
  imports OwnerDesk
begin

text \<open>
  The account of a person, in the panel and at the account service: the logins in flight of
  \<^verbatim>\<open>internal/oidcauth/oidcauth.go\<close>, and of \<^verbatim>\<open>internal/handlers/admin\<close> the files \<^verbatim>\<open>accountlogin.go\<close>, \<^verbatim>\<open>accountform.go\<close>,
  \<^verbatim>\<open>accountmove.go\<close>, \<^verbatim>\<open>accountself.go\<close> (password), \<^verbatim>\<open>appaccount.go\<close>, the gates and the registration of \<^verbatim>\<open>admin.go\<close> and the
  request for the panel of \<^verbatim>\<open>cabinet.go\<close>. What the account service answers is a parameter, \<^term>\<open>None\<close> where a call fails.
\<close>

type_synonym ticket_session = string

datatype password_error = BadPassword | OtherFailure
datatype create_error = NameTaken | NotCreated

record claims =
  cl_subject :: string
  cl_preferred :: string
  cl_name :: string

record human =
  hu_username :: string
  hu_email :: string
  hu_first_name :: string
  hu_last_name :: string
  hu_password :: string

record provider =
  pv_issuer :: string
  pv_client_id :: string
  pv_session_on :: bool
  pv_discover :: bool
  pv_auth_url :: "string \<Rightarrow> string \<Rightarrow> string"
  pv_exchange :: "string \<Rightarrow> string \<Rightarrow> claims option"
  pv_userinfo :: "string \<Rightarrow> (string \<times> string \<times> string) option"
  pv_begin :: "string \<Rightarrow> string option"
  pv_password :: "string \<Rightarrow> string \<Rightarrow> password_error + ticket_session"
  pv_factor :: "ticket_session \<Rightarrow> string \<Rightarrow> ticket_session option"
  pv_finish :: "string \<Rightarrow> ticket_session \<Rightarrow> string option"
  pv_owner :: "ticket_session \<Rightarrow> string option"
  pv_create :: "human \<Rightarrow> create_error + string"
  pv_set_password :: "string \<Rightarrow> string \<Rightarrow> bool"

subsection \<open>Logins in flight\<close>

record identity =
  id_subject :: string
  id_username :: string
  id_display_name :: string

record pending =
  pn_verifier :: string
  pn_return_to :: string
  pn_link_admin :: int
  pn_invite :: string
  pn_at :: int

type_synonym states = "string \<Rightarrow> pending option"

datatype oidc_error = ErrDisabled | ErrUnknownState | ErrProvider

definition pendingTTL :: int where "pendingTTL = 10 * 60 * 1000"

definition oidcEnabled :: "provider \<Rightarrow> bool" where
  "oidcEnabled P \<longleftrightarrow> trim_space (pv_issuer P) \<noteq> [] \<and> trim_space (pv_client_id P) \<noteq> []"

definition sweepLocked :: "int \<Rightarrow> states \<Rightarrow> states" where
  "sweepLocked t m = (\<lambda>k. case m k of None \<Rightarrow> None | Some p \<Rightarrow> if pn_at p < t - pendingTTL then None else Some p)"

text \<open>The two random strings are drawn after the provider was found.\<close>

definition startLogin ::
  "provider \<Rightarrow> string option \<Rightarrow> string option \<Rightarrow> int \<Rightarrow> string \<Rightarrow> int \<Rightarrow> string \<Rightarrow> states \<Rightarrow> string option \<times> states" where
  "startLogin P stateDraw verifierDraw t returnTo linkAdmin invite m =
     (if \<not> oidcEnabled P \<or> \<not> pv_discover P then (None, m)
      else (case (stateDraw, verifierDraw) of
        (Some state, Some verifier) \<Rightarrow>
          (Some (pv_auth_url P state verifier),
           (sweepLocked t m)(state \<mapsto> \<lparr>pn_verifier = verifier, pn_return_to = returnTo, pn_link_admin = linkAdmin,
             pn_invite = invite, pn_at = t\<rparr>))
      | _ \<Rightarrow> (None, m)))"

definition first_non_empty :: "string list \<Rightarrow> string" where
  "first_non_empty vs = (case find (\<lambda>v. trim_space v \<noteq> []) vs of None \<Rightarrow> [] | Some v \<Rightarrow> v)"

definition identityFrom :: "string \<Rightarrow> string \<Rightarrow> string \<Rightarrow> identity option" where
  "identityFrom subject username name =
     (let subject' = trim_space subject; u = trim_space username;
          cut = length (takeWhile (\<lambda>c. c \<noteq> CHR ''@'') u);
          u' = (if 0 < cut \<and> cut < length u then take cut u else u) in
      if subject' = [] then None
      else Some \<lparr>id_subject = subject', id_username = to_lower (trim_prefix u' ''@''), id_display_name = trim_space name\<rparr>)"

definition fill_claims :: "provider \<Rightarrow> string \<Rightarrow> claims \<Rightarrow> claims" where
  "fill_claims P code c =
     (if trim_space (cl_preferred c) \<noteq> [] then c
      else (case pv_userinfo P code of
        None \<Rightarrow> c
      | Some (preferred, username, name) \<Rightarrow>
          c\<lparr>cl_preferred := (if cl_preferred c = [] then first_non_empty [preferred, username] else cl_preferred c),
            cl_name := (if cl_name c = [] then name else cl_name c)\<rparr>))"

definition completeLogin ::
  "provider \<Rightarrow> int \<Rightarrow> string \<Rightarrow> string \<Rightarrow> states \<Rightarrow> (oidc_error + (identity \<times> string \<times> int \<times> string)) \<times> states" where
  "completeLogin P t state code m =
     (if \<not> oidcEnabled P then (Inl ErrDisabled, m)
      else if \<not> pv_discover P then (Inl ErrProvider, m)
      else (let m' = (sweepLocked t m)(state := None) in
        (case sweepLocked t m state of
          None \<Rightarrow> Inl ErrUnknownState
        | Some got \<Rightarrow> (case pv_exchange P code (pn_verifier got) of
            None \<Rightarrow> Inl ErrProvider
          | Some c \<Rightarrow> (let c' = fill_claims P code c in
              case identityFrom (cl_subject c') (cl_preferred c') (cl_name c') of
                None \<Rightarrow> Inl ErrProvider
              | Some who \<Rightarrow> Inr (who, pn_return_to got, pn_link_admin got, pn_invite got))), m')))"

subsection \<open>Logins that wait for the second factor\<close>

record halfway =
  hw_auth_request :: string
  hw_session :: ticket_session
  hw_at :: int

type_synonym halfway_desk = "string \<Rightarrow> halfway option"

definition halfwayTTL :: int where "halfwayTTL = 5 * 60 * 1000"

definition halfwayPut :: "string option \<Rightarrow> int \<Rightarrow> string \<Rightarrow> ticket_session \<Rightarrow> halfway_desk \<Rightarrow> string option \<times> halfway_desk" where
  "halfwayPut draw t request sess d = (case draw of
     None \<Rightarrow> (None, d)
   | Some ticket \<Rightarrow> (Some ticket,
       (\<lambda>k. case d k of None \<Rightarrow> None | Some r \<Rightarrow> if hw_at r < t - halfwayTTL then None else Some r)
         (ticket \<mapsto> \<lparr>hw_auth_request = request, hw_session = sess, hw_at = t\<rparr>)))"

definition halfwayTake :: "int \<Rightarrow> string \<Rightarrow> halfway_desk \<Rightarrow> halfway option \<times> halfway_desk" where
  "halfwayTake t ticket d =
     ((case d ticket of None \<Rightarrow> None | Some r \<Rightarrow> if t - hw_at r > halfwayTTL then None else Some r), d(ticket := None))"

subsection \<open>The portal\<close>

record portal =
  po_server :: server
  po_states :: states
  po_halfway :: halfway_desk

type_synonym 'a portal_act = "portal \<Rightarrow> 'a \<times> portal"

definition retPo :: "'a \<Rightarrow> 'a portal_act" where "retPo x p = (x, p)"

definition bindPo :: "'a portal_act \<Rightarrow> ('a \<Rightarrow> 'b portal_act) \<Rightarrow> 'b portal_act" where
  "bindPo m k p = (case m p of (x, p') \<Rightarrow> k x p')"

definition inS :: "'a srv \<Rightarrow> 'a portal_act" where
  "inS m p = (case m (po_server p) of (x, sv') \<Rightarrow> (x, p\<lparr>po_server := sv'\<rparr>))"

definition inStates :: "(states \<Rightarrow> 'a \<times> states) \<Rightarrow> 'a portal_act" where
  "inStates m p = (case m (po_states p) of (x, d) \<Rightarrow> (x, p\<lparr>po_states := d\<rparr>))"

definition inHalfway :: "(halfway_desk \<Rightarrow> 'a \<times> halfway_desk) \<Rightarrow> 'a portal_act" where
  "inHalfway m p = (case m (po_halfway p) of (x, d) \<Rightarrow> (x, p\<lparr>po_halfway := d\<rparr>))"

datatype portal_answer =
    Answer nat
  | GoTo string
  | Enters cookie string
  | NeedsFactor string
  | Unlinked
  | NameIsTaken
  | AccountName string
  | TokenFor reply
  | Finished
  | Granted bool
  | Mode string

definition safeReturnTo :: "string \<Rightarrow> string" where
  "safeReturnTo candidate = (let c = trim_space candidate in
     if c = [] \<or> \<not> has_prefix c ''/'' \<or> has_prefix c ''//'' then [] else c)"

definition redirectTarget :: "string \<Rightarrow> string \<Rightarrow> string" where
  "redirectTarget returnTo fallback = (if safeReturnTo returnTo \<noteq> [] then safeReturnTo returnTo else fallback)"

definition oidcFail :: "string \<Rightarrow> portal_answer portal_act" where
  "oidcFail reason = retPo (GoTo (''/login?account_error='' @ reason))"

definition audit_account :: "int \<Rightarrow> string \<Rightarrow> string \<Rightarrow> string \<Rightarrow> string \<Rightarrow> string \<Rightarrow> unit portal_act" where
  "audit_account actor name action target message ip = inS (note_audit (audit_of actor name action target message ip))"

definition link_admin_of :: "string option \<Rightarrow> int portal_act" where
  "link_admin_of cookie = bindPo (inS (onAuth (Authenticate cookie))) (\<lambda>r. retPo (case r of Inl _ \<Rightarrow> 0 | Inr a \<Rightarrow> a_id a))"

definition handleOIDCStart ::
  "provider \<Rightarrow> string option \<Rightarrow> string option \<Rightarrow> string option \<Rightarrow> string \<Rightarrow> string \<Rightarrow> portal_answer portal_act" where
  "handleOIDCStart P stateDraw verifierDraw cookie returnTo invite =
     (if \<not> oidcEnabled P then retPo (Answer 404)
      else bindPo (link_admin_of cookie) (\<lambda>linkAdmin.
        bindPo (inS now) (\<lambda>t.
        bindPo (inStates (startLogin P stateDraw verifierDraw t (safeReturnTo returnTo) linkAdmin (trim_space invite))) (\<lambda>url.
        retPo (case url of None \<Rightarrow> Answer 502 | Some target \<Rightarrow> GoTo target)))))"

definition callback_failure :: "auth_error \<Rightarrow> string" where
  "callback_failure e = (case e of
     SuspendedError _ \<Rightarrow> ''suspended''
   | ErrRegistrationClosed \<Rightarrow> ''registration_closed''
   | ErrRegistrationInvite \<Rightarrow> ''invite_required''
   | ErrUsernameTaken \<Rightarrow> ''username_taken''
   | _ \<Rightarrow> ''login_failed'')"

definition attach_account :: "identity \<Rightarrow> string \<Rightarrow> int \<Rightarrow> portal_answer portal_act" where
  "attach_account who returnTo linkAdmin =
     bindPo (inS (onDb (LinkAccount linkAdmin (id_subject who) (id_display_name who)))) (\<lambda>r. case r of
       Inl e \<Rightarrow> oidcFail (if e = ErrAccountTaken then ''already_linked'' else ''link_failed'')
     | Inr _ \<Rightarrow> bindPo (audit_account linkAdmin [] ''admin.account_linked'' ''admin'' (id_display_name who) []) (\<lambda>_.
         retPo (GoTo (redirectTarget returnTo ''/admin/account''))))"

definition enter_by_account :: "env \<Rightarrow> string option \<Rightarrow> string option \<Rightarrow> identity \<Rightarrow> string \<Rightarrow> string \<Rightarrow> portal_answer portal_act" where
  "enter_by_account E pw token who returnTo invite =
     bindPo (inS (onAuth (LoginWithAccount (en_crypto E) pw token (id_subject who) (id_username who) (id_display_name who) invite))) (\<lambda>r.
     case r of
       Inl e \<Rightarrow> oidcFail (callback_failure e)
     | Inr (a, sess) \<Rightarrow>
         bindPo (audit_account (a_id a) (a_username a) ''admin.account_login'' [] (id_display_name who) []) (\<lambda>_.
         retPo (Enters (WriteSessionCookie (en_secure E) sess) (redirectTarget returnTo ''/admin/clients''))))"

text \<open>The callback reads the query of the request and nothing else of it; \<open>err\<close> is the parameter \<^verbatim>\<open>error\<close>, which
  \<^verbatim>\<open>url.QueryEscape\<close> is left to escape.\<close>

definition handleOIDCCallback ::
  "provider \<Rightarrow> env \<Rightarrow> string option \<Rightarrow> string option \<Rightarrow> string \<Rightarrow> string \<Rightarrow> string \<Rightarrow> portal_answer portal_act" where
  "handleOIDCCallback P E pw token err state code =
     (if \<not> oidcEnabled P then retPo (Answer 404)
      else if err \<noteq> [] then oidcFail err
      else bindPo (inS now) (\<lambda>t.
        bindPo (inStates (completeLogin P t state code)) (\<lambda>r. case r of
          Inl e \<Rightarrow> oidcFail (if e = ErrUnknownState then ''expired'' else ''exchange_failed'')
        | Inr (who, returnTo, linkAdmin, invite) \<Rightarrow>
            if linkAdmin \<noteq> 0 then attach_account who returnTo linkAdmin
            else enter_by_account E pw token who returnTo invite)))"

definition handleOIDCLink :: "request \<Rightarrow> admin \<Rightarrow> portal_answer portal_act" where
  "handleOIDCLink rq admin =
     (if rq_method rq = ''GET'' then bindPo (inS (onDb (AccountNameFor (a_id admin)))) (\<lambda>r.
        retPo (case r of Inl _ \<Rightarrow> Answer 500 | Inr name \<Rightarrow> AccountName name))
      else if rq_method rq = ''DELETE'' then bindPo (inS (onDb (UnlinkAccount (a_id admin)))) (\<lambda>r. case r of
          Inl _ \<Rightarrow> retPo (Answer 500)
        | Inr _ \<Rightarrow> bindPo (audit_account (a_id admin) (a_username admin) ''admin.account_unlinked'' ''admin'' [] []) (\<lambda>_. retPo Finished))
      else retPo (Answer 405))"

subsection \<open>The panel's own form\<close>

record account_login =
  al_login :: string
  al_password :: string
  al_return_to :: string
  al_invite :: string

definition answerP :: "nat \<Rightarrow> 'a option portal_act \<Rightarrow> ('a \<Rightarrow> portal_answer portal_act) \<Rightarrow> portal_answer portal_act" where
  "answerP code m k = bindPo m (\<lambda>r. case r of None \<Rightarrow> retPo (Answer code) | Some x \<Rightarrow> k x)"

definition handleAccountLogin ::
  "provider \<Rightarrow> string option \<Rightarrow> string option \<Rightarrow> string option \<Rightarrow> string option \<Rightarrow> request \<Rightarrow> account_login option \<Rightarrow> portal_answer portal_act" where
  "handleAccountLogin P stateDraw verifierDraw ticketDraw cookie rq body =
     (if rq_method rq \<noteq> ''POST'' then retPo (Answer 405)
      else if \<not> pv_session_on P \<or> \<not> oidcEnabled P then retPo (Answer 404)
      else answerP 400 (retPo body) (\<lambda>req.
        let login = trim_space (al_login req) in
        if login = [] \<or> al_password req = [] then retPo (Answer 400)
        else bindPo (link_admin_of cookie) (\<lambda>linkAdmin.
          bindPo (inS now) (\<lambda>t.
          answerP 502 (inStates (startLogin P stateDraw verifierDraw t (safeReturnTo (al_return_to req)) linkAdmin (trim_space (al_invite req)))) (\<lambda>url.
          answerP 502 (retPo (pv_begin P url)) (\<lambda>request.
          case pv_password P login (al_password req) of
            Inl e \<Rightarrow> retPo (Answer (if e = BadPassword then 401 else 502))
          | Inr sess \<Rightarrow> (case pv_finish P request sess of
              Some callback \<Rightarrow> retPo (GoTo callback)
            | None \<Rightarrow> answerP 500 (inHalfway (halfwayPut ticketDraw t request sess)) (\<lambda>ticket. retPo (NeedsFactor ticket)))))))))"

definition handleAccountFactor :: "provider \<Rightarrow> request \<Rightarrow> (string \<times> string) option \<Rightarrow> portal_answer portal_act" where
  "handleAccountFactor P rq body =
     (if rq_method rq \<noteq> ''POST'' then retPo (Answer 405)
      else if \<not> pv_session_on P then retPo (Answer 404)
      else answerP 400 (retPo body) (\<lambda>(ticket, code).
        bindPo (inS now) (\<lambda>t.
        answerP 401 (inHalfway (halfwayTake t (trim_space ticket))) (\<lambda>row.
        answerP 401 (retPo (pv_factor P (hw_session row) (trim_space code))) (\<lambda>sess.
        answerP 502 (retPo (pv_finish P (hw_auth_request row) sess)) (\<lambda>callback. retPo (GoTo callback)))))))"

subsection \<open>The application's door\<close>

record app_account =
  aa_login :: string
  aa_password :: string
  aa_code :: string
  aa_ticket :: string
  aa_device_name :: string

definition finishAppAccountLogin ::
  "provider \<Rightarrow> env \<Rightarrow> string option \<Rightarrow> string option \<Rightarrow> string option \<Rightarrow> request \<Rightarrow> app_account \<Rightarrow> ticket_session \<Rightarrow> portal_answer portal_act" where
  "finishAppAccountLogin P E i token ticketDraw rq req sess =
     bindPo (inS now) (\<lambda>t. case pv_owner P sess of
       None \<Rightarrow> answerP 500 (inHalfway (halfwayPut ticketDraw t [] sess)) (\<lambda>ticket. retPo (NeedsFactor ticket))
     | Some subject \<Rightarrow>
         bindPo (inS (onDb (FindAdminByAccount subject))) (\<lambda>r. case r of
           Inl e \<Rightarrow> retPo (if e = ErrNotFound then Unlinked else Answer 500)
         | Inr admin \<Rightarrow> bindPo (inS (issueAppSession E i token rq admin (aa_device_name req))) (\<lambda>rep. retPo (TokenFor rep))))"

definition account_keys :: "request \<Rightarrow> string \<Rightarrow> string list" where
  "account_keys rq login = [''login-ip:'' @ rq_ip rq, ''login-account:'' @ to_lower login]"

definition handleAppAccountLogin ::
  "provider \<Rightarrow> env \<Rightarrow> string option \<Rightarrow> string option \<Rightarrow> string option \<Rightarrow> request \<Rightarrow> app_account option \<Rightarrow> portal_answer portal_act" where
  "handleAppAccountLogin P E i token ticketDraw rq body =
     (if rq_method rq \<noteq> ''POST'' then retPo (Answer 405)
      else if \<not> pv_session_on P then retPo (Answer 404)
      else answerP 400 (retPo body) (\<lambda>req.
        if trim_space (aa_ticket req) \<noteq> [] then
          bindPo (inS now) (\<lambda>t.
          answerP 401 (inHalfway (halfwayTake t (trim_space (aa_ticket req)))) (\<lambda>row.
          answerP 401 (retPo (pv_factor P (hw_session row) (trim_space (aa_code req)))) (\<lambda>sess.
          finishAppAccountLogin P E i token ticketDraw rq req sess)))
        else let login = trim_space (aa_login req) in
          if login = [] \<or> aa_password req = [] then retPo (Answer 400)
          else bindPo (inS (limited (account_keys rq login))) (\<lambda>ok.
            if \<not> ok then retPo (Answer 429)
            else (case pv_password P login (aa_password req) of
              Inl e \<Rightarrow> retPo (Answer (if e = BadPassword then 401 else 502))
            | Inr sess \<Rightarrow> finishAppAccountLogin P E i token ticketDraw rq req sess))))"

subsection \<open>Moving to an account, passwords and the panel\<close>

definition accountDomain :: "provider \<Rightarrow> string" where
  "accountDomain P = (let issuer = trim_prefix (trim_prefix (trim_space (pv_issuer P)) ''https://'') ''http://'';
     issuer = (if issuer \<noteq> [] \<and> last issuer = CHR ''/'' then butlast issuer else issuer);
     host = fst (cut_slash issuer) in
     if host = [] then ''wings.local'' else host)"

definition humanFor :: "admin \<Rightarrow> string \<Rightarrow> string \<Rightarrow> human" where
  "humanFor admin domain password = \<lparr>hu_username = a_username admin, hu_email = a_username admin @ ''@'' @ domain,
     hu_first_name = a_username admin, hu_last_name = ''WINGS'', hu_password = password\<rparr>"

definition handleAccountEnroll :: "provider \<Rightarrow> request \<Rightarrow> string option \<Rightarrow> admin \<Rightarrow> portal_answer portal_act" where
  "handleAccountEnroll P rq body admin =
     (if rq_method rq \<noteq> ''POST'' then retPo (Answer 405)
      else if \<not> pv_session_on P then retPo (Answer 404)
      else bindPo (inS (onDb (HasAccount (a_id admin)))) (\<lambda>r. case r of
        Inl _ \<Rightarrow> retPo (Answer 500)
      | Inr linked \<Rightarrow>
          if linked then retPo (Answer 409)
          else answerP 400 (retPo body) (\<lambda>password.
            if length password < 8 then retPo (Answer 400)
            else (case pv_create P (humanFor admin (accountDomain P) password) of
              Inl e \<Rightarrow> retPo (if e = NameTaken then NameIsTaken else Answer 502)
            | Inr subject \<Rightarrow>
                bindPo (inS (onDb (LinkAccount (a_id admin) subject (a_username admin)))) (\<lambda>r2. case r2 of
                  Inl _ \<Rightarrow> retPo (Answer 500)
                | Inr _ \<Rightarrow> bindPo (audit_account (a_id admin) (a_username admin) ''admin.account_enrolled'' ''admin'' [] []) (\<lambda>_.
                    retPo (AccountName (a_username admin))))))))"

definition accountOf :: "provider \<Rightarrow> admin \<Rightarrow> string option portal_act" where
  "accountOf P admin = (if \<not> pv_session_on P then retPo None
     else bindPo (inS (onDb (AccountSubjectOf (a_id admin)))) (\<lambda>r. retPo (case r of
       Inl _ \<Rightarrow> None | Inr subject \<Rightarrow> if trim_space subject = [] then None else Some subject)))"

definition password_changed :: "request \<Rightarrow> admin \<Rightarrow> portal_answer portal_act" where
  "password_changed rq admin =
     bindPo (audit_account (a_id admin) (a_username admin) ''auth.password_changed'' [] [] (rq_ip rq)) (\<lambda>_. retPo Finished)"

definition changeAccountPassword :: "provider \<Rightarrow> request \<Rightarrow> admin \<Rightarrow> string \<Rightarrow> string \<times> string \<Rightarrow> portal_answer portal_act" where
  "changeAccountPassword P rq admin subject req =
     bindPo (inS (onDb (AccountNameFor (a_id admin)))) (\<lambda>r.
     let name = (case r of Inl _ \<Rightarrow> a_username admin | Inr n \<Rightarrow> if trim_space n = [] then a_username admin else n) in
     case pv_password P name (fst req) of
       Inl _ \<Rightarrow> retPo (Answer 401)
     | Inr _ \<Rightarrow> if \<not> pv_set_password P subject (snd req) then retPo (Answer 502) else password_changed rq admin)"

text \<open>The old and the new password\<close>

definition handleChangePassword :: "provider \<Rightarrow> env \<Rightarrow> request \<Rightarrow> (string \<times> string) option \<Rightarrow> admin \<Rightarrow> portal_answer portal_act" where
  "handleChangePassword P E rq body admin =
     (if rq_method rq \<noteq> ''POST'' then retPo (Answer 405)
      else answerP 400 (retPo body) (\<lambda>req.
        if length (trim_space (snd req)) < 4 then retPo (Answer 400)
        else bindPo (accountOf P admin) (\<lambda>managed. case managed of
          Some subject \<Rightarrow> changeAccountPassword P rq admin subject req
        | None \<Rightarrow>
            bindPo (inS (onAuth (ChangePassword (en_crypto E) (a_id admin) (fst req) (snd req)))) (\<lambda>r. case r of
              Inl e \<Rightarrow> retPo (Answer (if e = ErrInvalidCredentials then 401 else if e = ErrPasswordTooShort then 400 else 500))
            | Inr _ \<Rightarrow> password_changed rq admin))))"

definition handlePanelAccess :: "request \<Rightarrow> admin \<Rightarrow> portal_answer portal_act" where
  "handlePanelAccess rq admin =
     (if rq_method rq \<noteq> ''POST'' then retPo (Answer 405)
      else if a_panel_access admin \<or> a_role admin = RoleOwner then retPo (Answer 400)
      else bindPo (inS (onDb (GetPlatformSetting SettingPanelByRequest ''false''))) (\<lambda>r. case r of
        Inl _ \<Rightarrow> retPo (Answer 500)
      | Inr moderated \<Rightarrow>
          if moderated = ''true'' then bindPo (inS (onDb (RequestPanelAccess (a_id admin)))) (\<lambda>r2. case r2 of
              Inl _ \<Rightarrow> retPo (Answer 500)
            | Inr _ \<Rightarrow> bindPo (audit_account (a_id admin) (a_username admin) ''admin.panel_requested'' [] [] (rq_ip rq)) (\<lambda>_.
                retPo (Granted False)))
          else bindPo (inS (onDb (SetPanelAccess (a_id admin) True))) (\<lambda>r2. case r2 of
              Inl _ \<Rightarrow> retPo (Answer 500)
            | Inr _ \<Rightarrow> bindPo (inS (onDb (ClearPanelRequest (a_id admin)))) (\<lambda>_.
                bindPo (audit_account (a_id admin) (a_username admin) ''admin.panel_self_granted'' [] [] (rq_ip rq)) (\<lambda>_.
                retPo (Granted True))))))"

definition mayUseFederation :: "federation \<Rightarrow> admin \<Rightarrow> bool srv" where
  "mayUseFederation F admin =
     (if a_role admin = RoleOwner then retS True
      else bindS (onDb (RedeemedInvite (a_id admin))) (\<lambda>r.
        if r = Inr True then retS True
        else bindS (onDb (GetPlatformSetting SettingFederationOpenEntry ''false'')) (\<lambda>r2.
          if r2 = Inr ''true'' then retS True
          else bindS (federationOn F) (\<lambda>on.
            if \<not> on then retS False
            else retS (case fe_summary F (donorID admin) of None \<Rightarrow> False | Some s \<Rightarrow> ds_nodes s > 0)))))"

subsection \<open>Registering and leaving\<close>

definition accountEnrollAttempts :: nat where "accountEnrollAttempts = 2"

text \<open>The service may answer the second call otherwise than the first: \<open>tries\<close> holds its answers in turn.\<close>

definition createAccountWithRetry :: "(human \<Rightarrow> create_error + string) list \<Rightarrow> human \<Rightarrow> string option" where
  "createAccountWithRetry tries who = (case find (\<lambda>r. \<not> isl r) (map (\<lambda>f. f who) (take accountEnrollAttempts tries)) of
     None \<Rightarrow> None | Some r \<Rightarrow> Some (projr r))"

definition enrollAccount :: "provider \<Rightarrow> (human \<Rightarrow> create_error + string) list \<Rightarrow> admin \<Rightarrow> string \<Rightarrow> unit portal_act" where
  "enrollAccount P tries admin password =
     (if \<not> pv_session_on P \<or> password = [] then retPo ()
      else (case createAccountWithRetry tries (humanFor admin (accountDomain P) password) of
        None \<Rightarrow> retPo ()
      | Some subject \<Rightarrow> bindPo (inS (onDb (LinkAccount (a_id admin) subject (a_username admin)))) (\<lambda>_. retPo ())))"

definition register_status :: "auth_error \<Rightarrow> nat" where
  "register_status e = (case e of
     ErrUsernameTooShort \<Rightarrow> 400 | ErrUsernameInvalid \<Rightarrow> 400 | ErrPasswordTooShort \<Rightarrow> 400 | ErrUsernameTaken \<Rightarrow> 409
   | ErrRegistrationClosed \<Rightarrow> 403 | ErrRegistrationInvite \<Rightarrow> 400 | ErrInviteTokenInvalid \<Rightarrow> 403 | _ \<Rightarrow> 500)"

definition handleRegister ::
  "provider \<Rightarrow> env \<Rightarrow> (human \<Rightarrow> create_error + string) list \<Rightarrow> string option \<Rightarrow> request \<Rightarrow> (string \<times> string \<times> string) option \<Rightarrow> portal_answer portal_act" where
  "handleRegister P E tries token rq body =
     (if rq_method rq \<noteq> ''POST'' then retPo (Answer 405)
      else answerP 400 (retPo body) (\<lambda>(username, password, invite).
        bindPo (inS (onAuth (Register (en_crypto E) token username password invite))) (\<lambda>r. case r of
          Inl e \<Rightarrow> retPo (Answer (register_status e))
        | Inr (admin, sess) \<Rightarrow>
            bindPo (enrollAccount P tries admin password) (\<lambda>_.
            bindPo (audit_account (a_id admin) (a_username admin) ''auth.register'' [] [] (rq_ip rq)) (\<lambda>_.
            retPo (Enters (WriteSessionCookie (en_secure E) sess) []))))))"

definition handleRegistrationStatus :: "request \<Rightarrow> portal_answer portal_act" where
  "handleRegistrationStatus rq =
     (if rq_method rq \<noteq> ''GET'' then retPo (Answer 405)
      else bindPo (inS (onDb (GetPlatformSetting SettingRegistrationMode RegistrationModeOpen))) (\<lambda>r.
        retPo (case r of Inl _ \<Rightarrow> Answer 500 | Inr mode \<Rightarrow> Mode mode)))"

definition handleLogout :: "env \<Rightarrow> request \<Rightarrow> string option \<Rightarrow> portal_answer portal_act" where
  "handleLogout E rq cookie =
     (if rq_method rq \<noteq> ''POST'' then retPo (Answer 405)
      else bindPo (inS (onAuth (case cookie of None \<Rightarrow> retA () | Some v \<Rightarrow> Logout v))) (\<lambda>_.
        bindPo (inS (onAuth (Authenticate cookie))) (\<lambda>r.
        bindPo (case r of Inl _ \<Rightarrow> retPo ()
               | Inr a \<Rightarrow> audit_account (a_id a) (a_username a) ''auth.logout'' [] [] (rq_ip rq)) (\<lambda>_.
        retPo (Enters (ClearSessionCookie (en_secure E)) [])))))"

subsection \<open>The gates\<close>

datatype 'r gated = Barred nat | MoveFirst | Through 'r

definition requireAuth :: "string option \<Rightarrow> (admin \<Rightarrow> 'r gated portal_act) \<Rightarrow> 'r gated portal_act" where
  "requireAuth cookie k = bindPo (inS (onAuth (Authenticate cookie))) (\<lambda>r. case r of
     Inl _ \<Rightarrow> retPo (Barred 401) | Inr a \<Rightarrow> k a)"

definition mustLinkAccount :: "provider \<Rightarrow> admin \<Rightarrow> bool portal_act" where
  "mustLinkAccount P admin =
     (if \<not> oidcEnabled P then retPo False
      else bindPo (inS (onDb (HasAccount (a_id admin)))) (\<lambda>r. retPo (case r of Inl _ \<Rightarrow> False | Inr linked \<Rightarrow> \<not> linked)))"

definition requireAccount :: "provider \<Rightarrow> string option \<Rightarrow> (admin \<Rightarrow> 'r gated portal_act) \<Rightarrow> 'r gated portal_act" where
  "requireAccount P cookie k = requireAuth cookie (\<lambda>a. bindPo (mustLinkAccount P a) (\<lambda>must. if must then retPo MoveFirst else k a))"

definition requirePanel :: "provider \<Rightarrow> string option \<Rightarrow> (admin \<Rightarrow> 'r gated portal_act) \<Rightarrow> 'r gated portal_act" where
  "requirePanel P cookie k = requireAccount P cookie (\<lambda>a.
     if \<not> a_panel_access a \<and> a_role a \<noteq> RoleOwner then retPo (Barred 403) else k a)"

definition cryptoOn :: "bool portal_act" where
  "cryptoOn = bindPo (inS (onDb (GetPlatformSetting SettingCryptoEnabled ''false''))) (\<lambda>r.
     retPo (case r of Inl _ \<Rightarrow> False | Inr v \<Rightarrow> v = ''true''))"

definition requireCrypto :: "(admin \<Rightarrow> 'r gated portal_act) \<Rightarrow> admin \<Rightarrow> 'r gated portal_act" where
  "requireCrypto k a = bindPo cryptoOn (\<lambda>on. if \<not> on then retPo (Barred 403) else k a)"

subsection \<open>The routes\<close>

text \<open>\<^verbatim>\<open>Register\<close> of \<^verbatim>\<open>admin.go\<close>: which gate stands before each pattern. The multiplexer of \<^verbatim>\<open>net/http\<close> takes the longest
  pattern that matches; a pattern that ends in a slash matches every path below it.\<close>

datatype gate = GOpen | GSession | GApp | GPanel | GSessionCrypto | GPanelCrypto

definition admin_routes :: "(string \<times> gate) list" where
  "admin_routes = [
     (''/api/admin/login'', GOpen), (''/api/admin/logout'', GOpen), (''/api/admin/register'', GOpen),
     (''/api/admin/registration/status'', GOpen), (''/api/invite'', GOpen), (''/api/admin/me'', GSession),
     (''/api/admin/password'', GSession), (''/api/admin/clients'', GPanel), (''/api/admin/clients/'', GPanel),
     (''/api/admin/link/decode'', GPanel), (''/api/admin/stats/traffic'', GPanel), (''/api/admin/stats/flows'', GPanel),
     (''/api/admin/stats/flowhistory'', GPanel), (''/api/admin/stats/xrayflows'', GPanel),
     (''/api/admin/stats/connections'', GPanel), (''/api/admin/nodes'', GPanel), (''/api/admin/nodes/'', GPanel),
     (''/api/admin/wgpeers'', GPanel), (''/api/admin/wgpeers/'', GPanel), (''/api/admin/vk-links'', GPanel),
     (''/api/admin/avatars/'', GOpen), (''/api/admin/me/avatar'', GSession), (''/api/admin/me/access'', GSession),
     (''/api/admin/me/panel-access'', GSession), (''/api/admin/me/totp'', GSession), (''/api/admin/me/security'', GSession),
     (''/api/admin/me/totp/qr'', GSession), (''/app/link'', GOpen), (''/api/app/consent'', GSession),
     (''/api/app/client'', GOpen), (''/api/app/login'', GOpen), (''/api/app/session'', GOpen), (''/api/app/me'', GApp),
     (''/api/app/access'', GApp), (''/api/app/password'', GApp), (''/api/app/avatar'', GApp), (''/api/app/invites'', GApp),
     (''/api/app/federation/summary'', GApp), (''/api/app/federation/key'', GApp), (''/api/app/federation/receipts'', GApp),
     (''/api/app/federation/enroll'', GApp), (''/api/app/federation/nodes/'', GApp), (''/api/app/invites/redeem'', GApp),
     (''/api/app/logout'', GApp), (''/api/oidc/status'', GOpen), (''/api/oidc/start'', GOpen), (''/api/oidc/callback'', GOpen),
     (''/api/oidc/link'', GSession), (''/api/account/login'', GOpen), (''/api/account/factor'', GOpen),
     (''/api/account/enroll'', GSession), (''/api/qr/start'', GOpen), (''/api/qr/status'', GOpen),
     (''/api/qr/pending'', GSession), (''/api/qr/approve'', GSession), (''/api/app/account/login'', GOpen),
     (''/api/app/qr/pending'', GApp), (''/api/app/qr/approve'', GApp), (''/api/admin/invites'', GSession),
     (''/api/admin/invites/redeem'', GSession), (''/api/admin/invites/'', GSession), (''/api/admin/fleet'', GPanel),
     (''/api/admin/fleet/nodes'', GPanel), (''/api/admin/fleet/releases'', GPanel), (''/api/admin/fleet/restart'', GPanel),
     (''/api/admin/federation/summary'', GPanel), (''/api/admin/federation/enroll-token'', GPanel),
     (''/api/admin/federation/live'', GPanel), (''/api/admin/donations'', GSession),
     (''/api/admin/donations/claim'', GSessionCrypto), (''/api/admin/federation/payouts'', GPanelCrypto),
     (''/api/admin/federation/payouts/address'', GPanelCrypto), (''/api/admin/federation/payouts/stake/release'', GPanelCrypto),
     (''/api/admin/federation/nodes/'', GPanel), (''/api/admin/master/config'', GPanel),
     (''/api/admin/master/config/apply'', GPanel), (''/api/admin/master/config/seed'', GPanel)]"

definition matches :: "string \<Rightarrow> string \<Rightarrow> bool" where
  "matches path pat \<longleftrightarrow> path = pat \<or> pat \<noteq> [] \<and> last pat = CHR ''/'' \<and> has_prefix path pat"

definition route_of :: "string \<Rightarrow> (string \<times> gate) option" where
  "route_of path = (let found = filter (\<lambda>(pat, _). matches path pat) admin_routes in
     case rev (sort_key (\<lambda>(pat, _). length pat) found) of [] \<Rightarrow> None | r # _ \<Rightarrow> Some r)"

subsection \<open>Lemmas\<close>

lemma portal_app [simp]: "retPo x p = (x, p)" "bindPo m k p = k (fst (m p)) (snd (m p))"
    "inS n p = (fst (n (po_server p)), p\<lparr>po_server := snd (n (po_server p))\<rparr>)"
    "inStates g p = (fst (g (po_states p)), p\<lparr>po_states := snd (g (po_states p))\<rparr>)"
    "inHalfway h p = (fst (h (po_halfway p)), p\<lparr>po_halfway := snd (h (po_halfway p))\<rparr>)"
  by (simp_all add: retPo_def bindPo_def inS_def inStates_def inHalfway_def split: prod.split)

lemma answerP_app: "answerP c m k p = (case fst (m p) of None \<Rightarrow> (Answer c, snd (m p)) | Some x \<Rightarrow> k x (snd (m p)))"
  by (simp add: answerP_def split: option.split)

definition keepsP :: "(store \<Rightarrow> bool) \<Rightarrow> 'a portal_act \<Rightarrow> bool" where
  "keepsP I m \<longleftrightarrow> (\<forall>p. I (sv_store (po_server p)) \<longrightarrow> I (sv_store (po_server (snd (m p)))))"

lemma keepsP_intros:
  "keepsP I (retPo x)" "keepsP I (inStates g)" "keepsP I (inHalfway h)" "keepsS I n \<Longrightarrow> keepsP I (inS n)"
  "keepsP I m \<Longrightarrow> (\<And>x. keepsP I (k x)) \<Longrightarrow> keepsP I (bindPo m k)" "keepsP I m' \<Longrightarrow> (\<And>x. keepsP I (k' x)) \<Longrightarrow> keepsP I (answerP c m' k')"
  "keepsP I a \<Longrightarrow> keepsP I b \<Longrightarrow> keepsP I (if t then a else b)"
  "keepsP I a \<Longrightarrow> (\<And>y. keepsP I (f y)) \<Longrightarrow> keepsP I (case opt of None \<Rightarrow> a | Some y \<Rightarrow> f y)"
  "(\<And>e. keepsP I (l e)) \<Longrightarrow> (\<And>z. keepsP I (r z)) \<Longrightarrow> keepsP I (case s of Inl e \<Rightarrow> l e | Inr z \<Rightarrow> r z)"
  by (auto simp: keepsP_def keepsS_def answerP_app split: option.splits sum.splits)

lemma Authenticate_still: "faults s = [] \<Longrightarrow> snd (Authenticate ck s) = s"
  by (cases ck) (auto simp: Authenticate_def bindA_app tryA_def LookupSession_def FindAdminByID_def bindE_def find_row_ok refuse_suspended_ok
      split: option.splits sum.splits if_splits)

lemma HasAccount_ok: "faults s = [] \<Longrightarrow> HasAccount i s =
    (case admin_by_id i s of None \<Rightarrow> Inl ErrRecordNotFound
     | Some m \<Rightarrow> Inr (case adm_account_subject m of None \<Rightarrow> False | Some sub \<Rightarrow> trim_space sub \<noteq> []), s)"
  by (simp add: HasAccount_def bindE_def query_first_ok split: option.split)

lemma audit_keeps:
  assumes "faults s = []"
  shows "admins (snd (AppendAudit e s)) = admins s" "sessions (snd (AppendAudit e s)) = sessions s" "settings (snd (AppendAudit e s)) = settings s"
    "faults (snd (AppendAudit e s)) = []" "clock (snd (AppendAudit e s)) = clock s"
proof -
  obtain au n where "snd (AppendAudit e s) = s\<lparr>audits := au, audits_seq := n\<rparr>"
    using AppendAudit_frame [OF assms, of e] unfolding only_audits_def by blast
  then show "admins (snd (AppendAudit e s)) = admins s" "sessions (snd (AppendAudit e s)) = sessions s" "settings (snd (AppendAudit e s)) = settings s"
    "faults (snd (AppendAudit e s)) = []" "clock (snd (AppendAudit e s)) = clock s" using assms by simp_all
qed

subsection \<open>Properties\<close>

text \<open>Whether an account has moved to the account service, and whether the gate could find out.\<close>

definition has_moved :: "admin \<Rightarrow> store \<Rightarrow> bool" where
  "has_moved a s \<longleftrightarrow> (case admin_by_id (a_id a) s of None \<Rightarrow> False
     | Some m \<Rightarrow> (case adm_account_subject m of None \<Rightarrow> False | Some sub \<Rightarrow> trim_space sub \<noteq> []))"

definition link_readable :: "admin \<Rightarrow> store \<Rightarrow> bool" where
  "link_readable a s \<longleftrightarrow> (case fst (HasAccount (a_id a) s) of Inl _ \<Rightarrow> False | Inr _ \<Rightarrow> True)"

lemma has_moved_data: "has_moved a (data s) = has_moved a s"
  by (simp add: has_moved_def admin_by_id_def data_def)

lemma HasAccount_data: "data (snd (HasAccount i s)) = data s"
  using preservesD [of "\<lambda>t. data t = data s" "HasAccount i" s]
  by (simp add: HasAccount_def pres_bindE pres_query_first)

lemma HasAccount_Inr: "fst (HasAccount (a_id a) s) = Inr linked \<Longrightarrow> linked = has_moved a s"
  by (auto simp: HasAccount_def bindE_def query_first_def stmt_def has_moved_def admin_by_id_def
      split: list.splits if_splits option.splits)

lemma Authenticate_data: "data (snd (Authenticate cookie s)) = data s"
  using keeps_Authenticate [of "\<lambda>t. data t = data s" cookie] by (simp add: keepsA_def)

lemma has_moved_after: "has_moved a (snd (Authenticate cookie s)) = has_moved a s"
  using has_moved_data Authenticate_data by metis

lemma found_id: "admin_by_id i s = Some m \<Longrightarrow> adm_id m = i"
  by (auto simp: admin_by_id_def find_Some_iff)

lemma Authenticate_present: "faults s = [] \<Longrightarrow> fst (Authenticate cookie s) = Inr a \<Longrightarrow> admin_by_id (a_id a) s \<noteq> None"
  by (cases cookie; auto simp: Authenticate_def bindA_app tryA_def LookupSession_def FindAdminByID_def bindE_def find_row_ok
      refuse_suspended_ok toStorageAdmin_id split: option.splits sum.splits if_splits;
      metis found_id option.distinct(1))

text \<open>C36: The gate of the panel. Whatever statements fail: without a session that authenticates the request is
  refused with 401; with one, where an account service is configured and the link of the account
  could be read and is missing, it is told to move first; an account that neither has an open panel
  nor is an owner is refused with 403; and only an account that passes all three reaches the
  handler. The gate itself changes no table. A link that cannot be read lets the account through, as
  the code means it to; with a working database it is always read, and the handler then starts from
  the very state the request met.
\<close>
theorem panel_gate:
  fixes p :: portal
  defines "s \<equiv> sv_store (po_server p)"
  shows "\<exists>t. data t = data s \<and> (let q = p\<lparr>po_server := (po_server p)\<lparr>sv_store := t\<rparr>\<rparr> in
    requirePanel P cookie k p = (case fst (Authenticate cookie s) of
       Inl _ \<Rightarrow> (Barred 401, q)
     | Inr a \<Rightarrow>
         if oidcEnabled P \<and> link_readable a (snd (Authenticate cookie s)) \<and> \<not> has_moved a s then (MoveFirst, q)
         else if \<not> a_panel_access a \<and> a_role a \<noteq> RoleOwner then (Barred 403, q)
         else k a q)) \<and>
    (faults s = [] \<longrightarrow> t = s \<and> (\<forall>a. fst (Authenticate cookie s) = Inr a \<longrightarrow> link_readable a (snd (Authenticate cookie s))))"
proof -
  let ?s1 = "snd (Authenticate cookie s)"
  define t where "t = (case fst (Authenticate cookie s) of Inl _ \<Rightarrow> ?s1
    | Inr a \<Rightarrow> if oidcEnabled P then snd (HasAccount (a_id a) ?s1) else ?s1)"
  have d: "data t = data s" by (simp add: t_def HasAccount_data Authenticate_data split: sum.split)
  have calm: "t = s" if "faults s = []"
    using that by (simp add: t_def Authenticate_still HasAccount_ok split: sum.split)
  have readable: "link_readable a ?s1" if "faults s = []" "fst (Authenticate cookie s) = Inr a" for a
    using that Authenticate_present [OF that]
    by (auto simp: link_readable_def Authenticate_still HasAccount_ok split: option.split)
  have moved: "linked = has_moved a s" if "fst (HasAccount (a_id a) ?s1) = Inr linked" for a linked
    using HasAccount_Inr [OF that] by (simp add: has_moved_after)
  have "requirePanel P cookie k p = (let q = p\<lparr>po_server := (po_server p)\<lparr>sv_store := t\<rparr>\<rparr> in
      case fst (Authenticate cookie s) of
       Inl _ \<Rightarrow> (Barred 401, q)
     | Inr a \<Rightarrow> if oidcEnabled P \<and> link_readable a ?s1 \<and> \<not> has_moved a s then (MoveFirst, q)
         else if \<not> a_panel_access a \<and> a_role a \<noteq> RoleOwner then (Barred 403, q)
         else k a q)"
    by (auto simp: requirePanel_def requireAccount_def requireAuth_def mustLinkAccount_def onAuth_def onDb_def
        t_def s_def link_readable_def Let_def case_prod_beta dest!: moved [unfolded s_def]
        split: sum.splits)
  then show ?thesis using d calm readable by (intro exI [of _ t]) (simp add: Let_def)
qed

text \<open>The administrative surface is behind the gate of the panel. Whatever path below one of its parts reaches a handler
  of \<^verbatim>\<open>Register\<close> at all, whatever is appended to it, the pattern that the multiplexer chooses has that gate.
\<close>
theorem panel_surface:
  assumes "part \<in> {''/api/admin/clients'', ''/api/admin/link'', ''/api/admin/stats'', ''/api/admin/nodes'', ''/api/admin/wgpeers'',
      ''/api/admin/vk-links'', ''/api/admin/fleet'', ''/api/admin/federation'', ''/api/admin/master''}"
    and "has_prefix path part" "route_of path = Some (pat, g)"
  shows "g \<in> {GPanel, GPanelCrypto}"
proof -
  have r: "(pat, g) \<in> set admin_routes" "matches path pat"
  proof -
    let ?f = "sort_key (\<lambda>(pat, _). length pat) (filter (\<lambda>(pat, _). matches path pat) admin_routes)"
    have "(pat, g) \<in> set (rev ?f)" using assms(3) by (cases "rev ?f") (auto simp: route_of_def Let_def)
    then show "(pat, g) \<in> set admin_routes" "matches path pat" by auto
  qed
  have "has_prefix pat part \<or> has_prefix part pat"
    using r(2) assms(2) unfolding matches_def has_prefix_def by (metis nat_le_linear take_all_iff take_take min.absorb1 min.absorb2)
  moreover have "\<forall>(pat, g) \<in> set admin_routes. \<forall>part \<in> {''/api/admin/clients'', ''/api/admin/link'', ''/api/admin/stats'', ''/api/admin/nodes'', ''/api/admin/wgpeers'',
      ''/api/admin/vk-links'', ''/api/admin/fleet'', ''/api/admin/federation'', ''/api/admin/master''}.
      has_prefix pat part \<or> has_prefix part pat \<longrightarrow> g = GPanel \<or> g = GPanelCrypto"
    by code_simp
  ultimately show ?thesis using r(1) assms(1) by fastforce
qed

text \<open>How a browser reads a redirect target: tabs and line breaks are dropped, a backslash counts as a slash, and two
  slashes at the front name another host.\<close>

definition leaves_site :: "string \<Rightarrow> bool" where
  "leaves_site target = has_prefix (replace_all (CHR 0x5C) (CHR ''/'')
     (filter (\<lambda>c. c \<notin> {CHR 0x09, CHR 0x0A, CHR 0x0D}) target)) ''//''"

text \<open>A redirect after signing in stays inside the panel as long as the wanted path has no backslash, tab or line
  break: it starts with a single slash.
\<close>
theorem redirect_stays_inside:
  assumes "has_prefix fallback ''/''" "\<not> leaves_site fallback" "set returnTo \<inter> {CHR 0x5C, CHR 0x09, CHR 0x0A, CHR 0x0D} = {}"
  shows "has_prefix (redirectTarget returnTo fallback) ''/'' \<and> \<not> leaves_site (redirectTarget returnTo fallback)"
proof (cases "safeReturnTo returnTo = []")
  case False
  then have s: "safeReturnTo returnTo = trim_space returnTo" "has_prefix (trim_space returnTo) ''/''" "\<not> has_prefix (trim_space returnTo) ''//''"
    by (auto simp: safeReturnTo_def Let_def split: if_splits)
  have "set (trim_space returnTo) \<subseteq> set returnTo" by (auto simp: trim_space_def trim_left_def dest!: set_dropWhileD)
  then have clean: "\<forall>c \<in> set (trim_space returnTo). c \<notin> {CHR 0x5C, CHR 0x09, CHR 0x0A, CHR 0x0D}" using assms(3) by blast
  then have "filter (\<lambda>c. c \<notin> {CHR 0x09, CHR 0x0A, CHR 0x0D}) (trim_space returnTo) = trim_space returnTo"
    by (intro filter_True) blast
  moreover have "replace_all (CHR 0x5C) (CHR ''/'') (trim_space returnTo) = trim_space returnTo"
    unfolding replace_all_def using clean by (intro map_idI) auto
  ultimately show ?thesis using s False by (simp add: redirectTarget_def leaves_site_def)
qed (use assms in \<open>simp add: redirectTarget_def\<close>)

text \<open>The check looks for two slashes only: a slash and a backslash pass it, and the browser goes to another host.\<close>

lemma backslash_leaves:
  "let target = ''/'' @ [CHR 0x5C] @ ''evil.example'' in safeReturnTo target = target \<and> leaves_site target"
  by code_simp

text \<open>Everything that happens to the logins in flight.\<close>

datatype oidc_event = Started string string int string int string | Called int string string

fun oidc_step :: "provider \<Rightarrow> oidc_event \<Rightarrow> states \<Rightarrow> states" where
  "oidc_step P (Started state verifier t returnTo link invite) m = snd (startLogin P (Some state) (Some verifier) t returnTo link invite m)"
| "oidc_step P (Called t state code) m = snd (completeLogin P t state code m)"

lemma step_keeps_gone:
  assumes "m state = None" "\<forall>v t r l i. e \<noteq> Started state v t r l i"
  shows "oidc_step P e m state = None"
  using assms by (cases e) (auto simp: startLogin_def completeLogin_def sweepLocked_def Let_def)

text \<open>A login in flight is good for one callback. Once the callback has come, whether the exchange succeeded or not, no
  later callback with the same state gets through, whatever else was started or called in between, unless the same
  state is drawn again.
\<close>
theorem login_state_once:
  assumes "oidcEnabled P" "pv_discover P" "\<forall>e \<in> set events. \<forall>v t r l i. e \<noteq> Started state v t r l i"
  shows "fst (completeLogin P t' state code' (fold (oidc_step P) events (snd (completeLogin P t state code m)))) = Inl ErrUnknownState"
proof -
  have gone: "fold (oidc_step P) es m state = None" if "m state = None" "\<forall>e \<in> set es. \<forall>v t r l i. e \<noteq> Started state v t r l i" for es m
    using that by (induction es arbitrary: m) (simp_all add: step_keeps_gone)
  have "snd (completeLogin P t state code m) state = None" using assms(1,2) by (simp add: completeLogin_def Let_def)
  then have "fold (oidc_step P) events (snd (completeLogin P t state code m)) state = None" using gone assms(3) by blast
  then show ?thesis using assms(1,2) by (simp add: completeLogin_def Let_def sweepLocked_def)
qed

text \<open>C29: A callback that attaches an account attaches it to whoever started the login, not to whoever comes back with it.
  The handler reads no cookie: a person led to a callback of somebody else's login has their account bound to that
  somebody's row, and signs in as them from then on.
\<close>
theorem callback_attaches_to_starter:
  assumes "faults (sv_store (po_server p)) = []" "wf_store (sv_store (po_server p))" "oidcEnabled P" "pv_discover P"
    and "po_states p state = Some got" "pn_link_admin got = starter" "pn_at got \<ge> clock (sv_store (po_server p)) - pendingTTL"
    and "pv_exchange P code (pn_verifier got) = Some c" "trim_space (cl_preferred c) \<noteq> []" "trim_space (cl_subject c) \<noteq> []"
    and "admin_by_id starter (sv_store (po_server p)) = Some m" "starter > 0"
    and "find (\<lambda>r. adm_account_subject r = Some (trim_space (cl_subject c))) (admins (sv_store (po_server p))) = None"
  shows "\<exists>p' m'. handleOIDCCallback P E pw tok [] state code p = (GoTo (redirectTarget (pn_return_to got) ''/admin/account''), p') \<and>
    admin_by_id starter (sv_store (po_server p')) = Some m' \<and> adm_account_subject m' = Some (trim_space (cl_subject c))"
proof -
  let ?s = "sv_store (po_server p)" and ?sub = "trim_space (cl_subject c)"
  obtain who where who: "identityFrom (cl_subject c) (cl_preferred c) (cl_name c) = Some who" "id_subject who = ?sub"
    using assms(10) by (auto simp: identityFrom_def Let_def)
  have c: "fill_claims P code c = c" using assms(9) by (simp add: fill_claims_def)
  define p1 where "p1 = p\<lparr>po_states := (sweepLocked (clock ?s) (po_states p))(state := None)\<rparr>"
  have done_login: "fst (completeLogin P (clock ?s) state code (po_states p)) = Inr (who, pn_return_to got, starter, pn_invite got)"
    "snd (completeLogin P (clock ?s) state code (po_states p)) = (sweepLocked (clock ?s) (po_states p))(state := None)"
    using assms(3-8) c who(1) by (simp_all add: completeLogin_def Let_def sweepLocked_def)
  define s1 where "s1 = admins_update (update_where (\<lambda>r. adm_id r = starter) (\<lambda>r. r\<lparr>adm_account_subject := Some ?sub,
      adm_account_name := trim_space (id_display_name who), adm_updated_at := clock ?s\<rparr>)) ?s"
  have mem: "m \<in> set (admins ?s)" "adm_id m = starter" using assms(11) by (auto simp: admin_by_id_def find_Some_iff)
  have t: "trim_space ?sub = ?sub" by (rule trim_space_idem)
  let ?f = "\<lambda>r. r\<lparr>adm_account_subject := Some ?sub, adm_account_name := trim_space (id_display_name who), adm_updated_at := clock ?s\<rparr>"
  have "adm_account_subject m \<noteq> Some ?sub" using assms(13) mem(1) by (auto simp: find_None_iff)
  then have "?f m \<noteq> m" by (metis admin_row.select_convs admin_row.update_convs admin_row.surjective)
  then have "m \<in> set (filter (\<lambda>r. adm_id r = starter \<and> (driver ?s = DriverMySQL \<longrightarrow> ?f r \<noteq> r)) (admins ?s))" using mem by simp
  from length_pos_if_in_set [OF this] have "affected (driver ?s) (\<lambda>r. adm_id r = starter) ?f (admins ?s) \<noteq> 0"
    unfolding affected_def by linarith
  then have l: "LinkAccount starter (id_subject who) (id_display_name who) ?s = (Inr (), s1)"
    using assms(1,10,13) who(2) t
    by (simp add: LinkAccount_def Let_def bindE_def attempt_app FindAdminByAccount_ok update_admin_def update_rows_ok s1_def require_affected_def)
  let ?p' = "snd (audit_account starter [] ''admin.account_linked'' ''admin'' (id_display_name who) [] (p1\<lparr>po_server := (po_server p)\<lparr>sv_store := s1\<rparr>\<rparr>))"
  have "handleOIDCCallback P E pw tok [] state code p = (GoTo (redirectTarget (pn_return_to got) ''/admin/account''), ?p')"
    using assms(3,12) done_login l by (simp add: handleOIDCCallback_def attach_account_def p1_def audit_account_def)
  moreover have "faults s1 = []" using assms(1) by (simp add: s1_def)
  then have "admins (sv_store (po_server ?p')) = admins s1"
    by (simp add: audit_account_def note_audit_app p1_def audit_keeps)
  moreover have "admin_by_id starter s1 = Some (?f m)"
    using mem assms(2) assms(11) by (simp add: s1_def admin_by_id_update)
  ultimately show ?thesis by (auto simp: admin_by_id_def)
qed

text \<open>The application gets a token for nobody but the person the account service names. If the door by account hands one
  out, the service accepted a password or a second factor for a session, said whose session it is, and the token is for
  the account of the panel that is linked to exactly that person.
\<close>
theorem app_account_right_person:
  assumes "faults (sv_store (po_server p)) = []" "fst (handleAppAccountLogin P E i tok draw rq body p) = TokenFor (AppToken secret a)"
  shows "\<exists>sess subject m. ((\<exists>login pw. pv_password P login pw = Inr sess) \<or> (\<exists>first code. pv_factor P first code = Some sess)) \<and>
    pv_owner P sess = Some subject \<and> m \<in> set (admins (sv_store (po_server p))) \<and>
    adm_account_subject m = Some (trim_space subject) \<and> a = toStorageAdmin m"
proof -
  have fin: "\<exists>subject m. pv_owner P sess = Some subject \<and> m \<in> set (admins (sv_store (po_server p))) \<and>
      adm_account_subject m = Some (trim_space subject) \<and> a = toStorageAdmin m"
    if h: "fst (finishAppAccountLogin P E i tok draw rq req sess q) = TokenFor (AppToken secret a)" "sv_store (po_server q) = sv_store (po_server p)" for req sess q
  proof -
    obtain subject where s: "pv_owner P sess = Some subject" using h(1) by (cases "pv_owner P sess") (auto simp: finishAppAccountLogin_def answerP_app split: option.splits)
    obtain m where m: "find (\<lambda>r. adm_account_subject r = Some (trim_space subject)) (admins (sv_store (po_server p))) = Some m"
        "fst (issueAppSession E i tok rq (toStorageAdmin m) (aa_device_name req) ((po_server q)\<lparr>sv_store := sv_store (po_server p)\<rparr>)) = AppToken secret a"
      using h s assms(1) by (auto simp: finishAppAccountLogin_def FindAdminByAccount_ok split: if_splits option.splits)
    have "a = toStorageAdmin m" using m(2) by (auto simp: issueAppSession_def Let_def split: option.splits sum.splits)
    moreover have "m \<in> set (admins (sv_store (po_server p)))" "adm_account_subject m = Some (trim_space subject)"
      using m(1) by (auto simp: find_Some_iff)
    ultimately show ?thesis using s by blast
  qed
  obtain req where h: "body = Some req" "pv_session_on P" "rq_method rq = ''POST''"
    using assms(2) by (cases body) (auto simp: handleAppAccountLogin_def answerP_app split: if_splits)
  have "\<exists>sess q. ((\<exists>login pw. pv_password P login pw = Inr sess) \<or> (\<exists>first code. pv_factor P first code = Some sess)) \<and>
      fst (finishAppAccountLogin P E i tok draw rq req sess q) = TokenFor (AppToken secret a) \<and> sv_store (po_server q) = sv_store (po_server p)"
  proof (cases "trim_space (aa_ticket req) = []")
    case True
    let ?login = "trim_space (aa_login req)"
    let ?q = "p\<lparr>po_server := snd (limited (account_keys rq ?login) (po_server p))\<rparr>"
    have "sv_store (po_server ?q) = sv_store (po_server p)" by (simp add: limited_app)
    moreover obtain sess where "pv_password P ?login (aa_password req) = Inr sess"
      "fst (finishAppAccountLogin P E i tok draw rq req sess ?q) = TokenFor (AppToken secret a)"
      using assms(2) h True by (auto simp: handleAppAccountLogin_def answerP_app Let_def split: if_splits sum.splits)
    ultimately show ?thesis by blast
  next
    case False
    let ?q = "p\<lparr>po_halfway := (po_halfway p)(trim_space (aa_ticket req) := None)\<rparr>"
    obtain first sess where "pv_factor P first (trim_space (aa_code req)) = Some sess"
      "fst (finishAppAccountLogin P E i tok draw rq req sess ?q) = TokenFor (AppToken secret a)"
      using assms(2) h False by (auto simp: handleAppAccountLogin_def answerP_app halfwayTake_def split: if_splits option.splits)
    moreover have "sv_store (po_server ?q) = sv_store (po_server p)" by simp
    ultimately show ?thesis by blast
  qed
  then show ?thesis using fin by blast
qed

text \<open>Signing out works and leaves no trace: the cookie opens nothing any more, and because the handler asks whose
  session it was after it deleted the session, the line for the audit log is never written.
\<close>
theorem logout_unaudited:
  assumes "faults (sv_store (po_server p)) = []" "rq_method rq = ''POST''" "v \<noteq> []"
  shows "\<exists>p'. handleLogout E rq (Some v) p = (Enters (ClearSessionCookie (en_secure E)) [], p') \<and>
    fst (Authenticate (Some v) (sv_store (po_server p'))) = Inl ErrSessionExpired \<and> audits (sv_store (po_server p')) = audits (sv_store (po_server p))"
proof -
  let ?s = "sv_store (po_server p)" and ?s' = "sessions_update (filter (\<lambda>r. se_id r \<noteq> v)) (sv_store (po_server p))"
  have l: "Logout v ?s = (Inr (), ?s')"
    using assms(1,3) by (simp add: Logout_def liftA_app DeleteSession_def bindE_def delete_rows_ok)
  have "find (\<lambda>r. se_id r = v) (filter (\<lambda>r. se_id r \<noteq> v) (sessions ?s)) = None" by (simp add: find_None_iff)
  then have a: "Authenticate (Some v) ?s' = (Inl ErrSessionExpired, ?s')"
    using assms(1) by (simp add: Authenticate_def bindA_app tryA_def LookupSession_def bindE_def find_row_ok session_of_def)
  show ?thesis using assms(2) l a by (simp add: handleLogout_def)
qed

text \<open>C15: Closing the panel does not hold. Unless the owner switched moderation on, the member whose panel the owner has just
  closed opens it again with one request of their own, invited or not.
\<close>
theorem revocation_undone:
  assumes "faults (sv_store (po_server p)) = []" "admin_by_id i (sv_store (po_server p)) = Some m"
    and "adm_role m \<noteq> RoleOwner" "po_allowed body = Some False" "rq_method rq = ''POST''"
    and "setting_at SettingPanelByRequest ''false'' (sv_store (po_server p)) \<noteq> ''true''"
  shows "\<exists>sv1 m1 p2 m2. respondPanelAccess body owner i (po_server p) = (PanelIs False, sv1) \<and>
    admin_by_id i (sv_store sv1) = Some m1 \<and> adm_panel_access m1 = 0 \<and>
    handlePanelAccess rq (toStorageAdmin m1) (p\<lparr>po_server := sv1\<rparr>) = (Granted True, p2) \<and>
    admin_by_id i (sv_store (po_server p2)) = Some m2 \<and> adm_panel_access m2 = 1 \<and> adm_role m2 = RoleAdmin"
proof -
  let ?s = "sv_store (po_server p)"
  have r: "a_role (toStorageAdmin m) \<noteq> RoleOwner" "adm_id m = i"
    using assms(2,3) by (auto simp: toStorageAdmin_def RoleForPanel_def RoleOwner_def RoleUser_def RoleAdmin_def admin_by_id_def find_Some_iff)
  have set: "SetPanelAccess i b s = (Inr (), admins_update (update_where (\<lambda>r. adm_id r = i \<and> adm_role r \<noteq> RoleOwner)
      (\<lambda>r. r\<lparr>adm_panel_access := bool_to_int b, adm_role := RoleForPanel b, adm_updated_at := clock s\<rparr>)) s)" if "faults s = []" for b s
    using that by (simp add: SetPanelAccess_def bindE_def update_rows_ok)
  have clear: "ClearPanelRequest i s = (Inr (), admins_update (update_where (\<lambda>r. adm_id r = i)
      (\<lambda>r. r\<lparr>adm_panel_requested_at := 0, adm_updated_at := clock s\<rparr>)) s)" if "faults s = []" for s
    using that by (simp add: ClearPanelRequest_def touch_admin_ok)
  define after where "after b s = snd (ClearPanelRequest i (snd (SetPanelAccess i b s)))" for b s
  have step: "\<exists>m'. admin_by_id i (after b s) = Some m' \<and> adm_panel_access m' = bool_to_int b \<and> adm_role m' = RoleForPanel b \<and>
      adm_id m' = i \<and> faults (after b s) = [] \<and> settings (after b s) = settings s"
    if "faults s = []" "admin_by_id i s = Some x" "adm_role x \<noteq> RoleOwner" "adm_id x = i" for b s x
    using that set [OF that(1)] by (simp add: after_def clear admin_by_id_def find_update_where)
  obtain m1 where m1: "admin_by_id i (after False ?s) = Some m1" "adm_panel_access m1 = 0" "adm_role m1 = RoleUser" "adm_id m1 = i"
      "faults (after False ?s) = []" "settings (after False ?s) = settings ?s"
    using step [OF assms(1,2,3) r(2), of False] by (auto simp: bool_to_int_def RoleForPanel_def)
  define sv1 where "sv1 = snd (audit_owner owner ''owner.panel_access_revoked'' ''admin'' (itoa i) [] [] ((po_server p)\<lparr>sv_store := after False ?s\<rparr>))"
  have sv1: "respondPanelAccess body owner i (po_server p) = (PanelIs False, sv1)"
    using assms(1,4) FindAdminByID_ok [OF assms(1,2)] r(1) set [OF assms(1)] clear
    by (simp add: respondPanelAccess_def orDeny_def sv1_def after_def)
  have s1: "faults (sv_store sv1) = []" "settings (sv_store sv1) = settings ?s" "admin_by_id i (sv_store sv1) = Some m1"
    using m1 by (simp_all add: sv1_def audit_owner_def note_audit_app audit_keeps admin_by_id_def)
  have adm: "a_id (toStorageAdmin m1) = i" "\<not> a_panel_access (toStorageAdmin m1)" "a_role (toStorageAdmin m1) \<noteq> RoleOwner"
    using m1 by (simp_all add: toStorageAdmin_def RoleUser_def RoleOwner_def)
  obtain m2 where m2: "admin_by_id i (after True (sv_store sv1)) = Some m2" "adm_panel_access m2 = 1" "adm_role m2 = RoleAdmin"
      "faults (after True (sv_store sv1)) = []"
    using step [OF s1(1) s1(3) _ m1(4), of True] m1(3) by (auto simp: bool_to_int_def RoleForPanel_def RoleUser_def RoleOwner_def)
  define p2 where "p2 = snd (audit_account i (a_username (toStorageAdmin m1)) ''admin.panel_self_granted'' [] [] (rq_ip rq)
      (p\<lparr>po_server := sv1\<lparr>sv_store := after True (sv_store sv1)\<rparr>\<rparr>))"
  have "setting_row_of SettingPanelByRequest (sv_store sv1) = setting_row_of SettingPanelByRequest ?s"
    using s1(2) by (simp add: setting_row_of_def)
  then have "handlePanelAccess rq (toStorageAdmin m1) (p\<lparr>po_server := sv1\<rparr>) = (Granted True, p2)"
    using assms(5,6) adm s1(1) set [OF s1(1)] clear
    by (auto simp: handlePanelAccess_def GetPlatformSetting_ok setting_at_def p2_def after_def)
  moreover have "admin_by_id i (sv_store (po_server p2)) = Some m2"
    using m2 by (simp add: p2_def audit_account_def note_audit_app audit_keeps admin_by_id_def)
  ultimately show ?thesis using sv1 s1(3) m1(2) m2(2,3) by blast
qed

text \<open>Nobody changes a password without the old one, whichever side keeps it: either the account service accepted the old
  password, or the hash in the panel matches it and the new one has the length the panel asks for.
\<close>
theorem password_needs_old:
  assumes "faults (sv_store (po_server p)) = []" "fst (handleChangePassword P E rq (Some (old, new)) admin p) = Finished"
  shows "(\<exists>name sess. pv_password P name old = Inr sess) \<or>
    (\<exists>m. admin_by_id (a_id admin) (sv_store (po_server p)) = Some m \<and> bcrypt_cmp (en_crypto E) (adm_password_hash m) old \<and> 8 \<le> length new)"
proof -
  let ?s = "sv_store (po_server p)"
  have subj: "snd (AccountSubjectOf i ?s) = ?s" for i using assms(1) by (simp add: AccountSubjectOf_def bindE_def query_first_ok split: option.split)
  have change: "\<exists>m. admin_by_id i ?s = Some m \<and> bcrypt_cmp (en_crypto E) (adm_password_hash m) old \<and> 8 \<le> length new"
    if "fst (ChangePassword (en_crypto E) i old new ?s) = Inr x" for i x
    using that assms(1) by (cases "admin_by_id i ?s") (auto simp: ChangePassword_def bindA_app liftA_app FindAdminByID_def bindE_def find_row_ok
      VerifyPassword_def MinPasswordLen_def toStorageAdmin_def split: if_splits)
  show ?thesis
  proof (cases "fst (accountOf P admin p)")
    case None
    then show ?thesis using assms(2) change subj
      by (auto simp: handleChangePassword_def answerP_app accountOf_def split: if_splits sum.splits)
  next
    case (Some subject)
    then show ?thesis using assms(2)
      by (auto simp: handleChangePassword_def answerP_app changeAccountPassword_def Let_def split: if_splits sum.splits)
  qed
qed

text \<open>No request about accounts breaks the keys or references of the database, whatever the engine refuses.
\<close>
theorem account_desk_keeps_invariant:
  assumes "wf_store (sv_store (po_server p))"
    and "m \<in> {handleOIDCCallback P E pw tok err state code, handleOIDCStart P d1 d2 cookie to invite, handleOIDCLink rq admin,
      handleAccountLogin P d1 d2 d3 cookie rq login, handleAccountFactor P rq factor, handleAppAccountLogin P E i tok d3 rq app,
      handleAccountEnroll P rq pass admin, handleChangePassword P E rq change admin, handlePanelAccess rq admin,
      handleRegister P E tries tok rq reg, handleLogout E rq cookie}"
  shows "wf_store (sv_store (po_server (snd (m p))))"
proof -
  have auth: "keepsS wf_store (onAuth (Authenticate c))" for c by (intro keeps_onAuth keeps_Authenticate fault_free_wf)
  have suspended: "keepsA wf_store (refuse_suspended j)" for j
    unfolding refuse_suspended_def IsSuspended_def by (intro keepsA_intros pres fault_free_wf | simp add: keepsA_intros split: prod.split)+
  have enter: "keepsA wf_store (enter tok a)" for a
    unfolding enter_def newSession_def drawn_def by (intro keepsA_intros pres fault_free_wf | simp split: option.split add: keepsA_intros)+
  have gate: "keepsA wf_store (registration_gate c)" for c
    unfolding registration_gate_def GetPlatformSetting_def by (intro keepsA_intros pres fault_free_wf)
  have sums: "keepsA wf_store (sumA x)" for x :: "auth_error + 'x" unfolding sumA_def by (intro keepsA_intros)
  have rand: "keepsA wf_store (mustRandomPassword w)" for w unfolding mustRandomPassword_def drawn_def by (simp add: keepsA_intros split: option.split)
  have opened: "keepsA wf_store (open_account C n w c)" if "keepsA wf_store w" for C n w c
    unfolding open_account_def name_free_def redeem_or_drop_def FindAdminByUsername_def by (intro keepsA_intros pres fault_free_wf that sums)
  have by_account: "keepsA wf_store (LoginWithAccount C pw tok s u n c)" for C s u n c
    unfolding LoginWithAccount_def link_or_drop_def FindAdminByAccount_def Let_def
    by (intro keepsA_intros pres fault_free_wf enter suspended gate sums opened rand)
  have register: "keepsA wf_store (Register C tok u w c)" for C u w c
    unfolding Register_def by (intro keepsA_intros enter gate sums opened)
  have change: "keepsA wf_store (ChangePassword C a old new)" for C a old new
    unfolding ChangePassword_def FindAdminByID_def by (intro keepsA_intros pres fault_free_wf sums)
  have out: "keepsA wf_store (Logout v)" for v
    unfolding Logout_def by (intro keepsA_intros pres fault_free_wf)
  have app: "keepsS wf_store (issueAppSession E i tok rq a d)" for a d
    unfolding issueAppSession_def Let_def by (cases i; cases tok; simp only: option.case prod.case; intro srv_intros pres fault_free_wf)
  have audit: "keepsP wf_store (audit_account actor name what target msg ip)" for actor name what target msg ip
    unfolding audit_account_def by (intro keepsP_intros srv_intros pres)
  have link: "keepsP wf_store (link_admin_of c)" for c unfolding link_admin_of_def by (intro keepsP_intros auth)
  note intros = keepsP_intros srv_intros auth link keeps_onAuth app audit pres fault_free_wf by_account register change
  have "keepsP wf_store (handleOIDCCallback P E pw tok err state code)"
    unfolding handleOIDCCallback_def attach_account_def enter_by_account_def oidcFail_def case_prod_beta by (intro intros)
  moreover have "keepsP wf_store (handleOIDCStart P d1 d2 cookie to invite)" unfolding handleOIDCStart_def by (intro intros)
  moreover have "keepsP wf_store (handleOIDCLink rq admin)" unfolding handleOIDCLink_def AccountNameFor_def by (intro intros)
  moreover have "keepsP wf_store (handleAccountLogin P d1 d2 d3 cookie rq login)" unfolding handleAccountLogin_def Let_def by (intro intros)
  moreover have "keepsP wf_store (handleAccountFactor P rq factor)" unfolding handleAccountFactor_def case_prod_beta by (intro intros)
  moreover have "keepsP wf_store (handleAppAccountLogin P E i tok d3 rq app)"
    unfolding handleAppAccountLogin_def finishAppAccountLogin_def FindAdminByAccount_def limited_def Let_def
    by (intro intros | simp add: keepsS_def split: prod.split)+
  moreover have "keepsP wf_store (handleAccountEnroll P rq pass admin)" unfolding handleAccountEnroll_def HasAccount_def by (intro intros)
  moreover have "keepsP wf_store (handleChangePassword P E rq change admin)"
    unfolding handleChangePassword_def accountOf_def changeAccountPassword_def password_changed_def AccountSubjectOf_def AccountNameFor_def Let_def
    by (intro intros)
  moreover have "keepsP wf_store (handlePanelAccess rq admin)" unfolding handlePanelAccess_def GetPlatformSetting_def by (intro intros)
  moreover have "keepsP wf_store (handleRegister P E tries tok rq reg)"
    unfolding handleRegister_def enrollAccount_def case_prod_beta by (intro intros)
  moreover have "keepsP wf_store (handleLogout E rq cookie)"
    unfolding handleLogout_def by (intro intros | cases cookie; simp only: option.case; intro keeps_onAuth keepsA_intros out)+
  ultimately have "keepsP wf_store m" using assms(2) by blast
  then show ?thesis using assms(1) by (simp add: keepsP_def)
qed

subsection \<open>At concrete inputs\<close>

definition sample_provider :: provider where
  "sample_provider = \<lparr>pv_issuer = ''https://id.example'', pv_client_id = ''panel'', pv_session_on = True, pv_discover = True,
     pv_auth_url = (\<lambda>state verifier. ''https://id.example/authorize?state='' @ state),
     pv_exchange = (\<lambda>code verifier. if code = ''c'' \<and> verifier = ''v''
        then Some \<lparr>cl_subject = ''42'', cl_preferred = ''eve@id.example'', cl_name = ''Eve''\<rparr> else None),
     pv_userinfo = (\<lambda>_. None), pv_begin = (\<lambda>_. Some ''r1''),
     pv_password = (\<lambda>login pw. if login = ''ann'' \<and> pw = ''secret'' then Inr ''sess'' else Inl BadPassword),
     pv_factor = (\<lambda>s code. if code = ''123456'' then Some s else None), pv_finish = (\<lambda>r s. None),
     pv_owner = (\<lambda>s. if s = ''sess'' then Some ''7'' else None), pv_create = (\<lambda>_. Inl NameTaken), pv_set_password = (\<lambda>_ _. True)\<rparr>"

definition linked_store :: store where
  "linked_store = desk_store\<lparr>admins := [sample_admin 1 ''root'' ''owner'',
     (sample_admin 2 ''ann'' ''admin'')\<lparr>adm_account_subject := Some ''7'', adm_account_name := ''ann'', adm_panel_access := 1\<rparr>]\<rparr>"

definition portal_at :: "store \<Rightarrow> portal" where
  "portal_at s = \<lparr>po_server = panel s, po_states = [''st'' \<mapsto> \<lparr>pn_verifier = ''v'', pn_return_to = [], pn_link_admin = 1, pn_invite = [], pn_at = 4990000\<rparr>],
     po_halfway = Map.empty\<rparr>"

lemma portal_at_simps [simp]: "po_server (portal_at s) = panel s"
    "po_states (portal_at s) = [''st'' \<mapsto> \<lparr>pn_verifier = ''v'', pn_return_to = [], pn_link_admin = 1, pn_invite = [], pn_at = 4990000\<rparr>]"
  by (simp_all add: portal_at_def)

lemma linked_store_simps [simp]: "faults linked_store = []" "clock linked_store = 5000000" "wf_store linked_store"
  using desk_store_simps(2)
  by (simp_all add: linked_store_def desk_store_def wf_defs sample_defs uniq_def refers_def session_row_of_def)

definition echo :: "admin \<Rightarrow> int gated portal_act" where "echo a p = (Through (a_id a), p)"

text \<open>Somebody with an open panel who has not moved: told to, and let in when the link cannot be read.\<close>

definition unmoved_store :: store where
  "unmoved_store = linked_store\<lparr>admins := [sample_admin 1 ''root'' ''owner'', (sample_admin 2 ''ann'' ''admin'')\<lparr>adm_panel_access := 1\<rparr>]\<rparr>"

theorem panel_gate_witness:
  "requirePanel sample_provider (Some ''tok'') echo (portal_at linked_store) = (Through 2, portal_at linked_store) \<and>
   fst (requirePanel sample_provider (Some ''tok'') echo (portal_at unmoved_store)) = MoveFirst \<and>
   fst (requirePanel sample_provider (Some ''tok'') echo (portal_at (unmoved_store\<lparr>faults := [False, False, False, True]\<rparr>))) = Through 2"
proof -
  have a: "fst (Authenticate (Some ''tok'') linked_store) = Inr (toStorageAdmin ((sample_admin 2 ''ann'' ''admin'')\<lparr>
      adm_account_subject := Some ''7'', adm_account_name := ''ann'', adm_panel_access := 1\<rparr>))"
    by code_simp
  have m: "has_moved (toStorageAdmin ((sample_admin 2 ''ann'' ''admin'')\<lparr>adm_account_subject := Some ''7'',
      adm_account_name := ''ann'', adm_panel_access := 1\<rparr>)) linked_store"
    by code_simp
  have "fst (requirePanel sample_provider (Some ''tok'') echo (portal_at unmoved_store)) = MoveFirst"
    "fst (requirePanel sample_provider (Some ''tok'') echo (portal_at (unmoved_store\<lparr>faults := [False, False, False, True]\<rparr>))) = Through 2"
    by code_simp+
  moreover have "requirePanel sample_provider (Some ''tok'') echo (portal_at linked_store) = (Through 2, portal_at linked_store)"
    using panel_gate [of "portal_at linked_store" sample_provider "Some ''tok''" echo] a m
    by (auto simp: echo_def Let_def toStorageAdmin_def sample_admin_def portal_at_def panel_def)
  ultimately show ?thesis by blast
qed

theorem panel_surface_witness:
  "case route_of ''/api/admin/clients/c1/config'' of None \<Rightarrow> False | Some (pat, g) \<Rightarrow> g \<in> {GPanel, GPanelCrypto}"
proof -
  have "route_of ''/api/admin/clients/c1/config'' = Some (''/api/admin/clients/'', GPanel)" by code_simp
  moreover have "has_prefix ''/api/admin/clients/c1/config'' ''/api/admin/clients''" by code_simp
  ultimately show ?thesis using panel_surface [of "''/api/admin/clients''" "''/api/admin/clients/c1/config''" "''/api/admin/clients/''" GPanel] by simp
qed

theorem redirect_stays_inside_witness: "\<not> leaves_site (redirectTarget '' /admin/nodes '' ''/admin/account'')"
proof -
  have "has_prefix ''/admin/account'' ''/''" "\<not> leaves_site ''/admin/account''" by code_simp+
  then show ?thesis using redirect_stays_inside [of "''/admin/account''" "'' /admin/nodes ''"] by auto
qed

theorem login_state_once_witness:
  "fst (completeLogin sample_provider 5000002 ''st'' ''c'' (fold (oidc_step sample_provider) [Started ''other'' ''w'' 5000001 [] 0 []]
     (snd (completeLogin sample_provider 5000000 ''st'' ''c'' (po_states (portal_at linked_store)))))) = Inl ErrUnknownState"
proof -
  have "oidcEnabled sample_provider" by code_simp
  then show ?thesis by (intro login_state_once) (simp_all add: sample_provider_def)
qed

theorem callback_attaches_to_starter_witness:
  "\<exists>p' m'. handleOIDCCallback sample_provider sample_env None None [] ''st'' ''c'' (portal_at desk_store) = (GoTo ''/admin/account'', p') \<and>
     admin_by_id 1 (sv_store (po_server p')) = Some m' \<and> adm_account_subject m' = Some ''42''"
proof -
  have t: "trim_space ''42'' = ''42''" "trim_space ''eve@id.example'' = ''eve@id.example''" "oidcEnabled sample_provider"
    "redirectTarget [] ''/admin/account'' = ''/admin/account''" by code_simp+
  have c: "clock desk_store = 5000000" by (simp add: desk_store_def sample_defs)
  show ?thesis
    using callback_attaches_to_starter [of "portal_at desk_store" sample_provider "''st''"
        "\<lparr>pn_verifier = ''v'', pn_return_to = [], pn_link_admin = 1, pn_invite = [], pn_at = 4990000\<rparr>" 1 "''c''"
        "\<lparr>cl_subject = ''42'', cl_preferred = ''eve@id.example'', cl_name = ''Eve''\<rparr>" "sample_admin 1 ''root'' ''owner''" sample_env None None] t c
    by (simp add: sample_provider_def pendingTTL_def admin_by_id_def sample_admin_def)
qed

definition ann_app :: app_account where
  "ann_app = \<lparr>aa_login = ''ann'', aa_password = ''secret'', aa_code = [], aa_ticket = [], aa_device_name = ''phone''\<rparr>"

lemma ann_app_token:
  "case fst (handleAppAccountLogin sample_provider sample_env (Some ''i'') (Some ''app'') None (sample_request ''POST'' []) (Some ann_app) (portal_at linked_store)) of
     TokenFor (AppToken secret a) \<Rightarrow> a_id a = 2 | _ \<Rightarrow> False"
  by code_simp

theorem app_account_right_person_witness:
  "\<exists>a m. fst (handleAppAccountLogin sample_provider sample_env (Some ''i'') (Some ''app'') None (sample_request ''POST'' []) (Some ann_app)
      (portal_at linked_store)) = TokenFor (AppToken ''app'' a) \<and> m \<in> set (admins linked_store) \<and> a = toStorageAdmin m"
proof -
  let ?r = "fst (handleAppAccountLogin sample_provider sample_env (Some ''i'') (Some ''app'') None (sample_request ''POST'' []) (Some ann_app) (portal_at linked_store))"
  have "case ?r of TokenFor (AppToken secret a) \<Rightarrow> secret = ''app'' | _ \<Rightarrow> False" by code_simp
  then obtain a where a: "?r = TokenFor (AppToken ''app'' a)" by (auto split: portal_answer.splits reply.splits)
  then show ?thesis using app_account_right_person [of "portal_at linked_store", OF _ a] by auto
qed

theorem logout_unaudited_witness:
  "\<exists>p'. handleLogout sample_env (sample_request ''POST'' []) (Some ''tok'') (portal_at desk_store) = (Enters (ClearSessionCookie (en_secure sample_env)) [], p') \<and>
     fst (Authenticate (Some ''tok'') (sv_store (po_server p'))) = Inl ErrSessionExpired \<and> audits (sv_store (po_server p')) = audits desk_store"
  using logout_unaudited [of "portal_at desk_store" "sample_request ''POST'' []" "''tok''" sample_env] by (simp add: sample_request_def)

theorem revocation_undone_witness:
  "\<exists>sv1 m1 p2. respondPanelAccess (nothing_posted\<lparr>po_allowed := Some False\<rparr>) ann 2 (panel linked_store) = (PanelIs False, sv1) \<and>
     admin_by_id 2 (sv_store sv1) = Some m1 \<and>
     handlePanelAccess (sample_request ''POST'' []) (toStorageAdmin m1) ((portal_at linked_store)\<lparr>po_server := sv1\<rparr>) = (Granted True, p2)"
proof -
  have s: "setting_at SettingPanelByRequest ''false'' linked_store \<noteq> ''true''" by code_simp
  have m: "admin_by_id 2 linked_store = Some ((sample_admin 2 ''ann'' ''admin'')\<lparr>adm_account_subject := Some ''7'', adm_account_name := ''ann'', adm_panel_access := 1\<rparr>)"
    by (simp add: admin_by_id_def linked_store_def sample_admin_def)
  show ?thesis
    using revocation_undone [of "portal_at linked_store" 2 "(sample_admin 2 ''ann'' ''admin'')\<lparr>adm_account_subject := Some ''7'', adm_account_name := ''ann'', adm_panel_access := 1\<rparr>"
        "nothing_posted\<lparr>po_allowed := Some False\<rparr>" "sample_request ''POST'' []" ann] s m
    by (auto simp: sample_request_def sample_admin_def RoleOwner_def)
qed

theorem password_needs_old_witness:
  "fst (handleChangePassword sample_provider sample_env (sample_request ''POST'' []) (Some (''secret'', ''fresh'')) ann (portal_at linked_store)) = Finished \<and>
     (\<exists>name sess. pv_password sample_provider name ''secret'' = Inr sess)"
proof -
  have f: "fst (handleChangePassword sample_provider sample_env (sample_request ''POST'' []) (Some (''secret'', ''fresh'')) ann (portal_at linked_store)) = Finished"
    by code_simp
  have "\<not> 8 \<le> length ''fresh''" by simp
  then have "\<exists>name sess. pv_password sample_provider name ''secret'' = Inr sess"
    using password_needs_old [OF _ f] by (metis panel_simps(1) portal_at_simps(1) linked_store_simps(1))
  then show ?thesis using f by blast
qed

theorem account_desk_keeps_invariant_witness:
  "wf_store (sv_store (po_server (snd (handlePanelAccess (sample_request ''POST'' []) ann (portal_at desk_store)))))"
  by (rule account_desk_keeps_invariant [where rq = "sample_request ''POST'' []" and admin = ann and P = sample_provider and E = sample_env]) auto

end
