(* ===== verification/StatsView.thy ===== *)
theory StatsView
  imports OwnerDesk "HOL-Library.Signed_Division"
begin

text \<open>
  The traffic dashboard: \<^verbatim>\<open>internal/statsview/statsview.go\<close> and the handlers over it,
  \<^verbatim>\<open>internal/handlers/admin/stats.go\<close> and \<^verbatim>\<open>internal/handlers/owner/stats.go\<close>. A view is built for the owners
  whose nodes it may show; 0 owns the nodes of the panel itself. The aggregate is kept for five seconds in a map
  that all requests share. The 3x-ui servers and the source of live rates are parameters. A window is in seconds.
\<close>

record series_point =
  sp_Ts :: int
  sp_RxBytes :: u64
  sp_TxBytes :: u64

record node_stat =
  ns_ID :: string
  ns_Name :: string
  ns_Status :: string
  ns_LastSeen :: int
  ns_PeerCount :: u32
  ns_ActiveSessions :: u32
  ns_ActiveStreams :: u32
  ns_RxBytes :: u64
  ns_TxBytes :: u64

record stat_totals =
  st_Nodes :: int
  st_NodesOnline :: int
  st_PeerCount :: u32
  st_ActiveSessions :: u32
  st_ActiveStreams :: u32
  st_RxBytes :: u64
  st_TxBytes :: u64
  st_1h :: "u64 \<times> u64"
  st_24h :: "u64 \<times> u64"
  st_7d :: "u64 \<times> u64"
  st_All :: "u64 \<times> u64"
  st_Cur :: "u64 \<times> u64"

record traffic_view =
  tv_Mode :: string
  tv_GeneratedAt :: int
  tv_Range :: string
  tv_Totals :: stat_totals
  tv_Nodes :: "node_stat list"
  tv_Series :: "series_point list"

record flow_view =
  fv_NodeID :: string
  fv_SessionID :: string
  fv_StreamID :: u32
  fv_ClientIP :: string
  fv_Remote :: string
  fv_Protocol :: string
  fv_Version :: u32
  fv_RxBytes :: u64
  fv_TxBytes :: u64
  fv_RxRate :: u64
  fv_TxRate :: u64
  fv_Started :: int

record conn_view =
  nv_NodeID :: string
  nv_SessionID :: string
  nv_StreamID :: u32
  nv_ClientIP :: string
  nv_Remote :: string
  nv_Protocol :: string
  nv_RxBytes :: u64
  nv_TxBytes :: u64
  nv_FirstSeen :: int
  nv_LastSeen :: int

subsection \<open>Windows\<close>

definition trafficCacheTTL :: int where "trafficCacheTTL = 5 * 1000"

text \<open>The window of a range and the width of its buckets.\<close>

definition trafficRanges :: "string \<rightharpoonup> int \<times> int" where
  "trafficRanges = map_of [(''24h'', (24 * 3600, 60)), (''7d'', (7 * 24 * 3600, 3600)),
     (''month'', (30 * 24 * 3600, 6 * 3600))]"

definition ResolveRange :: "string \<Rightarrow> string" where
  "ResolveRange key = (if trafficRanges key \<noteq> None then key else ''24h'')"

definition sampleBuckets :: "string \<rightharpoonup> int" where
  "sampleBuckets = map_of [(''1m'', 60), (''15m'', 15 * 60), (''30m'', 30 * 60), (''1h'', 3600)]"

definition resolveSampleSec :: "string \<Rightarrow> int \<Rightarrow> int" where
  "resolveSampleSec key dflt = (case sampleBuckets key of Some sec \<Rightarrow> sec | None \<Rightarrow> dflt)"

definition flowHistoryWindows :: "string \<rightharpoonup> int" where
  "flowHistoryWindows = map_of [(''15m'', 15 * 60), (''30m'', 30 * 60), (''1h'', 3600)]"

subsection \<open>Aggregation\<close>

text \<open>A map of Go with a value per key, as the association list of its keys in order of insertion.\<close>

fun bump :: "int \<Rightarrow> u64 \<times> u64 \<Rightarrow> (int \<times> u64 \<times> u64) list \<Rightarrow> (int \<times> u64 \<times> u64) list" where
  "bump k d [] = [(k, d)]"
| "bump k d ((k', a) # rest) =
     (if k' = k then (k', fst a + fst d, snd a + snd d) # rest else (k', a) # bump k d rest)"

record series_acc =
  sa_prev :: "(string \<times> u64 \<times> u64) option"
  sa_buckets :: "(int \<times> u64 \<times> u64) list"
  sa_total :: "u64 \<times> u64"

definition bucket_of :: "int \<Rightarrow> sample_row \<Rightarrow> int" where
  "bucket_of bucketSec s = ts_ts s - ts_ts s smod bucketSec"

definition series_step :: "int \<Rightarrow> sample_row \<Rightarrow> series_acc \<Rightarrow> series_acc" where
  "series_step bucketSec s acc =
     (let here = (ts_node_id s, ts_rx_bytes s, ts_tx_bytes s) in
      case sa_prev acc of
        None \<Rightarrow> acc\<lparr>sa_prev := Some here\<rparr>
      | Some (prevNode, prevRx, prevTx) \<Rightarrow>
          if ts_node_id s \<noteq> prevNode then acc\<lparr>sa_prev := Some here\<rparr>
          else let drx = (if ts_rx_bytes s \<ge> prevRx then ts_rx_bytes s - prevRx else 0);
                   dtx = (if ts_tx_bytes s \<ge> prevTx then ts_tx_bytes s - prevTx else 0) in
            \<lparr>sa_prev = Some (prevNode, ts_rx_bytes s, ts_tx_bytes s),
             sa_buckets = bump (bucket_of bucketSec s) (drx, dtx) (sa_buckets acc),
             sa_total = (fst (sa_total acc) + drx, snd (sa_total acc) + dtx)\<rparr>)"

definition aggregateTrafficSeries :: "sample_row list \<Rightarrow> int \<Rightarrow> series_point list \<times> u64 \<times> u64" where
  "aggregateTrafficSeries smps bucketSec =
     (let acc = fold (series_step bucketSec) smps \<lparr>sa_prev = None, sa_buckets = [], sa_total = (0, 0)\<rparr> in
      (map (\<lambda>(k, rx, tx). \<lparr>sp_Ts = k, sp_RxBytes = rx, sp_TxBytes = tx\<rparr>) (sort_key fst (sa_buckets acc)), sa_total acc))"

definition sinceCutoff :: "sample_row list \<Rightarrow> int \<Rightarrow> sample_row list" where
  "sinceCutoff smps cutoff = filter (\<lambda>s. ts_ts s \<ge> cutoff) smps"

text \<open>The two maps of \<^verbatim>\<open>currentRates\<close>: the last sample of a node and the one before it.\<close>

definition rate_maps :: "sample_row list \<Rightarrow> (string \<rightharpoonup> sample_row) \<times> (string \<rightharpoonup> sample_row)" where
  "rate_maps smps = fold (\<lambda>s (prev, cur).
     (case cur (ts_node_id s) of None \<Rightarrow> prev | Some c \<Rightarrow> prev(ts_node_id s \<mapsto> c), cur(ts_node_id s \<mapsto> s)))
     smps (Map.empty, Map.empty)"

definition staleWindow :: int where "staleWindow = 120"

definition node_rate :: "(sample_row \<Rightarrow> u64) \<Rightarrow> sample_row option \<Rightarrow> sample_row option \<Rightarrow> u64" where
  "node_rate f prev cur = (case (prev, cur) of
     (Some p, Some c) \<Rightarrow>
       let dt = ts_ts c - ts_ts p in
       if dt \<le> 0 \<or> dt > staleWindow then 0 else if f c \<ge> f p then (f c - f p) div word_of_int dt else 0
   | _ \<Rightarrow> 0)"

definition currentRates :: "sample_row list \<Rightarrow> u64 \<times> u64" where
  "currentRates smps = (case rate_maps smps of (prev, cur) \<Rightarrow>
     let ids = remdups (map ts_node_id smps) in
     (sum_list (map (\<lambda>i. node_rate ts_rx_bytes (prev i) (cur i)) ids),
      sum_list (map (\<lambda>i. node_rate ts_tx_bytes (prev i) (cur i)) ids)))"

subsection \<open>Traffic\<close>

definition node_stat_of :: "node_row \<Rightarrow> sample_row option \<Rightarrow> node_stat" where
  "node_stat_of n latest = (let base = \<lparr>ns_ID = nd_id n, ns_Name = nd_name n, ns_Status = nd_status n,
       ns_LastSeen = nd_last_seen_at n, ns_PeerCount = 0, ns_ActiveSessions = 0, ns_ActiveStreams = 0,
       ns_RxBytes = 0, ns_TxBytes = 0\<rparr> in
     case latest of None \<Rightarrow> base | Some s \<Rightarrow> base\<lparr>ns_PeerCount := ts_peer_count s,
       ns_ActiveSessions := ts_active_sessions s, ns_ActiveStreams := ts_active_streams s,
       ns_RxBytes := ts_rx_bytes s, ns_TxBytes := ts_tx_bytes s\<rparr>)"

definition add_node :: "node_stat \<Rightarrow> stat_totals \<Rightarrow> stat_totals" where
  "add_node n t = t\<lparr>st_NodesOnline := st_NodesOnline t + (if ns_Status n = ''online'' then 1 else 0),
     st_PeerCount := st_PeerCount t + ns_PeerCount n, st_ActiveSessions := st_ActiveSessions t + ns_ActiveSessions n,
     st_ActiveStreams := st_ActiveStreams t + ns_ActiveStreams n, st_RxBytes := st_RxBytes t + ns_RxBytes n,
     st_TxBytes := st_TxBytes t + ns_TxBytes n\<rparr>"

fun node_stats :: "node_row list \<Rightarrow> node_stat list db" where
  "node_stats [] = ret []"
| "node_stats (n # ns) = bindE (attempt (LatestTrafficSample (nd_id n))) (\<lambda>r.
     bindE (node_stats ns) (\<lambda>rest.
     ret (node_stat_of n (case r of Inl _ \<Rightarrow> None | Inr s \<Rightarrow> Some s) # rest)))"

definition no_totals :: "nat \<Rightarrow> stat_totals" where
  "no_totals n = \<lparr>st_Nodes = int n, st_NodesOnline = 0, st_PeerCount = 0, st_ActiveSessions = 0, st_ActiveStreams = 0,
     st_RxBytes = 0, st_TxBytes = 0, st_1h = (0, 0), st_24h = (0, 0), st_7d = (0, 0), st_All = (0, 0), st_Cur = (0, 0)\<rparr>"

definition week :: int where "week = 7 * 24 * 3600"

definition buildTraffic :: "int \<Rightarrow> string \<Rightarrow> string \<Rightarrow> string \<Rightarrow> int list \<Rightarrow> traffic_view db" where
  "buildTraffic ownerAdminID rng sample nodeFilter extraOwners =
     (let (window, width) = (case trafficRanges rng of None \<Rightarrow> (0, 0) | Some rc \<Rightarrow> rc);
          bucketSec = resolveSampleSec sample width in
      bindE (attempt GetPanelMode) (\<lambda>m.
      bindE (ListServerNodesByOwners ServerNodeVKTurnProxy (ownerAdminID # extraOwners)) (\<lambda>listed.
      let shown = (if nodeFilter \<noteq> [] then filter (\<lambda>n. nd_id n = nodeFilter) listed else listed);
          ids = map nd_id shown in
      bindE (node_stats shown) (\<lambda>stats.
      bindE (asks now_unix) (\<lambda>t.
      bindE (ListTrafficSince (t - max window week)) (\<lambda>smps.
      let owned = filter (\<lambda>s. ts_node_id s \<in> set ids) smps in
      bindE (SumNodeTrafficTotals ids) (\<lambda>totals.
      ret \<lparr>tv_Mode = (case m of Inl _ \<Rightarrow> [] | Inr mode \<Rightarrow> mode), tv_GeneratedAt = t, tv_Range = rng,
           tv_Totals = (fold add_node stats (no_totals (length shown)))
             \<lparr>st_1h := snd (aggregateTrafficSeries (sinceCutoff owned (t - 3600)) width),
              st_24h := snd (aggregateTrafficSeries (sinceCutoff owned (t - 24 * 3600)) width),
              st_7d := snd (aggregateTrafficSeries (sinceCutoff owned (t - week)) width),
              st_All := totals, st_Cur := currentRates owned\<rparr>,
           tv_Nodes = stats,
           tv_Series = fst (aggregateTrafficSeries (sinceCutoff owned (t - window)) bucketSec)\<rparr>)))))))"

text \<open>The key of the cache, \<^verbatim>\<open>fmt.Sprintf("%d|%v|%s|%s|%s", ...)\<close>\<close>

definition show_owners :: "int list \<Rightarrow> string" where
  "show_owners xs = ''['' @ join_with '' '' (map itoa xs) @ '']''"

definition cache_key :: "int \<Rightarrow> int list \<Rightarrow> string \<Rightarrow> string \<Rightarrow> string \<Rightarrow> string" where
  "cache_key owner extra rng sample nodeFilter =
     itoa owner @ ''|'' @ show_owners extra @ ''|'' @ rng @ ''|'' @ sample @ ''|'' @ nodeFilter"

type_synonym traffic_cache = "string \<rightharpoonup> int \<times> traffic_view"

type_synonym live_rates = "(string list \<Rightarrow> u64 \<times> u64) option"

definition applyLiveRates :: "live_rates \<Rightarrow> traffic_view \<Rightarrow> traffic_view" where
  "applyLiveRates live out = (case live of
     None \<Rightarrow> out
   | Some rates \<Rightarrow> (case rates (map ns_ID (tv_Nodes out)) of (rx, tx) \<Rightarrow>
       if rx > 0 \<or> tx > 0 then out\<lparr>tv_Totals := (tv_Totals out)\<lparr>st_Cur := (rx, tx)\<rparr>\<rparr> else out))"

definition BuildTraffic :: "live_rates \<Rightarrow> int \<Rightarrow> string \<Rightarrow> string \<Rightarrow> string \<Rightarrow> int list \<Rightarrow>
    traffic_cache \<times> store \<Rightarrow> (error + traffic_view) \<times> traffic_cache \<times> store" where
  "BuildTraffic live ownerAdminID rkey sample nodeFilter extraOwners w =
     (case w of (cache, s) \<Rightarrow>
      let rng = ResolveRange rkey; key = cache_key ownerAdminID extraOwners rng sample nodeFilter; t = clock s in
      case (case cache key of Some (made, view) \<Rightarrow> if t - made < trafficCacheTTL then Some view else None | None \<Rightarrow> None) of
        Some view \<Rightarrow> (Inr (applyLiveRates live view), cache, s)
      | None \<Rightarrow> (case buildTraffic ownerAdminID rng sample nodeFilter extraOwners s of
            (Inl e, s') \<Rightarrow> (Inl e, cache, s')
          | (Inr view, s') \<Rightarrow> (Inr (applyLiveRates live view), cache(key \<mapsto> (t, view)), s')))"

subsection \<open>Flows and connections\<close>

definition ownedNodeIDs :: "int \<Rightarrow> int list \<Rightarrow> string list db" where
  "ownedNodeIDs ownerAdminID extraOwners =
     bindE (ListServerNodesByOwners ServerNodeVKTurnProxy (ownerAdminID # extraOwners)) (\<lambda>ns. ret (map nd_id ns))"

definition filterNodeIDs :: "string list \<Rightarrow> string \<Rightarrow> string list" where
  "filterNodeIDs ids nodeFilter =
     (if nodeFilter = [] then ids else if nodeFilter \<in> set ids then [nodeFilter] else [])"

definition flow_of_row :: "flow_row \<Rightarrow> flow_view" where
  "flow_of_row f = \<lparr>fv_NodeID = fl_node_id f, fv_SessionID = fl_session_id f, fv_StreamID = fl_stream_id f,
     fv_ClientIP = fl_client_ip f, fv_Remote = fl_remote f, fv_Protocol = fl_protocol f, fv_Version = fl_version f,
     fv_RxBytes = fl_rx_bytes f, fv_TxBytes = fl_tx_bytes f, fv_RxRate = fl_rx_rate f, fv_TxRate = fl_tx_rate f,
     fv_Started = fl_started_unix f\<rparr>"

definition BuildFlows :: "int \<Rightarrow> string \<Rightarrow> int list \<Rightarrow> flow_view list db" where
  "BuildFlows ownerAdminID nodeFilter extraOwners =
     bindE (ownedNodeIDs ownerAdminID extraOwners) (\<lambda>ids.
     bindE (ListFlowsForNodes (filterNodeIDs ids nodeFilter)) (\<lambda>fs. ret (map flow_of_row fs)))"

definition past_flow :: "aggregated_flow \<Rightarrow> flow_view" where
  "past_flow r = \<lparr>fv_NodeID = af_node_id r, fv_SessionID = [], fv_StreamID = 0, fv_ClientIP = af_client_ip r,
     fv_Remote = af_remote r, fv_Protocol = af_protocol r, fv_Version = 0, fv_RxBytes = af_rx_bytes r,
     fv_TxBytes = af_tx_bytes r, fv_RxRate = 0, fv_TxRate = 0, fv_Started = 0\<rparr>"

definition BuildFlowHistory :: "int \<Rightarrow> string \<Rightarrow> int list \<Rightarrow> flow_view list db" where
  "BuildFlowHistory ownerAdminID wkey extraOwners =
     (let dur = (case flowHistoryWindows wkey of Some d \<Rightarrow> d | None \<Rightarrow> 3600) in
      bindE (ownedNodeIDs ownerAdminID extraOwners) (\<lambda>ids.
      bindE (asks now_unix) (\<lambda>t.
      bindE (AggregateConnectionsSince ids (t - dur)) (\<lambda>rows. ret (map past_flow rows)))))"

definition conn_of_row :: "connection_row \<Rightarrow> conn_view" where
  "conn_of_row c = \<lparr>nv_NodeID = cn_node_id c, nv_SessionID = cn_session_id c, nv_StreamID = cn_stream_id c,
     nv_ClientIP = cn_client_ip c, nv_Remote = cn_remote c, nv_Protocol = cn_protocol c, nv_RxBytes = cn_rx_bytes c,
     nv_TxBytes = cn_tx_bytes c, nv_FirstSeen = cn_first_seen c, nv_LastSeen = cn_last_seen c\<rparr>"

definition BuildConnections :: "int \<Rightarrow> int \<Rightarrow> int \<Rightarrow> string \<Rightarrow> int list \<Rightarrow> (conn_view list \<times> int) db" where
  "BuildConnections ownerAdminID limit offset nodeFilter extraOwners =
     bindE (ownedNodeIDs ownerAdminID extraOwners) (\<lambda>listed.
     let ids = filterNodeIDs listed nodeFilter in
     bindE (CountConnectionLogForNodes ids) (\<lambda>total.
     bindE (ListConnectionLogForNodes ids limit offset) (\<lambda>rows. ret (map conn_of_row rows, total))))"

definition ClientNames :: "int \<Rightarrow> int list \<Rightarrow> (string \<times> string) list db" where
  "ClientNames ownerAdminID extraOwners = bindE (ownedNodeIDs ownerAdminID extraOwners) ClientNamesByPeerIP"

subsection \<open>3x-ui servers\<close>

record inbound_summary =
  in_ID :: int
  in_Tag :: string
  in_Remark :: string
  in_Protocol :: string
  in_Port :: int

record xui_traffic =
  xt_InboundID :: int
  xt_Up :: int
  xt_Down :: int

text \<open>\<^verbatim>\<open>XuiFlowSource\<close>; \<^term>\<open>None\<close> is an error of the call.\<close>

record xui_source =
  ListInbounds :: "node_row \<Rightarrow> inbound_summary list option"
  ListOnlineClients :: "node_row \<Rightarrow> string list option"
  GetClientTraffic :: "node_row \<Rightarrow> string \<Rightarrow> xui_traffic option"

definition nonNegU64 :: "int \<Rightarrow> u64" where
  "nonNegU64 v = (if v < 0 then 0 else word_of_int v)"

definition no_inbound :: inbound_summary where
  "no_inbound = \<lparr>in_ID = 0, in_Tag = [], in_Remark = [], in_Protocol = [], in_Port = 0\<rparr>"

definition xray_flow :: "node_row \<Rightarrow> inbound_summary list \<Rightarrow> string \<Rightarrow> xui_traffic \<Rightarrow> flow_view" where
  "xray_flow node inbounds email t =
     (let inb = (case map_of (rev (map (\<lambda>i. (in_ID i, i)) inbounds)) (xt_InboundID t) of Some i \<Rightarrow> i | None \<Rightarrow> no_inbound);
          r1 = in_Tag inb; r2 = (if r1 = [] then in_Remark inb else r1); r3 = (if r2 = [] then ''inbound'' else r2) in
      \<lparr>fv_NodeID = nd_id node, fv_SessionID = [], fv_StreamID = 0, fv_ClientIP = email, fv_Remote = r3,
       fv_Protocol = in_Protocol inb, fv_Version = 0, fv_RxBytes = nonNegU64 (xt_Down t), fv_TxBytes = nonNegU64 (xt_Up t),
       fv_RxRate = 0, fv_TxRate = 0, fv_Started = 0\<rparr>)"

definition BuildXrayFlows :: "xui_source \<Rightarrow> node_row \<Rightarrow> (flow_view list \<times> (string \<times> string) list) option" where
  "BuildXrayFlows xui node = (case ListInbounds xui node of
     None \<Rightarrow> None
   | Some inbounds \<Rightarrow> (case ListOnlineClients xui node of
       None \<Rightarrow> None
     | Some emails \<Rightarrow>
         let seen = concat (map (\<lambda>e. case GetClientTraffic xui node e of None \<Rightarrow> [] | Some t \<Rightarrow> [(e, t)]) emails) in
         Some (map (\<lambda>(e, t). xray_flow node inbounds e t) seen, map (\<lambda>(e, t). (e, e)) seen)))"

subsection \<open>Handlers\<close>

record stats_query =
  sq_method :: string
  sq_range :: string
  sq_sample :: string
  sq_node :: string
  sq_window :: string
  sq_limit :: string
  sq_offset :: string

datatype stats_answer =
    StatsRefused nat
  | TrafficAnswer traffic_view
  | FlowsAnswer "flow_view list" "(string \<times> string) list option"
  | ConnectionsAnswer "conn_view list" int int int

type_synonym board = "traffic_cache \<times> store \<Rightarrow> stats_answer \<times> traffic_cache \<times> store"

definition refuse :: "nat \<Rightarrow> board" where "refuse code w = (StatsRefused code, w)"

definition viewB :: "'a db \<Rightarrow> (error + 'a \<Rightarrow> board) \<Rightarrow> board" where
  "viewB m k w = (case w of (cache, s) \<Rightarrow> (case m s of (r, s') \<Rightarrow> k r (cache, s')))"

definition orRefuse :: "nat \<Rightarrow> 'a db \<Rightarrow> ('a \<Rightarrow> board) \<Rightarrow> board" where
  "orRefuse code m k = viewB m (\<lambda>r. case r of Inl _ \<Rightarrow> refuse code | Inr x \<Rightarrow> k x)"

definition getting :: "stats_query \<Rightarrow> board \<Rightarrow> board" where
  "getting q m = (if sq_method q \<noteq> ''GET'' then refuse 405 else m)"

definition localExtra :: "admin \<Rightarrow> int list" where
  "localExtra adm = (if IsOwner adm then [0] else [])"

definition localNodeOwnerID :: int where "localNodeOwnerID = 0"

definition parseLimit :: "string \<Rightarrow> int" where
  "parseLimit v = (case atoi_query v of Some n \<Rightarrow> if n > 0 \<and> n \<le> 1000 then n else 100 | None \<Rightarrow> 100)"

definition parseOffset :: "string \<Rightarrow> int" where
  "parseOffset v = (case atoi_query v of Some n \<Rightarrow> if n > 0 then n else 0 | None \<Rightarrow> 0)"

text \<open>The two files differ only in whose nodes they show.\<close>

definition traffic_for :: "live_rates \<Rightarrow> int \<Rightarrow> int list \<Rightarrow> stats_query \<Rightarrow> board" where
  "traffic_for live owner extra q = getting q (\<lambda>w.
     case BuildTraffic live owner (sq_range q) (sq_sample q) (sq_node q) extra w of
       (Inl _, w') \<Rightarrow> (StatsRefused 500, w')
     | (Inr view, w') \<Rightarrow> (TrafficAnswer view, w'))"

definition with_names :: "int \<Rightarrow> int list \<Rightarrow> flow_view list \<Rightarrow> board" where
  "with_names owner extra fs = viewB (ClientNames owner extra) (\<lambda>r w.
     (FlowsAnswer fs (case r of Inl _ \<Rightarrow> None | Inr names \<Rightarrow> Some names), w))"

definition flows_for :: "int \<Rightarrow> int list \<Rightarrow> stats_query \<Rightarrow> board" where
  "flows_for owner extra q = getting q (orRefuse 500 (BuildFlows owner (sq_node q) extra) (with_names owner extra))"

definition history_for :: "int \<Rightarrow> int list \<Rightarrow> stats_query \<Rightarrow> board" where
  "history_for owner extra q = getting q (orRefuse 500 (BuildFlowHistory owner (sq_window q) extra) (with_names owner extra))"

definition connections_for :: "int \<Rightarrow> int list \<Rightarrow> stats_query \<Rightarrow> board" where
  "connections_for owner extra q = getting q (
     let limit = parseLimit (sq_limit q); offset = parseOffset (sq_offset q) in
     orRefuse 500 (BuildConnections owner limit offset (sq_node q) extra) (\<lambda>(conns, total) w.
     (ConnectionsAnswer conns total limit offset, w)))"

definition xray_flows_for :: "xui_source \<Rightarrow> (node_row \<Rightarrow> bool) \<Rightarrow> stats_query \<Rightarrow> board" where
  "xray_flows_for xui mayRead q = getting q (orRefuse 404 (GetServerNode (trim_space (sq_node q))) (\<lambda>node.
     if nd_kind node = ServerNodeXUI \<and> mayRead node
     then (case BuildXrayFlows xui node of
             None \<Rightarrow> refuse 500 | Some (fs, names) \<Rightarrow> (\<lambda>w. (FlowsAnswer fs (Some names), w)))
     else refuse 404))"

definition handleStatsTraffic :: "live_rates \<Rightarrow> stats_query \<Rightarrow> admin \<Rightarrow> board" where
  "handleStatsTraffic live q adm = traffic_for live (a_id adm) (localExtra adm) q"

definition handleStatsFlows :: "stats_query \<Rightarrow> admin \<Rightarrow> board" where
  "handleStatsFlows q adm = flows_for (a_id adm) (localExtra adm) q"

definition handleStatsFlowHistory :: "stats_query \<Rightarrow> admin \<Rightarrow> board" where
  "handleStatsFlowHistory q adm = history_for (a_id adm) (localExtra adm) q"

definition handleStatsConnections :: "stats_query \<Rightarrow> admin \<Rightarrow> board" where
  "handleStatsConnections q adm = connections_for (a_id adm) (localExtra adm) q"

definition handleStatsXrayFlows :: "xui_source \<Rightarrow> stats_query \<Rightarrow> admin \<Rightarrow> board" where
  "handleStatsXrayFlows xui q adm =
     xray_flows_for xui (\<lambda>n. nd_owner n = a_id adm \<or> IsOwner adm \<and> nd_owner n = 0) q"

definition ownerStatsTraffic :: "live_rates \<Rightarrow> stats_query \<Rightarrow> board" where
  "ownerStatsTraffic live q = traffic_for live localNodeOwnerID [] q"

definition ownerStatsFlows :: "stats_query \<Rightarrow> board" where
  "ownerStatsFlows q = flows_for localNodeOwnerID [] q"

definition ownerStatsFlowHistory :: "stats_query \<Rightarrow> board" where
  "ownerStatsFlowHistory q = history_for localNodeOwnerID [] q"

definition ownerStatsConnections :: "stats_query \<Rightarrow> board" where
  "ownerStatsConnections q = connections_for localNodeOwnerID [] q"

definition ownerStatsXrayFlows :: "xui_source \<Rightarrow> stats_query \<Rightarrow> board" where
  "ownerStatsXrayFlows xui q = xray_flows_for xui (\<lambda>n. nd_owner n = localNodeOwnerID) q"

subsection \<open>The series against a reference\<close>

text \<open>The growths between consecutive smps of a node, each with the sample it ends at.\<close>

fun steps :: "(sample_row \<Rightarrow> u64) \<Rightarrow> sample_row list \<Rightarrow> (sample_row \<times> u64) list" where
  "steps f (a # b # rest) =
     (if ts_node_id b = ts_node_id a then [(b, gain (f a) (f b))] else []) @ steps f (b # rest)"
| "steps f _ = []"

definition growth_of :: "(sample_row \<Rightarrow> u64) \<Rightarrow> string \<Rightarrow> sample_row list \<Rightarrow> u64" where
  "growth_of f n smps = (case map f (filter (\<lambda>s. ts_node_id s = n) smps) of
     [] \<Rightarrow> 0 | r # rs \<Rightarrow> growth gain r rs)"

lemma bump_keys: "set (map fst (bump k d bs)) = insert k (set (map fst bs))"
  by (induction k d bs rule: bump.induct) auto

lemma bump_distinct: "distinct (map fst bs) \<Longrightarrow> distinct (map fst (bump k d bs))"
proof (induction k d bs rule: bump.induct)
  case (2 k d k' a rest)
  then show ?case using bump_keys [of k d rest] by (auto simp del: set_map)
qed simp

lemma bump_sum:
  "sum_list (map (\<lambda>b. fst (snd b)) (bump k d bs)) = fst d + sum_list (map (\<lambda>b. fst (snd b)) bs)"
  "sum_list (map (\<lambda>b. snd (snd b)) (bump k d bs)) = snd d + sum_list (map (\<lambda>b. snd (snd b)) bs)"
  by (induction k d bs rule: bump.induct) (auto simp: algebra_simps split: prod.splits)

lemma fold_series:
  assumes "sa_prev acc = Some (ts_node_id a, ts_rx_bytes a, ts_tx_bytes a)"
  shows "let out = fold (series_step w) smps acc in
     sa_total out = (fst (sa_total acc) + sum_list (map snd (steps ts_rx_bytes (a # smps))),
                     snd (sa_total acc) + sum_list (map snd (steps ts_tx_bytes (a # smps)))) \<and>
     (distinct (map fst (sa_buckets acc)) \<longrightarrow> distinct (map fst (sa_buckets out))) \<and>
     fst ` set (sa_buckets out) = fst ` set (sa_buckets acc) \<union> (bucket_of w \<circ> fst) ` set (steps ts_rx_bytes (a # smps)) \<and>
     sum_list (map (\<lambda>b. fst (snd b)) (sa_buckets out)) =
       sum_list (map (\<lambda>b. fst (snd b)) (sa_buckets acc)) + sum_list (map snd (steps ts_rx_bytes (a # smps))) \<and>
     sum_list (map (\<lambda>b. snd (snd b)) (sa_buckets out)) =
       sum_list (map (\<lambda>b. snd (snd b)) (sa_buckets acc)) + sum_list (map snd (steps ts_tx_bytes (a # smps)))"
  using assms
proof (induction smps arbitrary: a acc)
  case Nil
  then show ?case by (simp add: Let_def)
next
  case (Cons b rest)
  let ?acc = "series_step w b acc"
  have p: "sa_prev ?acc = Some (ts_node_id b, ts_rx_bytes b, ts_tx_bytes b)"
    using Cons.prems by (auto simp: series_step_def Let_def)
  show ?case
  proof (cases "ts_node_id b = ts_node_id a")
    case True
    then have e: "sa_buckets ?acc = bump (bucket_of w b) (gain (ts_rx_bytes a) (ts_rx_bytes b), gain (ts_tx_bytes a) (ts_tx_bytes b)) (sa_buckets acc)"
      "sa_total ?acc = (fst (sa_total acc) + gain (ts_rx_bytes a) (ts_rx_bytes b), snd (sa_total acc) + gain (ts_tx_bytes a) (ts_tx_bytes b))"
      using Cons.prems by (simp_all add: series_step_def gain_def Let_def)
    show ?thesis
      using Cons.IH [OF p] True bump_keys bump_distinct
      by (simp add: Let_def e bump_sum add.assoc add.left_commute)
  next
    case False
    then have e: "sa_buckets ?acc = sa_buckets acc" "sa_total ?acc = sa_total acc"
      using Cons.prems by (simp_all add: series_step_def Let_def)
    show ?thesis using Cons.IH [OF p] False by (simp add: Let_def e)
  qed
qed

lemma growth_of_head: "growth_of f (ts_node_id a) (a # smps) = growth gain (f a) (map f (filter (\<lambda>s. ts_node_id s = ts_node_id a) smps))"
  by (simp add: growth_of_def)

lemma growth_of_skip: "ts_node_id a \<noteq> n \<Longrightarrow> growth_of f n (a # smps) = growth_of f n smps"
  by (simp add: growth_of_def)

lemma growth_of_next:
  "ts_node_id b = ts_node_id a \<Longrightarrow> growth_of f (ts_node_id a) (a # b # smps) = gain (f a) (f b) + growth_of f (ts_node_id a) (b # smps)"
  using growth_of_head [of f b smps] by (simp add: growth_of_def)

lemma growth_of_last: "ts_node_id a \<notin> ts_node_id ` set smps \<Longrightarrow> growth_of f (ts_node_id a) (a # smps) = 0"
proof -
  assume "ts_node_id a \<notin> ts_node_id ` set smps"
  then have "filter (\<lambda>s. ts_node_id s = ts_node_id a) smps = []" by (auto simp: filter_empty_conv image_iff)
  then show ?thesis by (simp add: growth_of_head)
qed

lemma growth_steps:
  "sorted (map ts_node_id smps) \<Longrightarrow> sum_list (map snd (steps f smps)) = (\<Sum>n \<in> ts_node_id ` set smps. growth_of f n smps)"
proof (induction f smps rule: steps.induct)
  case (1 f a b rest)
  let ?N = "ts_node_id ` set (b # rest)"
  have IH: "sum_list (map snd (steps f (b # rest))) = (\<Sum>n \<in> ?N. growth_of f n (b # rest))" using 1 by simp
  show ?case
  proof (cases "ts_node_id b = ts_node_id a")
    case True
    then have N: "ts_node_id ` set (a # b # rest) = ?N" "ts_node_id a \<in> ?N" by auto
    have "(\<Sum>n \<in> ?N. growth_of f n (a # b # rest)) = growth_of f (ts_node_id a) (a # b # rest) + (\<Sum>n \<in> ?N - {ts_node_id a}. growth_of f n (a # b # rest))"
      by (rule sum.remove [OF _ N(2)]) simp
    also have "\<dots> = gain (f a) (f b) + growth_of f (ts_node_id a) (b # rest) + (\<Sum>n \<in> ?N - {ts_node_id a}. growth_of f n (b # rest))"
      unfolding growth_of_next [OF True]
      by (intro arg_cong2 [of _ _ _ _ "(+)"] sum.cong refl) (auto simp: growth_of_skip)
    also have "\<dots> = gain (f a) (f b) + (\<Sum>n \<in> ?N. growth_of f n (b # rest))"
      using sum.remove [OF _ N(2), of "\<lambda>n. growth_of f n (b # rest)"] by (simp add: add.assoc)
    finally show ?thesis using IH True N(1) by simp
  next
    case False
    have new: "ts_node_id a \<notin> ?N"
    proof
      assume "ts_node_id a \<in> ?N"
      then have "ts_node_id b \<le> ts_node_id a" using "1.prems" by auto
      then show False using "1.prems" False by simp
    qed
    have "(\<Sum>n \<in> ts_node_id ` set (a # b # rest). growth_of f n (a # b # rest)) =
        growth_of f (ts_node_id a) (a # b # rest) + (\<Sum>n \<in> ?N. growth_of f n (a # b # rest))"
      using new by simp
    also have "(\<Sum>n \<in> ?N. growth_of f n (a # b # rest)) = (\<Sum>n \<in> ?N. growth_of f n (b # rest))"
      by (intro sum.cong refl growth_of_skip) (use new in blast)
    finally show ?thesis using IH False growth_of_last [OF new] by simp
  qed
qed (simp_all add: growth_of_def)

lemma sum_list_sort_key: "sum_list (map g (sort_key f xs)) = (sum_list (map g xs) :: u64)"
  by (metis mset_map mset_sort sum_mset_sum_list)

lemma growth_monotone:
  assumes "sorted (map f (filter (\<lambda>s. ts_node_id s = n) smps))" "map f (filter (\<lambda>s. ts_node_id s = n) smps) = r # rs"
  shows "growth_of f n smps = last (r # rs) - r"
proof -
  have "sorted (r # rs) \<Longrightarrow> growth gain r rs = last (r # rs) - r" for r :: u64 and rs
    by (induction rs arbitrary: r) (auto simp: gain_def)
  then show ?thesis using assms by (simp add: growth_of_def)
qed

text \<open>C38: The chart and the totals against the readings of each node. Of samples in the order the database returns them,
  the points are in strictly rising time and stand exactly at the buckets in which a node moved on; they add up to the
  totals; and a total is the sum over the nodes of the growth of their counters, a restart adding nothing: where no
  counter restarts, of the last reading less the first.\<close>

theorem series_totals:
  assumes "sorted (map ts_node_id smps)"
  shows "case aggregateTrafficSeries smps w of (pts, rx, tx) \<Rightarrow>
    sorted_wrt (<) (map sp_Ts pts) \<and> sp_Ts ` set pts = (bucket_of w \<circ> fst) ` set (steps ts_rx_bytes smps) \<and>
    rx = sum_list (map sp_RxBytes pts) \<and> tx = sum_list (map sp_TxBytes pts) \<and>
    rx = (\<Sum>n \<in> ts_node_id ` set smps. growth_of ts_rx_bytes n smps) \<and>
    tx = (\<Sum>n \<in> ts_node_id ` set smps. growth_of ts_tx_bytes n smps)"
proof (cases smps)
  case Nil
  then show ?thesis by (simp add: aggregateTrafficSeries_def)
next
  case (Cons a rest)
  let ?start = "\<lparr>sa_prev = Some (ts_node_id a, ts_rx_bytes a, ts_tx_bytes a), sa_buckets = [], sa_total = (0, 0)\<rparr>"
  let ?out = "fold (series_step w) rest ?start"
  have out: "aggregateTrafficSeries smps w =
      (map (\<lambda>(k, rx, tx). \<lparr>sp_Ts = k, sp_RxBytes = rx, sp_TxBytes = tx\<rparr>) (sort_key fst (sa_buckets ?out)), sa_total ?out)"
    by (simp add: Cons aggregateTrafficSeries_def series_step_def Let_def)
  have total: "sa_total ?out = (sum_list (map snd (steps ts_rx_bytes smps)), sum_list (map snd (steps ts_tx_bytes smps)))"
    and dist: "distinct (map fst (sa_buckets ?out))"
    and stand: "fst ` set (sa_buckets ?out) = (bucket_of w \<circ> fst) ` set (steps ts_rx_bytes smps)"
    and sums: "sum_list (map (\<lambda>b. fst (snd b)) (sa_buckets ?out)) = sum_list (map snd (steps ts_rx_bytes smps))"
      "sum_list (map (\<lambda>b. snd (snd b)) (sa_buckets ?out)) = sum_list (map snd (steps ts_tx_bytes smps))"
    using fold_series [of ?start a w rest] unfolding Cons by (simp_all only: Let_def series_acc.simps) simp_all
  let ?pts = "map (\<lambda>(k, rx, tx). \<lparr>sp_Ts = k, sp_RxBytes = rx, sp_TxBytes = tx\<rparr>) (sort_key fst (sa_buckets ?out))"
  have k: "map sp_Ts ?pts = map fst (sort_key fst (sa_buckets ?out))" by (simp add: case_prod_beta comp_def)
  have "distinct (map fst (sort_key fst (sa_buckets ?out)))"
    using dist by (simp add: distinct_map)
  then have rising: "sorted_wrt (<) (map sp_Ts ?pts)" unfolding k by (simp add: strict_sorted_iff del: sorted_map)
  have "set (map sp_Ts ?pts) = fst ` set (sa_buckets ?out)" unfolding k by simp
  then have places: "sp_Ts ` set ?pts = (bucket_of w \<circ> fst) ` set (steps ts_rx_bytes smps)"
    using stand by (simp only: set_map)
  have "sum_list (map snd (steps ts_rx_bytes smps)) = sum_list (map sp_RxBytes ?pts)"
    "sum_list (map snd (steps ts_tx_bytes smps)) = sum_list (map sp_TxBytes ?pts)"
    using sums by (simp_all add: case_prod_beta comp_def sum_list_sort_key)
  then show ?thesis
    unfolding out total prod.case
    using rising places growth_steps [OF assms, of ts_rx_bytes] growth_steps [OF assms, of ts_tx_bytes]
    by (intro conjI) assumption+
qed

subsection \<open>The cache\<close>

definition digits_value :: "string \<Rightarrow> nat" where
  "digits_value = foldl (\<lambda>v c. 10 * v + (of_char c - 48)) 0"

lemma nat_digits_facts: "digits_value (nat_digits n) = n" "c \<in> set (nat_digits n) \<Longrightarrow> 48 \<le> (of_char c :: nat) \<and> (of_char c :: nat) \<le> 57" "nat_digits n \<noteq> []"
proof (induction n rule: nat_digits.induct)
  case (1 n)
  { case 1 show ?case using "1.IH"(1) by (subst nat_digits.simps) (simp add: digits_value_def) }
  { case 2 then show ?case using "1.IH"(2) by (subst (asm) nat_digits.simps) (auto split: if_splits) }
  { case 3 show ?case by (subst nat_digits.simps) simp }
qed

lemma itoa_chars: "c \<in> set (itoa i) \<Longrightarrow> c \<noteq> CHR ''|'' \<and> c \<noteq> CHR '' ''" "itoa i \<noteq> []"
  using nat_digits_facts(2) [of "CHR ''|''"] nat_digits_facts(2) [of "CHR '' ''"] nat_digits_facts(3)
  by (auto simp: itoa_def split: if_splits)

lemma itoa_inj: "itoa i = itoa j \<longleftrightarrow> i = j"
proof
  have s: "nat_digits n \<noteq> CHR ''-'' # xs" for n xs using nat_digits_facts(2) [of "CHR ''-''" n] by auto
  have d: "nat_digits m = nat_digits n \<Longrightarrow> m = n" for m n by (metis nat_digits_facts(1))
  assume "itoa i = itoa j"
  then show "i = j" using s s [symmetric] by (auto simp: itoa_def split: if_splits dest!: d)
qed simp

lemma show_owners_inj: "show_owners xs = show_owners ys \<Longrightarrow> xs = ys"
proof -
  assume "show_owners xs = show_owners ys"
  then have j: "join_with '' '' (map itoa xs) = join_with '' '' (map itoa ys)" by (simp add: show_owners_def)
  have s: "zs \<noteq> [] \<Longrightarrow> split_on (CHR '' '') (join_with '' '' (map itoa zs)) = map itoa zs" for zs
    by (rule split_join) (use itoa_chars(1) in auto)
  have n: "zs \<noteq> [] \<Longrightarrow> join_with '' '' (map itoa zs) \<noteq> []" for zs
    by (cases zs rule: list.exhaust [case_names Nil Cons]; cases "tl zs") (auto simp: itoa_chars(2))
  have "map itoa xs = map itoa ys" using j s n by (metis join_with.simps(1) list.simps(8))
  then show ?thesis by (simp add: inj_map_eq_map inj_def itoa_inj)
qed

lemma show_owners_chars: "CHR ''|'' \<notin> set (show_owners xs)"
proof -
  have "set (join_with '' '' ws) \<subseteq> insert (CHR '' '') (\<Union> (set ` set ws))" for ws
    by (induction "'' ''" ws rule: join_with.induct) auto
  from this [of "map itoa xs"] show ?thesis using itoa_chars(1) by (auto simp: show_owners_def)
qed

lemma cut_at_bar:
  assumes "a @ CHR ''|'' # b = c @ CHR ''|'' # d" "CHR ''|'' \<notin> set a" "CHR ''|'' \<notin> set c"
  shows "a = c \<and> b = d"
proof -
  have "takeWhile (\<lambda>x. x \<noteq> CHR ''|'') (x @ CHR ''|'' # y) = x" if "CHR ''|'' \<notin> set x" for x y
    using that by (induction x) auto
  from this [OF assms(2), of b] this [OF assms(3), of d] show ?thesis using assms(1) by simp
qed

lemma cache_key_owners: "cache_key o1 x1 r1 s1 f1 = cache_key o2 x2 r2 s2 f2 \<Longrightarrow> o1 = o2 \<and> x1 = x2"
  unfolding cache_key_def append_Cons append_Nil
  using itoa_chars(1) itoa_inj show_owners_chars show_owners_inj by (metis cut_at_bar)

subsection \<open>What is shown\<close>

text \<open>A query that leaves the data alone and answers something of the data \<open>d\<close>.\<close>

definition gets :: "store \<Rightarrow> 'a db \<Rightarrow> ('a \<Rightarrow> bool) \<Rightarrow> bool" where
  "gets d m A \<longleftrightarrow> (\<forall>s. data s = d \<longrightarrow> data (snd (m s)) = d \<and> (\<forall>x. fst (m s) = Inr x \<longrightarrow> A x))"

lemma data_fields: "data s = d \<Longrightarrow> nodes s = nodes d" "data s = d \<Longrightarrow> flows s = flows d" "data s = d \<Longrightarrow> connections s = connections d"
  by (auto simp: data_def)

lemma getsD: "gets (data s) m A \<Longrightarrow> m s = (Inr x, s') \<Longrightarrow> A x"
  unfolding gets_def by (metis fst_conv)

lemma gets_stmt: "(\<And>s. data s = d \<Longrightarrow> snd (f s) = s \<and> (\<forall>x. fst (f s) = Inr x \<longrightarrow> A x)) \<Longrightarrow> gets d (stmt f) A"
  unfolding gets_def stmt_def by (simp split: list.split) (metis data_faults)

lemma gets_intros:
  "A x \<Longrightarrow> gets d (ret x) A" "gets d (fail e) A"
  "(\<And>s. data s = d \<Longrightarrow> A (f s)) \<Longrightarrow> gets d (select f) A"
  "(\<And>s. data s = d \<Longrightarrow> A (f s)) \<Longrightarrow> gets d (asks f) A"
  "(\<And>s x. data s = d \<Longrightarrow> g s = Some x \<Longrightarrow> A x) \<Longrightarrow> gets d (query_first g) A"
  "gets d m B \<Longrightarrow> (\<And>r. (\<And>x. r = Inr x \<Longrightarrow> B x) \<Longrightarrow> C r) \<Longrightarrow> gets d (attempt m) C"
  unfolding query_first_def select_def
  by (rule gets_stmt | auto simp: gets_def attempt_app split: option.splits; fail)+

lemma gets_bindE: "gets d m B \<Longrightarrow> (\<And>x. B x \<Longrightarrow> gets d (k x) A) \<Longrightarrow> gets d (bindE m k) A"
  unfolding gets_def bindE_def by (simp split: prod.split sum.split) (metis fst_conv snd_conv)

definition within_owners :: "store \<Rightarrow> int list \<Rightarrow> string \<Rightarrow> bool" where
  "within_owners d owners i \<longleftrightarrow> (\<exists>r \<in> set (nodes d). nd_id r = i \<and> nd_owner r \<in> set owners)"

lemma within_data [simp]: "within_owners (data s) = within_owners s"
  by (intro ext) (simp add: within_owners_def data_def)

lemma gets_find_row: "gets d (query_first g) A \<Longrightarrow> gets d (find_row g) A"
  unfolding gets_def find_row_def by (auto split: prod.splits sum.splits error.splits)

lemma gets_owned: "gets d (ListServerNodesByOwners kind owners) (\<lambda>ns. \<forall>n \<in> set ns. n \<in> set (nodes d) \<and> nd_owner n \<in> set owners)"
  unfolding ListServerNodesByOwners_def list_nodes_def by (auto intro!: gets_intros simp: data_def)

lemma gets_ids: "gets d (ownedNodeIDs owner extra) (\<lambda>ids. \<forall>i \<in> set ids. within_owners d (owner # extra) i)"
  unfolding ownedNodeIDs_def by (rule gets_bindE [OF gets_owned], rule gets_intros(1)) (auto simp: within_owners_def simp del: set_simps)

lemma gets_lists:
  "gets d (ListFlowsForNodes ids) (\<lambda>fs. fl_node_id ` set fs \<subseteq> set ids)"
  "gets d (AggregateConnectionsSince ids since) (\<lambda>fs. af_node_id ` set fs \<subseteq> set ids)"
  "gets d (CountConnectionLogForNodes ids) (\<lambda>_. True)"
  "gets d (ListConnectionLogForNodes ids limit offset) (\<lambda>cs. cn_node_id ` set cs \<subseteq> set ids)"
  unfolding ListFlowsForNodes_def AggregateConnectionsSince_def CountConnectionLogForNodes_def ListConnectionLogForNodes_def
    recent_connections_def
  by (auto intro!: gets_intros gets_stmt simp: Let_def path_of_def dest!: in_set_takeD in_set_dropD split: if_splits)

lemma filterNodeIDs_sub: "set (filterNodeIDs ids nf) \<subseteq> set ids"
  by (auto simp: filterNodeIDs_def)

lemma gets_BuildFlows: "gets d (BuildFlows owner nf extra) (\<lambda>fs. \<forall>f \<in> set fs. within_owners d (owner # extra) (fv_NodeID f))"
  unfolding BuildFlows_def
  by (rule gets_bindE [OF gets_ids], rule gets_bindE [OF gets_lists(1)], rule gets_intros)
     (use filterNodeIDs_sub in \<open>fastforce simp: flow_of_row_def\<close>)

lemma gets_BuildFlowHistory: "gets d (BuildFlowHistory owner wkey extra) (\<lambda>fs. \<forall>f \<in> set fs. within_owners d (owner # extra) (fv_NodeID f))"
  unfolding BuildFlowHistory_def Let_def
  by (rule gets_bindE [OF gets_ids], rule gets_bindE [where B = "\<lambda>_. True"], rule gets_intros, simp,
      rule gets_bindE [OF gets_lists(2)], rule gets_intros) (fastforce simp: past_flow_def)

lemma gets_BuildConnections: "gets d (BuildConnections owner limit offset nf extra)
    (\<lambda>(cs, total). \<forall>c \<in> set cs. within_owners d (owner # extra) (nv_NodeID c))"
  unfolding BuildConnections_def Let_def
  by (rule gets_bindE [OF gets_ids], rule gets_bindE [OF gets_lists(3)], rule gets_bindE [OF gets_lists(4)], rule gets_intros)
     (use filterNodeIDs_sub in \<open>fastforce simp: conn_of_row_def\<close>)

lemma gets_node_stats: "gets d (node_stats ns) (\<lambda>stats. map ns_ID stats = map nd_id ns)"
proof (induction ns)
  case Nil
  then show ?case unfolding node_stats.simps by (rule gets_intros(1)) simp
next
  case (Cons n ns)
  have l: "gets d (attempt (LatestTrafficSample (nd_id n))) (\<lambda>_. True)"
    unfolding LatestTrafficSample_def by (rule gets_intros(6), rule gets_find_row, rule gets_intros(5)) simp_all
  show ?case unfolding node_stats.simps
    by (rule gets_bindE [OF l], rule gets_bindE [OF Cons.IH], rule gets_intros(1))
       (simp add: node_stat_of_def Let_def split: sum.split)
qed

lemma gets_mode: "gets d (attempt GetPanelMode) (\<lambda>_. True)"
proof -
  have "gets d GetPanelMode (\<lambda>_. True)"
    unfolding GetPanelMode_def Let_def
    by (rule gets_bindE [where B = "\<lambda>_. True"], rule gets_intros(6), rule gets_intros(5))
       (auto intro!: gets_intros split: sum.split)
  then show ?thesis by (rule gets_intros(6)) simp
qed

lemma gets_rest: "gets d (asks now_unix) (\<lambda>_. True)" "gets d (ListTrafficSince x) (\<lambda>_. True)" "gets d (SumNodeTrafficTotals ids) (\<lambda>_. True)"
  unfolding ListTrafficSince_def SumNodeTrafficTotals_def by (auto intro!: gets_intros gets_stmt)

lemma shown_within:
  assumes "map ns_ID stats = map nd_id ns" "\<forall>n \<in> set ns. within_owners d owners (nd_id n)"
  shows "\<forall>n \<in> set stats. within_owners d owners (ns_ID n)"
proof
  fix n assume "n \<in> set stats"
  then have "ns_ID n \<in> set (map ns_ID stats)" by simp
  then show "within_owners d owners (ns_ID n)" unfolding assms(1) using assms(2) by auto
qed

lemma gets_buildTraffic: "gets d (buildTraffic owner rng smp nf extra) (\<lambda>v. \<forall>n \<in> set (tv_Nodes v). within_owners d (owner # extra) (ns_ID n))"
  unfolding buildTraffic_def Let_def case_prod_beta
  by (rule gets_bindE [OF gets_mode], rule gets_bindE [OF gets_owned], rule gets_bindE [OF gets_node_stats],
    rule gets_bindE [OF gets_rest(1)], rule gets_bindE [OF gets_rest(2)], rule gets_bindE [OF gets_rest(3)], rule gets_intros(1),
    unfold traffic_view.simps, erule shown_within) (auto simp: within_owners_def)

subsection \<open>Properties\<close>

fun answer_nodes :: "stats_answer \<Rightarrow> string set" where
  "answer_nodes (TrafficAnswer v) = ns_ID ` set (tv_Nodes v)"
| "answer_nodes (FlowsAnswer fs _) = fv_NodeID ` set fs"
| "answer_nodes (ConnectionsAnswer cs _ _ _) = nv_NodeID ` set cs"
| "answer_nodes (StatsRefused _) = {}"

text \<open>C32: Nobody sees the traffic of a node of somebody else. Whatever an administrator asks of the live flows, the flow
  history, the connection log or a 3x-ui server, and whatever the database refuses on the way, every row of the answer
  is of a node that they registered or, if they are an owner, of a node of the panel.\<close>

theorem stats_show_own_nodes:
  assumes "handler \<in> {handleStatsFlows q, handleStatsFlowHistory q, handleStatsConnections q, handleStatsXrayFlows xui q}"
    and "handler adm w = (ans, w')" "i \<in> answer_nodes ans"
  shows "\<exists>r \<in> set (nodes (snd w)). nd_id r = i \<and> (nd_owner r = a_id adm \<or> IsOwner adm \<and> nd_owner r = 0)"
proof -
  obtain cache s where w: "w = (cache, s)" by fastforce
  have own: "within_owners s (a_id adm # localExtra adm) i \<Longrightarrow> ?thesis"
    by (auto simp: within_owners_def localExtra_def w split: if_splits)
  note board = getting_def orRefuse_def viewB_def refuse_def with_names_def Let_def
  consider (flows) "handler = handleStatsFlows q" | (history) "handler = handleStatsFlowHistory q"
    | (conns) "handler = handleStatsConnections q" | (xray) "handler = handleStatsXrayFlows xui q"
    using assms(1) by blast
  then show ?thesis
  proof cases
    case flows
    then show ?thesis using assms(2,3) getsD [OF gets_BuildFlows, of "a_id adm" "sq_node q" "localExtra adm" s] own
      by (auto simp: handleStatsFlows_def flows_for_def board w split: if_splits prod.splits sum.splits)
  next
    case history
    then show ?thesis using assms(2,3) getsD [OF gets_BuildFlowHistory, of "a_id adm" "sq_window q" "localExtra adm" s] own
      by (auto simp: handleStatsFlowHistory_def history_for_def board w split: if_splits prod.splits sum.splits)
  next
    case conns
    then show ?thesis using assms(2,3) own
        getsD [OF gets_BuildConnections, of "a_id adm" "parseLimit (sq_limit q)" "parseOffset (sq_offset q)" "sq_node q" "localExtra adm" s]
      by (auto simp: handleStatsConnections_def connections_for_def board w split: if_splits prod.splits sum.splits)
  next
    case xray
    have g: "gets (data s) (GetServerNode i) (\<lambda>n. n \<in> set (nodes s))" for i
      unfolding GetServerNode_def node_by_id_def
      by (rule gets_find_row, rule gets_intros(5), drule data_fields(1)) (auto simp: find_Some_iff data_def)
    have b: "BuildXrayFlows xui n = Some (fs, names) \<Longrightarrow> \<forall>f \<in> set fs. fv_NodeID f = nd_id n" for n fs names
      by (auto simp: BuildXrayFlows_def xray_flow_def Let_def split: option.splits)
    show ?thesis using xray assms(2,3) getsD [OF g, of "trim_space (sq_node q)"]
      by (auto simp: handleStatsXrayFlows_def xray_flows_for_def board w dest!: b split: if_splits prod.splits sum.splits option.splits)
  qed
qed

definition view_step :: "live_rates \<Rightarrow> store \<times> int \<times> int list \<times> string \<times> string \<times> string \<Rightarrow> traffic_cache \<Rightarrow> traffic_cache" where
  "view_step live request cache = (case request of (s, owner, extra, rkey, smp, nf) \<Rightarrow>
     fst (snd (BuildTraffic live owner rkey smp nf extra (cache, s))))"

definition cache_ok :: "store set \<Rightarrow> traffic_cache \<Rightarrow> bool" where
  "cache_ok past cache \<longleftrightarrow> (\<forall>key made view. cache key = Some (made, view) \<longrightarrow>
     (\<exists>s \<in> past. \<exists>owner extra rng smp nf. key = cache_key owner extra rng smp nf \<and> made = clock s \<and>
        (\<forall>n \<in> set (tv_Nodes view). within_owners s (owner # extra) (ns_ID n))))"

lemma live_nodes [simp]: "tv_Nodes (applyLiveRates live v) = tv_Nodes v"
  by (simp add: applyLiveRates_def split: option.split prod.split)

lemma cache_okE:
  assumes "cache_ok past cache" "cache key = Some (made, view)"
  obtains s owner extra rng smp nf where "s \<in> past" "key = cache_key owner extra rng smp nf" "made = clock s"
    "\<forall>n \<in> set (tv_Nodes view). within_owners s (owner # extra) (ns_ID n)"
  using assms unfolding cache_ok_def by metis

lemma cache_ok_mono: "cache_ok past cache \<Longrightarrow> past \<subseteq> past' \<Longrightarrow> cache_ok past' cache"
  unfolding cache_ok_def by (meson subsetD)

lemma cache_ok_build:
  assumes "cache_ok past cache" "BuildTraffic live owner rkey smp nf extra (cache, s) = (r, cache', s')"
  shows "cache_ok (insert s past) cache'"
proof -
  have old: "cache_ok (insert s past) cache" using cache_ok_mono [OF assms(1)] by blast
  obtain b t where b: "buildTraffic owner (ResolveRange rkey) smp nf extra s = (b, t)" by fastforce
  have new: "cache_ok (insert s past) (cache(cache_key owner extra (ResolveRange rkey) smp nf \<mapsto> (clock s, v)))" if "b = Inr v" for v
    unfolding cache_ok_def
  proof (intro allI impI)
    fix key made view
    assume c: "(cache(cache_key owner extra (ResolveRange rkey) smp nf \<mapsto> (clock s, v))) key = Some (made, view)"
    show "\<exists>t \<in> insert s past. \<exists>owner extra rng smp nf. key = cache_key owner extra rng smp nf \<and> made = clock t \<and>
        (\<forall>n \<in> set (tv_Nodes view). within_owners t (owner # extra) (ns_ID n))"
    proof (cases "key = cache_key owner extra (ResolveRange rkey) smp nf")
      case True
      then show ?thesis using c getsD [OF gets_buildTraffic b [unfolded that]]
        by (intro bexI [of _ s], intro exI [of _ owner], intro exI [of _ extra], intro exI [of _ "ResolveRange rkey"] exI [of _ smp] exI [of _ nf])
           auto
    next
      case False
      then show ?thesis using c old unfolding cache_ok_def by simp
    qed
  qed
  show ?thesis
    using assms(2) old new
    by (auto simp: BuildTraffic_def Let_def b split: option.splits prod.splits sum.splits if_splits)
qed

lemma cache_ok_run: "cache_ok (fst ` set past) (fold (view_step live) past Map.empty)"
proof (induction past rule: rev_induct)
  case Nil
  then show ?case by (simp add: cache_ok_def)
next
  case (snoc e past)
  obtain s owner extra rkey smp nf where e: "e = (s, owner, extra, rkey, smp, nf)" by (metis prod_cases6)
  obtain r c' s' where "BuildTraffic live owner rkey smp nf extra (fold (view_step live) past Map.empty, s) = (r, c', s')"
    by (metis prod_cases3)
  then have b: "BuildTraffic live owner rkey smp nf extra (fold (view_step live) past Map.empty, s) = (r, c', s')" .
  have "fold (view_step live) (past @ [e]) Map.empty = c'" by (simp only: fold_append fold_simps comp_def e view_step_def prod.case b fst_conv snd_conv)
  then show ?case using cache_ok_build [OF snoc.IH b] by (simp add: e)
qed

text \<open>The cache never hands an aggregate to somebody else, nor an old one. After any requests of anybody, over whatever the
  database held then, a view that is answered lists only nodes that the asked owners owned at some moment less than five
  seconds ago, or own now.\<close>

theorem view_own_and_recent:
  assumes "BuildTraffic live owner rkey smp nf extra (fold (view_step live) past Map.empty, s) = (Inr view, w')"
  shows "\<exists>t \<in> insert s (fst ` set past). (t = s \<or> clock s < clock t + trafficCacheTTL) \<and>
    (\<forall>n \<in> set (tv_Nodes view). within_owners t (owner # extra) (ns_ID n))"
proof -
  let ?cache = "fold (view_step live) past Map.empty"
  let ?key = "cache_key owner extra (ResolveRange rkey) smp nf"
  show ?thesis
  proof (cases "\<exists>made v. ?cache ?key = Some (made, v) \<and> clock s - made < trafficCacheTTL")
    case True
    then obtain made v where c: "?cache ?key = Some (made, v)" "clock s - made < trafficCacheTTL" by blast
    obtain t o' x' r' p' f' where t: "t \<in> fst ` set past" "?key = cache_key o' x' r' p' f'" "made = clock t"
      "\<forall>n \<in> set (tv_Nodes v). within_owners t (o' # x') (ns_ID n)"
      by (rule cache_okE [OF cache_ok_run c(1)])
    have "view = applyLiveRates live v" using assms c by (simp add: BuildTraffic_def Let_def)
    then show ?thesis using t c(2) cache_key_owners [OF t(2)] by (intro bexI [of _ t]) auto
  next
    case False
    obtain b t where b: "buildTraffic owner (ResolveRange rkey) smp nf extra s = (b, t)" by fastforce
    have miss: "(case ?cache ?key of Some (made, view) \<Rightarrow> if clock s - made < trafficCacheTTL then Some view else None | None \<Rightarrow> None) = None"
      using False by (auto split: option.split)
    obtain v where "b = Inr v" "view = applyLiveRates live v"
      using assms unfolding BuildTraffic_def Let_def prod.case miss option.case b
      by (cases b) (simp_all only: prod.case sum.case prod.inject sum.inject sum.distinct simp_thms)
    then show ?thesis using getsD [OF gets_buildTraffic b [unfolded \<open>b = Inr v\<close>]] by (intro bexI [of _ s]) auto
  qed
qed

subsection \<open>At concrete inputs\<close>

definition reading :: "string \<Rightarrow> int \<Rightarrow> u64 \<Rightarrow> sample_row" where
  "reading n t rx = \<lparr>ts_id = 0, ts_node_id = n, ts_ts = t, ts_rx_bytes = rx, ts_tx_bytes = 0, ts_active_streams = 0,
     ts_active_sessions = 0, ts_peer_count = 0\<rparr>"

definition two_nodes :: "sample_row list" where
  "two_nodes = [reading ''n1'' 30 10, reading ''n1'' 65 30, reading ''n1'' 70 5, reading ''n1'' 130 9, reading ''n2'' 61 7]"

theorem series_totals_witness:
  "aggregateTrafficSeries two_nodes 60 = ([\<lparr>sp_Ts = 60, sp_RxBytes = 20, sp_TxBytes = 0\<rparr>,
     \<lparr>sp_Ts = 120, sp_RxBytes = 4, sp_TxBytes = 0\<rparr>], 24, 0) \<and>
   (24 :: u64) = (\<Sum>n \<in> {''n1'', ''n2''}. growth_of ts_rx_bytes n two_nodes)"
proof -
  have s: "sorted (map ts_node_id two_nodes)" by (simp add: two_nodes_def reading_def)
  have e: "aggregateTrafficSeries two_nodes 60 = ([\<lparr>sp_Ts = 60, sp_RxBytes = 20, sp_TxBytes = 0\<rparr>,
     \<lparr>sp_Ts = 120, sp_RxBytes = 4, sp_TxBytes = 0\<rparr>], 24, 0)" by code_simp
  have "ts_node_id ` set two_nodes = {''n1'', ''n2''}" by (simp add: two_nodes_def reading_def)
  then show ?thesis using series_totals [OF s, of 60] e by simp
qed

definition seen_flow :: flow_row where
  "seen_flow = \<lparr>fl_id = 1, fl_node_id = ''n1'', fl_session_id = ''s'', fl_stream_id = 1, fl_client_ip = ''10.0.0.2'',
     fl_remote = ''r'', fl_protocol = ''tcp'', fl_version = 1, fl_rx_bytes = 5, fl_tx_bytes = 6, fl_rx_rate = 0, fl_tx_rate = 0,
     fl_started_unix = 3, fl_sampled_unix = 4\<rparr>"

definition watched :: store where
  "watched = (sample_store DriverSQLite)\<lparr>flows := [seen_flow]\<rparr>"

definition live_query :: stats_query where
  "live_query = \<lparr>sq_method = ''GET'', sq_range = [], sq_sample = [], sq_node = ''n1'', sq_window = [], sq_limit = [], sq_offset = []\<rparr>"

definition root_viewer :: admin where
  "root_viewer = toStorageAdmin (sample_admin 1 ''root'' ''owner'')"

lemma watched_simps [simp]:
  "faults watched = []" "nodes watched = [sample_node]" "samples watched = []" "ntotals watched = []" "settings watched = []"
  "flows watched = [seen_flow]" "clock watched = 5000000" "data watched = watched"
  by (simp_all add: watched_def sample_store_def empty_store_def data_def)

lemma viewer_simps [simp]: "a_id root_viewer = 1" "localExtra root_viewer = [0]" "IsOwner root_viewer"
  by (simp_all add: root_viewer_def toStorageAdmin_def sample_admin_def localExtra_def IsOwner_def RoleOwner_def)

lemma owned_nodes: "ListServerNodesByOwners ServerNodeVKTurnProxy [1, 0] watched = (Inr [sample_node], watched)"
  by (simp add: ListServerNodesByOwners_def list_nodes_def select_ok sample_node_def)

theorem stats_show_own_nodes_witness:
  "\<exists>r \<in> set (nodes watched). nd_id r = ''n1'' \<and> (nd_owner r = 1 \<or> nd_owner r = 0)"
proof -
  have b: "BuildFlows 1 ''n1'' [0] watched = (Inr [flow_of_row seen_flow], watched)"
    by (simp add: BuildFlows_def ownedNodeIDs_def bindE_def owned_nodes filterNodeIDs_def ListFlowsForNodes_def select_ok
        sample_node_def seen_flow_def)
  obtain fs names w' where h: "handleStatsFlows live_query root_viewer (Map.empty, watched) = (FlowsAnswer fs names, w')" "''n1'' \<in> fv_NodeID ` set fs"
    by (cases "ClientNames 1 [0] watched") (auto simp: handleStatsFlows_def flows_for_def getting_def live_query_def orRefuse_def
        viewB_def b with_names_def flow_of_row_def seen_flow_def)
  show ?thesis
    using stats_show_own_nodes [of "handleStatsFlows live_query" live_query "\<lparr>ListInbounds = (\<lambda>_. None), ListOnlineClients = (\<lambda>_. None),
      GetClientTraffic = (\<lambda>_ _. None)\<rparr>" root_viewer "(Map.empty, watched)" "FlowsAnswer fs names" w' "''n1''"] h by simp
qed

theorem view_own_and_recent_witness:
  "\<exists>view w'. BuildTraffic None 1 [] [] [] [0] (fold (view_step None) [(watched, 1, [0], [], [], [])] Map.empty, watched) = (Inr view, w') \<and>
     (\<forall>n \<in> set (tv_Nodes view). within_owners watched [1, 0] (ns_ID n)) \<and> tv_Nodes view \<noteq> []"
proof -
  have "\<exists>v. buildTraffic 1 (ResolveRange []) [] [] [0] watched = (Inr v, watched) \<and> tv_Nodes v \<noteq> []"
    by (simp add: buildTraffic_def Let_def case_prod_beta bindE_def attempt_app GetPanelMode_def query_first_ok setting_row_of_def owned_nodes
        LatestTrafficSample_def find_row_ok ListTrafficSince_def select_ok SumNodeTrafficTotals_def totals_sum_def stmt_ok)
  then obtain v where v: "buildTraffic 1 (ResolveRange []) [] [] [0] watched = (Inr v, watched)" "tv_Nodes v \<noteq> []" by blast
  let ?key = "cache_key 1 [0] (ResolveRange []) [] []"
  have c: "fold (view_step None) [(watched, 1, [0], [], [], [])] Map.empty = [?key \<mapsto> (clock watched, v)]"
    by (simp add: view_step_def BuildTraffic_def Let_def v(1))
  have b: "BuildTraffic None 1 [] [] [] [0] (fold (view_step None) [(watched, 1, [0], [], [], [])] Map.empty, watched) =
      (Inr v, [?key \<mapsto> (clock watched, v)], watched)"
    unfolding c by (simp add: BuildTraffic_def Let_def trafficCacheTTL_def applyLiveRates_def)
  show ?thesis using view_own_and_recent [OF b] v(2) b by auto
qed

end
