(* ===== verification/LiveStats.thy ===== *)
theory LiveStats
  imports StatsView Collector DeviceSession
begin

text \<open>
  Live figures: the memory and the streams of \<^verbatim>\<open>internal/livestats/livestats.go\<close>, the closures of
  \<^verbatim>\<open>internal/httpapi/server.go\<close> that hand them to the hub, and the socket of \<^verbatim>\<open>internal/handlers/admin/ws.go\<close> that
  carries them to a screen. Times are in nanoseconds. JSON is a parameter. The goroutines of the streamer are the
  steps they take: a reconciliation, and a frame that a stream hands over. What Go leaves open, the value of a float
  that does not fit an unsigned integer, is the field \<open>lx_overflow\<close>.
\<close>

subsection \<open>Floats\<close>

text \<open>Rounding of a positive rational to the nearest float of 64 bits, ties to even; the values here are far from the
  limits of the exponent.\<close>

definition round_even :: "rat \<Rightarrow> int" where
  "round_even x = (let f = \<lfloor>x\<rfloor>; d = x - of_int f in if d < 1 / 2 \<or> d = 1 / 2 \<and> even f then f else f + 1)"

definition bits :: "int \<Rightarrow> int" where
  "bits n = (if n \<le> 0 then 0 else int (length (takeWhile (\<lambda>k. 2 ^ k \<le> n) [0..<128])))"

definition float64 :: "rat \<Rightarrow> rat" where
  "float64 x = (if x \<le> 0 then 0 else
     case quotient_of x of (p, q) \<Rightarrow>
       let g = bits p - bits q; e = (if 2 powi g \<le> x then g else g - 1) - 52 in
       of_int (round_even (x / 2 powi e)) * 2 powi e)"

definition second :: int where "second = 1000000000"

text \<open>\<^verbatim>\<open>Duration.Seconds\<close>\<close>

definition seconds_of :: "int \<Rightarrow> rat" where
  "seconds_of d = float64 (of_int (d div second) + float64 (of_int (d mod second) / 1000000000))"

definition per_second :: "u64 \<Rightarrow> u64 \<Rightarrow> int \<Rightarrow> u64" where
  "per_second overflow moved d = (let r = \<lfloor>float64 (float64 (of_int (uint moved)) / seconds_of d)\<rfloor> in
     if r < 2 ^ 64 then word_of_int r else overflow)"

subsection \<open>The store of rates\<close>

definition staleAfter :: int where "staleAfter = 10 * second"
definition flowsEmitInterval :: int where "flowsEmitInterval = 2 * second"

record node_sample =
  lv_rxRate :: u64
  lv_txRate :: u64
  lv_rxBytes :: u64
  lv_txBytes :: u64
  lv_at :: int

datatype live_msg =
    NodeStatsMsg string u64 u64 flow_stats
  | NodeFlowsMsg string "flow_view list"

record live_env =
  lx_json :: "live_msg \<Rightarrow> bytes option"
  lx_overflow :: u64
  lx_emit :: bool

record live =
  lv_nodes :: "string \<rightharpoonup> node_sample"
  lv_lastFlowEmit :: "string \<rightharpoonup> int"
  lv_active :: "(string \<times> node_row) list"

definition NewStreamer :: live where
  "NewStreamer = \<lparr>lv_nodes = Map.empty, lv_lastFlowEmit = Map.empty, lv_active = []\<rparr>"

definition update_rates :: "live_env \<Rightarrow> string \<Rightarrow> u64 \<Rightarrow> u64 \<Rightarrow> int \<Rightarrow> live \<Rightarrow> (u64 \<times> u64) \<times> live" where
  "update_rates E i rxBytes txBytes t v =
     (let (rx, tx) = (case lv_nodes v i of
            None \<Rightarrow> (0, 0)
          | Some prev \<Rightarrow>
              let dt = t - lv_at prev in
              if dt > 0 then
                (if rxBytes \<ge> lv_rxBytes prev then per_second (lx_overflow E) (rxBytes - lv_rxBytes prev) dt else 0,
                 if txBytes \<ge> lv_txBytes prev then per_second (lx_overflow E) (txBytes - lv_txBytes prev) dt else 0)
              else (0, 0)) in
      ((rx, tx), v\<lparr>lv_nodes := (lv_nodes v)(i \<mapsto> \<lparr>lv_rxRate = rx, lv_txRate = tx, lv_rxBytes = rxBytes,
          lv_txBytes = txBytes, lv_at = t\<rparr>)\<rparr>))"

definition drop_node :: "string \<Rightarrow> live \<Rightarrow> live" where
  "drop_node i v = v\<lparr>lv_nodes := (lv_nodes v)(i := None)\<rparr>"

definition RatesFor :: "int \<Rightarrow> live \<Rightarrow> string list \<Rightarrow> u64 \<times> u64" where
  "RatesFor t v ids =
     (let fresh = concat (map (\<lambda>i. case lv_nodes v i of None \<Rightarrow> [] | Some e \<Rightarrow> if t - lv_at e > staleAfter then [] else [e]) ids) in
      (sum_list (map lv_rxRate fresh), sum_list (map lv_txRate fresh)))"

subsection \<open>The streamer\<close>

text \<open>\<^verbatim>\<open>reconcile\<close>: a stream is opened for every node that has none, with the row as it is now, and the streams of nodes that
  are gone are closed.\<close>

definition open_stream :: "node_row \<Rightarrow> live \<Rightarrow> live" where
  "open_stream n v = (if nd_id n \<in> fst ` set (lv_active v) then v else v\<lparr>lv_active := lv_active v @ [(nd_id n, n)]\<rparr>)"

definition close_stream :: "string \<Rightarrow> live \<Rightarrow> live" where
  "close_stream i v = drop_node i (v\<lparr>lv_active := filter (\<lambda>(j, _). j \<noteq> i) (lv_active v)\<rparr>)"

definition reconcile :: "live \<Rightarrow> store \<Rightarrow> live \<times> store" where
  "reconcile v s = (case ListServerNodes ServerNodeVKTurnProxy s of
     (Inl _, s') \<Rightarrow> (v, s')
   | (Inr listed, s') \<Rightarrow>
       let v1 = fold open_stream listed v;
           gone = filter (\<lambda>i. i \<notin> nd_id ` set listed) (map fst (lv_active v1)) in
       (fold close_stream gone v1, s'))"

definition Ingest :: "live_env \<Rightarrow> int \<Rightarrow> string \<Rightarrow> flow_stats \<Rightarrow> live \<Rightarrow> (string \<times> bytes) list \<times> live" where
  "Ingest E t i st v = (case update_rates E i (ServerRxBytes st) (ServerTxBytes st) t v of ((rx, tx), v') \<Rightarrow>
     (if \<not> lx_emit E then [] else case lx_json E (NodeStatsMsg i rx tx st) of None \<Rightarrow> [] | Some raw \<Rightarrow> [(''node_stats'', raw)], v'))"

definition flow_msg :: "string \<Rightarrow> relay_flow \<Rightarrow> flow_view" where
  "flow_msg i f = \<lparr>fv_NodeID = i, fv_SessionID = rf_SessionID f, fv_StreamID = rf_StreamID f, fv_ClientIP = rf_ClientIP f,
     fv_Remote = rf_Remote f, fv_Protocol = rf_Protocol f, fv_Version = rf_Version f, fv_RxBytes = rf_RxBytes f,
     fv_TxBytes = rf_TxBytes f, fv_RxRate = rf_RxRate f, fv_TxRate = rf_TxRate f, fv_Started = rf_StartedUnix f\<rparr>"

definition IngestFlows :: "live_env \<Rightarrow> int \<Rightarrow> string \<Rightarrow> relay_flow list \<Rightarrow> live \<Rightarrow> (string \<times> bytes) list \<times> live" where
  "IngestFlows E t i fs v =
     (if \<not> lx_emit E then ([], v)
      else if (case lv_lastFlowEmit v i of None \<Rightarrow> False | Some prev \<Rightarrow> t - prev < flowsEmitInterval) then ([], v)
      else (case lx_json E (NodeFlowsMsg i (map (flow_msg i) fs)) of None \<Rightarrow> [] | Some raw \<Rightarrow> [(''node_flows'', raw)],
            v\<lparr>lv_lastFlowEmit := (lv_lastFlowEmit v)(i \<mapsto> t)\<rparr>))"

text \<open>\<^verbatim>\<open>relayFactory\<close>: what a stream authenticates with.\<close>

definition stream_token :: "string \<Rightarrow> node_row \<Rightarrow> string" where
  "stream_token relayToken n = (if nd_grpc_token n = [] then relayToken else nd_grpc_token n)"

subsection \<open>To the screens\<close>

definition live_event :: "string \<Rightarrow> bytes \<Rightarrow> 'f admin_event" where
  "live_event kind payload = \<lparr>ev_ClientID = [], ev_Frame = None, ev_Kind = kind, ev_Data = payload\<rparr>"

definition liveEmit :: "'f codec \<Rightarrow> hub \<Rightarrow> string \<times> bytes \<Rightarrow> 'f effect list" where
  "liveEmit K h m = BroadcastToAdmins K (live_event (fst m) (snd m)) h"

record ws_event =
  we_ClientID :: string
  we_Kind :: string
  we_Payload :: bytes

datatype ws_out = WsError | WsSkip | WsWrite ws_event

definition sink_room :: nat where "sink_room = 64"

text \<open>\<^verbatim>\<open>adminSink.SendEvent\<close> on the channel of a session.\<close>

definition enqueue_event :: "'f admin_event \<Rightarrow> 'f admin_event list \<Rightarrow> 'f admin_event list" where
  "enqueue_event ev q = (if length q < sink_room then q @ [ev] else q)"

record ('c, 'r) ws_json =
  wj_frame :: "('c, 'r) frame \<Rightarrow> bytes option"
  wj_valid :: "bytes \<Rightarrow> bool"

definition buildAdminEnvelope :: "('c, 'r) ws_json \<Rightarrow> string \<Rightarrow> ('c, 'r) frame \<Rightarrow> ws_event option" where
  "buildAdminEnvelope J clientID fr =
     (let carry = (\<lambda>kind. map_option (\<lambda>raw. \<lparr>we_ClientID = clientID, we_Kind = kind, we_Payload = raw\<rparr>) (wj_frame J fr)) in
      case fr of
        StateReport _ \<Rightarrow> carry ''state_report''
      | StatusUpdate _ \<Rightarrow> carry ''status_update''
      | LogChunk _ \<Rightarrow> carry ''log_chunk''
      | CommandAck _ \<Rightarrow> carry ''command_ack''
      | ServerError _ \<Rightarrow> carry ''error''
      | InstalledApps _ \<Rightarrow> Some \<lparr>we_ClientID = clientID, we_Kind = ''installed_apps'', we_Payload = []\<rparr>
      | _ \<Rightarrow> Some \<lparr>we_ClientID = clientID, we_Kind = [], we_Payload = []\<rparr>)"

definition writeEvent :: "('c, 'r) ws_json \<Rightarrow> ('c, 'r) frame admin_event \<Rightarrow> ws_out" where
  "writeEvent J ev = (case ev_Frame ev of
     None \<Rightarrow>
       if ev_Kind ev = [] then WsSkip
       else if \<not> wj_valid J (ev_Data ev) then WsError
       else WsWrite \<lparr>we_ClientID = [], we_Kind = ev_Kind ev, we_Payload = ev_Data ev\<rparr>
   | Some fr \<Rightarrow> (case buildAdminEnvelope J (ev_ClientID ev) fr of
       None \<Rightarrow> WsError
     | Some envelope \<Rightarrow> if we_Kind envelope = [] then WsSkip else WsWrite envelope))"

datatype ws_start = WsRefused nat | WsNoUpgrade | WsAttached int

definition handleWS :: "string option \<Rightarrow> bool \<Rightarrow> nat \<Rightarrow> store \<times> hub \<Rightarrow> ws_start \<times> store \<times> hub" where
  "handleWS cookie accepted sink w = (case w of (s, h) \<Rightarrow>
     case Authenticate cookie s of
       (Inl _, s') \<Rightarrow> (WsRefused 401, s', h)
     | (Inr adm, s') \<Rightarrow>
         if \<not> accepted then (WsNoUpgrade, s', h) else (WsAttached (a_id adm), s', AttachAdmin (a_id adm) sink h))"

subsection \<open>Properties\<close>

text \<open>C39: The live flows of a node go to everybody. Whoever is signed in and opens the socket, without panel access as well,
  is handed every flow list of a node that is sent on, with the addresses of its clients, whoever the node belongs to; the
  dashboard shows the same rows to the owner of the node only.\<close>

theorem live_flows_reach_everyone:
  fixes K :: "('c, 'r) frame codec" and J :: "('c, 'r) ws_json"
  assumes "handleWS cookie True sink (s, h) = (WsAttached me, s', h')"
    and "IngestFlows E t i fs v = ([m], v')" "wj_valid J (snd m)"
  shows "lx_json E (NodeFlowsMsg i (map (flow_msg i) fs)) = Some (snd m) \<and>
    SendEvent sink (live_event ''node_flows'' (snd m)) \<in> set (liveEmit K h' m) \<and>
    writeEvent J (live_event ''node_flows'' (snd m)) = WsWrite \<lparr>we_ClientID = [], we_Kind = ''node_flows'', we_Payload = snd m\<rparr>"
proof -
  have m: "m = (''node_flows'', snd m)" "lx_json E (NodeFlowsMsg i (map (flow_msg i) fs)) = Some (snd m)"
    using assms(2) by (auto simp: IngestFlows_def split: if_splits option.splits)
  have "(me, sink) \<in> set (hb_admins h')"
    using assms(1) by (auto simp: handleWS_def AttachAdmin_def split: prod.splits sum.splits)
  then have "SendEvent sink (live_event (fst m) (snd m)) \<in> set (liveEmit K h' m)"
    by (force simp: liveEmit_def BroadcastToAdmins_def deliverLocalBroadcast_def)
  moreover have "fst m = ''node_flows''" using m(1) by (metis fst_conv)
  ultimately show ?thesis using m(2) assms(3) by (simp add: writeEvent_def live_event_def)
qed

definition reconciled :: "store list \<Rightarrow> live \<Rightarrow> live" where
  "reconciled ss v = fold (\<lambda>s v. fst (reconcile v s)) ss v"

lemma open_keeps: "map_of (lv_active v) i = Some n \<Longrightarrow> map_of (lv_active (fold open_stream ns v)) i = Some n"
  by (induction ns arbitrary: v) (simp_all add: open_stream_def map_add_Some_iff map_add_def)

lemma map_of_filter_key: "map_of (filter (\<lambda>(j, _). P j) xs) i = (if P i then map_of xs i else None)"
  by (induction xs) auto

lemma close_keeps: "i \<notin> set gone \<Longrightarrow> map_of (lv_active (fold close_stream gone v)) i = map_of (lv_active v) i"
  by (induction gone arbitrary: v) (simp_all add: close_stream_def drop_node_def map_of_filter_key)

text \<open>A stream never learns that its node was edited. While a node stays registered, reconciling any number of times
  leaves its stream with the row it was opened with, whatever the database holds by then: a new address or a new token
  reaches it only after a restart.\<close>

theorem stream_keeps_row:
  assumes "map_of (lv_active v) i = Some n"
    and "\<forall>s \<in> set ss. \<exists>r \<in> set (nodes s). nd_id r = i \<and> nd_kind r = ServerNodeVKTurnProxy"
  shows "map_of (lv_active (reconciled ss v)) i = Some n"
  using assms
proof (induction ss arbitrary: v)
  case Nil
  then show ?case by (simp add: reconciled_def)
next
  case (Cons s ss)
  have "map_of (lv_active (fst (reconcile v s))) i = Some n"
  proof (cases "ListServerNodes ServerNodeVKTurnProxy s")
    case (Pair r s')
    show ?thesis
    proof (cases r)
      case (Inr listed)
      then have "set listed = {r \<in> set (nodes s). nd_kind r = ServerNodeVKTurnProxy}"
        using Pair by (auto simp: ListServerNodes_def list_nodes_def select_def stmt_def ServerNodeVKTurnProxy_def split: list.splits if_splits)
      then have "i \<in> nd_id ` set listed" using Cons.prems(2) by auto
      then show ?thesis using Pair Inr open_keeps [OF Cons.prems(1), of listed]
        by (simp add: reconcile_def Let_def close_keeps)
    qed (use Pair Cons.prems(1) in \<open>simp add: reconcile_def\<close>)
  qed
  then show ?case using Cons.IH [of "fst (reconcile v s)"] Cons.prems(2) by (simp add: reconciled_def)
qed

text \<open>The times at which the flows of a node are sent on, of a run of reports of any nodes.\<close>

fun emitted :: "live_env \<Rightarrow> string \<Rightarrow> (int \<times> string \<times> relay_flow list) list \<Rightarrow> live \<Rightarrow> int list" where
  "emitted E i [] v = []"
| "emitted E i ((t, j, fs) # rest) v = (case IngestFlows E t j fs v of (out, v') \<Rightarrow>
     (if j = i \<and> out \<noteq> [] then [t] else []) @ emitted E i rest v')"

lemma emitted_spaced:
  "sorted_wrt (\<lambda>a b. a + flowsEmitInterval \<le> b) (emitted E i reports v) \<and>
   (\<forall>l. lv_lastFlowEmit v i = Some l \<longrightarrow> (\<forall>t \<in> set (emitted E i reports v). l + flowsEmitInterval \<le> t))"
proof (induction E i reports v rule: emitted.induct)
  case (2 E i t j fs rest v)
  obtain out v' where o: "IngestFlows E t j fs v = (out, v')" by fastforce
  have IH: "sorted_wrt (\<lambda>a b. a + flowsEmitInterval \<le> b) (emitted E i rest v')"
    "\<And>l. lv_lastFlowEmit v' i = Some l \<Longrightarrow> \<forall>t \<in> set (emitted E i rest v'). l + flowsEmitInterval \<le> t"
    using "2.IH" [OF o [symmetric]] by auto
  have pos: "0 \<le> flowsEmitInterval" by (simp add: flowsEmitInterval_def second_def)
  consider (kept) "lv_lastFlowEmit v' = lv_lastFlowEmit v" "out = []"
    | (sent) "lv_lastFlowEmit v' = (lv_lastFlowEmit v)(j \<mapsto> t)" "\<forall>l. lv_lastFlowEmit v j = Some l \<longrightarrow> l + flowsEmitInterval \<le> t"
    using o by (auto simp: IngestFlows_def split: if_splits option.splits)
  then show ?case
  proof cases
    case kept
    then show ?thesis using IH o by simp
  next
    case sent
    show ?thesis
    proof (cases "j = i")
      case True
      then have "\<forall>u \<in> set (emitted E i rest v'). t + flowsEmitInterval \<le> u" using IH(2) sent(1) by simp
      then show ?thesis using IH(1) sent(2) True o pos by fastforce
    next
      case False
      then show ?thesis using IH sent(1) o by simp
    qed
  qed
qed simp

text \<open>The screens are not flooded: whatever a node and the collector report, and whenever, the flow list of a node is
  sent on at most once in two seconds.\<close>

theorem flows_spaced: "sorted_wrt (\<lambda>a b. a + flowsEmitInterval \<le> b) (emitted E i reports v)"
  using emitted_spaced by blast

subsection \<open>At concrete inputs\<close>

definition member_store :: store where
  "member_store = desk_store\<lparr>admins := [sample_admin 1 ''root'' ''owner'', (sample_admin 2 ''ann'' ''admin'')\<lparr>adm_panel_access := 0\<rparr>]\<rparr>"

definition plain_env :: live_env where
  "plain_env = \<lparr>lx_json = (\<lambda>m. case m of NodeFlowsMsg _ fs \<Rightarrow> Some (concat (map fv_ClientIP fs)) | NodeStatsMsg _ _ _ _ \<Rightarrow> None),
     lx_overflow = 0, lx_emit = True\<rparr>"

definition one_flow :: relay_flow where
  "one_flow = \<lparr>rf_SessionID = ''s'', rf_StreamID = 1, rf_ClientIP = ''10.9.9.9'', rf_Remote = ''r'', rf_Protocol = ''tcp'', rf_Version = 1,
     rf_RxBytes = 1, rf_TxBytes = 1, rf_RxRate = 0, rf_TxRate = 0, rf_StartedUnix = 1\<rparr>"

theorem live_flows_reach_everyone_witness:
  "\<exists>s' h'. handleWS (Some ''tok'') True 7 (member_store, new_hub) = (WsAttached 2, s', h') \<and>
     SendEvent 7 (live_event ''node_flows'' ''10.9.9.9'') \<in>
       set (liveEmit \<lparr>marshal = (\<lambda>_ :: (nat, nat) frame. None), unmarshal = (\<lambda>_. None)\<rparr> h' (''node_flows'', ''10.9.9.9'')) \<and>
     nd_owner sample_node \<noteq> 2 \<and> (\<forall>a. fst (Authenticate (Some ''tok'') member_store) = Inr a \<longrightarrow> \<not> a_panel_access a \<and> \<not> IsOwner a)"
proof -
  have a: "case fst (Authenticate (Some ''tok'') member_store) of Inl _ \<Rightarrow> False | Inr a \<Rightarrow> a_id a = 2 \<and> \<not> a_panel_access a \<and> \<not> IsOwner a"
    by code_simp
  then obtain x s' where x: "Authenticate (Some ''tok'') member_store = (Inr x, s')" "a_id x = 2" "\<not> a_panel_access x" "\<not> IsOwner x"
    by (cases "Authenticate (Some ''tok'') member_store") (auto split: sum.splits)
  have w: "handleWS (Some ''tok'') True 7 (member_store, new_hub) = (WsAttached 2, s', AttachAdmin 2 7 new_hub)"
    by (simp add: handleWS_def x)
  have f: "IngestFlows plain_env 0 ''n1'' [one_flow] NewStreamer =
      ([(''node_flows'', ''10.9.9.9'')], NewStreamer\<lparr>lv_lastFlowEmit := [''n1'' \<mapsto> 0]\<rparr>)"
    by (simp add: IngestFlows_def NewStreamer_def plain_env_def flow_msg_def one_flow_def)
  have s: "SendEvent 7 (live_event ''node_flows'' ''10.9.9.9'') \<in>
      set (liveEmit \<lparr>marshal = (\<lambda>_ :: (nat, nat) frame. None), unmarshal = (\<lambda>_. None)\<rparr> (AttachAdmin 2 7 new_hub) (''node_flows'', ''10.9.9.9''))"
    using live_flows_reach_everyone [OF w f, of "\<lparr>wj_frame = (\<lambda>_ :: (nat, nat) frame. None), wj_valid = (\<lambda>_. True)\<rparr>"
      "\<lparr>marshal = (\<lambda>_ :: (nat, nat) frame. None), unmarshal = (\<lambda>_. None)\<rparr>"] by simp
  show ?thesis
    by (intro exI conjI, rule w, rule s) (use x in \<open>auto simp: sample_node_def\<close>)
qed

definition new_token :: store where
  "new_token = (sample_store DriverSQLite)\<lparr>nodes := [sample_node\<lparr>nd_grpc_token := ''new''\<rparr>]\<rparr>"

theorem stream_keeps_row_witness:
  "map_of (lv_active (reconciled [new_token, new_token] (fst (reconcile NewStreamer (sample_store DriverSQLite))))) ''n1'' = Some sample_node \<and>
   nodes new_token \<noteq> [sample_node]"
proof -
  have n: "nodes (sample_store DriverSQLite) = [sample_node]" by (simp add: sample_store_def)
  have o: "map_of (lv_active (fst (reconcile NewStreamer (sample_store DriverSQLite)))) ''n1'' = Some sample_node"
    by (simp add: reconcile_def ListServerNodes_def list_nodes_def select_ok n Let_def open_stream_def NewStreamer_def)
       (simp add: sample_node_def)
  show ?thesis using stream_keeps_row [OF o, of "[new_token, new_token]"] by (simp add: new_token_def sample_node_def)
qed

end
