(* ===== verification/Spec2Isabelle.thy ===== *)
theory Spec2Isabelle
  imports Invites DeviceQueues TokenAead Collector SignIn AccountDesk LiveStats
begin

text \<open>
  A verification library of the WINGS V panel, the Go program under \<^verbatim>\<open>src/\<close>: a server that keeps the
  accounts, devices, nodes and settings of a VPN service in one SQL database, serves a web panel and
  a mobile application over HTTP, keeps a stream to every device, and talks to relays over gRPC.

  \<^bold>\<open>How the program is put together\<close>

  Everything the panel knows is in the database behind \<^verbatim>\<open>internal/storage\<close>. Three groups of code read
  and write it: the HTTP handlers (\<^verbatim>\<open>internal/handlers/admin\<close> and \<^verbatim>\<open>owner\<close>) for people, the Guardian
  service (\<^verbatim>\<open>internal/handlers/guardian\<close>) for devices, and the provisioning service and the collector
  for relays. The hub (\<^verbatim>\<open>internal/guardianhub\<close>) joins them: a handler that changes a device hands the
  new configuration to the device's stream, and what a device reports reaches the screens of its
  owner, across replicas through a bus.

  \<^bold>\<open>Theories, in the order they build on each other\<close>

  \<^item> Prelude: the Go types and library functions the code uses, and generic facts of lists.
  \<^item> Rows, Store, StoreLaws, StoreInv: one record per table (\<^verbatim>\<open>storage/dbmodel/models.go\<close>), the
    database as a record of lists of rows, each SQL statement as the update it denotes
    (\<^verbatim>\<open>storage/storage.go\<close>, \<^verbatim>\<open>schema.sql\<close>), the laws of the statements, and the invariant \<open>wf_store\<close>
    (keys and references). Interfaces: the locale \<open>keyed_table\<close>, whose laws every upsert rests on.
  \<^item> Clients, ClientState, Nodes, Counters, ClientTraffic, Traffic: devices, their configurations and
    reports, nodes and WireGuard peers, quotas and counters (\<^verbatim>\<open>storage/clients.go\<close>, \<^verbatim>\<open>state.go\<close>,
    \<^verbatim>\<open>servernodes.go\<close>, \<^verbatim>\<open>clientwgpeers.go\<close>, \<^verbatim>\<open>clienttraffic.go\<close>, \<^verbatim>\<open>traffic.go\<close>). The locale
    \<open>counter_accumulator\<close> is the contract of a counter that is read as a running total.
  \<^item> Admins, Walks, Invites: accounts, avatars, sessions, invitations and their tree, audit log,
    settings (\<^verbatim>\<open>storage/admins.go\<close>, \<^verbatim>\<open>account.go\<close>, \<^verbatim>\<open>blobs.go\<close>, \<^verbatim>\<open>sessions.go\<close>, \<^verbatim>\<open>adminvklinks.go\<close>,
    \<^verbatim>\<open>audit.go\<close>, \<^verbatim>\<open>invites_tree.go\<close>, \<^verbatim>\<open>admintraffic.go\<close>). The walks are bounded at 64 steps by the
    code and shown to end with the whole branch.
  \<^item> DeviceQueues, SecondFactor: pending commands and logs, second factor and application tokens
    (\<^verbatim>\<open>storage/pending_commands.go\<close>, \<^verbatim>\<open>logs.go\<close>, \<^verbatim>\<open>totp.go\<close>, \<^verbatim>\<open>appsessions.go\<close>).
  \<^item> Hex, Auth, Attempts, SignIn: the authentication service (\<^verbatim>\<open>auth/auth.go\<close>), the attempt limiter,
    the one-time codes and the QR desk, and the doors by password, application and QR
    (\<^verbatim>\<open>handlers/admin/admin.go\<close>, \<^verbatim>\<open>appauth.go\<close>, \<^verbatim>\<open>qrlogin.go\<close>, \<^verbatim>\<open>totp.go\<close>, \<^verbatim>\<open>ratelimit.go\<close>).
  \<^item> TokenAead: the management transport to relays (\<^verbatim>\<open>tokenaead/tokenaead.go\<close>, \<^verbatim>\<open>preference.go\<close>).
  \<^item> Provisioning, Collector: the service relays call (\<^verbatim>\<open>provisioning/service.go\<close>) and the polling and
    enforcement cycle (\<^verbatim>\<open>collector/collector.go\<close>).
  \<^item> Hub, DeviceSession: live delivery (\<^verbatim>\<open>guardianhub/hub.go\<close>, \<^verbatim>\<open>bus/bus.go\<close>) and the device protocol
    (\<^verbatim>\<open>handlers/guardian/session.go\<close>, \<^verbatim>\<open>grpc.go\<close>) as steps that return the frames they send.
  \<^item> ConfigPatch, ManagedTurn: edits of a configuration by field path (\<^verbatim>\<open>configpatch/configpatch.go\<close>),
    over messages as lists of populated fields, with the locale \<open>proto_merge\<close> for protobuf's merge; the
    profile the panel keeps in a device's configuration (\<^verbatim>\<open>handlers/admin/clients.go\<close>).
  \<^item> ClientDesk, ClientDeskLaws, MasterDesk: the handlers of the devices of an administrator and of the
    master configuration (\<^verbatim>\<open>handlers/admin/clients.go\<close>, \<^verbatim>\<open>master.go\<close>, \<^verbatim>\<open>storage/master.go\<close>).
  \<^item> Base64, Links: the share links (\<^verbatim>\<open>preview/builder.go\<close>, \<^verbatim>\<open>vless.go\<close>, the decoding half of
    \<^verbatim>\<open>parser.go\<close>).
  \<^item> InviteDesk, OwnerDesk, AccountDesk: the handlers of invitations, the owner's console, and the
    doors by external account with the gates of the panel (\<^verbatim>\<open>handlers/admin/invites.go\<close>,
    \<^verbatim>\<open>appinvites.go\<close>, \<^verbatim>\<open>handlers/owner/owner.go\<close>, \<^verbatim>\<open>invitetree.go\<close>, \<^verbatim>\<open>oidcauth/oidcauth.go\<close>,
    \<^verbatim>\<open>handlers/admin/account*.go\<close>, \<^verbatim>\<open>appaccount.go\<close>, \<^verbatim>\<open>admin.go\<close>, \<^verbatim>\<open>cabinet.go\<close>).
  \<^item> StatsView: the traffic dashboard (\<^verbatim>\<open>statsview/statsview.go\<close>, \<^verbatim>\<open>handlers/admin/stats.go\<close>,
    \<^verbatim>\<open>handlers/owner/stats.go\<close>) with its cache.
  \<^item> LiveStats: the rates and flow lists the relays stream (\<^verbatim>\<open>livestats/livestats.go\<close>) and the socket that
    carries events to the screens (\<^verbatim>\<open>handlers/admin/ws.go\<close>).
  \<^item> Sample: the small database on which the properties are applied at concrete inputs.

  A Go struct is a record, or the row type it mirrors, an exported name keeps its spelling, and a
  helper has the name of the function it translates. A method on a receiver takes the receiver's
  state as its last argument and returns it updated. A handler takes the caller, the parts of the
  request it reads (a body that does not decode is \<^term>\<open>None\<close>) and the random values it draws, and
  returns its answer, a status or a value; the texts of refusals are left out.

  \<^bold>\<open>Failures, time and the outside\<close>

  Whether the database accepts a statement is a parameter, the list \<open>faults\<close> of the store: its head
  refuses the next statement, and the empty list is an engine that works. A theorem with
  \<open>faults s = []\<close> is about a working engine; one without it holds under every pattern of failures,
  and says what is left behind by a handler that is interrupted between two statements. The three
  dialects differ where the code's meaning does: foreign keys of SQLite, \<^verbatim>\<open>RowsAffected\<close> of MariaDB,
  upserts with repeated keys of PostgreSQL. Time is the field \<open>clock\<close> or an argument. A mutex makes
  the operation that holds it one step; where two operations interleave (the streams of a device,
  racing edits, sessions of a fleet, a cut between two polls) the theorem is over sequences of steps.

  Code that is not under \<^verbatim>\<open>src/\<close> is an argument: bcrypt and the SHA hashes (\<open>crypto\<close>), AES-GCM and HKDF
  (\<open>suite\<close>, with the laws \<open>aead_ok\<close> and \<open>separated\<close>), protobuf (\<open>codec\<close>, \<open>proto_merge\<close>, \<open>link_env\<close>), brotli
  and zlib, the URL parser, TOTP, the relays and the 3x-ui servers, the account service, the identity
  provider, and the head of the federation. Every hypothesis on them is instantiated in a witness.

  \<^bold>\<open>What the lemmas show\<close>

  \<^item> Invariant: every operation, handler and cycle keeps \<open>wf_store\<close> whatever fails; the rule set \<open>pres\<close>
    carries it from the statements up. The locale \<open>console_law\<close> of OwnerDesk says once how any
    property of the database passes through the console; it is interpreted for well-formedness, for the
    standing of owners and for the ranges of settings.
  \<^item> Who may do what: tenancy of devices in all their tables, the gates of the panel and the console, whom
    the authentication service admits and with which factors, who hands out codes, what the console never does to an owner, whose traffic a
    dashboard shows.
  \<^item> What is computed: what a polling cycle records of each relay, usage, charts and rollups against their mathematical sums, the walk of the tree against
    the closure of its edges, patches and merges field by field, links and codes as round trips.
  \<^item> What is delivered: the record stream of the transport as a prefix, events exactly once, a
    configuration until it is applied.
  \<^item> What goes wrong: executions that show a defect are theorems too, such as the second factor that a
    failing query skips, the cut account that keeps its application token, a racing edit that is lost,
    a panel that its member
    opens again, and flows of one tenant's node on the screens of all.

  \<^bold>\<open>Bounds\<close>

  Byte counters are words of 64 bits and wrap; identifiers and times are unbounded integers, except
  where the code multiplies or shifts them, and there the wrap is written out. No loop runs on fuel of the
  model's own: the walk down the invitation tree is bounded by the code at 64 steps per edge, which is
  proved enough for the whole branch, and the walk up at 64 steps, where a longer chain is cut.
  Codes of the QR desk and of the application live two minutes, logins in flight ten; the limiter allows ten attempts a minute and then blocks
  for ten, and a redemption that succeeds makes it forget its keys.

  \<^bold>\<open>Not modelled\<close>

  Opening the database, its migrations and the copy between engines, the key-value rows, and the
  PostgreSQL carrier of the bus are I/O against the engine. The gRPC and HTTP clients of relays, 3x-ui,
  the account service, the federation head and the blockchain node are calls, which the models take as
  parameters. Of the handlers, those of nodes and WireGuard peers, of the fleet and the federation
  pages, donations and payouts, avatars and the process statistics are left out, and of
  the live streams the goroutines and their retries; a run of them is a sequence of the steps they take.
  The preview of a configuration as
  labelled facts (most of \<^verbatim>\<open>preview/parser.go\<close>), the HTTP server with its middleware, static files and
  start-up, certificates, metrics, configuration from the environment and pictures are rendering and
  wiring. JSON and HTTP encodings are below the models: requests come decoded and answers are values.
\<close>

end
